(* ===== verification/Fuse_Prelude.thy ===== *)
theory Fuse_Prelude
  imports Main "HOL-Library.Word"
begin

text \<open>
  Shared vocabulary of the development: the machine integers of the C sources as words, the
  little-endian byte representation of integers in memory (the target is the 64-bit
  little-endian ABI of the Unikraft/KVM build), bounded memory writes, C strings, the errno
  constants the code uses, and the fact collections the component proofs share.
\<close>

unbundle bit_operations_syntax

type_synonym byte = "8 word"
type_synonym u16 = "16 word"
type_synonym u32 = "32 word"
type_synonym u64 = "64 word"
type_synonym addr = nat

named_theorems layout \<open>sizes and byte layouts of the protocol structures\<close>
named_theorems reply_simps \<open>effect of the reply functions on the library state\<close>

section \<open>Integers in memory\<close>

definition le_bytes :: "nat \<Rightarrow> 'a::len word \<Rightarrow> byte list" where
  "le_bytes n w = map (\<lambda>i. ucast (drop_bit (8 * i) w)) [0..<n]"

primrec le_word :: "byte list \<Rightarrow> 'a::len word" where
  "le_word [] = 0"
| "le_word (b # bs) = ucast b OR push_bit 8 (le_word bs)"

definition rd16 :: "byte list \<Rightarrow> nat \<Rightarrow> u16" where
  "rd16 bs off = le_word (take 2 (drop off bs))"

definition rd32 :: "byte list \<Rightarrow> nat \<Rightarrow> u32" where
  "rd32 bs off = le_word (take 4 (drop off bs))"

definition rd64 :: "byte list \<Rightarrow> nat \<Rightarrow> u64" where
  "rd64 bs off = le_word (take 8 (drop off bs))"

definition has_bits :: "'a::len word \<Rightarrow> 'a word \<Rightarrow> bool" where
  "has_bits w m \<longleftrightarrow> w AND m \<noteq> 0"

section \<open>Memory blocks and C strings\<close>

text \<open>Writing a run of bytes into an allocated block; \<open>None\<close> is a write past its end.\<close>

definition mem_write :: "byte list \<Rightarrow> nat \<Rightarrow> byte list \<Rightarrow> byte list option" where
  "mem_write m off d =
     (if off + length d \<le> length m then Some (take off m @ d @ drop (off + length d) m) else None)"

text \<open>The C string at the start of a block: the bytes before the first NUL; \<open>None\<close> when the
  block holds no NUL, where \<open>strlen\<close> would run past its end.\<close>

definition c_string :: "byte list \<Rightarrow> byte list option" where
  "c_string bs = (if 0 \<in> set bs then Some (takeWhile (\<lambda>b. b \<noteq> 0) bs) else None)"

definition bytes_of :: "string \<Rightarrow> byte list" where
  "bytes_of s = map of_char s"

text \<open>\<^verbatim>\<open>strcmp(s, t) == 0\<close> on the blocks that \<open>s\<close> and \<open>t\<close> point into: \<open>None\<close> when the comparison leaves
  a block. Likewise \<^verbatim>\<open>strncmp(s, t, n) == 0\<close>.\<close>

fun strcmp_eq :: "byte list \<Rightarrow> byte list \<Rightarrow> bool option" where
  "strcmp_eq (a # s) (b # t) = (if a \<noteq> b then Some False else if a = 0 then Some True else strcmp_eq s t)"
| "strcmp_eq _ _ = None"

fun strncmp_eq :: "byte list \<Rightarrow> byte list \<Rightarrow> nat \<Rightarrow> bool option" where
  "strncmp_eq _ _ 0 = Some True"
| "strncmp_eq (a # s) (b # t) (Suc n) =
     (if a \<noteq> b then Some False else if a = 0 then Some True else strncmp_eq s t n)"
| "strncmp_eq _ _ (Suc n) = None"

section \<open>Error numbers\<close>

abbreviation EPERM :: int where "EPERM \<equiv> 1"
abbreviation ENOENT :: int where "ENOENT \<equiv> 2"
abbreviation EIO :: int where "EIO \<equiv> 5"
abbreviation EBADF :: int where "EBADF \<equiv> 9"
abbreviation EAGAIN :: int where "EAGAIN \<equiv> 11"
abbreviation ENOMEM :: int where "ENOMEM \<equiv> 12"
abbreviation EACCES :: int where "EACCES \<equiv> 13"
abbreviation ENOTDIR :: int where "ENOTDIR \<equiv> 20"
abbreviation EISDIR :: int where "EISDIR \<equiv> 21"
abbreviation EINVAL :: int where "EINVAL \<equiv> 22"
abbreviation ENOTTY :: int where "ENOTTY \<equiv> 25"
abbreviation ERANGE :: int where "ERANGE \<equiv> 34"
abbreviation ENOSYS :: int where "ENOSYS \<equiv> 38"
abbreviation EPROTO :: int where "EPROTO \<equiv> 71"
abbreviation ENOTSUP :: int where "ENOTSUP \<equiv> 95"
abbreviation ENOTCONN :: int where "ENOTCONN \<equiv> 107"

section \<open>Lemmas\<close>

lemma length_le_bytes [simp, layout]: "length (le_bytes n w) = n"
  by (simp add: le_bytes_def)

lemma le_bytes_nth: "i < n \<Longrightarrow> le_bytes n w ! i = ucast (drop_bit (8 * i) w)"
  by (simp add: le_bytes_def)

lemma bit_le_word:
  "bit (le_word bs :: 'a::len word) k \<longleftrightarrow>
     k < LENGTH('a) \<and> k div 8 < length bs \<and> bit (bs ! (k div 8)) (k mod 8)"
proof (induction bs arbitrary: k)
  case Nil
  then show ?case by simp
next
  case (Cons b bs)
  show ?case
  proof (cases "k < 8")
    case True
    then show ?thesis
      by (auto simp: bit_simps)
  next
    case False
    then have "k div 8 = Suc ((k - 8) div 8)" and "k mod 8 = (k - 8) mod 8"
      by (simp_all add: le_div_geq le_mod_geq)
    moreover have "\<not> bit b k"
      using False by (auto dest: bit_imp_le_length)
    ultimately show ?thesis
      using False by (auto simp: bit_simps Cons.IH)
  qed
qed

lemma le_word_le_bytes [layout]:
  "LENGTH('a) \<le> 8 * n \<Longrightarrow> (le_word (le_bytes n (w :: 'a::len word)) :: 'a word) = w"
proof (rule bit_word_eqI)
  fix k assume n: "LENGTH('a) \<le> 8 * n" and k: "k < LENGTH('a)"
  then have "k div 8 < n" by linarith
  moreover have "8 * (k div 8) + k mod 8 = k" by simp
  ultimately show "bit (le_word (le_bytes n w) :: 'a word) k = bit w k"
    using k by (simp add: bit_le_word le_bytes_nth bit_simps)
qed

lemma rd64_le_bytes [layout]: "rd64 (le_bytes 8 (w :: u64) @ xs) 0 = w"
  by (simp add: rd64_def le_word_le_bytes)

lemma mem_write_length: "mem_write m off d = Some m' \<Longrightarrow> length m' = length m"
  by (auto simp: mem_write_def split: if_splits)

lemma mem_write_Some_iff: "(\<exists>m'. mem_write m off d = Some m') \<longleftrightarrow> off + length d \<le> length m"
  by (simp add: mem_write_def)

lemma c_string_append_nul [simp]: "0 \<notin> set s \<Longrightarrow> c_string (s @ 0 # rest) = Some s"
  by (auto simp: c_string_def takeWhile_tail takeWhile_eq_all_conv)

lemma strcmp_eq_strings:
  "0 \<notin> set s \<Longrightarrow> 0 \<notin> set t \<Longrightarrow> strcmp_eq (s @ 0 # r) (t @ 0 # r') = Some (s = t)"
proof (induction s arbitrary: t)
  case Nil
  then show ?case by (cases t) auto
next
  case (Cons a s)
  then show ?case by (cases t) auto
qed

lemma length_bytes_of [simp]: "length (bytes_of s) = length s"
  by (simp add: bytes_of_def)

text \<open>Signed comparison of words that are small enough.\<close>

lemma unat_uint_less: "unat w < 2 ^ n \<longleftrightarrow> uint w < 2 ^ n" for w :: "'a::len word"
  using of_nat_less_iff [of "unat w" "2 ^ n", where ?'a = int] by simp

lemma sint_small: "unat w < 2 ^ 63 \<Longrightarrow> sint w = uint w" for w :: u64
  unfolding unat_uint_less by (simp add: sint_uint signed_take_bit_int_eq_self order_trans [of _ 0])

lemma sint_big:
  fixes w :: u64
  assumes "\<not> unat w < 2 ^ 63"
  shows "sint w < 0"
proof -
  have "2 ^ 63 \<le> uint w" using assms unfolding unat_uint_less by simp
  then have "signed_take_bit 63 (uint w) \<le> uint w - 2 ^ Suc 63" by (rule signed_take_bit_int_less_eq)
  moreover have "uint w < 2 ^ Suc 63" using unsigned_less [of w, where ?'a = int] by simp
  ultimately have "signed_take_bit 63 (uint w) < 0" by linarith
  moreover have "sint w = signed_take_bit 63 (uint w)" by (simp add: sint_uint)
  ultimately show ?thesis by (simp only:)
qed

lemma nonneg_iff: "0 \<le>s w \<longleftrightarrow> unat w < 2 ^ 63" for w :: u64
  using sint_small [of w] sint_big [of w] unsigned_greater_eq [of w] by (fastforce simp: word_sle_eq)

lemma sless_iff: "unat a < 2 ^ 63 \<Longrightarrow> unat b < 2 ^ 63 \<Longrightarrow> a <s b \<longleftrightarrow> unat a < unat b" for a b :: u64
  by (simp only: word_sless_alt sint_small) (simp add: word_less_nat_alt flip: word_less_alt)

end
