(* ===== verification/Fuse_Kernel.thy ===== *)
theory Fuse_Kernel
  imports Fuse_Prelude
begin

text \<open>
  The wire protocol of \<^verbatim>\<open>libs/libfuse/include/fuse/fuse_kernel.h\<close>: the opcodes and flag
  constants, the request structures as views on the bytes a request buffer holds (a field of a
  structure that a handler reads through a cast pointer is a bounded read at the field's offset,
  \<open>None\<close> when the read leaves the block), and the reply structures with their byte encodings.
  The lemmas show that every encoding has the structure's size and that reading a field back
  from an encoding gives the value that was stored.
\<close>

section \<open>Constants\<close>

abbreviation FUSE_LOOKUP :: u32 where "FUSE_LOOKUP \<equiv> 1"
abbreviation FUSE_FORGET :: u32 where "FUSE_FORGET \<equiv> 2"
abbreviation FUSE_GETATTR :: u32 where "FUSE_GETATTR \<equiv> 3"
abbreviation FUSE_SETATTR :: u32 where "FUSE_SETATTR \<equiv> 4"
abbreviation FUSE_READLINK :: u32 where "FUSE_READLINK \<equiv> 5"
abbreviation FUSE_SYMLINK :: u32 where "FUSE_SYMLINK \<equiv> 6"
abbreviation FUSE_MKNOD :: u32 where "FUSE_MKNOD \<equiv> 8"
abbreviation FUSE_MKDIR :: u32 where "FUSE_MKDIR \<equiv> 9"
abbreviation FUSE_UNLINK :: u32 where "FUSE_UNLINK \<equiv> 10"
abbreviation FUSE_RMDIR :: u32 where "FUSE_RMDIR \<equiv> 11"
abbreviation FUSE_RENAME :: u32 where "FUSE_RENAME \<equiv> 12"
abbreviation FUSE_LINK :: u32 where "FUSE_LINK \<equiv> 13"
abbreviation FUSE_OPEN :: u32 where "FUSE_OPEN \<equiv> 14"
abbreviation FUSE_READ :: u32 where "FUSE_READ \<equiv> 15"
abbreviation FUSE_WRITE :: u32 where "FUSE_WRITE \<equiv> 16"
abbreviation FUSE_STATFS :: u32 where "FUSE_STATFS \<equiv> 17"
abbreviation FUSE_RELEASE :: u32 where "FUSE_RELEASE \<equiv> 18"
abbreviation FUSE_FSYNC :: u32 where "FUSE_FSYNC \<equiv> 20"
abbreviation FUSE_SETXATTR :: u32 where "FUSE_SETXATTR \<equiv> 21"
abbreviation FUSE_GETXATTR :: u32 where "FUSE_GETXATTR \<equiv> 22"
abbreviation FUSE_LISTXATTR :: u32 where "FUSE_LISTXATTR \<equiv> 23"
abbreviation FUSE_REMOVEXATTR :: u32 where "FUSE_REMOVEXATTR \<equiv> 24"
abbreviation FUSE_FLUSH :: u32 where "FUSE_FLUSH \<equiv> 25"
abbreviation FUSE_INIT :: u32 where "FUSE_INIT \<equiv> 26"
abbreviation FUSE_OPENDIR :: u32 where "FUSE_OPENDIR \<equiv> 27"
abbreviation FUSE_READDIR :: u32 where "FUSE_READDIR \<equiv> 28"
abbreviation FUSE_RELEASEDIR :: u32 where "FUSE_RELEASEDIR \<equiv> 29"
abbreviation FUSE_FSYNCDIR :: u32 where "FUSE_FSYNCDIR \<equiv> 30"
abbreviation FUSE_GETLK :: u32 where "FUSE_GETLK \<equiv> 31"
abbreviation FUSE_SETLK :: u32 where "FUSE_SETLK \<equiv> 32"
abbreviation FUSE_SETLKW :: u32 where "FUSE_SETLKW \<equiv> 33"
abbreviation FUSE_ACCESS :: u32 where "FUSE_ACCESS \<equiv> 34"
abbreviation FUSE_CREATE :: u32 where "FUSE_CREATE \<equiv> 35"
abbreviation FUSE_INTERRUPT :: u32 where "FUSE_INTERRUPT \<equiv> 36"
abbreviation FUSE_BMAP :: u32 where "FUSE_BMAP \<equiv> 37"
abbreviation FUSE_DESTROY :: u32 where "FUSE_DESTROY \<equiv> 38"
abbreviation FUSE_IOCTL :: u32 where "FUSE_IOCTL \<equiv> 39"
abbreviation FUSE_POLL :: u32 where "FUSE_POLL \<equiv> 40"
abbreviation FUSE_NOTIFY_REPLY :: u32 where "FUSE_NOTIFY_REPLY \<equiv> 41"
abbreviation FUSE_BATCH_FORGET :: u32 where "FUSE_BATCH_FORGET \<equiv> 42"
abbreviation FUSE_FALLOCATE :: u32 where "FUSE_FALLOCATE \<equiv> 43"
abbreviation FUSE_READDIRPLUS :: u32 where "FUSE_READDIRPLUS \<equiv> 44"
abbreviation FUSE_RENAME2 :: u32 where "FUSE_RENAME2 \<equiv> 45"
abbreviation FUSE_LSEEK :: u32 where "FUSE_LSEEK \<equiv> 46"
abbreviation FUSE_COPY_FILE_RANGE :: u32 where "FUSE_COPY_FILE_RANGE \<equiv> 47"
abbreviation FUSE_SETUPMAPPING :: u32 where "FUSE_SETUPMAPPING \<equiv> 48"
abbreviation FUSE_REMOVEMAPPING :: u32 where "FUSE_REMOVEMAPPING \<equiv> 49"
abbreviation FUSE_SYNCFS :: u32 where "FUSE_SYNCFS \<equiv> 50"
abbreviation FUSE_TMPFILE :: u32 where "FUSE_TMPFILE \<equiv> 51"
abbreviation FUSE_STATX :: u32 where "FUSE_STATX \<equiv> 52"
abbreviation FUSE_COPY_FILE_RANGE_64 :: u32 where "FUSE_COPY_FILE_RANGE_64 \<equiv> 53"
abbreviation CUSE_INIT :: u32 where "CUSE_INIT \<equiv> 4096"

abbreviation FUSE_KERNEL_VERSION :: u32 where "FUSE_KERNEL_VERSION \<equiv> 7"
abbreviation FUSE_KERNEL_MINOR_VERSION :: u32 where "FUSE_KERNEL_MINOR_VERSION \<equiv> 45"
abbreviation FUSE_ROOT_ID :: u64 where "FUSE_ROOT_ID \<equiv> 1"

text \<open>INIT flags, in the 64-bit form that \<^verbatim>\<open>_do_init\<close> works with.\<close>

abbreviation FUSE_ASYNC_READ :: u64 where "FUSE_ASYNC_READ \<equiv> 0x1"
abbreviation FUSE_POSIX_LOCKS :: u64 where "FUSE_POSIX_LOCKS \<equiv> 0x2"
abbreviation FUSE_ATOMIC_O_TRUNC :: u64 where "FUSE_ATOMIC_O_TRUNC \<equiv> 0x8"
abbreviation FUSE_EXPORT_SUPPORT :: u64 where "FUSE_EXPORT_SUPPORT \<equiv> 0x10"
abbreviation FUSE_BIG_WRITES :: u64 where "FUSE_BIG_WRITES \<equiv> 0x20"
abbreviation FUSE_DONT_MASK :: u64 where "FUSE_DONT_MASK \<equiv> 0x40"
abbreviation FUSE_FLOCK_LOCKS :: u64 where "FUSE_FLOCK_LOCKS \<equiv> 0x400"
abbreviation FUSE_AUTO_INVAL_DATA :: u64 where "FUSE_AUTO_INVAL_DATA \<equiv> 0x1000"
abbreviation FUSE_DO_READDIRPLUS :: u64 where "FUSE_DO_READDIRPLUS \<equiv> 0x2000"
abbreviation FUSE_READDIRPLUS_AUTO :: u64 where "FUSE_READDIRPLUS_AUTO \<equiv> 0x4000"
abbreviation FUSE_ASYNC_DIO :: u64 where "FUSE_ASYNC_DIO \<equiv> 0x8000"
abbreviation FUSE_WRITEBACK_CACHE :: u64 where "FUSE_WRITEBACK_CACHE \<equiv> 0x10000"
abbreviation FUSE_NO_OPEN_SUPPORT :: u64 where "FUSE_NO_OPEN_SUPPORT \<equiv> 0x20000"
abbreviation FUSE_PARALLEL_DIROPS :: u64 where "FUSE_PARALLEL_DIROPS \<equiv> 0x40000"
abbreviation FUSE_HANDLE_KILLPRIV :: u64 where "FUSE_HANDLE_KILLPRIV \<equiv> 0x80000"
abbreviation FUSE_POSIX_ACL :: u64 where "FUSE_POSIX_ACL \<equiv> 0x100000"
abbreviation FUSE_MAX_PAGES :: u64 where "FUSE_MAX_PAGES \<equiv> 0x400000"
abbreviation FUSE_CACHE_SYMLINKS :: u64 where "FUSE_CACHE_SYMLINKS \<equiv> 0x800000"
abbreviation FUSE_NO_OPENDIR_SUPPORT :: u64 where "FUSE_NO_OPENDIR_SUPPORT \<equiv> 0x1000000"
abbreviation FUSE_EXPLICIT_INVAL_DATA :: u64 where "FUSE_EXPLICIT_INVAL_DATA \<equiv> 0x2000000"
abbreviation FUSE_HANDLE_KILLPRIV_V2 :: u64 where "FUSE_HANDLE_KILLPRIV_V2 \<equiv> 0x10000000"
abbreviation FUSE_SETXATTR_EXT :: u64 where "FUSE_SETXATTR_EXT \<equiv> 0x20000000"
abbreviation FUSE_INIT_EXT :: u64 where "FUSE_INIT_EXT \<equiv> 0x40000000"
abbreviation FUSE_HAS_EXPIRE_ONLY :: u64 where "FUSE_HAS_EXPIRE_ONLY \<equiv> 0x800000000"
abbreviation FUSE_DIRECT_IO_ALLOW_MMAP :: u64 where "FUSE_DIRECT_IO_ALLOW_MMAP \<equiv> 0x1000000000"
abbreviation FUSE_PASSTHROUGH :: u64 where "FUSE_PASSTHROUGH \<equiv> 0x2000000000"
abbreviation FUSE_NO_EXPORT_SUPPORT :: u64 where "FUSE_NO_EXPORT_SUPPORT \<equiv> 0x4000000000"
abbreviation FUSE_OVER_IO_URING :: u64 where "FUSE_OVER_IO_URING \<equiv> 0x20000000000"
abbreviation FUSE_REQUEST_TIMEOUT :: u64 where "FUSE_REQUEST_TIMEOUT \<equiv> 0x40000000000"

text \<open>Flags of the OPEN reply.\<close>

abbreviation FOPEN_DIRECT_IO :: u32 where "FOPEN_DIRECT_IO \<equiv> 0x1"
abbreviation FOPEN_KEEP_CACHE :: u32 where "FOPEN_KEEP_CACHE \<equiv> 0x2"
abbreviation FOPEN_NONSEEKABLE :: u32 where "FOPEN_NONSEEKABLE \<equiv> 0x4"
abbreviation FOPEN_CACHE_DIR :: u32 where "FOPEN_CACHE_DIR \<equiv> 0x8"
abbreviation FOPEN_STREAM :: u32 where "FOPEN_STREAM \<equiv> 0x10"
abbreviation FOPEN_NOFLUSH :: u32 where "FOPEN_NOFLUSH \<equiv> 0x20"
abbreviation FOPEN_PARALLEL_DIRECT_WRITES :: u32 where "FOPEN_PARALLEL_DIRECT_WRITES \<equiv> 0x40"
abbreviation FOPEN_PASSTHROUGH :: u32 where "FOPEN_PASSTHROUGH \<equiv> 0x80"

abbreviation FATTR_FH :: u32 where "FATTR_FH \<equiv> 0x40"
abbreviation FUSE_RELEASE_FLUSH :: u32 where "FUSE_RELEASE_FLUSH \<equiv> 1"
abbreviation FUSE_RELEASE_FLOCK_UNLOCK :: u32 where "FUSE_RELEASE_FLOCK_UNLOCK \<equiv> 2"
abbreviation FUSE_GETATTR_FH :: u32 where "FUSE_GETATTR_FH \<equiv> 1"
abbreviation FUSE_LK_FLOCK :: u32 where "FUSE_LK_FLOCK \<equiv> 1"
abbreviation FUSE_WRITE_CACHE :: u32 where "FUSE_WRITE_CACHE \<equiv> 1"
abbreviation FUSE_IOCTL_RETRY :: u32 where "FUSE_IOCTL_RETRY \<equiv> 4"
abbreviation FUSE_IOCTL_32BIT :: u32 where "FUSE_IOCTL_32BIT \<equiv> 8"
abbreviation FUSE_IOCTL_DIR :: u32 where "FUSE_IOCTL_DIR \<equiv> 0x10"
abbreviation FUSE_POLL_SCHEDULE_NOTIFY :: u32 where "FUSE_POLL_SCHEDULE_NOTIFY \<equiv> 1"
abbreviation FUSE_EXPIRE_ONLY :: u32 where "FUSE_EXPIRE_ONLY \<equiv> 1"

abbreviation FUSE_NOTIFY_POLL :: int where "FUSE_NOTIFY_POLL \<equiv> 1"
abbreviation FUSE_NOTIFY_INVAL_INODE :: int where "FUSE_NOTIFY_INVAL_INODE \<equiv> 2"
abbreviation FUSE_NOTIFY_INVAL_ENTRY :: int where "FUSE_NOTIFY_INVAL_ENTRY \<equiv> 3"
abbreviation FUSE_NOTIFY_STORE :: int where "FUSE_NOTIFY_STORE \<equiv> 4"
abbreviation FUSE_NOTIFY_RETRIEVE :: int where "FUSE_NOTIFY_RETRIEVE \<equiv> 5"
abbreviation FUSE_NOTIFY_DELETE :: int where "FUSE_NOTIFY_DELETE \<equiv> 6"
abbreviation FUSE_NOTIFY_INC_EPOCH :: int where "FUSE_NOTIFY_INC_EPOCH \<equiv> 8"

abbreviation FUSE_MIN_READ_BUFFER :: u64 where "FUSE_MIN_READ_BUFFER \<equiv> 8192"
abbreviation FUSE_COMPAT_ENTRY_OUT_SIZE :: nat where "FUSE_COMPAT_ENTRY_OUT_SIZE \<equiv> 120"
abbreviation FUSE_COMPAT_MKNOD_IN_SIZE :: nat where "FUSE_COMPAT_MKNOD_IN_SIZE \<equiv> 8"
abbreviation FUSE_COMPAT_WRITE_IN_SIZE :: nat where "FUSE_COMPAT_WRITE_IN_SIZE \<equiv> 24"
abbreviation FUSE_COMPAT_STATFS_SIZE :: nat where "FUSE_COMPAT_STATFS_SIZE \<equiv> 48"
abbreviation FUSE_COMPAT_SETXATTR_IN_SIZE :: nat where "FUSE_COMPAT_SETXATTR_IN_SIZE \<equiv> 8"
abbreviation FUSE_COMPAT_INIT_OUT_SIZE :: nat where "FUSE_COMPAT_INIT_OUT_SIZE \<equiv> 8"
abbreviation FUSE_COMPAT_22_INIT_OUT_SIZE :: nat where "FUSE_COMPAT_22_INIT_OUT_SIZE \<equiv> 24"

section \<open>Request structures as views\<close>

definition fld32 :: "nat \<Rightarrow> byte list \<Rightarrow> u32 option" where
  "fld32 off bs = (if off + 4 \<le> length bs then Some (rd32 bs off) else None)"

definition fld64 :: "nat \<Rightarrow> byte list \<Rightarrow> u64 option" where
  "fld64 off bs = (if off + 8 \<le> length bs then Some (rd64 bs off) else None)"

definition sizeof_fuse_forget_in :: nat where "sizeof_fuse_forget_in = 8"
definition fuse_forget_in_nlookup :: "byte list \<Rightarrow> u64 option" where "fuse_forget_in_nlookup = fld64 0"

definition sizeof_fuse_forget_one :: nat where "sizeof_fuse_forget_one = 16"
definition fuse_forget_one_nodeid :: "byte list \<Rightarrow> u64 option" where "fuse_forget_one_nodeid = fld64 0"
definition fuse_forget_one_nlookup :: "byte list \<Rightarrow> u64 option" where "fuse_forget_one_nlookup = fld64 8"

definition sizeof_fuse_batch_forget_in :: nat where "sizeof_fuse_batch_forget_in = 8"
definition fuse_batch_forget_in_count :: "byte list \<Rightarrow> u32 option" where "fuse_batch_forget_in_count = fld32 0"

definition sizeof_fuse_getattr_in :: nat where "sizeof_fuse_getattr_in = 16"
definition fuse_getattr_in_getattr_flags :: "byte list \<Rightarrow> u32 option" where "fuse_getattr_in_getattr_flags = fld32 0"
definition fuse_getattr_in_fh :: "byte list \<Rightarrow> u64 option" where "fuse_getattr_in_fh = fld64 8"

definition sizeof_fuse_mknod_in :: nat where "sizeof_fuse_mknod_in = 16"
definition fuse_mknod_in_mode :: "byte list \<Rightarrow> u32 option" where "fuse_mknod_in_mode = fld32 0"
definition fuse_mknod_in_rdev :: "byte list \<Rightarrow> u32 option" where "fuse_mknod_in_rdev = fld32 4"
definition fuse_mknod_in_umask :: "byte list \<Rightarrow> u32 option" where "fuse_mknod_in_umask = fld32 8"

definition sizeof_fuse_mkdir_in :: nat where "sizeof_fuse_mkdir_in = 8"
definition fuse_mkdir_in_mode :: "byte list \<Rightarrow> u32 option" where "fuse_mkdir_in_mode = fld32 0"
definition fuse_mkdir_in_umask :: "byte list \<Rightarrow> u32 option" where "fuse_mkdir_in_umask = fld32 4"

definition sizeof_fuse_rename_in :: nat where "sizeof_fuse_rename_in = 8"
definition fuse_rename_in_newdir :: "byte list \<Rightarrow> u64 option" where "fuse_rename_in_newdir = fld64 0"

definition sizeof_fuse_rename2_in :: nat where "sizeof_fuse_rename2_in = 16"
definition fuse_rename2_in_newdir :: "byte list \<Rightarrow> u64 option" where "fuse_rename2_in_newdir = fld64 0"
definition fuse_rename2_in_flags :: "byte list \<Rightarrow> u32 option" where "fuse_rename2_in_flags = fld32 8"

definition sizeof_fuse_link_in :: nat where "sizeof_fuse_link_in = 8"
definition fuse_link_in_oldnodeid :: "byte list \<Rightarrow> u64 option" where "fuse_link_in_oldnodeid = fld64 0"

definition sizeof_fuse_setattr_in :: nat where "sizeof_fuse_setattr_in = 88"
definition fuse_setattr_in_valid :: "byte list \<Rightarrow> u32 option" where "fuse_setattr_in_valid = fld32 0"
definition fuse_setattr_in_fh :: "byte list \<Rightarrow> u64 option" where "fuse_setattr_in_fh = fld64 8"
definition fuse_setattr_in_size :: "byte list \<Rightarrow> u64 option" where "fuse_setattr_in_size = fld64 16"
definition fuse_setattr_in_atime :: "byte list \<Rightarrow> u64 option" where "fuse_setattr_in_atime = fld64 32"
definition fuse_setattr_in_mtime :: "byte list \<Rightarrow> u64 option" where "fuse_setattr_in_mtime = fld64 40"
definition fuse_setattr_in_ctime :: "byte list \<Rightarrow> u64 option" where "fuse_setattr_in_ctime = fld64 48"
definition fuse_setattr_in_atimensec :: "byte list \<Rightarrow> u32 option" where "fuse_setattr_in_atimensec = fld32 56"
definition fuse_setattr_in_mtimensec :: "byte list \<Rightarrow> u32 option" where "fuse_setattr_in_mtimensec = fld32 60"
definition fuse_setattr_in_ctimensec :: "byte list \<Rightarrow> u32 option" where "fuse_setattr_in_ctimensec = fld32 64"
definition fuse_setattr_in_mode :: "byte list \<Rightarrow> u32 option" where "fuse_setattr_in_mode = fld32 68"
definition fuse_setattr_in_uid :: "byte list \<Rightarrow> u32 option" where "fuse_setattr_in_uid = fld32 76"
definition fuse_setattr_in_gid :: "byte list \<Rightarrow> u32 option" where "fuse_setattr_in_gid = fld32 80"

definition sizeof_fuse_open_in :: nat where "sizeof_fuse_open_in = 8"
definition fuse_open_in_flags :: "byte list \<Rightarrow> u32 option" where "fuse_open_in_flags = fld32 0"

definition sizeof_fuse_create_in :: nat where "sizeof_fuse_create_in = 16"
definition fuse_create_in_flags :: "byte list \<Rightarrow> u32 option" where "fuse_create_in_flags = fld32 0"
definition fuse_create_in_mode :: "byte list \<Rightarrow> u32 option" where "fuse_create_in_mode = fld32 4"
definition fuse_create_in_umask :: "byte list \<Rightarrow> u32 option" where "fuse_create_in_umask = fld32 8"

definition sizeof_fuse_release_in :: nat where "sizeof_fuse_release_in = 24"
definition fuse_release_in_fh :: "byte list \<Rightarrow> u64 option" where "fuse_release_in_fh = fld64 0"
definition fuse_release_in_flags :: "byte list \<Rightarrow> u32 option" where "fuse_release_in_flags = fld32 8"
definition fuse_release_in_release_flags :: "byte list \<Rightarrow> u32 option" where "fuse_release_in_release_flags = fld32 12"
definition fuse_release_in_lock_owner :: "byte list \<Rightarrow> u64 option" where "fuse_release_in_lock_owner = fld64 16"

definition sizeof_fuse_flush_in :: nat where "sizeof_fuse_flush_in = 24"
definition fuse_flush_in_fh :: "byte list \<Rightarrow> u64 option" where "fuse_flush_in_fh = fld64 0"
definition fuse_flush_in_lock_owner :: "byte list \<Rightarrow> u64 option" where "fuse_flush_in_lock_owner = fld64 16"

definition sizeof_fuse_read_in :: nat where "sizeof_fuse_read_in = 40"
definition fuse_read_in_fh :: "byte list \<Rightarrow> u64 option" where "fuse_read_in_fh = fld64 0"
definition fuse_read_in_offset :: "byte list \<Rightarrow> u64 option" where "fuse_read_in_offset = fld64 8"
definition fuse_read_in_size :: "byte list \<Rightarrow> u32 option" where "fuse_read_in_size = fld32 16"
definition fuse_read_in_lock_owner :: "byte list \<Rightarrow> u64 option" where "fuse_read_in_lock_owner = fld64 24"
definition fuse_read_in_flags :: "byte list \<Rightarrow> u32 option" where "fuse_read_in_flags = fld32 32"

definition sizeof_fuse_write_in :: nat where "sizeof_fuse_write_in = 40"
definition fuse_write_in_fh :: "byte list \<Rightarrow> u64 option" where "fuse_write_in_fh = fld64 0"
definition fuse_write_in_offset :: "byte list \<Rightarrow> u64 option" where "fuse_write_in_offset = fld64 8"
definition fuse_write_in_size :: "byte list \<Rightarrow> u32 option" where "fuse_write_in_size = fld32 16"
definition fuse_write_in_write_flags :: "byte list \<Rightarrow> u32 option" where "fuse_write_in_write_flags = fld32 20"
definition fuse_write_in_lock_owner :: "byte list \<Rightarrow> u64 option" where "fuse_write_in_lock_owner = fld64 24"
definition fuse_write_in_flags :: "byte list \<Rightarrow> u32 option" where "fuse_write_in_flags = fld32 32"

definition sizeof_fuse_fsync_in :: nat where "sizeof_fuse_fsync_in = 16"
definition fuse_fsync_in_fh :: "byte list \<Rightarrow> u64 option" where "fuse_fsync_in_fh = fld64 0"
definition fuse_fsync_in_fsync_flags :: "byte list \<Rightarrow> u32 option" where "fuse_fsync_in_fsync_flags = fld32 8"

definition sizeof_fuse_setxattr_in :: nat where "sizeof_fuse_setxattr_in = 16"
definition fuse_setxattr_in_size :: "byte list \<Rightarrow> u32 option" where "fuse_setxattr_in_size = fld32 0"
definition fuse_setxattr_in_flags :: "byte list \<Rightarrow> u32 option" where "fuse_setxattr_in_flags = fld32 4"

definition sizeof_fuse_getxattr_in :: nat where "sizeof_fuse_getxattr_in = 8"
definition fuse_getxattr_in_size :: "byte list \<Rightarrow> u32 option" where "fuse_getxattr_in_size = fld32 0"

definition sizeof_fuse_lk_in :: nat where "sizeof_fuse_lk_in = 48"
definition fuse_lk_in_fh :: "byte list \<Rightarrow> u64 option" where "fuse_lk_in_fh = fld64 0"
definition fuse_lk_in_owner :: "byte list \<Rightarrow> u64 option" where "fuse_lk_in_owner = fld64 8"
definition fuse_lk_in_lk_start :: "byte list \<Rightarrow> u64 option" where "fuse_lk_in_lk_start = fld64 16"
definition fuse_lk_in_lk_end :: "byte list \<Rightarrow> u64 option" where "fuse_lk_in_lk_end = fld64 24"
definition fuse_lk_in_lk_type :: "byte list \<Rightarrow> u32 option" where "fuse_lk_in_lk_type = fld32 32"
definition fuse_lk_in_lk_pid :: "byte list \<Rightarrow> u32 option" where "fuse_lk_in_lk_pid = fld32 36"
definition fuse_lk_in_lk_flags :: "byte list \<Rightarrow> u32 option" where "fuse_lk_in_lk_flags = fld32 40"

definition sizeof_fuse_access_in :: nat where "sizeof_fuse_access_in = 8"
definition fuse_access_in_mask :: "byte list \<Rightarrow> u32 option" where "fuse_access_in_mask = fld32 0"

definition sizeof_fuse_init_in :: nat where "sizeof_fuse_init_in = 64"
definition fuse_init_in_major :: "byte list \<Rightarrow> u32 option" where "fuse_init_in_major = fld32 0"
definition fuse_init_in_minor :: "byte list \<Rightarrow> u32 option" where "fuse_init_in_minor = fld32 4"
definition fuse_init_in_max_readahead :: "byte list \<Rightarrow> u32 option" where "fuse_init_in_max_readahead = fld32 8"
definition fuse_init_in_flags :: "byte list \<Rightarrow> u32 option" where "fuse_init_in_flags = fld32 12"
definition fuse_init_in_flags2 :: "byte list \<Rightarrow> u32 option" where "fuse_init_in_flags2 = fld32 16"

definition sizeof_fuse_interrupt_in :: nat where "sizeof_fuse_interrupt_in = 8"
definition fuse_interrupt_in_unique :: "byte list \<Rightarrow> u64 option" where "fuse_interrupt_in_unique = fld64 0"

definition sizeof_fuse_bmap_in :: nat where "sizeof_fuse_bmap_in = 16"
definition fuse_bmap_in_block :: "byte list \<Rightarrow> u64 option" where "fuse_bmap_in_block = fld64 0"
definition fuse_bmap_in_blocksize :: "byte list \<Rightarrow> u32 option" where "fuse_bmap_in_blocksize = fld32 8"

definition sizeof_fuse_ioctl_in :: nat where "sizeof_fuse_ioctl_in = 32"
definition fuse_ioctl_in_fh :: "byte list \<Rightarrow> u64 option" where "fuse_ioctl_in_fh = fld64 0"
definition fuse_ioctl_in_flags :: "byte list \<Rightarrow> u32 option" where "fuse_ioctl_in_flags = fld32 8"
definition fuse_ioctl_in_cmd :: "byte list \<Rightarrow> u32 option" where "fuse_ioctl_in_cmd = fld32 12"
definition fuse_ioctl_in_arg :: "byte list \<Rightarrow> u64 option" where "fuse_ioctl_in_arg = fld64 16"
definition fuse_ioctl_in_in_size :: "byte list \<Rightarrow> u32 option" where "fuse_ioctl_in_in_size = fld32 24"
definition fuse_ioctl_in_out_size :: "byte list \<Rightarrow> u32 option" where "fuse_ioctl_in_out_size = fld32 28"

definition sizeof_fuse_poll_in :: nat where "sizeof_fuse_poll_in = 24"
definition fuse_poll_in_fh :: "byte list \<Rightarrow> u64 option" where "fuse_poll_in_fh = fld64 0"
definition fuse_poll_in_kh :: "byte list \<Rightarrow> u64 option" where "fuse_poll_in_kh = fld64 8"
definition fuse_poll_in_flags :: "byte list \<Rightarrow> u32 option" where "fuse_poll_in_flags = fld32 16"
definition fuse_poll_in_events :: "byte list \<Rightarrow> u32 option" where "fuse_poll_in_events = fld32 20"

definition sizeof_fuse_fallocate_in :: nat where "sizeof_fuse_fallocate_in = 32"
definition fuse_fallocate_in_fh :: "byte list \<Rightarrow> u64 option" where "fuse_fallocate_in_fh = fld64 0"
definition fuse_fallocate_in_offset :: "byte list \<Rightarrow> u64 option" where "fuse_fallocate_in_offset = fld64 8"
definition fuse_fallocate_in_length :: "byte list \<Rightarrow> u64 option" where "fuse_fallocate_in_length = fld64 16"
definition fuse_fallocate_in_mode :: "byte list \<Rightarrow> u32 option" where "fuse_fallocate_in_mode = fld32 24"

definition sizeof_fuse_lseek_in :: nat where "sizeof_fuse_lseek_in = 24"
definition fuse_lseek_in_fh :: "byte list \<Rightarrow> u64 option" where "fuse_lseek_in_fh = fld64 0"
definition fuse_lseek_in_offset :: "byte list \<Rightarrow> u64 option" where "fuse_lseek_in_offset = fld64 8"
definition fuse_lseek_in_whence :: "byte list \<Rightarrow> u32 option" where "fuse_lseek_in_whence = fld32 16"

definition sizeof_fuse_copy_file_range_in :: nat where "sizeof_fuse_copy_file_range_in = 56"
definition fuse_copy_file_range_in_fh_in :: "byte list \<Rightarrow> u64 option" where "fuse_copy_file_range_in_fh_in = fld64 0"
definition fuse_copy_file_range_in_off_in :: "byte list \<Rightarrow> u64 option" where "fuse_copy_file_range_in_off_in = fld64 8"
definition fuse_copy_file_range_in_nodeid_out :: "byte list \<Rightarrow> u64 option" where "fuse_copy_file_range_in_nodeid_out = fld64 16"
definition fuse_copy_file_range_in_fh_out :: "byte list \<Rightarrow> u64 option" where "fuse_copy_file_range_in_fh_out = fld64 24"
definition fuse_copy_file_range_in_off_out :: "byte list \<Rightarrow> u64 option" where "fuse_copy_file_range_in_off_out = fld64 32"
definition fuse_copy_file_range_in_len :: "byte list \<Rightarrow> u64 option" where "fuse_copy_file_range_in_len = fld64 40"
definition fuse_copy_file_range_in_flags :: "byte list \<Rightarrow> u64 option" where "fuse_copy_file_range_in_flags = fld64 48"

definition sizeof_fuse_notify_retrieve_in :: nat where "sizeof_fuse_notify_retrieve_in = 40"
definition fuse_notify_retrieve_in_offset :: "byte list \<Rightarrow> u64 option" where "fuse_notify_retrieve_in_offset = fld64 8"
definition fuse_notify_retrieve_in_size :: "byte list \<Rightarrow> u32 option" where "fuse_notify_retrieve_in_size = fld32 16"

definition sizeof_fuse_in_header :: nat where "sizeof_fuse_in_header = 40"
definition fuse_in_header_len :: "byte list \<Rightarrow> u32 option" where "fuse_in_header_len = fld32 0"
definition fuse_in_header_opcode :: "byte list \<Rightarrow> u32 option" where "fuse_in_header_opcode = fld32 4"
definition fuse_in_header_unique :: "byte list \<Rightarrow> u64 option" where "fuse_in_header_unique = fld64 8"
definition fuse_in_header_nodeid :: "byte list \<Rightarrow> u64 option" where "fuse_in_header_nodeid = fld64 16"
definition fuse_in_header_uid :: "byte list \<Rightarrow> u32 option" where "fuse_in_header_uid = fld32 24"
definition fuse_in_header_gid :: "byte list \<Rightarrow> u32 option" where "fuse_in_header_gid = fld32 28"
definition fuse_in_header_pid :: "byte list \<Rightarrow> u32 option" where "fuse_in_header_pid = fld32 32"

lemmas sizeof_in_defs [layout] =
  sizeof_fuse_forget_in_def sizeof_fuse_forget_one_def sizeof_fuse_batch_forget_in_def
  sizeof_fuse_getattr_in_def sizeof_fuse_mknod_in_def sizeof_fuse_mkdir_in_def
  sizeof_fuse_rename_in_def sizeof_fuse_rename2_in_def sizeof_fuse_link_in_def
  sizeof_fuse_setattr_in_def sizeof_fuse_open_in_def sizeof_fuse_create_in_def
  sizeof_fuse_release_in_def sizeof_fuse_flush_in_def sizeof_fuse_read_in_def
  sizeof_fuse_write_in_def sizeof_fuse_fsync_in_def sizeof_fuse_setxattr_in_def
  sizeof_fuse_getxattr_in_def sizeof_fuse_lk_in_def sizeof_fuse_access_in_def
  sizeof_fuse_init_in_def sizeof_fuse_interrupt_in_def sizeof_fuse_bmap_in_def
  sizeof_fuse_ioctl_in_def sizeof_fuse_poll_in_def sizeof_fuse_fallocate_in_def
  sizeof_fuse_lseek_in_def sizeof_fuse_copy_file_range_in_def sizeof_fuse_notify_retrieve_in_def
  sizeof_fuse_in_header_def

lemmas in_field_defs =
  fuse_forget_in_nlookup_def fuse_forget_one_nodeid_def fuse_forget_one_nlookup_def
  fuse_batch_forget_in_count_def fuse_getattr_in_getattr_flags_def fuse_getattr_in_fh_def
  fuse_mknod_in_mode_def fuse_mknod_in_rdev_def fuse_mknod_in_umask_def fuse_mkdir_in_mode_def
  fuse_mkdir_in_umask_def fuse_rename_in_newdir_def fuse_rename2_in_newdir_def
  fuse_rename2_in_flags_def fuse_link_in_oldnodeid_def fuse_setattr_in_valid_def
  fuse_setattr_in_fh_def fuse_setattr_in_size_def fuse_setattr_in_atime_def
  fuse_setattr_in_mtime_def fuse_setattr_in_ctime_def fuse_setattr_in_atimensec_def
  fuse_setattr_in_mtimensec_def fuse_setattr_in_ctimensec_def fuse_setattr_in_mode_def
  fuse_setattr_in_uid_def fuse_setattr_in_gid_def fuse_open_in_flags_def fuse_create_in_flags_def
  fuse_create_in_mode_def fuse_create_in_umask_def fuse_release_in_fh_def
  fuse_release_in_flags_def fuse_release_in_release_flags_def fuse_release_in_lock_owner_def
  fuse_flush_in_fh_def fuse_flush_in_lock_owner_def fuse_read_in_fh_def fuse_read_in_offset_def
  fuse_read_in_size_def fuse_read_in_lock_owner_def fuse_read_in_flags_def fuse_write_in_fh_def
  fuse_write_in_offset_def fuse_write_in_size_def fuse_write_in_write_flags_def
  fuse_write_in_lock_owner_def fuse_write_in_flags_def fuse_fsync_in_fh_def
  fuse_fsync_in_fsync_flags_def fuse_setxattr_in_size_def fuse_setxattr_in_flags_def
  fuse_getxattr_in_size_def fuse_lk_in_fh_def fuse_lk_in_owner_def fuse_lk_in_lk_start_def
  fuse_lk_in_lk_end_def fuse_lk_in_lk_type_def fuse_lk_in_lk_pid_def fuse_lk_in_lk_flags_def
  fuse_access_in_mask_def fuse_init_in_major_def fuse_init_in_minor_def
  fuse_init_in_max_readahead_def fuse_init_in_flags_def fuse_init_in_flags2_def
  fuse_interrupt_in_unique_def fuse_bmap_in_block_def fuse_bmap_in_blocksize_def
  fuse_ioctl_in_fh_def fuse_ioctl_in_flags_def fuse_ioctl_in_cmd_def fuse_ioctl_in_arg_def
  fuse_ioctl_in_in_size_def fuse_ioctl_in_out_size_def fuse_poll_in_fh_def fuse_poll_in_kh_def
  fuse_poll_in_flags_def fuse_poll_in_events_def fuse_fallocate_in_fh_def
  fuse_fallocate_in_offset_def fuse_fallocate_in_length_def fuse_fallocate_in_mode_def
  fuse_lseek_in_fh_def fuse_lseek_in_offset_def fuse_lseek_in_whence_def
  fuse_copy_file_range_in_fh_in_def fuse_copy_file_range_in_off_in_def
  fuse_copy_file_range_in_nodeid_out_def fuse_copy_file_range_in_fh_out_def
  fuse_copy_file_range_in_off_out_def fuse_copy_file_range_in_len_def
  fuse_copy_file_range_in_flags_def fuse_notify_retrieve_in_offset_def
  fuse_notify_retrieve_in_size_def fuse_in_header_len_def fuse_in_header_opcode_def
  fuse_in_header_unique_def fuse_in_header_nodeid_def fuse_in_header_uid_def
  fuse_in_header_gid_def fuse_in_header_pid_def

section \<open>Structures that the code fills in\<close>

record fuse_in_header =
  ih_len :: u32
  ih_opcode :: u32
  ih_unique :: u64
  ih_nodeid :: u64
  ih_uid :: u32
  ih_gid :: u32
  ih_pid :: u32
  ih_total_extlen :: u16
  ih_padding :: u16

definition enc_fuse_in_header :: "fuse_in_header \<Rightarrow> byte list" where
  "enc_fuse_in_header h =
     le_bytes 4 (ih_len h) @ le_bytes 4 (ih_opcode h) @ le_bytes 8 (ih_unique h) @
     le_bytes 8 (ih_nodeid h) @ le_bytes 4 (ih_uid h) @ le_bytes 4 (ih_gid h) @
     le_bytes 4 (ih_pid h) @ le_bytes 2 (ih_total_extlen h) @ le_bytes 2 (ih_padding h)"

definition enc_fuse_out_header :: "u32 \<Rightarrow> u32 \<Rightarrow> u64 \<Rightarrow> byte list" where
  "enc_fuse_out_header len error unique = le_bytes 4 len @ le_bytes 4 error @ le_bytes 8 unique"

definition enc_fuse_getattr_in :: "u32 \<Rightarrow> u32 \<Rightarrow> u64 \<Rightarrow> byte list" where
  "enc_fuse_getattr_in getattr_flags dummy fh =
     le_bytes 4 getattr_flags @ le_bytes 4 dummy @ le_bytes 8 fh"

definition enc_fuse_open_in :: "u32 \<Rightarrow> u32 \<Rightarrow> byte list" where
  "enc_fuse_open_in flags open_flags = le_bytes 4 flags @ le_bytes 4 open_flags"

record fuse_read_in =
  ri_fh :: u64
  ri_offset :: u64
  ri_size :: u32
  ri_read_flags :: u32
  ri_lock_owner :: u64
  ri_flags :: u32
  ri_padding :: u32

definition enc_fuse_read_in :: "fuse_read_in \<Rightarrow> byte list" where
  "enc_fuse_read_in a =
     le_bytes 8 (ri_fh a) @ le_bytes 8 (ri_offset a) @ le_bytes 4 (ri_size a) @
     le_bytes 4 (ri_read_flags a) @ le_bytes 8 (ri_lock_owner a) @ le_bytes 4 (ri_flags a) @
     le_bytes 4 (ri_padding a)"

record fuse_attr =
  at_ino :: u64
  at_size :: u64
  at_blocks :: u64
  at_atime :: u64
  at_mtime :: u64
  at_ctime :: u64
  at_atimensec :: u32
  at_mtimensec :: u32
  at_ctimensec :: u32
  at_mode :: u32
  at_nlink :: u32
  at_uid :: u32
  at_gid :: u32
  at_rdev :: u32
  at_blksize :: u32
  at_flags :: u32

definition enc_fuse_attr :: "fuse_attr \<Rightarrow> byte list" where
  "enc_fuse_attr a =
     le_bytes 8 (at_ino a) @ le_bytes 8 (at_size a) @ le_bytes 8 (at_blocks a) @
     le_bytes 8 (at_atime a) @ le_bytes 8 (at_mtime a) @ le_bytes 8 (at_ctime a) @
     le_bytes 4 (at_atimensec a) @ le_bytes 4 (at_mtimensec a) @ le_bytes 4 (at_ctimensec a) @
     le_bytes 4 (at_mode a) @ le_bytes 4 (at_nlink a) @ le_bytes 4 (at_uid a) @
     le_bytes 4 (at_gid a) @ le_bytes 4 (at_rdev a) @ le_bytes 4 (at_blksize a) @
     le_bytes 4 (at_flags a)"

record fuse_entry_out =
  eo_nodeid :: u64
  eo_generation :: u64
  eo_entry_valid :: u64
  eo_attr_valid :: u64
  eo_entry_valid_nsec :: u32
  eo_attr_valid_nsec :: u32
  eo_attr :: fuse_attr

definition enc_fuse_entry_out :: "fuse_entry_out \<Rightarrow> byte list" where
  "enc_fuse_entry_out e =
     le_bytes 8 (eo_nodeid e) @ le_bytes 8 (eo_generation e) @ le_bytes 8 (eo_entry_valid e) @
     le_bytes 8 (eo_attr_valid e) @ le_bytes 4 (eo_entry_valid_nsec e) @
     le_bytes 4 (eo_attr_valid_nsec e) @ enc_fuse_attr (eo_attr e)"

record fuse_open_out =
  oo_fh :: u64
  oo_open_flags :: u32
  oo_backing_id :: u32

definition enc_fuse_open_out :: "fuse_open_out \<Rightarrow> byte list" where
  "enc_fuse_open_out a =
     le_bytes 8 (oo_fh a) @ le_bytes 4 (oo_open_flags a) @ le_bytes 4 (oo_backing_id a)"

record fuse_kstatfs =
  ks_blocks :: u64
  ks_bfree :: u64
  ks_bavail :: u64
  ks_files :: u64
  ks_ffree :: u64
  ks_bsize :: u32
  ks_namelen :: u32
  ks_frsize :: u32

definition enc_fuse_kstatfs :: "fuse_kstatfs \<Rightarrow> byte list" where
  "enc_fuse_kstatfs s =
     le_bytes 8 (ks_blocks s) @ le_bytes 8 (ks_bfree s) @ le_bytes 8 (ks_bavail s) @
     le_bytes 8 (ks_files s) @ le_bytes 8 (ks_ffree s) @ le_bytes 4 (ks_bsize s) @
     le_bytes 4 (ks_namelen s) @ le_bytes 4 (ks_frsize s) @ replicate 28 0"

record fuse_file_lock =
  fl_start :: u64
  fl_end :: u64
  fl_type :: u32
  fl_pid :: u32

definition enc_fuse_file_lock :: "fuse_file_lock \<Rightarrow> byte list" where
  "enc_fuse_file_lock l =
     le_bytes 8 (fl_start l) @ le_bytes 8 (fl_end l) @ le_bytes 4 (fl_type l) @
     le_bytes 4 (fl_pid l)"

section \<open>Directory entries\<close>

abbreviation FUSE_NAME_OFFSET :: nat where "FUSE_NAME_OFFSET \<equiv> 24"

text \<open>The structures \<^verbatim>\<open>fuse_entry_out\<close> (128 bytes) and \<^verbatim>\<open>fuse_dirent\<close> (24 bytes before the
  name) make up \<^verbatim>\<open>fuse_direntplus\<close>.\<close>

abbreviation FUSE_NAME_OFFSET_DIRENTPLUS :: nat where "FUSE_NAME_OFFSET_DIRENTPLUS \<equiv> 152"

text \<open>\<^verbatim>\<open>FUSE_REC_ALIGN(x)\<close> computes on \<^verbatim>\<open>size_t\<close>.\<close>

definition FUSE_REC_ALIGN :: "u64 \<Rightarrow> u64" where
  "FUSE_REC_ALIGN x = (x + 8 - 1) AND NOT (8 - 1)"

definition enc_fuse_dirent :: "u64 \<Rightarrow> u64 \<Rightarrow> u32 \<Rightarrow> u32 \<Rightarrow> byte list" where
  "enc_fuse_dirent ino off namelen type =
     le_bytes 8 ino @ le_bytes 8 off @ le_bytes 4 namelen @ le_bytes 4 type"

definition fuse_dirent_ino :: "byte list \<Rightarrow> u64 option" where "fuse_dirent_ino = fld64 0"
definition fuse_dirent_off :: "byte list \<Rightarrow> u64 option" where "fuse_dirent_off = fld64 8"
definition fuse_dirent_namelen :: "byte list \<Rightarrow> u32 option" where "fuse_dirent_namelen = fld32 16"
definition fuse_dirent_type :: "byte list \<Rightarrow> u32 option" where "fuse_dirent_type = fld32 20"

section \<open>Sizes and round trips\<close>

lemma length_enc_fuse_in_header [simp, layout]: "length (enc_fuse_in_header h) = 40"
  by (simp add: enc_fuse_in_header_def)

lemma length_enc_fuse_out_header [simp, layout]: "length (enc_fuse_out_header l e u) = 16"
  by (simp add: enc_fuse_out_header_def)

lemma length_enc_fuse_getattr_in [simp, layout]: "length (enc_fuse_getattr_in f d h) = 16"
  by (simp add: enc_fuse_getattr_in_def)

lemma length_enc_fuse_open_in [simp, layout]: "length (enc_fuse_open_in f g) = 8"
  by (simp add: enc_fuse_open_in_def)

lemma length_enc_fuse_read_in [simp, layout]: "length (enc_fuse_read_in a) = 40"
  by (simp add: enc_fuse_read_in_def)

lemma length_enc_fuse_attr [simp, layout]: "length (enc_fuse_attr a) = 88"
  by (simp add: enc_fuse_attr_def)

lemma length_enc_fuse_entry_out [simp, layout]: "length (enc_fuse_entry_out e) = 128"
  by (simp add: enc_fuse_entry_out_def)

lemma length_enc_fuse_open_out [simp, layout]: "length (enc_fuse_open_out a) = 16"
  by (simp add: enc_fuse_open_out_def)

lemma length_enc_fuse_kstatfs [simp, layout]: "length (enc_fuse_kstatfs s) = 80"
  by (simp add: enc_fuse_kstatfs_def)

lemma length_enc_fuse_file_lock [simp, layout]: "length (enc_fuse_file_lock l) = 24"
  by (simp add: enc_fuse_file_lock_def)

lemma length_enc_fuse_dirent [simp, layout]: "length (enc_fuse_dirent i off n t) = 24"
  by (simp add: enc_fuse_dirent_def)

lemma fld64_here: "fld64 0 (le_bytes 8 (w :: u64) @ xs) = Some w"
  by (simp add: fld64_def rd64_def le_word_le_bytes)

lemma fld32_here: "fld32 0 (le_bytes 4 (w :: u32) @ xs) = Some w"
  by (simp add: fld32_def rd32_def le_word_le_bytes)

lemma fld64_skip: "length ys \<le> off \<Longrightarrow> fld64 off (ys @ xs) = fld64 (off - length ys) xs"
  by (auto simp: fld64_def rd64_def)

lemma fld32_skip: "length ys \<le> off \<Longrightarrow> fld32 off (ys @ xs) = fld32 (off - length ys) xs"
  by (auto simp: fld32_def rd32_def)

lemmas fld_simps = fld64_here fld32_here fld64_skip fld32_skip

lemma in_header_roundtrip:
  "fuse_in_header_len (enc_fuse_in_header h @ xs) = Some (ih_len h)"
  "fuse_in_header_opcode (enc_fuse_in_header h @ xs) = Some (ih_opcode h)"
  "fuse_in_header_unique (enc_fuse_in_header h @ xs) = Some (ih_unique h)"
  "fuse_in_header_nodeid (enc_fuse_in_header h @ xs) = Some (ih_nodeid h)"
  "fuse_in_header_uid (enc_fuse_in_header h @ xs) = Some (ih_uid h)"
  "fuse_in_header_gid (enc_fuse_in_header h @ xs) = Some (ih_gid h)"
  "fuse_in_header_pid (enc_fuse_in_header h @ xs) = Some (ih_pid h)"
  by (simp_all add: in_field_defs enc_fuse_in_header_def fld_simps)

lemma getattr_in_roundtrip:
  "fuse_getattr_in_getattr_flags (enc_fuse_getattr_in f d h @ xs) = Some f"
  "fuse_getattr_in_fh (enc_fuse_getattr_in f d h @ xs) = Some h"
  by (simp_all add: in_field_defs enc_fuse_getattr_in_def fld_simps)

lemma open_in_roundtrip: "fuse_open_in_flags (enc_fuse_open_in f g @ xs) = Some f"
  by (simp add: in_field_defs enc_fuse_open_in_def fld_simps)

lemma read_in_roundtrip:
  "fuse_read_in_fh (enc_fuse_read_in a @ xs) = Some (ri_fh a)"
  "fuse_read_in_offset (enc_fuse_read_in a @ xs) = Some (ri_offset a)"
  "fuse_read_in_size (enc_fuse_read_in a @ xs) = Some (ri_size a)"
  "fuse_read_in_lock_owner (enc_fuse_read_in a @ xs) = Some (ri_lock_owner a)"
  "fuse_read_in_flags (enc_fuse_read_in a @ xs) = Some (ri_flags a)"
  by (simp_all add: in_field_defs enc_fuse_read_in_def fld_simps)

lemma dirent_roundtrip:
  "fuse_dirent_ino (enc_fuse_dirent i off n t @ xs) = Some i"
  "fuse_dirent_off (enc_fuse_dirent i off n t @ xs) = Some off"
  "fuse_dirent_namelen (enc_fuse_dirent i off n t @ xs) = Some n"
  "fuse_dirent_type (enc_fuse_dirent i off n t @ xs) = Some t"
  by (simp_all add: fuse_dirent_ino_def fuse_dirent_off_def fuse_dirent_namelen_def
      fuse_dirent_type_def enc_fuse_dirent_def fld_simps)

end
