(* ===== verification/Fuse_Common.thy ===== *)
theory Fuse_Common
  imports Fuse_Kernel
begin

text \<open>
  The data shared by the low-level library and its clients, from
  \<^verbatim>\<open>libs/libfuse/include/fuse/fuse_common.h\<close>, \<^verbatim>\<open>fuse_lowlevel.h\<close> and
  \<^verbatim>\<open>libs/ukfusefs/include/uk/fuse.h\<close>: capability flags, file and connection information, entry
  parameters, and the request that the UKFS driver and the library share. The C types
  \<^verbatim>\<open>struct stat\<close>, \<^verbatim>\<open>struct statvfs\<close> and \<^verbatim>\<open>struct flock\<close> are modelled by the fields the
  code uses, each as a word; a \<^verbatim>\<open>double\<close> that the code only copies is its 64-bit pattern.
\<close>

section \<open>Capabilities\<close>

abbreviation FUSE_CAP_ASYNC_READ :: u64 where "FUSE_CAP_ASYNC_READ \<equiv> 0x1"
abbreviation FUSE_CAP_POSIX_LOCKS :: u64 where "FUSE_CAP_POSIX_LOCKS \<equiv> 0x2"
abbreviation FUSE_CAP_ATOMIC_O_TRUNC :: u64 where "FUSE_CAP_ATOMIC_O_TRUNC \<equiv> 0x8"
abbreviation FUSE_CAP_EXPORT_SUPPORT :: u64 where "FUSE_CAP_EXPORT_SUPPORT \<equiv> 0x10"
abbreviation FUSE_CAP_DONT_MASK :: u64 where "FUSE_CAP_DONT_MASK \<equiv> 0x40"
abbreviation FUSE_CAP_SPLICE_WRITE :: u64 where "FUSE_CAP_SPLICE_WRITE \<equiv> 0x80"
abbreviation FUSE_CAP_SPLICE_MOVE :: u64 where "FUSE_CAP_SPLICE_MOVE \<equiv> 0x100"
abbreviation FUSE_CAP_SPLICE_READ :: u64 where "FUSE_CAP_SPLICE_READ \<equiv> 0x200"
abbreviation FUSE_CAP_FLOCK_LOCKS :: u64 where "FUSE_CAP_FLOCK_LOCKS \<equiv> 0x400"
abbreviation FUSE_CAP_IOCTL_DIR :: u64 where "FUSE_CAP_IOCTL_DIR \<equiv> 0x800"
abbreviation FUSE_CAP_AUTO_INVAL_DATA :: u64 where "FUSE_CAP_AUTO_INVAL_DATA \<equiv> 0x1000"
abbreviation FUSE_CAP_READDIRPLUS :: u64 where "FUSE_CAP_READDIRPLUS \<equiv> 0x2000"
abbreviation FUSE_CAP_READDIRPLUS_AUTO :: u64 where "FUSE_CAP_READDIRPLUS_AUTO \<equiv> 0x4000"
abbreviation FUSE_CAP_ASYNC_DIO :: u64 where "FUSE_CAP_ASYNC_DIO \<equiv> 0x8000"
abbreviation FUSE_CAP_WRITEBACK_CACHE :: u64 where "FUSE_CAP_WRITEBACK_CACHE \<equiv> 0x10000"
abbreviation FUSE_CAP_NO_OPEN_SUPPORT :: u64 where "FUSE_CAP_NO_OPEN_SUPPORT \<equiv> 0x20000"
abbreviation FUSE_CAP_PARALLEL_DIROPS :: u64 where "FUSE_CAP_PARALLEL_DIROPS \<equiv> 0x40000"
abbreviation FUSE_CAP_POSIX_ACL :: u64 where "FUSE_CAP_POSIX_ACL \<equiv> 0x80000"
abbreviation FUSE_CAP_HANDLE_KILLPRIV :: u64 where "FUSE_CAP_HANDLE_KILLPRIV \<equiv> 0x100000"
abbreviation FUSE_CAP_HANDLE_KILLPRIV_V2 :: u64 where "FUSE_CAP_HANDLE_KILLPRIV_V2 \<equiv> 0x200000"
abbreviation FUSE_CAP_CACHE_SYMLINKS :: u64 where "FUSE_CAP_CACHE_SYMLINKS \<equiv> 0x800000"
abbreviation FUSE_CAP_NO_OPENDIR_SUPPORT :: u64 where "FUSE_CAP_NO_OPENDIR_SUPPORT \<equiv> 0x1000000"
abbreviation FUSE_CAP_EXPLICIT_INVAL_DATA :: u64 where "FUSE_CAP_EXPLICIT_INVAL_DATA \<equiv> 0x2000000"
abbreviation FUSE_CAP_EXPIRE_ONLY :: u64 where "FUSE_CAP_EXPIRE_ONLY \<equiv> 0x4000000"
abbreviation FUSE_CAP_SETXATTR_EXT :: u64 where "FUSE_CAP_SETXATTR_EXT \<equiv> 0x8000000"
abbreviation FUSE_CAP_DIRECT_IO_ALLOW_MMAP :: u64 where "FUSE_CAP_DIRECT_IO_ALLOW_MMAP \<equiv> 0x10000000"
abbreviation FUSE_CAP_PASSTHROUGH :: u64 where "FUSE_CAP_PASSTHROUGH \<equiv> 0x20000000"
abbreviation FUSE_CAP_NO_EXPORT_SUPPORT :: u64 where "FUSE_CAP_NO_EXPORT_SUPPORT \<equiv> 0x40000000"
abbreviation FUSE_CAP_OVER_IO_URING :: u64 where "FUSE_CAP_OVER_IO_URING \<equiv> 0x80000000"

section \<open>Data of the low-level interface\<close>

record stat =
  st_ino :: u64
  st_mode :: u32
  st_nlink :: u64
  st_uid :: u32
  st_gid :: u32
  st_rdev :: u64
  st_size :: u64
  st_blksize :: u64
  st_blocks :: u64
  st_atime :: u64
  st_mtime :: u64
  st_ctime :: u64
  st_atimensec :: u64
  st_mtimensec :: u64
  st_ctimensec :: u64

definition zero_stat :: stat where
  "zero_stat = \<lparr>st_ino = 0, st_mode = 0, st_nlink = 0, st_uid = 0, st_gid = 0, st_rdev = 0,
     st_size = 0, st_blksize = 0, st_blocks = 0, st_atime = 0, st_mtime = 0, st_ctime = 0,
     st_atimensec = 0, st_mtimensec = 0, st_ctimensec = 0\<rparr>"

record statvfs =
  f_bsize :: u64
  f_frsize :: u64
  f_blocks :: u64
  f_bfree :: u64
  f_bavail :: u64
  f_files :: u64
  f_ffree :: u64
  f_namemax :: u64

definition zero_statvfs :: statvfs where
  "zero_statvfs = \<lparr>f_bsize = 0, f_frsize = 0, f_blocks = 0, f_bfree = 0, f_bavail = 0,
     f_files = 0, f_ffree = 0, f_namemax = 0\<rparr>"

record flock =
  l_type :: u16
  l_whence :: u16
  l_start :: u64
  l_len :: u64

type_synonym double_bits = u64

record fuse_entry_param =
  ep_ino :: u64
  ep_generation :: u64
  ep_attr :: stat
  ep_attr_timeout :: double_bits
  ep_entry_timeout :: double_bits

definition zero_entry_param :: fuse_entry_param where
  "zero_entry_param = \<lparr>ep_ino = 0, ep_generation = 0, ep_attr = zero_stat,
     ep_attr_timeout = 0, ep_entry_timeout = 0\<rparr>"

record fuse_ctx =
  ctx_uid :: u32
  ctx_gid :: u32
  ctx_pid :: u32
  ctx_umask :: u32

record fuse_file_info =
  fi_flags :: u32
  fi_writepage :: bool
  fi_direct_io :: bool
  fi_keep_cache :: bool
  fi_flush :: bool
  fi_nonseekable :: bool
  fi_flock_release :: bool
  fi_cache_readdir :: bool
  fi_noflush :: bool
  fi_parallel_direct_writes :: bool
  fi_fh :: u64
  fi_lock_owner :: u64
  fi_poll_events :: u32
  fi_backing_id :: u32

definition zero_file_info :: fuse_file_info where
  "zero_file_info = \<lparr>fi_flags = 0, fi_writepage = False, fi_direct_io = False,
     fi_keep_cache = False, fi_flush = False, fi_nonseekable = False, fi_flock_release = False,
     fi_cache_readdir = False, fi_noflush = False, fi_parallel_direct_writes = False,
     fi_fh = 0, fi_lock_owner = 0, fi_poll_events = 0, fi_backing_id = 0\<rparr>"

record fuse_conn_info =
  proto_major :: u32
  proto_minor :: u32
  max_write :: u32
  max_read :: u32
  max_readahead :: u32
  capable :: u32
  want :: u32
  max_background :: u32
  congestion_threshold :: u32
  time_gran :: u32
  max_backing_stack_depth :: u32
  no_interrupt :: bool
  capable_ext :: u64
  want_ext :: u64
  request_timeout :: u16

definition zero_conn_info :: fuse_conn_info where
  "zero_conn_info = \<lparr>proto_major = 0, proto_minor = 0, max_write = 0, max_read = 0,
     max_readahead = 0, capable = 0, want = 0, max_background = 0, congestion_threshold = 0,
     time_gran = 0, max_backing_stack_depth = 0, no_interrupt = False, capable_ext = 0,
     want_ext = 0, request_timeout = 0\<rparr>"

section \<open>The request shared with the UKFS driver\<close>

abbreviation FUSE_UKFS_LOOKUP :: u32 where "FUSE_UKFS_LOOKUP \<equiv> 1"
abbreviation FUSE_UKFS_GETATTR :: u32 where "FUSE_UKFS_GETATTR \<equiv> 2"
abbreviation FUSE_UKFS_OPEN :: u32 where "FUSE_UKFS_OPEN \<equiv> 3"
abbreviation FUSE_UKFS_READ :: u32 where "FUSE_UKFS_READ \<equiv> 4"
abbreviation FUSE_UKFS_READDIR :: u32 where "FUSE_UKFS_READDIR \<equiv> 5"

text \<open>The input union, one constructor per member; a name is the C string without its NUL.\<close>

datatype ukfs_in =
    In_lookup (in_parent_ino: u64) (in_name: "byte list")
  | In_getattr (in_ino: u64)
  | In_open u64 (in_flags: u32)
  | In_read u64 (in_fh: u64) (in_offset: u64) (in_size: u32)
  | In_readdir u64 u64 u64 u32

text \<open>What the untyped \<^verbatim>\<open>reply_data\<close> pointer can point to.\<close>

datatype reply_data =
    RNull
  | REntry fuse_entry_param
  | RStat stat
  | ROpen fuse_open_out
  | RBytes "byte list"

record fuse_ukfs_request =
  ur_opcode :: u32
  ur_unique :: u64
  ur_in :: ukfs_in
  ur_error :: int
  ur_reply_data :: reply_data
  ur_reply_len :: nat
  ur_done :: nat

end
