(* ===== verification/Fuse_Queue.thy ===== *)
theory Fuse_Queue
  imports Fuse_Common
begin

text \<open>
  The request queue between the UKFS driver and the FUSE daemon
  (\<^verbatim>\<open>libs/ukfusefs/fuse_queue.c\<close>). Two models of the same three functions:
  \<^item> \<open>fuse_ukfs_queue_init\<close>, \<open>fuse_ukfs_queue_push\<close> and \<open>fuse_ukfs_queue_pop\<close> as functions on
    the queue record, one call at a time, with blocking and the failed assertion as results;
  \<^item> \<open>q_step\<close>, one rule per statement of push and pop, for any number of threads that
    interleave at the mutex and semaphore operations.
  The locale \<open>request_fifo\<close> is the contract the daemon and the driver rely on; it is interpreted
  on the queue functions. The step relation shows that the mutex excludes, that requests leave
  in the order they entered, and that the assertion in pop never fails, in every interleaving.
\<close>

section \<open>The queue, one call at a time\<close>

text \<open>The mutex is free between calls, so the record keeps the TAILQ and the semaphore.\<close>

record fuse_ukfs_queue =
  q_head :: "addr list"
  q_count :: nat

datatype pop_result = Blocked | AssertFailed | Popped addr fuse_ukfs_queue

definition fuse_ukfs_queue_init :: fuse_ukfs_queue where
  "fuse_ukfs_queue_init = \<lparr>q_head = [], q_count = 0\<rparr>"

definition fuse_ukfs_queue_push :: "fuse_ukfs_queue \<Rightarrow> addr \<Rightarrow> fuse_ukfs_queue" where
  "fuse_ukfs_queue_push q req =
     (let q1 = q\<lparr>q_head := q_head q @ [req]\<rparr> in q1\<lparr>q_count := q_count q1 + 1\<rparr>)"

definition fuse_ukfs_queue_pop :: "fuse_ukfs_queue \<Rightarrow> pop_result" where
  "fuse_ukfs_queue_pop q =
     (if q_count q = 0 then Blocked
      else let q1 = q\<lparr>q_count := q_count q - 1\<rparr> in
        case q_head q1 of
          [] \<Rightarrow> AssertFailed
        | req # _ \<Rightarrow> Popped req (q1\<lparr>q_head := remove1 req (q_head q1)\<rparr>))"

definition queue_ok :: "fuse_ukfs_queue \<Rightarrow> bool" where
  "queue_ok q \<longleftrightarrow> q_count q = length (q_head q)"

fun push_all :: "fuse_ukfs_queue \<Rightarrow> addr list \<Rightarrow> fuse_ukfs_queue" where
  "push_all q [] = q"
| "push_all q (r # rs) = push_all (fuse_ukfs_queue_push q r) rs"

fun pop_many :: "nat \<Rightarrow> fuse_ukfs_queue \<Rightarrow> (addr list \<times> fuse_ukfs_queue) option" where
  "pop_many 0 q = Some ([], q)"
| "pop_many (Suc n) q =
     (case fuse_ukfs_queue_pop q of
        Popped r q' \<Rightarrow> map_option (\<lambda>(rs, q''). (r # rs, q'')) (pop_many n q')
      | _ \<Rightarrow> None)"

section \<open>Push and pop as interleaved steps\<close>

type_synonym tid = nat

text \<open>Where a thread stands inside push or pop.\<close>

datatype q_pc =
    Idle
  | Push_lock addr      \<comment> \<open>about to take the mutex\<close>
  | Push_insert addr    \<comment> \<open>holds the mutex, about to insert\<close>
  | Push_unlock         \<comment> \<open>inserted, about to release the mutex\<close>
  | Push_up             \<comment> \<open>released, about to raise the semaphore\<close>
  | Pop_down            \<comment> \<open>about to lower the semaphore\<close>
  | Pop_lock            \<comment> \<open>lowered, about to take the mutex\<close>
  | Pop_first           \<comment> \<open>holds the mutex, about to read the first element\<close>
  | Pop_remove addr     \<comment> \<open>holds the mutex, about to remove the element\<close>
  | Pop_unlock addr     \<comment> \<open>removed, about to release the mutex\<close>
  | Assert_failed       \<comment> \<open>\<^verbatim>\<open>UK_ASSERT(req)\<close> hit\<close>

text \<open>\<open>qs_in\<close> and \<open>qs_out\<close> record the requests in the order they were inserted and removed.\<close>

record q_state =
  qs_head :: "addr list"
  qs_lock :: "tid option"
  qs_count :: nat
  qs_pc :: "tid \<Rightarrow> q_pc"
  qs_in :: "addr list"
  qs_out :: "addr list"

definition q_start :: q_state where
  "q_start = \<lparr>qs_head = [], qs_lock = None, qs_count = 0, qs_pc = (\<lambda>_. Idle), qs_in = [],
     qs_out = []\<rparr>"

inductive q_step :: "q_state \<Rightarrow> tid \<Rightarrow> q_state \<Rightarrow> bool" where
  push_call: "qs_pc s t = Idle \<Longrightarrow> q_step s t (s\<lparr>qs_pc := (qs_pc s)(t := Push_lock r)\<rparr>)"
| push_lock: "qs_pc s t = Push_lock r \<Longrightarrow> qs_lock s = None \<Longrightarrow>
    q_step s t (s\<lparr>qs_lock := Some t, qs_pc := (qs_pc s)(t := Push_insert r)\<rparr>)"
| push_insert: "qs_pc s t = Push_insert r \<Longrightarrow>
    q_step s t (s\<lparr>qs_head := qs_head s @ [r], qs_in := qs_in s @ [r],
                  qs_pc := (qs_pc s)(t := Push_unlock)\<rparr>)"
| push_unlock: "qs_pc s t = Push_unlock \<Longrightarrow>
    q_step s t (s\<lparr>qs_lock := None, qs_pc := (qs_pc s)(t := Push_up)\<rparr>)"
| push_up: "qs_pc s t = Push_up \<Longrightarrow>
    q_step s t (s\<lparr>qs_count := qs_count s + 1, qs_pc := (qs_pc s)(t := Idle)\<rparr>)"
| pop_call: "qs_pc s t = Idle \<Longrightarrow> q_step s t (s\<lparr>qs_pc := (qs_pc s)(t := Pop_down)\<rparr>)"
| pop_down: "qs_pc s t = Pop_down \<Longrightarrow> 0 < qs_count s \<Longrightarrow>
    q_step s t (s\<lparr>qs_count := qs_count s - 1, qs_pc := (qs_pc s)(t := Pop_lock)\<rparr>)"
| pop_lock: "qs_pc s t = Pop_lock \<Longrightarrow> qs_lock s = None \<Longrightarrow>
    q_step s t (s\<lparr>qs_lock := Some t, qs_pc := (qs_pc s)(t := Pop_first)\<rparr>)"
| pop_first: "qs_pc s t = Pop_first \<Longrightarrow> qs_head s = r # rs \<Longrightarrow>
    q_step s t (s\<lparr>qs_pc := (qs_pc s)(t := Pop_remove r)\<rparr>)"
| pop_assert: "qs_pc s t = Pop_first \<Longrightarrow> qs_head s = [] \<Longrightarrow>
    q_step s t (s\<lparr>qs_pc := (qs_pc s)(t := Assert_failed)\<rparr>)"
| pop_remove: "qs_pc s t = Pop_remove r \<Longrightarrow>
    q_step s t (s\<lparr>qs_head := remove1 r (qs_head s), qs_out := qs_out s @ [r],
                  qs_pc := (qs_pc s)(t := Pop_unlock r)\<rparr>)"
| pop_unlock: "qs_pc s t = Pop_unlock r \<Longrightarrow>
    q_step s t (s\<lparr>qs_lock := None, qs_pc := (qs_pc s)(t := Idle)\<rparr>)"

inductive q_reachable :: "q_state \<Rightarrow> bool" where
  q_init: "q_reachable q_start"
| q_next: "q_reachable s \<Longrightarrow> q_step s t s' \<Longrightarrow> q_reachable s'"

fun holds_lock :: "q_pc \<Rightarrow> bool" where
  "holds_lock (Push_insert _) = True"
| "holds_lock Push_unlock = True"
| "holds_lock Pop_first = True"
| "holds_lock (Pop_remove _) = True"
| "holds_lock (Pop_unlock _) = True"
| "holds_lock _ = False"

text \<open>Inserted and not yet counted by the semaphore.\<close>

fun owes_up :: "q_pc \<Rightarrow> bool" where
  "owes_up Push_unlock = True"
| "owes_up Push_up = True"
| "owes_up _ = False"

text \<open>Took a unit of the semaphore and not yet removed its element.\<close>

fun owns_unit :: "q_pc \<Rightarrow> bool" where
  "owns_unit Pop_lock = True"
| "owns_unit Pop_first = True"
| "owns_unit (Pop_remove _) = True"
| "owns_unit _ = False"

definition threads_at :: "(q_pc \<Rightarrow> bool) \<Rightarrow> q_state \<Rightarrow> tid set" where
  "threads_at P s = {t. P (qs_pc s t)}"

definition q_inv :: "q_state \<Rightarrow> bool" where
  "q_inv s \<longleftrightarrow>
     (\<forall>t. holds_lock (qs_pc s t) \<longleftrightarrow> qs_lock s = Some t) \<and>
     (\<forall>t. qs_pc s t \<noteq> Assert_failed) \<and>
     (\<forall>t r. qs_pc s t = Pop_remove r \<longrightarrow> qs_head s \<noteq> [] \<and> hd (qs_head s) = r) \<and>
     finite (threads_at owes_up s) \<and> finite (threads_at owns_unit s) \<and>
     length (qs_head s) = qs_count s + card (threads_at owes_up s) + card (threads_at owns_unit s) \<and>
     qs_in s = qs_out s @ qs_head s"

section \<open>Lemmas on the queue functions\<close>

locale request_fifo =
  fixes empty :: 'q
    and push :: "'q \<Rightarrow> 'a \<Rightarrow> 'q"
    and pop :: "'q \<Rightarrow> ('a \<times> 'q) option"
    and content :: "'q \<Rightarrow> 'a list"
    and invar :: "'q \<Rightarrow> bool"
  assumes invar_empty: "invar empty"
    and content_empty: "content empty = []"
    and invar_push: "invar q \<Longrightarrow> invar (push q a)"
    and content_push: "invar q \<Longrightarrow> content (push q a) = content q @ [a]"
    and pop_none: "invar q \<Longrightarrow> pop q = None \<longleftrightarrow> content q = []"
    and pop_some: "invar q \<Longrightarrow> pop q = Some (a, q') \<Longrightarrow> content q = a # content q' \<and> invar q'"
begin

lemma pop_push_empty: "invar q \<Longrightarrow> content q = [] \<Longrightarrow> \<exists>q'. pop (push q a) = Some (a, q') \<and> content q' = []"
  by (cases "pop (push q a)") (auto simp: content_push invar_push pop_none dest!: pop_some [rotated])

lemma push_then_pop_keeps_head:
  assumes "invar q" and "pop q = Some (a, q')"
  shows "\<exists>q''. pop (push q b) = Some (a, q'') \<and> content q'' = content q' @ [b]"
proof -
  have c: "content q = a # content q'" using assms by (auto dest: pop_some)
  with assms(1) have "content (push q b) = a # content q' @ [b]" by (simp add: content_push)
  moreover from this obtain c q'' where "pop (push q b) = Some (c, q'')"
    using assms(1) pop_none [of "push q b"] invar_push [of q b] by (cases "pop (push q b)") auto
  ultimately show ?thesis
    using assms(1) invar_push [of q b] pop_some [of "push q b" c q''] by auto
qed

lemma foldl_push: "invar q \<Longrightarrow> content (foldl push q as) = content q @ as \<and> invar (foldl push q as)"
  by (induction "as" arbitrary: q) (auto simp: content_push invar_push)

end

definition try_pop :: "fuse_ukfs_queue \<Rightarrow> (addr \<times> fuse_ukfs_queue) option" where
  "try_pop q = (case fuse_ukfs_queue_pop q of Popped r q' \<Rightarrow> Some (r, q') | _ \<Rightarrow> None)"

lemma queue_ok_init [simp]: "queue_ok fuse_ukfs_queue_init"
  by (simp add: queue_ok_def fuse_ukfs_queue_init_def)

lemma queue_ok_push [simp]: "queue_ok q \<Longrightarrow> queue_ok (fuse_ukfs_queue_push q r)"
  by (simp add: queue_ok_def fuse_ukfs_queue_push_def Let_def)

lemma head_push [simp]: "q_head (fuse_ukfs_queue_push q r) = q_head q @ [r]"
  by (simp add: fuse_ukfs_queue_push_def Let_def)

lemma pop_ok:
  "queue_ok q \<Longrightarrow>
     fuse_ukfs_queue_pop q =
       (case q_head q of [] \<Rightarrow> Blocked
        | r # rs \<Rightarrow> Popped r \<lparr>q_head = rs, q_count = length rs\<rparr>)"
  by (cases q) (auto simp: queue_ok_def fuse_ukfs_queue_pop_def split: list.splits)

interpretation ukfs_queue: request_fifo fuse_ukfs_queue_init fuse_ukfs_queue_push try_pop q_head queue_ok
  by unfold_locales
    (auto simp: try_pop_def pop_ok queue_ok_def fuse_ukfs_queue_init_def fuse_ukfs_queue_push_def
      split: list.splits pop_result.splits)

lemma push_all_foldl: "push_all q rs = foldl fuse_ukfs_queue_push q rs"
  by (induction rs arbitrary: q) auto

lemma pop_many_ok:
  "queue_ok q \<Longrightarrow> n \<le> length (q_head q) \<Longrightarrow>
     pop_many n q = Some (take n (q_head q),
       \<lparr>q_head = drop n (q_head q), q_count = length (q_head q) - n\<rparr>)"
proof (induction n arbitrary: q)
  case 0
  then show ?case by (cases q) (simp add: queue_ok_def)
next
  case (Suc n)
  then obtain r rs where h: "q_head q = r # rs" by (cases "q_head q") auto
  let ?q = "\<lparr>q_head = rs, q_count = length rs\<rparr>"
  have "pop_many n ?q = Some (take n rs, \<lparr>q_head = drop n rs, q_count = length rs - n\<rparr>)"
    using Suc.IH [of ?q] Suc.prems h by (simp add: queue_ok_def)
  then show ?case
    using Suc.prems h by (simp add: pop_ok)
qed

section \<open>Lemmas on the interleaved steps\<close>

lemma card_threads_upd:
  assumes "finite {t. P (f t)}"
  shows "finite {t. P ((f(i := x)) t)}"
    and "card {t. P ((f(i := x)) t)} + (if P (f i) then 1 else 0)
       = card {t. P (f t)} + (if P x then 1 else 0)"
proof -
  let ?A = "{t. P (f t)}" and ?B = "{t. P ((f(i := x)) t)}"
  have B: "?B = (if P x then insert i (?A - {i}) else ?A - {i})" by auto
  show "finite ?B" unfolding B using assms by simp
  show "card ?B + (if P (f i) then 1 else 0) = card ?A + (if P x then 1 else 0)"
    unfolding B using assms card_Suc_Diff1 [of ?A i] by (auto simp: card_insert_if)
qed

lemma q_inv_start: "q_inv q_start"
  by (simp add: q_inv_def q_start_def threads_at_def)

text \<open>The three counted quantities after one thread has moved from \<open>f i\<close> to \<open>x\<close>.\<close>

lemma threads_at_upd:
  assumes "finite (threads_at P s)" and "qs_pc s' = (qs_pc s)(i := x)"
  shows "finite (threads_at P s')"
    and "card (threads_at P s') + (if P (qs_pc s i) then 1 else 0)
       = card (threads_at P s) + (if P x then 1 else 0)"
  using card_threads_upd [of P "qs_pc s" i x] assms by (simp_all add: threads_at_def)

lemma q_invI:
  assumes inv: "q_inv s" and pc: "qs_pc s' = (qs_pc s)(i := x)"
    and lock: "\<And>t. holds_lock (qs_pc s' t) \<longleftrightarrow> qs_lock s' = Some t"
    and x: "x \<noteq> Assert_failed"
    and rem: "\<And>t r. qs_pc s' t = Pop_remove r \<Longrightarrow> qs_head s' \<noteq> [] \<and> hd (qs_head s') = r"
    and cnt: "length (qs_head s') + qs_count s + (if owes_up (qs_pc s i) then 1 else 0)
                + (if owns_unit (qs_pc s i) then 1 else 0)
            = length (qs_head s) + qs_count s' + (if owes_up x then 1 else 0)
                + (if owns_unit x then 1 else 0)"
    and fifo: "qs_in s' = qs_out s' @ qs_head s'"
  shows "q_inv s'"
proof -
  have fin: "finite (threads_at owes_up s)" "finite (threads_at owns_unit s)"
    and len: "length (qs_head s) = qs_count s + card (threads_at owes_up s) + card (threads_at owns_unit s)"
    and na: "\<And>t. qs_pc s t \<noteq> Assert_failed"
    using inv by (auto simp: q_inv_def)
  have "length (qs_head s') = qs_count s' + card (threads_at owes_up s') + card (threads_at owns_unit s')"
    using threads_at_upd(2) [OF fin(1) pc] threads_at_upd(2) [OF fin(2) pc] len cnt
    by (simp split: if_splits)
  moreover have "\<And>t. qs_pc s' t \<noteq> Assert_failed"
    using na x pc by auto
  ultimately show ?thesis
    using lock rem fifo threads_at_upd(1) [OF fin(1) pc] threads_at_upd(1) [OF fin(2) pc]
    by (simp add: q_inv_def)
qed

lemma q_inv_lockD: "q_inv s \<Longrightarrow> holds_lock (qs_pc s t) \<longleftrightarrow> qs_lock s = Some t"
  by (simp add: q_inv_def)

lemma q_inv_removeD: "q_inv s \<Longrightarrow> qs_pc s t = Pop_remove r \<Longrightarrow> \<exists>rs. qs_head s = r # rs"
  by (cases "qs_head s") (auto simp: q_inv_def)

lemma q_inv_fifoD: "q_inv s \<Longrightarrow> qs_in s = qs_out s @ qs_head s"
  by (simp add: q_inv_def)

lemma q_inv_unit_head:
  assumes "q_inv s" and "owns_unit (qs_pc s t)"
  shows "qs_head s \<noteq> []"
proof -
  have "t \<in> threads_at owns_unit s" and "finite (threads_at owns_unit s)"
    using assms by (auto simp: threads_at_def q_inv_def)
  then have "0 < card (threads_at owns_unit s)" by (auto simp: card_gt_0_iff)
  then show ?thesis using assms(1) by (auto simp: q_inv_def)
qed

lemma q_step_inv:
  assumes step: "q_step s t s'" and inv: "q_inv s"
  shows "q_inv s'"
proof -
  note L = q_inv_lockD [OF inv] and F = q_inv_fifoD [OF inv] and R = q_inv_removeD [OF inv]
  have l: "holds_lock (qs_pc s t) \<longleftrightarrow> qs_lock s = Some t" by (rule L)
  have nonempty: "qs_pc s t = Pop_first \<Longrightarrow> qs_head s \<noteq> []"
    using q_inv_unit_head [OF inv, of t] by simp
  have U: "\<And>u ra. qs_pc s u = Pop_remove ra \<Longrightarrow> qs_lock s = Some u"
    using L by (metis holds_lock.simps(4))
  note I = q_invI [OF inv, where i = t]
  from step show ?thesis
  proof cases
    case (push_call r)
    then show ?thesis
      using l by (intro I [where x = "Push_lock r"]) (auto simp: L F dest: R split: if_splits)
  next
    case (push_lock r)
    then show ?thesis
      using l by (intro I [where x = "Push_insert r"]) (auto simp: L F dest: R split: if_splits)
  next
    case (push_insert r)
    then show ?thesis
      using l by (intro I [where x = "Push_unlock"]) (auto simp: L F dest: R split: if_splits)
  next
    case push_unlock
    then show ?thesis
      using l by (intro I [where x = "Push_up"]) (auto simp: L F dest: R split: if_splits)
  next
    case push_up
    then show ?thesis
      using l by (intro I [where x = "Idle"]) (auto simp: L F dest: R split: if_splits)
  next
    case pop_call
    then show ?thesis
      using l by (intro I [where x = "Pop_down"]) (auto simp: L F dest: R split: if_splits)
  next
    case pop_down
    then show ?thesis
      using l by (intro I [where x = "Pop_lock"]) (auto simp: L F dest: R split: if_splits)
  next
    case pop_lock
    then show ?thesis
      using l by (intro I [where x = "Pop_first"]) (auto simp: L F dest: R split: if_splits)
  next
    case (pop_first r rs)
    then show ?thesis
      using l by (intro I [where x = "Pop_remove r"]) (auto simp: L F dest: R split: if_splits)
  next
    case pop_assert
    with nonempty show ?thesis by simp
  next
    case (pop_remove r)
    then show ?thesis
      using l R [of t] by (intro I [where x = "Pop_unlock r"]) (auto simp: L F dest: U split: if_splits)
  next
    case (pop_unlock r)
    then show ?thesis
      using l by (intro I [where x = "Idle"]) (auto simp: L F dest: R split: if_splits)
  qed
qed

lemma q_reachable_inv: "q_reachable s \<Longrightarrow> q_inv s"
  by (induction rule: q_reachable.induct) (auto simp: q_inv_start intro: q_step_inv)

lemma lock_holder_moves:
  assumes "q_inv s" and "qs_lock s = Some t"
  shows "\<exists>s'. q_step s t s'"
proof -
  have "holds_lock (qs_pc s t)" using assms by (simp add: q_inv_lockD)
  then show ?thesis
    by (cases "qs_pc s t"; cases "qs_head s") (auto intro: q_step.intros)
qed

text \<open>A concrete interleaving: thread 0 inserts request 7 while thread 1 waits in pop, then
  thread 1 takes the request and stands right before the removal.\<close>

definition q_demo :: q_state where
  "q_demo = q_start\<lparr>qs_head := [7], qs_lock := Some 1, qs_in := [7],
     qs_pc := (\<lambda>_. Idle)(0 := Idle, 1 := Pop_remove 7)\<rparr>"

lemma q_demo_reachable: "q_reachable q_demo"
proof -
  let ?s = "\<lambda>h l c p. \<lparr>qs_head = h, qs_lock = l, qs_count = c, qs_pc = p, qs_in = h, qs_out = []\<rparr>"
  let ?p = "\<lambda>a b. (\<lambda>_. Idle)(0 := a, 1 := b)"
  have idle: "?p Idle Idle = (\<lambda>_. Idle)" by auto
  have "q_reachable (?s [] None 0 (?p Idle Idle))"
    using q_init unfolding q_start_def idle .
  from q_next [OF this push_call [of _ 0 7]]
  have "q_reachable (?s [] None 0 (?p (Push_lock 7) Idle))" by (simp add: fun_upd_twist)
  from q_next [OF this pop_call [of _ 1]]
  have "q_reachable (?s [] None 0 (?p (Push_lock 7) Pop_down))" by simp
  from q_next [OF this push_lock [of _ 0 7]]
  have "q_reachable (?s [] (Some 0) 0 (?p (Push_insert 7) Pop_down))" by (simp add: fun_upd_twist)
  from q_next [OF this push_insert [of _ 0 7]]
  have "q_reachable (?s [7] (Some 0) 0 (?p Push_unlock Pop_down))" by (simp add: fun_upd_twist)
  from q_next [OF this push_unlock [of _ 0]]
  have "q_reachable (?s [7] None 0 (?p Push_up Pop_down))" by (simp add: fun_upd_twist)
  from q_next [OF this push_up [of _ 0]]
  have "q_reachable (?s [7] None 1 (?p Idle Pop_down))" by (simp add: fun_upd_twist)
  from q_next [OF this pop_down [of _ 1]]
  have "q_reachable (?s [7] None 0 (?p Idle Pop_lock))" by simp
  from q_next [OF this pop_lock [of _ 1]]
  have "q_reachable (?s [7] (Some 1) 0 (?p Idle Pop_first))" by simp
  from q_next [OF this pop_first [of _ 1 7 "[]"]]
  have "q_reachable (?s [7] (Some 1) 0 (?p Idle (Pop_remove 7)))" by simp
  then show ?thesis by (simp add: q_demo_def q_start_def)
qed

section \<open>Properties\<close>

text \<open>Pushing requests into a fresh queue and popping as many gives them back in the same
  order and leaves the queue empty; the next pop blocks.\<close>

lemma queue_fifo:
  "pop_many (length rs) (push_all fuse_ukfs_queue_init rs) = Some (rs, fuse_ukfs_queue_init) \<and>
   fuse_ukfs_queue_pop fuse_ukfs_queue_init = Blocked"
proof -
  let ?q = "push_all fuse_ukfs_queue_init rs"
  have q: "q_head ?q = rs" "queue_ok ?q"
    using ukfs_queue.foldl_push [OF queue_ok_init, of rs]
    by (simp_all add: push_all_foldl ukfs_queue.content_empty)
  then show ?thesis
    using pop_many_ok [of ?q "length rs"] by (simp add: fuse_ukfs_queue_init_def fuse_ukfs_queue_pop_def)
qed

text \<open>\<^bold>\<open>C9\<close> In every interleaving of any number of threads, at most one thread is inside the
  region the mutex protects, the assertion that a request is present after the semaphore was
  lowered never fails, and the requests removed so far followed by those still queued are the
  requests inserted, in insertion order: none is lost, duplicated or reordered.\<close>

theorem queue_interleaving_safe:
  assumes "q_reachable s"
  shows "(holds_lock (qs_pc s t) \<and> holds_lock (qs_pc s u) \<longrightarrow> t = u) \<and>
         qs_pc s t \<noteq> Assert_failed \<and>
         qs_in s = qs_out s @ qs_head s"
  using q_reachable_inv [OF assms] by (auto simp: q_inv_def)

theorem queue_interleaving_safe_witness:
  "q_reachable q_demo \<and> qs_pc q_demo 1 \<noteq> Assert_failed \<and> qs_in q_demo = qs_out q_demo @ qs_head q_demo"
  using queue_interleaving_safe [OF q_demo_reachable, of 1 1] q_demo_reachable by simp

text \<open>No wake-up is lost and the mutex is never stuck: when every thread is idle or waits
  in pop with the semaphore at zero, no request is left in the queue; and a thread that holds
  the mutex always has a step.\<close>

lemma queue_no_lost_wakeup:
  assumes "q_reachable s"
  shows "((\<forall>t. qs_pc s t = Idle \<or> qs_pc s t = Pop_down) \<and> qs_count s = 0 \<longrightarrow> qs_head s = []) \<and>
         (qs_lock s = Some t \<longrightarrow> (\<exists>s'. q_step s t s'))"
proof (intro conjI impI)
  have inv: "q_inv s" using assms by (rule q_reachable_inv)
  {
    assume quiet: "(\<forall>t. qs_pc s t = Idle \<or> qs_pc s t = Pop_down) \<and> qs_count s = 0"
    then have "\<not> owes_up (qs_pc s u) \<and> \<not> owns_unit (qs_pc s u)" for u
    proof -
      from quiet have "qs_pc s u = Idle \<or> qs_pc s u = Pop_down" by blast
      then show ?thesis by auto
    qed
    then have "threads_at owes_up s = {}" "threads_at owns_unit s = {}"
      by (auto simp: threads_at_def)
    with inv quiet show "qs_head s = []" by (simp add: q_inv_def)
  }
  show "\<exists>s'. q_step s t s'" if "qs_lock s = Some t"
    using inv that by (rule lock_holder_moves)
qed

end
