(* ===== verification/Fuse_Ring.thy ===== *)
theory Fuse_Ring
  imports Fuse_Prelude
begin

text \<open>
  The circular doubly linked lists of \<^verbatim>\<open>libs/libfuse/lib/fuse_lowlevel.c\<close>: requests in flight
  and pending interrupts hang on list heads inside the session through the \<^verbatim>\<open>next\<close> and
  \<^verbatim>\<open>prev\<close> pointers of \<^verbatim>\<open>struct fuse_req\<close>, notification requests through those of
  \<^verbatim>\<open>struct fuse_notify_req\<close>. The pointers are two functions on addresses, and the list
  operations update them in the order of the C assignments. The locale \<open>intrusive_list\<close> is the
  contract the rest of the library uses (what init, add and del do to the list a head stands
  for, and that they leave other lists alone); it is interpreted on both families of functions.
\<close>

section \<open>The operations\<close>

record ring_links =
  lk_next :: "addr \<Rightarrow> addr"
  lk_prev :: "addr \<Rightarrow> addr"

definition list_init_req :: "ring_links \<Rightarrow> addr \<Rightarrow> ring_links" where
  "list_init_req l req =
     (let l1 = l\<lparr>lk_next := (lk_next l)(req := req)\<rparr>
      in l1\<lparr>lk_prev := (lk_prev l1)(req := req)\<rparr>)"

definition list_del_req :: "ring_links \<Rightarrow> addr \<Rightarrow> ring_links" where
  "list_del_req l req =
     (let prv = lk_prev l req; nxt = lk_next l req;
          l1 = l\<lparr>lk_next := (lk_next l)(prv := nxt)\<rparr>
      in l1\<lparr>lk_prev := (lk_prev l1)(nxt := prv)\<rparr>)"

definition list_add_req :: "ring_links \<Rightarrow> addr \<Rightarrow> addr \<Rightarrow> ring_links" where
  "list_add_req l req nxt =
     (let prv = lk_prev l nxt;
          l1 = l\<lparr>lk_next := (lk_next l)(req := nxt)\<rparr>;
          l2 = l1\<lparr>lk_prev := (lk_prev l1)(req := prv)\<rparr>;
          l3 = l2\<lparr>lk_next := (lk_next l2)(prv := req)\<rparr>
      in l3\<lparr>lk_prev := (lk_prev l3)(nxt := req)\<rparr>)"

definition list_init_nreq :: "ring_links \<Rightarrow> addr \<Rightarrow> ring_links" where
  "list_init_nreq l nreq =
     (let l1 = l\<lparr>lk_next := (lk_next l)(nreq := nreq)\<rparr>
      in l1\<lparr>lk_prev := (lk_prev l1)(nreq := nreq)\<rparr>)"

definition list_del_nreq :: "ring_links \<Rightarrow> addr \<Rightarrow> ring_links" where
  "list_del_nreq l nreq =
     (let prv = lk_prev l nreq; nxt = lk_next l nreq;
          l1 = l\<lparr>lk_next := (lk_next l)(prv := nxt)\<rparr>
      in l1\<lparr>lk_prev := (lk_prev l1)(nxt := prv)\<rparr>)"

definition list_add_nreq :: "ring_links \<Rightarrow> addr \<Rightarrow> addr \<Rightarrow> ring_links" where
  "list_add_nreq l nreq nxt =
     (let prv = lk_prev l nxt;
          l1 = l\<lparr>lk_next := (lk_next l)(nreq := nxt)\<rparr>;
          l2 = l1\<lparr>lk_prev := (lk_prev l1)(nreq := prv)\<rparr>;
          l3 = l2\<lparr>lk_next := (lk_next l2)(prv := nreq)\<rparr>
      in l3\<lparr>lk_prev := (lk_prev l3)(nxt := nreq)\<rparr>)"

text \<open>The loop \<^verbatim>\<open>for (curr = head->next; curr != head; curr = curr->next)\<close> with an early exit:
  \<open>Some (Some a)\<close> when it stops at \<open>a\<close>, \<open>Some None\<close> when it comes back to the head, \<open>None\<close>
  when it never ends.\<close>

partial_function (option) list_scan ::
  "ring_links \<Rightarrow> addr \<Rightarrow> (addr \<Rightarrow> bool) \<Rightarrow> addr \<Rightarrow> addr option option" where
  "list_scan l head P cur =
     (if cur = head then Some None
      else if P cur then Some (Some cur)
      else list_scan l head P (lk_next l cur))"

section \<open>What a head stands for\<close>

fun chain :: "ring_links \<Rightarrow> addr list \<Rightarrow> bool" where
  "chain l (a # b # xs) = (lk_next l a = b \<and> lk_prev l b = a \<and> chain l (b # xs))"
| "chain l _ = True"

definition ring :: "ring_links \<Rightarrow> addr \<Rightarrow> addr list \<Rightarrow> bool" where
  "ring l head xs \<longleftrightarrow> distinct (head # xs) \<and> chain l (head # xs @ [head])"

locale intrusive_list =
  fixes init :: "ring_links \<Rightarrow> addr \<Rightarrow> ring_links"
    and add :: "ring_links \<Rightarrow> addr \<Rightarrow> addr \<Rightarrow> ring_links"
    and del :: "ring_links \<Rightarrow> addr \<Rightarrow> ring_links"
  assumes init_ring: "ring (init l a) a []"
    and init_frame: "ring l h xs \<Longrightarrow> a \<notin> set (h # xs) \<Longrightarrow> ring (init l a) h xs"
    and add_ring: "ring l h xs \<Longrightarrow> a \<notin> set (h # xs) \<Longrightarrow> ring (add l a h) h (xs @ [a])"
    and add_frame: "ring l h xs \<Longrightarrow> ring l k ys \<Longrightarrow> set (h # xs) \<inter> set (k # ys) = {} \<Longrightarrow>
      a \<notin> set (k # ys) \<Longrightarrow> ring (add l a h) k ys"
    and del_ring: "ring l h xs \<Longrightarrow> a \<in> set xs \<Longrightarrow> ring (del l a) h (remove1 a xs)"
    and del_frame: "ring l h xs \<Longrightarrow> ring l k ys \<Longrightarrow> set (h # xs) \<inter> set (k # ys) = {} \<Longrightarrow>
      a \<in> set xs \<Longrightarrow> ring (del l a) k ys"
    and del_alone: "ring l a [] \<Longrightarrow> del l a = l"
begin

lemma add_del:
  assumes "ring l h xs" and "a \<notin> set (h # xs)"
  shows "ring (del (add l a h) a) h xs"
  using del_ring [OF add_ring [OF assms], of a] assms(2) by (simp add: remove1_append)

text \<open>A list that was only initialised keeps every other list when it is removed again.\<close>

lemma init_del_frame:
  assumes "ring l h xs" and "a \<notin> set (h # xs)"
  shows "ring (del (init l a) a) h xs"
  using init_frame [OF assms] del_alone [OF init_ring] by simp

end

section \<open>The contract holds\<close>

lemma chain_append:
  "chain l (xs @ a # ys) \<longleftrightarrow> chain l (xs @ [a]) \<and> chain l (a # ys)"
proof (induction xs)
  case (Cons x xs)
  then show ?case by (cases xs) auto
qed simp

lemma chain_cong:
  assumes "\<And>a. a \<in> set (butlast xs) \<Longrightarrow> lk_next l' a = lk_next l a"
    and "\<And>a. a \<in> set (tl xs) \<Longrightarrow> lk_prev l' a = lk_prev l a"
  shows "chain l' xs \<longleftrightarrow> chain l xs"
  using assms by (induction l xs rule: chain.induct) auto

lemma ring_cong:
  assumes "\<And>a. a \<in> set (h # xs) \<Longrightarrow> lk_next l' a = lk_next l a"
    and "\<And>a. a \<in> set (h # xs) \<Longrightarrow> lk_prev l' a = lk_prev l a"
  shows "ring l' h xs \<longleftrightarrow> ring l h xs"
  unfolding ring_def using assms by (subst chain_cong) (auto simp: butlast_append)

lemma ring_distinct: "ring l h xs \<Longrightarrow> distinct (h # xs)"
  by (simp add: ring_def)

lemma chain_last_prev: "chain l (xs @ [a, b]) \<Longrightarrow> lk_prev l b = a \<and> lk_next l a = b"
  using chain_append [of l xs a "[b]"] by simp

lemma cons_as_snoc:
  obtains ps p where "h # us = ps @ [p]"
  using append_butlast_last_id [of "h # us"] by (metis list.distinct(1))

lemma ring_prev_head:
  assumes "ring l h xs"
  shows "lk_prev l h = last (h # xs)"
proof -
  obtain ps p where p: "h # xs = ps @ [p]" by (rule cons_as_snoc)
  have "chain l ((h # xs) @ [h])" using assms by (simp add: ring_def)
  then have "chain l (ps @ [p, h])" unfolding p by simp
  then show ?thesis unfolding p by (simp add: chain_last_prev)
qed

text \<open>The neighbours of a member of a list are the head or members of the list.\<close>

lemma ring_split:
  assumes "ring l h (us @ a # vs)"
  shows "lk_prev l a = last (h # us)" and "lk_next l a = hd (vs @ [h])"
proof -
  obtain n ns where n: "vs @ [h] = n # ns" by (cases vs) auto
  obtain ps p where p: "h # us = ps @ [p]" by (rule cons_as_snoc)
  have "chain l ((h # us) @ a # (vs @ [h]))" using assms by (simp add: ring_def)
  then have "chain l (ps @ p # a # n # ns)" unfolding n p by simp
  then have "lk_prev l a = p \<and> lk_next l a = n" using chain_append [of l ps p "a # n # ns"] by simp
  then show "lk_prev l a = last (h # us)" and "lk_next l a = hd (vs @ [h])"
    unfolding n p by auto
qed

lemma ring_neighbours:
  assumes "ring l h xs" and "a \<in> set xs"
  shows "lk_prev l a \<in> set (h # xs)" and "lk_next l a \<in> set (h # xs)"
proof -
  obtain us vs where xs: "xs = us @ a # vs" using assms(2) by (meson split_list)
  show "lk_prev l a \<in> set (h # xs)"
    using ring_split(1) [of l h us a vs] assms(1) xs last_in_set [of "h # us"] by auto
  show "lk_next l a \<in> set (h # xs)"
    using ring_split(2) [of l h us a vs] assms(1) xs by (cases vs) auto
qed

lemma list_del_req_ring:
  assumes r: "ring l h xs" and "a \<in> set xs"
  shows "ring (list_del_req l a) h (remove1 a xs)"
proof -
  obtain us vs where xs: "xs = us @ a # vs" and a: "a \<notin> set us"
    using split_list_first [OF assms(2)] by auto
  obtain n ns where n: "vs @ [h] = n # ns" by (cases vs) auto
  obtain ps p where p: "h # us = ps @ [p]" by (rule cons_as_snoc)
  have d: "distinct (h # us @ a # vs)" using r xs by (simp add: ring_def)
  have "chain l ((h # us) @ a # (vs @ [h]))" using r xs by (simp add: ring_def)
  then have c: "chain l (ps @ p # a # n # ns)" unfolding n p by simp
  have links: "lk_prev l a = p" "lk_next l a = n" using chain_append [of l ps p "a # n # ns"] c by auto
  have "distinct ((h # us) @ a # vs)" using d by simp
  then have pm: "p \<notin> set ps" "p \<notin> set vs" "p \<noteq> a" unfolding p by auto
  have nm: "n \<notin> set us" "n \<notin> set ns"
    using n d by (cases vs; auto)+
  have bl: "butlast (n # ns) = vs" using n by (metis butlast_snoc)
  have "chain (list_del_req l a) (ps @ [p]) = chain l (ps @ [p])"
  proof (rule chain_cong)
    fix b assume "b \<in> set (tl (ps @ [p]))"
    then have "b \<in> set us" using p by (metis list.sel(3))
    then show "lk_prev (list_del_req l a) b = lk_prev l b"
      using nm links by (auto simp: list_del_req_def Let_def)
  qed (use pm links in \<open>auto simp: list_del_req_def Let_def\<close>)
  moreover have "chain (list_del_req l a) (n # ns) = chain l (n # ns)"
    by (rule chain_cong) (use bl pm nm links in \<open>auto simp: list_del_req_def Let_def\<close>)
  ultimately have "chain (list_del_req l a) (ps @ p # n # ns)"
    using c links chain_append [of _ ps p "n # ns"] chain_append [of _ ps p "a # n # ns"] by (auto simp: list_del_req_def Let_def)
  then have "chain (list_del_req l a) ((h # us) @ (vs @ [h]))" unfolding n p by simp
  then show ?thesis
    using d xs a by (simp add: ring_def remove1_append)
qed

lemma list_add_req_ring:
  assumes r: "ring l h xs" and a: "a \<notin> set (h # xs)"
  shows "ring (list_add_req l a h) h (xs @ [a])"
proof -
  obtain ps p where p: "h # xs = ps @ [p]" by (rule cons_as_snoc)
  have prv: "lk_prev l h = p" using ring_prev_head [OF r] p by simp
  have d: "distinct (h # xs)" "distinct (ps @ [p])" using r p by (metis ring_distinct)+
  have "chain l ((h # xs) @ [h])" using r by (simp add: ring_def)
  then have c: "chain l (ps @ [p])" unfolding p using chain_append [of l ps p "[h]"] by simp
  have pa: "p \<noteq> a" "a \<notin> set ps" using a unfolding p by auto
  have "chain (list_add_req l a h) (ps @ [p]) = chain l (ps @ [p])"
  proof (rule chain_cong)
    fix b assume "b \<in> set (tl (ps @ [p]))"
    then have "b \<in> set xs" using p by (metis list.sel(3))
    then show "lk_prev (list_add_req l a h) b = lk_prev l b"
      using d a by (auto simp: list_add_req_def Let_def)
  qed (use d pa prv in \<open>auto simp: list_add_req_def Let_def\<close>)
  then have "chain (list_add_req l a h) (ps @ p # [a, h])"
    using c pa a prv chain_append [of "list_add_req l a h" ps p "[a, h]"]
    by (auto simp: list_add_req_def Let_def)
  then have "chain (list_add_req l a h) ((h # xs) @ [a, h])" unfolding p by simp
  then show ?thesis using d a by (simp add: ring_def)
qed

lemma list_req_intrusive: "intrusive_list list_init_req list_add_req list_del_req"
proof
  fix l h xs k ys a
  show "ring (list_init_req l a) a []"
    by (simp add: ring_def list_init_req_def Let_def)
  show "ring l h xs \<Longrightarrow> a \<notin> set (h # xs) \<Longrightarrow> ring (list_init_req l a) h xs"
    by (subst ring_cong [of _ _ _ l]) (auto simp: list_init_req_def Let_def)
  show "ring l h xs \<Longrightarrow> ring l k ys \<Longrightarrow> set (h # xs) \<inter> set (k # ys) = {} \<Longrightarrow>
      a \<notin> set (k # ys) \<Longrightarrow> ring (list_add_req l a h) k ys"
    using ring_prev_head [of l h xs] last_in_set [of "h # xs"]
    by (subst ring_cong [of _ _ _ l])
      (fastforce simp: list_add_req_def Let_def split: if_splits)+
  show "ring l h xs \<Longrightarrow> ring l k ys \<Longrightarrow> set (h # xs) \<inter> set (k # ys) = {} \<Longrightarrow>
      a \<in> set xs \<Longrightarrow> ring (list_del_req l a) k ys"
    using ring_neighbours [of l h xs a]
    by (subst ring_cong [of _ _ _ l]) (auto simp: list_del_req_def Let_def)
  show "ring l a [] \<Longrightarrow> list_del_req l a = l"
    by (simp add: ring_def list_del_req_def Let_def fun_upd_idem)
qed (fact list_add_req_ring list_del_req_ring)+

interpretation req_list: intrusive_list list_init_req list_add_req list_del_req
  by (rule list_req_intrusive)

interpretation nreq_list: intrusive_list list_init_nreq list_add_nreq list_del_nreq
proof -
  have "list_init_nreq = list_init_req" "list_add_nreq = list_add_req" "list_del_nreq = list_del_req"
    by (intro ext, simp add: list_init_req_def list_init_nreq_def list_add_req_def
        list_add_nreq_def list_del_req_def list_del_nreq_def)+
  then show "intrusive_list list_init_nreq list_add_nreq list_del_nreq"
    using list_req_intrusive by simp
qed

section \<open>Scanning a list\<close>

lemma list_scan_chain:
  "chain l (a # xs @ [h]) \<Longrightarrow> h \<notin> set xs \<Longrightarrow> list_scan l h P (lk_next l a) = Some (find P xs)"
proof (induction xs arbitrary: a)
  case Nil
  then show ?case by (simp add: list_scan.simps)
next
  case (Cons x xs)
  then have "lk_next l a = x" "x \<noteq> h" "chain l (x # xs @ [h])" by auto
  then show ?case using Cons by (subst list_scan.simps) auto
qed

lemma list_scan_ring: "ring l h xs \<Longrightarrow> list_scan l h P (lk_next l h) = Some (find P xs)"
  by (rule list_scan_chain) (auto simp: ring_def)

section \<open>Properties\<close>

text \<open>\<^bold>\<open>C22\<close> The pointer operations of the request lists implement sequence operations: adding before the
  head appends, deleting removes, walking from the head ends and finds the first match, and a list
  that shares no node is left as it was.\<close>

theorem request_lists_are_sequences:
  assumes "ring l h xs" and "ring l k ys" and "set (h # xs) \<inter> set (k # ys) = {}"
    and "a \<notin> set (h # xs)" and "a \<notin> set (k # ys)"
  shows "ring (list_add_req l a h) h (xs @ [a]) \<and> ring (list_add_req l a h) k ys \<and>
    (\<forall>b \<in> set xs. ring (list_del_req l b) h (remove1 b xs) \<and> ring (list_del_req l b) k ys) \<and>
    (\<forall>P. list_scan l h P (lk_next l h) = Some (find P xs)) \<and>
    ring (list_del_req (list_add_req l a h) a) h xs"
proof (intro conjI ballI allI)
  show "ring (list_add_req l a h) h (xs @ [a])" by (rule req_list.add_ring [OF assms(1,4)])
  show "ring (list_add_req l a h) k ys" by (rule req_list.add_frame [OF assms(1-3,5)])
  show "ring (list_del_req l b) h (remove1 b xs)" if "b \<in> set xs" for b by (rule req_list.del_ring [OF assms(1) that])
  show "ring (list_del_req l b) k ys" if "b \<in> set xs" for b by (rule req_list.del_frame [OF assms(1-3) that])
  show "list_scan l h P (lk_next l h) = Some (find P xs)" for P by (rule list_scan_ring [OF assms(1)])
  show "ring (list_del_req (list_add_req l a h) a) h xs" by (rule req_list.add_del [OF assms(1,4)])
qed

theorem request_lists_are_sequences_witness:
  defines "l \<equiv> list_add_req (list_init_req (list_init_req (list_init_req
    \<lparr>lk_next = \<lambda>_. 0, lk_prev = \<lambda>_. 0\<rparr> 0) 1) 5) 5 0"
  shows "ring (list_add_req l 7 0) 0 [5, 7] \<and> ring (list_add_req l 7 0) 1 [] \<and>
    ring (list_del_req l 5) 0 [] \<and> list_scan l 0 (\<lambda>c. c = 5) (lk_next l 0) = Some (Some 5)"
proof -
  have "ring l 0 [5]" "ring l 1 []"
    by (simp_all add: l_def ring_def list_add_req_def list_init_req_def Let_def)
  from request_lists_are_sequences [OF this, of 7] show ?thesis by auto
qed

end
