(* ===== verification/Fuse_World.thy ===== *)
theory Fuse_World
  imports Fuse_Common Fuse_Ring
begin

text \<open>
  The state of the low-level library (\<^verbatim>\<open>libs/libfuse/lib/fuse_i.h\<close>,
  \<^verbatim>\<open>libs/libfuse/lib/fuse_lowlevel.c\<close>): the session, the requests in flight with their intrusive
  lists, the driver's requests the library answers, and what was written to the device. The
  operations on it here are allocation and release of requests and the session's life cycle.

  Memory: an address maps to a request as long as it is allocated, so that a use after free is
  an access to an unmapped address. The field \<open>fault\<close> records the first undefined behaviour or
  failed assertion of a run (the rest of such a run has no meaning); the theorems show when it
  stays \<open>None\<close>. The platform (allocator, device writes, sizes of C library structures) is a record
  of parameters. The polymorphic component \<open>fsmem\<close> is the memory of the file system that
  implements the operations.
\<close>

section \<open>State\<close>

abbreviation SE_LIST :: addr where "SE_LIST \<equiv> 0"
abbreviation SE_INTERRUPTS :: addr where "SE_INTERRUPTS \<equiv> 1"
abbreviation SE_NOTIFY_LIST :: addr where "SE_NOTIFY_LIST \<equiv> 0"

text \<open>The union \<open>u\<close> of a request: \<open>u.i.unique\<close> and \<open>u.ni.func\<close> share the first eight bytes,
  \<open>u.ni.data\<close> has the next eight.\<close>

record fuse_req =
  rq_unique :: u64
  rq_ref_cnt :: int
  rq_ukfs_req :: "addr option"
  rq_ctx :: fuse_ctx
  rq_ch :: "addr option"
  rq_interrupted :: bool
  rq_ioctl_64bit :: bool
  rq_is_uring :: bool
  rq_is_copy_file_range_64 :: bool
  rq_u_lo :: u64
  rq_u_hi :: u64

definition zero_req :: fuse_req where
  "zero_req = \<lparr>rq_unique = 0, rq_ref_cnt = 0, rq_ukfs_req = None,
     rq_ctx = \<lparr>ctx_uid = 0, ctx_gid = 0, ctx_pid = 0, ctx_umask = 0\<rparr>, rq_ch = None,
     rq_interrupted = False, rq_ioctl_64bit = False, rq_is_uring = False,
     rq_is_copy_file_range_64 = False, rq_u_lo = 0, rq_u_hi = 0\<rparr>"

record fuse_notify_req =
  nr_unique :: u64
  nr_cookie :: u64

record fuse_session =
  se_mountpoint :: "byte list option"
  se_fd :: int
  se_io :: bool
  se_deny_others :: bool
  se_got_init :: bool
  se_cuse_data :: bool
  se_userdata :: u64
  se_owner :: u32
  se_conn :: fuse_conn_info
  se_got_destroy :: bool
  se_notify_ctr :: u64
  se_bufsize :: u64
  se_error :: int
  se_mt_exited :: bool
  se_mt_finish :: nat
  se_buf_reallocable :: bool
  se_uring_enable :: bool
  se_conn_want :: u32
  se_conn_want_ext :: u64

definition zero_session :: fuse_session where
  "zero_session = \<lparr>se_mountpoint = None, se_fd = 0, se_io = False, se_deny_others = False,
     se_got_init = False, se_cuse_data = False, se_userdata = 0, se_owner = 0,
     se_conn = zero_conn_info, se_got_destroy = False, se_notify_ctr = 0, se_bufsize = 0,
     se_error = 0, se_mt_exited = False, se_mt_finish = 0, se_buf_reallocable = False,
     se_uring_enable = False, se_conn_want = 0, se_conn_want_ext = 0\<rparr>"

datatype fault = OutOfBounds | AssertFail | UseAfterFree | TypeConfusion | UndefinedConversion
  | NonTermination

text \<open>A device write goes to the session's descriptor, or to the \<open>fd\<close> member of the channel that a
  request carries.\<close>

datatype dev_fd = SeFd int | ChFd addr

record platform =
  malloc_ok :: "nat \<Rightarrow> bool"
  uninit :: "nat \<Rightarrow> byte"
  writev_errno :: "nat \<Rightarrow> int option"
  pipe_read :: "nat \<Rightarrow> int \<Rightarrow> nat \<Rightarrow> int + byte list"
  sizeof_stat :: nat
  sizeof_entry_param :: nat

record 'u fuse_world =
  se :: fuse_session
  reqs :: "addr \<rightharpoonup> fuse_req"
  links :: ring_links
  nreqs :: "addr \<rightharpoonup> fuse_notify_req"
  nlinks :: ring_links
  ukfs :: "addr \<rightharpoonup> fuse_ukfs_request"
  brk :: nat
  nmalloc :: nat
  nwrites :: nat
  nreads :: nat
  dev_out :: "(dev_fd \<times> byte list) list"
  fault :: "fault option"
  plat :: platform
  fsmem :: 'u

section \<open>Access\<close>

definition raise_fault :: "fault \<Rightarrow> 'u fuse_world \<Rightarrow> 'u fuse_world" where
  "raise_fault f w = (if fault w = None then w\<lparr>fault := Some f\<rparr> else w)"

text \<open>Reading a field through a pointer: the continuation runs with the value.\<close>

definition deref :: "fault \<Rightarrow> 'a option \<Rightarrow> ('a \<Rightarrow> 'u fuse_world \<Rightarrow> 'u fuse_world) \<Rightarrow>
    'u fuse_world \<Rightarrow> 'u fuse_world" where
  "deref f x k w = (case x of None \<Rightarrow> raise_fault f w | Some v \<Rightarrow> k v w)"

abbreviation rd :: "'a option \<Rightarrow> ('a \<Rightarrow> 'u fuse_world \<Rightarrow> 'u fuse_world) \<Rightarrow>
    'u fuse_world \<Rightarrow> 'u fuse_world" where
  "rd \<equiv> deref OutOfBounds"

definition with_req :: "addr \<Rightarrow> (fuse_req \<Rightarrow> 'u fuse_world \<Rightarrow> 'u fuse_world) \<Rightarrow>
    'u fuse_world \<Rightarrow> 'u fuse_world" where
  "with_req a k w = deref UseAfterFree (reqs w a) k w"

definition req_mod :: "addr \<Rightarrow> (fuse_req \<Rightarrow> fuse_req) \<Rightarrow> 'u fuse_world \<Rightarrow> 'u fuse_world" where
  "req_mod a f = with_req a (\<lambda>r w. w\<lparr>reqs := (reqs w)(a \<mapsto> f r)\<rparr>)"

definition ukfs_mod :: "addr \<Rightarrow> (fuse_ukfs_request \<Rightarrow> fuse_ukfs_request) \<Rightarrow>
    'u fuse_world \<Rightarrow> 'u fuse_world" where
  "ukfs_mod p f w =
     deref UseAfterFree (ukfs w p) (\<lambda>r w. w\<lparr>ukfs := (ukfs w)(p \<mapsto> f r)\<rparr>) w"

definition uk_semaphore_up :: "fuse_ukfs_request \<Rightarrow> fuse_ukfs_request" where
  "uk_semaphore_up r = r\<lparr>ur_done := ur_done r + 1\<rparr>"

definition se_mod :: "(fuse_session \<Rightarrow> fuse_session) \<Rightarrow> 'u fuse_world \<Rightarrow> 'u fuse_world" where
  "se_mod f w = w\<lparr>se := f (se w)\<rparr>"

definition conn_mod :: "(fuse_conn_info \<Rightarrow> fuse_conn_info) \<Rightarrow> 'u fuse_world \<Rightarrow> 'u fuse_world" where
  "conn_mod f = se_mod (\<lambda>s. s\<lparr>se_conn := f (se_conn s)\<rparr>)"

abbreviation conn :: "'u fuse_world \<Rightarrow> fuse_conn_info" where
  "conn w \<equiv> se_conn (se w)"

text \<open>The \<open>n\<close>-th allocation succeeds or fails as the platform says.\<close>

definition try_malloc :: "'u fuse_world \<Rightarrow> bool \<times> 'u fuse_world" where
  "try_malloc w = (malloc_ok (plat w) (nmalloc w), w\<lparr>nmalloc := nmalloc w + 1\<rparr>)"

section \<open>Requests\<close>

text \<open>\<^verbatim>\<open>fuse_channel_stub.c\<close> and \<^verbatim>\<open>fuse_compat_stub.c\<close>: channels are not counted.\<close>

definition fuse_chan_put :: "addr option \<Rightarrow> 'u fuse_world \<Rightarrow> 'u fuse_world" where
  "fuse_chan_put ch w = w"

definition fuse_chan_get :: "addr \<Rightarrow> addr option" where
  "fuse_chan_get ch = Some ch"

definition destroy_req :: "addr \<Rightarrow> 'u fuse_world \<Rightarrow> 'u fuse_world" where
  "destroy_req req = with_req req (\<lambda>r w.
     if rq_is_uring r then w
     else if rq_ch r \<noteq> None then raise_fault AssertFail w
     else w\<lparr>reqs := (reqs w)(req := None)\<rparr>)"

definition fuse_free_req :: "addr \<Rightarrow> 'u fuse_world \<Rightarrow> 'u fuse_world" where
  "fuse_free_req req = with_req req (\<lambda>r w.
     if no_interrupt (conn w) \<or> rq_is_uring r then
       (let ctr = rq_ref_cnt r - 1;
            w = req_mod req (\<lambda>r. r\<lparr>rq_ref_cnt := ctr\<rparr>) w;
            w = fuse_chan_put (rq_ch r) w;
            w = req_mod req (\<lambda>r. r\<lparr>rq_ch := None\<rparr>) w
        in if ctr = 0 then destroy_req req w else w)
     else
       (let w = req_mod req (\<lambda>r. r\<lparr>rq_u_lo := 0\<rparr>) w;
            w = req_mod req (\<lambda>r. r\<lparr>rq_u_hi := 0\<rparr>) w;
            w = w\<lparr>links := list_del_req (links w) req\<rparr>;
            ctr = rq_ref_cnt r - 1;
            w = req_mod req (\<lambda>r. r\<lparr>rq_ref_cnt := ctr\<rparr>) w;
            w = fuse_chan_put (rq_ch r) w;
            w = req_mod req (\<lambda>r. r\<lparr>rq_ch := None\<rparr>) w
        in if ctr = 0 then destroy_req req w else w))"

definition fuse_ll_alloc_req :: "'u fuse_world \<Rightarrow> addr option \<times> 'u fuse_world" where
  "fuse_ll_alloc_req w =
     (let (ok, w) = try_malloc w
      in if \<not> ok then (None, w)
         else (let req = brk w;
                   w = w\<lparr>brk := brk w + 1, reqs := (reqs w)(req \<mapsto> zero_req\<lparr>rq_ref_cnt := 1\<rparr>)\<rparr>;
                   w = w\<lparr>links := list_init_req (links w) req\<rparr>
               in (Some req, w)))"

section \<open>Life cycle of the session\<close>

definition fuse_session_exit :: "'u fuse_world \<Rightarrow> 'u fuse_world" where
  "fuse_session_exit = se_mod (\<lambda>s. s\<lparr>se_mt_exited := True, se_mt_finish := se_mt_finish s + 1\<rparr>)"

definition fuse_session_reset :: "'u fuse_world \<Rightarrow> 'u fuse_world" where
  "fuse_session_reset = se_mod (\<lambda>s. s\<lparr>se_mt_exited := False, se_error := 0\<rparr>)"

definition fuse_session_exited :: "'u fuse_world \<Rightarrow> int" where
  "fuse_session_exited w = (if se_mt_exited (se w) then 1 else 0)"

text \<open>The session that \<^verbatim>\<open>fuse_session_new_versioned\<close> sets up for a non-empty operation table; the
  operation table is an argument of the functions that use it.\<close>

definition fuse_session_new_versioned ::
  "platform \<Rightarrow> 'u \<Rightarrow> bool \<Rightarrow> nat \<Rightarrow> u64 \<Rightarrow> 'u fuse_world option" where
  "fuse_session_new_versioned p fs op_given op_size userdata =
     (if \<not> op_given \<or> op_size = 0 then None
      else if \<not> malloc_ok p 0 then None
      else
        (let s = zero_session\<lparr>se_got_init := True,
                   se_conn := zero_conn_info\<lparr>proto_major := 7, proto_minor := 31,
                     max_read := 131072, max_write := 131072\<rparr>\<rparr>;
             l = \<lparr>lk_next = \<lambda>_. 0, lk_prev = \<lambda>_. 0\<rparr>;
             l1 = list_init_req (list_init_req l SE_LIST) SE_INTERRUPTS;
             nl = list_init_nreq l SE_NOTIFY_LIST;
             s = s\<lparr>se_notify_ctr := 1, se_userdata := userdata\<rparr>
         in Some \<lparr>se = s, reqs = Map.empty, links = l1, nreqs = Map.empty, nlinks = nl,
              ukfs = Map.empty, brk = 2, nmalloc = 1, nwrites = 0, nreads = 0, dev_out = [], fault = None,
              plat = p, fsmem = fs\<rparr>))"

definition fuse_session_unmount :: "'u fuse_world \<Rightarrow> 'u fuse_world" where
  "fuse_session_unmount w =
     (if se_mountpoint (se w) \<noteq> None
      then se_mod (\<lambda>s. s\<lparr>se_mountpoint := None, se_fd := - 1\<rparr>) w else w)"

section \<open>Invariant\<close>

text \<open>
  The lists of the session hold distinct allocated requests (\<open>ls\<close> those in flight, \<open>is\<close> the pending
  interrupts); every other allocated request is linked to itself; requests lie between the list
  heads and the allocation frontier; without interrupt support nothing is listed.
\<close>

definition wf_world :: "'u fuse_world \<Rightarrow> addr list \<Rightarrow> addr list \<Rightarrow> bool" where
  "wf_world w ls is \<longleftrightarrow>
     ring (links w) SE_LIST ls \<and> ring (links w) SE_INTERRUPTS is \<and>
     SE_LIST \<notin> set is \<and> SE_INTERRUPTS \<notin> set ls \<and> set ls \<inter> set is = {} \<and>
     set ls \<union> set is \<subseteq> dom (reqs w) \<and>
     (\<forall>a \<in> dom (reqs w). 2 \<le> a \<and> a < brk w) \<and>
     (\<forall>a \<in> dom (reqs w) - set ls - set is. ring (links w) a []) \<and>
     (no_interrupt (conn w) \<longrightarrow> ls = [] \<and> is = []) \<and> 2 \<le> brk w"

section \<open>Lemmas\<close>

lemma deref_simps [simp]:
  "deref f (Some v) k w = k v w"
  "deref f None k w = raise_fault f w"
  by (simp_all add: deref_def)

lemma with_req_Some [simp]: "reqs w a = Some r \<Longrightarrow> with_req a k w = k r w"
  by (simp add: with_req_def)

lemma with_req_None [simp]: "reqs w a = None \<Longrightarrow> with_req a k w = raise_fault UseAfterFree w"
  by (simp add: with_req_def)

lemma req_mod_Some [simp]:
  "reqs w a = Some r \<Longrightarrow> req_mod a f w = w\<lparr>reqs := (reqs w)(a \<mapsto> f r)\<rparr>"
  by (simp add: req_mod_def)

lemma ukfs_mod_Some [simp]:
  "ukfs w p = Some r \<Longrightarrow> ukfs_mod p f w = w\<lparr>ukfs := (ukfs w)(p \<mapsto> f r)\<rparr>"
  by (simp add: ukfs_mod_def)

lemma fault_raise_fault [simp]: "fault (raise_fault f w) \<noteq> None"
  by (simp add: raise_fault_def)

text \<open>Dropping the last reference of a request.\<close>

lemma fuse_free_req_last [reply_simps]:
  assumes "reqs w a = Some r" and "rq_ref_cnt r = 1" and "\<not> rq_is_uring r"
  shows "fuse_free_req a w = w\<lparr>reqs := (reqs w)(a := None),
    links := if no_interrupt (conn w) then links w else list_del_req (links w) a\<rparr>"
  using assms by (simp add: fuse_free_req_def fuse_chan_put_def destroy_req_def Let_def)

text \<open>Dropping a reference that is not the last one keeps the request.\<close>

lemma fuse_free_req_shared:
  assumes "reqs w a = Some r" and "rq_ref_cnt r \<noteq> 1" and "\<not> rq_is_uring r"
  shows "reqs (fuse_free_req a w) a \<noteq> None" and "fault (fuse_free_req a w) = fault w"
  using assms by (simp_all add: fuse_free_req_def fuse_chan_put_def Let_def)

lemma fuse_free_req_freed:
  "reqs w a = None \<Longrightarrow> fuse_free_req a w = raise_fault UseAfterFree w"
  by (simp add: fuse_free_req_def)

lemma wf_world_cong:
  assumes "links w' = links w" and "dom (reqs w') = dom (reqs w)" and "brk w' = brk w"
    and "no_interrupt (conn w') = no_interrupt (conn w)"
  shows "wf_world w' ls is = wf_world w ls is"
  using assms by (simp add: wf_world_def)

lemma wf_world_listed:
  assumes "wf_world w ls is"
  shows "a \<in> set ls \<Longrightarrow> a \<in> dom (reqs w)" and "a \<in> set is \<Longrightarrow> a \<in> dom (reqs w)"
  using assms by (auto simp: wf_world_def)

lemma wf_world_heads:
  assumes "wf_world w ls is" and "a \<in> dom (reqs w)"
  shows "a \<noteq> SE_LIST" and "a \<noteq> SE_INTERRUPTS" and "a \<noteq> brk w"
proof -
  have "2 \<le> a \<and> a < brk w" using assms by (auto simp: wf_world_def)
  then show "a \<noteq> SE_LIST" "a \<noteq> SE_INTERRUPTS" "a \<noteq> brk w" by auto
qed

lemma wf_world_fresh: "wf_world w ls is \<Longrightarrow> reqs w (brk w) = None"
  by (auto simp: wf_world_def)

lemma ring_single_frame:
  assumes "ring l h xs" and "ring l b []" and "b \<notin> set (h # xs)" and "a \<in> set xs"
  shows "ring (list_del_req l a) b []"
  using req_list.del_frame [of l h xs b "[]" a] assms by auto

lemma wf_free:
  assumes wf: "wf_world w ls is" and a: "a \<in> dom (reqs w)" "a \<notin> set is"
  shows "wf_world (w\<lparr>reqs := (reqs w)(a := None),
    links := if no_interrupt (conn w) then links w else list_del_req (links w) a\<rparr>) (remove1 a ls) is"
proof -
  let ?l = "links w" let ?d = "list_del_req ?l a"
  have W: "ring ?l SE_LIST ls" "ring ?l SE_INTERRUPTS is" "SE_LIST \<notin> set is" "SE_INTERRUPTS \<notin> set ls"
    "set ls \<inter> set is = {}" "set ls \<union> set is \<subseteq> dom (reqs w)"
    "\<And>b. b \<in> dom (reqs w) - set ls - set is \<Longrightarrow> ring ?l b []"
    "no_interrupt (conn w) \<longrightarrow> ls = [] \<and> is = []"
    using wf by (simp_all add: wf_world_def)
  have rm: "set (remove1 a ls) = set ls - {a}"
    using ring_distinct [OF W(1)] by (simp add: set_remove1_eq)
  have *: "ring ?d SE_LIST (remove1 a ls) \<and> ring ?d SE_INTERRUPTS is \<and>
      (\<forall>b \<in> dom (reqs w) - set ls - set is. b \<noteq> a \<longrightarrow> ring ?d b [])"
  proof (cases "a \<in> set ls")
    case True
    then show ?thesis
      using req_list.del_ring [OF W(1) True] req_list.del_frame [OF W(1) W(2) _ True] W
        ring_single_frame [OF W(1) W(7) _ True] wf_world_heads [OF wf]
      by auto
  next
    case False
    then have "?d = ?l" using req_list.del_alone W(7) a by auto
    then show ?thesis using W False by (simp add: remove1_idem)
  qed
  have "no_interrupt (conn w) \<Longrightarrow> wf_world (w\<lparr>reqs := (reqs w)(a := None)\<rparr>) ls is"
    using wf W(8) by (auto simp: wf_world_def)
  moreover have "wf_world (w\<lparr>reqs := (reqs w)(a := None), links := ?d\<rparr>) (remove1 a ls) is"
    if "\<not> no_interrupt (conn w)"
    using * W(3-6) rm a that wf by (auto simp: wf_world_def)
  ultimately show ?thesis using W(8) by auto
qed

lemma wf_alloc:
  assumes wf: "wf_world w ls is"
  shows "wf_world (w\<lparr>brk := brk w + 1, reqs := (reqs w)(brk w \<mapsto> r),
    links := list_init_req (links w) (brk w)\<rparr>) ls is"
proof -
  let ?b = "brk w" let ?l = "list_init_req (links w) ?b"
  have b: "2 \<le> ?b" "?b \<notin> set ls" "?b \<notin> set is" "?b \<notin> dom (reqs w)"
    using wf wf_world_fresh [OF wf] by (auto simp: wf_world_def)
  have "ring ?l SE_LIST ls" "ring ?l SE_INTERRUPTS is" "ring ?l ?b []"
    using wf b req_list.init_frame [of "links w" _ _ ?b] req_list.init_ring
    by (simp_all add: wf_world_def)
  moreover have "ring ?l c []" if "c \<in> dom (reqs w) - set ls - set is" for c
    using that wf b req_list.init_frame [of "links w" c "[]" ?b]
    by (auto simp: wf_world_def)
  ultimately show ?thesis using wf b by (auto simp: wf_world_def less_Suc_eq)
qed

text \<open>A request that is on no list can be appended to either list.\<close>

lemma wf_list:
  assumes wf: "wf_world w ls is" and a: "a \<in> dom (reqs w)" "a \<notin> set ls" "a \<notin> set is"
    and n: "\<not> no_interrupt (conn w)"
  shows "wf_world (w\<lparr>links := list_add_req (links w) a SE_LIST\<rparr>) (ls @ [a]) is"
    and "wf_world (w\<lparr>links := list_add_req (links w) a SE_INTERRUPTS\<rparr>) ls (is @ [a])"
proof -
  have h: "a \<noteq> 0" "a \<noteq> 1" using wf_world_heads [OF wf a(1)] by simp_all
  have W: "ring (links w) SE_LIST ls" "ring (links w) SE_INTERRUPTS is"
    using wf by (simp_all add: wf_world_def)
  have other: "ring (list_add_req (links w) a k) c []"
    if "c \<in> dom (reqs w) - set ls - set is" "c \<noteq> a" "k \<in> {SE_LIST, SE_INTERRUPTS}" for c k
    using that wf wf_world_heads [OF wf, of c]
      req_list.add_frame [OF W(1), of c "[]" a] req_list.add_frame [OF W(2), of c "[]" a]
    by (auto simp: wf_world_def)
  have "ring (list_add_req (links w) a SE_LIST) SE_LIST (ls @ [a])"
    "ring (list_add_req (links w) a SE_INTERRUPTS) SE_INTERRUPTS (is @ [a])"
    using req_list.add_ring [OF W(1)] req_list.add_ring [OF W(2)] a h by auto
  moreover have "ring (list_add_req (links w) a SE_LIST) SE_INTERRUPTS is"
    "ring (list_add_req (links w) a SE_INTERRUPTS) SE_LIST ls"
    using req_list.add_frame [OF W] req_list.add_frame [OF W(2) W(1)] wf a h
    by (auto simp: wf_world_def)
  ultimately show "wf_world (w\<lparr>links := list_add_req (links w) a SE_LIST\<rparr>) (ls @ [a]) is"
    "wf_world (w\<lparr>links := list_add_req (links w) a SE_INTERRUPTS\<rparr>) ls (is @ [a])"
    using wf a n h other by (auto simp: wf_world_def)
qed

text \<open>Taking the request \<open>a\<close> out of the pending interrupts.\<close>

lemma wf_unlist_interrupt:
  assumes wf: "wf_world w ls is" and a: "a \<in> set is"
  shows "wf_world (w\<lparr>links := list_init_req (list_del_req (links w) a) a\<rparr>) ls (remove1 a is)"
    and "wf_world (w\<lparr>reqs := (reqs w)(a := None), links := list_del_req (links w) a\<rparr>) ls (remove1 a is)"
proof -
  let ?d = "list_del_req (links w) a"
  have W: "ring (links w) SE_LIST ls" "ring (links w) SE_INTERRUPTS is" "a \<notin> set ls" "a \<in> dom (reqs w)"
    using wf a by (auto simp: wf_world_def)
  have h: "a \<noteq> 0" "a \<noteq> 1" using wf_world_heads [OF wf W(4)] by simp_all
  have rm: "set (remove1 a is) = set is - {a}"
    using ring_distinct [OF W(2)] by (simp add: set_remove1_eq)
  have D: "ring ?d SE_INTERRUPTS (remove1 a is)" "ring ?d SE_LIST ls"
    using req_list.del_ring [OF W(2) a] req_list.del_frame [OF W(2) W(1) _ a] wf
    by (auto simp: wf_world_def)
  have other: "ring ?d c []" if "c \<in> dom (reqs w) - set ls - set is" for c
    using that wf wf_world_heads [OF wf, of c] ring_single_frame [OF W(2) _ _ a, of c]
    by (auto simp: wf_world_def)
  show "wf_world (w\<lparr>reqs := (reqs w)(a := None), links := ?d\<rparr>) ls (remove1 a is)"
    using D other rm wf W by (auto simp: wf_world_def)
  have "ring (list_init_req ?d a) SE_INTERRUPTS (remove1 a is)" "ring (list_init_req ?d a) SE_LIST ls"
    "ring (list_init_req ?d a) a []"
    using req_list.init_frame [OF D(1), of a] req_list.init_frame [OF D(2), of a]
      req_list.init_ring h rm W(3) by auto
  moreover have "ring (list_init_req ?d a) c []" if "c \<in> dom (reqs w) - set ls - set is" for c
    using that req_list.init_frame [OF other, of c a] a by auto
  ultimately show "wf_world (w\<lparr>links := list_init_req ?d a\<rparr>) ls (remove1 a is)"
    using rm wf W by (auto simp: wf_world_def)
qed

lemma wf_session_new:
  "fuse_session_new_versioned p fs og sz ud = Some w \<Longrightarrow> wf_world w [] []"
  by (auto simp: fuse_session_new_versioned_def Let_def wf_world_def ring_def list_init_req_def
      split: if_splits)

section \<open>A concrete session\<close>

text \<open>Memory never runs out, the device takes every message.\<close>

definition demo_platform :: platform where
  "demo_platform = \<lparr>malloc_ok = \<lambda>_. True, uninit = \<lambda>_. 0, writev_errno = \<lambda>_. None,
     pipe_read = \<lambda>_ _ _. Inl 5, sizeof_stat = 144, sizeof_entry_param = 176\<rparr>"

definition demo_world :: "unit fuse_world" where
  "demo_world = the (fuse_session_new_versioned demo_platform () True 1 0)"

lemma demo_world_new: "fuse_session_new_versioned demo_platform () True 1 0 = Some demo_world"
  by (simp add: demo_world_def fuse_session_new_versioned_def demo_platform_def Let_def)

lemma demo_world_simps:
  "plat demo_world = demo_platform" "brk demo_world = 2" "reqs demo_world = Map.empty"
  "ukfs demo_world = Map.empty" "fault demo_world = None" "nmalloc demo_world = 1"
  "dev_out demo_world = []" "fsmem demo_world = ()"
  by (simp_all add: demo_world_def fuse_session_new_versioned_def demo_platform_def Let_def)

section \<open>Properties\<close>

text \<open>\<^bold>\<open>C23\<close> Freeing the last reference of a request removes it and takes it off its list, keeping the
  session's lists well formed; freeing it once more is a use after free; a request with more
  references stays.\<close>

theorem free_request_once:
  assumes "wf_world w ls is" and "reqs w a = Some r" and "a \<notin> set is" and "\<not> rq_is_uring r" and "fault w = None"
  shows "(rq_ref_cnt r = 1 \<longrightarrow> reqs (fuse_free_req a w) = (reqs w)(a := None) \<and>
      wf_world (fuse_free_req a w) (remove1 a ls) is \<and> fault (fuse_free_req a w) = None \<and>
      fault (fuse_free_req a (fuse_free_req a w)) = Some UseAfterFree) \<and>
    (rq_ref_cnt r \<noteq> 1 \<longrightarrow> reqs (fuse_free_req a w) a \<noteq> None \<and> fault (fuse_free_req a w) = None)"
proof -
  have "fault (fuse_free_req a w') = Some UseAfterFree" if "reqs w' a = None" "fault w' = None" for w' :: "'a fuse_world"
    using that by (simp add: fuse_free_req_freed raise_fault_def)
  moreover have "a \<in> dom (reqs w)" using assms(2) by blast
  ultimately show ?thesis
    using wf_free [OF assms(1) _ assms(3)] fuse_free_req_last [OF assms(2) _ assms(4)]
      fuse_free_req_shared [OF assms(2) _ assms(4)] assms(2,5) by auto
qed

theorem free_request_once_witness:
  defines "w \<equiv> snd (fuse_ll_alloc_req demo_world)"
  shows "reqs (fuse_free_req 2 w) 2 = None \<and> fault (fuse_free_req 2 (fuse_free_req 2 w)) = Some UseAfterFree"
proof -
  have d: "wf_world demo_world [] []" by (rule wf_session_new [OF demo_world_new])
  have al: "w = demo_world\<lparr>nmalloc := 2, brk := 3, reqs := [2 \<mapsto> zero_req\<lparr>rq_ref_cnt := 1\<rparr>],
      links := list_init_req (links demo_world) 2\<rparr>"
    by (simp add: w_def fuse_ll_alloc_req_def Let_def demo_world_simps demo_platform_def try_malloc_def)
  have "wf_world (demo_world\<lparr>brk := 3, reqs := [2 \<mapsto> zero_req\<lparr>rq_ref_cnt := 1\<rparr>],
      links := list_init_req (links demo_world) 2\<rparr>) [] []"
    using wf_alloc [OF d, of "zero_req\<lparr>rq_ref_cnt := 1\<rparr>"] by (simp add: demo_world_simps)
  then have "wf_world w [] []" unfolding al by (subst wf_world_cong) auto
  from free_request_once [OF this, of 2 "zero_req\<lparr>rq_ref_cnt := 1\<rparr>"] show ?thesis
    by (simp add: al zero_req_def demo_world_simps)
qed

end
