(* ===== verification/Fuse_Convert.thy ===== *)
theory Fuse_Convert
  imports Fuse_Common "HOL-Library.Monad_Syntax"
begin

text \<open>
  The conversions of \<^verbatim>\<open>libs/libfuse/lib/fuse_lowlevel.c\<close> between C library structures and the
  wire protocol: attributes, file system statistics, time-outs, open flags, file locks and
  directory entries. A \<^verbatim>\<open>double\<close> is its IEEE 754 bit pattern, so that the two time-out functions
  are computed exactly, the rounding of the product included.
\<close>

section \<open>Attributes\<close>

definition convert_stat :: "stat \<Rightarrow> fuse_attr \<Rightarrow> fuse_attr" where
  "convert_stat stbuf attr = attr\<lparr>
     at_ino := st_ino stbuf,
     at_mode := st_mode stbuf,
     at_nlink := ucast (st_nlink stbuf),
     at_uid := st_uid stbuf,
     at_gid := st_gid stbuf,
     at_rdev := ucast (st_rdev stbuf),
     at_size := st_size stbuf,
     at_blksize := ucast (st_blksize stbuf),
     at_blocks := st_blocks stbuf,
     at_atime := st_atime stbuf,
     at_mtime := st_mtime stbuf,
     at_ctime := st_ctime stbuf,
     at_atimensec := ucast (st_atimensec stbuf),
     at_mtimensec := ucast (st_mtimensec stbuf),
     at_ctimensec := ucast (st_ctimensec stbuf)\<rparr>"

definition convert_attr :: "byte list \<Rightarrow> stat \<Rightarrow> stat option" where
  "convert_attr attr stbuf = do {
     mode \<leftarrow> fuse_setattr_in_mode attr;
     uid \<leftarrow> fuse_setattr_in_uid attr;
     gid \<leftarrow> fuse_setattr_in_gid attr;
     size \<leftarrow> fuse_setattr_in_size attr;
     atime \<leftarrow> fuse_setattr_in_atime attr;
     mtime \<leftarrow> fuse_setattr_in_mtime attr;
     ctime \<leftarrow> fuse_setattr_in_ctime attr;
     atimensec \<leftarrow> fuse_setattr_in_atimensec attr;
     mtimensec \<leftarrow> fuse_setattr_in_mtimensec attr;
     ctimensec \<leftarrow> fuse_setattr_in_ctimensec attr;
     Some (stbuf\<lparr>st_mode := mode, st_uid := uid, st_gid := gid, st_size := size,
       st_atime := atime, st_mtime := mtime, st_ctime := ctime,
       st_atimensec := ucast atimensec, st_mtimensec := ucast mtimensec,
       st_ctimensec := ucast ctimensec\<rparr>)
   }"

definition convert_statfs :: "statvfs \<Rightarrow> fuse_kstatfs \<Rightarrow> fuse_kstatfs" where
  "convert_statfs stbuf ks = ks\<lparr>
     ks_bsize := ucast (f_bsize stbuf),
     ks_frsize := ucast (f_frsize stbuf),
     ks_blocks := f_blocks stbuf,
     ks_bfree := f_bfree stbuf,
     ks_bavail := f_bavail stbuf,
     ks_files := f_files stbuf,
     ks_ffree := f_ffree stbuf,
     ks_namelen := ucast (f_namemax stbuf)\<rparr>"

definition zero_attr :: fuse_attr where
  "zero_attr = \<lparr>at_ino = 0, at_size = 0, at_blocks = 0, at_atime = 0, at_mtime = 0, at_ctime = 0,
     at_atimensec = 0, at_mtimensec = 0, at_ctimensec = 0, at_mode = 0, at_nlink = 0, at_uid = 0,
     at_gid = 0, at_rdev = 0, at_blksize = 0, at_flags = 0\<rparr>"

definition zero_entry_out :: fuse_entry_out where
  "zero_entry_out = \<lparr>eo_nodeid = 0, eo_generation = 0, eo_entry_valid = 0, eo_attr_valid = 0,
     eo_entry_valid_nsec = 0, eo_attr_valid_nsec = 0, eo_attr = zero_attr\<rparr>"

definition zero_open_out :: fuse_open_out where
  "zero_open_out = \<lparr>oo_fh = 0, oo_open_flags = 0, oo_backing_id = 0\<rparr>"

definition zero_kstatfs :: fuse_kstatfs where
  "zero_kstatfs = \<lparr>ks_blocks = 0, ks_bfree = 0, ks_bavail = 0, ks_files = 0, ks_ffree = 0,
     ks_bsize = 0, ks_namelen = 0, ks_frsize = 0\<rparr>"

definition zero_file_lock :: fuse_file_lock where
  "zero_file_lock = \<lparr>fl_start = 0, fl_end = 0, fl_type = 0, fl_pid = 0\<rparr>"

section \<open>Time-outs\<close>

text \<open>A double is \<open>(-1)^s * m * 2^e\<close> (\<open>Finite\<close>, with \<open>e\<close> stored as \<open>e + 1074\<close>, a natural number),
  an infinity or not a number.\<close>

datatype double = Finite bool nat nat | Inf bool | NaN

definition double_of_bits :: "double_bits \<Rightarrow> double" where
  "double_of_bits w =
     (let s = bit w 63; ex = unat (drop_bit 52 w AND 0x7FF); mn = unat (w AND 0xFFFFFFFFFFFFF)
      in if ex = 0x7FF then (if mn = 0 then Inf s else NaN)
         else if ex = 0 then Finite s mn 0
         else Finite s (mn + 2 ^ 52) (ex - 1))"

text \<open>Conversion of a double in range to an integer drops the fraction; out of range and for
  \<open>NaN\<close> it is undefined, \<open>None\<close>. The comparison \<^verbatim>\<open>t > (double) ULONG_MAX\<close> is with \<open>2^64\<close>.\<close>

definition dbl_one :: nat where
  "dbl_one = 2 ^ 1074"

definition calc_timeout_sec :: "double_bits \<Rightarrow> u64 option" where
  "calc_timeout_sec t =
     (case double_of_bits t of
        NaN \<Rightarrow> None
      | Inf s \<Rightarrow> Some (if s then 0 else - 1)
      | Finite s m e \<Rightarrow>
          if \<not> s \<and> m * 2 ^ e > 2 ^ 64 * dbl_one then Some (- 1)
          else if s \<and> m > 0 then Some 0
          else if m * 2 ^ e < 2 ^ 64 * dbl_one then Some (of_nat (m * 2 ^ e div dbl_one))
          else None)"

text \<open>The natural number \<open>n\<close> rounded to a 53-bit significand, ties to even.\<close>

fun num_bits :: "nat \<Rightarrow> nat" where
  "num_bits n = (if n = 0 then 0 else Suc (num_bits (n div 2)))"

declare num_bits.simps [simp del]

definition round_even :: "nat \<Rightarrow> nat" where
  "round_even n =
     (if num_bits n \<le> 53 then n
      else (let s = num_bits n - 53; q = n div 2 ^ s; r = n mod 2 ^ s;
                up = (2 * r > 2 ^ s \<or> (2 * r = 2 ^ s \<and> odd q))
            in (if up then q + 1 else q) * 2 ^ s))"

text \<open>The double nearest to 0.999999999, in units of \<open>2^-53\<close>.\<close>

abbreviation NSEC_LIMIT :: nat where "NSEC_LIMIT \<equiv> 9007199245733793"

definition calc_timeout_nsec :: "double_bits \<Rightarrow> u32 option" where
  "calc_timeout_nsec t =
     (case double_of_bits t of
        NaN \<Rightarrow> None
      | Inf s \<Rightarrow> Some (if s then 0 else 999999999)
      | Finite s m e \<Rightarrow>
          if \<not> s \<and> m * 2 ^ e > 2 ^ 64 * dbl_one then Some 999999999
          else if s \<and> m > 0 then Some 0
          else if m * 2 ^ e < 2 ^ 64 * dbl_one then
            (let f = (m * 2 ^ e) mod dbl_one
             in if f * 2 ^ 53 \<ge> NSEC_LIMIT * dbl_one then Some 999999999
                else Some (of_nat (round_even (f * 10 ^ 9) div dbl_one)))
          else None)"

section \<open>Entry and open replies\<close>

definition fill_entry :: "fuse_entry_out \<Rightarrow> fuse_entry_param \<Rightarrow> fuse_entry_out option" where
  "fill_entry arg e = do {
     ev \<leftarrow> calc_timeout_sec (ep_entry_timeout e);
     evn \<leftarrow> calc_timeout_nsec (ep_entry_timeout e);
     av \<leftarrow> calc_timeout_sec (ep_attr_timeout e);
     avn \<leftarrow> calc_timeout_nsec (ep_attr_timeout e);
     Some (arg\<lparr>eo_nodeid := ep_ino e, eo_generation := ep_generation e, eo_entry_valid := ev,
       eo_entry_valid_nsec := evn, eo_attr_valid := av, eo_attr_valid_nsec := avn,
       eo_attr := convert_stat (ep_attr e) (eo_attr arg)\<rparr>)
   }"

definition or_flag :: "bool \<Rightarrow> u32 \<Rightarrow> fuse_open_out \<Rightarrow> fuse_open_out" where
  "or_flag b f arg = (if b then arg\<lparr>oo_open_flags := oo_open_flags arg OR f\<rparr> else arg)"

definition fill_open :: "fuse_open_out \<Rightarrow> fuse_file_info \<Rightarrow> fuse_open_out" where
  "fill_open arg f =
     (let arg = arg\<lparr>oo_fh := fi_fh f\<rparr>;
          arg = (if 0 <s fi_backing_id f
                 then or_flag True FOPEN_PASSTHROUGH (arg\<lparr>oo_backing_id := fi_backing_id f\<rparr>)
                 else arg);
          arg = or_flag (fi_direct_io f) FOPEN_DIRECT_IO arg;
          arg = or_flag (fi_keep_cache f) FOPEN_KEEP_CACHE arg;
          arg = or_flag (fi_cache_readdir f) FOPEN_CACHE_DIR arg;
          arg = or_flag (fi_nonseekable f) FOPEN_NONSEEKABLE arg;
          arg = or_flag (fi_noflush f) FOPEN_NOFLUSH arg
      in or_flag (fi_parallel_direct_writes f) FOPEN_PARALLEL_DIRECT_WRITES arg)"

section \<open>File locks\<close>

abbreviation OFFSET_MAX :: u64 where "OFFSET_MAX \<equiv> 0x7FFFFFFFFFFFFFFF"
abbreviation F_RDLCK :: u16 where "F_RDLCK \<equiv> 0"
abbreviation F_WRLCK :: u16 where "F_WRLCK \<equiv> 1"
abbreviation F_UNLCK :: u16 where "F_UNLCK \<equiv> 2"
abbreviation SEEK_SET :: u16 where "SEEK_SET \<equiv> 0"

definition convert_fuse_file_lock :: "fuse_file_lock \<Rightarrow> flock" where
  "convert_fuse_file_lock fl =
     \<lparr>l_type = ucast (fl_type fl), l_whence = SEEK_SET, l_start = fl_start fl,
      l_len = (if fl_end fl = OFFSET_MAX then 0 else fl_end fl - fl_start fl + 1)\<rparr>"

text \<open>The lock a \<^verbatim>\<open>fuse_reply_lock\<close> sends.\<close>

definition reply_file_lock :: "flock \<Rightarrow> fuse_file_lock" where
  "reply_file_lock lock =
     (let arg = zero_file_lock\<lparr>fl_type := scast (l_type lock)\<rparr>
      in if l_type lock \<noteq> F_UNLCK then
           arg\<lparr>fl_start := l_start lock,
               fl_end := (if l_len lock = 0 then OFFSET_MAX else l_start lock + l_len lock - 1)\<rparr>
         else arg)"

section \<open>Directory entries\<close>

text \<open>The buffer is the block the pointer points into (\<open>None\<close> a null pointer), the name the block
  its pointer points into. The result is the padded length and the buffer afterwards, \<open>None\<close> when an
  access leaves its block.\<close>

abbreviation S_IFMT :: u32 where "S_IFMT \<equiv> 0xF000"

definition fuse_add_direntry ::
  "byte list option \<Rightarrow> u64 \<Rightarrow> byte list \<Rightarrow> stat option \<Rightarrow> u64 \<Rightarrow> (u64 \<times> byte list option) option"
  where
  "fuse_add_direntry buf bufsize name stbuf off = do {
     str \<leftarrow> c_string name;
     let namelen = of_nat (length str);
     let entlen = of_nat FUSE_NAME_OFFSET + namelen;
     let entlen_padded = FUSE_REC_ALIGN entlen;
     (case buf of
        None \<Rightarrow> Some (entlen_padded, None)
      | Some b \<Rightarrow>
          if entlen_padded > bufsize then Some (entlen_padded, buf)
          else do {
            st \<leftarrow> stbuf;
            b \<leftarrow> mem_write b 0 (enc_fuse_dirent (st_ino st) off (ucast namelen)
                   (drop_bit 12 (st_mode st AND S_IFMT)));
            b \<leftarrow> mem_write b FUSE_NAME_OFFSET str;
            b \<leftarrow> mem_write b (FUSE_NAME_OFFSET + length str)
                   (replicate (unat (entlen_padded - entlen)) 0);
            Some (entlen_padded, Some b)
          })
   }"

definition fuse_add_direntry_plus ::
  "byte list option \<Rightarrow> u64 \<Rightarrow> byte list \<Rightarrow> fuse_entry_param option \<Rightarrow> u64 \<Rightarrow>
    (u64 \<times> byte list option) option"
  where
  "fuse_add_direntry_plus buf bufsize name e off = do {
     str \<leftarrow> c_string name;
     let namelen = of_nat (length str);
     let entlen = of_nat FUSE_NAME_OFFSET_DIRENTPLUS + namelen;
     let entlen_padded = FUSE_REC_ALIGN entlen;
     (case buf of
        None \<Rightarrow> Some (entlen_padded, None)
      | Some b \<Rightarrow>
          if entlen_padded > bufsize then Some (entlen_padded, buf)
          else do {
            e \<leftarrow> e;
            eo \<leftarrow> fill_entry zero_entry_out e;
            b \<leftarrow> mem_write b 0 (enc_fuse_entry_out eo);
            b \<leftarrow> mem_write b 128 (enc_fuse_dirent (st_ino (ep_attr e)) off (ucast namelen)
                   (drop_bit 12 (st_mode (ep_attr e) AND S_IFMT)));
            b \<leftarrow> mem_write b FUSE_NAME_OFFSET_DIRENTPLUS str;
            b \<leftarrow> mem_write b (FUSE_NAME_OFFSET_DIRENTPLUS + length str)
                   (replicate (unat (entlen_padded - entlen)) 0);
            Some (entlen_padded, Some b)
          })
   }"

section \<open>Lemmas\<close>

subsection \<open>Time-outs\<close>

lemma num_bits_bounds: "0 < n \<Longrightarrow> 2 ^ (num_bits n - 1) \<le> n \<and> n < 2 ^ num_bits n"
proof (induction n rule: num_bits.induct)
  case (1 n)
  show ?case
  proof (cases "n = 1")
    case True
    then show ?thesis by (simp add: num_bits.simps)
  next
    case False
    then have d: "0 < n div 2" using 1(2) by linarith
    then have IH: "2 ^ (num_bits (n div 2) - 1) \<le> n div 2" "n div 2 < 2 ^ num_bits (n div 2)"
      using 1 by auto
    have p: "0 < num_bits (n div 2)" using d by (simp add: num_bits.simps [of "n div 2"])
    have "num_bits n = Suc (num_bits (n div 2))" using 1(2) by (simp add: num_bits.simps [of n])
    moreover have "(2::nat) ^ num_bits (n div 2) = 2 * 2 ^ (num_bits (n div 2) - 1)"
      using p by (metis power_Suc Suc_pred')
    ultimately show ?thesis using IH by simp linarith
  qed
qed

text \<open>Rounding adds at most a relative error of \<open>2^-52\<close>.\<close>

lemma round_even_le: "2 ^ 52 * round_even n \<le> (2 ^ 52 + 1) * n"
proof (cases "num_bits n \<le> 53")
  case True
  then show ?thesis by (simp add: round_even_def)
next
  case False
  define s where "s = num_bits n - 53"
  have "0 < n" using False by (cases "n = 0") (auto simp: num_bits.simps)
  then have "2 ^ (num_bits n - 1) \<le> n" using num_bits_bounds by blast
  moreover have "num_bits n - 1 = 52 + s" using False by (simp add: s_def)
  ultimately have big: "2 ^ 52 * 2 ^ s \<le> n" by (simp add: power_add)
  have "round_even n \<le> (n div 2 ^ s + 1) * 2 ^ s"
    using False by (auto simp: round_even_def Let_def s_def)
  also have "\<dots> \<le> n + 2 ^ s" by (simp add: algebra_simps)
  finally have "2 ^ 52 * round_even n \<le> 2 ^ 52 * (n + 2 ^ s)" by (rule mult_left_mono) simp
  also have "\<dots> \<le> (2 ^ 52 + 1) * n" using big by (simp add: algebra_simps)
  finally show ?thesis .
qed

lemma nsec_product_bound:
  assumes "f * 2 ^ 53 < NSEC_LIMIT * (u::nat)" and "0 < u"
  shows "round_even (f * 10 ^ 9) div u \<le> 999999999"
proof -
  have "2 ^ 53 * (2 ^ 52 * round_even (f * 10 ^ 9)) \<le> 2 ^ 53 * ((2 ^ 52 + 1) * (f * 10 ^ 9))"
    by (rule mult_left_mono [OF round_even_le]) simp
  also have "\<dots> = (2 ^ 52 + 1) * 10 ^ 9 * (f * 2 ^ 53)" by (simp only: ac_simps)
  also have "\<dots> \<le> (2 ^ 52 + 1) * 10 ^ 9 * (NSEC_LIMIT * u)"
    using assms(1) by (intro mult_left_mono) auto
  also have "\<dots> < 2 ^ 105 * (10 ^ 9 * u)"
    using assms(2) by simp
  finally have "round_even (f * 10 ^ 9) < 10 ^ 9 * u" by simp
  then have "round_even (f * 10 ^ 9) div u < 10 ^ 9"
    using assms(2) by (simp add: less_mult_imp_div_less)
  then show ?thesis by simp
qed

lemma calc_timeout_nsec_range:
  assumes "calc_timeout_nsec t = Some n"
  shows "unat n \<le> 999999999"
proof -
  have round: "unat (of_nat (round_even (f * 10 ^ 9) div dbl_one) :: u32) \<le> 999999999"
    if "\<not> f * 2 ^ 53 \<ge> NSEC_LIMIT * dbl_one" for f :: nat
  proof -
    have "round_even (f * 10 ^ 9) div dbl_one \<le> 999999999"
      using that by (intro nsec_product_bound) (auto simp: dbl_one_def)
    then show ?thesis by (simp add: unat_of_nat take_bit_nat_eq_self)
  qed
  show ?thesis
  proof (cases "double_of_bits t")
    case (Finite s m e)
    then show ?thesis
      using assms round [of "m * 2 ^ e mod dbl_one"]
      by (auto simp: calc_timeout_nsec_def Let_def split: if_splits)
  qed (use assms in \<open>auto simp: calc_timeout_nsec_def split: if_splits\<close>)
qed

subsection \<open>Locks\<close>

lemma lock_roundtrip:
  assumes "l_whence l = SEEK_SET" and "l_type l \<noteq> F_UNLCK"
    and "l_len l \<noteq> 0 \<longrightarrow> l_start l + l_len l - 1 \<noteq> OFFSET_MAX"
  shows "convert_fuse_file_lock (reply_file_lock l) = l"
proof -
  have "ucast (scast (l_type l) :: u32) = l_type l"
    by (rule bit_word_eqI) (simp add: bit_simps)
  then show ?thesis
    using assms by (simp add: convert_fuse_file_lock_def reply_file_lock_def Let_def
        zero_file_lock_def)
qed

subsection \<open>Directory entries\<close>

lemma and_minus_8: "(x :: u64) AND - 8 = push_bit 3 (drop_bit 3 x)"
proof -
  have "x AND NOT (mask 3) = push_bit 3 (drop_bit 3 x)"
    by (rule bit_word_eqI) (auto simp: bit_simps)
  then show ?thesis by (simp add: mask_eq_exp_minus_1)
qed

lemma unat_align_down: "unat ((x :: u64) AND - 8) = unat x div 8 * 8"
proof -
  have "unat x < 2 ^ 64" using unsigned_less [of x, where ?'a = nat] by simp
  then have "unat x div 8 * 8 < 2 ^ 64"
    by (rule order_le_less_trans [OF div_times_less_eq_dividend])
  then show ?thesis
    by (simp add: and_minus_8 push_bit_eq_mult drop_bit_eq_div unat_word_ariths unat_div take_bit_nat_eq_self)
qed

lemma unat_FUSE_REC_ALIGN:
  assumes "n + 7 < 2 ^ 64"
  shows "unat (FUSE_REC_ALIGN (of_nat n)) = (n + 7) div 8 * 8"
proof -
  have "of_nat n + 8 - 1 = (of_nat (n + 7) :: u64)" by simp
  moreover have "unat (of_nat (n + 7) :: u64) = n + 7"
    using assms by (simp only: unat_of_nat take_bit_nat_eq_self) simp
  ultimately show ?thesis by (simp only: FUSE_REC_ALIGN_def) (simp add: unat_align_down)
qed

lemma unat_eq_word_of_nat: "unat (w :: 'a::len word) = n \<Longrightarrow> w = of_nat n"
  by (drule sym) simp

text \<open>The length \<^verbatim>\<open>fuse_add_direntry\<close> returns: the next multiple of eight.\<close>

definition dirent_size :: "nat \<Rightarrow> nat" where
  "dirent_size namelen = (FUSE_NAME_OFFSET + namelen + 7) div 8 * 8"

lemma dirent_size_ge: "FUSE_NAME_OFFSET + n \<le> dirent_size n"
  unfolding dirent_size_def by linarith

lemma direntry_sizes:
  assumes "length str < 2 ^ 63"
  shows "unat (FUSE_REC_ALIGN (of_nat FUSE_NAME_OFFSET + of_nat (length str))) = dirent_size (length str)"
    and "unat (FUSE_REC_ALIGN (of_nat FUSE_NAME_OFFSET + of_nat (length str))
          - (of_nat FUSE_NAME_OFFSET + of_nat (length str)))
         = dirent_size (length str) - (FUSE_NAME_OFFSET + length str)"
proof -
  let ?n = "FUSE_NAME_OFFSET + length str"
  have eq: "of_nat FUSE_NAME_OFFSET + of_nat (length str) = (of_nat ?n :: u64)" by simp
  show 1: "unat (FUSE_REC_ALIGN (of_nat FUSE_NAME_OFFSET + of_nat (length str))) = dirent_size (length str)"
    unfolding eq dirent_size_def by (rule unat_FUSE_REC_ALIGN) (use assms in simp)
  have "unat (of_nat ?n :: u64) = ?n"
    using assms by (simp only: unat_of_nat take_bit_nat_eq_self) simp
  then show "unat (FUSE_REC_ALIGN (of_nat FUSE_NAME_OFFSET + of_nat (length str))
          - (of_nat FUSE_NAME_OFFSET + of_nat (length str))) = dirent_size (length str) - ?n"
    using 1 dirent_size_ge [of "length str"] unfolding eq
    by (subst unat_sub) (auto simp: word_le_nat_alt)
qed

lemma mem_write_seq:
  assumes "n + length d \<le> length m" and "n = length u"
  shows "mem_write (u @ drop n m) n d = Some ((u @ d) @ drop (n + length d) m)"
  using assms by (simp add: mem_write_def add.commute)

lemma mem_write_first:
  "length d \<le> length m \<Longrightarrow> mem_write m 0 d = Some (d @ drop (length d) m)"
  by (simp add: mem_write_def)

text \<open>An entry that fits is written with its padding at the start of the buffer and nothing else of
  the buffer changes.\<close>

lemma fuse_add_direntry_fits:
  assumes "c_string name = Some str" and "length str < 2 ^ 63"
    and "dirent_size (length str) \<le> unat bufsize" and "unat bufsize \<le> length b"
  shows "fuse_add_direntry (Some b) bufsize name (Some st) off =
    Some (of_nat (dirent_size (length str)),
      Some (enc_fuse_dirent (st_ino st) off (of_nat (length str)) (drop_bit 12 (st_mode st AND S_IFMT))
        @ str @ replicate (dirent_size (length str) - (FUSE_NAME_OFFSET + length str)) 0
        @ drop (dirent_size (length str)) b))"
proof -
  let ?p = "FUSE_REC_ALIGN (of_nat FUSE_NAME_OFFSET + of_nat (length str))"
  let ?d = "enc_fuse_dirent (st_ino st) off (of_nat (length str)) (drop_bit 12 (st_mode st AND S_IFMT))"
  let ?z = "replicate (dirent_size (length str) - (FUSE_NAME_OFFSET + length str)) (0 :: byte)"
  have u: "unat ?p = dirent_size (length str)" using direntry_sizes(1) assms(2) .
  then have p: "?p = of_nat (dirent_size (length str))" by (metis unat_eq_word_of_nat)
  have fit: "\<not> ?p > bufsize" using u assms(3) by (simp add: word_less_nat_alt)
  have ge: "24 + length str \<le> dirent_size (length str)" using dirent_size_ge by simp
  have uc: "ucast (of_nat (length str) :: u64) = (of_nat (length str) :: u32)"
    by (rule bit_word_eqI) (simp add: bit_simps)
  have 1: "mem_write b 0 ?d = Some (?d @ drop 24 b)"
    using mem_write_first [of ?d b] assms ge by simp
  have 2: "mem_write (?d @ drop 24 b) 24 str = Some ((?d @ str) @ drop (24 + length str) b)"
    by (rule mem_write_seq) (use assms ge in auto)
  have 3: "mem_write ((?d @ str) @ drop (24 + length str) b) (24 + length str) ?z =
      Some (((?d @ str) @ ?z) @ drop (24 + length str + length ?z) b)"
    by (rule mem_write_seq) (use assms ge in auto)
  show ?thesis
    using fit direntry_sizes(2) [OF assms(2)] 1 2 3 p ge
    by (simp add: fuse_add_direntry_def Let_def assms(1) uc)
qed

lemma fuse_add_direntry_measure:
  assumes "c_string name = Some str" and "length str < 2 ^ 63"
  shows "fuse_add_direntry None sz name st off = Some (of_nat (dirent_size (length str)), None)"
proof -
  have "FUSE_REC_ALIGN (of_nat FUSE_NAME_OFFSET + of_nat (length str)) = of_nat (dirent_size (length str))"
    using direntry_sizes(1) [OF assms(2)] by (metis unat_eq_word_of_nat)
  then show ?thesis using assms(1) by (simp add: fuse_add_direntry_def Let_def)
qed

section \<open>Properties\<close>

text \<open>A timeout that is a finite, non-negative double below 2^64 seconds is split into its whole
  seconds and a nanosecond count that is always below 10^9, with the double product and its rounding as
  the processor computes them.\<close>

lemma timeout_split:
  assumes "double_of_bits t = Finite False m e" and "m * 2 ^ e < 2 ^ 64 * dbl_one"
  shows "\<exists>sec nsec. calc_timeout_sec t = Some sec \<and> calc_timeout_nsec t = Some nsec \<and>
    unat sec = m * 2 ^ e div dbl_one \<and> unat nsec \<le> 999999999"
proof -
  have "m * 2 ^ e div dbl_one < 2 ^ 64"
    using assms(2) by (simp add: div_less_iff_less_mult dbl_one_def)
  then have "unat (of_nat (m * 2 ^ e div dbl_one) :: u64) = m * 2 ^ e div dbl_one"
    by (simp only: unat_of_nat take_bit_nat_eq_self) (simp add: take_bit_nat_eq_self)
  moreover have "\<exists>n. calc_timeout_nsec t = Some n"
    using assms by (auto simp: calc_timeout_nsec_def Let_def)
  ultimately show ?thesis
    using assms calc_timeout_nsec_range by (auto simp: calc_timeout_sec_def)
qed

text \<open>A lock that a file system reports to the kernel comes back unchanged when the kernel sends it
  in a request, unless it is an unlock or ends at the largest offset (which stands for the end of the
  file).\<close>

lemma lock_report_roundtrip:
  assumes "l_whence l = SEEK_SET" and "l_type l \<noteq> F_UNLCK"
    and "l_len l = 0 \<or> l_start l + l_len l - 1 \<noteq> OFFSET_MAX"
  shows "convert_fuse_file_lock (reply_file_lock l) = l"
  using lock_roundtrip [OF assms(1,2)] assms(3) by blast

text \<open>\<^bold>\<open>C29\<close> A directory entry added to a buffer in which it fits reads back with the same inode, offset, type
  and name, takes a multiple of eight bytes and leaves the rest of the buffer alone; one that does not
  fit changes nothing. Either way the result is the size needed.\<close>

theorem direntry_roundtrip:
  assumes "c_string name = Some str" and "length str < 2 ^ 32" and "unat bufsize \<le> length b"
  defines "n \<equiv> dirent_size (length str)"
  shows "n mod 8 = 0 \<and>
    (if n \<le> unat bufsize
     then \<exists>b'. fuse_add_direntry (Some b) bufsize name (Some st) off = Some (of_nat n, Some b') \<and>
       length b' = length b \<and> drop n b' = drop n b \<and>
       fuse_dirent_ino b' = Some (st_ino st) \<and> fuse_dirent_off b' = Some off \<and>
       fuse_dirent_type b' = Some (drop_bit 12 (st_mode st AND S_IFMT)) \<and>
       map_option unat (fuse_dirent_namelen b') = Some (length str) \<and>
       take (length str) (drop FUSE_NAME_OFFSET b') = str
     else fuse_add_direntry (Some b) bufsize name (Some st) off = Some (of_nat n, Some b))"
proof -
  let ?e = "enc_fuse_dirent (st_ino st) off (of_nat (length str)) (drop_bit 12 (st_mode st AND S_IFMT))"
  let ?z = "replicate (n - (FUSE_NAME_OFFSET + length str)) 0"
  let ?b = "?e @ str @ ?z @ drop n b"
  have ge: "FUSE_NAME_OFFSET + length str \<le> n" unfolding n_def by (rule dirent_size_ge)
  have l63: "length str < 2 ^ 63" using assms(2) by simp
  have ulen: "unat (of_nat (length str) :: u32) = length str"
    using assms(2) by (simp only: unat_of_nat take_bit_nat_eq_self) (simp add: take_bit_nat_eq_self)
  show ?thesis
  proof (cases "n \<le> unat bufsize")
    case True
    have "fuse_add_direntry (Some b) bufsize name (Some st) off = Some (of_nat n, Some ?b)"
      using fuse_add_direntry_fits [OF assms(1) l63 _ assms(3)] True by (simp add: n_def)
    moreover have "length ?b = length b" "drop n ?b = drop n b" using ge True assms(3) by simp_all
    ultimately show ?thesis using True ulen
      by (auto simp: n_def dirent_size_def dirent_roundtrip intro!: exI [of _ ?b])
  next
    case False
    have "unat (FUSE_REC_ALIGN (of_nat FUSE_NAME_OFFSET + of_nat (length str))) = n"
      unfolding n_def by (rule direntry_sizes(1) [OF l63])
    then have "FUSE_REC_ALIGN (of_nat FUSE_NAME_OFFSET + of_nat (length str)) = of_nat n"
      "bufsize < FUSE_REC_ALIGN (of_nat FUSE_NAME_OFFSET + of_nat (length str))"
      using False by (simp_all add: unat_eq_word_of_nat word_less_nat_alt)
    then show ?thesis using False assms(1) by (simp add: fuse_add_direntry_def n_def dirent_size_def)
  qed
qed

theorem direntry_roundtrip_witness:
  "\<exists>b'. fuse_add_direntry (Some (replicate 64 0)) 64 (bytes_of ''hello'' @ [0]) (Some (zero_stat\<lparr>st_ino := 2\<rparr>)) 32 =
      Some (32, Some b') \<and> fuse_dirent_ino b' = Some 2 \<and> take 5 (drop FUSE_NAME_OFFSET b') = bytes_of ''hello''"
proof -
  have cs: "c_string (bytes_of ''hello'' @ [0]) = Some (bytes_of ''hello'')" and l: "length (bytes_of ''hello'') = 5"
    by (simp_all add: bytes_of_def c_string_def)
  from direntry_roundtrip [OF cs, of 64 "replicate 64 0" "zero_stat\<lparr>st_ino := 2\<rparr>" 32, unfolded l]
  show ?thesis by (auto simp: dirent_size_def)
qed

end
