(* ===== verification/Fuse_Reply.thy ===== *)
theory Fuse_Reply
  imports Fuse_World Fuse_Convert
begin

text \<open>
  The reply functions of \<^verbatim>\<open>libs/libfuse/lib/fuse_lowlevel.c\<close>. Five of them (\<^verbatim>\<open>fuse_reply_err\<close>,
  \<^verbatim>\<open>fuse_reply_entry\<close>, \<^verbatim>\<open>fuse_reply_attr\<close>, \<^verbatim>\<open>fuse_reply_open\<close>, \<^verbatim>\<open>fuse_reply_buf\<close>) know the driver's
  request: they store the result there and raise its semaphore. All others still write a message
  to the device descriptor. The lemmas give the exact effect of both kinds; \<open>completes\<close> is the
  contract of a reply that reaches the driver, \<open>give_reply\<close> any of the others.
\<close>

section \<open>Messages to the device\<close>

definition iov_length :: "byte list list \<Rightarrow> nat" where
  "iov_length iov = sum_list (map length iov)"

text \<open>The channel of a request is the driver's request in disguise, so its \<open>fd\<close> member is whatever
  that memory holds; a failed write delivers nothing.\<close>

definition fuse_write_msg_dev :: "addr option \<Rightarrow> byte list list \<Rightarrow> 'u fuse_world \<Rightarrow>
    int \<times> 'u fuse_world" where
  "fuse_write_msg_dev ch iov w =
     (case ch of
        Some c \<Rightarrow> if ukfs w c = None then (- 1, raise_fault UseAfterFree w)
                  else (case writev_errno (plat w) (nwrites w) of
                     Some err \<Rightarrow> (- err, w\<lparr>nwrites := nwrites w + 1\<rparr>)
                   | None \<Rightarrow> (0, w\<lparr>nwrites := nwrites w + 1,
                       dev_out := dev_out w @ [(ChFd c, concat iov)]\<rparr>))
      | None \<Rightarrow> (case writev_errno (plat w) (nwrites w) of
                     Some err \<Rightarrow> (- err, w\<lparr>nwrites := nwrites w + 1\<rparr>)
                   | None \<Rightarrow> (0, w\<lparr>nwrites := nwrites w + 1,
                       dev_out := dev_out w @ [(SeFd (se_fd (se w)), concat iov)]\<rparr>)))"

text \<open>\<^verbatim>\<open>fuse_uring_stub.c\<close>: io-uring is not there.\<close>

definition fuse_send_msg_uring :: int where "fuse_send_msg_uring = - ENOSYS"
definition send_reply_uring :: int where "send_reply_uring = - ENOSYS"

text \<open>The header is the first vector; its length field is filled in here.\<close>

definition fuse_send_msg :: "addr option \<Rightarrow> u64 \<Rightarrow> int \<Rightarrow> byte list list \<Rightarrow> fuse_req option \<Rightarrow>
    'u fuse_world \<Rightarrow> int \<times> 'u fuse_world" where
  "fuse_send_msg ch unique error iov req w =
     (let is_uring = (case req of None \<Rightarrow> False | Some r \<Rightarrow> rq_is_uring r);
          len = of_nat (16 + iov_length iov) :: u32;
          out = enc_fuse_out_header len (of_int error) unique
      in if is_uring then (fuse_send_msg_uring, w)
         else fuse_write_msg_dev ch (out # iov) w)"

definition with_req_int :: "addr \<Rightarrow> (fuse_req \<Rightarrow> 'u fuse_world \<Rightarrow> int \<times> 'u fuse_world) \<Rightarrow>
    'u fuse_world \<Rightarrow> int \<times> 'u fuse_world" where
  "with_req_int a k w =
     (case reqs w a of None \<Rightarrow> (- 1, raise_fault UseAfterFree w) | Some r \<Rightarrow> k r w)"

definition fuse_send_reply_iov_nofree :: "addr \<Rightarrow> int \<Rightarrow> byte list list \<Rightarrow> 'u fuse_world \<Rightarrow>
    int \<times> 'u fuse_world" where
  "fuse_send_reply_iov_nofree req error iov = with_req_int req (\<lambda>r w.
     let error = (if error \<le> - 1000 \<or> error > 0 then - ERANGE else error)
     in fuse_send_msg (rq_ch r) (rq_unique r) error iov (Some r) w)"

definition send_reply_iov :: "addr \<Rightarrow> int \<Rightarrow> byte list list \<Rightarrow> 'u fuse_world \<Rightarrow>
    int \<times> 'u fuse_world" where
  "send_reply_iov req error iov w =
     (let (res, w) = fuse_send_reply_iov_nofree req error iov w
      in (res, fuse_free_req req w))"

definition send_reply :: "addr \<Rightarrow> int \<Rightarrow> byte list \<Rightarrow> 'u fuse_world \<Rightarrow> int \<times> 'u fuse_world" where
  "send_reply req error arg = with_req_int req (\<lambda>r w.
     if rq_is_uring r then (send_reply_uring, w)
     else send_reply_iov req error (if arg \<noteq> [] then [arg] else []) w)"

definition send_reply_ok :: "addr \<Rightarrow> byte list \<Rightarrow> 'u fuse_world \<Rightarrow> int \<times> 'u fuse_world" where
  "send_reply_ok req arg = send_reply req 0 arg"

section \<open>Replies that reach the driver\<close>

definition fuse_reply_err :: "addr \<Rightarrow> int \<Rightarrow> 'u fuse_world \<Rightarrow> int \<times> 'u fuse_world" where
  "fuse_reply_err req err = with_req_int req (\<lambda>r w.
     let w = (case rq_ukfs_req r of
                None \<Rightarrow> w
              | Some u \<Rightarrow> ukfs_mod u (\<lambda>q. uk_semaphore_up
                  (q\<lparr>ur_error := - err, ur_reply_data := RNull, ur_reply_len := 0\<rparr>)) w)
     in (0, fuse_free_req req w))"

definition fuse_reply_none :: "addr \<Rightarrow> 'u fuse_world \<Rightarrow> 'u fuse_world" where
  "fuse_reply_none req w = fuse_free_req req w"

definition fuse_reply_entry :: "addr \<Rightarrow> fuse_entry_param \<Rightarrow> 'u fuse_world \<Rightarrow>
    int \<times> 'u fuse_world" where
  "fuse_reply_entry req e = with_req_int req (\<lambda>r w.
     if ep_ino e = 0 \<and> proto_minor (conn w) < 4 then fuse_reply_err req ENOENT w
     else
       (let w = (case rq_ukfs_req r of
                   None \<Rightarrow> w
                 | Some u \<Rightarrow>
                     (let len = sizeof_entry_param (plat w); (ok, w) = try_malloc w
                      in ukfs_mod u (\<lambda>q. uk_semaphore_up
                           (q\<lparr>ur_error := (if ok then 0 else - ENOMEM),
                              ur_reply_data := (if ok then REntry e else RNull),
                              ur_reply_len := len\<rparr>)) w))
        in (0, fuse_free_req req w)))"

definition fuse_reply_attr :: "addr \<Rightarrow> stat \<Rightarrow> double_bits \<Rightarrow> 'u fuse_world \<Rightarrow>
    int \<times> 'u fuse_world" where
  "fuse_reply_attr req attr attr_timeout = with_req_int req (\<lambda>r w.
     let w = (case rq_ukfs_req r of
                None \<Rightarrow> w
              | Some u \<Rightarrow>
                  (let len = sizeof_stat (plat w); (ok, w) = try_malloc w
                   in ukfs_mod u (\<lambda>q. uk_semaphore_up
                        (q\<lparr>ur_error := (if ok then 0 else - ENOMEM),
                           ur_reply_data := (if ok then RStat attr else RNull),
                           ur_reply_len := len\<rparr>)) w))
     in (0, fuse_free_req req w))"

definition fuse_reply_open :: "addr \<Rightarrow> fuse_file_info \<Rightarrow> 'u fuse_world \<Rightarrow> int \<times> 'u fuse_world" where
  "fuse_reply_open req f = with_req_int req (\<lambda>r w.
     case rq_ukfs_req r of
       Some u \<Rightarrow>
         (let (ok, w) = try_malloc w;
              w = ukfs_mod u (\<lambda>q. uk_semaphore_up
                (if ok then q\<lparr>ur_error := 0, ur_reply_data := ROpen (fill_open zero_open_out f),
                              ur_reply_len := 16\<rparr>
                 else q\<lparr>ur_error := - ENOMEM, ur_reply_data := RNull, ur_reply_len := 0\<rparr>)) w
          in (0, fuse_free_req req w))
     | None \<Rightarrow> send_reply_ok req (enc_fuse_open_out (fill_open zero_open_out f)) w)"

text \<open>The buffer is the block its pointer points into (\<open>None\<close> a null pointer); without a source the
  new block keeps what the allocator left in it.\<close>

definition fuse_reply_buf :: "addr \<Rightarrow> byte list option \<Rightarrow> nat \<Rightarrow> 'u fuse_world \<Rightarrow>
    int \<times> 'u fuse_world" where
  "fuse_reply_buf req buf sz = with_req_int req (\<lambda>r w.
     let w = (case rq_ukfs_req r of
                None \<Rightarrow> w
              | Some u \<Rightarrow>
                  (let (ok, w) = try_malloc w;
                       oob = (ok \<and> sz > 0 \<and> (case buf of None \<Rightarrow> False | Some b \<Rightarrow> length b < sz));
                       mem = (case buf of
                                Some b \<Rightarrow> take sz b
                              | None \<Rightarrow> map (uninit (plat w)) [0..<sz])
                   in if oob then raise_fault OutOfBounds w
                      else ukfs_mod u (\<lambda>q. uk_semaphore_up
                        (q\<lparr>ur_error := (if \<not> ok \<and> sz > 0 then - ENOMEM else 0),
                           ur_reply_data := (if ok then RBytes mem else RNull),
                           ur_reply_len := sz\<rparr>)) w))
     in (0, fuse_free_req req w))"

section \<open>Replies that only write to the device\<close>

definition fuse_reply_iov :: "addr \<Rightarrow> byte list list \<Rightarrow> 'u fuse_world \<Rightarrow> int \<times> 'u fuse_world" where
  "fuse_reply_iov req iov w =
     (let (ok, w) = try_malloc w
      in if \<not> ok then fuse_reply_err req ENOMEM w else send_reply_iov req 0 iov w)"

text \<open>With a protocol older than 7.9 the open reply overlaps the tail of the entry.\<close>

definition fuse_reply_create :: "addr \<Rightarrow> fuse_entry_param \<Rightarrow> fuse_file_info \<Rightarrow> 'u fuse_world \<Rightarrow>
    int \<times> 'u fuse_world" where
  "fuse_reply_create req e f w =
     (let entrysize = (if proto_minor (conn w) < 9 then FUSE_COMPAT_ENTRY_OUT_SIZE else 128)
      in case fill_entry zero_entry_out e of
           None \<Rightarrow> (- 1, raise_fault UndefinedConversion w)
         | Some earg \<Rightarrow> send_reply_ok req (take entrysize (enc_fuse_entry_out earg) @
             enc_fuse_open_out (fill_open zero_open_out f)) w)"

definition fuse_reply_readlink :: "addr \<Rightarrow> byte list \<Rightarrow> 'u fuse_world \<Rightarrow> int \<times> 'u fuse_world" where
  "fuse_reply_readlink req linkname w =
     (case c_string linkname of
        None \<Rightarrow> (- 1, raise_fault OutOfBounds w)
      | Some s \<Rightarrow> send_reply_ok req s w)"

definition do_fuse_reply_write :: "addr \<Rightarrow> u64 \<Rightarrow> 'u fuse_world \<Rightarrow> int \<times> 'u fuse_world" where
  "do_fuse_reply_write req count =
     send_reply_ok req (le_bytes 4 (ucast count :: u32) @ le_bytes 4 (0 :: u32))"

definition do_fuse_reply_copy :: "addr \<Rightarrow> u64 \<Rightarrow> 'u fuse_world \<Rightarrow> int \<times> 'u fuse_world" where
  "do_fuse_reply_copy req count = send_reply_ok req (le_bytes 8 count)"

definition fuse_reply_write :: "addr \<Rightarrow> u64 \<Rightarrow> 'u fuse_world \<Rightarrow> int \<times> 'u fuse_world" where
  "fuse_reply_write req count = with_req_int req (\<lambda>r w.
     if rq_is_copy_file_range_64 r then do_fuse_reply_copy req count w
     else do_fuse_reply_write req count w)"

definition fuse_reply_statfs :: "addr \<Rightarrow> statvfs \<Rightarrow> 'u fuse_world \<Rightarrow> int \<times> 'u fuse_world" where
  "fuse_reply_statfs req stbuf w =
     (let sz = (if proto_minor (conn w) < 4 then FUSE_COMPAT_STATFS_SIZE else 80)
      in send_reply_ok req (take sz (enc_fuse_kstatfs (convert_statfs stbuf zero_kstatfs))) w)"

definition fuse_reply_xattr :: "addr \<Rightarrow> u64 \<Rightarrow> 'u fuse_world \<Rightarrow> int \<times> 'u fuse_world" where
  "fuse_reply_xattr req count =
     send_reply_ok req (le_bytes 4 (ucast count :: u32) @ le_bytes 4 (0 :: u32))"

definition fuse_reply_lock :: "addr \<Rightarrow> flock \<Rightarrow> 'u fuse_world \<Rightarrow> int \<times> 'u fuse_world" where
  "fuse_reply_lock req lock = send_reply_ok req (enc_fuse_file_lock (reply_file_lock lock))"

definition fuse_reply_bmap :: "addr \<Rightarrow> u64 \<Rightarrow> 'u fuse_world \<Rightarrow> int \<times> 'u fuse_world" where
  "fuse_reply_bmap req idx = send_reply_ok req (le_bytes 8 idx)"

text \<open>An \<^verbatim>\<open>iovec\<close> of the file system's caller is a base address and a length; on a 64-bit target it
  has the layout of \<^verbatim>\<open>struct fuse_ioctl_iovec\<close>.\<close>

definition enc_ioctl_out :: "int \<Rightarrow> u32 \<Rightarrow> u32 \<Rightarrow> u32 \<Rightarrow> byte list" where
  "enc_ioctl_out result flags in_iovs out_iovs =
     le_bytes 4 (of_int result :: u32) @ le_bytes 4 flags @ le_bytes 4 in_iovs @ le_bytes 4 out_iovs"

definition fuse_ioctl_iovec_copy :: "(u64 \<times> u64) list \<Rightarrow> 'u fuse_world \<Rightarrow>
    byte list option \<times> 'u fuse_world" where
  "fuse_ioctl_iovec_copy iov w =
     (let (ok, w) = try_malloc w
      in if \<not> ok then (None, w)
         else (Some (concat (map (\<lambda>(base, len). le_bytes 8 base @ le_bytes 8 len) iov)), w))"

definition iov_bytes :: "(u64 \<times> u64) list \<Rightarrow> byte list" where
  "iov_bytes iov = concat (map (\<lambda>(base, len). le_bytes 8 base @ le_bytes 8 len) iov)"

definition fuse_reply_ioctl_retry :: "addr \<Rightarrow> (u64 \<times> u64) list \<Rightarrow> (u64 \<times> u64) list \<Rightarrow>
    'u fuse_world \<Rightarrow> int \<times> 'u fuse_world" where
  "fuse_reply_ioctl_retry req in_iov out_iov w =
     (let arg = enc_ioctl_out 0 FUSE_IOCTL_RETRY (of_nat (length in_iov)) (of_nat (length out_iov))
      in if proto_minor (conn w) < 16 then
           send_reply_iov req 0 ([arg] @ (if in_iov \<noteq> [] then [iov_bytes in_iov] else []) @
             (if out_iov \<noteq> [] then [iov_bytes out_iov] else [])) w
         else
           (let (fin, w) = (if in_iov \<noteq> [] then
                  (let (f, w) = fuse_ioctl_iovec_copy in_iov w in (map_option (\<lambda>x. [x]) f, w))
                else (Some [], w))
            in case fin of
                 None \<Rightarrow> fuse_reply_err req ENOMEM w
               | Some fi \<Rightarrow>
                   (let (fout, w) = (if out_iov \<noteq> [] then
                          (let (f, w) = fuse_ioctl_iovec_copy out_iov w in (map_option (\<lambda>x. [x]) f, w))
                        else (Some [], w))
                    in case fout of
                         None \<Rightarrow> fuse_reply_err req ENOMEM w
                       | Some fo \<Rightarrow> send_reply_iov req 0 ([arg] @ fi @ fo) w)))"

definition fuse_reply_ioctl :: "addr \<Rightarrow> int \<Rightarrow> byte list \<Rightarrow> 'u fuse_world \<Rightarrow> int \<times> 'u fuse_world" where
  "fuse_reply_ioctl req result buf =
     send_reply_iov req 0 ([enc_ioctl_out result 0 0 0] @ (if buf \<noteq> [] then [buf] else []))"

definition fuse_reply_ioctl_iov :: "addr \<Rightarrow> int \<Rightarrow> byte list list \<Rightarrow> 'u fuse_world \<Rightarrow>
    int \<times> 'u fuse_world" where
  "fuse_reply_ioctl_iov req result iov w =
     (let (ok, w) = try_malloc w
      in if \<not> ok then fuse_reply_err req ENOMEM w
         else send_reply_iov req 0 (enc_ioctl_out result 0 0 0 # iov) w)"

definition fuse_reply_poll :: "addr \<Rightarrow> u32 \<Rightarrow> 'u fuse_world \<Rightarrow> int \<times> 'u fuse_world" where
  "fuse_reply_poll req revents = send_reply_ok req (le_bytes 4 revents @ le_bytes 4 (0 :: u32))"

definition fuse_reply_lseek :: "addr \<Rightarrow> u64 \<Rightarrow> 'u fuse_world \<Rightarrow> int \<times> 'u fuse_world" where
  "fuse_reply_lseek req off = send_reply_ok req (le_bytes 8 off)"

definition fuse_reply_statx :: "addr \<Rightarrow> 'u fuse_world \<Rightarrow> int \<times> 'u fuse_world" where
  "fuse_reply_statx req w = (- ENOSYS, w)"

section \<open>Contracts\<close>

text \<open>
  The effect of a reply that reaches the driver: the driver's request \<open>p\<close> gets its result and one
  more unit on its semaphore, the library's request \<open>a\<close> is freed and unlinked, and nothing else
  changes, the device included.
\<close>

definition completes :: "addr \<Rightarrow> addr \<Rightarrow> int \<Rightarrow> reply_data \<Rightarrow> nat \<Rightarrow> 'u fuse_world \<Rightarrow>
    'u fuse_world \<Rightarrow> bool" where
  "completes a p err dat len w w' \<longleftrightarrow>
     (\<exists>q n. ukfs w p = Some q \<and>
       w' = w\<lparr>ukfs := (ukfs w)(p \<mapsto> q\<lparr>ur_error := err, ur_reply_data := dat, ur_reply_len := len,
                                    ur_done := ur_done q + 1\<rparr>),
              reqs := (reqs w)(a := None),
              links := (if no_interrupt (conn w) then links w else list_del_req (links w) a),
              nmalloc := n\<rparr>)"

text \<open>A request that a handler may answer: allocated, held once, with the driver's request alive.\<close>

definition live_req :: "'u fuse_world \<Rightarrow> addr \<Rightarrow> addr \<Rightarrow> bool" where
  "live_req w a p \<longleftrightarrow>
     (\<exists>r q. reqs w a = Some r \<and> rq_ref_cnt r = 1 \<and> \<not> rq_is_uring r \<and> rq_ukfs_req r = Some p \<and>
       ukfs w p = Some q)"

lemma live_reqE:
  assumes "live_req w a p"
  obtains r q where "reqs w a = Some r" "rq_ref_cnt r = 1" "\<not> rq_is_uring r"
    "rq_ukfs_req r = Some p" "ukfs w p = Some q"
  using assms by (auto simp: live_req_def)

lemma with_req_int_Some [simp]: "reqs w a = Some r \<Longrightarrow> with_req_int a k w = k r w"
  by (simp add: with_req_int_def)

lemma try_malloc_simps [simp]:
  "fst (try_malloc w) = malloc_ok (plat w) (nmalloc w)"
  "snd (try_malloc w) = w\<lparr>nmalloc := nmalloc w + 1\<rparr>"
  by (simp_all add: try_malloc_def)

text \<open>Storing a result in the driver's request and freeing the library's one is completion.\<close>

lemma completes_intro:
  assumes "reqs w a = Some r" "rq_ref_cnt r = 1" "\<not> rq_is_uring r" "ukfs w p = Some q"
    and "f q = q\<lparr>ur_error := err, ur_reply_data := dat, ur_reply_len := len, ur_done := ur_done q + 1\<rparr>"
    and "w1 = w\<lparr>nmalloc := n\<rparr>"
  shows "completes a p err dat len w (fuse_free_req a (ukfs_mod p f w1))"
proof -
  let ?w = "w\<lparr>nmalloc := n, ukfs := (ukfs w)(p \<mapsto> f q)\<rparr>"
  have "ukfs_mod p f w1 = ?w" using assms(4,6) by simp
  moreover have "fuse_free_req a ?w = ?w\<lparr>reqs := (reqs ?w)(a := None),
      links := (if no_interrupt (conn ?w) then links ?w else list_del_req (links ?w) a)\<rparr>"
    by (rule fuse_free_req_last) (use assms in auto)
  ultimately show ?thesis
    using assms(4,5) unfolding completes_def by (intro exI [of _ q] exI [of _ n]) simp
qed

lemma fuse_reply_err_completes [reply_simps]:
  assumes "live_req w a p"
  shows "fst (fuse_reply_err a err w) = 0"
    and "completes a p (- err) RNull 0 w (snd (fuse_reply_err a err w))"
proof -
  from assms obtain r q where rq: "reqs w a = Some r" "rq_ref_cnt r = 1" "\<not> rq_is_uring r"
    "rq_ukfs_req r = Some p" "ukfs w p = Some q" by (rule live_reqE)
  show "fst (fuse_reply_err a err w) = 0" using rq by (simp add: fuse_reply_err_def Let_def)
  have "completes a p (- err) RNull 0 w (fuse_free_req a (ukfs_mod p (\<lambda>q. uk_semaphore_up
      (q\<lparr>ur_error := - err, ur_reply_data := RNull, ur_reply_len := 0\<rparr>)) w))"
    by (rule completes_intro [OF rq(1-3) rq(5), where n = "nmalloc w"])
      (simp_all add: uk_semaphore_up_def)
  then show "completes a p (- err) RNull 0 w (snd (fuse_reply_err a err w))"
    using rq by (simp add: fuse_reply_err_def Let_def)
qed

definition reply_result :: "'u fuse_world \<Rightarrow> reply_data \<Rightarrow> int \<times> reply_data" where
  "reply_result w d = (if malloc_ok (plat w) (nmalloc w) then (0, d) else (- ENOMEM, RNull))"

lemma fuse_reply_entry_completes [reply_simps]:
  assumes "live_req w a p" and "ep_ino e \<noteq> 0 \<or> proto_minor (conn w) \<ge> 4"
  shows "fst (fuse_reply_entry a e w) = 0"
    and "completes a p (fst (reply_result w (REntry e))) (snd (reply_result w (REntry e)))
          (sizeof_entry_param (plat w)) w (snd (fuse_reply_entry a e w))"
proof -
  from assms(1) obtain r q where rq: "reqs w a = Some r" "rq_ref_cnt r = 1" "\<not> rq_is_uring r"
    "rq_ukfs_req r = Some p" "ukfs w p = Some q" by (rule live_reqE)
  have g: "\<not> (ep_ino e = 0 \<and> proto_minor (conn w) < 4)" using assms(2) by auto
  show "fst (fuse_reply_entry a e w) = 0"
    using rq g by (auto simp: fuse_reply_entry_def Let_def split: prod.splits)
  have "completes a p (fst (reply_result w (REntry e))) (snd (reply_result w (REntry e)))
      (sizeof_entry_param (plat w)) w (fuse_free_req a (ukfs_mod p (\<lambda>q. uk_semaphore_up
        (q\<lparr>ur_error := (if malloc_ok (plat w) (nmalloc w) then 0 else - ENOMEM),
           ur_reply_data := (if malloc_ok (plat w) (nmalloc w) then REntry e else RNull),
           ur_reply_len := sizeof_entry_param (plat w)\<rparr>)) (w\<lparr>nmalloc := nmalloc w + 1\<rparr>)))"
    by (rule completes_intro [OF rq(1-3) rq(5)]) (simp_all add: uk_semaphore_up_def reply_result_def)
  then show "completes a p (fst (reply_result w (REntry e))) (snd (reply_result w (REntry e)))
          (sizeof_entry_param (plat w)) w (snd (fuse_reply_entry a e w))"
    using rq g by (auto simp: fuse_reply_entry_def Let_def try_malloc_def)
qed

lemma fuse_reply_attr_completes [reply_simps]:
  assumes "live_req w a p"
  shows "fst (fuse_reply_attr a st t w) = 0"
    and "completes a p (fst (reply_result w (RStat st))) (snd (reply_result w (RStat st)))
          (sizeof_stat (plat w)) w (snd (fuse_reply_attr a st t w))"
proof -
  from assms obtain r q where rq: "reqs w a = Some r" "rq_ref_cnt r = 1" "\<not> rq_is_uring r"
    "rq_ukfs_req r = Some p" "ukfs w p = Some q" by (rule live_reqE)
  show "fst (fuse_reply_attr a st t w) = 0" using rq by (simp add: fuse_reply_attr_def Let_def)
  have "completes a p (fst (reply_result w (RStat st))) (snd (reply_result w (RStat st)))
      (sizeof_stat (plat w)) w (fuse_free_req a (ukfs_mod p (\<lambda>q. uk_semaphore_up
        (q\<lparr>ur_error := (if malloc_ok (plat w) (nmalloc w) then 0 else - ENOMEM),
           ur_reply_data := (if malloc_ok (plat w) (nmalloc w) then RStat st else RNull),
           ur_reply_len := sizeof_stat (plat w)\<rparr>)) (w\<lparr>nmalloc := nmalloc w + 1\<rparr>)))"
    by (rule completes_intro [OF rq(1-3) rq(5)]) (simp_all add: uk_semaphore_up_def reply_result_def)
  then show "completes a p (fst (reply_result w (RStat st))) (snd (reply_result w (RStat st)))
          (sizeof_stat (plat w)) w (snd (fuse_reply_attr a st t w))"
    using rq by (auto simp: fuse_reply_attr_def Let_def try_malloc_def)
qed

lemma fuse_reply_open_completes [reply_simps]:
  fixes w :: "'u fuse_world" and f :: fuse_file_info
  assumes "live_req w a p"
  defines "d \<equiv> ROpen (fill_open zero_open_out f)"
  shows "fst (fuse_reply_open a f w) = 0"
    and "completes a p (fst (reply_result w d)) (snd (reply_result w d))
          (if malloc_ok (plat w) (nmalloc w) then 16 else 0) w (snd (fuse_reply_open a f w))"
proof -
  let ?ok = "malloc_ok (plat w) (nmalloc w)"
  from assms obtain r q where rq: "reqs w a = Some r" "rq_ref_cnt r = 1" "\<not> rq_is_uring r"
    "rq_ukfs_req r = Some p" "ukfs w p = Some q" by (auto elim: live_reqE)
  show "fst (fuse_reply_open a f w) = 0" using rq by (simp add: fuse_reply_open_def try_malloc_def Let_def)
  have "completes a p (fst (reply_result w d)) (snd (reply_result w d)) (if ?ok then 16 else 0) w
      (fuse_free_req a (ukfs_mod p (\<lambda>q. uk_semaphore_up
        (if ?ok then q\<lparr>ur_error := 0, ur_reply_data := d, ur_reply_len := 16\<rparr>
         else q\<lparr>ur_error := - ENOMEM, ur_reply_data := RNull, ur_reply_len := 0\<rparr>))
        (w\<lparr>nmalloc := nmalloc w + 1\<rparr>)))"
    by (rule completes_intro [OF rq(1-3) rq(5)]) (simp_all add: uk_semaphore_up_def reply_result_def)
  then show "completes a p (fst (reply_result w d)) (snd (reply_result w d))
          (if ?ok then 16 else 0) w (snd (fuse_reply_open a f w))"
    using rq by (auto simp: fuse_reply_open_def try_malloc_def Let_def d_def)
qed

text \<open>A buffer reply of length zero succeeds even when the allocation fails.\<close>

definition buf_result :: "'u fuse_world \<Rightarrow> byte list \<Rightarrow> int \<times> reply_data" where
  "buf_result w b = (if malloc_ok (plat w) (nmalloc w) then (0, RBytes b)
     else if b = [] then (0, RNull) else (- ENOMEM, RNull))"

lemma fuse_reply_buf_completes [reply_simps]:
  fixes w :: "'u fuse_world"
  assumes "live_req w a p" and "n \<le> length b"
  shows "fst (fuse_reply_buf a (Some b) n w) = 0"
    and "completes a p (fst (buf_result w (take n b))) (snd (buf_result w (take n b))) n w
          (snd (fuse_reply_buf a (Some b) n w))"
proof -
  from assms obtain r q where rq: "reqs w a = Some r" "rq_ref_cnt r = 1" "\<not> rq_is_uring r"
    "rq_ukfs_req r = Some p" "ukfs w p = Some q" by (auto elim: live_reqE)
  show "fst (fuse_reply_buf a (Some b) n w) = 0" using rq by (simp add: fuse_reply_buf_def Let_def)
  have "completes a p (fst (buf_result w (take n b))) (snd (buf_result w (take n b))) n w
      (fuse_free_req a (ukfs_mod p (\<lambda>q. uk_semaphore_up
        (q\<lparr>ur_error := (if \<not> malloc_ok (plat w) (nmalloc w) \<and> n > 0 then - ENOMEM else 0),
           ur_reply_data := (if malloc_ok (plat w) (nmalloc w) then RBytes (take n b) else RNull),
           ur_reply_len := n\<rparr>)) (w\<lparr>nmalloc := nmalloc w + 1\<rparr>)))"
    by (rule completes_intro [OF rq(1-3) rq(5)])
      (use assms(2) in \<open>auto simp: uk_semaphore_up_def buf_result_def\<close>)
  then show "completes a p (fst (buf_result w (take n b))) (snd (buf_result w (take n b))) n w
          (snd (fuse_reply_buf a (Some b) n w))"
    using rq assms(2) by (auto simp: fuse_reply_buf_def Let_def try_malloc_def)
qed

lemma fuse_reply_buf_empty_completes [reply_simps]:
  fixes w :: "'u fuse_world"
  assumes "live_req w a p"
  shows "fst (fuse_reply_buf a None 0 w) = 0"
    and "completes a p 0 (snd (buf_result w [])) 0 w (snd (fuse_reply_buf a None 0 w))"
proof -
  from assms obtain r q where rq: "reqs w a = Some r" "rq_ref_cnt r = 1" "\<not> rq_is_uring r"
    "rq_ukfs_req r = Some p" "ukfs w p = Some q" by (auto elim: live_reqE)
  show "fst (fuse_reply_buf a None 0 w) = 0" using rq by (simp add: fuse_reply_buf_def Let_def)
  have "completes a p 0 (snd (buf_result w [])) 0 w (fuse_free_req a (ukfs_mod p (\<lambda>q. uk_semaphore_up
        (q\<lparr>ur_error := 0,
           ur_reply_data := (if malloc_ok (plat w) (nmalloc w) then RBytes [] else RNull),
           ur_reply_len := 0\<rparr>)) (w\<lparr>nmalloc := nmalloc w + 1\<rparr>)))"
    by (rule completes_intro [OF rq(1-3) rq(5)]) (auto simp: uk_semaphore_up_def buf_result_def)
  then show "completes a p 0 (snd (buf_result w [])) 0 w (snd (fuse_reply_buf a None 0 w))"
    using rq by (auto simp: fuse_reply_buf_def Let_def try_malloc_def)
qed

lemma completesE:
  assumes "completes a p err dat len w w'"
  obtains q n where "ukfs w p = Some q"
    "w' = w\<lparr>ukfs := (ukfs w)(p \<mapsto> q\<lparr>ur_error := err, ur_reply_data := dat, ur_reply_len := len,
                                   ur_done := ur_done q + 1\<rparr>),
           reqs := (reqs w)(a := None),
           links := (if no_interrupt (conn w) then links w else list_del_req (links w) a),
           nmalloc := n\<rparr>"
  using assms unfolding completes_def by blast

lemma completes_simps:
  assumes "completes a p err dat len w w'"
  shows "se w' = se w" "fault w' = fault w" "dev_out w' = dev_out w" "brk w' = brk w"
    "plat w' = plat w" "fsmem w' = fsmem w" "reqs w' = (reqs w)(a := None)"
    "p' \<noteq> p \<Longrightarrow> ukfs w' p' = ukfs w p'" "dom (ukfs w') = dom (ukfs w)"
    "links w' = (if no_interrupt (conn w) then links w else list_del_req (links w) a)"
  using assms by (auto elim!: completesE split: if_splits)

lemma completes_result:
  assumes "completes a p err dat len w w'" and "ukfs w p = Some q"
  shows "ukfs w' p = Some (q\<lparr>ur_error := err, ur_reply_data := dat, ur_reply_len := len,
    ur_done := ur_done q + 1\<rparr>)"
  using assms by (auto elim!: completesE)

lemma completes_wf:
  assumes "completes a p err dat len w w'" and "wf_world w ls is" and "a \<in> dom (reqs w)"
    and "a \<notin> set is"
  shows "wf_world w' (remove1 a ls) is"
  using wf_free [OF assms(2-4)]
  by (subst (asm) wf_world_cong [of _ w']) (simp_all add: completes_simps [OF assms(1)])

section \<open>Replies to the device leave the driver waiting\<close>

text \<open>Sending a message changes nothing of the driver's requests.\<close>

lemma ukfs_raise_fault [simp]: "ukfs (raise_fault f w) = ukfs w"
  by (simp add: raise_fault_def)

lemma ukfs_fuse_send_msg: "ukfs (snd (fuse_send_msg ch u e iov r w)) = ukfs w"
  by (auto simp: fuse_send_msg_def fuse_write_msg_dev_def Let_def split: option.splits)

lemma ukfs_fuse_free_req [simp]: "ukfs (fuse_free_req a w) = ukfs w"
  by (auto simp: fuse_free_req_def with_req_def deref_def req_mod_def destroy_req_def Let_def
      fuse_chan_put_def split: option.splits)

lemma ukfs_send_reply_iov: "ukfs (snd (send_reply_iov a e iov w)) = ukfs w"
  by (simp add: send_reply_iov_def fuse_send_reply_iov_nofree_def with_req_int_def Let_def
      ukfs_fuse_send_msg split: prod.splits option.splits)
    (metis ukfs_fuse_send_msg snd_conv ukfs_raise_fault)

lemma ukfs_send_reply_ok: "ukfs (snd (send_reply_ok a arg w)) = ukfs w"
  by (auto simp: send_reply_ok_def send_reply_def with_req_int_def ukfs_send_reply_iov
      split: option.splits)

section \<open>Properties\<close>

text \<open>\<^bold>\<open>C10\<close> Each of the five replies ported to the driver, given once for a live request, stores its result
  in the driver's request, wakes the driver exactly once, frees the library's request and changes
  nothing else. When memory for the result runs out the driver sees \<open>-ENOMEM\<close>.\<close>

theorem ported_replies_complete:
  assumes "live_req w a p" and "n \<le> length b" and "ep_ino e \<noteq> 0 \<or> proto_minor (conn w) \<ge> 4"
  defines "ok \<equiv> malloc_ok (plat w) (nmalloc w)"
  defines "err \<equiv> (if ok then 0 else - ENOMEM)"
  shows "completes a p (- c) RNull 0 w (snd (fuse_reply_err a c w)) \<and>
    completes a p err (if ok then REntry e else RNull) (sizeof_entry_param (plat w)) w (snd (fuse_reply_entry a e w)) \<and>
    completes a p err (if ok then RStat st else RNull) (sizeof_stat (plat w)) w (snd (fuse_reply_attr a st t w)) \<and>
    completes a p err (if ok then ROpen (fill_open zero_open_out fi) else RNull) (if ok then 16 else 0) w
      (snd (fuse_reply_open a fi w)) \<and>
    completes a p (if n = 0 then 0 else err) (if ok then RBytes (take n b) else RNull) n w
      (snd (fuse_reply_buf a (Some b) n w))"
  using fuse_reply_err_completes(2) [OF assms(1)] fuse_reply_entry_completes(2) [OF assms(1,3)]
    fuse_reply_attr_completes(2) [OF assms(1)] fuse_reply_open_completes(2) [OF assms(1)]
    fuse_reply_buf_completes(2) [OF assms(1,2)] assms(2)
  unfolding ok_def err_def reply_result_def buf_result_def by (auto split: if_splits)

theorem ported_replies_complete_witness:
  defines "w \<equiv> demo_world\<lparr>reqs := [2 \<mapsto> zero_req\<lparr>rq_ref_cnt := 1, rq_ukfs_req := Some 3\<rparr>],
    ukfs := [3 \<mapsto> \<lparr>ur_opcode = 1, ur_unique = 1, ur_in = In_getattr 1, ur_error = 0, ur_reply_data = RNull, ur_reply_len = 0, ur_done = 0\<rparr>]\<rparr>"
  shows "completes 2 3 (- ENOENT) RNull 0 w (snd (fuse_reply_err 2 ENOENT w)) \<and>
    completes 2 3 0 (RBytes [1, 2]) 2 w (snd (fuse_reply_buf 2 (Some [1, 2, 3]) 2 w))"
proof -
  have "live_req w 2 3" by (simp add: w_def live_req_def zero_req_def)
  from ported_replies_complete [OF this, of 2 "[1, 2, 3]" "zero_entry_param\<lparr>ep_ino := 1\<rparr>" ENOENT] show ?thesis
    by (simp add: w_def demo_world_simps demo_platform_def)
qed

text \<open>The replies that were not ported: each of them only writes to the device (\<^verbatim>\<open>fuse_reply_none\<close> not even that), so
  the driver's requests stay as they were, its semaphore included.\<close>

datatype device_reply =
    Reply_iov "byte list list"
  | Reply_create fuse_entry_param fuse_file_info
  | Reply_readlink "byte list"
  | Reply_write u64
  | Reply_statfs statvfs
  | Reply_xattr u64
  | Reply_lock flock
  | Reply_bmap u64
  | Reply_ioctl_retry "(u64 \<times> u64) list" "(u64 \<times> u64) list"
  | Reply_ioctl int "byte list"
  | Reply_ioctl_iov int "byte list list"
  | Reply_poll u32
  | Reply_lseek u64
  | Reply_statx
  | Reply_none

fun give_reply :: "device_reply \<Rightarrow> addr \<Rightarrow> 'u fuse_world \<Rightarrow> 'u fuse_world" where
  "give_reply (Reply_iov iov) a w = snd (fuse_reply_iov a iov w)"
| "give_reply (Reply_create e f) a w = snd (fuse_reply_create a e f w)"
| "give_reply (Reply_readlink name) a w = snd (fuse_reply_readlink a name w)"
| "give_reply (Reply_write n) a w = snd (fuse_reply_write a n w)"
| "give_reply (Reply_statfs sv) a w = snd (fuse_reply_statfs a sv w)"
| "give_reply (Reply_xattr n) a w = snd (fuse_reply_xattr a n w)"
| "give_reply (Reply_lock lk) a w = snd (fuse_reply_lock a lk w)"
| "give_reply (Reply_bmap i) a w = snd (fuse_reply_bmap a i w)"
| "give_reply (Reply_ioctl_retry iin iout) a w = snd (fuse_reply_ioctl_retry a iin iout w)"
| "give_reply (Reply_ioctl res buf) a w = snd (fuse_reply_ioctl a res buf w)"
| "give_reply (Reply_ioctl_iov res iov) a w = snd (fuse_reply_ioctl_iov a res iov w)"
| "give_reply (Reply_poll ev) a w = snd (fuse_reply_poll a ev w)"
| "give_reply (Reply_lseek off) a w = snd (fuse_reply_lseek a off w)"
| "give_reply Reply_statx a w = snd (fuse_reply_statx a w)"
| "give_reply Reply_none a w = fuse_reply_none a w"

lemmas device_reply_defs =
  fuse_reply_iov_def fuse_reply_create_def fuse_reply_readlink_def fuse_reply_write_def do_fuse_reply_copy_def do_fuse_reply_write_def
  fuse_reply_statfs_def fuse_reply_xattr_def fuse_reply_lock_def fuse_reply_bmap_def fuse_reply_ioctl_retry_def
  fuse_ioctl_iovec_copy_def fuse_reply_ioctl_def fuse_reply_ioctl_iov_def fuse_reply_poll_def fuse_reply_lseek_def
  fuse_reply_statx_def fuse_reply_none_def

lemma device_replies_do_not_wake:
  assumes "\<forall>n. malloc_ok (plat w) n"
  shows "ukfs (give_reply d a w) = ukfs w"
  using assms
  by (cases d) (auto simp: device_reply_defs with_req_int_def try_malloc_def Let_def ukfs_send_reply_ok ukfs_send_reply_iov split: option.splits)

end
