(* ===== verification/Fuse_Buffer.thy ===== *)
theory Fuse_Buffer
  imports Fuse_Prelude
begin

text \<open>
  Buffers and buffer vectors of \<^verbatim>\<open>libs/libfuse/include/fuse/fuse_common.h\<close>, and the copying functions of
  \<^verbatim>\<open>libs/libfuse/lib/buffer.c\<close>. The type of the memory pointer is a parameter: the dispatcher and the
  handlers only read through it, so there a pointer is the block it points into. The copying functions
  may be given overlapping memory; for them a pointer is an address and memory a map from addresses to
  bytes, where an address without a byte may not be touched.

  Parameters: the system calls on file descriptors (\<open>os_fd\<close>), on a state of their own. \<^verbatim>\<open>splice\<close> is one of them if
  \<^verbatim>\<open>HAVE_SPLICE\<close> is defined; the port does not define it. The result \<open>None\<close> of a function stands for a failed assertion, an access outside of the
  mapped memory, a \<^verbatim>\<open>memcpy\<close> between regions that overlap, or a loop that does not end.
\<close>

section \<open>Types\<close>

abbreviation FUSE_BUF_IS_FD :: u32 where "FUSE_BUF_IS_FD \<equiv> 2"
abbreviation FUSE_BUF_FD_SEEK :: u32 where "FUSE_BUF_FD_SEEK \<equiv> 4"
abbreviation FUSE_BUF_FD_RETRY :: u32 where "FUSE_BUF_FD_RETRY \<equiv> 8"
abbreviation FUSE_BUF_NO_SPLICE :: u32 where "FUSE_BUF_NO_SPLICE \<equiv> 2"
abbreviation FUSE_BUF_FORCE_SPLICE :: u32 where "FUSE_BUF_FORCE_SPLICE \<equiv> 4"
abbreviation FUSE_BUF_SPLICE_MOVE :: u32 where "FUSE_BUF_SPLICE_MOVE \<equiv> 8"
abbreviation FUSE_BUF_SPLICE_NONBLOCK :: u32 where "FUSE_BUF_SPLICE_NONBLOCK \<equiv> 16"
abbreviation SPLICE_F_MOVE :: u32 where "SPLICE_F_MOVE \<equiv> 1"
abbreviation SPLICE_F_NONBLOCK :: u32 where "SPLICE_F_NONBLOCK \<equiv> 2"

record 'p fuse_buf =
  fb_size :: u64
  fb_flags :: u32
  fb_mem :: 'p
  fb_fd :: int
  fb_pos :: u64
  fb_mem_size :: u64

record 'p fuse_bufvec =
  bv_count :: u64
  bv_idx :: u64
  bv_off :: u64
  bv_buf :: "'p fuse_buf list"

definition bufvec_of :: "'p fuse_buf \<Rightarrow> 'p fuse_bufvec" where
  "bufvec_of b = \<lparr>bv_count = 1, bv_idx = 0, bv_off = 0, bv_buf = [b]\<rparr>"

type_synonym mem = "nat \<rightharpoonup> byte"

text \<open>The system calls: an error number, or the number of bytes written or the bytes read. A call with a
  position is \<^verbatim>\<open>pread\<close> or \<^verbatim>\<open>pwrite\<close>. \<open>os_splice\<close> is there if \<^verbatim>\<open>HAVE_SPLICE\<close> is defined: the descriptors, each with a position
  or without one, the length and the flags; the result is the number of bytes moved.\<close>

record 's os_fd =
  os_write :: "int \<Rightarrow> byte list \<Rightarrow> u64 option \<Rightarrow> 's \<Rightarrow> (int + nat) \<times> 's"
  os_read :: "int \<Rightarrow> nat \<Rightarrow> u64 option \<Rightarrow> 's \<Rightarrow> (int + byte list) \<times> 's"
  os_splice :: "(int \<Rightarrow> u64 option \<Rightarrow> int \<Rightarrow> u64 option \<Rightarrow> nat \<Rightarrow> u32 \<Rightarrow> 's \<Rightarrow> (int + nat) \<times> 's) option"

record 's mem_os =
  mo_mem :: mem
  mo_os :: 's

section \<open>Memory\<close>

definition ld :: "mem \<Rightarrow> nat \<Rightarrow> nat \<Rightarrow> byte list option" where
  "ld m p n = (if list_all (\<lambda>a. m a \<noteq> None) [p..<p + n] then Some (map (\<lambda>a. the (m a)) [p..<p + n]) else None)"

definition st :: "mem \<Rightarrow> nat \<Rightarrow> byte list \<Rightarrow> mem option" where
  "st m p bs =
     (if list_all (\<lambda>a. m a \<noteq> None) [p..<p + length bs]
      then Some (\<lambda>a. if p \<le> a \<and> a < p + length bs then Some (bs ! (a - p)) else m a) else None)"

section \<open>Operations\<close>

text \<open>The sum saturates at \<^verbatim>\<open>SIZE_MAX\<close>.\<close>

fun buf_size_from :: "'p fuse_buf list \<Rightarrow> u64 \<Rightarrow> u64" where
  "buf_size_from [] sz = sz"
| "buf_size_from (b # bs) sz =
     (if fb_size b \<ge> - 1 - sz then - 1 else buf_size_from bs (sz + fb_size b))"

definition fuse_buf_size :: "'p fuse_bufvec \<Rightarrow> u64" where
  "fuse_buf_size bufv = buf_size_from (take (unat (bv_count bufv)) (bv_buf bufv)) 0"

definition min_size :: "u64 \<Rightarrow> u64 \<Rightarrow> u64" where
  "min_size s1 s2 = (if s1 < s2 then s1 else s2)"

partial_function (option) buf_write_loop :: "'s os_fd \<Rightarrow> nat fuse_buf \<Rightarrow> u64 \<Rightarrow> nat fuse_buf \<Rightarrow> u64 \<Rightarrow> u64 \<Rightarrow> u64 \<Rightarrow>
    's mem_os \<Rightarrow> (int \<times> 's mem_os) option" where
  "buf_write_loop os dst dst_off src src_off len copied s =
     (if len = 0 then Some (sint copied, s)
      else
        (case ld (mo_mem s) (fb_mem src + unat src_off) (unat len) of
           None \<Rightarrow> None
         | Some d \<Rightarrow>
             (let pos = (if has_bits (fb_flags dst) FUSE_BUF_FD_SEEK then Some (fb_pos dst + dst_off) else None);
                  (res, os_s) = os_write os (fb_fd dst) d pos (mo_os s);
                  s = s\<lparr>mo_os := os_s\<rparr>
              in case res of
                   Inl err \<Rightarrow> Some (if copied = 0 then - err else sint copied, s)
                 | Inr n \<Rightarrow>
                     if n = 0 then Some (sint copied, s)
                     else
                       (let copied = copied + of_nat n
                        in if \<not> has_bits (fb_flags dst) FUSE_BUF_FD_RETRY then Some (sint copied, s)
                           else buf_write_loop os dst (dst_off + of_nat n) src (src_off + of_nat n)
                                  (len - of_nat n) copied s))))"

definition fuse_buf_write :: "'s os_fd \<Rightarrow> nat fuse_buf \<Rightarrow> u64 \<Rightarrow> nat fuse_buf \<Rightarrow> u64 \<Rightarrow> u64 \<Rightarrow>
    's mem_os \<Rightarrow> (int \<times> 's mem_os) option" where
  "fuse_buf_write os dst dst_off src src_off len = buf_write_loop os dst dst_off src src_off len 0"

partial_function (option) buf_read_loop :: "'s os_fd \<Rightarrow> nat fuse_buf \<Rightarrow> u64 \<Rightarrow> nat fuse_buf \<Rightarrow> u64 \<Rightarrow> u64 \<Rightarrow> u64 \<Rightarrow>
    's mem_os \<Rightarrow> (int \<times> 's mem_os) option" where
  "buf_read_loop os dst dst_off src src_off len copied s =
     (if len = 0 then Some (sint copied, s)
      else
        (let pos = (if has_bits (fb_flags src) FUSE_BUF_FD_SEEK then Some (fb_pos src + src_off) else None);
             (res, os_s) = os_read os (fb_fd src) (unat len) pos (mo_os s);
             s = s\<lparr>mo_os := os_s\<rparr>
         in case res of
              Inl err \<Rightarrow> Some (if copied = 0 then - err else sint copied, s)
            | Inr d \<Rightarrow>
                (case st (mo_mem s) (fb_mem dst + unat dst_off) d of
                   None \<Rightarrow> None
                 | Some m \<Rightarrow>
                     (let s = s\<lparr>mo_mem := m\<rparr>; n = length d
                      in if n = 0 then Some (sint copied, s)
                         else
                           (let copied = copied + of_nat n
                            in if \<not> has_bits (fb_flags src) FUSE_BUF_FD_RETRY then Some (sint copied, s)
                               else buf_read_loop os dst (dst_off + of_nat n) src (src_off + of_nat n)
                                      (len - of_nat n) copied s)))))"

definition fuse_buf_read :: "'s os_fd \<Rightarrow> nat fuse_buf \<Rightarrow> u64 \<Rightarrow> nat fuse_buf \<Rightarrow> u64 \<Rightarrow> u64 \<Rightarrow>
    's mem_os \<Rightarrow> (int \<times> 's mem_os) option" where
  "fuse_buf_read os dst dst_off src src_off len = buf_read_loop os dst dst_off src src_off len 0"

text \<open>The local array of \<^verbatim>\<open>fuse_buf_fd_to_fd\<close> lies at the address \<open>tmp\<close>, which the caller gives (the stack);
  its bytes are mapped.\<close>

definition tmp_buf :: "nat \<Rightarrow> nat fuse_buf" where
  "tmp_buf tmp = \<lparr>fb_size = 4096, fb_flags = 0, fb_mem = tmp, fb_fd = 0, fb_pos = 0, fb_mem_size = 0\<rparr>"

partial_function (option) fd_to_fd_loop :: "'s os_fd \<Rightarrow> nat \<Rightarrow> nat fuse_buf \<Rightarrow> u64 \<Rightarrow> nat fuse_buf \<Rightarrow> u64 \<Rightarrow> u64 \<Rightarrow>
    u64 \<Rightarrow> 's mem_os \<Rightarrow> (int \<times> 's mem_os) option" where
  "fd_to_fd_loop os tmp dst dst_off src src_off len copied s =
     (if len = 0 then Some (sint copied, s)
      else
        (let this_len = min_size 4096 len
         in case fuse_buf_read os (tmp_buf tmp) 0 src src_off this_len s of
              None \<Rightarrow> None
            | Some (res, s) \<Rightarrow>
                if res < 0 then Some (if copied = 0 then res else sint copied, s)
                else if res = 0 then Some (sint copied, s)
                else
                  (case fuse_buf_write os dst dst_off (tmp_buf tmp) 0 (of_int res) s of
                     None \<Rightarrow> None
                   | Some (res, s) \<Rightarrow>
                       if res < 0 then Some (if copied = 0 then res else sint copied, s)
                       else if res = 0 then Some (sint copied, s)
                       else
                         (let n = of_int res; copied = copied + n
                          in if n < this_len then Some (sint copied, s)
                             else fd_to_fd_loop os tmp dst (dst_off + n) src (src_off + n) (len - n) copied s))))"

definition fuse_buf_fd_to_fd :: "'s os_fd \<Rightarrow> nat \<Rightarrow> nat fuse_buf \<Rightarrow> u64 \<Rightarrow> nat fuse_buf \<Rightarrow> u64 \<Rightarrow> u64 \<Rightarrow>
    's mem_os \<Rightarrow> (int \<times> 's mem_os) option" where
  "fuse_buf_fd_to_fd os tmp dst dst_off src src_off len = fd_to_fd_loop os tmp dst dst_off src src_off len 0"

text \<open>The positions are variables of the function that \<^verbatim>\<open>splice\<close> moves on.\<close>

partial_function (option) buf_splice_loop :: "(int \<Rightarrow> u64 option \<Rightarrow> int \<Rightarrow> u64 option \<Rightarrow> nat \<Rightarrow> u32 \<Rightarrow> 's \<Rightarrow> (int + nat) \<times> 's) \<Rightarrow>
    's os_fd \<Rightarrow> nat \<Rightarrow> nat fuse_buf \<Rightarrow> u64 \<Rightarrow> nat fuse_buf \<Rightarrow> u64 \<Rightarrow> u32 \<Rightarrow> u32 \<Rightarrow> u64 option \<Rightarrow> u64 option \<Rightarrow> u64 \<Rightarrow> u64 \<Rightarrow>
    's mem_os \<Rightarrow> (int \<times> 's mem_os) option" where
  "buf_splice_loop spl os tmp dst dst_off src src_off flags splice_flags srcpos dstpos len copied s =
     (if len = 0 then Some (sint copied, s)
      else
        (let (res, os_s) = spl (fb_fd src) srcpos (fb_fd dst) dstpos (unat len) splice_flags (mo_os s);
             s = s\<lparr>mo_os := os_s\<rparr>
         in case res of
              Inl err \<Rightarrow>
                if copied \<noteq> 0 then Some (sint copied, s)
                else if err \<noteq> EINVAL \<or> has_bits flags FUSE_BUF_FORCE_SPLICE then Some (- err, s)
                else fuse_buf_fd_to_fd os tmp dst dst_off src src_off len s
            | Inr n \<Rightarrow>
                if n = 0 then Some (sint copied, s)
                else
                  (let copied = copied + of_nat n
                   in if \<not> has_bits (fb_flags src) FUSE_BUF_FD_RETRY \<and> \<not> has_bits (fb_flags dst) FUSE_BUF_FD_RETRY
                      then Some (sint copied, s)
                      else buf_splice_loop spl os tmp dst dst_off src src_off flags splice_flags
                             (map_option (\<lambda>p. p + of_nat n) srcpos) (map_option (\<lambda>p. p + of_nat n) dstpos) (len - of_nat n) copied s)))"

definition fuse_buf_splice :: "'s os_fd \<Rightarrow> nat \<Rightarrow> nat fuse_buf \<Rightarrow> u64 \<Rightarrow> nat fuse_buf \<Rightarrow> u64 \<Rightarrow> u64 \<Rightarrow> u32 \<Rightarrow>
    's mem_os \<Rightarrow> (int \<times> 's mem_os) option" where
  "fuse_buf_splice os tmp dst dst_off src src_off len flags s =
     (case os_splice os of
        None \<Rightarrow> fuse_buf_fd_to_fd os tmp dst dst_off src src_off len s
      | Some spl \<Rightarrow>
          (let splice_flags = (if has_bits flags FUSE_BUF_SPLICE_MOVE then SPLICE_F_MOVE else 0) OR
                 (if has_bits flags FUSE_BUF_SPLICE_NONBLOCK then SPLICE_F_NONBLOCK else 0);
               srcpos = (if has_bits (fb_flags src) FUSE_BUF_FD_SEEK then Some (fb_pos src + src_off) else None);
               dstpos = (if has_bits (fb_flags dst) FUSE_BUF_FD_SEEK then Some (fb_pos dst + dst_off) else None)
           in buf_splice_loop spl os tmp dst dst_off src src_off flags splice_flags srcpos dstpos len 0 s))"

text \<open>\<^verbatim>\<open>memmove\<close> of the C library reads everything before it writes; the effect of \<^verbatim>\<open>memcpy\<close> is not defined when the regions
  overlap, which is \<open>None\<close>.\<close>

definition memmove :: "mem \<Rightarrow> nat \<Rightarrow> nat \<Rightarrow> nat \<Rightarrow> mem option" where
  "memmove m p q n = Option.bind (ld m q n) (st m p)"

definition memcpy :: "mem \<Rightarrow> nat \<Rightarrow> nat \<Rightarrow> nat \<Rightarrow> mem option" where
  "memcpy m p q n = (if p < q + n \<and> q < p + n then None else memmove m p q n)"

definition fuse_buf_copy_one :: "'s os_fd \<Rightarrow> nat \<Rightarrow> nat fuse_buf \<Rightarrow> u64 \<Rightarrow> nat fuse_buf \<Rightarrow> u64 \<Rightarrow> u64 \<Rightarrow> u32 \<Rightarrow>
    's mem_os \<Rightarrow> (int \<times> 's mem_os) option" where
  "fuse_buf_copy_one os tmp dst dst_off src src_off len flags s =
     (let src_is_fd = has_bits (fb_flags src) FUSE_BUF_IS_FD;
          dst_is_fd = has_bits (fb_flags dst) FUSE_BUF_IS_FD
      in if \<not> src_is_fd \<and> \<not> dst_is_fd then
           (let dstmem = fb_mem dst + unat dst_off; srcmem = fb_mem src + unat src_off
            in if dstmem \<noteq> srcmem then
                 (case (if dstmem + unat len \<le> srcmem \<or> srcmem + unat len \<le> dstmem
                        then memcpy (mo_mem s) dstmem srcmem (unat len)
                        else memmove (mo_mem s) dstmem srcmem (unat len)) of
                    None \<Rightarrow> None
                  | Some m \<Rightarrow> Some (sint len, s\<lparr>mo_mem := m\<rparr>))
               else Some (sint len, s))
         else if \<not> src_is_fd then fuse_buf_write os dst dst_off src src_off len s
         else if \<not> dst_is_fd then fuse_buf_read os dst dst_off src src_off len s
         else if has_bits flags FUSE_BUF_NO_SPLICE then fuse_buf_fd_to_fd os tmp dst dst_off src src_off len s
         else fuse_buf_splice os tmp dst dst_off src src_off len flags s)"

text \<open>The current buffer; a count beyond the array is not checked by the code.\<close>

definition fuse_bufvec_current :: "'p fuse_bufvec \<Rightarrow> 'p fuse_buf option option" where
  "fuse_bufvec_current bufv =
     (if bv_idx bufv < bv_count bufv then
        (if unat (bv_idx bufv) < length (bv_buf bufv) then Some (Some (bv_buf bufv ! unat (bv_idx bufv))) else None)
      else Some None)"

definition fuse_bufvec_advance :: "'p fuse_bufvec \<Rightarrow> u64 \<Rightarrow> (bool \<times> 'p fuse_bufvec) option" where
  "fuse_bufvec_advance bufv len =
     (case fuse_bufvec_current bufv of
        None \<Rightarrow> None
      | Some None \<Rightarrow> Some (False, bufv)
      | Some (Some buf) \<Rightarrow>
          (let bufv = bufv\<lparr>bv_off := bv_off bufv + len\<rparr>
           in if \<not> bv_off bufv \<le> fb_size buf then None
              else if bv_off bufv = fb_size buf then
                (let bufv = bufv\<lparr>bv_idx := bv_idx bufv + 1\<rparr>
                 in if bv_idx bufv = bv_count bufv then Some (False, bufv)
                    else Some (True, bufv\<lparr>bv_off := 0\<rparr>))
              else Some (True, bufv)))"

partial_function (option) buf_copy_loop :: "'s os_fd \<Rightarrow> nat \<Rightarrow> nat fuse_bufvec \<Rightarrow> nat fuse_bufvec \<Rightarrow> u32 \<Rightarrow> u64 \<Rightarrow>
    's mem_os \<Rightarrow> (int \<times> nat fuse_bufvec \<times> nat fuse_bufvec \<times> 's mem_os) option" where
  "buf_copy_loop os tmp dstv srcv flags copied s =
     Option.bind (fuse_bufvec_current srcv) (\<lambda>src. Option.bind (fuse_bufvec_current dstv) (\<lambda>dst.
       case (src, dst) of
         (Some src, Some dst) \<Rightarrow>
           (let len = min_size (fb_size src - bv_off srcv) (fb_size dst - bv_off dstv)
            in Option.bind (fuse_buf_copy_one os tmp dst (bv_off dstv) src (bv_off srcv) len flags s) (\<lambda>(res, s).
                 if res < 0 then Some (if copied = 0 then res else sint copied, dstv, srcv, s)
                 else
                   (let n = of_int res; copied = copied + n
                    in Option.bind (fuse_bufvec_advance srcv n) (\<lambda>(more, srcv).
                         if \<not> more then Some (sint copied, dstv, srcv, s)
                         else Option.bind (fuse_bufvec_advance dstv n) (\<lambda>(more, dstv).
                           if \<not> more then Some (sint copied, dstv, srcv, s)
                           else if n < len then Some (sint copied, dstv, srcv, s)
                           else buf_copy_loop os tmp dstv srcv flags copied s)))))
       | _ \<Rightarrow> Some (sint copied, dstv, srcv, s)))"

text \<open>\<open>same\<close>: whether both pointers are the same vector.\<close>

definition fuse_buf_copy :: "'s os_fd \<Rightarrow> nat \<Rightarrow> bool \<Rightarrow> nat fuse_bufvec \<Rightarrow> nat fuse_bufvec \<Rightarrow> u32 \<Rightarrow> 's mem_os \<Rightarrow>
    (int \<times> nat fuse_bufvec \<times> nat fuse_bufvec \<times> 's mem_os) option" where
  "fuse_buf_copy os tmp same dstv srcv flags s =
     (if same then Some (sint (fuse_buf_size dstv), dstv, srcv, s)
      else buf_copy_loop os tmp dstv srcv flags 0 s)"

section \<open>Sizes\<close>

lemma unat_buf_size_from:
  "unat (buf_size_from bs sz) = min (unat sz + sum_list (map (unat \<circ> fb_size) bs)) (2 ^ 64 - 1)"
proof (induction bs arbitrary: sz)
  case Nil
  have "unat sz < 2 ^ 64" by (rule order_less_le_trans [OF unsigned_less]) simp
  then show ?case by simp
next
  case (Cons b bs)
  have lt: "unat sz < 2 ^ 64" by (rule order_less_le_trans [OF unsigned_less]) simp
  have m: "unat (- 1 - sz) = 2 ^ 64 - 1 - unat sz"
    using lt by (simp add: unat_sub word_le_nat_alt unsigned_minus_1_eq_mask mask_eq_exp_minus_1)
  show ?case
  proof (cases "fb_size b \<ge> - 1 - sz")
    case True
    then have "2 ^ 64 - 1 \<le> unat sz + unat (fb_size b)" using m by (simp add: word_le_nat_alt)
    then show ?thesis using True by (simp add: unsigned_minus_1_eq_mask mask_eq_exp_minus_1)
  next
    case False
    then have "unat sz + unat (fb_size b) < 2 ^ 64 - 1" using m by (simp add: word_le_nat_alt)
    then have "unat (sz + fb_size b) = unat sz + unat (fb_size b)"
      by (simp add: unat_word_ariths take_bit_nat_eq_self)
    then show ?thesis using False Cons.IH [of "sz + fb_size b"] by simp
  qed
qed

section \<open>Copying in memory\<close>

text \<open>The addresses that are still to be copied, in order.\<close>

definition buf_addrs :: "nat fuse_buf \<Rightarrow> nat list" where
  "buf_addrs b = [fb_mem b..<fb_mem b + unat (fb_size b)]"

definition vec_addrs :: "nat fuse_bufvec \<Rightarrow> nat list" where
  "vec_addrs bv =
     (case drop (unat (bv_idx bv)) (bv_buf bv) of
        [] \<Rightarrow> []
      | b # bs \<Rightarrow> drop (unat (bv_off bv)) (buf_addrs b) @ concat (map buf_addrs bs))"

text \<open>A vector of memory buffers whose position is inside of it.\<close>

definition mem_vec :: "nat fuse_bufvec \<Rightarrow> bool" where
  "mem_vec bv \<longleftrightarrow> unat (bv_count bv) = length (bv_buf bv) \<and> bv_idx bv \<le> bv_count bv \<and>
     (\<forall>b \<in> set (bv_buf bv). \<not> has_bits (fb_flags b) FUSE_BUF_IS_FD) \<and>
     (bv_idx bv < bv_count bv \<longrightarrow> bv_off bv \<le> fb_size (bv_buf bv ! unat (bv_idx bv)))"

lemma mem_vec_current:
  assumes "mem_vec bv"
  shows "fuse_bufvec_current bv =
    Some (if unat (bv_idx bv) < length (bv_buf bv) then Some (bv_buf bv ! unat (bv_idx bv)) else None)"
  using assms by (auto simp: mem_vec_def fuse_bufvec_current_def word_less_nat_alt)

lemma vec_addrs_end: "mem_vec bv \<Longrightarrow> \<not> unat (bv_idx bv) < length (bv_buf bv) \<Longrightarrow> vec_addrs bv = []"
  by (simp add: vec_addrs_def)

lemma vec_addrs_current:
  assumes "mem_vec bv" and i: "unat (bv_idx bv) < length (bv_buf bv)"
  defines "b \<equiv> bv_buf bv ! unat (bv_idx bv)"
  shows "vec_addrs bv = [fb_mem b + unat (bv_off bv)..<fb_mem b + unat (fb_size b)] @
      concat (map buf_addrs (drop (Suc (unat (bv_idx bv))) (bv_buf bv)))"
    and "unat (bv_off bv) \<le> unat (fb_size b)" and "\<not> has_bits (fb_flags b) FUSE_BUF_IS_FD"
proof -
  have o: "unat (bv_off bv) \<le> unat (fb_size b)"
    using assms by (auto simp: mem_vec_def word_le_nat_alt word_less_nat_alt)
  then show "unat (bv_off bv) \<le> unat (fb_size b)" .
  show "vec_addrs bv = [fb_mem b + unat (bv_off bv)..<fb_mem b + unat (fb_size b)] @
      concat (map buf_addrs (drop (Suc (unat (bv_idx bv))) (bv_buf bv)))"
    using o by (simp add: vec_addrs_def buf_addrs_def b_def drop_upt flip: Cons_nth_drop_Suc [OF i])
  show "\<not> has_bits (fb_flags b) FUSE_BUF_IS_FD" using assms(1) nth_mem [OF i] by (auto simp: mem_vec_def b_def)
qed

text \<open>The same as ranges of addresses and lengths, one for each buffer that is left.\<close>

definition vec_ranges :: "nat fuse_bufvec \<Rightarrow> (nat \<times> nat) list" where
  "vec_ranges bv =
     (case drop (unat (bv_idx bv)) (bv_buf bv) of
        [] \<Rightarrow> []
      | b # bs \<Rightarrow> (fb_mem b + unat (bv_off bv), unat (fb_size b) - unat (bv_off bv)) # map (\<lambda>b. (fb_mem b, unat (fb_size b))) bs)"

definition range_addrs :: "(nat \<times> nat) list \<Rightarrow> nat list" where
  "range_addrs rs = concat (map (\<lambda>(p, n). [p..<p + n]) rs)"

lemma range_addrs_simps [simp]: "range_addrs [] = []" "range_addrs ((p, n) # rs) = [p..<p + n] @ range_addrs rs"
  by (simp_all add: range_addrs_def)

lemma vec_ranges_current:
  assumes "mem_vec bv" and i: "unat (bv_idx bv) < length (bv_buf bv)"
  shows "vec_ranges bv = (fb_mem (bv_buf bv ! unat (bv_idx bv)) + unat (bv_off bv), unat (fb_size (bv_buf bv ! unat (bv_idx bv))) - unat (bv_off bv)) #
    map (\<lambda>b. (fb_mem b, unat (fb_size b))) (drop (Suc (unat (bv_idx bv))) (bv_buf bv))"
  by (simp add: vec_ranges_def flip: Cons_nth_drop_Suc [OF i])

lemma vec_addrs_ranges:
  assumes "mem_vec bv"
  shows "vec_addrs bv = range_addrs (vec_ranges bv)"
proof (cases "unat (bv_idx bv) < length (bv_buf bv)")
  case True
  have "concat (map buf_addrs bs) = range_addrs (map (\<lambda>b. (fb_mem b, unat (fb_size b))) bs)" for bs
    by (induction bs) (simp_all add: buf_addrs_def)
  then show ?thesis using vec_addrs_current(1,2) [OF assms True] by (simp add: vec_ranges_current [OF assms True])
next
  case False
  then show ?thesis by (simp add: vec_addrs_def vec_ranges_def)
qed

text \<open>Advancing by a part of the current buffer, or by all of it, and whether the vector goes on.\<close>

lemma advance_ranges:
  assumes v: "mem_vec bv" and r: "vec_ranges bv = (p, n) # rs" and l: "unat len \<le> n"
  obtains more bv' where "fuse_bufvec_advance bv len = Some (more, bv')" "mem_vec bv'"
    "more \<longleftrightarrow> unat len < n \<or> rs \<noteq> []"
    "more \<Longrightarrow> vec_ranges bv' = (if unat len = n then rs else (p + unat len, n - unat len) # rs) \<and> bv_buf bv' = bv_buf bv \<and>
       (if unat len = n then unat (bv_idx bv') = Suc (unat (bv_idx bv)) else bv_idx bv' = bv_idx bv)"
proof -
  have i: "unat (bv_idx bv) < length (bv_buf bv)"
  proof (rule ccontr)
    assume "\<not> unat (bv_idx bv) < length (bv_buf bv)"
    then show False using r by (simp add: vec_ranges_def)
  qed
  let ?b = "bv_buf bv ! unat (bv_idx bv)" let ?bs = "drop (Suc (unat (bv_idx bv))) (bv_buf bv)"
  note cur = mem_vec_current [OF v] and o = vec_addrs_current(2) [OF v i]
  have pn: "p = fb_mem ?b + unat (bv_off bv)" "n = unat (fb_size ?b) - unat (bv_off bv)" "rs = map (\<lambda>b. (fb_mem b, unat (fb_size b))) ?bs"
    using r vec_ranges_current [OF v i] by simp_all
  have c: "unat (bv_count bv) = length (bv_buf bv)" using v by (simp add: mem_vec_def)
  have s64: "unat (fb_size ?b) < 2 ^ 64" "unat (bv_count bv) < 2 ^ 64"
    by (rule order_less_le_trans [OF unsigned_less], simp)+
  have uo: "unat (bv_off bv + len) = unat (bv_off bv) + unat len"
    using l pn(2) o s64 by (simp add: unat_word_ariths take_bit_nat_eq_self)
  have ui: "unat (bv_idx bv + 1) = Suc (unat (bv_idx bv))"
    using i c s64 by (simp add: unat_word_ariths take_bit_nat_eq_self)
  have le: "bv_off bv + len \<le> fb_size ?b" using l uo o pn(2) by (simp add: word_le_nat_alt)
  have full: "bv_off bv + len = fb_size ?b \<longleftrightarrow> unat len = n" using uo o pn(2) l by (auto simp: unsigned_word_eqI intro: unsigned_word_eqI)
  have last: "bv_idx bv + 1 = bv_count bv \<longleftrightarrow> rs = []"
  proof -
    have "bv_idx bv + 1 = bv_count bv \<longleftrightarrow> Suc (unat (bv_idx bv)) = length (bv_buf bv)" using ui c by (metis unsigned_word_eqI)
    then show ?thesis using i pn(3) by auto
  qed
  show thesis
  proof (cases "unat len = n")
    case False
    let ?bv = "bv\<lparr>bv_off := bv_off bv + len\<rparr>"
    have mv: "mem_vec ?bv" using v le by (simp add: mem_vec_def)
    have "vec_ranges ?bv = (p + unat len, n - unat len) # rs"
      using vec_ranges_current [OF mv] i uo pn by simp
    moreover have "fuse_bufvec_advance bv len = Some (True, ?bv)"
      using cur i le full False by (simp add: fuse_bufvec_advance_def Let_def)
    ultimately show thesis using that mv False l by fastforce
  next
    case all: True
    show thesis
    proof (cases "rs = []")
      case True
      let ?bv = "bv\<lparr>bv_off := bv_off bv + len, bv_idx := bv_idx bv + 1\<rparr>"
      have "fuse_bufvec_advance bv len = Some (False, ?bv)"
        using cur i le full all last True by (simp add: fuse_bufvec_advance_def Let_def)
      moreover have "mem_vec ?bv" using v last True by (simp add: mem_vec_def)
      ultimately show thesis using that all True by blast
    next
      case False
      let ?bv = "bv\<lparr>bv_off := 0, bv_idx := bv_idx bv + 1\<rparr>"
      have "fuse_bufvec_advance bv len = Some (True, ?bv)"
        using cur i le full all last False by (simp add: fuse_bufvec_advance_def Let_def)
      moreover have lt: "Suc (unat (bv_idx bv)) < length (bv_buf bv)" using False pn(3) by simp
      moreover have mv: "mem_vec ?bv" using v lt ui c by (auto simp: mem_vec_def word_le_nat_alt word_less_nat_alt)
      moreover have "vec_ranges ?bv = rs" using ui lt pn(3) by (simp add: vec_ranges_def flip: Cons_nth_drop_Suc [OF lt])
      ultimately show thesis using that all False ui by simp
    qed
  qed
qed

lemma advance_addrs:
  assumes v: "mem_vec bv" and i: "unat (bv_idx bv) < length (bv_buf bv)"
    and l: "unat (bv_off bv) + unat len \<le> unat (fb_size (bv_buf bv ! unat (bv_idx bv)))"
  obtains more bv' where "fuse_bufvec_advance bv len = Some (more, bv')" "mem_vec bv'"
    "more \<longrightarrow> vec_addrs bv' = drop (unat len) (vec_addrs bv) \<and> bv_buf bv' = bv_buf bv \<and>
       (if unat (bv_off bv) + unat len = unat (fb_size (bv_buf bv ! unat (bv_idx bv)))
        then unat (bv_idx bv') = Suc (unat (bv_idx bv)) else bv_idx bv' = bv_idx bv)"
    "\<not> more \<longrightarrow> length (vec_addrs bv) = unat len"
proof -
  let ?n = "unat (fb_size (bv_buf bv ! unat (bv_idx bv))) - unat (bv_off bv)"
  note r = vec_ranges_current [OF v i] and o = vec_addrs_current(2) [OF v i]
  have n: "unat (bv_off bv) + unat len = unat (fb_size (bv_buf bv ! unat (bv_idx bv))) \<longleftrightarrow> unat len = ?n" "unat len \<le> ?n" using o l by auto
  obtain more bv' where "fuse_bufvec_advance bv len = Some (more, bv')" "mem_vec bv'" and
    a: "more \<longleftrightarrow> unat len < ?n \<or> map (\<lambda>b. (fb_mem b, unat (fb_size b))) (drop (Suc (unat (bv_idx bv))) (bv_buf bv)) \<noteq> []"
    "more \<Longrightarrow> vec_ranges bv' = (if unat len = ?n then map (\<lambda>b. (fb_mem b, unat (fb_size b))) (drop (Suc (unat (bv_idx bv))) (bv_buf bv))
       else (fb_mem (bv_buf bv ! unat (bv_idx bv)) + unat (bv_off bv) + unat len, ?n - unat len) #
         map (\<lambda>b. (fb_mem b, unat (fb_size b))) (drop (Suc (unat (bv_idx bv))) (bv_buf bv))) \<and> bv_buf bv' = bv_buf bv \<and>
       (if unat len = ?n then unat (bv_idx bv') = Suc (unat (bv_idx bv)) else bv_idx bv' = bv_idx bv)"
    by (rule advance_ranges [OF v r n(2)]) blast
  then show thesis using that [of more bv'] n r
    by (auto simp: vec_addrs_ranges v drop_upt split: if_splits)
qed

section \<open>What a copy does to memory\<close>

text \<open>The pieces that a copy moves one after the other: destination, source and length.\<close>

function pieces :: "(nat \<times> nat) list \<Rightarrow> (nat \<times> nat) list \<Rightarrow> (nat \<times> nat \<times> nat) list" where
  "pieces ((p, m) # D) ((q, n) # S) =
     (p, q, min m n) # pieces (if m \<le> n then D else (p + n, m - n) # D) (if n \<le> m then S else (q + m, n - m) # S)"
| "pieces [] S = []"
| "pieces D [] = []"
  by pat_completeness auto
termination by (relation "measure (\<lambda>(D, S). length D + length S)") auto

definition move_piece :: "nat \<times> nat \<times> nat \<Rightarrow> mem \<Rightarrow> mem" where
  "move_piece = (\<lambda>(p, q, n) m a. if p \<le> a \<and> a < p + n then m (q + (a - p)) else m a)"

lemma copy_one_mem:
  fixes src_off dst_off :: u64
  assumes fd: "\<not> has_bits (fb_flags src) FUSE_BUF_IS_FD" "\<not> has_bits (fb_flags dst) FUSE_BUF_IS_FD"
    and n: "unat len < 2 ^ 63"
  defines "q \<equiv> fb_mem src + unat src_off" and "p \<equiv> fb_mem dst + unat dst_off"
  assumes mapped: "\<forall>a \<in> {q..<q + unat len} \<union> {p..<p + unat len}. mo_mem s a \<noteq> None"
  shows "fuse_buf_copy_one os tmp dst dst_off src src_off len flags s =
    Some (int (unat len), s\<lparr>mo_mem := move_piece (p, q, unat len) (mo_mem s)\<rparr>)"
proof -
  let ?m = "mo_mem s" let ?n = "unat len"
  have si: "sint len = int ?n" using n by (simp add: sint_small)
  have "\<exists>y. ?m (q + x - p) = Some y" if "p \<le> x" "x < p + ?n" for x
  proof -
    have "q + x - p \<in> {q..<q + ?n}" using that by auto
    then show ?thesis using mapped by blast
  qed
  then have mv: "memmove ?m p q ?n = Some (move_piece (p, q, ?n) ?m)"
    using mapped by (fastforce simp: memmove_def ld_def st_def list_all_iff move_piece_def fun_eq_iff)
  have cp: "memcpy ?m p q ?n = Some (move_piece (p, q, ?n) ?m)" if "p + ?n \<le> q \<or> q + ?n \<le> p"
    using that by (auto simp: memcpy_def mv)
  have "move_piece (p, p, ?n) ?m = ?m" by (simp add: move_piece_def fun_eq_iff)
  then show ?thesis using fd si mv cp by (auto simp: fuse_buf_copy_one_def simp flip: p_def q_def)
qed

lemma move_piece_mapped:
  assumes "\<forall>a \<in> {p..<p + n} \<union> {q..<q + n}. m a \<noteq> None"
  shows "move_piece (p, q, n) m a = None \<longleftrightarrow> m a = None"
proof (cases "p \<le> a \<and> a < p + n")
  case True
  then have "q + (a - p) \<in> {q..<q + n}" "a \<in> {p..<p + n}" by auto
  then have "m (q + (a - p)) \<noteq> None" "m a \<noteq> None" using assms by blast+
  then show ?thesis using True by (auto simp: move_piece_def)
qed (auto simp: move_piece_def)

text \<open>The loop moves the pieces, in order, until one of the vectors is used up.\<close>

lemma buf_copy_loop_moves:
  fixes s :: "'s mem_os"
  assumes "mem_vec dstv" and "mem_vec srcv"
    and "\<forall>a \<in> set (range_addrs (vec_ranges dstv)) \<union> set (range_addrs (vec_ranges srcv)). mo_mem s a \<noteq> None"
    and "n = min (length (range_addrs (vec_ranges dstv))) (length (range_addrs (vec_ranges srcv)))" and "unat copied + n < 2 ^ 63"
  shows "\<exists>dstv' srcv'. buf_copy_loop os tmp dstv srcv flags copied s =
      Some (int (unat copied + n), dstv', srcv', s\<lparr>mo_mem := fold move_piece (pieces (vec_ranges dstv) (vec_ranges srcv)) (mo_mem s)\<rparr>)"
  using assms
proof (induction "vec_ranges dstv" "vec_ranges srcv" arbitrary: dstv srcv copied s n rule: pieces.induct)
  case (1 p m D q l S)
  note dr = 1(2) [symmetric] and sr = 1(3) [symmetric] and dv = 1(4) and sv = 1(5) and mp = 1(6) and n_def = 1(7) and n63 = 1(8)
  have i: "unat (bv_idx dstv) < length (bv_buf dstv)" "unat (bv_idx srcv) < length (bv_buf srcv)"
    using dr sr by (auto simp: vec_ranges_def not_less [symmetric] intro: ccontr)
  let ?src = "bv_buf srcv ! unat (bv_idx srcv)" let ?dst = "bv_buf dstv ! unat (bv_idx dstv)"
  note sa = vec_addrs_current(2,3) [OF sv i(2)] and da = vec_addrs_current(2,3) [OF dv i(1)]
  have pm: "p = fb_mem ?dst + unat (bv_off dstv)" "m = unat (fb_size ?dst) - unat (bv_off dstv)"
    and ql: "q = fb_mem ?src + unat (bv_off srcv)" "l = unat (fb_size ?src) - unat (bv_off srcv)"
    using dr sr vec_ranges_current [OF dv i(1)] vec_ranges_current [OF sv i(2)] by simp_all
  define len where "len = min_size (fb_size ?src - bv_off srcv) (fb_size ?dst - bv_off dstv)"
  have "unat (fb_size ?src - bv_off srcv) = l" "unat (fb_size ?dst - bv_off dstv) = m"
    using sa(1) da(1) pm(2) ql(2) by (simp_all add: unat_sub word_le_nat_alt)
  then have ul: "unat len = min m l" by (auto simp: len_def min_size_def word_less_nat_alt)
  have le: "unat len \<le> m" "unat len \<le> l" "unat len \<le> n" using ul n_def dr sr by auto
  then have l63: "unat len < 2 ^ 63" using n63 by linarith
  have mapped: "\<forall>a \<in> {q..<q + unat len} \<union> {p..<p + unat len}. mo_mem s a \<noteq> None"
    using mp le dr sr by auto
  let ?m1 = "move_piece (p, q, unat len) (mo_mem s)" let ?s1 = "s\<lparr>mo_mem := ?m1\<rparr>"
  have one: "fuse_buf_copy_one os tmp ?dst (bv_off dstv) ?src (bv_off srcv) len flags s = Some (int (unat len), ?s1)"
    using copy_one_mem [OF sa(2) da(2) l63] mapped pm ql by simp
  obtain ms srcv1 where as: "fuse_bufvec_advance srcv len = Some (ms, srcv1)" "mem_vec srcv1" "ms \<longleftrightarrow> unat len < l \<or> S \<noteq> []"
    "ms \<Longrightarrow> vec_ranges srcv1 = (if unat len = l then S else (q + unat len, l - unat len) # S)"
    by (rule advance_ranges [OF sv sr le(2)]) blast
  obtain md dstv1 where ad: "fuse_bufvec_advance dstv len = Some (md, dstv1)" "mem_vec dstv1" "md \<longleftrightarrow> unat len < m \<or> D \<noteq> []"
    "md \<Longrightarrow> vec_ranges dstv1 = (if unat len = m then D else (p + unat len, m - unat len) # D)"
    by (rule advance_ranges [OF dv dr le(1)]) blast
  let ?D1 = "if m \<le> l then D else (p + l, m - l) # D" let ?S1 = "if l \<le> m then S else (q + m, l - m) # S"
  have step: "buf_copy_loop os tmp dstv srcv flags copied s =
      (if ms \<and> md then buf_copy_loop os tmp dstv1 srcv1 flags (copied + len) ?s1
       else Some (sint (copied + len), if ms then dstv1 else dstv, srcv1, ?s1))"
    using i mem_vec_current [OF dv] mem_vec_current [OF sv] one as(1) ad(1)
    by (subst buf_copy_loop.simps) (simp add: len_def [symmetric])
  have uc: "unat (copied + len) = unat copied + unat len"
    using le n63 by (simp add: unat_word_ariths take_bit_nat_eq_self)
  have fold: "fold move_piece (pieces (vec_ranges dstv) (vec_ranges srcv)) (mo_mem s) = fold move_piece (pieces ?D1 ?S1) ?m1"
    using ul by (simp add: dr sr)
  show ?case
  proof (cases "ms \<and> md")
    case False
    then have "?D1 = [] \<or> ?S1 = []" using as(3) ad(3) ul by auto
    then have "pieces ?D1 ?S1 = []" by (metis pieces.simps(2,3) neq_Nil_conv)
    moreover have "n = unat len" using False as(3) ad(3) ul n_def by (auto simp: dr sr)
    moreover have "sint (copied + len) = int (unat copied + unat len)"
    proof -
      have "unat (copied + len) < 2 ^ 63" using uc n63 \<open>n = unat len\<close> by simp
      then have "sint (copied + len) = int (unat (copied + len))" by (simp add: sint_small)
      then show ?thesis by (simp only: uc)
    qed
    ultimately show ?thesis using step False unfolding fold by auto
  next
    case True
    have r1: "vec_ranges dstv1 = ?D1" "vec_ranges srcv1 = ?S1" using True as(4) ad(4) ul by auto
    have nn: "n - unat len = min (length (range_addrs (vec_ranges dstv1))) (length (range_addrs (vec_ranges srcv1)))"
      "unat (copied + len) + (n - unat len) < 2 ^ 63"
      using n_def ul uc le n63 unfolding r1 by (auto simp: dr sr)
    have ms1: "mo_mem ?s1 a = None \<longleftrightarrow> mo_mem s a = None" for a
      using move_piece_mapped [of p "unat len" q "mo_mem s" a] mapped by (simp add: Un_commute)
    have mp1: "\<forall>a \<in> set (range_addrs (vec_ranges dstv1)) \<union> set (range_addrs (vec_ranges srcv1)). mo_mem ?s1 a \<noteq> None"
      using mp unfolding r1 ms1 by (auto simp: dr sr split: if_splits)
    obtain dstv' srcv' where "buf_copy_loop os tmp dstv1 srcv1 flags (copied + len) ?s1 =
        Some (int (unat (copied + len) + (n - unat len)), dstv', srcv', ?s1\<lparr>mo_mem := fold move_piece (pieces (vec_ranges dstv1) (vec_ranges srcv1)) (mo_mem ?s1)\<rparr>)"
      using 1(1) [OF r1(1) [symmetric] r1(2) [symmetric] ad(2) as(2) mp1 nn] by blast
    then show ?thesis using step True uc le unfolding fold r1 by auto
  qed
next
  case (2 dstv srcv)
  then have e: "vec_ranges dstv = []" "n = 0" "pieces (vec_ranges dstv) (vec_ranges srcv) = []" by simp_all
  then have "\<not> unat (bv_idx dstv) < length (bv_buf dstv)" using vec_ranges_current [OF 2(2)] by auto
  then show ?case using e 2 mem_vec_current by (subst buf_copy_loop.simps) (auto simp: sint_small split: if_splits)
next
  case (3 dstv srcv)
  have sv: "mem_vec srcv" using 3 by simp
  have e: "vec_ranges srcv = []" "n = 0" "pieces (vec_ranges dstv) (vec_ranges srcv) = []" using 3 by (auto simp: pieces.simps(3) neq_Nil_conv)
  then have "\<not> unat (bv_idx srcv) < length (bv_buf srcv)" using vec_ranges_current [OF sv] by auto
  then show ?case using e 3 mem_vec_current by (subst buf_copy_loop.simps) (auto simp: sint_small split: if_splits)
qed

section \<open>What is moved, and what is not\<close>

text \<open>Byte \<open>i\<close> of the source is at byte \<open>i\<close> of the destination, and the rest of the memory is the same.\<close>

definition copies :: "nat list \<Rightarrow> nat list \<Rightarrow> mem \<Rightarrow> mem \<Rightarrow> bool" where
  "copies D S m m' \<longleftrightarrow> map m' D = map m S \<and> (\<forall>a. a \<notin> set D \<longrightarrow> m' a = m a)"

lemma copies_nil [simp]: "copies [] [] m m" by (simp add: copies_def)

lemma copies_append:
  assumes "copies D1 S1 m m1" and "copies D2 S2 m1 m2" and "set D1 \<inter> set D2 = {}" and "set D1 \<inter> set S2 = {}"
  shows "copies (D1 @ D2) (S1 @ S2) m m2"
proof -
  have "map m2 D1 = map m1 D1" using assms(2,3) by (intro map_cong) (auto simp: copies_def)
  moreover have "map m1 S2 = map m S2" using assms(1,4) by (intro map_cong) (auto simp: copies_def)
  moreover have "m2 a = m a" if "a \<notin> set (D1 @ D2)" for a using assms(1,2) that by (simp add: copies_def)
  ultimately show ?thesis using assms(1,2) unfolding copies_def map_append by metis
qed

lemma copies_mapped:
  assumes "copies D S m m'" and "\<forall>a \<in> set S. m a \<noteq> None" and "m a \<noteq> None"
  shows "m' a \<noteq> None"
proof (cases "a \<in> set D")
  case True
  then have "m' a \<in> set (map m' D)" by (simp only: set_map) blast
  also have "set (map m' D) = set (map m S)" using assms(1) by (simp only: copies_def)
  finally show ?thesis using assms(2) by auto
qed (use assms in \<open>simp add: copies_def\<close>)

lemma move_piece_copies: "copies [p..<p + n] [q..<q + n] m (move_piece (p, q, n) m)"
proof -
  have "map (move_piece (p, q, n) m) [p..<p + n] = map m [q..<q + n]"
    by (rule nth_equalityI) (simp_all add: move_piece_def)
  then show ?thesis by (simp add: copies_def move_piece_def)
qed

text \<open>The pieces, one after the other, are the addresses that both vectors have left.\<close>

lemma pieces_addrs:
  "concat (map (\<lambda>(p, q, k). [p..<p + k]) (pieces D S)) = take (min (length (range_addrs D)) (length (range_addrs S))) (range_addrs D)"
  "concat (map (\<lambda>(p, q, k). [q..<q + k]) (pieces D S)) = take (min (length (range_addrs D)) (length (range_addrs S))) (range_addrs S)"
proof (induction D S rule: pieces.induct)
  case (1 p m D q n S)
  let ?D1 = "if m \<le> n then D else (p + n, m - n) # D" let ?S1 = "if n \<le> m then S else (q + m, n - m) # S"
  let ?k = "min m n" let ?n1 = "min (length (range_addrs ?D1)) (length (range_addrs ?S1))"
  have split: "[p..<p + m] = [p..<p + n] @ [p + n..<p + m]" if "n \<le> m" for p m n :: nat
    using upt_add_eq_append [of p "p + n" "m - n"] that by simp
  have d: "range_addrs ((p, m) # D) = [p..<p + ?k] @ range_addrs ?D1" and s: "range_addrs ((q, n) # S) = [q..<q + ?k] @ range_addrs ?S1"
    using split [of n m p] split [of m n q] by simp_all
  have tot: "min (length (range_addrs ((p, m) # D))) (length (range_addrs ((q, n) # S))) = ?k + ?n1" unfolding d s by (auto simp: min_def)
  then show "concat (map (\<lambda>(p, q, k). [p..<p + k]) (pieces ((p, m) # D) ((q, n) # S))) =
      take (min (length (range_addrs ((p, m) # D))) (length (range_addrs ((q, n) # S)))) (range_addrs ((p, m) # D))"
    and "concat (map (\<lambda>(p, q, k). [q..<q + k]) (pieces ((p, m) # D) ((q, n) # S))) =
      take (min (length (range_addrs ((p, m) # D))) (length (range_addrs ((q, n) # S)))) (range_addrs ((q, n) # S))"
    unfolding tot unfolding d s
    by (simp_all only: pieces.simps list.map concat.simps prod.case "1.IH" take_append length_upt diff_add_inverse take_all le_add1)
qed simp_all

text \<open>No piece reads or overwrites what one before it has written. A single piece never does, however its source
  and its destination overlap.\<close>

definition undisturbed :: "(nat \<times> nat \<times> nat) list \<Rightarrow> bool" where
  "undisturbed = sorted_wrt (\<lambda>(p, q, k) (p', q', k'). {p..<p + k} \<inter> ({p'..<p' + k'} \<union> {q'..<q' + k'}) = {})"

lemma fold_pieces_frame:
  "a \<notin> set (concat (map (\<lambda>(p, q, k). [p..<p + k]) ps)) \<Longrightarrow> fold move_piece ps m a = m a"
  by (induction ps arbitrary: m) (auto simp: move_piece_def split: if_splits)

lemma fold_pieces_copies:
  assumes "undisturbed ps"
  shows "copies (concat (map (\<lambda>(p, q, k). [p..<p + k]) ps)) (concat (map (\<lambda>(p, q, k). [q..<q + k]) ps)) m (fold move_piece ps m)"
  using assms
proof (induction ps arbitrary: m)
  case (Cons x ps)
  obtain p q k where x: "x = (p, q, k)" by (cases x)
  have "undisturbed ps" and dj: "\<forall>(p', q', k') \<in> set ps. {p..<p + k} \<inter> ({p'..<p' + k'} \<union> {q'..<q' + k'}) = {}"
    using Cons.prems by (auto simp: undisturbed_def x)
  then have "copies ([p..<p + k] @ concat (map (\<lambda>(p, q, k). [p..<p + k]) ps)) ([q..<q + k] @ concat (map (\<lambda>(p, q, k). [q..<q + k]) ps))
      m (fold move_piece ps (move_piece (p, q, k) m))"
    by (intro copies_append [OF move_piece_copies Cons.IH]) fastforce+
  then show ?case by (simp add: x)
qed simp

lemma disjoint_undisturbed:
  assumes "distinct (concat (map (\<lambda>(p, q, k). [p..<p + k]) ps))"
    and "set (concat (map (\<lambda>(p, q, k). [p..<p + k]) ps)) \<inter> set (concat (map (\<lambda>(p, q, k). [q..<q + k]) ps)) = {}"
  shows "undisturbed ps"
  using assms
proof (induction ps)
  case (Cons x ps)
  obtain p q k where x: "x = (p, q, k)" by (cases x)
  let ?D = "concat (map (\<lambda>(p, q, k). [p..<p + k]) ps)" let ?S = "concat (map (\<lambda>(p, q, k). [q..<q + k]) ps)"
  have "distinct ([p..<p + k] @ ?D)" and dj: "set ([p..<p + k] @ ?D) \<inter> set ([q..<q + k] @ ?S) = {}"
    using Cons.prems by (simp_all only: x list.map concat.simps prod.case)
  then have "undisturbed ps" by (intro Cons.IH) (simp_all only: distinct_append set_append, blast)
  moreover have "{p..<p + k} \<inter> ({p'..<p' + k'} \<union> {q'..<q' + k'}) = {}" if "(p', q', k') \<in> set ps" for p' q' k'
    using Cons.prems that by (fastforce simp: x)
  ultimately show ?case by (auto simp: undisturbed_def x)
qed (simp add: undisturbed_def)

text \<open>The same for the loop, and for vectors that share no address.\<close>

lemma pieces_frame:
  fixes m :: mem
  assumes "mem_vec dstv" and "mem_vec srcv"
  defines "n \<equiv> min (length (vec_addrs dstv)) (length (vec_addrs srcv))"
    and "m' \<equiv> fold move_piece (pieces (vec_ranges dstv) (vec_ranges srcv)) m"
  shows "a \<notin> set (take n (vec_addrs dstv)) \<Longrightarrow> m' a = m a"
    and "undisturbed (pieces (vec_ranges dstv) (vec_ranges srcv)) \<or>
       distinct (vec_addrs dstv) \<and> set (vec_addrs dstv) \<inter> set (vec_addrs srcv) = {} \<Longrightarrow>
     copies (take n (vec_addrs dstv)) (take n (vec_addrs srcv)) m m'"
proof -
  let ?ps = "pieces (vec_ranges dstv) (vec_ranges srcv)"
  have d: "concat (map (\<lambda>(p, q, k). [p..<p + k]) ?ps) = take n (vec_addrs dstv)" and
    s: "concat (map (\<lambda>(p, q, k). [q..<q + k]) ?ps) = take n (vec_addrs srcv)"
    unfolding n_def vec_addrs_ranges [OF assms(1)] vec_addrs_ranges [OF assms(2)] by (rule pieces_addrs)+
  show "a \<notin> set (take n (vec_addrs dstv)) \<Longrightarrow> m' a = m a" using fold_pieces_frame [of a ?ps m] unfolding d m'_def .
  assume "undisturbed ?ps \<or> distinct (vec_addrs dstv) \<and> set (vec_addrs dstv) \<inter> set (vec_addrs srcv) = {}"
  then have "undisturbed ?ps"
  proof
    assume "distinct (vec_addrs dstv) \<and> set (vec_addrs dstv) \<inter> set (vec_addrs srcv) = {}"
    then show ?thesis by (intro disjoint_undisturbed) (use d s in \<open>auto dest: in_set_takeD\<close>)
  qed
  then show "copies (take n (vec_addrs dstv)) (take n (vec_addrs srcv)) m m'" using fold_pieces_copies [of ?ps m] unfolding d s m'_def by blast
qed

lemma buf_copy_loop_mem:
  fixes s :: "'s mem_os"
  assumes "mem_vec dstv" and "mem_vec srcv"
    and "\<forall>a \<in> set (vec_addrs dstv) \<union> set (vec_addrs srcv). mo_mem s a \<noteq> None"
    and "distinct (vec_addrs dstv)" and "set (vec_addrs dstv) \<inter> set (vec_addrs srcv) = {}"
    and "n = min (length (vec_addrs dstv)) (length (vec_addrs srcv))" and "unat copied + n < 2 ^ 63"
  shows "\<exists>dstv' srcv' m. buf_copy_loop os tmp dstv srcv flags copied s =
      Some (int (unat copied + n), dstv', srcv', s\<lparr>mo_mem := m\<rparr>) \<and>
    copies (take n (vec_addrs dstv)) (take n (vec_addrs srcv)) (mo_mem s) m"
  using buf_copy_loop_moves [of dstv srcv s n copied os tmp flags] pieces_frame(2) [OF assms(1,2), of "mo_mem s"] assms
  by (auto simp: vec_addrs_ranges)

section \<open>Properties\<close>

lemma ld_drop:
  assumes "ld m p l = Some d" and "n \<le> l"
  shows "ld m (p + n) (l - n) = Some (drop n d)"
proof -
  have "list_all (\<lambda>a. m a \<noteq> None) [p..<p + l]" and d: "d = map (\<lambda>a. the (m a)) [p..<p + l]"
    using assms(1) by (auto simp: ld_def split: if_splits)
  then have "list_all (\<lambda>a. m a \<noteq> None) [p + n..<p + n + (l - n)]"
    using assms(2) by (auto simp: list_all_iff)
  then show ?thesis using assms(2) by (simp add: ld_def d drop_map drop_upt)
qed

lemma ld_length: "ld m p l = Some d \<Longrightarrow> length d = l"
  by (auto simp: ld_def split: if_splits)

text \<open>A descriptor as POSIX describes it, that collects what is written: a call fails, or takes a prefix of
  the data.\<close>

definition collecting :: "byte list os_fd \<Rightarrow> bool" where
  "collecting os \<longleftrightarrow> (\<forall>fd d pos o'. (\<exists>e > 0. os_write os fd d pos o' = (Inl e, o')) \<or>
     (\<exists>n \<le> length d. os_write os fd d pos o' = (Inr n, o' @ take n d)))"

lemma buf_write_loop_collects:
  assumes os: "collecting os" and d: "ld (mo_mem s) (fb_mem src + unat src_off) (unat len) = Some d"
    and nw: "unat src_off + unat len < 2 ^ 64" and small: "unat copied + unat len < 2 ^ 63"
  shows "\<exists>r k. buf_write_loop os dst dst_off src src_off len copied s = Some (r, s\<lparr>mo_os := mo_os s @ take k d\<rparr>) \<and>
    k \<le> unat len \<and> (r = int (unat copied + k) \<or> copied = 0 \<and> k = 0 \<and> r < 0)"
  using d nw small
proof (induction "unat len" arbitrary: len dst_off src_off copied s d rule: less_induct)
  case less
  let ?pos = "if has_bits (fb_flags dst) FUSE_BUF_FD_SEEK then Some (fb_pos dst + dst_off) else None"
  have sc: "sint copied = int (unat copied)" using less.prems(3) by (simp add: sint_small)
  have ld: "length d = unat len" by (rule ld_length [OF less.prems(1)])
  note unfold = buf_write_loop.simps [of os dst dst_off src src_off len copied s]
  show ?case
  proof (cases "len = 0")
    case True
    then show ?thesis using sc by (subst unfold) (auto intro!: exI [of _ 0])
  next
    case False
    consider e where "e > 0" "os_write os (fb_fd dst) d ?pos (mo_os s) = (Inl e, mo_os s)"
      | n where "n \<le> length d" "os_write os (fb_fd dst) d ?pos (mo_os s) = (Inr n, mo_os s @ take n d)"
      using os unfolding collecting_def by meson
    then show ?thesis
    proof cases
      case 1
      then show ?thesis using False less.prems(1) sc by (subst unfold) (auto intro!: exI [of _ 0])
    next
      case (2 n)
      have un: "unat (of_nat n :: u64) = n"
      proof -
        have "n < 2 ^ 64" using 2(1) ld unsigned_less [of len, where ?'a = nat] by simp
        then show ?thesis by (simp only: unat_of_nat take_bit_nat_eq_self) (simp add: take_bit_nat_eq_self)
      qed
      have nl: "n \<le> unat len" using 2(1) ld by simp
      have uc: "unat (copied + of_nat n) = unat copied + n"
        using un nl less.prems(3) by (simp add: unat_word_ariths take_bit_nat_eq_self)
      have "unat (copied + of_nat n) < 2 ^ 63" using uc nl less.prems(3) by simp
      then have sc1: "sint (copied + of_nat n) = int (unat (copied + of_nat n))" by (simp add: sint_small)
      let ?s = "s\<lparr>mo_os := mo_os s @ take n d\<rparr>"
      have step: "buf_write_loop os dst dst_off src src_off len copied s =
          (if n = 0 then Some (sint copied, ?s)
           else if \<not> has_bits (fb_flags dst) FUSE_BUF_FD_RETRY then Some (sint (copied + of_nat n), ?s)
           else buf_write_loop os dst (dst_off + of_nat n) src (src_off + of_nat n) (len - of_nat n) (copied + of_nat n) ?s)"
        using False less.prems(1) 2(2) by (subst unfold) (simp add: Let_def)
      show ?thesis
      proof (cases "n = 0 \<or> \<not> has_bits (fb_flags dst) FUSE_BUF_FD_RETRY")
        case True
        then show ?thesis using step sc sc1 uc nl by (intro exI [of _ "int (unat copied + n)"] exI [of _ n]) auto
      next
        case again: False
        have ul: "unat (len - of_nat n) = unat len - n" using un nl by (simp add: unat_sub word_le_nat_alt)
        have us: "unat (src_off + of_nat n) = unat src_off + n"
          using un nl less.prems(2) by (simp add: unat_word_ariths take_bit_nat_eq_self)
        have dd: "ld (mo_mem ?s) (fb_mem src + unat (src_off + of_nat n)) (unat (len - of_nat n)) = Some (drop n d)"
          using ld_drop [OF less.prems(1) nl] by (simp add: us ul add.assoc)
        have lt: "unat (len - of_nat n) < unat len" using ul again nl False by (simp add: unat_gt_0 unat_eq_0)
        have p: "unat (src_off + of_nat n) + unat (len - of_nat n) < 2 ^ 64" "unat (copied + of_nat n) + unat (len - of_nat n) < 2 ^ 63"
          using us ul uc nl less.prems(2,3) by simp_all
        obtain r k where ih: "buf_write_loop os dst (dst_off + of_nat n) src (src_off + of_nat n) (len - of_nat n) (copied + of_nat n) ?s =
            Some (r, ?s\<lparr>mo_os := mo_os ?s @ take k (drop n d)\<rparr>)" "k \<le> unat (len - of_nat n)"
          "r = int (unat (copied + of_nat n) + k) \<or> copied + of_nat n = 0 \<and> k = 0 \<and> r < 0"
          using less.hyps [OF lt dd p] by blast
        have nz: "copied + of_nat n \<noteq> 0" using uc again by (metis add_eq_0_iff_both_eq_0 unat_0)
        have "buf_write_loop os dst dst_off src src_off len copied s = Some (r, s\<lparr>mo_os := mo_os s @ take (n + k) d\<rparr>)"
          using step again ih(1) by (simp add: take_add)
        then show ?thesis using ih(2,3) nz uc ul nl by (intro exI [of _ r] exI [of _ "n + k"]) auto
      qed
    qed
  qed
qed

text \<open>The size of a buffer vector is the sum of the sizes of its buffers, saturated at the largest
  \<^verbatim>\<open>size_t\<close>.\<close>

lemma buf_size_saturates:
  "unat (fuse_buf_size bv) = min (sum_list (map (unat \<circ> fb_size) (take (unat (bv_count bv)) (bv_buf bv)))) (2 ^ 64 - 1)"
  by (simp add: fuse_buf_size_def unat_buf_size_from)

text \<open>\<^bold>\<open>C15\<close> Copying between two different vectors of memory buffers, of any numbers and sizes of buffers (empty
  ones included), from any position inside of them, and with any overlap of the memory that they name, all of
  it mapped, ends without a failed assertion, an access outside of the buffers or a \<^verbatim>\<open>memcpy\<close> of overlapping regions.
  The result is the number of bytes that both have left, which must be below 2^63 (a \<^verbatim>\<open>ssize_t\<close>); memory is what
  moving the pieces one after the other leaves, each piece as long as both current buffers allow and read
  entirely before it is written. No other memory changes, and when no piece reads or overwrites what an earlier
  one wrote (so always for a single piece, however it overlaps, and for vectors that share no address), the
  destination holds exactly the bytes the source held, in order.\<close>

theorem buf_copy_memory:
  fixes s :: "'s mem_os"
  assumes "mem_vec dstv" and "mem_vec srcv"
    and "\<forall>a \<in> set (vec_addrs dstv) \<union> set (vec_addrs srcv). mo_mem s a \<noteq> None"
  defines "n \<equiv> min (length (vec_addrs dstv)) (length (vec_addrs srcv))"
    and "ps \<equiv> pieces (vec_ranges dstv) (vec_ranges srcv)"
  assumes "n < 2 ^ 63"
  shows "\<exists>dstv' srcv' m. fuse_buf_copy os tmp False dstv srcv flags s = Some (int n, dstv', srcv', s\<lparr>mo_mem := m\<rparr>) \<and>
    m = fold move_piece ps (mo_mem s) \<and>
    (\<forall>a. a \<notin> set (take n (vec_addrs dstv)) \<longrightarrow> m a = mo_mem s a) \<and>
    (undisturbed ps \<or> distinct (vec_addrs dstv) \<and> set (vec_addrs dstv) \<inter> set (vec_addrs srcv) = {} \<longrightarrow>
       map m (take n (vec_addrs dstv)) = map (mo_mem s) (take n (vec_addrs srcv)))"
  using buf_copy_loop_moves [of dstv srcv s n 0 os tmp flags] pieces_frame(1) [OF assms(1,2), of _ "mo_mem s"] pieces_frame(2) [OF assms(1,2), of "mo_mem s"] assms
  by (auto simp: vec_addrs_ranges fuse_buf_copy_def copies_def)

theorem buf_copy_memory_witness:
  defines "b \<equiv> \<lambda>a n. \<lparr>fb_size = n, fb_flags = 0, fb_mem = a, fb_fd = 0, fb_pos = 0, fb_mem_size = 0\<rparr>"
  defines "dv \<equiv> \<lparr>bv_count = 1, bv_idx = 0, bv_off = 0, bv_buf = [b 2 5]\<rparr>"
  defines "sv \<equiv> \<lparr>bv_count = 3, bv_idx = 0, bv_off = 1, bv_buf = [b 0 4, b 50 0, b 10 1]\<rparr>"
  shows "\<exists>dv' sv' m. fuse_buf_copy \<lparr>os_write = \<lambda>_ _ _ s. (Inl 5, s), os_read = \<lambda>_ _ _ s. (Inl 5, s), os_splice = None\<rparr> 0 False dv sv 0
      \<lparr>mo_mem = \<lambda>a. Some (of_nat a), mo_os = ()\<rparr> = Some (4, dv', sv', \<lparr>mo_mem = m, mo_os = ()\<rparr>) \<and>
    map m [0, 1, 2, 3, 4, 5, 6] = map Some [0, 1, 1, 2, 3, 10, 6]"
proof -
  have d: "vec_addrs dv = [2, 3, 4, 5, 6]" "vec_addrs sv = [1, 2, 3, 10]"
    by (simp_all add: vec_addrs_def buf_addrs_def dv_def sv_def b_def upt_rec)
  have v: "mem_vec dv" "mem_vec sv" by (auto simp: mem_vec_def dv_def sv_def b_def has_bits_def)
  have "pieces (vec_ranges dv) (vec_ranges sv) = [(2, 1, 3), (5, 50, 0), (5, 10, 1)]"
    by (simp add: vec_ranges_def dv_def sv_def b_def)
  then have "undisturbed (pieces (vec_ranges dv) (vec_ranges sv))" by (auto simp: undisturbed_def)
  then show ?thesis
    using buf_copy_memory [OF v, of "\<lparr>mo_mem = \<lambda>a. Some (of_nat a), mo_os = ()\<rparr>"
      "\<lparr>os_write = \<lambda>_ _ _ s. (Inl 5, s), os_read = \<lambda>_ _ _ s. (Inl 5, s), os_splice = None\<rparr>" 0 0]
    by (auto simp: d)
qed

text \<open>Writing a memory buffer to a descriptor, with partial writes and retries, ends, and hands over a prefix of
  the data without loss or repetition; a result that is not negative is the length of that prefix, and a
  negative one means that nothing was written.\<close>

lemma buf_write_delivers_prefix:
  assumes "collecting os" and "ld (mo_mem s) (fb_mem src + unat src_off) (unat len) = Some d"
    and "unat src_off + unat len < 2 ^ 64" and "unat len < 2 ^ 63"
  shows "\<exists>r. fuse_buf_write os dst dst_off src src_off len s = Some (r, s\<lparr>mo_os := mo_os s @ take (nat r) d\<rparr>) \<and>
    r \<le> int (unat len)"
proof -
  obtain r k where "buf_write_loop os dst dst_off src src_off len 0 s = Some (r, s\<lparr>mo_os := mo_os s @ take k d\<rparr>)"
    "k \<le> unat len" "r = int k \<or> k = 0 \<and> r < 0"
    using buf_write_loop_collects [OF assms(1-3), of 0 dst dst_off] assms(4) by auto
  moreover from this have "r \<le> int (unat len)" by (metis nle_le of_nat_0_le_iff of_nat_le_iff order.trans less_imp_le)
  ultimately show ?thesis unfolding fuse_buf_write_def by auto
qed

end
