(* ===== verification/Fuse_Ops.thy ===== *)
theory Fuse_Ops
  imports Fuse_Reply Fuse_Buffer
begin

text \<open>
  The operation table of a file system (\<^verbatim>\<open>struct fuse_lowlevel_ops\<close> of
  \<^verbatim>\<open>libs/libfuse/include/fuse/fuse_lowlevel.h\<close>) and the request handlers of
  \<^verbatim>\<open>libs/libfuse/lib/fuse_lowlevel.c\<close>. An operation that the file system does not implement is
  \<open>None\<close>. For each opcode there are two functions as in the source: \<open>do_X2\<close> is \<^verbatim>\<open>_do_X\<close>, which takes
  the operation's structure and its payload apart, \<open>do_X\<close> finds them in one block. A block is the
  memory from the pointer to the end of its allocation; the empty block stands for a null pointer.
  Reading past the end of a block is the fault \<open>OutOfBounds\<close>.
\<close>

section \<open>The operation table\<close>

type_synonym 'u action = "'u fuse_world \<Rightarrow> 'u fuse_world"

record 'u fuse_lowlevel_ops =
  op_init :: "(u64 \<Rightarrow> 'u action) option"
  op_destroy :: "(u64 \<Rightarrow> 'u action) option"
  op_lookup :: "(addr \<Rightarrow> u64 \<Rightarrow> byte list \<Rightarrow> 'u action) option"
  op_forget :: "(addr \<Rightarrow> u64 \<Rightarrow> u64 \<Rightarrow> 'u action) option"
  op_getattr :: "(addr \<Rightarrow> u64 \<Rightarrow> fuse_file_info option \<Rightarrow> 'u action) option"
  op_setattr :: "(addr \<Rightarrow> u64 \<Rightarrow> stat \<Rightarrow> u32 \<Rightarrow> fuse_file_info option \<Rightarrow> 'u action) option"
  op_readlink :: "(addr \<Rightarrow> u64 \<Rightarrow> 'u action) option"
  op_mknod :: "(addr \<Rightarrow> u64 \<Rightarrow> byte list \<Rightarrow> u32 \<Rightarrow> u32 \<Rightarrow> 'u action) option"
  op_mkdir :: "(addr \<Rightarrow> u64 \<Rightarrow> byte list \<Rightarrow> u32 \<Rightarrow> 'u action) option"
  op_unlink :: "(addr \<Rightarrow> u64 \<Rightarrow> byte list \<Rightarrow> 'u action) option"
  op_rmdir :: "(addr \<Rightarrow> u64 \<Rightarrow> byte list \<Rightarrow> 'u action) option"
  op_symlink :: "(addr \<Rightarrow> byte list \<Rightarrow> u64 \<Rightarrow> byte list \<Rightarrow> 'u action) option"
  op_rename :: "(addr \<Rightarrow> u64 \<Rightarrow> byte list \<Rightarrow> u64 \<Rightarrow> byte list \<Rightarrow> u32 \<Rightarrow> 'u action) option"
  op_link :: "(addr \<Rightarrow> u64 \<Rightarrow> u64 \<Rightarrow> byte list \<Rightarrow> 'u action) option"
  op_open :: "(addr \<Rightarrow> u64 \<Rightarrow> fuse_file_info \<Rightarrow> 'u action) option"
  op_read :: "(addr \<Rightarrow> u64 \<Rightarrow> u64 \<Rightarrow> u64 \<Rightarrow> fuse_file_info \<Rightarrow> 'u action) option"
  op_write :: "(addr \<Rightarrow> u64 \<Rightarrow> byte list \<Rightarrow> u64 \<Rightarrow> u64 \<Rightarrow> fuse_file_info \<Rightarrow> 'u action) option"
  op_flush :: "(addr \<Rightarrow> u64 \<Rightarrow> fuse_file_info \<Rightarrow> 'u action) option"
  op_release :: "(addr \<Rightarrow> u64 \<Rightarrow> fuse_file_info \<Rightarrow> 'u action) option"
  op_fsync :: "(addr \<Rightarrow> u64 \<Rightarrow> bool \<Rightarrow> fuse_file_info \<Rightarrow> 'u action) option"
  op_opendir :: "(addr \<Rightarrow> u64 \<Rightarrow> fuse_file_info \<Rightarrow> 'u action) option"
  op_readdir :: "(addr \<Rightarrow> u64 \<Rightarrow> u64 \<Rightarrow> u64 \<Rightarrow> fuse_file_info \<Rightarrow> 'u action) option"
  op_releasedir :: "(addr \<Rightarrow> u64 \<Rightarrow> fuse_file_info \<Rightarrow> 'u action) option"
  op_fsyncdir :: "(addr \<Rightarrow> u64 \<Rightarrow> bool \<Rightarrow> fuse_file_info \<Rightarrow> 'u action) option"
  op_statfs :: "(addr \<Rightarrow> u64 \<Rightarrow> 'u action) option"
  op_setxattr :: "(addr \<Rightarrow> u64 \<Rightarrow> byte list \<Rightarrow> byte list \<Rightarrow> u64 \<Rightarrow> u32 \<Rightarrow> 'u action) option"
  op_getxattr :: "(addr \<Rightarrow> u64 \<Rightarrow> byte list \<Rightarrow> u64 \<Rightarrow> 'u action) option"
  op_listxattr :: "(addr \<Rightarrow> u64 \<Rightarrow> u64 \<Rightarrow> 'u action) option"
  op_removexattr :: "(addr \<Rightarrow> u64 \<Rightarrow> byte list \<Rightarrow> 'u action) option"
  op_access :: "(addr \<Rightarrow> u64 \<Rightarrow> u32 \<Rightarrow> 'u action) option"
  op_create :: "(addr \<Rightarrow> u64 \<Rightarrow> byte list \<Rightarrow> u32 \<Rightarrow> fuse_file_info \<Rightarrow> 'u action) option"
  op_getlk :: "(addr \<Rightarrow> u64 \<Rightarrow> fuse_file_info \<Rightarrow> flock \<Rightarrow> 'u action) option"
  op_setlk :: "(addr \<Rightarrow> u64 \<Rightarrow> fuse_file_info \<Rightarrow> flock \<Rightarrow> bool \<Rightarrow> 'u action) option"
  op_bmap :: "(addr \<Rightarrow> u64 \<Rightarrow> u64 \<Rightarrow> u64 \<Rightarrow> 'u action) option"
  op_ioctl :: "(addr \<Rightarrow> u64 \<Rightarrow> u32 \<Rightarrow> u64 \<Rightarrow> fuse_file_info \<Rightarrow> u32 \<Rightarrow> byte list \<Rightarrow> u64 \<Rightarrow> u64 \<Rightarrow> 'u action) option"
  op_poll :: "(addr \<Rightarrow> u64 \<Rightarrow> fuse_file_info \<Rightarrow> u64 option \<Rightarrow> 'u action) option"
  op_write_buf :: "(addr \<Rightarrow> u64 \<Rightarrow> byte list fuse_bufvec \<Rightarrow> u64 \<Rightarrow> fuse_file_info \<Rightarrow> 'u action) option"
  op_retrieve_reply :: "(addr \<Rightarrow> u64 \<Rightarrow> u64 \<Rightarrow> u64 \<Rightarrow> byte list fuse_bufvec \<Rightarrow> 'u action) option"
  op_forget_multi :: "(addr \<Rightarrow> nat \<Rightarrow> byte list \<Rightarrow> 'u action) option"
  op_flock :: "(addr \<Rightarrow> u64 \<Rightarrow> fuse_file_info \<Rightarrow> u32 \<Rightarrow> 'u action) option"
  op_fallocate :: "(addr \<Rightarrow> u64 \<Rightarrow> u32 \<Rightarrow> u64 \<Rightarrow> u64 \<Rightarrow> fuse_file_info \<Rightarrow> 'u action) option"
  op_readdirplus :: "(addr \<Rightarrow> u64 \<Rightarrow> u64 \<Rightarrow> u64 \<Rightarrow> fuse_file_info \<Rightarrow> 'u action) option"
  op_copy_file_range :: "(addr \<Rightarrow> u64 \<Rightarrow> u64 \<Rightarrow> fuse_file_info \<Rightarrow> u64 \<Rightarrow> u64 \<Rightarrow> fuse_file_info \<Rightarrow> u64 \<Rightarrow> u32 \<Rightarrow> 'u action) option"
  op_lseek :: "(addr \<Rightarrow> u64 \<Rightarrow> u64 \<Rightarrow> u32 \<Rightarrow> fuse_file_info \<Rightarrow> 'u action) option"
  op_tmpfile :: "(addr \<Rightarrow> u64 \<Rightarrow> u32 \<Rightarrow> fuse_file_info \<Rightarrow> 'u action) option"
  op_statx :: "(addr \<Rightarrow> u64 \<Rightarrow> int \<Rightarrow> int \<Rightarrow> fuse_file_info option \<Rightarrow> 'u action) option"
  intr_func :: "u64 \<Rightarrow> addr \<Rightarrow> u64 \<Rightarrow> 'u action"

text \<open>The last component gives the meaning of the function pointers a file system registers with
  \<^verbatim>\<open>fuse_req_interrupt_func\<close>.\<close>

definition no_ops :: "'u fuse_lowlevel_ops" where
  "no_ops = \<lparr>op_init = None, op_destroy = None, op_lookup = None, op_forget = None, op_getattr = None, op_setattr = None, op_readlink = None, op_mknod = None, op_mkdir = None, op_unlink = None, op_rmdir = None, op_symlink = None, op_rename = None, op_link = None, op_open = None, op_read = None, op_write = None, op_flush = None, op_release = None, op_fsync = None, op_opendir = None, op_readdir = None, op_releasedir = None, op_fsyncdir = None, op_statfs = None, op_setxattr = None, op_getxattr = None, op_listxattr = None, op_removexattr = None, op_access = None, op_create = None, op_getlk = None, op_setlk = None, op_bmap = None, op_ioctl = None, op_poll = None, op_write_buf = None, op_retrieve_reply = None, op_forget_multi = None, op_flock = None, op_fallocate = None, op_readdirplus = None, op_copy_file_range = None, op_lseek = None, op_tmpfile = None, op_statx = None, intr_func = \<lambda>_ _ _ w. w\<rparr>"

definition reply_err :: "addr \<Rightarrow> int \<Rightarrow> 'u action" where
  "reply_err req err w = snd (fuse_reply_err req err w)"

text \<open>\<^verbatim>\<open>if (req->se->op.X) req->se->op.X(...); else fuse_reply_err(req, err);\<close>\<close>

definition call_or_err :: "'f option \<Rightarrow> ('f \<Rightarrow> 'u action) \<Rightarrow> addr \<Rightarrow> int \<Rightarrow> 'u action" where
  "call_or_err f k req err = (case f of Some g \<Rightarrow> k g | None \<Rightarrow> reply_err req err)"

definition set_umask :: "addr \<Rightarrow> u32 \<Rightarrow> 'u action" where
  "set_umask req m = req_mod req (\<lambda>r. r\<lparr>rq_ctx := (rq_ctx r)\<lparr>ctx_umask := m\<rparr>\<rparr>)"

section \<open>Handlers\<close>

abbreviation FUSE_SET_ATTR_ALL :: u32 where
  "FUSE_SET_ATTR_ALL \<equiv> 1 OR 2 OR 4 OR 8 OR 16 OR 32 OR 0x800 OR 0x1000 OR 0x80 OR 0x100 OR 0x400"

definition do_lookup2 :: "'u fuse_lowlevel_ops \<Rightarrow> addr \<Rightarrow> u64 \<Rightarrow> byte list \<Rightarrow> byte list \<Rightarrow> 'u action" where
  "do_lookup2 op req nodeid op_in in_payload =
     call_or_err (op_lookup op) (\<lambda>f. f req nodeid in_payload) req ENOSYS"

definition do_lookup :: "'u fuse_lowlevel_ops \<Rightarrow> addr \<Rightarrow> u64 \<Rightarrow> byte list \<Rightarrow> 'u action" where
  "do_lookup op req nodeid inarg = do_lookup2 op req nodeid [] inarg"

definition do_forget2 :: "'u fuse_lowlevel_ops \<Rightarrow> addr \<Rightarrow> u64 \<Rightarrow> byte list \<Rightarrow> byte list \<Rightarrow> 'u action" where
  "do_forget2 op req nodeid op_in in_payload =
     (case op_forget op of
        Some f \<Rightarrow> rd (fuse_forget_in_nlookup op_in) (\<lambda>nlookup. f req nodeid nlookup)
      | None \<Rightarrow> fuse_reply_none req)"

definition do_forget :: "'u fuse_lowlevel_ops \<Rightarrow> addr \<Rightarrow> u64 \<Rightarrow> byte list \<Rightarrow> 'u action" where
  "do_forget op req nodeid inarg = do_forget2 op req nodeid inarg []"

text \<open>The loop over the forgets of a batch: each gets a request of its own; the loop ends when one
  cannot be allocated.\<close>

fun batch_forget_loop :: "(addr \<Rightarrow> u64 \<Rightarrow> u64 \<Rightarrow> 'u action) \<Rightarrow> addr \<Rightarrow> byte list \<Rightarrow> nat \<Rightarrow> nat \<Rightarrow> 'u action"
  where
  "batch_forget_loop forget req forgets i 0 w = w"
| "batch_forget_loop forget req forgets i (Suc n) w =
     (let one = drop (i * sizeof_fuse_forget_one) forgets
      in case fuse_ll_alloc_req w of
           (None, w) \<Rightarrow> w
         | (Some dummy, w) \<Rightarrow>
             with_req req (\<lambda>r.
               (\<lambda>w. batch_forget_loop forget req forgets (Suc i) n
                 (rd (fuse_forget_one_nodeid one) (\<lambda>nodeid.
                   rd (fuse_forget_one_nlookup one) (\<lambda>nlookup. forget dummy nodeid nlookup)) w))
               \<circ> req_mod dummy (\<lambda>d. d\<lparr>rq_unique := rq_unique r, rq_ctx := rq_ctx r, rq_ch := None\<rparr>)) w)"

definition do_batch_forget2 :: "'u fuse_lowlevel_ops \<Rightarrow> addr \<Rightarrow> u64 \<Rightarrow> byte list \<Rightarrow> byte list \<Rightarrow> 'u action" where
  "do_batch_forget2 op req nodeid op_in in_payload =
     (case op_forget_multi op of
        Some f \<Rightarrow> rd (fuse_batch_forget_in_count op_in) (\<lambda>count. f req (unat count) in_payload)
      | None \<Rightarrow>
          (case op_forget op of
             Some f \<Rightarrow> rd (fuse_batch_forget_in_count op_in) (\<lambda>count w.
               fuse_reply_none req (batch_forget_loop f req in_payload 0 (unat count) w))
           | None \<Rightarrow> fuse_reply_none req))"

definition do_batch_forget :: "'u fuse_lowlevel_ops \<Rightarrow> addr \<Rightarrow> u64 \<Rightarrow> byte list \<Rightarrow> 'u action" where
  "do_batch_forget op req nodeid inarg = do_batch_forget2 op req nodeid inarg (drop sizeof_fuse_batch_forget_in inarg)"

definition do_getattr2 :: "'u fuse_lowlevel_ops \<Rightarrow> addr \<Rightarrow> u64 \<Rightarrow> byte list \<Rightarrow> byte list \<Rightarrow> 'u action" where
  "do_getattr2 op req nodeid op_in in_payload =
     (\<lambda>w.
        let k = (\<lambda>fip. call_or_err (op_getattr op) (\<lambda>f. f req nodeid fip) req ENOSYS)
        in if proto_minor (conn w) \<ge> 9 then
             rd (fuse_getattr_in_getattr_flags op_in) (\<lambda>flags.
               if has_bits flags FUSE_GETATTR_FH
               then rd (fuse_getattr_in_fh op_in) (\<lambda>fh. k (Some (zero_file_info\<lparr>fi_fh := fh\<rparr>)))
               else k None) w
           else k None w)"

definition do_getattr :: "'u fuse_lowlevel_ops \<Rightarrow> addr \<Rightarrow> u64 \<Rightarrow> byte list \<Rightarrow> 'u action" where
  "do_getattr op req nodeid inarg = do_getattr2 op req nodeid inarg []"

definition do_setattr2 :: "'u fuse_lowlevel_ops \<Rightarrow> addr \<Rightarrow> u64 \<Rightarrow> byte list \<Rightarrow> byte list \<Rightarrow> 'u action" where
  "do_setattr2 op req nodeid op_in in_payload =
     rd (fuse_setattr_in_valid op_in) (\<lambda>valid.
       case op_setattr op of
         None \<Rightarrow> reply_err req ENOSYS
       | Some f \<Rightarrow>
           rd (convert_attr op_in zero_stat) (\<lambda>stbuf.
             if has_bits valid FATTR_FH then
               rd (fuse_setattr_in_fh op_in) (\<lambda>fh.
                 f req nodeid stbuf ((valid AND NOT FATTR_FH) AND FUSE_SET_ATTR_ALL)
                   (Some (zero_file_info\<lparr>fi_fh := fh\<rparr>)))
             else f req nodeid stbuf (valid AND FUSE_SET_ATTR_ALL) None))"

definition do_setattr :: "'u fuse_lowlevel_ops \<Rightarrow> addr \<Rightarrow> u64 \<Rightarrow> byte list \<Rightarrow> 'u action" where
  "do_setattr op req nodeid inarg = do_setattr2 op req nodeid inarg []"

definition do_access2 :: "'u fuse_lowlevel_ops \<Rightarrow> addr \<Rightarrow> u64 \<Rightarrow> byte list \<Rightarrow> byte list \<Rightarrow> 'u action" where
  "do_access2 op req nodeid op_in in_payload =
     (case op_access op of
        Some f \<Rightarrow> rd (fuse_access_in_mask op_in) (\<lambda>mask. f req nodeid mask)
      | None \<Rightarrow> reply_err req ENOSYS)"

definition do_access :: "'u fuse_lowlevel_ops \<Rightarrow> addr \<Rightarrow> u64 \<Rightarrow> byte list \<Rightarrow> 'u action" where
  "do_access op req nodeid inarg = do_access2 op req nodeid inarg []"

definition do_readlink2 :: "'u fuse_lowlevel_ops \<Rightarrow> addr \<Rightarrow> u64 \<Rightarrow> byte list \<Rightarrow> byte list \<Rightarrow> 'u action" where
  "do_readlink2 op req nodeid op_in in_payload =
     call_or_err (op_readlink op) (\<lambda>f. f req nodeid) req ENOSYS"

definition do_readlink :: "'u fuse_lowlevel_ops \<Rightarrow> addr \<Rightarrow> u64 \<Rightarrow> byte list \<Rightarrow> 'u action" where
  "do_readlink op req nodeid inarg = do_readlink2 op req nodeid inarg []"

definition do_mknod2 :: "'u fuse_lowlevel_ops \<Rightarrow> addr \<Rightarrow> u64 \<Rightarrow> byte list \<Rightarrow> byte list \<Rightarrow> 'u action" where
  "do_mknod2 op req nodeid op_in in_payload =
     (\<lambda>w.
        let k = (case op_mknod op of
                   None \<Rightarrow> reply_err req ENOSYS
                 | Some f \<Rightarrow> rd (fuse_mknod_in_mode op_in) (\<lambda>mode.
                     rd (fuse_mknod_in_rdev op_in) (\<lambda>rdev. f req nodeid in_payload mode rdev)))
        in if proto_minor (conn w) \<ge> 12
           then rd (fuse_mknod_in_umask op_in) (\<lambda>umask w. k (set_umask req umask w)) w
           else k w)"

definition do_mknod :: "'u fuse_lowlevel_ops \<Rightarrow> addr \<Rightarrow> u64 \<Rightarrow> byte list \<Rightarrow> 'u action" where
  "do_mknod op req nodeid inarg = (\<lambda>w.
     do_mknod2 op req nodeid inarg
       (if proto_minor (conn w) < 12 then drop FUSE_COMPAT_MKNOD_IN_SIZE inarg
        else drop sizeof_fuse_mknod_in inarg) w)"

definition do_mkdir2 :: "'u fuse_lowlevel_ops \<Rightarrow> addr \<Rightarrow> u64 \<Rightarrow> byte list \<Rightarrow> byte list \<Rightarrow> 'u action" where
  "do_mkdir2 op req nodeid op_in in_payload =
     (\<lambda>w.
        let k = (case op_mkdir op of
                   None \<Rightarrow> reply_err req ENOSYS
                 | Some f \<Rightarrow> rd (fuse_mkdir_in_mode op_in) (\<lambda>mode. f req nodeid in_payload mode))
        in if proto_minor (conn w) \<ge> 12
           then rd (fuse_mkdir_in_umask op_in) (\<lambda>umask w. k (set_umask req umask w)) w
           else k w)"

definition do_mkdir :: "'u fuse_lowlevel_ops \<Rightarrow> addr \<Rightarrow> u64 \<Rightarrow> byte list \<Rightarrow> 'u action" where
  "do_mkdir op req nodeid inarg = do_mkdir2 op req nodeid inarg (drop sizeof_fuse_mkdir_in inarg)"

definition do_unlink2 :: "'u fuse_lowlevel_ops \<Rightarrow> addr \<Rightarrow> u64 \<Rightarrow> byte list \<Rightarrow> byte list \<Rightarrow> 'u action" where
  "do_unlink2 op req nodeid op_in in_payload =
     call_or_err (op_unlink op) (\<lambda>f. f req nodeid in_payload) req ENOSYS"

definition do_unlink :: "'u fuse_lowlevel_ops \<Rightarrow> addr \<Rightarrow> u64 \<Rightarrow> byte list \<Rightarrow> 'u action" where
  "do_unlink op req nodeid inarg = do_unlink2 op req nodeid [] inarg"

definition do_rmdir2 :: "'u fuse_lowlevel_ops \<Rightarrow> addr \<Rightarrow> u64 \<Rightarrow> byte list \<Rightarrow> byte list \<Rightarrow> 'u action" where
  "do_rmdir2 op req nodeid op_in in_payload =
     call_or_err (op_rmdir op) (\<lambda>f. f req nodeid in_payload) req ENOSYS"

definition do_rmdir :: "'u fuse_lowlevel_ops \<Rightarrow> addr \<Rightarrow> u64 \<Rightarrow> byte list \<Rightarrow> 'u action" where
  "do_rmdir op req nodeid inarg = do_rmdir2 op req nodeid [] inarg"

text \<open>\<^verbatim>\<open>name + strlen(name) + 1\<close>: the block after the string at the start of a block.\<close>

definition after_string :: "byte list \<Rightarrow> byte list option" where
  "after_string b = map_option (\<lambda>s. drop (length s + 1) b) (c_string b)"

definition do_symlink2 :: "'u fuse_lowlevel_ops \<Rightarrow> addr \<Rightarrow> u64 \<Rightarrow> byte list \<Rightarrow> byte list \<Rightarrow> 'u action" where
  "do_symlink2 op req nodeid op_in in_payload =
     rd (after_string in_payload) (\<lambda>linkname.
       call_or_err (op_symlink op) (\<lambda>f. f req linkname nodeid in_payload) req ENOSYS)"

definition do_symlink :: "'u fuse_lowlevel_ops \<Rightarrow> addr \<Rightarrow> u64 \<Rightarrow> byte list \<Rightarrow> 'u action" where
  "do_symlink op req nodeid inarg = do_symlink2 op req nodeid [] inarg"

definition do_rename2 :: "'u fuse_lowlevel_ops \<Rightarrow> addr \<Rightarrow> u64 \<Rightarrow> byte list \<Rightarrow> byte list \<Rightarrow> 'u action" where
  "do_rename2 op req nodeid op_in in_payload =
     rd (after_string in_payload) (\<lambda>newname.
       case op_rename op of
         Some f \<Rightarrow> rd (fuse_rename_in_newdir op_in) (\<lambda>newdir. f req nodeid in_payload newdir newname 0)
       | None \<Rightarrow> reply_err req ENOSYS)"

definition do_rename :: "'u fuse_lowlevel_ops \<Rightarrow> addr \<Rightarrow> u64 \<Rightarrow> byte list \<Rightarrow> 'u action" where
  "do_rename op req nodeid inarg = do_rename2 op req nodeid inarg (drop sizeof_fuse_rename_in inarg)"

text \<open>\<^verbatim>\<open>_do_rename2\<close> and \<^verbatim>\<open>do_rename2\<close> (the opcode's own name ends in 2).\<close>

definition do_RENAME2_2 :: "'u fuse_lowlevel_ops \<Rightarrow> addr \<Rightarrow> u64 \<Rightarrow> byte list \<Rightarrow> byte list \<Rightarrow> 'u action" where
  "do_RENAME2_2 op req nodeid op_in in_payload =
     rd (after_string in_payload) (\<lambda>newname.
       case op_rename op of
         Some f \<Rightarrow> rd (fuse_rename2_in_newdir op_in) (\<lambda>newdir.
           rd (fuse_rename2_in_flags op_in) (\<lambda>flags. f req nodeid in_payload newdir newname flags))
       | None \<Rightarrow> reply_err req ENOSYS)"

definition do_RENAME2 :: "'u fuse_lowlevel_ops \<Rightarrow> addr \<Rightarrow> u64 \<Rightarrow> byte list \<Rightarrow> 'u action" where
  "do_RENAME2 op req nodeid inarg = do_RENAME2_2 op req nodeid inarg (drop sizeof_fuse_rename2_in inarg)"

definition do_tmpfile2 :: "'u fuse_lowlevel_ops \<Rightarrow> addr \<Rightarrow> u64 \<Rightarrow> byte list \<Rightarrow> byte list \<Rightarrow> 'u action" where
  "do_tmpfile2 op req nodeid op_in in_payload =
     (case op_tmpfile op of
        None \<Rightarrow> reply_err req ENOSYS
      | Some f \<Rightarrow>
          rd (fuse_create_in_flags op_in) (\<lambda>flags w.
            let fi = zero_file_info\<lparr>fi_flags := flags\<rparr>;
                k = rd (fuse_create_in_mode op_in) (\<lambda>mode. f req nodeid mode fi)
            in if proto_minor (conn w) \<ge> 12
               then rd (fuse_create_in_umask op_in) (\<lambda>umask w. k (set_umask req umask w)) w
               else k w))"

definition do_tmpfile :: "'u fuse_lowlevel_ops \<Rightarrow> addr \<Rightarrow> u64 \<Rightarrow> byte list \<Rightarrow> 'u action" where
  "do_tmpfile op req nodeid inarg = do_tmpfile2 op req nodeid inarg []"

definition do_link2 :: "'u fuse_lowlevel_ops \<Rightarrow> addr \<Rightarrow> u64 \<Rightarrow> byte list \<Rightarrow> byte list \<Rightarrow> 'u action" where
  "do_link2 op req nodeid op_in in_payload =
     (case op_link op of
        Some f \<Rightarrow> rd (fuse_link_in_oldnodeid op_in) (\<lambda>old. f req old nodeid in_payload)
      | None \<Rightarrow> reply_err req ENOSYS)"

definition do_link :: "'u fuse_lowlevel_ops \<Rightarrow> addr \<Rightarrow> u64 \<Rightarrow> byte list \<Rightarrow> 'u action" where
  "do_link op req nodeid inarg = do_link2 op req nodeid inarg (drop sizeof_fuse_link_in inarg)"

definition do_create2 :: "'u fuse_lowlevel_ops \<Rightarrow> addr \<Rightarrow> u64 \<Rightarrow> byte list \<Rightarrow> byte list \<Rightarrow> 'u action" where
  "do_create2 op req nodeid op_in in_payload =
     (case op_create op of
        None \<Rightarrow> reply_err req ENOSYS
      | Some f \<Rightarrow>
          rd (fuse_create_in_flags op_in) (\<lambda>flags w.
            let fi = zero_file_info\<lparr>fi_flags := flags\<rparr>;
                k = rd (fuse_create_in_mode op_in) (\<lambda>mode. f req nodeid in_payload mode fi)
            in if proto_minor (conn w) \<ge> 12
               then rd (fuse_create_in_umask op_in) (\<lambda>umask w. k (set_umask req umask w)) w
               else k w))"

definition do_create :: "'u fuse_lowlevel_ops \<Rightarrow> addr \<Rightarrow> u64 \<Rightarrow> byte list \<Rightarrow> 'u action" where
  "do_create op req nodeid inarg = (\<lambda>w.
     do_create2 op req nodeid inarg
       (if proto_minor (conn w) < 12 then drop sizeof_fuse_open_in inarg
        else drop sizeof_fuse_create_in inarg) w)"

definition do_open2 :: "'u fuse_lowlevel_ops \<Rightarrow> addr \<Rightarrow> u64 \<Rightarrow> byte list \<Rightarrow> byte list \<Rightarrow> 'u action" where
  "do_open2 op req nodeid op_in in_payload =
     rd (fuse_open_in_flags op_in) (\<lambda>flags w.
       let fi = zero_file_info\<lparr>fi_flags := flags\<rparr>
       in case op_open op of
            Some f \<Rightarrow> f req nodeid fi w
          | None \<Rightarrow> if has_bits (want_ext (conn w)) FUSE_CAP_NO_OPEN_SUPPORT
                    then reply_err req ENOSYS w
                    else snd (fuse_reply_open req fi w))"

definition do_open :: "'u fuse_lowlevel_ops \<Rightarrow> addr \<Rightarrow> u64 \<Rightarrow> byte list \<Rightarrow> 'u action" where
  "do_open op req nodeid inarg = do_open2 op req nodeid inarg []"

definition do_read2 :: "'u fuse_lowlevel_ops \<Rightarrow> addr \<Rightarrow> u64 \<Rightarrow> byte list \<Rightarrow> byte list \<Rightarrow> 'u action" where
  "do_read2 op req nodeid op_in in_payload =
     (case op_read op of
        None \<Rightarrow> reply_err req ENOSYS
      | Some f \<Rightarrow>
          rd (fuse_read_in_fh op_in) (\<lambda>fh w.
            let fi = zero_file_info\<lparr>fi_fh := fh\<rparr>;
                k = (\<lambda>fi. rd (fuse_read_in_size op_in) (\<lambda>sz.
                       rd (fuse_read_in_offset op_in) (\<lambda>off. f req nodeid (ucast sz) off fi)))
            in if proto_minor (conn w) \<ge> 9 then
                 rd (fuse_read_in_lock_owner op_in) (\<lambda>lo. rd (fuse_read_in_flags op_in) (\<lambda>flags.
                   k (fi\<lparr>fi_lock_owner := lo, fi_flags := flags\<rparr>))) w
               else k fi w))"

definition do_read :: "'u fuse_lowlevel_ops \<Rightarrow> addr \<Rightarrow> u64 \<Rightarrow> byte list \<Rightarrow> 'u action" where
  "do_read op req nodeid inarg = do_read2 op req nodeid inarg []"

text \<open>The file information a write passes on, common to both write handlers.\<close>

definition write_fi :: "byte list \<Rightarrow> (fuse_file_info \<Rightarrow> 'u action) \<Rightarrow> 'u action" where
  "write_fi op_in k =
     rd (fuse_write_in_fh op_in) (\<lambda>fh. rd (fuse_write_in_write_flags op_in) (\<lambda>wf w.
       let fi = zero_file_info\<lparr>fi_fh := fh, fi_writepage := has_bits wf FUSE_WRITE_CACHE\<rparr>
       in if proto_minor (conn w) \<ge> 9 then
            rd (fuse_write_in_lock_owner op_in) (\<lambda>lo. rd (fuse_write_in_flags op_in) (\<lambda>flags.
              k (fi\<lparr>fi_lock_owner := lo, fi_flags := flags\<rparr>))) w
          else k fi w))"

definition do_write2 :: "'u fuse_lowlevel_ops \<Rightarrow> addr \<Rightarrow> u64 \<Rightarrow> byte list \<Rightarrow> byte list \<Rightarrow> 'u action" where
  "do_write2 op req nodeid op_in in_payload =
     write_fi op_in (\<lambda>fi.
       case op_write op of
         Some f \<Rightarrow> rd (fuse_write_in_size op_in) (\<lambda>sz. rd (fuse_write_in_offset op_in) (\<lambda>off.
           f req nodeid in_payload (ucast sz) off fi))
       | None \<Rightarrow> reply_err req ENOSYS)"

definition do_write :: "'u fuse_lowlevel_ops \<Rightarrow> addr \<Rightarrow> u64 \<Rightarrow> byte list \<Rightarrow> 'u action" where
  "do_write op req nodeid inarg = (\<lambda>w.
     do_write2 op req nodeid inarg
       (if proto_minor (conn w) < 9 then drop FUSE_COMPAT_WRITE_IN_SIZE inarg
        else drop sizeof_fuse_write_in inarg) w)"

definition do_write_buf2 :: "'u fuse_lowlevel_ops \<Rightarrow> addr \<Rightarrow> u64 \<Rightarrow> byte list \<Rightarrow>
    byte list fuse_bufvec \<Rightarrow> 'u action" where
  "do_write_buf2 op req nodeid op_in bufv =
     write_fi op_in (\<lambda>fi. rd (fuse_write_in_offset op_in) (\<lambda>off.
       deref UseAfterFree (op_write_buf op) (\<lambda>f. f req nodeid bufv off fi)))"

text \<open>Resetting the splice pipe has no effect here: the build has no splice, so that no pipe is
  ever opened.\<close>

definition do_write_buf :: "'u fuse_lowlevel_ops \<Rightarrow> addr \<Rightarrow> u64 \<Rightarrow> byte list \<Rightarrow>
    byte list fuse_buf \<Rightarrow> 'u action" where
  "do_write_buf op req nodeid inarg ibuf w =
     (let is_fd = has_bits (fb_flags ibuf) FUSE_BUF_IS_FD;
          hdr = of_nat sizeof_fuse_in_header
      in if proto_minor (conn w) < 9 \<and> is_fd then raise_fault AssertFail w
         else
           (let b = (if proto_minor (conn w) < 9 then
                       ibuf\<lparr>fb_mem := drop FUSE_COMPAT_WRITE_IN_SIZE inarg,
                            fb_size := fb_size ibuf - (hdr + of_nat FUSE_COMPAT_WRITE_IN_SIZE)\<rparr>
                     else
                       ibuf\<lparr>fb_mem := (if is_fd then fb_mem ibuf else drop sizeof_fuse_write_in inarg),
                            fb_size := fb_size ibuf - (hdr + of_nat sizeof_fuse_write_in)\<rparr>)
            in rd (fuse_write_in_size inarg) (\<lambda>sz.
                 if fb_size b < ucast sz then reply_err req EIO
                 else do_write_buf2 op req nodeid inarg (bufvec_of (b\<lparr>fb_size := ucast sz\<rparr>))) w))"

definition do_flush2 :: "'u fuse_lowlevel_ops \<Rightarrow> addr \<Rightarrow> u64 \<Rightarrow> byte list \<Rightarrow> byte list \<Rightarrow> 'u action" where
  "do_flush2 op req nodeid op_in in_payload =
     rd (fuse_flush_in_fh op_in) (\<lambda>fh w.
       let fi = zero_file_info\<lparr>fi_fh := fh, fi_flush := True\<rparr>;
           k = (\<lambda>fi. call_or_err (op_flush op) (\<lambda>f. f req nodeid fi) req ENOSYS)
       in if proto_minor (conn w) \<ge> 7
          then rd (fuse_flush_in_lock_owner op_in) (\<lambda>lo. k (fi\<lparr>fi_lock_owner := lo\<rparr>)) w
          else k fi w)"

definition do_flush :: "'u fuse_lowlevel_ops \<Rightarrow> addr \<Rightarrow> u64 \<Rightarrow> byte list \<Rightarrow> 'u action" where
  "do_flush op req nodeid inarg = do_flush2 op req nodeid inarg []"

definition do_release2 :: "'u fuse_lowlevel_ops \<Rightarrow> addr \<Rightarrow> u64 \<Rightarrow> byte list \<Rightarrow> byte list \<Rightarrow> 'u action" where
  "do_release2 op req nodeid op_in in_payload =
     rd (fuse_release_in_flags op_in) (\<lambda>flags. rd (fuse_release_in_fh op_in) (\<lambda>fh.
     rd (fuse_release_in_release_flags op_in) (\<lambda>rf. rd (fuse_release_in_lock_owner op_in) (\<lambda>lo w.
       let fi = zero_file_info\<lparr>fi_flags := flags, fi_fh := fh\<rparr>;
           fi = (if proto_minor (conn w) \<ge> 8
                 then fi\<lparr>fi_flush := has_bits rf FUSE_RELEASE_FLUSH, fi_lock_owner := lo\<rparr> else fi);
           fi = (if has_bits rf FUSE_RELEASE_FLOCK_UNLOCK
                 then fi\<lparr>fi_flock_release := True, fi_lock_owner := lo\<rparr> else fi)
       in call_or_err (op_release op) (\<lambda>f. f req nodeid fi) req 0 w))))"

definition do_release :: "'u fuse_lowlevel_ops \<Rightarrow> addr \<Rightarrow> u64 \<Rightarrow> byte list \<Rightarrow> 'u action" where
  "do_release op req nodeid inarg = do_release2 op req nodeid inarg []"

definition do_fsync2 :: "'u fuse_lowlevel_ops \<Rightarrow> addr \<Rightarrow> u64 \<Rightarrow> byte list \<Rightarrow> byte list \<Rightarrow> 'u action" where
  "do_fsync2 op req nodeid op_in in_payload =
     rd (fuse_fsync_in_fsync_flags op_in) (\<lambda>flags. rd (fuse_fsync_in_fh op_in) (\<lambda>fh.
       call_or_err (op_fsync op) (\<lambda>f. f req nodeid (has_bits flags 1) (zero_file_info\<lparr>fi_fh := fh\<rparr>))
         req ENOSYS))"

definition do_fsync :: "'u fuse_lowlevel_ops \<Rightarrow> addr \<Rightarrow> u64 \<Rightarrow> byte list \<Rightarrow> 'u action" where
  "do_fsync op req nodeid inarg = do_fsync2 op req nodeid inarg []"

definition do_opendir2 :: "'u fuse_lowlevel_ops \<Rightarrow> addr \<Rightarrow> u64 \<Rightarrow> byte list \<Rightarrow> byte list \<Rightarrow> 'u action" where
  "do_opendir2 op req nodeid op_in in_payload =
     rd (fuse_open_in_flags op_in) (\<lambda>flags w.
       let fi = zero_file_info\<lparr>fi_flags := flags\<rparr>
       in case op_opendir op of
            Some f \<Rightarrow> f req nodeid fi w
          | None \<Rightarrow> if has_bits (want_ext (conn w)) FUSE_CAP_NO_OPENDIR_SUPPORT
                    then reply_err req ENOSYS w
                    else snd (fuse_reply_open req fi w))"

definition do_opendir :: "'u fuse_lowlevel_ops \<Rightarrow> addr \<Rightarrow> u64 \<Rightarrow> byte list \<Rightarrow> 'u action" where
  "do_opendir op req nodeid inarg = do_opendir2 op req nodeid inarg []"

definition do_readdir2 :: "'u fuse_lowlevel_ops \<Rightarrow> addr \<Rightarrow> u64 \<Rightarrow> byte list \<Rightarrow> byte list \<Rightarrow> 'u action" where
  "do_readdir2 op req nodeid op_in in_payload =
     rd (fuse_read_in_fh op_in) (\<lambda>fh.
       case op_readdir op of
         Some f \<Rightarrow> rd (fuse_read_in_size op_in) (\<lambda>sz. rd (fuse_read_in_offset op_in) (\<lambda>off.
           f req nodeid (ucast sz) off (zero_file_info\<lparr>fi_fh := fh\<rparr>)))
       | None \<Rightarrow> reply_err req ENOSYS)"

definition do_readdir :: "'u fuse_lowlevel_ops \<Rightarrow> addr \<Rightarrow> u64 \<Rightarrow> byte list \<Rightarrow> 'u action" where
  "do_readdir op req nodeid inarg = do_readdir2 op req nodeid inarg []"

definition do_readdirplus2 :: "'u fuse_lowlevel_ops \<Rightarrow> addr \<Rightarrow> u64 \<Rightarrow> byte list \<Rightarrow> byte list \<Rightarrow> 'u action" where
  "do_readdirplus2 op req nodeid op_in in_payload =
     rd (fuse_read_in_fh op_in) (\<lambda>fh.
       case op_readdirplus op of
         Some f \<Rightarrow> rd (fuse_read_in_size op_in) (\<lambda>sz. rd (fuse_read_in_offset op_in) (\<lambda>off.
           f req nodeid (ucast sz) off (zero_file_info\<lparr>fi_fh := fh\<rparr>)))
       | None \<Rightarrow> reply_err req ENOSYS)"

definition do_readdirplus :: "'u fuse_lowlevel_ops \<Rightarrow> addr \<Rightarrow> u64 \<Rightarrow> byte list \<Rightarrow> 'u action" where
  "do_readdirplus op req nodeid inarg = do_readdirplus2 op req nodeid inarg []"

definition do_releasedir2 :: "'u fuse_lowlevel_ops \<Rightarrow> addr \<Rightarrow> u64 \<Rightarrow> byte list \<Rightarrow> byte list \<Rightarrow> 'u action" where
  "do_releasedir2 op req nodeid op_in in_payload =
     rd (fuse_release_in_flags op_in) (\<lambda>flags. rd (fuse_release_in_fh op_in) (\<lambda>fh.
       call_or_err (op_releasedir op)
         (\<lambda>f. f req nodeid (zero_file_info\<lparr>fi_flags := flags, fi_fh := fh\<rparr>)) req 0))"

definition do_releasedir :: "'u fuse_lowlevel_ops \<Rightarrow> addr \<Rightarrow> u64 \<Rightarrow> byte list \<Rightarrow> 'u action" where
  "do_releasedir op req nodeid inarg = do_releasedir2 op req nodeid inarg []"

definition do_fsyncdir2 :: "'u fuse_lowlevel_ops \<Rightarrow> addr \<Rightarrow> u64 \<Rightarrow> byte list \<Rightarrow> byte list \<Rightarrow> 'u action" where
  "do_fsyncdir2 op req nodeid op_in in_payload =
     rd (fuse_fsync_in_fsync_flags op_in) (\<lambda>flags. rd (fuse_fsync_in_fh op_in) (\<lambda>fh.
       call_or_err (op_fsyncdir op) (\<lambda>f. f req nodeid (has_bits flags 1) (zero_file_info\<lparr>fi_fh := fh\<rparr>))
         req ENOSYS))"

definition do_fsyncdir :: "'u fuse_lowlevel_ops \<Rightarrow> addr \<Rightarrow> u64 \<Rightarrow> byte list \<Rightarrow> 'u action" where
  "do_fsyncdir op req nodeid inarg = do_fsyncdir2 op req nodeid inarg []"

definition do_statfs2 :: "'u fuse_lowlevel_ops \<Rightarrow> addr \<Rightarrow> u64 \<Rightarrow> byte list \<Rightarrow> byte list \<Rightarrow> 'u action" where
  "do_statfs2 op req nodeid op_in in_payload =
     (case op_statfs op of
        Some f \<Rightarrow> f req nodeid
      | None \<Rightarrow> (\<lambda>w. snd (fuse_reply_statfs req (zero_statvfs\<lparr>f_namemax := 255, f_bsize := 512\<rparr>) w)))"

definition do_statfs :: "'u fuse_lowlevel_ops \<Rightarrow> addr \<Rightarrow> u64 \<Rightarrow> byte list \<Rightarrow> 'u action" where
  "do_statfs op req nodeid inarg = do_statfs2 op req nodeid inarg []"

definition do_setxattr2 :: "'u fuse_lowlevel_ops \<Rightarrow> addr \<Rightarrow> u64 \<Rightarrow> byte list \<Rightarrow> byte list \<Rightarrow> 'u action" where
  "do_setxattr2 op req nodeid op_in in_payload =
     rd (after_string in_payload) (\<lambda>val.
       case op_setxattr op of
         Some f \<Rightarrow> rd (fuse_setxattr_in_size op_in) (\<lambda>sz. rd (fuse_setxattr_in_flags op_in) (\<lambda>flags.
           f req nodeid in_payload val (ucast sz) flags))
       | None \<Rightarrow> reply_err req ENOSYS)"

definition do_setxattr :: "'u fuse_lowlevel_ops \<Rightarrow> addr \<Rightarrow> u64 \<Rightarrow> byte list \<Rightarrow> 'u action" where
  "do_setxattr op req nodeid inarg = (\<lambda>w.
     do_setxattr2 op req nodeid inarg
       (if has_bits (want (conn w)) (ucast FUSE_CAP_SETXATTR_EXT) then drop sizeof_fuse_setxattr_in inarg
        else drop FUSE_COMPAT_SETXATTR_IN_SIZE inarg) w)"

definition do_getxattr2 :: "'u fuse_lowlevel_ops \<Rightarrow> addr \<Rightarrow> u64 \<Rightarrow> byte list \<Rightarrow> byte list \<Rightarrow> 'u action" where
  "do_getxattr2 op req nodeid op_in in_payload =
     (case op_getxattr op of
        Some f \<Rightarrow> rd (fuse_getxattr_in_size op_in) (\<lambda>sz. f req nodeid in_payload (ucast sz))
      | None \<Rightarrow> reply_err req ENOSYS)"

definition do_getxattr :: "'u fuse_lowlevel_ops \<Rightarrow> addr \<Rightarrow> u64 \<Rightarrow> byte list \<Rightarrow> 'u action" where
  "do_getxattr op req nodeid inarg = do_getxattr2 op req nodeid inarg (drop sizeof_fuse_getxattr_in inarg)"

definition do_listxattr2 :: "'u fuse_lowlevel_ops \<Rightarrow> addr \<Rightarrow> u64 \<Rightarrow> byte list \<Rightarrow> byte list \<Rightarrow> 'u action" where
  "do_listxattr2 op req nodeid op_in in_payload =
     (case op_listxattr op of
        Some f \<Rightarrow> rd (fuse_getxattr_in_size op_in) (\<lambda>sz. f req nodeid (ucast sz))
      | None \<Rightarrow> reply_err req ENOSYS)"

definition do_listxattr :: "'u fuse_lowlevel_ops \<Rightarrow> addr \<Rightarrow> u64 \<Rightarrow> byte list \<Rightarrow> 'u action" where
  "do_listxattr op req nodeid inarg = do_listxattr2 op req nodeid inarg []"

definition do_removexattr2 :: "'u fuse_lowlevel_ops \<Rightarrow> addr \<Rightarrow> u64 \<Rightarrow> byte list \<Rightarrow> byte list \<Rightarrow> 'u action" where
  "do_removexattr2 op req nodeid op_in in_payload =
     call_or_err (op_removexattr op) (\<lambda>f. f req nodeid in_payload) req ENOSYS"

definition do_removexattr :: "'u fuse_lowlevel_ops \<Rightarrow> addr \<Rightarrow> u64 \<Rightarrow> byte list \<Rightarrow> 'u action" where
  "do_removexattr op req nodeid inarg = do_removexattr2 op req nodeid [] inarg"

text \<open>The lock a request carries.\<close>

definition lk_in_lock :: "byte list \<Rightarrow> fuse_file_lock option" where
  "lk_in_lock arg = do {
     s \<leftarrow> fuse_lk_in_lk_start arg;
     e \<leftarrow> fuse_lk_in_lk_end arg;
     t \<leftarrow> fuse_lk_in_lk_type arg;
     p \<leftarrow> fuse_lk_in_lk_pid arg;
     Some \<lparr>fl_start = s, fl_end = e, fl_type = t, fl_pid = p\<rparr>
   }"

abbreviation LOCK_SH :: u32 where "LOCK_SH \<equiv> 1"
abbreviation LOCK_EX :: u32 where "LOCK_EX \<equiv> 2"
abbreviation LOCK_NB :: u32 where "LOCK_NB \<equiv> 4"
abbreviation LOCK_UN :: u32 where "LOCK_UN \<equiv> 8"

definition do_getlk2 :: "'u fuse_lowlevel_ops \<Rightarrow> addr \<Rightarrow> u64 \<Rightarrow> byte list \<Rightarrow> byte list \<Rightarrow> 'u action" where
  "do_getlk2 op req nodeid op_in in_payload =
     rd (fuse_lk_in_fh op_in) (\<lambda>fh. rd (fuse_lk_in_owner op_in) (\<lambda>owner. rd (lk_in_lock op_in) (\<lambda>lk.
       call_or_err (op_getlk op)
         (\<lambda>f. f req nodeid (zero_file_info\<lparr>fi_fh := fh, fi_lock_owner := owner\<rparr>)
           (convert_fuse_file_lock lk)) req ENOSYS)))"

definition do_getlk :: "'u fuse_lowlevel_ops \<Rightarrow> addr \<Rightarrow> u64 \<Rightarrow> byte list \<Rightarrow> 'u action" where
  "do_getlk op req nodeid inarg = do_getlk2 op req nodeid inarg []"

definition do_setlk_common :: "'u fuse_lowlevel_ops \<Rightarrow> addr \<Rightarrow> u64 \<Rightarrow> byte list \<Rightarrow> bool \<Rightarrow> 'u action" where
  "do_setlk_common op req nodeid op_in sleep =
     rd (fuse_lk_in_fh op_in) (\<lambda>fh. rd (fuse_lk_in_owner op_in) (\<lambda>owner.
     rd (fuse_lk_in_lk_flags op_in) (\<lambda>lk_flags. rd (lk_in_lock op_in) (\<lambda>lk.
       let fi = zero_file_info\<lparr>fi_fh := fh, fi_lock_owner := owner\<rparr>
       in if has_bits lk_flags FUSE_LK_FLOCK then
            (let opc = (if fl_type lk = ucast F_RDLCK then LOCK_SH
                        else if fl_type lk = ucast F_WRLCK then LOCK_EX
                        else if fl_type lk = ucast F_UNLCK then LOCK_UN else 0);
                 opc = (if \<not> sleep then opc OR LOCK_NB else opc)
             in call_or_err (op_flock op) (\<lambda>f. f req nodeid fi opc) req ENOSYS)
          else call_or_err (op_setlk op)
                 (\<lambda>f. f req nodeid fi (convert_fuse_file_lock lk) sleep) req ENOSYS))))"

definition do_setlk2 :: "'u fuse_lowlevel_ops \<Rightarrow> addr \<Rightarrow> u64 \<Rightarrow> byte list \<Rightarrow> byte list \<Rightarrow> 'u action" where
  "do_setlk2 op req nodeid op_in in_payload =
     do_setlk_common op req nodeid op_in False"

definition do_setlk :: "'u fuse_lowlevel_ops \<Rightarrow> addr \<Rightarrow> u64 \<Rightarrow> byte list \<Rightarrow> 'u action" where
  "do_setlk op req nodeid inarg = do_setlk2 op req nodeid inarg []"

definition do_setlkw2 :: "'u fuse_lowlevel_ops \<Rightarrow> addr \<Rightarrow> u64 \<Rightarrow> byte list \<Rightarrow> byte list \<Rightarrow> 'u action" where
  "do_setlkw2 op req nodeid op_in in_payload =
     do_setlk_common op req nodeid op_in True"

definition do_setlkw :: "'u fuse_lowlevel_ops \<Rightarrow> addr \<Rightarrow> u64 \<Rightarrow> byte list \<Rightarrow> 'u action" where
  "do_setlkw op req nodeid inarg = do_setlkw2 op req nodeid inarg []"

definition do_bmap2 :: "'u fuse_lowlevel_ops \<Rightarrow> addr \<Rightarrow> u64 \<Rightarrow> byte list \<Rightarrow> byte list \<Rightarrow> 'u action" where
  "do_bmap2 op req nodeid op_in in_payload =
     (case op_bmap op of
        Some f \<Rightarrow> rd (fuse_bmap_in_blocksize op_in) (\<lambda>bs. rd (fuse_bmap_in_block op_in) (\<lambda>b.
          f req nodeid (ucast bs) b))
      | None \<Rightarrow> reply_err req ENOSYS)"

definition do_bmap :: "'u fuse_lowlevel_ops \<Rightarrow> addr \<Rightarrow> u64 \<Rightarrow> byte list \<Rightarrow> 'u action" where
  "do_bmap op req nodeid inarg = do_bmap2 op req nodeid inarg []"

text \<open>The 64-bit flag of an ioctl is only set where pointers have four bytes.\<close>

definition do_ioctl2 :: "'u fuse_lowlevel_ops \<Rightarrow> addr \<Rightarrow> u64 \<Rightarrow> byte list \<Rightarrow> byte list \<Rightarrow> 'u action" where
  "do_ioctl2 op req nodeid op_in in_payload =
     rd (fuse_ioctl_in_flags op_in) (\<lambda>flags w.
       if has_bits flags FUSE_IOCTL_DIR \<and> \<not> has_bits (want_ext (conn w)) FUSE_CAP_IOCTL_DIR
       then reply_err req ENOTTY w
       else rd (fuse_ioctl_in_fh op_in) (\<lambda>fh.
         case op_ioctl op of
           None \<Rightarrow> reply_err req ENOSYS
         | Some f \<Rightarrow>
             rd (fuse_ioctl_in_cmd op_in) (\<lambda>cmd. rd (fuse_ioctl_in_arg op_in) (\<lambda>arg.
             rd (fuse_ioctl_in_in_size op_in) (\<lambda>isz. rd (fuse_ioctl_in_out_size op_in) (\<lambda>osz.
               f req nodeid cmd arg (zero_file_info\<lparr>fi_fh := fh\<rparr>) flags in_payload
                 (ucast isz) (ucast osz)))))) w)"

definition do_ioctl :: "'u fuse_lowlevel_ops \<Rightarrow> addr \<Rightarrow> u64 \<Rightarrow> byte list \<Rightarrow> 'u action" where
  "do_ioctl op req nodeid inarg = rd (fuse_ioctl_in_in_size inarg) (\<lambda>sz.
     do_ioctl2 op req nodeid inarg (if sz \<noteq> 0 then drop sizeof_fuse_ioctl_in inarg else []))"

definition do_poll2 :: "'u fuse_lowlevel_ops \<Rightarrow> addr \<Rightarrow> u64 \<Rightarrow> byte list \<Rightarrow> byte list \<Rightarrow> 'u action" where
  "do_poll2 op req nodeid op_in in_payload =
     rd (fuse_poll_in_fh op_in) (\<lambda>fh. rd (fuse_poll_in_events op_in) (\<lambda>ev.
       let fi = zero_file_info\<lparr>fi_fh := fh, fi_poll_events := ev\<rparr>
       in case op_poll op of
            None \<Rightarrow> reply_err req ENOSYS
          | Some f \<Rightarrow>
              rd (fuse_poll_in_flags op_in) (\<lambda>flags.
                if has_bits flags FUSE_POLL_SCHEDULE_NOTIFY then
                  (\<lambda>w. let (ok, w) = try_malloc w
                        in if \<not> ok then reply_err req ENOMEM w
                           else rd (fuse_poll_in_kh op_in) (\<lambda>kh. f req nodeid fi (Some kh)) w)
                else f req nodeid fi None)))"

definition do_poll :: "'u fuse_lowlevel_ops \<Rightarrow> addr \<Rightarrow> u64 \<Rightarrow> byte list \<Rightarrow> 'u action" where
  "do_poll op req nodeid inarg = do_poll2 op req nodeid inarg []"

definition do_fallocate2 :: "'u fuse_lowlevel_ops \<Rightarrow> addr \<Rightarrow> u64 \<Rightarrow> byte list \<Rightarrow> byte list \<Rightarrow> 'u action" where
  "do_fallocate2 op req nodeid op_in in_payload =
     rd (fuse_fallocate_in_fh op_in) (\<lambda>fh.
       case op_fallocate op of
         None \<Rightarrow> reply_err req ENOSYS
       | Some f \<Rightarrow>
           rd (fuse_fallocate_in_mode op_in) (\<lambda>mode. rd (fuse_fallocate_in_offset op_in) (\<lambda>off.
           rd (fuse_fallocate_in_length op_in) (\<lambda>len.
             f req nodeid mode off len (zero_file_info\<lparr>fi_fh := fh\<rparr>)))))"

definition do_fallocate :: "'u fuse_lowlevel_ops \<Rightarrow> addr \<Rightarrow> u64 \<Rightarrow> byte list \<Rightarrow> 'u action" where
  "do_fallocate op req nodeid inarg = do_fallocate2 op req nodeid inarg []"

text \<open>The length is an argument: \<^verbatim>\<open>_do_copy_file_range\<close> passes a copy of the structure in which only
  the length is changed.\<close>

definition copy_file_range_common :: "'u fuse_lowlevel_ops \<Rightarrow> addr \<Rightarrow> u64 \<Rightarrow> byte list \<Rightarrow> u64 \<Rightarrow> 'u action"
  where
  "copy_file_range_common op req nodeid_in arg len =
     rd (fuse_copy_file_range_in_fh_in arg) (\<lambda>fh_in. rd (fuse_copy_file_range_in_fh_out arg) (\<lambda>fh_out.
       case op_copy_file_range op of
         None \<Rightarrow> reply_err req ENOSYS
       | Some f \<Rightarrow>
           rd (fuse_copy_file_range_in_off_in arg) (\<lambda>off_in.
           rd (fuse_copy_file_range_in_nodeid_out arg) (\<lambda>nodeid_out.
           rd (fuse_copy_file_range_in_off_out arg) (\<lambda>off_out.
           rd (fuse_copy_file_range_in_flags arg) (\<lambda>flags.
             f req nodeid_in off_in (zero_file_info\<lparr>fi_fh := fh_in\<rparr>) nodeid_out off_out
               (zero_file_info\<lparr>fi_fh := fh_out\<rparr>) len (ucast flags)))))))"

definition do_copy_file_range2 :: "'u fuse_lowlevel_ops \<Rightarrow> addr \<Rightarrow> u64 \<Rightarrow> byte list \<Rightarrow> byte list \<Rightarrow> 'u action" where
  "do_copy_file_range2 op req nodeid op_in in_payload =
     rd (fuse_copy_file_range_in_len op_in) (\<lambda>len.
       copy_file_range_common op req nodeid op_in (if len > 0xFFFFF000 then 0xFFFFF000 else len))"

definition do_copy_file_range :: "'u fuse_lowlevel_ops \<Rightarrow> addr \<Rightarrow> u64 \<Rightarrow> byte list \<Rightarrow> 'u action" where
  "do_copy_file_range op req nodeid inarg = do_copy_file_range2 op req nodeid inarg []"

definition do_copy_file_range_642 :: "'u fuse_lowlevel_ops \<Rightarrow> addr \<Rightarrow> u64 \<Rightarrow> byte list \<Rightarrow> byte list \<Rightarrow> 'u action" where
  "do_copy_file_range_642 op req nodeid op_in in_payload =
     (\<lambda>w. rd (fuse_copy_file_range_in_len op_in) (\<lambda>len. copy_file_range_common op req nodeid op_in len)
        (req_mod req (\<lambda>r. r\<lparr>rq_is_copy_file_range_64 := True\<rparr>) w))"

definition do_copy_file_range_64 :: "'u fuse_lowlevel_ops \<Rightarrow> addr \<Rightarrow> u64 \<Rightarrow> byte list \<Rightarrow> 'u action" where
  "do_copy_file_range_64 op req nodeid inarg = do_copy_file_range_642 op req nodeid inarg []"

definition do_lseek2 :: "'u fuse_lowlevel_ops \<Rightarrow> addr \<Rightarrow> u64 \<Rightarrow> byte list \<Rightarrow> byte list \<Rightarrow> 'u action" where
  "do_lseek2 op req nodeid op_in in_payload =
     rd (fuse_lseek_in_fh op_in) (\<lambda>fh.
       case op_lseek op of
         None \<Rightarrow> reply_err req ENOSYS
       | Some f \<Rightarrow> rd (fuse_lseek_in_offset op_in) (\<lambda>off. rd (fuse_lseek_in_whence op_in) (\<lambda>whence.
           f req nodeid off whence (zero_file_info\<lparr>fi_fh := fh\<rparr>))))"

definition do_lseek :: "'u fuse_lowlevel_ops \<Rightarrow> addr \<Rightarrow> u64 \<Rightarrow> byte list \<Rightarrow> 'u action" where
  "do_lseek op req nodeid inarg = do_lseek2 op req nodeid inarg []"

text \<open>Without \<^verbatim>\<open>HAVE_STATX\<close> the statx handler neither answers nor frees its request.\<close>

definition do_statx2 :: "'u fuse_lowlevel_ops \<Rightarrow> addr \<Rightarrow> u64 \<Rightarrow> byte list \<Rightarrow> byte list \<Rightarrow> 'u action" where
  "do_statx2 op req nodeid op_in in_payload =
     (\<lambda>w. w)"

definition do_statx :: "'u fuse_lowlevel_ops \<Rightarrow> addr \<Rightarrow> u64 \<Rightarrow> byte list \<Rightarrow> 'u action" where
  "do_statx op req nodeid inarg = do_statx2 op req nodeid inarg []"

definition do_destroy2 :: "'u fuse_lowlevel_ops \<Rightarrow> addr \<Rightarrow> u64 \<Rightarrow> byte list \<Rightarrow> byte list \<Rightarrow> 'u action" where
  "do_destroy2 op req nodeid op_in in_payload =
     (\<lambda>w.
        let w = se_mod (\<lambda>s. s\<lparr>se_mountpoint := None, se_got_destroy := True, se_got_init := False\<rparr>) w;
            w = (case op_destroy op of None \<Rightarrow> w | Some f \<Rightarrow> f (se_userdata (se w)) w)
        in snd (send_reply_ok req [] w))"

definition do_destroy :: "'u fuse_lowlevel_ops \<Rightarrow> addr \<Rightarrow> u64 \<Rightarrow> byte list \<Rightarrow> 'u action" where
  "do_destroy op req nodeid inarg = do_destroy2 op req nodeid inarg []"

end
