(* ===== verification/Fuse_Interrupt.thy ===== *)
theory Fuse_Interrupt
  imports Fuse_Ops
begin

text \<open>
  Interrupts in \<^verbatim>\<open>libs/libfuse/lib/fuse_lowlevel.c\<close>: a \<^verbatim>\<open>FUSE_INTERRUPT\<close> request names the unique
  number of another request. It marks that request when it is in flight, and waits on the
  session's second list when it is not; a request that arrives later finds it there. One thread
  runs the library (the daemon), so that the lock windows of \<^verbatim>\<open>find_interrupted\<close> are not
  interleaved with other handlers; the callback that it runs may still free the request.
\<close>

section \<open>Operations\<close>

text \<open>The scan of a list for the first request with property \<open>P\<close>. A request that is no longer
  allocated stops the scan with a fault, as does a list without end.\<close>

definition scan_reqs :: "'u fuse_world \<Rightarrow> addr \<Rightarrow> (fuse_req \<Rightarrow> bool) \<Rightarrow> fault + addr option" where
  "scan_reqs w head P =
     (case list_scan (links w) head (\<lambda>c. case reqs w c of None \<Rightarrow> True | Some x \<Rightarrow> P x)
             (lk_next (links w) head) of
        None \<Rightarrow> Inl NonTermination
      | Some None \<Rightarrow> Inr None
      | Some (Some c) \<Rightarrow> (if reqs w c = None then Inl UseAfterFree else Inr (Some c)))"

definition mark_interrupted :: "'u fuse_lowlevel_ops \<Rightarrow> addr \<Rightarrow> 'u action" where
  "mark_interrupted op cur w =
     (let w = req_mod cur (\<lambda>c. c\<lparr>rq_ref_cnt := rq_ref_cnt c + 1\<rparr>) w;
          w = req_mod cur (\<lambda>c. c\<lparr>rq_interrupted := True\<rparr>) w;
          w = with_req cur (\<lambda>c w. if rq_u_lo c \<noteq> 0 then intr_func op (rq_u_lo c) cur (rq_u_hi c) w else w) w;
          w = req_mod cur (\<lambda>c. c\<lparr>rq_ref_cnt := rq_ref_cnt c - 1\<rparr>) w
      in with_req cur (\<lambda>c w. if rq_ref_cnt c = 0 then destroy_req cur w else w) w)"

definition find_interrupted :: "'u fuse_lowlevel_ops \<Rightarrow> addr \<Rightarrow> 'u fuse_world \<Rightarrow> int \<times> 'u fuse_world"
  where
  "find_interrupted op req = with_req_int req (\<lambda>r w.
     case scan_reqs w SE_LIST (\<lambda>c. rq_unique c = rq_u_lo r) of
       Inl f \<Rightarrow> (0, raise_fault f w)
     | Inr (Some cur) \<Rightarrow> (1, mark_interrupted op cur w)
     | Inr None \<Rightarrow>
         (case scan_reqs w SE_INTERRUPTS (\<lambda>c. rq_u_lo c = rq_u_lo r) of
            Inl f \<Rightarrow> (0, raise_fault f w)
          | Inr (Some _) \<Rightarrow> (1, w)
          | Inr None \<Rightarrow> (0, w)))"

definition do_interrupt2 :: "'u fuse_lowlevel_ops \<Rightarrow> addr \<Rightarrow> u64 \<Rightarrow> byte list \<Rightarrow> byte list \<Rightarrow> 'u action" where
  "do_interrupt2 op req nodeid op_in in_payload =
     rd (fuse_interrupt_in_unique op_in) (\<lambda>unique w.
       let w = req_mod req (\<lambda>r. r\<lparr>rq_u_lo := unique\<rparr>) w;
           (found, w) = find_interrupted op req w
       in if found \<noteq> 0 then destroy_req req (req_mod req (\<lambda>r. r\<lparr>rq_ch := None\<rparr>) w)
          else w\<lparr>links := list_add_req (links w) req SE_INTERRUPTS\<rparr>)"

definition do_interrupt :: "'u fuse_lowlevel_ops \<Rightarrow> addr \<Rightarrow> u64 \<Rightarrow> byte list \<Rightarrow> 'u action" where
  "do_interrupt op req nodeid inarg = do_interrupt2 op req nodeid inarg []"

text \<open>The result is the waiting interrupt that the caller has to answer, if any.\<close>

definition check_interrupt :: "addr \<Rightarrow> 'u fuse_world \<Rightarrow> addr option \<times> 'u fuse_world" where
  "check_interrupt req w =
     (case reqs w req of
        None \<Rightarrow> (None, raise_fault UseAfterFree w)
      | Some r \<Rightarrow>
          (case scan_reqs w SE_INTERRUPTS (\<lambda>c. rq_u_lo c = rq_unique r) of
             Inl f \<Rightarrow> (None, raise_fault f w)
           | Inr (Some cur) \<Rightarrow>
               (let w = req_mod req (\<lambda>r. r\<lparr>rq_interrupted := True\<rparr>) w;
                    w = w\<lparr>links := list_del_req (links w) cur\<rparr>;
                    w = with_req cur (\<lambda>c. fuse_chan_put (rq_ch c)) w;
                    w = req_mod cur (\<lambda>c. c\<lparr>rq_ch := None\<rparr>) w
                in (None, destroy_req cur w))
           | Inr None \<Rightarrow>
               (let cur = lk_next (links w) SE_INTERRUPTS
                in if cur \<noteq> SE_INTERRUPTS then
                     (let w = w\<lparr>links := list_del_req (links w) cur\<rparr>
                      in (Some cur, w\<lparr>links := list_init_req (links w) cur\<rparr>))
                   else (None, w))))"

definition fuse_req_interrupt_func :: "'u fuse_lowlevel_ops \<Rightarrow> addr \<Rightarrow> u64 \<Rightarrow> u64 \<Rightarrow> 'u action" where
  "fuse_req_interrupt_func op req func data = with_req req (\<lambda>r w.
     let w = req_mod req (\<lambda>r. r\<lparr>rq_u_lo := func, rq_u_hi := data\<rparr>) w
     in if rq_interrupted r \<and> func \<noteq> 0 then intr_func op func req data w else w)"

definition fuse_req_interrupted :: "addr \<Rightarrow> 'u fuse_world \<Rightarrow> bool option" where
  "fuse_req_interrupted req w = map_option rq_interrupted (reqs w req)"

section \<open>Lemmas\<close>

text \<open>In a well-formed state a scan is a search in the list of the head.\<close>

lemma scan_reqs_ring:
  assumes "ring (links w) h xs" and "set xs \<subseteq> dom (reqs w)"
  shows "scan_reqs w h P = Inr (find (\<lambda>c. P (the (reqs w c))) xs)"
proof -
  let ?Q = "\<lambda>c. case reqs w c of None \<Rightarrow> True | Some x \<Rightarrow> P x"
  have "find ?Q xs = find (\<lambda>c. P (the (reqs w c))) xs"
    using assms(2) by (intro find_cong) (auto split: option.splits)
  then have "list_scan (links w) h ?Q (lk_next (links w) h) = Some (find (\<lambda>c. P (the (reqs w c))) xs)"
    using list_scan_ring [OF assms(1), of ?Q] by simp
  moreover have "reqs w c \<noteq> None" if "find (\<lambda>c. P (the (reqs w c))) xs = Some c" for c
    using that assms(2) nth_mem by (fastforce simp: find_Some_iff)
  ultimately show ?thesis by (auto simp: scan_reqs_def split: option.splits)
qed

lemma scan_lists:
  assumes "wf_world w ls is"
  shows "scan_reqs w SE_LIST P = Inr (find (\<lambda>c. P (the (reqs w c))) ls)"
    and "scan_reqs w SE_INTERRUPTS P = Inr (find (\<lambda>c. P (the (reqs w c))) is)"
  using assms by (auto intro!: scan_reqs_ring simp: wf_world_def)

lemma interrupts_head:
  assumes "wf_world w ls is"
  shows "lk_next (links w) SE_INTERRUPTS = hd (is @ [SE_INTERRUPTS])"
proof -
  have "chain (links w) (SE_INTERRUPTS # is @ [SE_INTERRUPTS])"
    using assms by (simp add: wf_world_def ring_def)
  then show ?thesis by (cases "is") auto
qed

text \<open>What \<^verbatim>\<open>check_interrupt\<close> does: an interrupt for this very request is consumed and marks it, and
  otherwise the oldest waiting interrupt is handed to the caller, unlinked.\<close>

lemma check_interrupt_cases:
  assumes wf: "wf_world w ls is" and r: "reqs w a = Some r" "a \<notin> set is"
    and ok: "\<forall>c \<in> set is. \<not> rq_is_uring (the (reqs w c))"
  obtains
    (hit) c where "c \<in> set is" "rq_u_lo (the (reqs w c)) = rq_unique r"
      "check_interrupt a w = (None, w\<lparr>reqs := (reqs w)(a \<mapsto> r\<lparr>rq_interrupted := True\<rparr>, c := None),
         links := list_del_req (links w) c\<rparr>)"
      "wf_world (snd (check_interrupt a w)) ls (remove1 c is)"
  | (other) c "is'" where "is = c # is'" "\<forall>c \<in> set is. rq_u_lo (the (reqs w c)) \<noteq> rq_unique r"
      "check_interrupt a w = (Some c, w\<lparr>links := list_init_req (list_del_req (links w) c) c\<rparr>)"
      "wf_world (snd (check_interrupt a w)) ls is'"
  | (none) "is = []" "check_interrupt a w = (None, w)"
proof -
  let ?P = "\<lambda>c. rq_u_lo (the (reqs w c)) = rq_unique r"
  have scan: "scan_reqs w SE_INTERRUPTS (\<lambda>c. rq_u_lo c = rq_unique r) = Inr (find ?P is)"
    using scan_lists(2) [OF wf] .
  show ?thesis
  proof (cases "find ?P is")
    case (Some c)
    then have c: "c \<in> set is" "?P c" by (auto simp: find_Some_iff)
    then obtain x where x: "reqs w c = Some x" using wf by (auto simp: wf_world_def)
    have nu: "\<not> rq_is_uring x" using ok c(1) x by auto
    have ca: "c \<noteq> a" using c(1) r(2) by auto
    have eq: "check_interrupt a w = (None, w\<lparr>reqs := (reqs w)(a \<mapsto> r\<lparr>rq_interrupted := True\<rparr>, c := None),
         links := list_del_req (links w) c\<rparr>)"
      using scan Some r x nu ca
      by (simp add: check_interrupt_def Let_def fuse_chan_put_def destroy_req_def fun_upd_twist)
    let ?w = "w\<lparr>reqs := (reqs w)(a \<mapsto> r\<lparr>rq_interrupted := True\<rparr>)\<rparr>"
    have "wf_world ?w ls is = wf_world w ls is" by (rule wf_world_cong) (use r in auto)
    then have "wf_world (?w\<lparr>reqs := (reqs ?w)(c := None), links := list_del_req (links ?w) c\<rparr>) ls (remove1 c is)"
      using wf wf_unlist_interrupt(2) [of ?w ls "is" c] c(1) by simp
    then show ?thesis using hit [OF c eq] eq by simp
  next
    case None
    then have no: "\<forall>c \<in> set is. \<not> ?P c" by (auto simp: find_None_iff)
    show ?thesis
    proof (cases "is")
      case Nil
      then show ?thesis
        using none scan None r interrupts_head [OF wf] by (simp add: check_interrupt_def)
    next
      case (Cons c is')
      have "c \<noteq> SE_INTERRUPTS"
        using wf_world_heads(2) [OF wf] wf_world_listed(2) [OF wf] Cons by auto
      then have eq: "check_interrupt a w = (Some c, w\<lparr>links := list_init_req (list_del_req (links w) c) c\<rparr>)"
        using scan None r interrupts_head [OF wf] Cons by (simp add: check_interrupt_def Let_def)
      then show ?thesis
        using other [OF Cons no eq] wf_unlist_interrupt(1) [OF wf, of c] Cons by simp
    qed
  qed
qed

section \<open>Properties\<close>

text \<open>A concrete session: request 2 is in progress, request 3 is an interrupt for it.\<close>

definition demo_requests :: "unit fuse_world" where
  "demo_requests = demo_world\<lparr>brk := 4,
     reqs := [2 \<mapsto> zero_req\<lparr>rq_ref_cnt := 1, rq_unique := 7\<rparr>, 3 \<mapsto> zero_req\<lparr>rq_ref_cnt := 1, rq_u_lo := 7\<rparr>],
     links := list_add_req (list_init_req (list_init_req (links demo_world) 2) 3) 2 SE_LIST\<rparr>"

lemma demo_requests_simps:
  "reqs demo_requests = [2 \<mapsto> zero_req\<lparr>rq_ref_cnt := 1, rq_unique := 7\<rparr>, 3 \<mapsto> zero_req\<lparr>rq_ref_cnt := 1, rq_u_lo := 7\<rparr>]"
  "\<not> no_interrupt (conn demo_requests)"
  by (simp_all add: demo_requests_def demo_world_def fuse_session_new_versioned_def demo_platform_def zero_conn_info_def Let_def)

lemma demo_requests_wf: "wf_world demo_requests [2] []"
proof -
  have 0: "wf_world demo_world [] []" by (rule wf_session_new [OF demo_world_new])
  let ?r2 = "zero_req\<lparr>rq_ref_cnt := 1, rq_unique := 7\<rparr>" let ?r3 = "zero_req\<lparr>rq_ref_cnt := 1, rq_u_lo := 7\<rparr>"
  let ?w2 = "demo_world\<lparr>brk := 3, reqs := [2 \<mapsto> ?r2], links := list_init_req (links demo_world) 2\<rparr>"
  have "wf_world ?w2 [] []" using wf_alloc [OF 0, of ?r2] by (simp add: demo_world_simps)
  from wf_list(1) [OF wf_alloc [OF this, of ?r3], of 2] show ?thesis
    using demo_requests_simps(2) by (simp add: demo_requests_def)
qed

text \<open>When a request arrives, an interrupt waiting for it marks it as interrupted and is consumed;
  otherwise the oldest waiting interrupt, if there is one, is taken off the list for an
  \<open>EAGAIN\<close> answer. The session's lists stay well formed.\<close>

lemma check_interrupt_result:
  assumes wf: "wf_world w ls is" and r: "reqs w a = Some r" "a \<notin> set is"
    and ok: "\<forall>c \<in> set is. \<not> rq_is_uring (the (reqs w c))"
  defines "hit \<equiv> (\<exists>c \<in> set is. rq_u_lo (the (reqs w c)) = rq_unique r)"
  shows "if hit then (\<exists>c \<in> set is. rq_u_lo (the (reqs w c)) = rq_unique r \<and> fst (check_interrupt a w) = None \<and>
        reqs (snd (check_interrupt a w)) = (reqs w)(a \<mapsto> r\<lparr>rq_interrupted := True\<rparr>, c := None) \<and>
        wf_world (snd (check_interrupt a w)) ls (remove1 c is))
      else if is \<noteq> [] then fst (check_interrupt a w) = Some (hd is) \<and> reqs (snd (check_interrupt a w)) = reqs w \<and>
        wf_world (snd (check_interrupt a w)) ls (tl is)
      else check_interrupt a w = (None, w)"
proof -
  show ?thesis
  proof (cases rule: check_interrupt_cases [OF wf r ok, case_names hit other none])
    case (hit c)
    then show ?thesis unfolding hit_def by auto
  next
    case (other c is')
    then show ?thesis unfolding hit_def by auto
  next
    case none
    then show ?thesis unfolding hit_def by auto
  qed
qed

text \<open>An interrupt for a request in progress marks that request as interrupted and is freed, when the
  request has no callback; an interrupt for an unknown request waits on the interrupt list.\<close>

lemma do_interrupt_result:
  assumes wf: "wf_world w ls is" and i: "reqs w i = Some ri" "\<not> rq_is_uring ri" "i \<notin> set ls" "i \<notin> set is"
    and u: "fuse_interrupt_in_unique op_in = Some u" and n: "\<not> no_interrupt (conn w)"
  shows "(\<forall>c rc. find (\<lambda>c. rq_unique (the (reqs w c)) = u) ls = Some c \<longrightarrow> reqs w c = Some rc \<longrightarrow>
      rq_u_lo rc = 0 \<longrightarrow> rq_ref_cnt rc \<noteq> 0 \<longrightarrow>
      do_interrupt2 op i nodeid op_in pl w =
        w\<lparr>reqs := (reqs w)(c \<mapsto> rc\<lparr>rq_interrupted := True\<rparr>, i := None)\<rparr>) \<and>
    (find (\<lambda>c. rq_unique (the (reqs w c)) = u) ls = None \<longrightarrow> find (\<lambda>c. rq_u_lo (the (reqs w c)) = u) is = None \<longrightarrow>
      reqs (do_interrupt2 op i nodeid op_in pl w) = (reqs w)(i \<mapsto> ri\<lparr>rq_u_lo := u\<rparr>) \<and>
      wf_world (do_interrupt2 op i nodeid op_in pl w) ls (is @ [i]))"
proof -
  let ?w = "w\<lparr>reqs := (reqs w)(i \<mapsto> ri\<lparr>rq_u_lo := u\<rparr>)\<rparr>"
  have wf1: "wf_world ?w ls is" using wf i(1) by (subst wf_world_cong [of _ w]) auto
  have l: "find (\<lambda>c. P (the (reqs ?w c))) ls = find (\<lambda>c. P (the (reqs w c))) ls"
    "find (\<lambda>c. P (the (reqs ?w c))) is = find (\<lambda>c. P (the (reqs w c))) is" for P
    using i(3,4) by (auto intro!: find_cong)
  have rm: "req_mod i (\<lambda>r. r\<lparr>rq_u_lo := u\<rparr>) w = ?w" using i(1) by (simp add: req_mod_def with_req_def)
  have fi: "find_interrupted op i ?w =
      (case find (\<lambda>c. rq_unique (the (reqs w c)) = u) ls of
         Some c \<Rightarrow> (1, mark_interrupted op c ?w)
       | None \<Rightarrow> (case find (\<lambda>c. rq_u_lo (the (reqs w c)) = u) is of Some _ \<Rightarrow> (1, ?w) | None \<Rightarrow> (0, ?w)))"
    using scan_lists [OF wf1, unfolded l] by (simp add: find_interrupted_def split: option.splits)
  have "do_interrupt2 op i nodeid op_in pl w = w\<lparr>reqs := (reqs w)(c \<mapsto> rc\<lparr>rq_interrupted := True\<rparr>, i := None)\<rparr>"
    if f: "find (\<lambda>c. rq_unique (the (reqs w c)) = u) ls = Some c" and c: "reqs w c = Some rc" "rq_u_lo rc = 0" "rq_ref_cnt rc \<noteq> 0"
    for c rc
  proof -
    have "c \<in> set ls" using f by (auto simp: find_Some_iff)
    then have ci: "c \<noteq> i" using i(3) by auto
    have mk: "mark_interrupted op c ?w = ?w\<lparr>reqs := (reqs ?w)(c \<mapsto> rc\<lparr>rq_interrupted := True\<rparr>)\<rparr>"
      using c ci by (simp add: mark_interrupted_def Let_def req_mod_def with_req_def)
    show ?thesis
      using rm fi mk f u i(2) ci by (simp add: do_interrupt2_def Let_def req_mod_def with_req_def destroy_req_def fun_upd_twist)
  qed
  moreover have "reqs (do_interrupt2 op i nodeid op_in pl w) = (reqs w)(i \<mapsto> ri\<lparr>rq_u_lo := u\<rparr>) \<and>
      wf_world (do_interrupt2 op i nodeid op_in pl w) ls (is @ [i])"
    if "find (\<lambda>c. rq_unique (the (reqs w c)) = u) ls = None" "find (\<lambda>c. rq_u_lo (the (reqs w c)) = u) is = None"
  proof -
    have "do_interrupt2 op i nodeid op_in pl w = ?w\<lparr>links := list_add_req (links w) i SE_INTERRUPTS\<rparr>"
      using rm fi that u by (simp add: do_interrupt2_def Let_def)
    moreover have "wf_world (?w\<lparr>links := list_add_req (links ?w) i SE_INTERRUPTS\<rparr>) ls (is @ [i])"
      by (rule wf_list(2) [OF wf1]) (use i n in auto)
    ultimately show ?thesis by simp
  qed
  ultimately show ?thesis by blast
qed

end
