(* ===== verification/Fuse_Init.thy ===== *)
theory Fuse_Init
  imports Fuse_Ops
begin

text \<open>
  Connection set-up in \<^verbatim>\<open>libs/libfuse/lib/fuse_lowlevel.c\<close>: the negotiation of capabilities by the
  handler of \<^verbatim>\<open>FUSE_INIT\<close>, the feature flag functions a file system calls from its \<open>init\<close>
  operation, and the conversion of the old 32-bit \<open>want\<close> into \<open>want_ext\<close>. The stubs of
  \<^verbatim>\<open>fuse_uring_stub.c\<close> and \<^verbatim>\<open>fuse_compat_stub.c\<close> that the handler calls are included.
\<close>

section \<open>Feature flags\<close>

definition fuse_lower_32_bits :: "u64 \<Rightarrow> u32" where
  "fuse_lower_32_bits n = ucast n"

definition fuse_higher_32_bits :: "u64 \<Rightarrow> u32" where
  "fuse_higher_32_bits n = ucast (drop_bit 32 n)"

definition want_flags_valid :: "u64 \<Rightarrow> u64 \<Rightarrow> bool" where
  "want_flags_valid cap wnt = (wnt AND NOT cap = 0)"

definition fuse_convert_to_conn_want_ext :: "'u fuse_world \<Rightarrow> int \<times> 'u fuse_world" where
  "fuse_convert_to_conn_want_ext w =
     (let c = conn w
      in if want c \<noteq> se_conn_want (se w) \<and> fuse_lower_32_bits (want_ext c) \<noteq> want c then
           (if want_ext c \<noteq> se_conn_want_ext (se w) then (- EINVAL, w)
            else
              (let w = conn_mod (\<lambda>c. c\<lparr>want_ext := ucast (fuse_higher_32_bits (want_ext c) OR want c)\<rparr>) w
               in (0, conn_mod (\<lambda>c. c\<lparr>want := fuse_lower_32_bits (want_ext c)\<rparr>) w)))
         else (0, conn_mod (\<lambda>c. c\<lparr>want := fuse_lower_32_bits (want_ext c)\<rparr>) w))"

definition fuse_set_feature_flag :: "u64 \<Rightarrow> 'u fuse_world \<Rightarrow> bool \<times> 'u fuse_world" where
  "fuse_set_feature_flag flag w =
     (if has_bits (capable_ext (conn w)) flag then
        (True, se_mod (\<lambda>s. s\<lparr>se_conn := (se_conn s)\<lparr>want_ext := want_ext (se_conn s) OR flag,
                                                    want := want (se_conn s) OR ucast flag\<rparr>,
                              se_conn_want_ext := se_conn_want_ext s OR flag,
                              se_conn_want := se_conn_want s OR ucast flag\<rparr>) w)
      else (False, w))"

definition fuse_unset_feature_flag :: "u64 \<Rightarrow> 'u fuse_world \<Rightarrow> 'u fuse_world" where
  "fuse_unset_feature_flag flag =
     se_mod (\<lambda>s. s\<lparr>se_conn := (se_conn s)\<lparr>want_ext := want_ext (se_conn s) AND NOT flag,
                                            want := want (se_conn s) AND ucast (NOT flag)\<rparr>,
                      se_conn_want_ext := se_conn_want_ext s AND NOT flag,
                      se_conn_want := se_conn_want s AND ucast (NOT flag)\<rparr>)"

definition fuse_get_feature_flag :: "u64 \<Rightarrow> 'u fuse_world \<Rightarrow> bool" where
  "fuse_get_feature_flag flag w = has_bits (capable_ext (conn w)) flag"

section \<open>What the kernel offers\<close>

text \<open>Kernel flag and the capability it stands for, in the order of the source.\<close>

definition offered_caps :: "(u64 \<times> u64) list" where
  "offered_caps =
     [(FUSE_ASYNC_READ, FUSE_CAP_ASYNC_READ), (FUSE_POSIX_LOCKS, FUSE_CAP_POSIX_LOCKS),
      (FUSE_ATOMIC_O_TRUNC, FUSE_CAP_ATOMIC_O_TRUNC), (FUSE_EXPORT_SUPPORT, FUSE_CAP_EXPORT_SUPPORT),
      (FUSE_DONT_MASK, FUSE_CAP_DONT_MASK), (FUSE_FLOCK_LOCKS, FUSE_CAP_FLOCK_LOCKS),
      (FUSE_AUTO_INVAL_DATA, FUSE_CAP_AUTO_INVAL_DATA), (FUSE_DO_READDIRPLUS, FUSE_CAP_READDIRPLUS),
      (FUSE_READDIRPLUS_AUTO, FUSE_CAP_READDIRPLUS_AUTO), (FUSE_ASYNC_DIO, FUSE_CAP_ASYNC_DIO),
      (FUSE_WRITEBACK_CACHE, FUSE_CAP_WRITEBACK_CACHE), (FUSE_NO_OPEN_SUPPORT, FUSE_CAP_NO_OPEN_SUPPORT),
      (FUSE_PARALLEL_DIROPS, FUSE_CAP_PARALLEL_DIROPS), (FUSE_POSIX_ACL, FUSE_CAP_POSIX_ACL),
      (FUSE_HANDLE_KILLPRIV, FUSE_CAP_HANDLE_KILLPRIV), (FUSE_HANDLE_KILLPRIV_V2, FUSE_CAP_HANDLE_KILLPRIV_V2),
      (FUSE_CACHE_SYMLINKS, FUSE_CAP_CACHE_SYMLINKS), (FUSE_NO_OPENDIR_SUPPORT, FUSE_CAP_NO_OPENDIR_SUPPORT),
      (FUSE_EXPLICIT_INVAL_DATA, FUSE_CAP_EXPLICIT_INVAL_DATA), (FUSE_SETXATTR_EXT, FUSE_CAP_SETXATTR_EXT),
      (FUSE_DIRECT_IO_ALLOW_MMAP, FUSE_CAP_DIRECT_IO_ALLOW_MMAP), (FUSE_PASSTHROUGH, FUSE_CAP_PASSTHROUGH),
      (FUSE_NO_EXPORT_SUPPORT, FUSE_CAP_NO_EXPORT_SUPPORT), (FUSE_OVER_IO_URING, FUSE_CAP_OVER_IO_URING)]"

definition add_cap :: "u64 \<Rightarrow> (u64 \<times> u64) \<Rightarrow> u64 \<Rightarrow> u64" where
  "add_cap flags fc acc = (if has_bits flags (fst fc) then acc OR snd fc else acc)"

definition init_capable :: "u32 \<Rightarrow> u64 \<Rightarrow> u64" where
  "init_capable minor inargflags =
     (let cap = fold (add_cap inargflags) offered_caps 0
      in if minor \<ge> 38 \<or> has_bits inargflags FUSE_HAS_EXPIRE_ONLY
         then cap OR FUSE_CAP_EXPIRE_ONLY else cap)"

section \<open>Defaults\<close>

text \<open>\<^verbatim>\<open>LL_SET_DEFAULT(cond, cap)\<close>\<close>

definition ll_set_default :: "bool \<Rightarrow> u64 \<Rightarrow> 'u fuse_world \<Rightarrow> 'u fuse_world" where
  "ll_set_default b cap w = (if b then snd (fuse_set_feature_flag cap w) else w)"

definition init_defaults :: "'u fuse_lowlevel_ops \<Rightarrow> 'u fuse_world \<Rightarrow> 'u fuse_world" where
  "init_defaults op w =
     (let w = ll_set_default True FUSE_CAP_ASYNC_READ w;
          w = ll_set_default True FUSE_CAP_AUTO_INVAL_DATA w;
          w = ll_set_default True FUSE_CAP_ASYNC_DIO w;
          w = ll_set_default True FUSE_CAP_IOCTL_DIR w;
          w = ll_set_default True FUSE_CAP_ATOMIC_O_TRUNC w;
          w = ll_set_default (op_write_buf op \<noteq> None) FUSE_CAP_SPLICE_READ w;
          w = ll_set_default (op_getlk op \<noteq> None \<and> op_setlk op \<noteq> None) FUSE_CAP_POSIX_LOCKS w;
          w = ll_set_default (op_flock op \<noteq> None) FUSE_CAP_FLOCK_LOCKS w;
          w = ll_set_default (op_readdirplus op \<noteq> None) FUSE_CAP_READDIRPLUS w;
          w = ll_set_default (op_readdirplus op \<noteq> None \<and> op_readdir op \<noteq> None)
                FUSE_CAP_READDIRPLUS_AUTO w
      in ll_set_default True FUSE_CAP_OVER_IO_URING w)"

section \<open>What the library answers\<close>

definition wanted_flags :: "(u64 \<times> u64) list" where
  "wanted_flags =
     [(FUSE_CAP_ASYNC_READ, FUSE_ASYNC_READ), (FUSE_CAP_POSIX_LOCKS, FUSE_POSIX_LOCKS),
      (FUSE_CAP_ATOMIC_O_TRUNC, FUSE_ATOMIC_O_TRUNC), (FUSE_CAP_EXPORT_SUPPORT, FUSE_EXPORT_SUPPORT),
      (FUSE_CAP_DONT_MASK, FUSE_DONT_MASK), (FUSE_CAP_FLOCK_LOCKS, FUSE_FLOCK_LOCKS),
      (FUSE_CAP_AUTO_INVAL_DATA, FUSE_AUTO_INVAL_DATA), (FUSE_CAP_READDIRPLUS, FUSE_DO_READDIRPLUS),
      (FUSE_CAP_READDIRPLUS_AUTO, FUSE_READDIRPLUS_AUTO), (FUSE_CAP_ASYNC_DIO, FUSE_ASYNC_DIO),
      (FUSE_CAP_WRITEBACK_CACHE, FUSE_WRITEBACK_CACHE), (FUSE_CAP_PARALLEL_DIROPS, FUSE_PARALLEL_DIROPS),
      (FUSE_CAP_POSIX_ACL, FUSE_POSIX_ACL), (FUSE_CAP_HANDLE_KILLPRIV, FUSE_HANDLE_KILLPRIV),
      (FUSE_CAP_HANDLE_KILLPRIV_V2, FUSE_HANDLE_KILLPRIV_V2), (FUSE_CAP_CACHE_SYMLINKS, FUSE_CACHE_SYMLINKS),
      (FUSE_CAP_EXPLICIT_INVAL_DATA, FUSE_EXPLICIT_INVAL_DATA), (FUSE_CAP_SETXATTR_EXT, FUSE_SETXATTR_EXT),
      (FUSE_CAP_DIRECT_IO_ALLOW_MMAP, FUSE_DIRECT_IO_ALLOW_MMAP), (FUSE_CAP_PASSTHROUGH, FUSE_PASSTHROUGH),
      (FUSE_CAP_NO_EXPORT_SUPPORT, FUSE_NO_EXPORT_SUPPORT)]"

record fuse_init_out =
  io_max_readahead :: u32
  io_flags :: u32
  io_max_background :: u16
  io_congestion_threshold :: u16
  io_max_write :: u32
  io_time_gran :: u32
  io_max_pages :: u16
  io_flags2 :: u32
  io_max_stack_depth :: u32
  io_request_timeout :: u16

definition zero_init_out :: fuse_init_out where
  "zero_init_out = \<lparr>io_max_readahead = 0, io_flags = 0, io_max_background = 0,
     io_congestion_threshold = 0, io_max_write = 0, io_time_gran = 0, io_max_pages = 0,
     io_flags2 = 0, io_max_stack_depth = 0, io_request_timeout = 0\<rparr>"

definition enc_fuse_init_out :: "fuse_init_out \<Rightarrow> byte list" where
  "enc_fuse_init_out a =
     le_bytes 4 FUSE_KERNEL_VERSION @ le_bytes 4 FUSE_KERNEL_MINOR_VERSION @
     le_bytes 4 (io_max_readahead a) @ le_bytes 4 (io_flags a) @ le_bytes 2 (io_max_background a) @
     le_bytes 2 (io_congestion_threshold a) @ le_bytes 4 (io_max_write a) @
     le_bytes 4 (io_time_gran a) @ le_bytes 2 (io_max_pages a) @ le_bytes 2 (0 :: u16) @
     le_bytes 4 (io_flags2 a) @ le_bytes 4 (io_max_stack_depth a) @
     le_bytes 2 (io_request_timeout a) @ replicate 22 0"

abbreviation FUSE_BUFFER_HEADER_SIZE :: u64 where "FUSE_BUFFER_HEADER_SIZE \<equiv> 0x1000"

text \<open>\<^verbatim>\<open>fuse_compat_stub.c\<close> and \<^verbatim>\<open>fuse_uring_stub.c\<close>.\<close>

definition get_max_read :: u32 where "get_max_read = 0"
definition fuse_uring_start :: int where "fuse_uring_start = - ENOSYS"

text \<open>The size limits: \<open>max_write\<close> and the receive buffer.\<close>

definition init_bufsize :: "u64 \<Rightarrow> bool \<Rightarrow> 'u fuse_world \<Rightarrow> 'u fuse_world" where
  "init_bufsize bufsize reallocable w =
     (let bufsize = (if bufsize < FUSE_MIN_READ_BUFFER then FUSE_MIN_READ_BUFFER else bufsize);
          bufsize = (if reallocable then 0xFFFFFFFF else bufsize);
          limit = bufsize - FUSE_BUFFER_HEADER_SIZE;
          mw = (if ucast (max_write (conn w)) < limit then max_write (conn w) else ucast limit);
          w = conn_mod (\<lambda>c. c\<lparr>max_write := mw\<rparr>) w
      in se_mod (\<lambda>s. s\<lparr>se_bufsize := ucast (mw + ucast FUSE_BUFFER_HEADER_SIZE)\<rparr>) w)"

definition init_background :: "fuse_conn_info \<Rightarrow> fuse_conn_info" where
  "init_background c =
     (let c = (if max_background c \<ge> 65536 then c\<lparr>max_background := 65535\<rparr> else c);
          c = (if congestion_threshold c > max_background c
               then c\<lparr>congestion_threshold := max_background c\<rparr> else c)
      in if congestion_threshold c = 0
         then c\<lparr>congestion_threshold := max_background c * 3 div 4\<rparr> else c)"

text \<open>The second half of the handler: the reply, once the wanted flags are known to be offered.\<close>

definition init_answer :: "addr \<Rightarrow> u32 \<Rightarrow> u32 \<Rightarrow> u64 \<Rightarrow> u64 \<Rightarrow> bool \<Rightarrow> 'u fuse_world \<Rightarrow> 'u fuse_world" where
  "init_answer req minor arg_flags inargflags bufsize reallocable w =
     (let w = init_bufsize bufsize reallocable w;
          pages = has_bits (ucast arg_flags :: u64) FUSE_MAX_PAGES;
          out = zero_init_out\<lparr>io_max_pages := (if pages then ucast ((max_write (conn w) - 1) div 4096 + 1) else 0)\<rparr>;
          flags = (if pages then FUSE_MAX_PAGES else 0) OR FUSE_BIG_WRITES;
          flags = fold (add_cap (want_ext (conn w))) wanted_flags flags;
          out = (if has_bits (want_ext (conn w)) FUSE_CAP_PASSTHROUGH
                 then out\<lparr>io_max_stack_depth := max_backing_stack_depth (conn w) + 1\<rparr> else out);
          uring = (se_uring_enable (se w) \<and> has_bits (want_ext (conn w)) FUSE_CAP_OVER_IO_URING);
          flags = (if uring then flags OR FUSE_OVER_IO_URING else flags);
          tmo = (has_bits inargflags FUSE_REQUEST_TIMEOUT \<and> request_timeout (conn w) \<noteq> 0);
          flags = (if tmo then flags OR FUSE_REQUEST_TIMEOUT else flags);
          out = (if tmo then out\<lparr>io_request_timeout := request_timeout (conn w)\<rparr> else out);
          out = out\<lparr>io_max_readahead := max_readahead (conn w), io_max_write := max_write (conn w)\<rparr>;
          w = (if proto_minor (conn w) \<ge> 13 then conn_mod init_background w else w);
          out = (if proto_minor (conn w) \<ge> 13
                 then out\<lparr>io_max_background := ucast (max_background (conn w)),
                          io_congestion_threshold := ucast (congestion_threshold (conn w))\<rparr> else out);
          out = (if proto_minor (conn w) \<ge> 23 then out\<lparr>io_time_gran := time_gran (conn w)\<rparr> else out);
          outargsize = (if minor < 5 then FUSE_COMPAT_INIT_OUT_SIZE
                        else if minor < 23 then FUSE_COMPAT_22_INIT_OUT_SIZE else 64);
          flags = (if uring \<and> fuse_uring_start \<noteq> 0 then flags AND NOT FUSE_OVER_IO_URING else flags);
          ext = has_bits inargflags FUSE_INIT_EXT;
          flags = (if ext then flags OR FUSE_INIT_EXT else flags);
          out = (if ext then out\<lparr>io_flags2 := ucast (drop_bit 32 flags)\<rparr> else out);
          out = out\<lparr>io_flags := ucast flags\<rparr>;
          w = se_mod (\<lambda>s. s\<lparr>se_got_init := True\<rparr>) w
      in snd (send_reply_ok req (take outargsize (enc_fuse_init_out out)) w))"

definition init_refuse :: "addr \<Rightarrow> 'u fuse_world \<Rightarrow> 'u fuse_world" where
  "init_refuse req w =
     fuse_session_exit (se_mod (\<lambda>s. s\<lparr>se_error := - EPROTO\<rparr>) (reply_err req EPROTO w))"

text \<open>The middle of the handler: defaults, the file system's \<open>init\<close>, and the checks.\<close>

definition init_negotiate :: "'u fuse_lowlevel_ops \<Rightarrow> addr \<Rightarrow> byte list \<Rightarrow> u32 \<Rightarrow> u64 \<Rightarrow> u64 \<Rightarrow> bool \<Rightarrow>
    'u fuse_world \<Rightarrow> 'u fuse_world" where
  "init_negotiate op req op_in minor inargflags bufsize reallocable w =
     (let w = (if proto_minor (conn w) \<ge> 18
               then conn_mod (\<lambda>c. c\<lparr>capable_ext := capable_ext c OR FUSE_CAP_IOCTL_DIR\<rparr>) w else w);
          w = init_defaults op w;
          w = conn_mod (\<lambda>c. c\<lparr>time_gran := 1\<rparr>) w;
          w = (case op_init op of
                 None \<Rightarrow> w
               | Some f \<Rightarrow>
                   (let w = conn_mod (\<lambda>c. c\<lparr>capable := fuse_lower_32_bits (capable_ext c)\<rparr>) w;
                        w = f (se_userdata (se w)) w
                    in snd (fuse_convert_to_conn_want_ext w)))
      in if \<not> want_flags_valid (capable_ext (conn w)) (want_ext (conn w)) then init_refuse req w
         else if max_read (conn w) \<noteq> get_max_read then init_refuse req w
         else rd (fuse_init_in_flags op_in) (\<lambda>arg_flags.
                init_answer req minor arg_flags inargflags bufsize reallocable) w)"

definition do_init2 :: "'u fuse_lowlevel_ops \<Rightarrow> addr \<Rightarrow> u64 \<Rightarrow> byte list \<Rightarrow> byte list \<Rightarrow> 'u action" where
  "do_init2 op req nodeid op_in in_payload =
     rd (fuse_init_in_major op_in) (\<lambda>major. rd (fuse_init_in_minor op_in) (\<lambda>minor w.
       let w = conn_mod (\<lambda>c. c\<lparr>proto_major := major, proto_minor := minor, capable_ext := 0, want_ext := 0\<rparr>) w;
           bufsize = se_bufsize (se w);
           reallocable = se_buf_reallocable (se w)
       in if major < 7 then reply_err req EPROTO w
          else if major > 7 then snd (send_reply_ok req (enc_fuse_init_out zero_init_out) w)
          else if minor \<ge> 6 then
            rd (fuse_init_in_max_readahead op_in) (\<lambda>ra. rd (fuse_init_in_flags op_in) (\<lambda>flags w.
              let w = (if ra < max_readahead (conn w) then conn_mod (\<lambda>c. c\<lparr>max_readahead := ra\<rparr>) w else w);
                  k = (\<lambda>inargflags w.
                    let w = conn_mod (\<lambda>c. c\<lparr>capable_ext := init_capable minor inargflags\<rparr>) w;
                        maxp = has_bits inargflags FUSE_MAX_PAGES;
                        max_bufsize = 32 * 4096 + FUSE_BUFFER_HEADER_SIZE;
                        bufsize = (if \<not> maxp \<and> bufsize > max_bufsize then max_bufsize else bufsize)
                    in init_negotiate op req op_in minor inargflags bufsize (maxp \<and> reallocable) w)
              in if has_bits (ucast flags) FUSE_INIT_EXT
                 then rd (fuse_init_in_flags2 op_in) (\<lambda>flags2. k (ucast flags OR push_bit 32 (ucast flags2))) w
                 else k (ucast flags) w)) w
          else init_negotiate op req op_in minor 0 bufsize reallocable
                 (conn_mod (\<lambda>c. c\<lparr>max_readahead := 0\<rparr>) w)))"

definition do_init :: "'u fuse_lowlevel_ops \<Rightarrow> addr \<Rightarrow> u64 \<Rightarrow> byte list \<Rightarrow> 'u action" where
  "do_init op req nodeid inarg = do_init2 op req nodeid inarg []"

section \<open>Lemmas\<close>

text \<open>A set of flags built from a table only holds what the table can give.\<close>

lemma fold_add_cap_bit:
  "bit (fold (add_cap flags) tab acc) i \<longleftrightarrow>
     bit acc i \<or> (\<exists>fc \<in> set tab. has_bits flags (fst fc) \<and> bit (snd fc) i)"
  by (induction tab arbitrary: acc) (auto simp: add_cap_def bit_or_iff)

lemma has_bits_single: "has_bits w (2 ^ n) \<longleftrightarrow> bit w n" for w :: "'a::len word"
proof -
  have "bit (w AND 2 ^ n) k \<longleftrightarrow> k = n \<and> bit w n" for k
    by (auto simp: bit_simps dest: bit_imp_le_length)
  then show ?thesis unfolding has_bits_def by (metis bit_0_eq bit_word_eqI bot_apply bot_bool_def)
qed

lemma want_flags_valid_bits: "want_flags_valid cap wnt \<longleftrightarrow> (\<forall>i. bit wnt i \<longrightarrow> bit cap i)"
proof -
  have "want_flags_valid cap wnt \<longleftrightarrow> (\<forall>i. \<not> bit (wnt AND NOT cap) i)"
    unfolding want_flags_valid_def by (metis bit_0_eq bit_word_eqI bot_apply bot_bool_def)
  moreover have "bit wnt i \<Longrightarrow> i < 64" for i using bit_imp_le_length [of wnt i] by simp
  ultimately show ?thesis by (auto simp: bit_simps)
qed

text \<open>A single feature flag is only ever wanted when it is offered.\<close>

definition single_flag :: "u64 \<Rightarrow> bool" where
  "single_flag f \<longleftrightarrow> (\<exists>n. f = 2 ^ n)"

lemma ll_set_default_valid:
  assumes "single_flag f" and "want_flags_valid (capable_ext (conn w)) (want_ext (conn w))"
  shows "want_flags_valid (capable_ext (conn (ll_set_default b f w))) (want_ext (conn (ll_set_default b f w)))"
proof -
  obtain n where "f = 2 ^ n" using assms(1) by (auto simp: single_flag_def)
  then have "has_bits (capable_ext (conn w)) f \<Longrightarrow> bit f i \<Longrightarrow> bit (capable_ext (conn w)) i" for i
    by (simp add: has_bits_single bit_simps)
  then show ?thesis
    using assms(2) unfolding want_flags_valid_bits
    by (auto simp: ll_set_default_def fuse_set_feature_flag_def se_mod_def bit_or_iff)
qed

lemma single_caps:
  "single_flag FUSE_CAP_ASYNC_READ" "single_flag FUSE_CAP_AUTO_INVAL_DATA"
  "single_flag FUSE_CAP_ASYNC_DIO" "single_flag FUSE_CAP_IOCTL_DIR"
  "single_flag FUSE_CAP_ATOMIC_O_TRUNC" "single_flag FUSE_CAP_SPLICE_READ"
  "single_flag FUSE_CAP_POSIX_LOCKS" "single_flag FUSE_CAP_FLOCK_LOCKS"
  "single_flag FUSE_CAP_READDIRPLUS" "single_flag FUSE_CAP_READDIRPLUS_AUTO"
  "single_flag FUSE_CAP_OVER_IO_URING"
  unfolding single_flag_def
  by (rule exI [of _ 0], simp, rule exI [of _ 12], simp, rule exI [of _ 15], simp,
      rule exI [of _ 11], simp, rule exI [of _ 3], simp, rule exI [of _ 9], simp,
      rule exI [of _ 1], simp, rule exI [of _ 10], simp, rule exI [of _ 13], simp,
      rule exI [of _ 14], simp, rule exI [of _ 31], simp)

lemma init_defaults_valid:
  assumes "want_flags_valid (capable_ext (conn w)) (want_ext (conn w))"
  shows "want_flags_valid (capable_ext (conn (init_defaults op w))) (want_ext (conn (init_defaults op w)))"
  unfolding init_defaults_def Let_def by (intro ll_set_default_valid single_caps assms)

text \<open>What a feature flag call changes, and that unsetting undoes setting.\<close>

lemma fuse_set_feature_flag_spec:
  "fst (fuse_set_feature_flag flag w) = fuse_get_feature_flag flag w"
  "fst (fuse_set_feature_flag flag w) \<Longrightarrow>
     want_ext (conn (snd (fuse_set_feature_flag flag w))) = want_ext (conn w) OR flag"
  "capable_ext (conn (snd (fuse_set_feature_flag flag w))) = capable_ext (conn w)"
  by (auto simp: fuse_set_feature_flag_def fuse_get_feature_flag_def se_mod_def)

text \<open>Limits of the connection.\<close>

lemma init_background_bounds:
  "max_background (init_background c) \<le> 65535"
  "congestion_threshold (init_background c) \<le> max_background (init_background c)"
proof -
  have *: "b * 3 div 4 \<le> b" if "b \<le> 65535" for b :: u32
  proof -
    have "unat b \<le> 65535" using that by (simp add: word_le_nat_alt)
    then have "unat (b * 3 div 4) = unat b * 3 div 4" by (simp add: unat_div unat_word_ariths take_bit_nat_eq_self)
    then show ?thesis by (simp add: word_le_nat_alt)
  qed
  show "max_background (init_background c) \<le> 65535"
    by (auto simp: init_background_def Let_def word_le_nat_alt)
  show "congestion_threshold (init_background c) \<le> max_background (init_background c)"
    using * by (auto simp: init_background_def Let_def word_le_nat_alt word_less_nat_alt)
qed

lemma init_bufsize_bounds:
  fixes w :: "'u fuse_world" and r :: bool
  assumes "bufsize \<le> 0xFFFFFFFF"
  defines "w' \<equiv> init_bufsize bufsize r w"
  shows "max_write (conn w') \<le> max_write (conn w)"
    and "se_bufsize (se w') = ucast (max_write (conn w')) + FUSE_BUFFER_HEADER_SIZE"
proof -
  define bs where "bs = (if r then 0xFFFFFFFF else if bufsize < 8192 then 8192 else bufsize)"
  have bs: "8192 \<le> bs" "bs \<le> 0xFFFFFFFF" using assms(1) by (auto simp: bs_def)
  define limit where "limit = bs - 0x1000"
  have lim: "unat limit = unat bs - 4096" using bs by (simp add: limit_def unat_sub word_le_nat_alt)
  have bsn: "8192 \<le> unat bs" "unat bs \<le> 4294967295" using bs by (simp_all add: word_le_nat_alt)
  define mw where "mw = (if ucast (max_write (conn w)) < limit then max_write (conn w) else ucast limit)"
  have w': "max_write (conn w') = mw" "se_bufsize (se w') = ucast (mw + 0x1000)"
    unfolding w'_def init_bufsize_def Let_def mw_def limit_def bs_def
    by (auto simp: conn_mod_def se_mod_def)
  have ul: "unat (ucast limit :: u32) = unat limit"
    using lim bsn by (simp add: unsigned_ucast_eq take_bit_nat_eq_self)
  have um: "unat (ucast (max_write (conn w)) :: u64) = unat (max_write (conn w))"
    by (simp add: unsigned_ucast_eq take_bit_nat_eq_self unsigned_less order_less_trans [OF unsigned_less])
  show "max_write (conn w') \<le> max_write (conn w)"
    using ul um by (auto simp: w' mw_def word_le_nat_alt word_less_nat_alt)
  have "unat mw \<le> unat limit" using ul um by (auto simp: mw_def word_less_nat_alt)
  then have nw: "unat mw + 4096 < 2 ^ 32" using lim bsn by simp
  show "se_bufsize (se w') = ucast (max_write (conn w')) + FUSE_BUFFER_HEADER_SIZE"
  proof -
    have "unat (ucast (mw + 0x1000) :: u64) = unat (ucast mw + 0x1000 :: u64)"
      using nw by (simp add: unsigned_ucast_eq unat_word_ariths take_bit_nat_eq_self)
    then show ?thesis unfolding w' by (rule unsigned_word_eqI)
  qed
qed

section \<open>Properties\<close>

text \<open>The limits that the library answers to INIT: the background limit fits sixteen bits and the
  congestion threshold does not exceed it; \<open>max_write\<close> is never raised, and the receive buffer holds one
  largest write and the header, without wrap-around.\<close>

lemma init_limits:
  fixes w :: "'u fuse_world" and r :: bool and c :: fuse_conn_info
  assumes "bufsize \<le> 0xFFFFFFFF"
  defines "w' \<equiv> init_bufsize bufsize r w"
  shows "max_background (init_background c) \<le> 65535 \<and>
    congestion_threshold (init_background c) \<le> max_background (init_background c) \<and>
    max_write (conn w') \<le> max_write (conn w) \<and>
    unat (se_bufsize (se w')) = unat (max_write (conn w')) + 4096"
proof -
  have b: "max_write (conn w') \<le> max_write (conn w)"
    "se_bufsize (se w') = ucast (max_write (conn w')) + FUSE_BUFFER_HEADER_SIZE"
    unfolding w'_def by (rule init_bufsize_bounds [OF assms(1)])+
  have "unat (max_write (conn w')) < 2 ^ 32" by (rule order_less_le_trans [OF unsigned_less]) simp
  then have "unat (ucast (max_write (conn w')) + FUSE_BUFFER_HEADER_SIZE :: u64) = unat (max_write (conn w')) + 4096"
    by (simp add: unat_word_ariths unsigned_ucast_eq take_bit_nat_eq_self)
  then show ?thesis using b init_background_bounds by simp
qed

text \<open>INIT: the capabilities offered to the file system are exactly those of the kernel's flags (and
  \<open>EXPIRE_ONLY\<close> for protocol 7.38), and the defaults that the library wants are all offered, for every set
  of operations of the file system.\<close>

lemma init_defaults_offered:
  "(\<forall>i. bit (init_capable minor flags) i \<longleftrightarrow>
      (\<exists>fc \<in> set offered_caps. has_bits flags (fst fc) \<and> bit (snd fc) i) \<or>
      ((minor \<ge> 38 \<or> has_bits flags FUSE_HAS_EXPIRE_ONLY) \<and> bit FUSE_CAP_EXPIRE_ONLY i)) \<and>
   want_flags_valid (capable_ext (conn (init_defaults op (conn_mod (\<lambda>c. c\<lparr>want_ext := 0\<rparr>) w))))
     (want_ext (conn (init_defaults op (conn_mod (\<lambda>c. c\<lparr>want_ext := 0\<rparr>) w))))"
proof (rule conjI)
  show "\<forall>i. bit (init_capable minor flags) i \<longleftrightarrow>
      (\<exists>fc \<in> set offered_caps. has_bits flags (fst fc) \<and> bit (snd fc) i) \<or>
      ((minor \<ge> 38 \<or> has_bits flags FUSE_HAS_EXPIRE_ONLY) \<and> bit FUSE_CAP_EXPIRE_ONLY i)"
    by (simp add: init_capable_def Let_def fold_add_cap_bit bit_or_iff)
  show "want_flags_valid (capable_ext (conn (init_defaults op (conn_mod (\<lambda>c. c\<lparr>want_ext := 0\<rparr>) w))))
     (want_ext (conn (init_defaults op (conn_mod (\<lambda>c. c\<lparr>want_ext := 0\<rparr>) w))))"
    by (rule init_defaults_valid) (simp add: conn_mod_def se_mod_def want_flags_valid_def)
qed

text \<open>Converting an old-style \<open>want\<close> after the file system's \<open>init\<close>: when it was changed, the high half of
  \<open>want_ext\<close> is cleared and its bits are mixed into the low half, so that a file system that sets \<open>want\<close>
  loses every wanted flag above bit 31.\<close>

lemma convert_want_loses_high_flags:
  assumes "want (conn w) \<noteq> se_conn_want (se w)" and "fuse_lower_32_bits (want_ext (conn w)) \<noteq> want (conn w)"
    and "want_ext (conn w) = se_conn_want_ext (se w)"
  defines "w' \<equiv> snd (fuse_convert_to_conn_want_ext w)"
  shows "fst (fuse_convert_to_conn_want_ext w) = 0 \<and>
    fuse_higher_32_bits (want_ext (conn w')) = 0 \<and>
    fuse_lower_32_bits (want_ext (conn w')) = fuse_higher_32_bits (want_ext (conn w)) OR want (conn w)"
proof -
  have "want_ext (conn w') = ucast (fuse_higher_32_bits (want_ext (conn w)) OR want (conn w))"
    "fst (fuse_convert_to_conn_want_ext w) = 0"
    using assms by (simp_all add: w'_def fuse_convert_to_conn_want_ext_def Let_def conn_mod_def se_mod_def)
  moreover have "\<not> bit x (32 + n)" for x :: u32 and n using bit_imp_le_length [of x "32 + n"] by auto
  then have "fuse_higher_32_bits (ucast x) = 0" "fuse_lower_32_bits (ucast x) = x" for x :: u32
    by (auto simp: fuse_higher_32_bits_def fuse_lower_32_bits_def bit_simps intro!: bit_word_eqI)
  ultimately show ?thesis by simp
qed

end
