(* ===== verification/Fuse_Notify.thy ===== *)
theory Fuse_Notify
  imports Fuse_Ops
begin

text \<open>
  Notifications of \<^verbatim>\<open>libs/libfuse/lib/fuse_lowlevel.c\<close>: messages the library sends on its own
  (unique number 0, the notification code in place of the error), and the list of retrieve
  requests that wait for a \<^verbatim>\<open>FUSE_NOTIFY_REPLY\<close>.
\<close>

section \<open>Messages\<close>

definition send_notify_iov :: "int \<Rightarrow> byte list list \<Rightarrow> 'u fuse_world \<Rightarrow> int \<times> 'u fuse_world" where
  "send_notify_iov notify_code iov w =
     (if \<not> se_got_init (se w) then (- ENOTCONN, w)
      else fuse_send_msg None 0 notify_code iov None w)"

text \<open>A poll handle is the kernel's handle number; \<open>None\<close> is a null pointer.\<close>

definition fuse_lowlevel_notify_poll :: "u64 option \<Rightarrow> 'u fuse_world \<Rightarrow> int \<times> 'u fuse_world" where
  "fuse_lowlevel_notify_poll ph w =
     (case ph of
        Some kh \<Rightarrow> send_notify_iov FUSE_NOTIFY_POLL [le_bytes 8 kh] w
      | None \<Rightarrow> (0, w))"

definition fuse_lowlevel_notify_inval_inode :: "u64 \<Rightarrow> u64 \<Rightarrow> u64 \<Rightarrow> 'u fuse_world \<Rightarrow>
    int \<times> 'u fuse_world" where
  "fuse_lowlevel_notify_inval_inode ino off len w =
     (if proto_minor (conn w) < 12 then (- ENOSYS, w)
      else send_notify_iov FUSE_NOTIFY_INVAL_INODE [le_bytes 8 ino @ le_bytes 8 off @ le_bytes 8 len] w)"

definition fuse_lowlevel_notify_increment_epoch :: "'u fuse_world \<Rightarrow> int \<times> 'u fuse_world" where
  "fuse_lowlevel_notify_increment_epoch w =
     (if proto_minor (conn w) < 44 then (- ENOSYS, w) else send_notify_iov FUSE_NOTIFY_INC_EPOCH [] w)"

abbreviation FUSE_LL_INVALIDATE :: u32 where "FUSE_LL_INVALIDATE \<equiv> 0"
abbreviation FUSE_LL_EXPIRE_ONLY :: u32 where "FUSE_LL_EXPIRE_ONLY \<equiv> 1"

text \<open>The name is sent with \<open>namelen + 1\<close> bytes from its pointer on.\<close>

definition fuse_lowlevel_notify_entry :: "u64 \<Rightarrow> byte list \<Rightarrow> nat \<Rightarrow> u32 \<Rightarrow> 'u fuse_world \<Rightarrow>
    int \<times> 'u fuse_world" where
  "fuse_lowlevel_notify_entry parent name namelen flags w =
     (if proto_minor (conn w) < 12 then (- ENOSYS, w)
      else
        (let fl = (if has_bits flags FUSE_LL_EXPIRE_ONLY then FUSE_EXPIRE_ONLY else 0);
             outarg = le_bytes 8 parent @ le_bytes 4 (of_nat namelen :: u32) @ le_bytes 4 (fl :: u32)
         in if \<not> se_got_init (se w) then (- ENOTCONN, w)
            else if length name < namelen + 1 then (- 1, raise_fault OutOfBounds w)
            else send_notify_iov FUSE_NOTIFY_INVAL_ENTRY [outarg, take (namelen + 1) name] w))"

definition fuse_lowlevel_notify_inval_entry :: "u64 \<Rightarrow> byte list \<Rightarrow> nat \<Rightarrow> 'u fuse_world \<Rightarrow>
    int \<times> 'u fuse_world" where
  "fuse_lowlevel_notify_inval_entry parent name namelen =
     fuse_lowlevel_notify_entry parent name namelen FUSE_LL_INVALIDATE"

definition fuse_lowlevel_notify_expire_entry :: "u64 \<Rightarrow> byte list \<Rightarrow> nat \<Rightarrow> 'u fuse_world \<Rightarrow>
    int \<times> 'u fuse_world" where
  "fuse_lowlevel_notify_expire_entry parent name namelen w =
     (if \<not> has_bits (capable_ext (conn w)) FUSE_CAP_EXPIRE_ONLY then (- ENOSYS, w)
      else fuse_lowlevel_notify_entry parent name namelen FUSE_LL_EXPIRE_ONLY w)"

definition fuse_lowlevel_notify_delete :: "u64 \<Rightarrow> u64 \<Rightarrow> byte list \<Rightarrow> nat \<Rightarrow> 'u fuse_world \<Rightarrow>
    int \<times> 'u fuse_world" where
  "fuse_lowlevel_notify_delete parent child name namelen w =
     (if proto_minor (conn w) < 18 then (- ENOSYS, w)
      else
        (let outarg = le_bytes 8 parent @ le_bytes 8 child @ le_bytes 4 (of_nat namelen :: u32) @
               le_bytes 4 (0 :: u32)
         in if \<not> se_got_init (se w) then (- ENOTCONN, w)
            else if length name < namelen + 1 then (- 1, raise_fault OutOfBounds w)
            else send_notify_iov FUSE_NOTIFY_DELETE [outarg, take (namelen + 1) name] w))"

section \<open>Retrieve\<close>

definition fuse_lowlevel_notify_retrieve :: "u64 \<Rightarrow> u64 \<Rightarrow> u64 \<Rightarrow> u64 \<Rightarrow> 'u fuse_world \<Rightarrow>
    int \<times> 'u fuse_world" where
  "fuse_lowlevel_notify_retrieve ino sz offset cookie w =
     (if proto_minor (conn w) < 15 then (- ENOSYS, w)
      else
        (let (ok, w) = try_malloc w
         in if \<not> ok then (- ENOMEM, w)
            else
              (let rreq = brk w;
                   unique = se_notify_ctr (se w);
                   w = w\<lparr>brk := brk w + 1, nreqs := (nreqs w)(rreq \<mapsto> \<lparr>nr_unique = unique, nr_cookie = cookie\<rparr>)\<rparr>;
                   w = se_mod (\<lambda>s. s\<lparr>se_notify_ctr := unique + 1\<rparr>) w;
                   w = w\<lparr>nlinks := list_add_nreq (nlinks w) rreq SE_NOTIFY_LIST\<rparr>;
                   outarg = le_bytes 8 unique @ le_bytes 8 ino @ le_bytes 8 offset @
                     le_bytes 4 (ucast sz :: u32) @ le_bytes 4 (0 :: u32);
                   (err, w) = send_notify_iov FUSE_NOTIFY_RETRIEVE [outarg] w
               in if err \<noteq> 0 then
                    (err, w\<lparr>nlinks := list_del_nreq (nlinks w) rreq, nreqs := (nreqs w)(rreq := None)\<rparr>)
                  else (err, w))))"

definition fuse_ll_retrieve_reply :: "'u fuse_lowlevel_ops \<Rightarrow> addr \<Rightarrow> fuse_notify_req \<Rightarrow> addr \<Rightarrow> u64 \<Rightarrow>
    byte list \<Rightarrow> byte list fuse_buf \<Rightarrow> 'u action" where
  "fuse_ll_retrieve_reply op nreq rreq req ino inarg ibuf w =
     (let b = ibuf\<lparr>fb_mem := (if has_bits (fb_flags ibuf) FUSE_BUF_IS_FD then fb_mem ibuf
                             else drop sizeof_fuse_notify_retrieve_in inarg),
                   fb_size := fb_size ibuf - (of_nat sizeof_fuse_in_header +
                                of_nat sizeof_fuse_notify_retrieve_in)\<rparr>;
          w = rd (fuse_notify_retrieve_in_size inarg) (\<lambda>sz.
                if fb_size b < ucast sz then fuse_reply_none req
                else
                  (case op_retrieve_reply op of
                     Some f \<Rightarrow> rd (fuse_notify_retrieve_in_offset inarg) (\<lambda>off.
                       f req (nr_cookie rreq) ino off (bufvec_of (b\<lparr>fb_size := ucast sz\<rparr>)))
                   | None \<Rightarrow> fuse_reply_none req)) w
      in w\<lparr>nreqs := (nreqs w)(nreq := None)\<rparr>)"

text \<open>The loop leaves \<open>nreq\<close> at the entry with the request's unique number, or at the head.\<close>

definition do_notify_reply :: "'u fuse_lowlevel_ops \<Rightarrow> addr \<Rightarrow> u64 \<Rightarrow> byte list \<Rightarrow> byte list fuse_buf \<Rightarrow>
    'u action" where
  "do_notify_reply op req nodeid inarg buf = with_req req (\<lambda>r w.
     case list_scan (nlinks w) SE_NOTIFY_LIST
            (\<lambda>n. case nreqs w n of None \<Rightarrow> True | Some x \<Rightarrow> nr_unique x = rq_unique r)
            (lk_next (nlinks w) SE_NOTIFY_LIST) of
       None \<Rightarrow> raise_fault NonTermination w
     | Some None \<Rightarrow> w
     | Some (Some n) \<Rightarrow>
         deref UseAfterFree (nreqs w n) (\<lambda>x w.
           fuse_ll_retrieve_reply op n x req nodeid inarg buf
             (w\<lparr>nlinks := list_del_nreq (nlinks w) n\<rparr>)) w)"

section \<open>Invariant\<close>

text \<open>The waiting retrieve requests are allocated, listed in the order of their unique numbers, which
  all lie below the counter (as long as the 64-bit counter has not wrapped).\<close>

definition wf_notify :: "'u fuse_world \<Rightarrow> addr list \<Rightarrow> bool" where
  "wf_notify w ns \<longleftrightarrow>
     ring (nlinks w) SE_NOTIFY_LIST ns \<and> set ns = dom (nreqs w) \<and>
     (\<forall>n \<in> set ns. 2 \<le> n \<and> n < brk w) \<and>
     (\<forall>n \<in> set ns. unat (nr_unique (the (nreqs w n))) < unat (se_notify_ctr (se w))) \<and>
     distinct (map (\<lambda>n. nr_unique (the (nreqs w n))) ns) \<and> 2 \<le> brk w"

lemma wf_notify_new:
  "fuse_session_new_versioned p fs og sz ud = Some w \<Longrightarrow> wf_notify w []"
  by (auto simp: fuse_session_new_versioned_def Let_def wf_notify_def ring_def list_init_nreq_def
      split: if_splits)

text \<open>Sending a notification changes only the device.\<close>

lemma send_notify_iov_frame:
  "nlinks (snd (send_notify_iov c iov w)) = nlinks w" "nreqs (snd (send_notify_iov c iov w)) = nreqs w"
  "se (snd (send_notify_iov c iov w)) = se w" "brk (snd (send_notify_iov c iov w)) = brk w"
  "reqs (snd (send_notify_iov c iov w)) = reqs w" "ukfs (snd (send_notify_iov c iov w)) = ukfs w"
  by (auto simp: send_notify_iov_def fuse_send_msg_def fuse_write_msg_dev_def Let_def split: option.splits)

lemma notify_retrieve_cases:
  assumes wf: "wf_notify w ns" and nw: "unat (se_notify_ctr (se w)) + 1 < 2 ^ 64"
  shows "wf_notify (snd (fuse_lowlevel_notify_retrieve ino sz off ck w))
    (if fst (fuse_lowlevel_notify_retrieve ino sz off ck w) = 0 then ns @ [brk w] else ns)"
proof -
  let ?b = "brk w" let ?u = "se_notify_ctr (se w)"
  let ?l = "list_add_nreq (nlinks w) ?b SE_NOTIFY_LIST"
  have W: "ring (nlinks w) 0 ns" "set ns = dom (nreqs w)" "\<And>n. n \<in> set ns \<Longrightarrow> 2 \<le> n \<and> n < ?b" "2 \<le> ?b"
    "\<And>n. n \<in> set ns \<Longrightarrow> unat (nr_unique (the (nreqs w n))) < unat ?u"
    "distinct (map (\<lambda>n. nr_unique (the (nreqs w n))) ns)"
    using wf by (auto simp: wf_notify_def)
  have b: "?b \<notin> set (0 # ns)" using W(3,4) by auto
  have ring1: "ring ?l 0 (ns @ [?b])" using nreq_list.add_ring [OF W(1) b] .
  have ring2: "ring (list_del_nreq ?l ?b) 0 ns" using nreq_list.add_del [OF W(1) b] .
  have u1: "unat (?u + 1) = unat ?u + 1"
    using nw by (simp add: unat_word_ariths take_bit_nat_eq_self)
  show ?thesis
  proof (cases "proto_minor (conn w) < 15 \<or> \<not> malloc_ok (plat w) (nmalloc w)")
    case True
    then show ?thesis
      using wf by (auto simp: fuse_lowlevel_notify_retrieve_def try_malloc_def wf_notify_def)
  next
    case False
    let ?w1 = "w\<lparr>nmalloc := nmalloc w + 1, brk := ?b + 1,
        nreqs := (nreqs w)(?b \<mapsto> \<lparr>nr_unique = ?u, nr_cookie = ck\<rparr>),
        se := (se w)\<lparr>se_notify_ctr := ?u + 1\<rparr>, nlinks := ?l\<rparr>"
    let ?o = "[le_bytes 8 ?u @ le_bytes 8 ino @ le_bytes 8 off @ le_bytes 4 (ucast sz :: u32) @ le_bytes 4 (0 :: u32)]"
    obtain err w2 where s: "send_notify_iov FUSE_NOTIFY_RETRIEVE ?o ?w1 = (err, w2)" by fastforce
    have f: "nlinks w2 = nlinks ?w1" "nreqs w2 = nreqs ?w1" "se w2 = se ?w1" "brk w2 = brk ?w1"
      using send_notify_iov_frame [of FUSE_NOTIFY_RETRIEVE ?o ?w1] s by simp_all
    have eq: "fuse_lowlevel_notify_retrieve ino sz off ck w =
      (if err \<noteq> 0 then (err, w2\<lparr>nlinks := list_del_nreq (nlinks w2) ?b, nreqs := (nreqs w2)(?b := None)\<rparr>)
       else (err, w2))"
      using False s by (simp add: fuse_lowlevel_notify_retrieve_def try_malloc_def Let_def se_mod_def)
    have bnew: "?b \<notin> dom (nreqs w)" using W(2) b by auto
    have mapeq: "map (\<lambda>n. nr_unique (the (nreqs w2 n))) ns = map (\<lambda>n. nr_unique (the (nreqs w n))) ns"
      using b f by (intro map_cong) auto
    have "?u \<notin> set (map (\<lambda>n. nr_unique (the (nreqs w n))) ns)" using W(5) by fastforce
    then have "distinct (map (\<lambda>n. nr_unique (the (nreqs w2 n))) (ns @ [?b]))"
      using W(6) f(2) unfolding map_append mapeq by simp
    then have "wf_notify w2 (ns @ [?b])"
      using ring1 W(1-5) b f u1 unfolding wf_notify_def
      by (auto simp: less_Suc_eq)
    moreover have "wf_notify (w2\<lparr>nlinks := list_del_nreq (nlinks w2) ?b, nreqs := (nreqs w2)(?b := None)\<rparr>) ns"
      using ring2 W b f u1 bnew unfolding wf_notify_def
      by (auto simp: less_Suc_eq)
    ultimately show ?thesis unfolding eq by auto
  qed
qed

section \<open>Properties\<close>

text \<open>Asking the kernel for cached data keeps the list of pending retrievals well formed and their numbers
  distinct: the new one is added when the message was sent, and taken off again when sending failed.\<close>

lemma notify_retrieve_keeps_list:
  assumes "wf_notify w ns" and "unat (se_notify_ctr (se w)) + 1 < 2 ^ 64"
  shows "wf_notify (snd (fuse_lowlevel_notify_retrieve ino sz off ck w))
    (if fst (fuse_lowlevel_notify_retrieve ino sz off ck w) = 0 then ns @ [brk w] else ns)"
  by (rule notify_retrieve_cases [OF assms])

text \<open>The kernel's answer to a retrieval is matched by its number: the pending entry is removed and the
  request freed when the file system has no callback. An answer that matches nothing is dropped without
  freeing the request, which stays allocated.\<close>

lemma notify_reply_result:
  assumes wf: "wf_notify w ns" and r: "reqs w a = Some r" "rq_ref_cnt r = 1" "\<not> rq_is_uring r"
    and sz: "fuse_notify_retrieve_in_size inarg = Some sz" and op: "op_retrieve_reply op = None"
  shows "if \<exists>n \<in> set ns. nr_unique (the (nreqs w n)) = rq_unique r
    then \<exists>n \<in> set ns. nr_unique (the (nreqs w n)) = rq_unique r \<and>
      wf_notify (do_notify_reply op a nodeid inarg buf w) (remove1 n ns) \<and>
      reqs (do_notify_reply op a nodeid inarg buf w) = (reqs w)(a := None)
    else do_notify_reply op a nodeid inarg buf w = w"
proof -
  let ?P = "\<lambda>n. nr_unique (the (nreqs w n)) = rq_unique r"
  have W: "ring (nlinks w) SE_NOTIFY_LIST ns" "set ns = dom (nreqs w)" using wf by (auto simp: wf_notify_def)
  have "find (\<lambda>n. case nreqs w n of None \<Rightarrow> True | Some x \<Rightarrow> nr_unique x = rq_unique r) ns = find ?P ns"
    using W(2) by (intro find_cong) auto
  then have scan: "list_scan (nlinks w) SE_NOTIFY_LIST
      (\<lambda>n. case nreqs w n of None \<Rightarrow> True | Some x \<Rightarrow> nr_unique x = rq_unique r) (lk_next (nlinks w) SE_NOTIFY_LIST) =
      Some (find ?P ns)" using list_scan_ring [OF W(1)] by simp
  show ?thesis
  proof (cases "find ?P ns")
    case None
    then have "\<not> (\<exists>n \<in> set ns. ?P n)" by (auto simp: find_None_iff)
    moreover have "do_notify_reply op a nodeid inarg buf w = w" using scan None r(1) by (simp add: do_notify_reply_def)
    ultimately show ?thesis by simp
  next
    case (Some n)
    then have n: "n \<in> set ns" "?P n" by (auto simp: find_Some_iff)
    then obtain x where x: "nreqs w n = Some x" using W(2) by auto
    let ?w1 = "w\<lparr>nlinks := list_del_nreq (nlinks w) n\<rparr>"
    have free: "fuse_free_req a ?w1 = ?w1\<lparr>reqs := (reqs w)(a := None),
        links := if no_interrupt (conn w) then links w else list_del_req (links w) a\<rparr>"
      using fuse_free_req_last [of ?w1 a r] r by simp
    have eq: "do_notify_reply op a nodeid inarg buf w = (fuse_free_req a ?w1)\<lparr>nreqs := (nreqs w)(n := None)\<rparr>"
      using scan Some r(1) x sz op free
      by (simp add: do_notify_reply_def fuse_ll_retrieve_reply_def Let_def fuse_reply_none_def)
    have "ring (list_del_nreq (nlinks w) n) SE_NOTIFY_LIST (remove1 n ns)" by (rule nreq_list.del_ring [OF W(1) n(1)])
    moreover have ds: "distinct ns" using ring_distinct [OF W(1)] by simp
    moreover have "distinct (map (\<lambda>m. nr_unique (the (((nreqs w)(n := None)) m))) (remove1 n ns))"
    proof -
      have m: "map (\<lambda>m. nr_unique (the (((nreqs w)(n := None)) m))) (remove1 n ns) =
          map (\<lambda>m. nr_unique (the (nreqs w m))) (remove1 n ns)" using ds by (intro map_cong) auto
      have i: "inj_on (\<lambda>m. nr_unique (the (nreqs w m))) (set ns)"
        using wf unfolding wf_notify_def distinct_map by blast
      show ?thesis unfolding m using ds i by (auto simp: distinct_map intro: inj_on_subset)
    qed
    ultimately have "wf_notify (do_notify_reply op a nodeid inarg buf w) (remove1 n ns)"
      using wf W(2) unfolding eq free wf_notify_def by auto
    moreover have "reqs (do_notify_reply op a nodeid inarg buf w) = (reqs w)(a := None)" unfolding eq free by simp
    ultimately show ?thesis using n by auto
  qed
qed

end
