(* ===== verification/Fuse_Dispatch.thy ===== *)
theory Fuse_Dispatch
  imports Fuse_Interrupt Fuse_Init Fuse_Notify
begin

text \<open>
  The dispatcher of \<^verbatim>\<open>libs/libfuse/lib/fuse_lowlevel.c\<close>: the tables from opcodes to handlers, the
  checks of a request's opcode and user, and \<^verbatim>\<open>fuse_session_process_buf_internal\<close>, which turns a
  request buffer into a request object and runs its handler. A table entry whose \<open>func\<close> is not a
  function (\<^verbatim>\<open>FUSE_NOTIFY_REPLY\<close> has the value 1) is \<open>Special\<close>.
\<close>

section \<open>Tables\<close>

text \<open>\<^verbatim>\<open>cuse_lowlevel.c\<close>\<close>

definition cuse_lowlevel_init :: "'u fuse_lowlevel_ops \<Rightarrow> addr \<Rightarrow> u64 \<Rightarrow> byte list \<Rightarrow> 'u action" where
  "cuse_lowlevel_init op req nodeid inarg = reply_err req ENOSYS"

definition cuse_lowlevel_init2 :: "'u fuse_lowlevel_ops \<Rightarrow> addr \<Rightarrow> u64 \<Rightarrow> byte list \<Rightarrow> byte list \<Rightarrow> 'u action" where
  "cuse_lowlevel_init2 op req nodeid op_in in_payload = reply_err req ENOSYS"

datatype 'f entry = Func 'f | Special

abbreviation FUSE_MAXOP :: u32 where "FUSE_MAXOP \<equiv> CUSE_INIT + 1"

definition fuse_ll_ops :: "'u fuse_lowlevel_ops \<Rightarrow> u32 \<Rightarrow> (addr \<Rightarrow> u64 \<Rightarrow> byte list \<Rightarrow> 'u action) entry option"
  where
  "fuse_ll_ops op = map_of
     [(FUSE_LOOKUP, Func (do_lookup op)),
      (FUSE_FORGET, Func (do_forget op)),
      (FUSE_GETATTR, Func (do_getattr op)),
      (FUSE_SETATTR, Func (do_setattr op)),
      (FUSE_READLINK, Func (do_readlink op)),
      (FUSE_SYMLINK, Func (do_symlink op)),
      (FUSE_MKNOD, Func (do_mknod op)),
      (FUSE_MKDIR, Func (do_mkdir op)),
      (FUSE_UNLINK, Func (do_unlink op)),
      (FUSE_RMDIR, Func (do_rmdir op)),
      (FUSE_RENAME, Func (do_rename op)),
      (FUSE_LINK, Func (do_link op)),
      (FUSE_OPEN, Func (do_open op)),
      (FUSE_READ, Func (do_read op)),
      (FUSE_WRITE, Func (do_write op)),
      (FUSE_STATFS, Func (do_statfs op)),
      (FUSE_RELEASE, Func (do_release op)),
      (FUSE_FSYNC, Func (do_fsync op)),
      (FUSE_SETXATTR, Func (do_setxattr op)),
      (FUSE_GETXATTR, Func (do_getxattr op)),
      (FUSE_LISTXATTR, Func (do_listxattr op)),
      (FUSE_REMOVEXATTR, Func (do_removexattr op)),
      (FUSE_FLUSH, Func (do_flush op)),
      (FUSE_INIT, Func (do_init op)),
      (FUSE_OPENDIR, Func (do_opendir op)),
      (FUSE_READDIR, Func (do_readdir op)),
      (FUSE_RELEASEDIR, Func (do_releasedir op)),
      (FUSE_FSYNCDIR, Func (do_fsyncdir op)),
      (FUSE_GETLK, Func (do_getlk op)),
      (FUSE_SETLK, Func (do_setlk op)),
      (FUSE_SETLKW, Func (do_setlkw op)),
      (FUSE_ACCESS, Func (do_access op)),
      (FUSE_CREATE, Func (do_create op)),
      (FUSE_TMPFILE, Func (do_tmpfile op)),
      (FUSE_INTERRUPT, Func (do_interrupt op)),
      (FUSE_BMAP, Func (do_bmap op)),
      (FUSE_IOCTL, Func (do_ioctl op)),
      (FUSE_POLL, Func (do_poll op)),
      (FUSE_FALLOCATE, Func (do_fallocate op)),
      (FUSE_DESTROY, Func (do_destroy op)),
      (FUSE_NOTIFY_REPLY, Special),
      (FUSE_BATCH_FORGET, Func (do_batch_forget op)),
      (FUSE_READDIRPLUS, Func (do_readdirplus op)),
      (FUSE_RENAME2, Func (do_RENAME2 op)),
      (FUSE_COPY_FILE_RANGE, Func (do_copy_file_range op)),
      (FUSE_COPY_FILE_RANGE_64, Func (do_copy_file_range_64 op)),
      (FUSE_LSEEK, Func (do_lseek op)),
      (FUSE_STATX, Func (do_statx op)),
      (CUSE_INIT, Func (cuse_lowlevel_init op))]"

definition fuse_ll_ops2 :: "'u fuse_lowlevel_ops \<Rightarrow> u32 \<Rightarrow>
    (addr \<Rightarrow> u64 \<Rightarrow> byte list \<Rightarrow> byte list \<Rightarrow> 'u action) entry option" where
  "fuse_ll_ops2 op = map_of
     [(FUSE_LOOKUP, Func (do_lookup2 op)),
      (FUSE_FORGET, Func (do_forget2 op)),
      (FUSE_GETATTR, Func (do_getattr2 op)),
      (FUSE_SETATTR, Func (do_setattr2 op)),
      (FUSE_READLINK, Func (do_readlink2 op)),
      (FUSE_SYMLINK, Func (do_symlink2 op)),
      (FUSE_MKNOD, Func (do_mknod2 op)),
      (FUSE_MKDIR, Func (do_mkdir2 op)),
      (FUSE_UNLINK, Func (do_unlink2 op)),
      (FUSE_RMDIR, Func (do_rmdir2 op)),
      (FUSE_RENAME, Func (do_rename2 op)),
      (FUSE_LINK, Func (do_link2 op)),
      (FUSE_OPEN, Func (do_open2 op)),
      (FUSE_READ, Func (do_read2 op)),
      (FUSE_WRITE, Func (do_write2 op)),
      (FUSE_STATFS, Func (do_statfs2 op)),
      (FUSE_RELEASE, Func (do_release2 op)),
      (FUSE_FSYNC, Func (do_fsync2 op)),
      (FUSE_SETXATTR, Func (do_setxattr2 op)),
      (FUSE_GETXATTR, Func (do_getxattr2 op)),
      (FUSE_LISTXATTR, Func (do_listxattr2 op)),
      (FUSE_REMOVEXATTR, Func (do_removexattr2 op)),
      (FUSE_FLUSH, Func (do_flush2 op)),
      (FUSE_INIT, Func (do_init2 op)),
      (FUSE_OPENDIR, Func (do_opendir2 op)),
      (FUSE_READDIR, Func (do_readdir2 op)),
      (FUSE_RELEASEDIR, Func (do_releasedir2 op)),
      (FUSE_FSYNCDIR, Func (do_fsyncdir2 op)),
      (FUSE_GETLK, Func (do_getlk2 op)),
      (FUSE_SETLK, Func (do_setlk2 op)),
      (FUSE_SETLKW, Func (do_setlkw2 op)),
      (FUSE_ACCESS, Func (do_access2 op)),
      (FUSE_CREATE, Func (do_create2 op)),
      (FUSE_TMPFILE, Func (do_tmpfile2 op)),
      (FUSE_INTERRUPT, Func (do_interrupt2 op)),
      (FUSE_BMAP, Func (do_bmap2 op)),
      (FUSE_IOCTL, Func (do_ioctl2 op)),
      (FUSE_POLL, Func (do_poll2 op)),
      (FUSE_FALLOCATE, Func (do_fallocate2 op)),
      (FUSE_DESTROY, Func (do_destroy2 op)),
      (FUSE_NOTIFY_REPLY, Special),
      (FUSE_BATCH_FORGET, Func (do_batch_forget2 op)),
      (FUSE_READDIRPLUS, Func (do_readdirplus2 op)),
      (FUSE_RENAME2, Func (do_RENAME2_2 op)),
      (FUSE_COPY_FILE_RANGE, Func (do_copy_file_range2 op)),
      (FUSE_COPY_FILE_RANGE_64, Func (do_copy_file_range_642 op)),
      (FUSE_LSEEK, Func (do_lseek2 op)),
      (FUSE_STATX, Func (do_statx2 op)),
      (CUSE_INIT, Func (cuse_lowlevel_init2 op))]"

section \<open>Checks\<close>

definition fuse_req_opcode_sanity_ok :: "fuse_session \<Rightarrow> u32 \<Rightarrow> int" where
  "fuse_req_opcode_sanity_ok s in_op =
     (if \<not> se_got_init s then
        (let expected = (if se_cuse_data s then CUSE_INIT else FUSE_INIT)
         in if in_op \<noteq> expected then EIO else 0)
      else if in_op = FUSE_INIT \<or> in_op = CUSE_INIT then EIO
      else 0)"

definition fuse_req_check_allow_root :: "fuse_session \<Rightarrow> u32 \<Rightarrow> u32 \<Rightarrow> int" where
  "fuse_req_check_allow_root s in_op in_uid =
     (if se_deny_others s \<and> in_uid \<noteq> se_owner s \<and> in_uid \<noteq> 0 \<and>
         in_op \<noteq> FUSE_INIT \<and> in_op \<noteq> FUSE_READ \<and> in_op \<noteq> FUSE_WRITE \<and> in_op \<noteq> FUSE_FSYNC \<and>
         in_op \<noteq> FUSE_RELEASE \<and> in_op \<noteq> FUSE_READDIR \<and> in_op \<noteq> FUSE_FSYNCDIR \<and>
         in_op \<noteq> FUSE_RELEASEDIR \<and> in_op \<noteq> FUSE_NOTIFY_REPLY \<and> in_op \<noteq> FUSE_READDIRPLUS
      then EACCES else 0)"

section \<open>Processing a request\<close>

definition fuse_session_in2req :: "addr \<Rightarrow> u64 \<Rightarrow> u32 \<Rightarrow> u32 \<Rightarrow> u32 \<Rightarrow> 'u action" where
  "fuse_session_in2req req unique uid gid pid =
     req_mod req (\<lambda>r. r\<lparr>rq_unique := unique,
       rq_ctx := (rq_ctx r)\<lparr>ctx_uid := uid, ctx_gid := gid, ctx_pid := pid\<rparr>\<rparr>)"

text \<open>Reading from a pipe is the platform's business: \<open>Inl\<close> an error number, \<open>Inr\<close> what was read. A
  short read is the result -1.\<close>

definition fuse_ll_copy_from_pipe :: "int \<Rightarrow> nat \<Rightarrow> 'u fuse_world \<Rightarrow> (int + byte list) \<times> 'u fuse_world" where
  "fuse_ll_copy_from_pipe fd len w =
     (case pipe_read (plat w) (nreads w) fd len of
        Inl e \<Rightarrow> (Inl e, w\<lparr>nreads := nreads w + 1\<rparr>)
      | Inr bs \<Rightarrow> (if length bs < len then Inl 1 else Inr (take len bs), w\<lparr>nreads := nreads w + 1\<rparr>))"

abbreviation write_header_size :: nat where
  "write_header_size \<equiv> sizeof_fuse_in_header + sizeof_fuse_write_in"

text \<open>The handler call at the end: the block \<open>m\<close> holds the whole request.\<close>

definition run_handler :: "'u fuse_lowlevel_ops \<Rightarrow> byte list fuse_buf \<Rightarrow> addr \<Rightarrow> u32 \<Rightarrow> byte list \<Rightarrow> 'u action"
  where
  "run_handler op buf req opcode m =
     rd (fuse_in_header_nodeid m) (\<lambda>nodeid.
       let inarg = drop sizeof_fuse_in_header m
       in if opcode = FUSE_WRITE \<and> op_write_buf op \<noteq> None then do_write_buf op req nodeid inarg buf
          else if opcode = FUSE_NOTIFY_REPLY then do_notify_reply op req nodeid inarg buf
          else case fuse_ll_ops op opcode of
                 Some (Func f) \<Rightarrow> f req nodeid inarg
               | _ \<Rightarrow> raise_fault OutOfBounds)"

text \<open>The interrupt bookkeeping of a new request.\<close>

definition list_request :: "addr \<Rightarrow> 'u action" where
  "list_request req w =
     (let (intr, w) = check_interrupt req w;
          w = w\<lparr>links := list_add_req (links w) req SE_LIST\<rparr>
      in case intr of None \<Rightarrow> w | Some i \<Rightarrow> reply_err i EAGAIN w)"

text \<open>With a pipe the rest of a long request is read now, unless a handler takes it from the pipe.\<close>

definition fetch_rest :: "'u fuse_lowlevel_ops \<Rightarrow> byte list fuse_buf \<Rightarrow> addr \<Rightarrow> u32 \<Rightarrow> byte list \<Rightarrow> 'u action"
  where
  "fetch_rest op buf req opcode m w =
     (if has_bits (fb_flags buf) FUSE_BUF_IS_FD \<and> write_header_size < unat (fb_size buf) \<and>
         (opcode \<noteq> FUSE_WRITE \<or> op_write_buf op = None) \<and> opcode \<noteq> FUSE_NOTIFY_REPLY then
        (case try_malloc w of (ok, w) \<Rightarrow>
           if \<not> ok then reply_err req ENOMEM w
           else
             (case fuse_ll_copy_from_pipe (fb_fd buf) (unat (fb_size buf) - write_header_size) w of
                (Inl e, w) \<Rightarrow> reply_err req e w
              | (Inr rest, w) \<Rightarrow> run_handler op buf req opcode (m @ rest) w))
      else run_handler op buf req opcode m w)"

text \<open>From the allocation of the request on; \<open>m\<close> is the memory the header lies in.\<close>

definition process_in :: "'u fuse_lowlevel_ops \<Rightarrow> byte list fuse_buf \<Rightarrow> addr option \<Rightarrow> byte list \<Rightarrow> 'u action"
  where
  "process_in op buf ch m =
     rd (fuse_in_header_opcode m) (\<lambda>opcode. rd (fuse_in_header_unique m) (\<lambda>unique.
     rd (fuse_in_header_uid m) (\<lambda>uid. rd (fuse_in_header_gid m) (\<lambda>gid. rd (fuse_in_header_pid m) (\<lambda>pid w.
       case fuse_ll_alloc_req w of
         (None, w) \<Rightarrow> snd (fuse_send_msg ch unique (- ENOMEM) [] None w)
       | (Some req, w) \<Rightarrow>
           (let w = fuse_session_in2req req unique uid gid pid w;
                w = req_mod req (\<lambda>r. r\<lparr>rq_ch := (case ch of Some c \<Rightarrow> fuse_chan_get c | None \<Rightarrow> None)\<rparr>) w;
                w = req_mod req (\<lambda>r. r\<lparr>rq_ukfs_req := ch\<rparr>) w;
                err = fuse_req_opcode_sanity_ok (se w) opcode
            in if err \<noteq> 0 then reply_err req err w
               else
                 (let err = fuse_req_check_allow_root (se w) opcode uid
                  in if err \<noteq> 0 then reply_err req err w
                     else if opcode \<ge> FUSE_MAXOP \<or> fuse_ll_ops op opcode = None then reply_err req ENOSYS w
                     else if no_interrupt (conn w) \<and> opcode = FUSE_INTERRUPT then reply_err req ENOSYS w
                     else
                       (let w = (if \<not> no_interrupt (conn w) \<and> opcode \<noteq> FUSE_INTERRUPT
                                 then list_request req w else w)
                        in fetch_rest op buf req opcode m w))))))))"

definition fuse_session_process_buf_internal ::
  "'u fuse_lowlevel_ops \<Rightarrow> byte list fuse_buf \<Rightarrow> addr option \<Rightarrow> 'u action" where
  "fuse_session_process_buf_internal op buf ch w =
     (if has_bits (fb_flags buf) FUSE_BUF_IS_FD then
        (let len = (if unat (fb_size buf) < write_header_size then unat (fb_size buf) else write_header_size)
         in case try_malloc w of (ok, w) \<Rightarrow>
              if \<not> ok then w
              else
                (case fuse_ll_copy_from_pipe (fb_fd buf) len w of
                   (Inl e, w) \<Rightarrow> w
                 | (Inr m, w) \<Rightarrow> process_in op buf ch m w))
      else process_in op buf ch (fb_mem buf) w)"

definition fuse_session_process_buf :: "'u fuse_lowlevel_ops \<Rightarrow> byte list fuse_buf \<Rightarrow> 'u action" where
  "fuse_session_process_buf op buf = fuse_session_process_buf_internal op buf None"

text \<open>The same for a request that an io-uring queue entry already holds.\<close>

definition fuse_session_process_uring_cqe :: "'u fuse_lowlevel_ops \<Rightarrow> addr \<Rightarrow> byte list \<Rightarrow> byte list \<Rightarrow>
    byte list \<Rightarrow> u64 \<Rightarrow> 'u action" where
  "fuse_session_process_uring_cqe op req m op_in op_payload payload_len =
     rd (fuse_in_header_opcode m) (\<lambda>opcode. rd (fuse_in_header_unique m) (\<lambda>unique.
     rd (fuse_in_header_uid m) (\<lambda>uid. rd (fuse_in_header_gid m) (\<lambda>gid. rd (fuse_in_header_pid m) (\<lambda>pid.
     rd (fuse_in_header_nodeid m) (\<lambda>nodeid w.
       let w = fuse_session_in2req req unique uid gid pid w;
           b = \<lparr>fb_size = payload_len, fb_flags = 0, fb_mem = op_payload, fb_fd = 0, fb_pos = 0, fb_mem_size = 0\<rparr>
       in if fuse_req_opcode_sanity_ok (se w) opcode \<noteq> 0
          then reply_err req (fuse_req_opcode_sanity_ok (se w) opcode) w
          else if fuse_req_check_allow_root (se w) opcode uid \<noteq> 0
          then reply_err req (fuse_req_check_allow_root (se w) opcode uid) w
          else if opcode \<ge> FUSE_MAXOP \<or> fuse_ll_ops op opcode = None then reply_err req ENOSYS w
          else if opcode = FUSE_WRITE \<and> op_write_buf op \<noteq> None
          then do_write_buf2 op req nodeid op_in (bufvec_of b) w
          else if opcode = FUSE_NOTIFY_REPLY then do_notify_reply op req nodeid op_in b w
          else case fuse_ll_ops2 op opcode of
                 Some (Func f) \<Rightarrow> f req nodeid op_in op_payload w
               | _ \<Rightarrow> raise_fault OutOfBounds w))))))"

section \<open>Lemmas\<close>

text \<open>The state in which the handler of a request from the driver runs: a fresh request at the
  allocation frontier, with the driver's request behind it, listed when interrupts are on.\<close>

definition accepted_req :: "addr \<Rightarrow> u64 \<Rightarrow> u32 \<Rightarrow> u32 \<Rightarrow> u32 \<Rightarrow> fuse_req" where
  "accepted_req p unique uid gid pid =
     zero_req\<lparr>rq_ref_cnt := 1, rq_unique := unique,
       rq_ctx := \<lparr>ctx_uid = uid, ctx_gid = gid, ctx_pid = pid, ctx_umask = 0\<rparr>,
       rq_ch := Some p, rq_ukfs_req := Some p\<rparr>"

definition accepted :: "addr \<Rightarrow> fuse_req \<Rightarrow> 'u fuse_world \<Rightarrow> 'u fuse_world" where
  "accepted p r w =
     (let l = list_init_req (links w) (brk w)
      in w\<lparr>nmalloc := nmalloc w + 1, brk := brk w + 1, reqs := (reqs w)(brk w \<mapsto> r),
           links := (if no_interrupt (conn w) then l else list_add_req l (brk w) SE_LIST)\<rparr>)"

lemma accepted_simps [simp]:
  "se (accepted p r w) = se w" "ukfs (accepted p r w) = ukfs w" "fault (accepted p r w) = fault w"
  "plat (accepted p r w) = plat w" "reqs (accepted p r w) = (reqs w)(brk w \<mapsto> r)"
  "dev_out (accepted p r w) = dev_out w" "nmalloc (accepted p r w) = nmalloc w + 1"
  "brk (accepted p r w) = brk w + 1" "fsmem (accepted p r w) = fsmem w"
  by (simp_all add: accepted_def Let_def)

lemma accepted_wf:
  assumes "wf_world w ls is"
  shows "wf_world (accepted p r w) (if no_interrupt (conn w) then ls else ls @ [brk w]) is"
proof -
  let ?w = "w\<lparr>brk := brk w + 1, reqs := (reqs w)(brk w \<mapsto> r), links := list_init_req (links w) (brk w)\<rparr>"
  have wf: "wf_world ?w ls is" by (rule wf_alloc [OF assms])
  have new: "brk w \<notin> set ls" "brk w \<notin> set is"
    using wf_world_fresh [OF assms] wf_world_listed [OF assms] by fastforce+
  have l: "wf_world (?w\<lparr>links := list_add_req (links ?w) (brk w) SE_LIST\<rparr>) (ls @ [brk w]) is"
    if "\<not> no_interrupt (conn w)"
    by (rule wf_list(1) [OF wf]) (use new that in auto)
  show ?thesis
  proof (cases "no_interrupt (conn w)")
    case True
    then show ?thesis
      using wf by (subst wf_world_cong [of _ ?w]) (auto simp: accepted_def Let_def)
  next
    case False
    then show ?thesis
      using l by (subst wf_world_cong [of _ "?w\<lparr>links := list_add_req (links ?w) (brk w) SE_LIST\<rparr>"])
        (auto simp: accepted_def Let_def)
  qed
qed

lemma accepted_live:
  "ukfs w p = Some q \<Longrightarrow> live_req (accepted p (accepted_req p u a b c) w) (brk w) p"
  by (simp add: live_req_def accepted_req_def zero_req_def)

text \<open>A request whose opcode has an ordinary handler reaches that handler in the accepted state.\<close>

lemma process_in_runs:
  assumes wf: "wf_world w ls []" and m: "malloc_ok (plat w) (nmalloc w)"
    and hdr: "fuse_in_header_opcode m = Some opcode" "fuse_in_header_unique m = Some unique"
      "fuse_in_header_uid m = Some uid" "fuse_in_header_gid m = Some gid"
      "fuse_in_header_pid m = Some pid" "fuse_in_header_nodeid m = Some nodeid"
    and chk: "fuse_req_opcode_sanity_ok (se w) opcode = 0"
      "fuse_req_check_allow_root (se w) opcode uid = 0"
    and opc: "opcode < FUSE_MAXOP" "fuse_ll_ops op opcode = Some (Func f)"
      "opcode \<notin> {FUSE_INTERRUPT, FUSE_NOTIFY_REPLY, FUSE_WRITE}"
    and mem: "\<not> has_bits (fb_flags buf) FUSE_BUF_IS_FD"
  shows "process_in op buf (Some p) m w =
    f (brk w) nodeid (drop sizeof_fuse_in_header m) (accepted p (accepted_req p unique uid gid pid) w)"
proof -
  let ?b = "brk w" let ?r = "accepted_req p unique uid gid pid"
  let ?w1 = "w\<lparr>nmalloc := nmalloc w + 1, brk := ?b + 1, links := list_init_req (links w) ?b,
      reqs := (reqs w)(?b \<mapsto> ?r)\<rparr>"
  let ?w0 = "w\<lparr>brk := ?b + 1, reqs := (reqs w)(?b \<mapsto> ?r), links := list_init_req (links w) ?b\<rparr>"
  have "wf_world ?w0 ls []" by (rule wf_alloc [OF wf])
  then have wf1: "wf_world ?w1 ls []" by (subst wf_world_cong [of _ ?w0]) auto
  have none: "check_interrupt ?b ?w1 = (None, ?w1)"
    by (rule check_interrupt_cases [OF wf1, of ?b ?r]) auto
  then have lr: "list_request ?b ?w1 = ?w1\<lparr>links := list_add_req (links ?w1) ?b SE_LIST\<rparr>"
    by (simp add: list_request_def)
  have acc: "(if \<not> no_interrupt (conn ?w1) then list_request ?b ?w1 else ?w1) = accepted p ?r w"
    using lr by (auto simp: accepted_def Let_def intro!: fuse_world.equality)
  have al: "fuse_ll_alloc_req w = (Some ?b, w\<lparr>nmalloc := nmalloc w + 1, brk := ?b + 1,
      reqs := (reqs w)(?b \<mapsto> zero_req\<lparr>rq_ref_cnt := 1\<rparr>), links := list_init_req (links w) ?b\<rparr>)"
    using m by (simp add: fuse_ll_alloc_req_def try_malloc_def Let_def)
  have noint: "opcode \<noteq> FUSE_INTERRUPT" using opc(3) by simp
  have run: "fetch_rest op buf ?b opcode m (accepted p ?r w) =
      f ?b nodeid (drop sizeof_fuse_in_header m) (accepted p ?r w)"
    using opc mem hdr(6) by (simp add: fetch_rest_def run_handler_def Let_def)
  have r: "?r = zero_req\<lparr>rq_ref_cnt := 1, rq_unique := unique,
       rq_ctx := (rq_ctx zero_req)\<lparr>ctx_uid := uid, ctx_gid := gid, ctx_pid := pid\<rparr>,
       rq_ch := Some p, rq_ukfs_req := Some p\<rparr>"
    by (simp add: accepted_req_def zero_req_def)
  have "process_in op buf (Some p) m w =
      fetch_rest op buf ?b opcode m (if \<not> no_interrupt (conn ?w1) then list_request ?b ?w1 else ?w1)"
    using hdr chk opc(1,2) noint unfolding r
    by (simp add: process_in_def al fuse_session_in2req_def fuse_chan_get_def Let_def linorder_not_le [symmetric])
  then show ?thesis using acc run by simp
qed

text \<open>When the request cannot be allocated, all that happens is that the error goes to the device.\<close>

lemma process_in_no_memory:
  assumes "\<not> malloc_ok (plat w) (nmalloc w)"
    and "fuse_in_header_opcode m = Some opcode" "fuse_in_header_unique m = Some unique"
      "fuse_in_header_uid m = Some uid" "fuse_in_header_gid m = Some gid"
      "fuse_in_header_pid m = Some pid"
  shows "process_in op buf ch m w = snd (fuse_send_msg ch unique (- ENOMEM) [] None (w\<lparr>nmalloc := nmalloc w + 1\<rparr>))"
  using assms by (simp add: process_in_def fuse_ll_alloc_req_def try_malloc_def)

text \<open>Every opcode of the table has an ordinary handler, the notification reply apart.\<close>

lemma fuse_ll_ops_core:
  "fuse_ll_ops op FUSE_LOOKUP = Some (Func (do_lookup op))"
  "fuse_ll_ops op FUSE_GETATTR = Some (Func (do_getattr op))"
  "fuse_ll_ops op FUSE_OPEN = Some (Func (do_open op))"
  "fuse_ll_ops op FUSE_READ = Some (Func (do_read op))"
  "fuse_ll_ops op FUSE_READDIR = Some (Func (do_readdir op))"
  "fuse_ll_ops op FUSE_NOTIFY_REPLY = Some Special"
  by (simp_all add: fuse_ll_ops_def)

section \<open>Properties\<close>

text \<open>What the library checks before a handler runs; 0 means that the request is admitted.\<close>

definition admission_error :: "'u fuse_lowlevel_ops \<Rightarrow> fuse_session \<Rightarrow> u32 \<Rightarrow> u32 \<Rightarrow> int" where
  "admission_error op s opcode uid =
     (if fuse_req_opcode_sanity_ok s opcode \<noteq> 0 then fuse_req_opcode_sanity_ok s opcode
      else if fuse_req_check_allow_root s opcode uid \<noteq> 0 then fuse_req_check_allow_root s opcode uid
      else if opcode \<ge> FUSE_MAXOP \<or> fuse_ll_ops op opcode = None then ENOSYS
      else if no_interrupt (se_conn s) \<and> opcode = FUSE_INTERRUPT then ENOSYS else 0)"

lemma new_session_checks:
  assumes "fuse_session_new_versioned p fs og sz ud = Some w"
  shows "fuse_req_opcode_sanity_ok (se w) opcode = (if opcode = FUSE_INIT \<or> opcode = CUSE_INIT then EIO else 0)"
    and "fuse_req_check_allow_root (se w) opcode uid = 0"
  using assms by (auto simp: fuse_session_new_versioned_def fuse_req_opcode_sanity_ok_def
      fuse_req_check_allow_root_def zero_session_def Let_def split: if_splits)

text \<open>\<^bold>\<open>C25\<close> A request that fails an admission check (the opcode is not allowed now, the user is not allowed, there
  is no such operation) is answered with that error: the driver is woken once with it, no handler of the
  file system runs, the library's request is freed and the session is as before.\<close>

theorem rejected_request_answered:
  fixes buf :: "byte list fuse_buf"
  assumes wf: "wf_world w ls is" and m: "malloc_ok (plat w) (nmalloc w)" and q: "ukfs w p = Some q"
    and hdr: "fuse_in_header_opcode m = Some opcode" "fuse_in_header_unique m = Some unique"
      "fuse_in_header_uid m = Some uid" "fuse_in_header_gid m = Some gid" "fuse_in_header_pid m = Some pid"
    and err: "admission_error op (se w) opcode uid \<noteq> 0"
  defines "w' \<equiv> process_in op buf (Some p) m w"
  shows "ukfs w' = (ukfs w)(p \<mapsto> q\<lparr>ur_error := - admission_error op (se w) opcode uid, ur_reply_data := RNull,
      ur_reply_len := 0, ur_done := ur_done q + 1\<rparr>) \<and>
    reqs w' = reqs w \<and> wf_world w' ls is \<and> se w' = se w \<and> fsmem w' = fsmem w \<and> dev_out w' = dev_out w \<and>
    fault w' = fault w"
proof -
  let ?b = "brk w" let ?r = "accepted_req p unique uid gid pid" let ?e = "admission_error op (se w) opcode uid"
  let ?w0 = "w\<lparr>brk := ?b + 1, reqs := (reqs w)(?b \<mapsto> ?r), links := list_init_req (links w) ?b\<rparr>"
  let ?w1 = "w\<lparr>nmalloc := nmalloc w + 1, brk := ?b + 1, links := list_init_req (links w) ?b,
      reqs := (reqs w)(?b \<mapsto> ?r)\<rparr>"
  have "wf_world ?w0 ls is" by (rule wf_alloc [OF wf])
  then have wf1: "wf_world ?w1 ls is" by (subst wf_world_cong [of _ ?w0]) auto
  have al: "fuse_ll_alloc_req w = (Some ?b, w\<lparr>nmalloc := nmalloc w + 1, brk := ?b + 1,
      reqs := (reqs w)(?b \<mapsto> zero_req\<lparr>rq_ref_cnt := 1\<rparr>), links := list_init_req (links w) ?b\<rparr>)"
    using m by (simp add: fuse_ll_alloc_req_def try_malloc_def Let_def)
  have r: "?r = zero_req\<lparr>rq_ref_cnt := 1, rq_unique := unique,
       rq_ctx := (rq_ctx zero_req)\<lparr>ctx_uid := uid, ctx_gid := gid, ctx_pid := pid\<rparr>,
       rq_ch := Some p, rq_ukfs_req := Some p\<rparr>"
    by (simp add: accepted_req_def zero_req_def)
  have eq: "w' = reply_err ?b ?e ?w1"
    using hdr err unfolding r w'_def
    by (auto simp: process_in_def al fuse_session_in2req_def fuse_chan_get_def Let_def admission_error_def)
  have live: "live_req ?w1 ?b p" using q by (simp add: live_req_def accepted_req_def zero_req_def)
  have c: "completes ?b p (- ?e) RNull 0 ?w1 w'"
    unfolding eq reply_err_def by (rule fuse_reply_err_completes(2) [OF live])
  have nb: "?b \<notin> set ls" "?b \<notin> set is"
    using wf_world_fresh [OF wf] wf_world_listed [OF wf] by fastforce+
  have "wf_world w' ls is"
    using completes_wf [OF c wf1] nb by (simp add: remove1_idem)
  moreover have "reqs w' = reqs w" using wf_world_fresh [OF wf] by (auto simp: completes_simps [OF c])
  moreover have "ukfs w' = (ukfs w)(p \<mapsto> q\<lparr>ur_error := - ?e, ur_reply_data := RNull, ur_reply_len := 0,
      ur_done := ur_done q + 1\<rparr>)"
  proof
    fix p'
    show "ukfs w' p' = ((ukfs w)(p \<mapsto> q\<lparr>ur_error := - ?e, ur_reply_data := RNull, ur_reply_len := 0,
      ur_done := ur_done q + 1\<rparr>)) p'"
      using completes_result [OF c] completes_simps(8) [OF c] q by (cases "p' = p") auto
  qed
  ultimately show ?thesis by (simp add: completes_simps [OF c])
qed

theorem rejected_request_answered_witness:
  defines "q \<equiv> \<lparr>ur_opcode = 1, ur_unique = 1, ur_in = In_getattr 1, ur_error = 0, ur_reply_data = RNull,
    ur_reply_len = 0, ur_done = 0\<rparr>"
  defines "m \<equiv> enc_fuse_in_header \<lparr>ih_len = 40, ih_opcode = 999, ih_unique = 1, ih_nodeid = 1, ih_uid = 0, ih_gid = 0,
    ih_pid = 1, ih_total_extlen = 0, ih_padding = 0\<rparr> @ [0]"
  shows "ukfs (process_in no_ops \<lparr>fb_size = 80, fb_flags = 0, fb_mem = [], fb_fd = 0, fb_pos = 0, fb_mem_size = 0\<rparr> (Some 3) m (demo_world\<lparr>ukfs := [3 \<mapsto> q]\<rparr>)) 3 =
    Some (q\<lparr>ur_error := - ENOSYS, ur_done := 1\<rparr>)"
proof -
  let ?w = "demo_world\<lparr>ukfs := [3 \<mapsto> q]\<rparr>"
  have wf: "wf_world ?w [] []"
    using wf_session_new [OF demo_world_new] by (subst wf_world_cong [of _ demo_world]) auto
  have e: "admission_error (no_ops :: unit fuse_lowlevel_ops) (se ?w) 999 0 = ENOSYS"
    using new_session_checks [OF demo_world_new] by (simp add: admission_error_def fuse_ll_ops_def)
  have mo: "malloc_ok (plat ?w) (nmalloc ?w)" by (simp add: demo_world_simps demo_platform_def)
  show ?thesis
    using rejected_request_answered [OF wf mo, of 3 q m 999 1 0 0 1 no_ops "\<lparr>fb_size = 80, fb_flags = 0, fb_mem = [], fb_fd = 0, fb_pos = 0, fb_mem_size = 0\<rparr>"] e
    by (simp add: m_def in_header_roundtrip q_def)
qed

text \<open>A new session already counts as initialised: INIT is refused with \<open>EIO\<close>, whatever the file system's
  operations are, and every other opcode is allowed. The INIT handler, and with it the file system's
  \<open>init\<close>, never runs on a session that has not been destroyed.\<close>

lemma new_session_refuses_init:
  assumes "fuse_session_new_versioned p fs og sz ud = Some w"
  shows "admission_error op (se w) FUSE_INIT uid = EIO \<and>
    (\<forall>opcode. opcode \<noteq> FUSE_INIT \<longrightarrow> opcode \<noteq> CUSE_INIT \<longrightarrow> fuse_req_opcode_sanity_ok (se w) opcode = 0 \<and>
       fuse_req_check_allow_root (se w) opcode uid = 0)"
  by (simp add: admission_error_def new_session_checks [OF assms])

end
