(* ===== verification/Fuse_Daemon.thy ===== *)
theory Fuse_Daemon
  imports Fuse_Queue Fuse_Dispatch
begin

text \<open>
  The daemon thread of \<^verbatim>\<open>libs/ukfusefs/fuse_daemon.c\<close>: it takes the driver's requests from the
  queue, encodes each as a FUSE request in its buffer and lets the low-level library process it,
  with the driver's request in place of a channel. An iteration of the loop is a function on the
  queue, the buffer and the library's state; an iteration with an empty queue blocks.

  The locale \<open>replying_ops\<close> is the contract of a file system behind the daemon: each of the five
  operations the driver uses answers its request once, through a reply that reaches the driver.
  In it, the daemon is shown to complete every request of its queue.
\<close>

section \<open>Encoding\<close>

abbreviation FUSE_DAEMON_BUF_SIZE :: nat where "FUSE_DAEMON_BUF_SIZE \<equiv> 8192"

text \<open>A fill function appends the payload at \<open>in->len\<close>, and sets the node and the length. \<open>None\<close> is a
  write past the end of the buffer (or a request whose union holds another member).\<close>

type_synonym fill_fun = "byte list \<Rightarrow> fuse_in_header \<Rightarrow> fuse_ukfs_request \<Rightarrow> (byte list \<times> fuse_in_header) option"

definition append_payload :: "byte list \<Rightarrow> fuse_in_header \<Rightarrow> byte list \<Rightarrow> (byte list \<times> fuse_in_header) option" where
  "append_payload buf h arg =
     map_option (\<lambda>b. (b, h\<lparr>ih_len := ih_len h + of_nat (length arg)\<rparr>)) (mem_write buf (unat (ih_len h)) arg)"

fun fill_lookup_in :: "ukfs_in \<Rightarrow> byte list \<Rightarrow> fuse_in_header \<Rightarrow> (byte list \<times> fuse_in_header) option" where
  "fill_lookup_in (In_lookup parent name) buf h =
     append_payload buf (h\<lparr>ih_nodeid := parent\<rparr>) (name @ [0])"
| "fill_lookup_in _ _ _ = None"

definition fill_lookup :: fill_fun where
  "fill_lookup buf h req = fill_lookup_in (ur_in req) buf h"

fun fill_getattr_in :: "ukfs_in \<Rightarrow> byte list \<Rightarrow> fuse_in_header \<Rightarrow> (byte list \<times> fuse_in_header) option" where
  "fill_getattr_in (In_getattr ino) buf h =
     append_payload buf (h\<lparr>ih_nodeid := ino\<rparr>) (enc_fuse_getattr_in 0 0 0)"
| "fill_getattr_in _ _ _ = None"

definition fill_getattr :: fill_fun where
  "fill_getattr buf h req = fill_getattr_in (ur_in req) buf h"

fun fill_open_in :: "ukfs_in \<Rightarrow> byte list \<Rightarrow> fuse_in_header \<Rightarrow> (byte list \<times> fuse_in_header) option" where
  "fill_open_in (In_open ino flags) buf h =
     append_payload buf (h\<lparr>ih_nodeid := ino\<rparr>) (enc_fuse_open_in flags 0)"
| "fill_open_in _ _ _ = None"

definition daemon_fill_open :: fill_fun where
  "daemon_fill_open buf h req = fill_open_in (ur_in req) buf h"

definition read_arg :: "u64 \<Rightarrow> u64 \<Rightarrow> u32 \<Rightarrow> fuse_read_in" where
  "read_arg fh off sz = \<lparr>ri_fh = fh, ri_offset = off, ri_size = sz, ri_read_flags = 0,
     ri_lock_owner = 0, ri_flags = 0, ri_padding = 0\<rparr>"

fun fill_read_in :: "ukfs_in \<Rightarrow> byte list \<Rightarrow> fuse_in_header \<Rightarrow> (byte list \<times> fuse_in_header) option" where
  "fill_read_in (In_read ino fh off sz) buf h =
     append_payload buf (h\<lparr>ih_nodeid := ino\<rparr>) (enc_fuse_read_in (read_arg fh off sz))"
| "fill_read_in _ _ _ = None"

definition fill_read :: fill_fun where
  "fill_read buf h req = fill_read_in (ur_in req) buf h"

fun fill_readdir_in :: "ukfs_in \<Rightarrow> byte list \<Rightarrow> fuse_in_header \<Rightarrow> (byte list \<times> fuse_in_header) option" where
  "fill_readdir_in (In_readdir ino fh off sz) buf h =
     append_payload buf (h\<lparr>ih_nodeid := ino\<rparr>) (enc_fuse_read_in (read_arg fh off sz))"
| "fill_readdir_in _ _ _ = None"

definition fill_readdir :: fill_fun where
  "fill_readdir buf h req = fill_readdir_in (ur_in req) buf h"

definition dispatch_table :: "(u32 \<times> u32 \<times> fill_fun) list" where
  "dispatch_table =
     [(FUSE_UKFS_LOOKUP, FUSE_LOOKUP, fill_lookup),
      (FUSE_UKFS_GETATTR, FUSE_GETATTR, fill_getattr),
      (FUSE_UKFS_OPEN, FUSE_OPEN, daemon_fill_open),
      (FUSE_UKFS_READ, FUSE_READ, fill_read),
      (FUSE_UKFS_READDIR, FUSE_READDIR, fill_readdir)]"

text \<open>The header before the opcode is known.\<close>

definition daemon_header :: "u64 \<Rightarrow> fuse_in_header" where
  "daemon_header unique = \<lparr>ih_len = of_nat sizeof_fuse_in_header, ih_opcode = 0, ih_unique = unique,
     ih_nodeid = 0, ih_uid = 0, ih_gid = 0, ih_pid = 1, ih_total_extlen = 0, ih_padding = 0\<rparr>"

section \<open>The loop\<close>

record 'u daemon_state =
  ds_q :: fuse_ukfs_queue
  ds_buf :: "byte list"
  ds_w :: "'u fuse_world"

definition mem_buf :: "byte list \<Rightarrow> u64 \<Rightarrow> byte list fuse_buf" where
  "mem_buf m sz = \<lparr>fb_size = sz, fb_flags = 0, fb_mem = m, fb_fd = 0, fb_pos = 0, fb_mem_size = 0\<rparr>"

text \<open>The body of the loop for the popped request at address \<open>p\<close>. The header lies in the buffer's first
  bytes from the beginning of the iteration on.\<close>

definition daemon_handle :: "'u fuse_lowlevel_ops \<Rightarrow> addr \<Rightarrow> byte list \<Rightarrow> 'u fuse_world \<Rightarrow>
    byte list \<times> 'u fuse_world" where
  "daemon_handle op p buf w =
     (case ukfs w p of
        None \<Rightarrow> (buf, raise_fault UseAfterFree w)
      | Some req \<Rightarrow>
          (let h = daemon_header (ur_unique req)
           in case mem_write buf 0 (enc_fuse_in_header h) of
                None \<Rightarrow> (buf, raise_fault OutOfBounds w)
              | Some buf \<Rightarrow>
                  (case find (\<lambda>(u, _, _). u = ur_opcode req) dispatch_table of
                     None \<Rightarrow> (buf, ukfs_mod p (\<lambda>q. uk_semaphore_up
                       (q\<lparr>ur_error := - ENOSYS, ur_reply_data := RNull, ur_reply_len := 0\<rparr>)) w)
                   | Some (_, fuse_opcode, fill) \<Rightarrow>
                       (case fill buf (h\<lparr>ih_opcode := fuse_opcode\<rparr>) req of
                          None \<Rightarrow> (buf, raise_fault OutOfBounds w)
                        | Some (buf, h) \<Rightarrow>
                            (case mem_write buf 0 (enc_fuse_in_header h) of
                               None \<Rightarrow> (buf, raise_fault OutOfBounds w)
                             | Some buf \<Rightarrow>
                                 (buf, fuse_session_process_buf_internal op
                                         (mem_buf buf (ucast (ih_len h))) (Some p) w))))))"

definition daemon_iteration :: "'u fuse_lowlevel_ops \<Rightarrow> 'u daemon_state \<Rightarrow> 'u daemon_state option" where
  "daemon_iteration op s =
     (case fuse_ukfs_queue_pop (ds_q s) of
        Blocked \<Rightarrow> None
      | AssertFailed \<Rightarrow> Some (s\<lparr>ds_w := raise_fault AssertFail (ds_w s)\<rparr>)
      | Popped p q \<Rightarrow>
          (let (buf, w) = daemon_handle op p (ds_buf s) (ds_w s)
           in Some (s\<lparr>ds_q := q, ds_buf := buf, ds_w := w\<rparr>)))"

text \<open>The first \<open>n\<close> iterations, stopping where the thread blocks.\<close>

fun daemon_run :: "'u fuse_lowlevel_ops \<Rightarrow> nat \<Rightarrow> 'u daemon_state \<Rightarrow> 'u daemon_state" where
  "daemon_run op 0 s = s"
| "daemon_run op (Suc n) s =
     (case daemon_iteration op s of None \<Rightarrow> s | Some s' \<Rightarrow> daemon_run op n s')"

text \<open>The start of the thread: a buffer that cannot be allocated ends it at once.\<close>

definition fuse_daemon_thread :: "'u fuse_lowlevel_ops \<Rightarrow> bool \<Rightarrow> nat \<Rightarrow> fuse_ukfs_queue \<Rightarrow> 'u fuse_world \<Rightarrow>
    'u daemon_state option" where
  "fuse_daemon_thread op buf_ok n q w =
     (if \<not> buf_ok then None
      else Some (daemon_run op n
        \<lparr>ds_q = q, ds_buf = map (uninit (plat w)) [0..<FUSE_DAEMON_BUF_SIZE], ds_w = w\<rparr>))"

text \<open>\<open>alloc\<close> whether there is a default allocator, \<open>da_ok\<close> and \<open>thread_ok\<close> whether the arguments and the
  thread could be created; the second result is whether the daemon runs.\<close>

definition fuse_daemon_start :: "bool \<Rightarrow> bool \<Rightarrow> bool \<Rightarrow> int \<times> bool" where
  "fuse_daemon_start alloc da_ok thread_ok =
     (if \<not> alloc then (- ENOMEM, False)
      else if \<not> da_ok then (- ENOMEM, False)
      else if \<not> thread_ok then (- ENOMEM, False)
      else (0, True))"

section \<open>What a request becomes\<close>

text \<open>The wire form of a request of the driver.\<close>

fun ukfs_opcode_of :: "ukfs_in \<Rightarrow> u32" where
  "ukfs_opcode_of (In_lookup _ _) = FUSE_UKFS_LOOKUP"
| "ukfs_opcode_of (In_getattr _) = FUSE_UKFS_GETATTR"
| "ukfs_opcode_of (In_open _ _) = FUSE_UKFS_OPEN"
| "ukfs_opcode_of (In_read _ _ _ _) = FUSE_UKFS_READ"
| "ukfs_opcode_of (In_readdir _ _ _ _) = FUSE_UKFS_READDIR"

fun wire_opcode :: "ukfs_in \<Rightarrow> u32" where
  "wire_opcode (In_lookup _ _) = FUSE_LOOKUP"
| "wire_opcode (In_getattr _) = FUSE_GETATTR"
| "wire_opcode (In_open _ _) = FUSE_OPEN"
| "wire_opcode (In_read _ _ _ _) = FUSE_READ"
| "wire_opcode (In_readdir _ _ _ _) = FUSE_READDIR"

fun wire_nodeid :: "ukfs_in \<Rightarrow> u64" where
  "wire_nodeid (In_lookup parent _) = parent"
| "wire_nodeid (In_getattr ino) = ino"
| "wire_nodeid (In_open ino _) = ino"
| "wire_nodeid (In_read ino _ _ _) = ino"
| "wire_nodeid (In_readdir ino _ _ _) = ino"

fun wire_payload :: "ukfs_in \<Rightarrow> byte list" where
  "wire_payload (In_lookup _ name) = name @ [0]"
| "wire_payload (In_getattr _) = enc_fuse_getattr_in 0 0 0"
| "wire_payload (In_open _ flags) = enc_fuse_open_in flags 0"
| "wire_payload (In_read _ fh off sz) = enc_fuse_read_in (read_arg fh off sz)"
| "wire_payload (In_readdir _ fh off sz) = enc_fuse_read_in (read_arg fh off sz)"

definition wire_header :: "fuse_ukfs_request \<Rightarrow> fuse_in_header" where
  "wire_header q = (daemon_header (ur_unique q))\<lparr>ih_opcode := wire_opcode (ur_in q),
     ih_nodeid := wire_nodeid (ur_in q), ih_len := 40 + of_nat (length (wire_payload (ur_in q)))\<rparr>"

text \<open>A request as the driver builds it: the opcode says which member of the union is set, and a name
  is a C string that fits into the daemon's buffer.\<close>

fun name_ok :: "ukfs_in \<Rightarrow> bool" where
  "name_ok (In_lookup _ name) \<longleftrightarrow> 0 \<notin> set name \<and> length name < FUSE_DAEMON_BUF_SIZE - 40"
| "name_ok _ \<longleftrightarrow> True"

definition wf_request :: "fuse_ukfs_request \<Rightarrow> bool" where
  "wf_request q \<longleftrightarrow> ur_opcode q = ukfs_opcode_of (ur_in q) \<and> name_ok (ur_in q)"

lemma find_dispatch_table:
  "\<exists>u fill. find (\<lambda>(u, _, _). u = ukfs_opcode_of i) dispatch_table = Some (u, wire_opcode i, fill) \<and>
     (\<forall>buf h req. ur_in req = i \<longrightarrow>
       fill buf h req = append_payload buf (h\<lparr>ih_nodeid := wire_nodeid i\<rparr>) (wire_payload i))"
  by (cases i) (simp_all add: dispatch_table_def fill_lookup_def fill_getattr_def
      daemon_fill_open_def fill_read_def fill_readdir_def)

lemma find_dispatch_table_unknown:
  "c \<notin> {FUSE_UKFS_LOOKUP, FUSE_UKFS_GETATTR, FUSE_UKFS_OPEN, FUSE_UKFS_READ, FUSE_UKFS_READDIR} \<Longrightarrow>
     find (\<lambda>(u, _, _). u = c) dispatch_table = None"
  by (simp add: dispatch_table_def)

lemma wire_payload_fits: "name_ok i \<Longrightarrow> 40 + length (wire_payload i) \<le> FUSE_DAEMON_BUF_SIZE"
  by (cases i) auto

text \<open>The buffer after encoding, and that the library then processes it.\<close>

definition wire_buf :: "fuse_ukfs_request \<Rightarrow> byte list \<Rightarrow> byte list" where
  "wire_buf q buf = enc_fuse_in_header (wire_header q) @ wire_payload (ur_in q) @
     drop (40 + length (wire_payload (ur_in q))) buf"

lemma daemon_handle_encodes:
  assumes q: "ukfs w p = Some q" and wfq: "wf_request q" and len: "length buf = FUSE_DAEMON_BUF_SIZE"
  shows "daemon_handle op p buf w = (wire_buf q buf,
    process_in op (mem_buf (wire_buf q buf) (ucast (ih_len (wire_header q)))) (Some p) (wire_buf q buf) w)"
proof -
  let ?pl = "wire_payload (ur_in q)" let ?h = "daemon_header (ur_unique q)"
  have oc: "ur_opcode q = ukfs_opcode_of (ur_in q)" and nm: "name_ok (ur_in q)"
    using wfq by (simp_all add: wf_request_def)
  have fit: "40 + length ?pl \<le> 8192" using wire_payload_fits [OF nm] by simp
  obtain u fill where f: "find (\<lambda>(u, _, _). u = ur_opcode q) dispatch_table = Some (u, wire_opcode (ur_in q), fill)"
    "\<And>buf h. fill buf h q = append_payload buf (h\<lparr>ih_nodeid := wire_nodeid (ur_in q)\<rparr>) ?pl"
    using find_dispatch_table [of "ur_in q"] oc by auto
  have w1: "mem_write buf 0 (enc_fuse_in_header ?h) = Some (enc_fuse_in_header ?h @ drop 40 buf)"
    using len mem_write_first [of "enc_fuse_in_header ?h" buf] by simp
  have l40: "unat (ih_len (?h\<lparr>ih_opcode := wire_opcode (ur_in q), ih_nodeid := wire_nodeid (ur_in q)\<rparr>)) = 40"
    by (simp add: daemon_header_def sizeof_in_defs)
  have w2: "mem_write (enc_fuse_in_header ?h @ drop 40 buf) 40 ?pl =
      Some ((enc_fuse_in_header ?h @ ?pl) @ drop (40 + length ?pl) buf)"
    by (rule mem_write_seq) (use len fit in auto)
  have w3: "mem_write ((enc_fuse_in_header ?h @ ?pl) @ drop (40 + length ?pl) buf) 0
      (enc_fuse_in_header (wire_header q)) = Some (wire_buf q buf)"
    using mem_write_first [of "enc_fuse_in_header (wire_header q)"
        "(enc_fuse_in_header ?h @ ?pl) @ drop (40 + length ?pl) buf"]
    by (simp add: wire_buf_def)
  have h: "?h\<lparr>ih_opcode := wire_opcode (ur_in q), ih_nodeid := wire_nodeid (ur_in q),
      ih_len := ih_len ?h + of_nat (length ?pl)\<rparr> = wire_header q"
    by (simp add: wire_header_def daemon_header_def sizeof_in_defs)
  have nofd: "\<not> has_bits (fb_flags (mem_buf m sz)) FUSE_BUF_IS_FD" for m sz
    by (simp add: mem_buf_def has_bits_def)
  have mm: "fb_mem (mem_buf m sz) = m" for m sz by (simp add: mem_buf_def)
  show ?thesis
    using q w1 f l40 w2 w3 h nofd
    by (simp add: daemon_handle_def append_payload_def fuse_session_process_buf_internal_def mm)
qed

lemma length_wire_buf:
  "name_ok (ur_in q) \<Longrightarrow> length buf = FUSE_DAEMON_BUF_SIZE \<Longrightarrow> length (wire_buf q buf) = FUSE_DAEMON_BUF_SIZE"
  using wire_payload_fits [of "ur_in q"] by (simp add: wire_buf_def)

lemma wire_buf_header:
  "fuse_in_header_opcode (wire_buf q buf) = Some (wire_opcode (ur_in q))"
  "fuse_in_header_unique (wire_buf q buf) = Some (ur_unique q)"
  "fuse_in_header_uid (wire_buf q buf) = Some 0"
  "fuse_in_header_gid (wire_buf q buf) = Some 0"
  "fuse_in_header_pid (wire_buf q buf) = Some 1"
  "fuse_in_header_nodeid (wire_buf q buf) = Some (wire_nodeid (ur_in q))"
  by (simp_all add: wire_buf_def in_header_roundtrip wire_header_def daemon_header_def)

section \<open>What the library hands to the file system\<close>

text \<open>The operation call that a request stands for.\<close>

fun op_call :: "'u fuse_lowlevel_ops \<Rightarrow> addr \<Rightarrow> ukfs_in \<Rightarrow> byte list \<Rightarrow> 'u action option" where
  "op_call op a (In_lookup parent name) rest = map_option (\<lambda>f. f a parent (name @ 0 # rest)) (op_lookup op)"
| "op_call op a (In_getattr ino) rest = map_option (\<lambda>f. f a ino None) (op_getattr op)"
| "op_call op a (In_open ino flags) rest =
     map_option (\<lambda>f. f a ino (zero_file_info\<lparr>fi_flags := flags\<rparr>)) (op_open op)"
| "op_call op a (In_read ino fh off sz) rest =
     map_option (\<lambda>f. f a ino (ucast sz) off (zero_file_info\<lparr>fi_fh := fh\<rparr>)) (op_read op)"
| "op_call op a (In_readdir ino fh off sz) rest =
     map_option (\<lambda>f. f a ino (ucast sz) off (zero_file_info\<lparr>fi_fh := fh\<rparr>)) (op_readdir op)"

lemma fuse_ll_ops_wire:
  "\<exists>f. fuse_ll_ops op (wire_opcode i) = Some (Func f) \<and>
     (\<forall>a rest act w. op_call op a i rest = Some act \<longrightarrow> proto_minor (conn w) \<ge> 9 \<longrightarrow>
        f a (wire_nodeid i) (wire_payload i @ rest) w = act w)"
proof (cases i)
  case (In_lookup x1 x2)
  then show ?thesis
    by (auto simp: fuse_ll_ops_core do_lookup_def do_lookup2_def call_or_err_def)
next
  case (In_getattr x)
  then show ?thesis
    by (auto simp: fuse_ll_ops_core do_getattr_def do_getattr2_def call_or_err_def Let_def
        getattr_in_roundtrip has_bits_def)
next
  case (In_open x1 x2)
  then show ?thesis
    by (auto simp: fuse_ll_ops_core do_open_def do_open2_def open_in_roundtrip)
next
  case (In_read x1 x2 x3 x4)
  then show ?thesis
    by (auto simp: fuse_ll_ops_core do_read_def do_read2_def read_in_roundtrip read_arg_def
        zero_file_info_def)
next
  case (In_readdir x1 x2 x3 x4)
  then show ?thesis
    by (auto simp: fuse_ll_ops_core do_readdir_def do_readdir2_def read_in_roundtrip read_arg_def)
qed

lemma wire_opcode_ordinary:
  "wire_opcode i < FUSE_MAXOP" "wire_opcode i \<notin> {FUSE_INTERRUPT, FUSE_NOTIFY_REPLY, FUSE_WRITE}"
  "se_got_init s \<Longrightarrow> fuse_req_opcode_sanity_ok s (wire_opcode i) = 0"
  "fuse_req_check_allow_root s (wire_opcode i) 0 = 0"
  by (cases i; simp add: fuse_req_opcode_sanity_ok_def fuse_req_check_allow_root_def)+

text \<open>One iteration for a well-formed request is the call of the file system's operation on the accepted
  request.\<close>

definition daemon_req :: "addr \<Rightarrow> fuse_ukfs_request \<Rightarrow> fuse_req" where
  "daemon_req p q = accepted_req p (ur_unique q) 0 0 1"

definition ready :: "'u fuse_world \<Rightarrow> bool" where
  "ready w \<longleftrightarrow> wf_world w [] [] \<and> se_got_init (se w) \<and> proto_minor (conn w) \<ge> 9 \<and> fault w = None \<and>
     (\<forall>n. malloc_ok (plat w) n)"

lemma daemon_handle_calls:
  assumes r: "ready w" and q: "ukfs w p = Some q" and wfq: "wf_request q"
    and len: "length buf = FUSE_DAEMON_BUF_SIZE"
    and call: "\<And>rest. op_call op (brk w) (ur_in q) rest = Some (act rest)"
  shows "\<exists>rest. daemon_handle op p buf w = (wire_buf q buf, act rest (accepted p (daemon_req p q) w))"
proof -
  let ?i = "ur_in q" let ?rest = "drop (40 + length (wire_payload ?i)) buf"
  obtain f where f: "fuse_ll_ops op (wire_opcode ?i) = Some (Func f)"
    "\<And>a rest act w. op_call op a ?i rest = Some act \<Longrightarrow> proto_minor (conn w) \<ge> 9 \<Longrightarrow>
       f a (wire_nodeid ?i) (wire_payload ?i @ rest) w = act w"
    using fuse_ll_ops_wire [of op ?i] by blast
  have pl: "drop sizeof_fuse_in_header (wire_buf q buf) = wire_payload ?i @ ?rest"
    by (simp add: wire_buf_def sizeof_in_defs)
  have "process_in op (mem_buf (wire_buf q buf) (ucast (ih_len (wire_header q)))) (Some p) (wire_buf q buf) w
      = f (brk w) (wire_nodeid ?i) (drop sizeof_fuse_in_header (wire_buf q buf)) (accepted p (daemon_req p q) w)"
    unfolding daemon_req_def
    by (rule process_in_runs [where ls = "[]" and opcode = "wire_opcode ?i"])
      (use r f(1) in \<open>simp_all add: ready_def wire_buf_header wire_opcode_ordinary
        [simplified] mem_buf_def has_bits_def\<close>)
  also have "\<dots> = act ?rest (accepted p (daemon_req p q) w)"
    unfolding pl by (rule f(2) [OF call]) (use r in \<open>simp add: ready_def\<close>)
  finally show ?thesis using daemon_handle_encodes [OF q wfq len] by auto
qed

section \<open>The contract of a file system\<close>

definition set_answer :: "int \<Rightarrow> reply_data \<Rightarrow> nat \<Rightarrow> fuse_ukfs_request \<Rightarrow> fuse_ukfs_request" where
  "set_answer err dat len q =
     q\<lparr>ur_error := err, ur_reply_data := dat, ur_reply_len := len, ur_done := ur_done q + 1\<rparr>"

type_synonym 'u answer_fun = "ukfs_in \<Rightarrow> platform \<Rightarrow> 'u \<Rightarrow> int \<times> reply_data \<times> nat \<times> 'u"

text \<open>The abstract service: requests are answered one after the other, from the file system's memory
  alone.\<close>

fun serve_all :: "'u answer_fun \<Rightarrow> platform \<Rightarrow> addr list \<Rightarrow> (addr \<rightharpoonup> fuse_ukfs_request) \<times> 'u \<Rightarrow>
    (addr \<rightharpoonup> fuse_ukfs_request) \<times> 'u" where
  "serve_all answer pl [] s = s"
| "serve_all answer pl (p # ps) (us, m) =
     (let q = the (us p); (e, d, n, m') = answer (ur_in q) pl m
      in serve_all answer pl ps (us(p \<mapsto> set_answer e d n q), m'))"

text \<open>A daemon that waits with a non-empty queue of requests it can serve.\<close>

definition serving :: "(ukfs_in \<Rightarrow> bool) \<Rightarrow> 'u daemon_state \<Rightarrow> addr list \<Rightarrow> bool" where
  "serving serves s ps \<longleftrightarrow> q_head (ds_q s) = ps \<and> queue_ok (ds_q s) \<and> ready (ds_w s) \<and>
     length (ds_buf s) = FUSE_DAEMON_BUF_SIZE \<and>
     (\<forall>p \<in> set ps. \<exists>q. ukfs (ds_w s) p = Some q \<and> wf_request q \<and> serves (ur_in q))"

text \<open>\<open>serves\<close> are the requests the file system can answer, \<open>answer\<close> is the error, the data and length,
  and the file system's memory afterwards.\<close>

locale replying_ops =
  fixes op :: "'u fuse_lowlevel_ops"
    and serves :: "ukfs_in \<Rightarrow> bool"
    and answer :: "'u answer_fun"
  assumes implemented: "serves i \<Longrightarrow> op_call op a i rest \<noteq> None"
    and replies: "serves i \<Longrightarrow> name_ok i \<Longrightarrow> op_call op a i rest = Some act \<Longrightarrow> live_req w a p \<Longrightarrow>
      proto_minor (conn w) \<ge> 9 \<Longrightarrow> \<forall>n. malloc_ok (plat w) n \<Longrightarrow>
      answer i (plat w) (fsmem w) = (e, d, n, m) \<Longrightarrow> completes a p e d n (w\<lparr>fsmem := m\<rparr>) (act w)"
begin

lemma daemon_completes:
  assumes r: "ready w" and q: "ukfs w p = Some q" and wfq: "wf_request q" "serves (ur_in q)"
    and len: "length buf = FUSE_DAEMON_BUF_SIZE"
    and ans: "answer (ur_in q) (plat w) (fsmem w) = (e, d, n, m)"
  obtains buf' w' where "daemon_handle op p buf w = (buf', w')" "length buf' = FUSE_DAEMON_BUF_SIZE"
    "ready w'" "ukfs w' = (ukfs w)(p \<mapsto> set_answer e d n q)" "reqs w' = reqs w" "dev_out w' = dev_out w"
    "se w' = se w" "plat w' = plat w" "fsmem w' = m" "brk w' = brk w + 1"
proof -
  let ?w1 = "accepted p (daemon_req p q) w" let ?a = "brk w"
  have "\<exists>act. op_call op ?a (ur_in q) rest = Some act" for rest
    using implemented [OF wfq(2), of ?a rest] by blast
  then obtain act where act: "\<And>rest. op_call op ?a (ur_in q) rest = Some (act rest)" by metis
  obtain rest where h: "daemon_handle op p buf w = (wire_buf q buf, act rest ?w1)"
    using daemon_handle_calls [OF r q wfq(1) len act] by blast
  have nm: "name_ok (ur_in q)" using wfq(1) by (simp add: wf_request_def)
  have live: "live_req ?w1 ?a p" unfolding daemon_req_def by (rule accepted_live [OF q])
  have c: "completes ?a p e d n (?w1\<lparr>fsmem := m\<rparr>) (act rest ?w1)"
    by (rule replies [OF wfq(2) nm act live]) (use r ans in \<open>simp_all add: ready_def\<close>)
  have wfw: "wf_world w [] []" using r by (simp add: ready_def)
  have wf1: "wf_world (?w1\<lparr>fsmem := m\<rparr>) (if no_interrupt (conn w) then [] else [?a]) []"
    using accepted_wf [OF wfw, of p "daemon_req p q"] by (subst wf_world_cong [of _ ?w1]) auto
  have wf': "wf_world (act rest ?w1) [] []"
    using completes_wf [OF c wf1] by (auto split: if_splits)
  have reqs': "reqs (act rest ?w1) = reqs w"
    using wf_world_fresh [OF wfw] by (auto simp: completes_simps [OF c])
  have "ukfs (act rest ?w1) = (ukfs w)(p \<mapsto> set_answer e d n q)"
  proof
    fix p'
    show "ukfs (act rest ?w1) p' = ((ukfs w)(p \<mapsto> set_answer e d n q)) p'"
      using completes_result [OF c] completes_simps(8) [OF c] q
      by (cases "p' = p") (auto simp: set_answer_def)
  qed
  moreover have "ready (act rest ?w1)"
    using r wf' unfolding ready_def by (auto simp: completes_simps [OF c])
  ultimately show thesis
    using that [OF h length_wire_buf [OF nm len]] reqs' by (simp add: completes_simps [OF c])
qed

lemma iteration_serves:
  assumes s: "serving serves s (p # ps)" and q: "ukfs (ds_w s) p = Some q"
    and ans: "answer (ur_in q) (plat (ds_w s)) (fsmem (ds_w s)) = (e, d, n, m)"
  obtains s' where "daemon_iteration op s = Some s'" "serving serves s' ps"
    "ukfs (ds_w s') = (ukfs (ds_w s))(p \<mapsto> set_answer e d n q)" "fsmem (ds_w s') = m"
    "plat (ds_w s') = plat (ds_w s)" "reqs (ds_w s') = reqs (ds_w s)" "se (ds_w s') = se (ds_w s)"
    "dev_out (ds_w s') = dev_out (ds_w s)" "brk (ds_w s) < brk (ds_w s')"
proof -
  have S: "q_head (ds_q s) = p # ps" "queue_ok (ds_q s)" "ready (ds_w s)"
    "length (ds_buf s) = FUSE_DAEMON_BUF_SIZE" "wf_request q" "serves (ur_in q)"
    using s q by (auto simp: serving_def)
  obtain buf' w' where h: "daemon_handle op p (ds_buf s) (ds_w s) = (buf', w')" "length buf' = FUSE_DAEMON_BUF_SIZE"
    "ready w'" "ukfs w' = (ukfs (ds_w s))(p \<mapsto> set_answer e d n q)" "plat w' = plat (ds_w s)" "fsmem w' = m"
    "reqs w' = reqs (ds_w s)" "se w' = se (ds_w s)" "dev_out w' = dev_out (ds_w s)" "brk w' = brk (ds_w s) + 1"
    using daemon_completes [OF S(3) q S(5,6,4) ans] by metis
  let ?q = "\<lparr>q_head = ps, q_count = length ps\<rparr>"
  let ?s = "s\<lparr>ds_q := ?q, ds_buf := buf', ds_w := w'\<rparr>"
  have pop: "fuse_ukfs_queue_pop (ds_q s) = Popped p ?q"
    using S(1,2) by (simp add: fuse_ukfs_queue_pop_def queue_ok_def Let_def)
  have it: "daemon_iteration op s = Some ?s" by (simp add: daemon_iteration_def pop h(1))
  have "serving serves ?s ps"
    using s q h by (auto simp: serving_def queue_ok_def set_answer_def wf_request_def)
  then show thesis using that [OF it] h by simp
qed

text \<open>The daemon refines the abstract service: as many iterations as there are requests in its queue
  leave the queue empty and all requests answered.\<close>

lemma daemon_serves_queue:
  "serving serves s ps \<Longrightarrow>
     serving serves (daemon_run op (length ps) s) [] \<and>
     (ukfs (ds_w (daemon_run op (length ps) s)), fsmem (ds_w (daemon_run op (length ps) s))) =
       serve_all answer (plat (ds_w s)) ps (ukfs (ds_w s), fsmem (ds_w s))"
proof (induction ps arbitrary: s)
  case Nil
  then show ?case by simp
next
  case (Cons p ps)
  then obtain q where q: "ukfs (ds_w s) p = Some q" by (auto simp: serving_def)
  obtain e d n m where ans: "answer (ur_in q) (plat (ds_w s)) (fsmem (ds_w s)) = (e, d, n, m)"
    by (metis prod_cases4)
  obtain s' where "daemon_iteration op s = Some s'" "serving serves s' ps"
    "ukfs (ds_w s') = (ukfs (ds_w s))(p \<mapsto> set_answer e d n q)" "fsmem (ds_w s') = m"
    "plat (ds_w s') = plat (ds_w s)"
    using iteration_serves [OF Cons.prems q ans] by metis
  then show ?case using Cons.IH [of s'] q ans by (simp del: fun_upd_apply)
qed

end

section \<open>Properties\<close>

text \<open>\<^bold>\<open>C8\<close> For a well-formed request of the driver the daemon's encoding, the library's decoding and its dispatch
  amount to one call of the file system's operation, with the arguments of the driver's request, on a
  freshly allocated request whose answer goes to the driver.\<close>

theorem daemon_calls_operation:
  assumes r: "ready w" and q: "ukfs w p = Some q" and wfq: "wf_request q"
    and len: "length buf = FUSE_DAEMON_BUF_SIZE"
    and call: "\<forall>rest. op_call op (brk w) (ur_in q) rest = Some (act rest)"
  shows "\<exists>rest. snd (daemon_handle op p buf w) = act rest (accepted p (daemon_req p q) w) \<and>
    live_req (accepted p (daemon_req p q) w) (brk w) p \<and> length (fst (daemon_handle op p buf w)) = FUSE_DAEMON_BUF_SIZE"
proof -
  have "\<And>rest. op_call op (brk w) (ur_in q) rest = Some (act rest)" using call by blast
  then obtain rest where "daemon_handle op p buf w = (wire_buf q buf, act rest (accepted p (daemon_req p q) w))"
    using daemon_handle_calls [OF r q wfq len] by blast
  moreover have "live_req (accepted p (daemon_req p q) w) (brk w) p"
    unfolding daemon_req_def by (rule accepted_live [OF q])
  moreover have "length (wire_buf q buf) = FUSE_DAEMON_BUF_SIZE"
    using length_wire_buf [OF _ len] wfq by (simp add: wf_request_def)
  ultimately show ?thesis by auto
qed

theorem daemon_calls_operation_witness:
  defines "q \<equiv> \<lparr>ur_opcode = FUSE_UKFS_OPEN, ur_unique = 1, ur_in = In_open 2 0, ur_error = 0, ur_reply_data = RNull,
    ur_reply_len = 0, ur_done = 0\<rparr>"
  defines "w \<equiv> demo_world\<lparr>ukfs := [3 \<mapsto> q]\<rparr>"
  defines "op \<equiv> no_ops\<lparr>op_open := Some (\<lambda>a ino fi. reply_err a EISDIR)\<rparr>"
  shows "snd (daemon_handle op 3 (replicate 8192 0) w) = reply_err 2 EISDIR (accepted 3 (daemon_req 3 q) w)"
proof -
  have "wf_world w [] []"
    using wf_session_new [OF demo_world_new] unfolding w_def by (subst wf_world_cong [of _ demo_world]) auto
  then have r: "ready w"
    by (auto simp: ready_def w_def demo_world_def fuse_session_new_versioned_def demo_platform_def Let_def)
  have "brk w = 2" by (simp add: w_def demo_world_simps)
  then show ?thesis
    using daemon_calls_operation [OF r, of 3 q "replicate 8192 0" op "\<lambda>_. reply_err 2 EISDIR"]
    by (simp add: w_def q_def op_def wf_request_def)
qed

text \<open>A request whose opcode is not in the daemon's table is answered \<open>-ENOSYS\<close> and its caller woken; the
  library and the file system see nothing of it.\<close>

lemma daemon_unknown_opcode:
  assumes "ukfs w p = Some q" and "length buf = FUSE_DAEMON_BUF_SIZE"
    and "ur_opcode q \<notin> {FUSE_UKFS_LOOKUP, FUSE_UKFS_GETATTR, FUSE_UKFS_OPEN, FUSE_UKFS_READ, FUSE_UKFS_READDIR}"
  shows "snd (daemon_handle op p buf w) = w\<lparr>ukfs := (ukfs w)(p \<mapsto> set_answer (- ENOSYS) RNull 0 q)\<rparr>"
proof -
  have "mem_write buf 0 (enc_fuse_in_header (daemon_header (ur_unique q))) =
      Some (enc_fuse_in_header (daemon_header (ur_unique q)) @ drop 40 buf)"
    using assms(2) mem_write_first [of "enc_fuse_in_header (daemon_header (ur_unique q))" buf] by simp
  then show ?thesis
    using assms(1) find_dispatch_table_unknown [OF assms(3)]
    by (simp add: daemon_handle_def set_answer_def uk_semaphore_up_def Let_def)
qed

text \<open>\<^bold>\<open>C39\<close> The daemon copies a name into its buffer without a length check: a name of 8152 bytes or more is
  written past the end of the buffer.\<close>

theorem daemon_long_name_overflows:
  assumes "ukfs w p = Some q" and "ur_opcode q = FUSE_UKFS_LOOKUP" and "ur_in q = In_lookup parent name"
    and "length buf = FUSE_DAEMON_BUF_SIZE" and "length name \<ge> FUSE_DAEMON_BUF_SIZE - 40" and "fault w = None"
  shows "fault (snd (daemon_handle op p buf w)) = Some OutOfBounds"
proof -
  let ?h = "daemon_header (ur_unique q)"
  have w1: "mem_write buf 0 (enc_fuse_in_header ?h) = Some (enc_fuse_in_header ?h @ drop 40 buf)"
    using assms(4) mem_write_first [of "enc_fuse_in_header ?h" buf] by simp
  have "mem_write (enc_fuse_in_header ?h @ drop 40 buf) 40 (name @ [0]) = None"
    using assms(4,5) by (simp add: mem_write_def)
  moreover have "unat (ih_len ?h) = 40" by (simp add: daemon_header_def sizeof_in_defs)
  ultimately have "fill_lookup (enc_fuse_in_header ?h @ drop 40 buf) (?h\<lparr>ih_opcode := FUSE_LOOKUP\<rparr>) q = None"
    using assms(3) by (simp add: fill_lookup_def append_payload_def)
  moreover have "find (\<lambda>(u, _, _). u = ur_opcode q) dispatch_table = Some (FUSE_UKFS_LOOKUP, FUSE_LOOKUP, fill_lookup)"
    using assms(2) by (simp add: dispatch_table_def)
  ultimately show ?thesis
    using assms(1,6) w1 by (simp add: daemon_handle_def Let_def raise_fault_def)
qed

theorem daemon_long_name_overflows_witness:
  defines "q \<equiv> \<lparr>ur_opcode = FUSE_UKFS_LOOKUP, ur_unique = 1, ur_in = In_lookup 1 (replicate 9000 65), ur_error = 0,
    ur_reply_data = RNull, ur_reply_len = 0, ur_done = 0\<rparr>"
  shows "fault (snd (daemon_handle no_ops 3 (replicate 8192 0) (demo_world\<lparr>ukfs := [3 \<mapsto> q]\<rparr>))) = Some OutOfBounds"
  by (rule daemon_long_name_overflows [where q = q and name = "replicate 9000 65" and parent = 1])
    (simp_all add: q_def demo_world_simps)

end
