(* ===== verification/Hello_LL.thy ===== *)
theory Hello_LL
  imports Fuse_Daemon
begin

text \<open>
  The file system of the test applications, \<^verbatim>\<open>apps/fuse-test/hello_ll.c\<close> and the identical
  \<^verbatim>\<open>apps/fuse-correctness-test/hello_ll.c\<close>: a root directory (inode 1) with one read-only file
  (inode 2). It keeps no state of its own. The interpretation \<open>hello\<close> shows that it meets the
  contract of the daemon, with \<open>hello_answer\<close> as the content of the file system.
\<close>

section \<open>Operations\<close>

definition hello_str :: "byte list" where
  "hello_str = bytes_of (''Hello World!'' @ [CHR 0x0A])"

definition hello_name :: "byte list" where
  "hello_name = bytes_of ''hello''"

abbreviation S_IFDIR :: u32 where "S_IFDIR \<equiv> 0x4000"
abbreviation S_IFREG :: u32 where "S_IFREG \<equiv> 0x8000"
abbreviation ONE_SECOND :: double_bits where "ONE_SECOND \<equiv> 0x3FF0000000000000"

definition hello_stat :: "u64 \<Rightarrow> stat \<Rightarrow> int \<times> stat" where
  "hello_stat ino stbuf =
     (let stbuf = stbuf\<lparr>st_ino := ino\<rparr>
      in if ino = 1 then (0, stbuf\<lparr>st_mode := S_IFDIR OR 0x1ED, st_nlink := 2\<rparr>)
         else if ino = 2 then
           (0, stbuf\<lparr>st_mode := S_IFREG OR 0x124, st_nlink := 1, st_size := of_nat (length hello_str)\<rparr>)
         else (- 1, stbuf))"

definition hello_ll_init :: "u64 \<Rightarrow> 'u action" where
  "hello_ll_init userdata w =
     (let w = conn_mod (\<lambda>c. c\<lparr>no_interrupt := True\<rparr>) w;
          w = conn_mod (\<lambda>c. c\<lparr>want := ucast FUSE_CAP_ASYNC_READ\<rparr>) w
      in conn_mod (\<lambda>c. c\<lparr>want := want c AND ucast (NOT FUSE_CAP_ASYNC_READ)\<rparr>) w)"

definition hello_ll_getattr :: "addr \<Rightarrow> u64 \<Rightarrow> fuse_file_info option \<Rightarrow> 'u action" where
  "hello_ll_getattr req ino fi w =
     (let (res, stbuf) = hello_stat ino zero_stat
      in if res = - 1 then reply_err req ENOENT w
         else snd (fuse_reply_attr req stbuf ONE_SECOND w))"

definition hello_ll_lookup :: "addr \<Rightarrow> u64 \<Rightarrow> byte list \<Rightarrow> 'u action" where
  "hello_ll_lookup req parent name w =
     (if parent \<noteq> 1 then reply_err req ENOENT w
      else rd (strcmp_eq name (hello_name @ [0])) (\<lambda>same w.
        if \<not> same then reply_err req ENOENT w
        else
          (let e = zero_entry_param\<lparr>ep_ino := 2, ep_attr_timeout := ONE_SECOND, ep_entry_timeout := ONE_SECOND\<rparr>;
               e = e\<lparr>ep_attr := snd (hello_stat (ep_ino e) (ep_attr e))\<rparr>
           in snd (fuse_reply_entry req e w))) w)"

record dirbuf =
  db_p :: "byte list option"
  db_size :: u64

text \<open>When the buffer cannot grow, its pointer becomes null and the next entry is written at a wild
  address.\<close>

definition dirbuf_add :: "byte list \<Rightarrow> u64 \<Rightarrow> dirbuf \<times> 'u fuse_world \<Rightarrow> dirbuf \<times> 'u fuse_world" where
  "dirbuf_add name ino bw =
     (let (b, w) = bw; oldsize = db_size b
      in case fuse_add_direntry None 0 name None 0 of
           None \<Rightarrow> (b, raise_fault OutOfBounds w)
         | Some (n, _) \<Rightarrow>
             (let new = oldsize + n; (ok, w) = try_malloc w
              in if \<not> ok then
                   (if oldsize = 0 then (\<lparr>db_p = None, db_size = new\<rparr>, w)
                    else (\<lparr>db_p = None, db_size = new\<rparr>, raise_fault OutOfBounds w))
                 else
                   (let old = (case db_p b of None \<Rightarrow> [] | Some m \<Rightarrow> m);
                        m = old @ map (uninit (plat w)) [length old..<unat new];
                        stbuf = zero_stat\<lparr>st_ino := ino\<rparr>
                    in case fuse_add_direntry (Some (drop (unat oldsize) m)) (new - oldsize) name (Some stbuf) new of
                         Some (_, Some m') \<Rightarrow> (\<lparr>db_p = Some (take (unat oldsize) m @ m'), db_size = new\<rparr>, w)
                       | _ \<Rightarrow> (b, raise_fault OutOfBounds w))))"

text \<open>The offset is signed; a negative one makes a pointer before the buffer.\<close>

definition reply_buf_limited :: "addr \<Rightarrow> byte list option \<Rightarrow> u64 \<Rightarrow> u64 \<Rightarrow> u64 \<Rightarrow> 'u fuse_world \<Rightarrow>
    int \<times> 'u fuse_world" where
  "reply_buf_limited req buf bufsize off maxsize w =
     (if off <s bufsize then
        (let len = (if bufsize - off < maxsize then bufsize - off else maxsize)
         in if off <s 0 then (- 1, raise_fault OutOfBounds w)
            else case buf of
                   Some b \<Rightarrow> fuse_reply_buf req (Some (drop (unat off) b)) (unat len) w
                 | None \<Rightarrow> if off = 0 then fuse_reply_buf req None (unat len) w
                           else (- 1, raise_fault OutOfBounds w))
      else fuse_reply_buf req None 0 w)"

definition hello_ll_readdir :: "addr \<Rightarrow> u64 \<Rightarrow> u64 \<Rightarrow> u64 \<Rightarrow> fuse_file_info \<Rightarrow> 'u action" where
  "hello_ll_readdir req ino sz off fi w =
     (if ino \<noteq> 1 then reply_err req ENOTDIR w
      else
        (let bw = (\<lparr>db_p = None, db_size = 0\<rparr>, w);
             bw = dirbuf_add (bytes_of ''.'' @ [0]) 1 bw;
             bw = dirbuf_add (bytes_of ''..'' @ [0]) 1 bw;
             (b, w) = dirbuf_add (hello_name @ [0]) 2 bw
         in snd (reply_buf_limited req (db_p b) (db_size b) off sz w)))"

abbreviation O_ACCMODE :: u32 where "O_ACCMODE \<equiv> 3"
abbreviation O_RDONLY :: u32 where "O_RDONLY \<equiv> 0"

definition hello_ll_open :: "addr \<Rightarrow> u64 \<Rightarrow> fuse_file_info \<Rightarrow> 'u action" where
  "hello_ll_open req ino fi w =
     (if ino \<noteq> 2 then reply_err req EISDIR w
      else if fi_flags fi AND O_ACCMODE \<noteq> O_RDONLY then reply_err req EACCES w
      else snd (fuse_reply_open req fi w))"

definition hello_ll_read :: "addr \<Rightarrow> u64 \<Rightarrow> u64 \<Rightarrow> u64 \<Rightarrow> fuse_file_info \<Rightarrow> 'u action" where
  "hello_ll_read req ino sz off fi w =
     (if ino \<noteq> 2 then raise_fault AssertFail w
      else snd (reply_buf_limited req (Some (hello_str @ [0])) (of_nat (length hello_str)) off sz w))"

definition hello_ll_getxattr :: "addr \<Rightarrow> u64 \<Rightarrow> byte list \<Rightarrow> u64 \<Rightarrow> 'u action" where
  "hello_ll_getxattr req ino name sz w =
     (if \<not> (ino = 1 \<or> ino = 2) then raise_fault AssertFail w
      else rd (strcmp_eq name (bytes_of ''hello_ll_getxattr_name'' @ [0])) (\<lambda>same w.
        if same then
          (let buf = bytes_of ''hello_ll_getxattr_value''
           in snd (fuse_reply_buf req (Some (buf @ [0])) (length buf) w))
        else reply_err req ENOTSUP w) w)"

definition hello_ll_setxattr :: "addr \<Rightarrow> u64 \<Rightarrow> byte list \<Rightarrow> byte list \<Rightarrow> u64 \<Rightarrow> u32 \<Rightarrow> 'u action" where
  "hello_ll_setxattr req ino name val sz flags w =
     (if \<not> (ino = 1 \<or> ino = 2) then raise_fault AssertFail w
      else
        (let exp_val = bytes_of ''hello_ll_setxattr_value''
         in rd (strcmp_eq name (bytes_of ''hello_ll_setxattr_name'' @ [0])) (\<lambda>same w.
              if same \<and> of_nat (length exp_val) = sz then
                rd (strncmp_eq val (exp_val @ [0]) (unat sz)) (\<lambda>eq.
                  if eq then reply_err req 0 else reply_err req ENOTSUP) w
              else reply_err req ENOTSUP w) w))"

definition hello_ll_removexattr :: "addr \<Rightarrow> u64 \<Rightarrow> byte list \<Rightarrow> 'u action" where
  "hello_ll_removexattr req ino name w =
     (if \<not> (ino = 1 \<or> ino = 2) then raise_fault AssertFail w
      else rd (strcmp_eq name (bytes_of ''hello_ll_removexattr_name'' @ [0])) (\<lambda>same.
        if same then reply_err req 0 else reply_err req ENOTSUP) w)"

definition hello_ll_oper :: "'u fuse_lowlevel_ops" where
  "hello_ll_oper = no_ops\<lparr>op_init := Some hello_ll_init, op_lookup := Some hello_ll_lookup,
     op_getattr := Some hello_ll_getattr, op_readdir := Some hello_ll_readdir,
     op_open := Some hello_ll_open, op_read := Some hello_ll_read,
     op_setxattr := Some hello_ll_setxattr, op_getxattr := Some hello_ll_getxattr,
     op_removexattr := Some hello_ll_removexattr\<rparr>"

section \<open>The content of the file system\<close>

definition hello_entry :: fuse_entry_param where
  "hello_entry = \<lparr>ep_ino = 2, ep_generation = 0, ep_attr = snd (hello_stat 2 zero_stat),
     ep_attr_timeout = ONE_SECOND, ep_entry_timeout = ONE_SECOND\<rparr>"

text \<open>The directory as a byte string: each entry carries the offset at which the next one starts.\<close>

definition hello_dirent :: "u64 \<Rightarrow> u64 \<Rightarrow> byte list \<Rightarrow> byte list" where
  "hello_dirent ino next name = enc_fuse_dirent ino next (of_nat (length name)) 0 @ name @
     replicate (dirent_size (length name) - (FUSE_NAME_OFFSET + length name)) 0"

definition hello_dir :: "byte list" where
  "hello_dir = hello_dirent 1 32 (bytes_of ''.'') @ hello_dirent 1 64 (bytes_of ''..'') @
     hello_dirent 2 96 hello_name"

definition window :: "byte list \<Rightarrow> u64 \<Rightarrow> u32 \<Rightarrow> byte list" where
  "window bs off sz = take (unat sz) (drop (unat off) bs)"

fun hello_answer :: "'u answer_fun" where
  "hello_answer (In_lookup parent name) pl m =
     (if parent = 1 \<and> name = hello_name then (0, REntry hello_entry, sizeof_entry_param pl, m)
      else (- ENOENT, RNull, 0, m))"
| "hello_answer (In_getattr ino) pl m =
     (if ino = 1 \<or> ino = 2 then (0, RStat (snd (hello_stat ino zero_stat)), sizeof_stat pl, m)
      else (- ENOENT, RNull, 0, m))"
| "hello_answer (In_open ino flags) pl m =
     (if ino \<noteq> 2 then (- EISDIR, RNull, 0, m)
      else if flags AND O_ACCMODE \<noteq> O_RDONLY then (- EACCES, RNull, 0, m)
      else (0, ROpen zero_open_out, 16, m))"
| "hello_answer (In_read ino fh off sz) pl m =
     (0, RBytes (window hello_str off sz), length (window hello_str off sz), m)"
| "hello_answer (In_readdir ino fh off sz) pl m =
     (if ino \<noteq> 1 then (- ENOTDIR, RNull, 0, m)
      else (0, RBytes (window hello_dir off sz), length (window hello_dir off sz), m))"

text \<open>What the file system can serve: reads of its file, at offsets that are not negative as \<^verbatim>\<open>off_t\<close>.\<close>

fun hello_serves :: "ukfs_in \<Rightarrow> bool" where
  "hello_serves (In_read ino fh off sz) \<longleftrightarrow> ino = 2 \<and> 0 \<le>s off"
| "hello_serves (In_readdir ino fh off sz) \<longleftrightarrow> 0 \<le>s off"
| "hello_serves _ \<longleftrightarrow> True"

section \<open>The contract\<close>

lemma hello_str_simps [simp]: "length hello_str = 13" "0 \<notin> set hello_str"
  by (simp_all add: hello_str_def bytes_of_def)

lemma hello_name_simps [simp]: "length hello_name = 5" "0 \<notin> set hello_name"
  by (simp_all add: hello_name_def bytes_of_def)

text \<open>Enough memory.\<close>

lemma reply_result_ok: "\<forall>n. malloc_ok (plat w) n \<Longrightarrow> reply_result w d = (0, d)"
  by (simp add: reply_result_def)

lemma buf_result_ok: "\<forall>n. malloc_ok (plat w) n \<Longrightarrow> buf_result w b = (0, RBytes b)"
  by (simp add: buf_result_def)

text \<open>\<open>reply_buf_limited\<close> answers with the part of the buffer in the window.\<close>

lemma reply_buf_limited_completes:
  fixes sz :: u32
  assumes live: "live_req w a p" and ok: "\<forall>n. malloc_ok (plat w) n"
    and b: "unat bufsize \<le> length b" "unat bufsize < 2 ^ 63" and off: "0 \<le>s off"
  defines "win \<equiv> window (take (unat bufsize) b) off sz"
  shows "completes a p 0 (RBytes win) (length win) w
    (snd (reply_buf_limited a (Some b) bufsize off (ucast sz) w))"
proof -
  have off': "unat off < 2 ^ 63" using off by (simp add: nonneg_iff)
  have lt: "off <s bufsize \<longleftrightarrow> unat off < unat bufsize" by (rule sless_iff [OF off' b(2)])
  have usz: "unat (ucast sz :: u64) = unat sz"
    by (simp add: unsigned_ucast_eq take_bit_nat_eq_self order_less_trans [OF unsigned_less])
  show ?thesis
  proof (cases "unat off < unat bufsize")
    case True
    define len where "len = (if bufsize - off < ucast sz then bufsize - off else ucast sz)"
    have ubo: "unat (bufsize - off) = unat bufsize - unat off"
      using True by (simp add: unat_sub word_le_nat_alt)
    have ulen: "unat len = min (unat bufsize - unat off) (unat sz)"
      using ubo usz by (auto simp: len_def word_less_nat_alt)
    have nn: "\<not> off <s 0" using off by (simp add: word_sle_eq word_sless_alt)
    have fit: "unat len \<le> length (drop (unat off) b)" using ulen b(1) by simp
    have win: "take (unat len) (drop (unat off) b) = win" "unat len = length win"
      using ulen b(1) by (simp_all add: win_def window_def drop_take min.commute)
    have "reply_buf_limited a (Some b) bufsize off (ucast sz) w =
        fuse_reply_buf a (Some (drop (unat off) b)) (unat len) w"
      using True lt nn by (simp add: reply_buf_limited_def Let_def len_def)
    then show ?thesis
      using fuse_reply_buf_completes(2) [OF live fit] by (simp add: buf_result_ok [OF ok] win(1) flip: win(2))
  next
    case False
    then have "win = []" by (simp add: win_def window_def)
    then show ?thesis
      using False lt fuse_reply_buf_empty_completes(2) [OF live]
      by (simp add: reply_buf_limited_def buf_result_ok [OF ok])
  qed
qed

text \<open>One more entry in the directory buffer.\<close>

lemma dirbuf_add_entry:
  assumes ok: "\<forall>n. malloc_ok (plat w) n" and nm: "0 \<notin> set name" "length name < 1000"
    and sz: "db_size b = of_nat (length old)" "length old < 1000"
    and p: "db_p b = (if old = [] then None else Some old)"
  shows "dirbuf_add (name @ [0]) ino (b, w) =
    (\<lparr>db_p = Some (old @ hello_dirent ino (of_nat (length old + dirent_size (length name))) name),
      db_size = of_nat (length old + dirent_size (length name))\<rparr>, w\<lparr>nmalloc := nmalloc w + 1\<rparr>)"
proof -
  let ?ds = "dirent_size (length name)"
  let ?new = "of_nat (length old + ?ds) :: u64"
  have ds: "24 + length name \<le> ?ds" "?ds < 2000"
    using nm(2) by (auto simp: dirent_size_def)
  have cs: "c_string (name @ [0]) = Some name" using nm(1) by simp
  have un: "unat ?new = length old + ?ds"
    using ds sz(2) by (simp only: unat_of_nat take_bit_nat_eq_self) (simp add: take_bit_nat_eq_self)
  have uo: "unat (db_size b) = length old"
    using sz by (simp only: unat_of_nat take_bit_nat_eq_self) (simp add: take_bit_nat_eq_self)
  have ud: "?new - db_size b = of_nat ?ds" using sz(1) by simp
  have uds: "unat (of_nat ?ds :: u64) = ?ds"
    using ds by (simp only: unat_of_nat take_bit_nat_eq_self) (simp add: take_bit_nat_eq_self)
  have meas: "fuse_add_direntry None 0 (name @ [0]) None 0 = Some (of_nat ?ds, None)"
    by (rule fuse_add_direntry_measure [OF cs]) (use nm(2) in simp)
  let ?z = "map (uninit (plat w)) [length old..<length old + ?ds]"
  have put: "fuse_add_direntry (Some ?z) (of_nat ?ds) (name @ [0]) (Some (zero_stat\<lparr>st_ino := ino\<rparr>)) ?new =
      Some (of_nat ?ds, Some (hello_dirent ino ?new name))"
    using fuse_add_direntry_fits [OF cs, of "of_nat ?ds" ?z "zero_stat\<lparr>st_ino := ino\<rparr>" ?new] uds nm(2)
    by (simp add: hello_dirent_def zero_stat_def)
  have old: "(case db_p b of None \<Rightarrow> [] | Some m \<Rightarrow> m) = old" using p by simp
  show ?thesis
    using ok meas put un uo ud sz old
    by (simp add: dirbuf_add_def Let_def try_malloc_def)
qed

lemma length_hello_dirent: "length (hello_dirent ino n name) = dirent_size (length name)"
  using dirent_size_ge [of "length name"] by (simp add: hello_dirent_def)

lemma hello_dirent_sizes: "dirent_size (Suc 0) = 32" "dirent_size (Suc (Suc 0)) = 32" "dirent_size 2 = 32" "dirent_size 5 = 32"
  by (simp_all add: dirent_size_def)

lemma length_hello_dir [simp]: "length hello_dir = 96"
  by (simp add: hello_dir_def length_hello_dirent bytes_of_def hello_dirent_sizes)

lemma hello_dirbuf:
  assumes ok: "\<forall>n. malloc_ok (plat w) n"
  shows "dirbuf_add (hello_name @ [0]) 2 (dirbuf_add (bytes_of ''..'' @ [0]) 1
      (dirbuf_add (bytes_of ''.'' @ [0]) 1 (\<lparr>db_p = None, db_size = 0\<rparr>, w))) =
    (\<lparr>db_p = Some hello_dir, db_size = 96\<rparr>, w\<lparr>nmalloc := nmalloc w + 3\<rparr>)"
proof -
  let ?d = "bytes_of ''.''" let ?dd = "bytes_of ''..''"
  have names: "0 \<notin> set ?d" "0 \<notin> set ?dd" "length ?d = 1" "length ?dd = 2"
    by (simp_all add: bytes_of_def)
  let ?e1 = "hello_dirent 1 32 ?d" let ?e2 = "hello_dirent 1 64 ?dd"
  have ne: "?e1 \<noteq> []" "?e1 @ ?e2 \<noteq> []" by (simp_all add: hello_dirent_def enc_fuse_dirent_def le_bytes_def upt_rec)
  have l: "length ?e1 = 32" "length (?e1 @ ?e2) = 64"
    by (simp_all add: length_hello_dirent names hello_dirent_sizes)
  have 1: "dirbuf_add (?d @ [0]) 1 (\<lparr>db_p = None, db_size = 0\<rparr>, w) =
      (\<lparr>db_p = Some ?e1, db_size = 32\<rparr>, w\<lparr>nmalloc := nmalloc w + 1\<rparr>)"
    using dirbuf_add_entry [OF ok names(1), of "\<lparr>db_p = None, db_size = 0\<rparr>" "[]" 1]
    by (simp add: names hello_dirent_sizes)
  have 2: "dirbuf_add (?dd @ [0]) 1 (\<lparr>db_p = Some ?e1, db_size = 32\<rparr>, w\<lparr>nmalloc := nmalloc w + 1\<rparr>) =
      (\<lparr>db_p = Some (?e1 @ ?e2), db_size = 64\<rparr>, w\<lparr>nmalloc := nmalloc w + 2\<rparr>)"
    using dirbuf_add_entry [of "w\<lparr>nmalloc := nmalloc w + 1\<rparr>", OF _ names(2), of "\<lparr>db_p = Some ?e1, db_size = 32\<rparr>" ?e1 1] ok
    by (simp add: names hello_dirent_sizes l ne)
  have 3: "dirbuf_add (hello_name @ [0]) 2 (\<lparr>db_p = Some (?e1 @ ?e2), db_size = 64\<rparr>, w\<lparr>nmalloc := nmalloc w + 2\<rparr>) =
      (\<lparr>db_p = Some hello_dir, db_size = 96\<rparr>, w\<lparr>nmalloc := nmalloc w + 3\<rparr>)"
    using dirbuf_add_entry [of "w\<lparr>nmalloc := nmalloc w + 2\<rparr>", OF _ hello_name_simps(2), of "\<lparr>db_p = Some (?e1 @ ?e2), db_size = 64\<rparr>" "?e1 @ ?e2" 2] ok
    by (simp only: l ne) (simp add: hello_dirent_sizes hello_dir_def l ne)
  show ?thesis using 1 2 3 by simp
qed

lemma live_req_nmalloc: "live_req (w\<lparr>nmalloc := n\<rparr>) a p = live_req w a p"
  by (simp add: live_req_def)

lemma completes_nmalloc: "completes a p e d n (w\<lparr>nmalloc := k\<rparr>) w' = completes a p e d n w w'"
  unfolding completes_def
  by (auto intro!: fuse_world.equality)

lemma hello_ll_oper_simps:
  "op_lookup hello_ll_oper = Some hello_ll_lookup" "op_getattr hello_ll_oper = Some hello_ll_getattr"
  "op_open hello_ll_oper = Some hello_ll_open" "op_read hello_ll_oper = Some hello_ll_read"
  "op_readdir hello_ll_oper = Some hello_ll_readdir"
  by (simp_all add: hello_ll_oper_def)

lemma reply_err_completes: "live_req w a p \<Longrightarrow> completes a p (- err) RNull 0 w (reply_err a err w)"
  by (simp add: reply_err_def fuse_reply_err_completes)

lemma hello_lookup_completes:
  assumes "live_req w a p" "\<forall>n. malloc_ok (plat w) n" "0 \<notin> set name"
    and "hello_answer (In_lookup parent name) (plat w) (fsmem w) = (e, d, n, m)"
  shows "completes a p e d n w (hello_ll_lookup a parent (name @ 0 # rest) w)"
proof -
  have cmp: "strcmp_eq (name @ 0 # rest) (hello_name @ [0]) = Some (name = hello_name)"
    by (rule strcmp_eq_strings) (use assms in auto)
  have ent: "zero_entry_param\<lparr>ep_ino := 2, ep_attr_timeout := ONE_SECOND, ep_entry_timeout := ONE_SECOND,
      ep_attr := snd (hello_stat 2 zero_stat)\<rparr> = hello_entry"
    by (simp add: hello_entry_def zero_entry_param_def)
  have "completes a p 0 (REntry hello_entry) (sizeof_entry_param (plat w)) w (snd (fuse_reply_entry a hello_entry w))"
    using fuse_reply_entry_completes(2) [OF assms(1), of hello_entry] reply_result_ok [OF assms(2)]
    by (simp add: hello_entry_def)
  then show ?thesis
    using assms(1,4) reply_err_completes [OF assms(1), of ENOENT] cmp ent
    by (auto simp: hello_ll_lookup_def Let_def zero_entry_param_def split: if_splits)
qed

lemma hello_getattr_completes:
  assumes "live_req w a p" "\<forall>n. malloc_ok (plat w) n"
    and "hello_answer (In_getattr ino) (plat w) (fsmem w) = (e, d, n, m)"
  shows "completes a p e d n w (hello_ll_getattr a ino fi w)"
proof -
  have "fst (hello_stat ino zero_stat) = (if ino = 1 \<or> ino = 2 then 0 else - 1)"
    by (simp add: hello_stat_def Let_def)
  then show ?thesis
    using assms fuse_reply_attr_completes(2) [OF assms(1)] reply_result_ok [OF assms(2)]
      reply_err_completes [OF assms(1), of ENOENT]
    by (auto simp: hello_ll_getattr_def split: prod.splits if_splits)
qed

lemma hello_open_completes:
  assumes "live_req w a p" "\<forall>n. malloc_ok (plat w) n"
    and "hello_answer (In_open ino flags) (plat w) (fsmem w) = (e, d, n, m)"
  shows "completes a p e d n w (hello_ll_open a ino (zero_file_info\<lparr>fi_flags := flags\<rparr>) w)"
proof -
  have "fill_open zero_open_out (zero_file_info\<lparr>fi_flags := flags\<rparr>) = zero_open_out"
    by (simp add: fill_open_def zero_file_info_def or_flag_def zero_open_out_def)
  then show ?thesis
    using assms fuse_reply_open_completes(2) [OF assms(1), of "zero_file_info\<lparr>fi_flags := flags\<rparr>"]
      reply_result_ok [OF assms(2)] reply_err_completes [OF assms(1)]
    by (auto simp: hello_ll_open_def zero_file_info_def split: if_splits)
qed

lemma hello_read_completes:
  assumes "live_req w a p" "\<forall>n. malloc_ok (plat w) n" "0 \<le>s off"
    and "hello_answer (In_read 2 fh off sz) (plat w) (fsmem w) = (e, d, n, m)"
  shows "completes a p e d n w (hello_ll_read a 2 (ucast sz) off fi w)"
  using reply_buf_limited_completes [OF assms(1,2) _ _ assms(3), of 13 "hello_str @ [0]" sz] assms(4)
  by (auto simp: hello_ll_read_def)

lemma hello_readdir_completes:
  assumes "live_req w a p" "\<forall>n. malloc_ok (plat w) n" "0 \<le>s off"
    and "hello_answer (In_readdir ino fh off sz) (plat w) (fsmem w) = (e, d, n, m)"
  shows "completes a p e d n w (hello_ll_readdir a ino (ucast sz) off fi w)"
proof (cases "ino = 1")
  case True
  let ?w = "w\<lparr>nmalloc := nmalloc w + 3\<rparr>"
  have "hello_ll_readdir a ino (ucast sz) off fi w =
      snd (reply_buf_limited a (Some hello_dir) 96 off (ucast sz) ?w)"
    using True hello_dirbuf [OF assms(2)] by (simp add: hello_ll_readdir_def)
  moreover have "completes a p 0 (RBytes (window hello_dir off sz)) (length (window hello_dir off sz)) ?w
      (snd (reply_buf_limited a (Some hello_dir) 96 off (ucast sz) ?w))"
    using reply_buf_limited_completes [of ?w a p 96 hello_dir off sz] assms by (simp add: live_req_nmalloc)
  ultimately show ?thesis using assms(4) True by (auto simp: completes_nmalloc)
next
  case False
  then show ?thesis
    using assms reply_err_completes [OF assms(1), of ENOTDIR] by (auto simp: hello_ll_readdir_def)
qed

lemma hello_answer_mem: "hello_answer i pl m = (e, d, n, m') \<Longrightarrow> m' = m"
  by (cases i) (auto split: if_splits)

interpretation hello: replying_ops "hello_ll_oper :: 'u fuse_lowlevel_ops" hello_serves hello_answer
proof
  fix i a rest
  show "op_call (hello_ll_oper :: 'u fuse_lowlevel_ops) a i rest \<noteq> None"
    by (cases i) (simp_all add: hello_ll_oper_simps)
next
  fix i a rest p e d n m and act :: "'u action" and w :: "'u fuse_world"
  assume s: "hello_serves i" "name_ok i" "op_call (hello_ll_oper :: 'u fuse_lowlevel_ops) a i rest = Some act"
    and l: "live_req w a p" "\<forall>n. malloc_ok (plat w) n"
    and a: "hello_answer i (plat w) (fsmem w) = (e, d, n, m)"
  have m: "w\<lparr>fsmem := m\<rparr> = w" using hello_answer_mem [OF a] by simp
  show "completes a p e d n (w\<lparr>fsmem := m\<rparr>) (act w)"
    unfolding m
  proof (cases i)
    case (In_lookup parent name)
    then show "completes a p e d n w (act w)"
      using hello_lookup_completes [OF l] s a by (auto simp: hello_ll_oper_simps)
  next
    case (In_getattr ino)
    then show "completes a p e d n w (act w)"
      using hello_getattr_completes [OF l] s a by (auto simp: hello_ll_oper_simps)
  next
    case (In_open ino flags)
    then show "completes a p e d n w (act w)"
      using hello_open_completes [OF l] s a by (auto simp: hello_ll_oper_simps)
  next
    case (In_read ino fh off sz)
    then show "completes a p e d n w (act w)"
      using hello_read_completes [OF l] s a by (auto simp: hello_ll_oper_simps)
  next
    case (In_readdir ino fh off sz)
    then show "completes a p e d n w (act w)"
      using hello_readdir_completes [OF l] s a by (auto simp: hello_ll_oper_simps)
  qed
qed

section \<open>Properties\<close>

text \<open>A read or listing at an offset that is negative as \<^verbatim>\<open>off_t\<close> makes the test file system read before its
  buffer.\<close>

lemma negative_offset_out_of_bounds:
  assumes "off <s 0" and "fault w = None"
  shows "fault (hello_ll_read a 2 sz off fi w) = Some OutOfBounds"
proof -
  have "off <s 13" using assms(1) by (simp add: word_sless_alt)
  then show ?thesis using assms by (simp add: hello_ll_read_def reply_buf_limited_def Let_def raise_fault_def)
qed

end
