(* ===== verification/Ukfs_Fuse.thy ===== *)
theory Ukfs_Fuse
  imports Hello_LL
begin

text \<open>
  The UKFS driver of \<^verbatim>\<open>libs/ukfusefs/ukfs-fuse.c\<close>. Every operation that needs the file system puts a
  request on the global queue and waits on its semaphore until the daemon thread has answered it.
  A call is a function on the system state, the daemon's state included; the wait runs the daemon,
  and \<open>None\<close> means that the caller never wakes up.

  Parameters: the constants of Unikraft's file system interface (\<open>ukfs_consts\<close>). Reference counts of
  files are Unikraft's; taking and dropping references is recorded in \<open>sy_refs\<close>.
\<close>

section \<open>State\<close>

record fusefs_file =
  ff_nodeid :: u64
  ff_fh :: u64
  ff_upref :: "addr option"

record 'u ukfs_sys =
  sy_d :: "'u daemon_state"
  sy_unique :: u64
  sy_files :: "addr \<rightharpoonup> fusefs_file"
  sy_refs :: "addr \<Rightarrow> int"

record ukfs_consts =
  UKFS_STOP_FILE :: int
  UKFS_STOP_MNT :: int
  UKFS_DIRENT_RECLEN :: "u32 \<Rightarrow> u64"
  UK_STATX_MODE :: u32
  UK_STATX_SIZE :: u32
  UK_STATX_INO :: u32
  UK_STATX_NLINK :: u32

record uk_statx =
  stx_mask :: u32
  stx_mode :: u32
  stx_size :: u64
  stx_ino :: u64
  stx_nlink :: u64
  stx_uid :: u32
  stx_gid :: u32

record uk_fs_dirent =
  d_ino :: u64
  d_off :: u64
  d_reclen :: u16
  d_type :: byte
  d_name :: "byte list"

abbreviation FH_NONE :: u64 where "FH_NONE \<equiv> - 1"

abbreviation sy_w :: "'u ukfs_sys \<Rightarrow> 'u fuse_world" where "sy_w s \<equiv> ds_w (sy_d s)"

definition sys_w :: "('u fuse_world \<Rightarrow> 'u fuse_world) \<Rightarrow> 'u ukfs_sys \<Rightarrow> 'u ukfs_sys" where
  "sys_w f s = s\<lparr>sy_d := (sy_d s)\<lparr>ds_w := f (sy_w s)\<rparr>\<rparr>"

definition sys_fault :: "fault \<Rightarrow> 'u ukfs_sys \<Rightarrow> 'u ukfs_sys" where
  "sys_fault f = sys_w (raise_fault f)"

definition sys_malloc :: "'u ukfs_sys \<Rightarrow> bool \<times> 'u ukfs_sys" where
  "sys_malloc s = (fst (try_malloc (sy_w s)), sys_w (\<lambda>w. snd (try_malloc w)) s)"

section \<open>A request and its answer\<close>

text \<open>\<^verbatim>\<open>uk_semaphore_down(&req.done)\<close>: the daemon runs until the semaphore of the request is up.\<close>

partial_function (option) await_done :: "'u fuse_lowlevel_ops \<Rightarrow> addr \<Rightarrow> 'u daemon_state \<Rightarrow> 'u daemon_state option"
  where
  "await_done op p s =
     (case ukfs (ds_w s) p of
        None \<Rightarrow> None
      | Some q \<Rightarrow>
          if ur_done q > 0 then Some (s\<lparr>ds_w := (ds_w s)\<lparr>ukfs := (ukfs (ds_w s))(p \<mapsto> q\<lparr>ur_done := ur_done q - 1\<rparr>)\<rparr>\<rparr>)
          else Option.bind (daemon_iteration op s) (await_done op p))"

text \<open>The common part of the driver's operations: the request lies in the caller's frame (at a fresh
  address, gone when the call returns), is zeroed, filled, queued and awaited.\<close>

definition client_call :: "'u fuse_lowlevel_ops \<Rightarrow> u32 \<Rightarrow> ukfs_in \<Rightarrow> 'u ukfs_sys \<Rightarrow>
    (fuse_ukfs_request \<times> 'u ukfs_sys) option" where
  "client_call op opcode inp s =
     (let p = brk (sy_w s);
          req = \<lparr>ur_opcode = opcode, ur_unique = sy_unique s, ur_in = inp, ur_error = 0,
                 ur_reply_data = RNull, ur_reply_len = 0, ur_done = 0\<rparr>;
          s = s\<lparr>sy_unique := sy_unique s + 1\<rparr>;
          s = sys_w (\<lambda>w. w\<lparr>brk := brk w + 1, ukfs := (ukfs w)(p \<mapsto> req)\<rparr>) s;
          s = s\<lparr>sy_d := (sy_d s)\<lparr>ds_q := fuse_ukfs_queue_push (ds_q (sy_d s)) p\<rparr>\<rparr>
      in case await_done op p (sy_d s) of
           None \<Rightarrow> None
         | Some d \<Rightarrow>
             (case ukfs (ds_w d) p of
                None \<Rightarrow> None
              | Some q \<Rightarrow> Some (q, sys_w (\<lambda>w. w\<lparr>ukfs := (ukfs w)(p := None)\<rparr>) (s\<lparr>sy_d := d\<rparr>))))"

section \<open>Operations\<close>

definition fusefs_release :: "addr \<Rightarrow> bool \<Rightarrow> 'u ukfs_sys \<Rightarrow> 'u ukfs_sys" where
  "fusefs_release f release_obj s =
     (if release_obj then
        (case sy_files s f of
           None \<Rightarrow> sys_fault UseAfterFree s
         | Some ff \<Rightarrow>
             (let s = (case ff_upref ff of
                         None \<Rightarrow> s
                       | Some u \<Rightarrow> s\<lparr>sy_refs := (sy_refs s)(u := sy_refs s u - 1)\<rparr>)
              in s\<lparr>sy_files := (sy_files s)(f := None)\<rparr>))
      else s)"

text \<open>Reading an answer as another type than the reply stored is a fault.\<close>

definition fusefs_do_open :: "'u fuse_lowlevel_ops \<Rightarrow> addr \<Rightarrow> 'u ukfs_sys \<Rightarrow> (int \<times> 'u ukfs_sys) option" where
  "fusefs_do_open op f s =
     (case sy_files s f of
        None \<Rightarrow> Some (- 1, sys_fault UseAfterFree s)
      | Some ff \<Rightarrow>
          (case client_call op FUSE_UKFS_OPEN (In_open (ff_nodeid ff) 0) s of
             None \<Rightarrow> None
           | Some (req, s) \<Rightarrow>
               if ur_error req \<noteq> 0 then Some (ur_error req, s)
               else (case ur_reply_data req of
                       RNull \<Rightarrow> Some (- EIO, s)
                     | ROpen out \<Rightarrow> Some (0, s\<lparr>sy_files := (sy_files s)(f \<mapsto> ff\<lparr>ff_fh := oo_fh out\<rparr>)\<rparr>)
                     | _ \<Rightarrow> Some (- 1, sys_fault TypeConfusion s))))"

text \<open>The scatter loop over the caller's buffers: what is copied into each, in order.\<close>

fun scatter :: "nat list \<Rightarrow> byte list \<Rightarrow> byte list list" where
  "scatter [] src = []"
| "scatter (n # ns) src = (if src = [] then [] else take n src # scatter ns (drop n src))"

text \<open>\<^verbatim>\<open>size_t total\<close>, with wrap-around.\<close>

definition iov_total :: "u64 list \<Rightarrow> u64" where
  "iov_total iov = fold (\<lambda>l acc. acc + l) iov 0"

text \<open>The caller's buffers are given by their lengths; the result is the return value and the data
  written into them.\<close>

definition fusefs_read :: "'u fuse_lowlevel_ops \<Rightarrow> addr \<Rightarrow> u64 list \<Rightarrow> u64 \<Rightarrow> 'u ukfs_sys \<Rightarrow>
    (int \<times> byte list list \<times> 'u ukfs_sys) option" where
  "fusefs_read op f iov off s =
     (case sy_files s f of
        None \<Rightarrow> Some (- 1, [], sys_fault UseAfterFree s)
      | Some ff0 \<Rightarrow>
          (case (if ff_fh ff0 = FH_NONE then fusefs_do_open op f s else Some (0, s)) of
             None \<Rightarrow> None
           | Some (err, s) \<Rightarrow>
               if err \<noteq> 0 then Some (err, [], s)
               else
                 (let total = iov_total iov
                  in if total = 0 then Some (0, [], s)
                     else
                       (case sy_files s f of
                          None \<Rightarrow> Some (- 1, [], sys_fault UseAfterFree s)
                        | Some ff \<Rightarrow>
                            (case client_call op FUSE_UKFS_READ (In_read (ff_nodeid ff) (ff_fh ff) off (ucast total)) s of
                               None \<Rightarrow> None
                             | Some (req, s) \<Rightarrow>
                                 if ur_error req \<noteq> 0 then Some (ur_error req, [], s)
                                 else (case ur_reply_data req of
                                         RNull \<Rightarrow> Some (0, [], s)
                                       | RBytes src \<Rightarrow>
                                           if length src < ur_reply_len req then Some (- 1, [], sys_fault OutOfBounds s)
                                           else
                                             (let parts = scatter (map unat iov) (take (ur_reply_len req) src)
                                              in Some (int (length (concat parts)), parts, s))
                                       | _ \<Rightarrow> Some (- 1, [], sys_fault TypeConfusion s)))))))"

definition fusefs_getstat :: "ukfs_consts \<Rightarrow> 'u fuse_lowlevel_ops \<Rightarrow> addr \<Rightarrow> 'u ukfs_sys \<Rightarrow>
    (int \<times> uk_statx option \<times> 'u ukfs_sys) option" where
  "fusefs_getstat uc op f s =
     (case sy_files s f of
        None \<Rightarrow> Some (- 1, None, sys_fault UseAfterFree s)
      | Some ff \<Rightarrow>
          (case client_call op FUSE_UKFS_GETATTR (In_getattr (ff_nodeid ff)) s of
             None \<Rightarrow> None
           | Some (req, s) \<Rightarrow>
               if ur_error req \<noteq> 0 then Some (ur_error req, None, s)
               else (case ur_reply_data req of
                       RNull \<Rightarrow> Some (- EIO, None, s)
                     | RStat out \<Rightarrow>
                         Some (0, Some \<lparr>stx_mask = UK_STATX_MODE uc OR UK_STATX_SIZE uc OR UK_STATX_INO uc OR UK_STATX_NLINK uc,
                           stx_mode = st_mode out, stx_size = st_size out, stx_ino = st_ino out,
                           stx_nlink = st_nlink out, stx_uid = st_uid out, stx_gid = st_gid out\<rparr>, s)
                     | _ \<Rightarrow> Some (- 1, None, sys_fault TypeConfusion s))))"

definition fusefs_file_alloc :: "u64 \<Rightarrow> 'u ukfs_sys \<Rightarrow> addr option \<times> 'u ukfs_sys" where
  "fusefs_file_alloc nodeid s =
     (let (ok, s) = sys_malloc s
      in if \<not> ok then (None, s)
         else
           (let f = brk (sy_w s);
                s = sys_w (\<lambda>w. w\<lparr>brk := brk w + 1\<rparr>) s
            in (Some f, s\<lparr>sy_files := (sy_files s)(f \<mapsto> \<lparr>ff_nodeid = nodeid, ff_fh = FH_NONE, ff_upref = None\<rparr>),
                          sy_refs := (sy_refs s)(f := 1)\<rparr>)))"

definition fusefs_statfs :: int where
  "fusefs_statfs = - ENOSYS"

definition uk_file_acquire :: "addr \<Rightarrow> 'u ukfs_sys \<Rightarrow> 'u ukfs_sys" where
  "uk_file_acquire f s = s\<lparr>sy_refs := (sy_refs s)(f := sy_refs s f + 1)\<rparr>"

text \<open>The result: return value, and with a target file the length consumed (\<^verbatim>\<open>*nout\<close>).\<close>

definition fusefs_lookup :: "ukfs_consts \<Rightarrow> 'u fuse_lowlevel_ops \<Rightarrow> addr \<Rightarrow> byte list \<Rightarrow> 'u ukfs_sys \<Rightarrow>
    (int \<times> (addr \<times> nat) option \<times> 'u ukfs_sys) option" where
  "fusefs_lookup uc op f path s =
     (case sy_files s f of
        None \<Rightarrow> Some (- 1, None, sys_fault UseAfterFree s)
      | Some ff \<Rightarrow>
          if path = [] \<or> path = bytes_of ''.'' then
            Some (UKFS_STOP_FILE uc, Some (f, length path), uk_file_acquire f s)
          else if path = bytes_of ''..'' then
            (case ff_upref ff of
               Some u \<Rightarrow> Some (UKFS_STOP_MNT uc, Some (u, length path), uk_file_acquire u s)
             | None \<Rightarrow> Some (UKFS_STOP_MNT uc, Some (f, length path), uk_file_acquire f s))
          else
            (let (ok, s) = sys_malloc s; name = takeWhile (\<lambda>b. b \<noteq> 0) path
             in if \<not> ok then Some (- ENOMEM, None, s)
                else
                  (case client_call op FUSE_UKFS_LOOKUP (In_lookup (ff_nodeid ff) name) s of
                     None \<Rightarrow> None
                   | Some (req, s) \<Rightarrow>
                       if ur_error req \<noteq> 0 then Some (ur_error req, None, s)
                       else (case ur_reply_data req of
                               RNull \<Rightarrow> Some (- EIO, None, s)
                             | REntry e \<Rightarrow>
                                 (let (child, s) = fusefs_file_alloc (ep_ino e) s
                                  in case child of
                                       None \<Rightarrow> Some (- ENOMEM, None, s)
                                     | Some c \<Rightarrow> Some (UKFS_STOP_FILE uc, Some (c, length path), s))
                             | _ \<Rightarrow> Some (- 1, None, sys_fault TypeConfusion s)))))"

definition fusefs_graft :: "addr \<Rightarrow> addr \<Rightarrow> 'u ukfs_sys \<Rightarrow> int \<times> 'u ukfs_sys" where
  "fusefs_graft f ref s =
     (case sy_files s f of
        None \<Rightarrow> (- 1, sys_fault UseAfterFree s)
      | Some ff \<Rightarrow>
          if ff_upref ff \<noteq> None then (- 1, sys_fault AssertFail s)
          else
            (let s = uk_file_acquire ref s
             in (0, s\<lparr>sy_files := (sy_files s)(f \<mapsto> ff\<lparr>ff_upref := Some ref\<rparr>)\<rparr>)))"

text \<open>One directory entry per call. The result: return value, the entry written, the new cursor.\<close>

definition fusefs_listdir :: "ukfs_consts \<Rightarrow> 'u fuse_lowlevel_ops \<Rightarrow> addr \<Rightarrow> u64 \<Rightarrow> u64 \<Rightarrow> 'u ukfs_sys \<Rightarrow>
    (int \<times> uk_fs_dirent option \<times> u64 \<times> 'u ukfs_sys) option" where
  "fusefs_listdir uc op f curp len s =
     (case sy_files s f of
        None \<Rightarrow> Some (- 1, None, curp, sys_fault UseAfterFree s)
      | Some ff \<Rightarrow>
          (case client_call op FUSE_UKFS_READDIR (In_readdir (ff_nodeid ff) 0 curp 4096) s of
             None \<Rightarrow> None
           | Some (req, s) \<Rightarrow>
               if ur_error req \<noteq> 0 then Some (ur_error req, None, curp, s)
               else if ur_reply_data req = RNull \<or> ur_reply_len req = 0 then Some (0, None, curp, s)
               else (case ur_reply_data req of
                       RBytes b \<Rightarrow>
                         (case do {
                            namelen \<leftarrow> fuse_dirent_namelen b;
                            ino \<leftarrow> fuse_dirent_ino b;
                            off \<leftarrow> fuse_dirent_off b;
                            ty \<leftarrow> fuse_dirent_type b;
                            Some (namelen, ino, off, ty)
                          } of
                            None \<Rightarrow> Some (- 1, None, curp, sys_fault OutOfBounds s)
                          | Some (namelen, ino, off, ty) \<Rightarrow>
                              (let reclen = UKFS_DIRENT_RECLEN uc namelen
                               in if len < reclen then Some (- EINVAL, None, curp, s)
                                  else if length b < FUSE_NAME_OFFSET + unat namelen
                                  then Some (- 1, None, curp, sys_fault OutOfBounds s)
                                  else Some (uint reclen,
                                    Some \<lparr>d_ino = ino, d_off = off, d_reclen = ucast reclen, d_type = ucast ty,
                                          d_name = take (unat namelen) (drop FUSE_NAME_OFFSET b)\<rparr>,
                                    off, s)))
                     | _ \<Rightarrow> Some (- 1, None, curp, sys_fault TypeConfusion s))))"

text \<open>Mounting: the root file, a fresh queue, and the daemon when a session is registered. The second
  result is whether a daemon serves the queue.\<close>

definition fusefs_vopen :: "bool \<Rightarrow> bool \<times> bool \<times> bool \<Rightarrow> 'u ukfs_sys \<Rightarrow> addr option \<times> bool \<times> 'u ukfs_sys" where
  "fusefs_vopen session_registered env s =
     (case fusefs_file_alloc 1 s of
        (None, s) \<Rightarrow> (None, False, s)
      | (Some n, s) \<Rightarrow>
          (let s = s\<lparr>sy_d := (sy_d s)\<lparr>ds_q := fuse_ukfs_queue_init\<rparr>\<rparr>;
               started = (if session_registered
                          then (case env of (a, d, t) \<Rightarrow> snd (fuse_daemon_start a d t)) else False)
           in (Some n, started, s)))"

section \<open>Calls return\<close>

definition fresh_request :: "u32 \<Rightarrow> u64 \<Rightarrow> ukfs_in \<Rightarrow> fuse_ukfs_request" where
  "fresh_request opcode unique inp = \<lparr>ur_opcode = opcode, ur_unique = unique, ur_in = inp, ur_error = 0,
     ur_reply_data = RNull, ur_reply_len = 0, ur_done = 0\<rparr>"

lemma ready_alloc:
  assumes "ready w"
  shows "ready (w\<lparr>brk := brk w + 1, ukfs := u\<rparr>)"
proof -
  have "wf_world (w\<lparr>brk := brk w + 1, ukfs := u\<rparr>) [] []"
    using assms by (auto simp: ready_def wf_world_def less_Suc_eq)
  then show ?thesis using assms by (simp add: ready_def)
qed

lemma serve_all_append:
  "serve_all f pl (ps @ qs) um = serve_all f pl qs (serve_all f pl ps um)"
proof (induction ps arbitrary: um)
  case (Cons p ps)
  then show ?case by (cases um) (simp add: Let_def split: prod.splits)
qed simp

text \<open>Requests that are not served do not matter.\<close>

lemma serve_all_upd:
  "p \<notin> set ps \<Longrightarrow> serve_all f pl ps (u(p := x), m) =
     ((fst (serve_all f pl ps (u, m)))(p := x), snd (serve_all f pl ps (u, m)))"
proof (induction ps arbitrary: u m)
  case (Cons y ps)
  obtain e d n m' where a: "f (ur_in (the (u y))) pl m = (e, d, n, m')" by (metis prod_cases4)
  have "u(p := x, y \<mapsto> q) = u(y \<mapsto> q, p := x)" for q
    using Cons.prems by (intro fun_upd_twist) auto
  moreover have "(u(p := x)) y = u y" using Cons.prems by auto
  ultimately show ?case using Cons a by (simp add: Let_def del: fun_upd_apply)
qed simp

text \<open>Requests are waiting and the daemon can serve them.\<close>

definition sys_ok :: "(ukfs_in \<Rightarrow> bool) \<Rightarrow> 'u ukfs_sys \<Rightarrow> addr list \<Rightarrow> bool" where
  "sys_ok serves s ps \<longleftrightarrow> serving serves (sy_d s) ps \<and> (\<forall>p \<in> set ps. p < brk (sy_w s))"

context replying_ops
begin

text \<open>A waiting caller whose request is the last in the queue wakes up after the daemon has served the
  requests before it, and then its own.\<close>

lemma await_done_returns:
  assumes "serving serves s (ps @ [p])" and "p \<notin> set ps" and "ukfs (ds_w s) p = Some q" "ur_done q = 0"
  shows "\<exists>s' q'. await_done op p s = Some s' \<and> serving serves s' [] \<and> ukfs (ds_w s') p = Some q' \<and>
     ur_done q' = 0 \<and> plat (ds_w s') = plat (ds_w s) \<and> brk (ds_w s) < brk (ds_w s') \<and>
     ((ukfs (ds_w s'))(p \<mapsto> q'\<lparr>ur_done := 1\<rparr>), fsmem (ds_w s')) =
       serve_all answer (plat (ds_w s)) (ps @ [p]) (ukfs (ds_w s), fsmem (ds_w s))"
  using assms
proof (induction ps arbitrary: s)
  case Nil
  obtain e d n m where ans: "answer (ur_in q) (plat (ds_w s)) (fsmem (ds_w s)) = (e, d, n, m)"
    by (metis prod_cases4)
  obtain s' where s': "daemon_iteration op s = Some s'" "serving serves s' []"
    "ukfs (ds_w s') = (ukfs (ds_w s))(p \<mapsto> set_answer e d n q)" "fsmem (ds_w s') = m"
    "plat (ds_w s') = plat (ds_w s)" "brk (ds_w s) < brk (ds_w s')"
    using iteration_serves [of s p "[]", OF _ Nil(3) ans] Nil(1) by auto
  let ?q = "(set_answer e d n q)\<lparr>ur_done := 0\<rparr>"
  let ?s = "s'\<lparr>ds_w := (ds_w s')\<lparr>ukfs := (ukfs (ds_w s))(p \<mapsto> ?q)\<rparr>\<rparr>"
  have "await_done op p s = await_done op p s'"
    using Nil(3,4) s'(1) by (subst await_done.simps) simp
  also have "\<dots> = Some ?s"
    using s'(3) Nil(4) by (subst await_done.simps) (simp add: set_answer_def)
  finally have aw: "await_done op p s = Some ?s" .
  have wfe: "wf_world ((ds_w s')\<lparr>ukfs := u\<rparr>) [] [] = wf_world (ds_w s') [] []" for u
    by (rule wf_world_cong) auto
  have "serving serves ?s []" using s'(2) by (auto simp: serving_def ready_def wfe)
  moreover have "?q\<lparr>ur_done := 1\<rparr> = set_answer e d n q" using Nil(4) by (simp add: set_answer_def)
  ultimately show ?case using aw ans s' Nil(3)
    by (intro exI [of _ ?s] exI [of _ ?q]) (auto simp: fun_eq_iff)
next
  case (Cons x ps)
  then obtain r where r: "ukfs (ds_w s) x = Some r" by (auto simp: serving_def)
  obtain e d n m where ans: "answer (ur_in r) (plat (ds_w s)) (fsmem (ds_w s)) = (e, d, n, m)"
    by (metis prod_cases4)
  obtain s' where s': "daemon_iteration op s = Some s'" "serving serves s' (ps @ [p])"
    "ukfs (ds_w s') = (ukfs (ds_w s))(x \<mapsto> set_answer e d n r)" "fsmem (ds_w s') = m"
    "plat (ds_w s') = plat (ds_w s)" "brk (ds_w s) < brk (ds_w s')"
    using iteration_serves [of s x "ps @ [p]", OF _ r ans] Cons(2) by auto
  have "await_done op p s = await_done op p s'"
    using Cons(4,5) s'(1) by (subst await_done.simps) simp
  moreover have p: "p \<notin> set ps" "ukfs (ds_w s') p = Some q"
    using Cons.prems(2,3) by (auto simp: s'(3))
  moreover have "serve_all answer (plat (ds_w s)) ((x # ps) @ [p]) (ukfs (ds_w s), fsmem (ds_w s)) =
      serve_all answer (plat (ds_w s')) (ps @ [p]) (ukfs (ds_w s'), fsmem (ds_w s'))"
    using r ans s'(3-5) by (simp del: fun_upd_apply)
  ultimately show ?case using Cons.IH [OF s'(2) p Cons.prems(4)] s'(5,6) order_less_trans by (simp only:) blast
qed

text \<open>A call of the driver returns the abstract answer, whatever other callers have queued before.\<close>

lemma client_call_returns:
  assumes s: "sys_ok serves s ps" and inp: "serves inp" "name_ok inp"
  defines "us \<equiv> serve_all answer (plat (sy_w s)) ps (ukfs (sy_w s), fsmem (sy_w s))"
  assumes ans: "answer inp (plat (sy_w s)) (snd us) = (e, d, n, m)"
  obtains s' where
    "client_call op (ukfs_opcode_of inp) inp s =
       Some ((fresh_request (ukfs_opcode_of inp) (sy_unique s) inp)
         \<lparr>ur_error := e, ur_reply_data := d, ur_reply_len := n\<rparr>, s')"
    "sys_ok serves s' []" "sy_files s' = sy_files s" "sy_refs s' = sy_refs s" "fsmem (sy_w s') = m"
    "plat (sy_w s') = plat (sy_w s)" "sy_unique s' = sy_unique s + 1"
    "brk (sy_w s) < brk (sy_w s')"
proof -
  let ?w = "sy_w s" let ?p = "brk (sy_w s)"
  let ?r = "fresh_request (ukfs_opcode_of inp) (sy_unique s) inp"
  let ?w1 = "?w\<lparr>brk := ?p + 1, ukfs := (ukfs ?w)(?p \<mapsto> ?r)\<rparr>"
  let ?d = "(sy_d s)\<lparr>ds_w := ?w1, ds_q := fuse_ukfs_queue_push (ds_q (sy_d s)) ?p\<rparr>"
  have S: "serving serves (sy_d s) ps" "\<And>x. x \<in> set ps \<Longrightarrow> x < ?p" using s by (auto simp: sys_ok_def)
  have np: "?p \<notin> set ps" using S(2) by auto
  have rd: "ready ?w1" using ready_alloc S(1) by (auto simp: serving_def)
  have wfr: "wf_request ?r" "serves (ur_in ?r)" using inp by (simp_all add: wf_request_def fresh_request_def)
  have sd: "serving serves ?d (ps @ [?p])"
    using S rd wfr np by (auto simp: serving_def)
  obtain d' q' where aw: "await_done op ?p ?d = Some d'" "serving serves d' []" "ukfs (ds_w d') ?p = Some q'" "ur_done q' = 0"
      and plat': "plat (ds_w d') = plat ?w" "?p + 1 < brk (ds_w d')"
    and eq: "((ukfs (ds_w d'))(?p \<mapsto> q'\<lparr>ur_done := 1\<rparr>), fsmem (ds_w d')) =
       serve_all answer (plat ?w) (ps @ [?p]) ((ukfs ?w)(?p \<mapsto> ?r), fsmem ?w)"
    using await_done_returns [OF sd np, of ?r] by (auto simp: fresh_request_def)
  have "serve_all answer (plat ?w) (ps @ [?p]) ((ukfs ?w)(?p \<mapsto> ?r), fsmem ?w) =
      ((fst us)(?p \<mapsto> set_answer e d n ?r), m)"
    using ans by (simp add: serve_all_append serve_all_upd [OF np] us_def fresh_request_def)
  then have e1: "(ukfs (ds_w d'))(?p \<mapsto> q'\<lparr>ur_done := 1\<rparr>) = (fst us)(?p \<mapsto> set_answer e d n ?r)"
    and e2: "fsmem (ds_w d') = m" using eq by auto
  have q': "q' = ?r\<lparr>ur_error := e, ur_reply_data := d, ur_reply_len := n\<rparr>"
  proof -
    have "q'\<lparr>ur_done := 1\<rparr> = set_answer e d n ?r" using fun_cong [OF e1, of ?p] by simp
    then have "q'\<lparr>ur_done := 1\<rparr>\<lparr>ur_done := 0\<rparr> = (set_answer e d n ?r)\<lparr>ur_done := 0\<rparr>" by simp
    moreover have "q'\<lparr>ur_done := 1\<rparr>\<lparr>ur_done := 0\<rparr> = q'" using aw(4) by (cases q') simp
    ultimately show ?thesis by (simp add: set_answer_def fresh_request_def)
  qed
  let ?s' = "sys_w (\<lambda>w. w\<lparr>ukfs := (ukfs w)(?p := None)\<rparr>) (s\<lparr>sy_unique := sy_unique s + 1, sy_d := d'\<rparr>)"
  have call: "client_call op (ukfs_opcode_of inp) inp s = Some (q', ?s')"
    using aw by (simp add: client_call_def Let_def sys_w_def fresh_request_def)
  have wfe: "wf_world ((ds_w d')\<lparr>ukfs := u\<rparr>) [] [] = wf_world (ds_w d') [] []" for u
    by (rule wf_world_cong) auto
  have "sys_ok serves ?s' []"
    using aw(2) by (auto simp: sys_ok_def sys_w_def serving_def ready_def wfe)
  then show thesis
    using that [of ?s'] call q' e2 plat' by (simp add: sys_w_def)
qed

end

end
