(* ===== verification/Fuse_System.thy ===== *)
theory Fuse_System
  imports Ukfs_Fuse
begin

text \<open>
  The whole path of a request, for the file system of the test applications: the driver of
  \<^verbatim>\<open>ukfs-fuse.c\<close> calls, the daemon encodes, the low-level library decodes and calls \<^verbatim>\<open>hello_ll.c\<close>,
  and the answer comes back to the driver. The lemmas instantiate the driver's call
  (\<open>client_call_returns\<close>, by the interpretation \<open>hello\<close>) for each operation of the driver.
\<close>

section \<open>Calls of the driver\<close>

text \<open>The nodes behind the driver's files.\<close>

definition nodes :: "'u ukfs_sys \<Rightarrow> addr \<Rightarrow> u64 option" where
  "nodes s f = map_option ff_nodeid (sy_files s f)"

lemma nodes_SomeE:
  assumes "nodes s f = Some n"
  obtains ff where "sy_files s f = Some ff" "ff_nodeid ff = n"
  using assms by (auto simp: nodes_def)

lemma nodes_files [simp]: "sy_files s f = Some ff \<Longrightarrow> nodes s f = Some (ff_nodeid ff)"
  by (simp add: nodes_def)

lemma nodes_cong: "sy_files s' = sy_files s \<Longrightarrow> nodes s' = nodes s"
  by (simp add: nodes_def fun_eq_iff)

lemma nodes_upd: "sy_files s' = (sy_files s)(f \<mapsto> ff) \<Longrightarrow> nodes s' = (nodes s)(f \<mapsto> ff_nodeid ff)"
  by (simp add: nodes_def fun_eq_iff)

text \<open>A file system that keeps no state between requests and whose files have a content: the contract that the
  driver's reading relies on, on top of that of the daemon.\<close>

locale readable_ops = replying_ops op serves answer
  for op :: "'u fuse_lowlevel_ops" and serves :: "ukfs_in \<Rightarrow> bool" and answer :: "'u answer_fun" +
  fixes content :: "u64 \<Rightarrow> byte list option"
  assumes stateless: "answer i pl m = (e, d, n, m') \<Longrightarrow> m' = m"
    and opens: "content ino = Some bs \<Longrightarrow> serves (In_open ino 0) \<and>
      (\<exists>out. oo_fh out = 0 \<and> answer (In_open ino 0) pl m = (0, ROpen out, 16, m))"
    and reads: "content ino = Some bs \<Longrightarrow> 0 \<le>s off \<Longrightarrow> serves (In_read ino fh off sz) \<and>
      answer (In_read ino fh off sz) pl m = (0, RBytes (window bs off sz), length (window bs off sz), m)"
begin

lemma serve_all_mem: "snd (serve_all answer pl ps um) = snd um"
proof (induction ps arbitrary: um)
  case (Cons p ps)
  obtain u m where um: "um = (u, m)" by (cases um)
  obtain e d n m' where a: "answer (ur_in (the (u p))) pl m = (e, d, n, m')" by (metis prod_cases4)
  then show ?case using Cons.IH stateless [OF a] um by simp
qed simp

lemma call:
  assumes s: "sys_ok serves s ps" and i: "serves inp" "name_ok inp"
    and a: "answer inp (plat (sy_w s)) (fsmem (sy_w s)) = (e, d, n, m)"
  obtains q s' where "client_call op (ukfs_opcode_of inp) inp s = Some (q, s')"
    "ur_error q = e" "ur_reply_data q = d" "ur_reply_len q = n" "sys_ok serves s' []"
    "sy_files s' = sy_files s" "sy_refs s' = sy_refs s" "plat (sy_w s') = plat (sy_w s)"
    "fsmem (sy_w s') = fsmem (sy_w s)" "brk (sy_w s) < brk (sy_w s')"
proof -
  have "answer inp (plat (sy_w s)) (snd (serve_all answer (plat (sy_w s)) ps (ukfs (sy_w s), fsmem (sy_w s)))) = (e, d, n, m)"
    using a by (simp add: serve_all_mem)
  from client_call_returns [OF s i this] obtain s' where
    "client_call op (ukfs_opcode_of inp) inp s =
       Some ((fresh_request (ukfs_opcode_of inp) (sy_unique s) inp)
         \<lparr>ur_error := e, ur_reply_data := d, ur_reply_len := n\<rparr>, s')"
    "sys_ok serves s' []" "sy_files s' = sy_files s" "sy_refs s' = sy_refs s" "fsmem (sy_w s') = m"
    "plat (sy_w s') = plat (sy_w s)" "sy_unique s' = sy_unique s + 1" "brk (sy_w s) < brk (sy_w s')" .
  then show thesis using that stateless [OF a] by simp
qed

lemma do_open:
  assumes s: "sys_ok serves s ps" and f: "sy_files s f = Some ff" "content (ff_nodeid ff) = Some bs"
  obtains s' where "fusefs_do_open op f s = Some (0, s')" "sys_ok serves s' []"
    "sy_files s' = (sy_files s)(f \<mapsto> ff\<lparr>ff_fh := 0\<rparr>)" "sy_refs s' = sy_refs s" "brk (sy_w s) < brk (sy_w s')"
proof -
  from opens [OF f(2)] obtain out where out: "oo_fh out = 0"
    and a: "answer (In_open (ff_nodeid ff) 0) (plat (sy_w s)) (fsmem (sy_w s)) = (0, ROpen out, 16, fsmem (sy_w s))"
    and v: "serves (In_open (ff_nodeid ff) 0)" by blast
  obtain q s' where c: "client_call op FUSE_UKFS_OPEN (In_open (ff_nodeid ff) 0) s = Some (q, s')"
    "ur_error q = 0" "ur_reply_data q = ROpen out" "sys_ok serves s' []"
    "sy_files s' = sy_files s" "sy_refs s' = sy_refs s" "brk (sy_w s) < brk (sy_w s')"
    by (rule call [OF s v _ a]) simp_all
  let ?s = "s'\<lparr>sy_files := (sy_files s)(f \<mapsto> ff\<lparr>ff_fh := 0\<rparr>)\<rparr>"
  have "fusefs_do_open op f s = Some (0, ?s)"
    using f c by (simp add: fusefs_do_open_def out)
  moreover have "sys_ok serves ?s []" using c(4) by (simp add: sys_ok_def)
  ultimately show thesis using that c(6,7) by simp
qed

end

definition hello_content :: "u64 \<Rightarrow> byte list option" where
  "hello_content ino = (if ino = 2 then Some hello_str else None)"

interpretation hello_files: readable_ops "hello_ll_oper :: 'u fuse_lowlevel_ops" hello_serves hello_answer hello_content
  by unfold_locales (auto dest: hello_answer_mem simp: hello_content_def zero_open_out_def split: if_splits)

lemmas hello_call = hello_files.call

lemma wf_world_grow:
  assumes "wf_world w ls is" and "brk w \<le> b"
  shows "wf_world (w\<lparr>nmalloc := n, brk := b\<rparr>) ls is"
proof -
  have "\<forall>a \<in> dom (reqs w). 2 \<le> a \<and> a < b"
    using assms order_less_le_trans unfolding wf_world_def by blast
  then show ?thesis using assms by (simp add: wf_world_def)
qed

lemma sys_ok_world:
  assumes "sys_ok serves s ps" and "sy_d s' = (sy_d s)\<lparr>ds_w := (sy_w s)\<lparr>nmalloc := n, brk := b\<rparr>\<rparr>" and "brk (sy_w s) \<le> b"
  shows "sys_ok serves s' ps"
proof -
  have "wf_world ((sy_w s)\<lparr>nmalloc := n, brk := b\<rparr>) [] []"
    using assms by (auto simp: sys_ok_def serving_def ready_def intro: wf_world_grow)
  then have "ready ((sy_w s)\<lparr>nmalloc := n, brk := b\<rparr>)"
    using assms(1) by (simp add: sys_ok_def serving_def ready_def)
  then show ?thesis using assms by (auto simp: sys_ok_def serving_def)
qed

lemma sys_ok_malloc:
  assumes "sys_ok serves s ps"
  shows "sys_malloc s = (True, s\<lparr>sy_d := (sy_d s)\<lparr>ds_w := (sy_w s)\<lparr>nmalloc := nmalloc (sy_w s) + 1\<rparr>\<rparr>\<rparr>)"
    and "sys_ok serves (s\<lparr>sy_d := (sy_d s)\<lparr>ds_w := (sy_w s)\<lparr>nmalloc := nmalloc (sy_w s) + 1\<rparr>\<rparr>\<rparr>) ps"
proof -
  have "malloc_ok (plat (sy_w s)) (nmalloc (sy_w s))"
    using assms by (simp add: sys_ok_def serving_def ready_def)
  then show "sys_malloc s = (True, s\<lparr>sy_d := (sy_d s)\<lparr>ds_w := (sy_w s)\<lparr>nmalloc := nmalloc (sy_w s) + 1\<rparr>\<rparr>\<rparr>)"
    by (simp add: sys_malloc_def sys_w_def try_malloc_def)
  show "sys_ok serves (s\<lparr>sy_d := (sy_d s)\<lparr>ds_w := (sy_w s)\<lparr>nmalloc := nmalloc (sy_w s) + 1\<rparr>\<rparr>\<rparr>) ps"
    by (rule sys_ok_world [OF assms, where n = "nmalloc (sy_w s) + 1" and b = "brk (sy_w s)"]) simp_all
qed

section \<open>Files\<close>

lemma fusefs_file_alloc_ok:
  assumes "sys_ok serves s ps"
  obtains f s' where "fusefs_file_alloc nodeid s = (Some f, s')" "f = brk (sy_w s)" "sys_ok serves s' ps"
    "sy_files s' = (sy_files s)(f \<mapsto> \<lparr>ff_nodeid = nodeid, ff_fh = FH_NONE, ff_upref = None\<rparr>)"
    "sy_refs s' = (sy_refs s)(f := 1)" "f < brk (sy_w s')"
proof -
  let ?s1 = "s\<lparr>sy_d := (sy_d s)\<lparr>ds_w := (sy_w s)\<lparr>nmalloc := nmalloc (sy_w s) + 1, brk := brk (sy_w s) + 1\<rparr>\<rparr>\<rparr>"
  let ?f = "brk (sy_w s)"
  let ?s2 = "?s1\<lparr>sy_files := (sy_files s)(?f \<mapsto> \<lparr>ff_nodeid = nodeid, ff_fh = FH_NONE, ff_upref = None\<rparr>),
    sy_refs := (sy_refs s)(?f := 1)\<rparr>"
  have "fusefs_file_alloc nodeid s = (Some ?f, ?s2)"
    using sys_ok_malloc(1) [OF assms] by (simp add: fusefs_file_alloc_def Let_def sys_w_def)
  moreover have "sys_ok serves ?s2 ps"
    by (rule sys_ok_world [OF assms, where n = "nmalloc (sy_w s) + 1" and b = "brk (sy_w s) + 1"]) simp_all
  ultimately show thesis using that by simp
qed

section \<open>Scattering\<close>

lemma concat_scatter: "concat (scatter ns src) = take (sum_list ns) src"
  by (induction ns src rule: scatter.induct) (auto simp: take_add)

lemma scatter_fits:
  "length (scatter ns src) \<le> length ns \<and> (\<forall>i < length (scatter ns src). length (scatter ns src ! i) \<le> ns ! i)"
  by (induction ns src rule: scatter.induct) (auto simp: nth_Cons split: nat.splits)

lemma unat_fold_add:
  "unat acc + sum_list (map unat iov) < 2 ^ 64 \<Longrightarrow>
     unat (fold (\<lambda>l acc. acc + l) iov acc) = unat acc + sum_list (map unat iov)" for acc :: u64
proof (induction iov arbitrary: acc)
  case (Cons l iov)
  then have "unat (acc + l) = unat acc + unat l" by (simp add: unat_word_ariths take_bit_nat_eq_self)
  then show ?case using Cons.IH [of "acc + l"] Cons.prems by simp
qed simp

lemma unat_iov_total: "sum_list (map unat iov) < 2 ^ 64 \<Longrightarrow> unat (iov_total iov) = sum_list (map unat iov)"
  using unat_fold_add [of 0 iov] by (simp add: iov_total_def)

section \<open>Reading\<close>

context readable_ops
begin

lemma opened:
  assumes "sys_ok serves s ps" and "sy_files s f = Some ff" and "content (ff_nodeid ff) = Some bs"
  obtains s1 ff1 where "(if ff_fh ff = FH_NONE then fusefs_do_open op f s else Some (0, s)) = Some (0, s1)"
    "sy_files s1 f = Some ff1" "ff_nodeid ff1 = ff_nodeid ff" "sys_ok serves s1 (if ff_fh ff = FH_NONE then [] else ps)"
    "ff_fh ff \<noteq> FH_NONE \<longrightarrow> s1 = s" "nodes s1 = nodes s" "brk (sy_w s) \<le> brk (sy_w s1)"
proof (cases "ff_fh ff = FH_NONE")
  case True
  obtain s' where "fusefs_do_open op f s = Some (0, s')" "sys_ok serves s' []"
    "sy_files s' = (sy_files s)(f \<mapsto> ff\<lparr>ff_fh := 0\<rparr>)" "brk (sy_w s) < brk (sy_w s')"
    by (rule do_open [OF assms])
  moreover have "nodes s' = nodes s" using nodes_upd [OF calculation(3)] assms(2) by (simp add: fun_upd_idem)
  ultimately show thesis using that [of s' "ff\<lparr>ff_fh := 0\<rparr>"] True by simp
next
  case False
  then show thesis using that assms by simp
qed

lemma read_content:
  assumes s: "sys_ok serves s ps" and f: "sy_files s f = Some ff" "content (ff_nodeid ff) = Some bs"
    and off: "0 \<le>s off" and total: "sum_list (map unat iov) < 2 ^ 32"
  shows "\<exists>parts s'. fusefs_read op f iov off s = Some (int (length (concat parts)), parts, s') \<and>
    concat parts = take (sum_list (map unat iov)) (drop (unat off) bs) \<and>
    length parts \<le> length iov \<and> (\<forall>i < length parts. length (parts ! i) \<le> unat (iov ! i)) \<and>
    (sys_ok serves s' [] \<or> s' = s) \<and> nodes s' = nodes s \<and> brk (sy_w s) \<le> brk (sy_w s')"
proof -
  obtain s1 ff1 where o: "(if ff_fh ff = FH_NONE then fusefs_do_open op f s else Some (0, s)) = Some (0, s1)"
    "sy_files s1 f = Some ff1" "ff_nodeid ff1 = ff_nodeid ff" "sys_ok serves s1 (if ff_fh ff = FH_NONE then [] else ps)"
    "ff_fh ff \<noteq> FH_NONE \<longrightarrow> s1 = s" "nodes s1 = nodes s" "brk (sy_w s) \<le> brk (sy_w s1)" by (rule opened [OF s f])
  have ut: "unat (iov_total iov) = sum_list (map unat iov)" using total by (simp add: unat_iov_total)
  show ?thesis
  proof (cases "iov_total iov = 0")
    case True
    then have "fusefs_read op f iov off s = Some (0, [], s1)" using o f by (simp add: fusefs_read_def)
    then show ?thesis using True ut o(4-7) by (intro exI [of _ "[]"] exI [of _ s1]) auto
  next
    case False
    let ?sz = "ucast (iov_total iov) :: u32"
    have usz: "unat ?sz = sum_list (map unat iov)"
      using total ut by (simp add: unsigned_ucast_eq take_bit_nat_eq_self)
    let ?b = "window bs off ?sz" let ?i = "In_read (ff_nodeid ff) (ff_fh ff1) off ?sz"
    have a: "answer ?i (plat (sy_w s1)) (fsmem (sy_w s1)) = (0, RBytes ?b, length ?b, fsmem (sy_w s1))"
      and v: "serves ?i" using reads [OF f(2) off] by simp_all
    obtain q s2 where c: "client_call op FUSE_UKFS_READ ?i s1 = Some (q, s2)"
      "ur_error q = 0" "ur_reply_data q = RBytes ?b" "ur_reply_len q = length ?b" "sys_ok serves s2 []"
      "sy_files s2 = sy_files s1" "brk (sy_w s1) < brk (sy_w s2)"
      by (rule call [OF o(4) v _ a]) simp_all
    let ?parts = "scatter (map unat iov) ?b"
    have "fusefs_read op f iov off s = Some (int (length (concat ?parts)), ?parts, s2)"
      using False f o(1-3) c by (simp add: fusefs_read_def Let_def)
    moreover have "concat ?parts = take (sum_list (map unat iov)) (drop (unat off) bs)"
      by (simp add: concat_scatter window_def usz)
    ultimately show ?thesis
      using scatter_fits [of "map unat iov" ?b] c(5,7) o(6,7) nodes_cong [OF c(6)] by (intro exI [of _ ?parts] exI [of _ s2]) (auto simp: nth_map)
  qed
qed

end

section \<open>Listing\<close>

text \<open>A caller's loop over a directory: one entry per call, until the return value is not positive. The
  fuel bounds the number of calls.\<close>

fun list_directory :: "ukfs_consts \<Rightarrow> 'u fuse_lowlevel_ops \<Rightarrow> addr \<Rightarrow> u64 \<Rightarrow> nat \<Rightarrow> u64 \<Rightarrow> 'u ukfs_sys \<Rightarrow>
    (int \<times> uk_fs_dirent list \<times> 'u ukfs_sys) option" where
  "list_directory uc op f len 0 curp s = None"
| "list_directory uc op f len (Suc n) curp s =
     (case fusefs_listdir uc op f curp len s of
        Some (res, Some d, curp', s) \<Rightarrow>
          if res > 0 then
            (case list_directory uc op f len n curp' s of
               Some (r, ds, s) \<Rightarrow> Some (r, d # ds, s) | None \<Rightarrow> None)
          else Some (res, [], s)
      | Some (res, None, _, s) \<Rightarrow> Some (res, [], s)
      | None \<Rightarrow> None)"

definition dirent_of :: "ukfs_consts \<Rightarrow> u64 \<Rightarrow> u64 \<Rightarrow> byte list \<Rightarrow> uk_fs_dirent" where
  "dirent_of uc ino next name =
     \<lparr>d_ino = ino, d_off = next, d_reclen = ucast (UKFS_DIRENT_RECLEN uc (of_nat (length name))), d_type = 0,
      d_name = name\<rparr>"

section \<open>Mounting\<close>

text \<open>The system before the mount: a session has been created and registered, the daemon's buffer is
  what the allocator gave it.\<close>

definition boot_sys :: "'u fuse_world \<Rightarrow> 'u ukfs_sys" where
  "boot_sys w = \<lparr>sy_d = \<lparr>ds_q = fuse_ukfs_queue_init, ds_buf = map (uninit (plat w)) [0..<FUSE_DAEMON_BUF_SIZE],
     ds_w = w\<rparr>, sy_unique = 1, sy_files = Map.empty, sy_refs = \<lambda>_. 0\<rparr>"

lemma session_new_ready:
  assumes "fuse_session_new_versioned p fs og sz ud = Some w" and "\<forall>n. malloc_ok p n"
  shows "ready w"
  using wf_session_new [OF assms(1)] assms
  by (auto simp: ready_def fuse_session_new_versioned_def Let_def split: if_splits)

lemma boot_sys_ok: "ready w \<Longrightarrow> sys_ok serves (boot_sys w) []"
  by (simp add: sys_ok_def serving_def boot_sys_def fuse_ukfs_queue_init_def queue_ok_def)

lemma vopen_ok:
  assumes "ready w"
  obtains s' where "fusefs_vopen True (True, True, True) (boot_sys w) = (Some (brk w), True, s')"
    "sys_ok serves s' []" "sy_files s' = [brk w \<mapsto> \<lparr>ff_nodeid = 1, ff_fh = FH_NONE, ff_upref = None\<rparr>]" "brk w < brk (sy_w s')"
proof -
  obtain f s1 where a: "fusefs_file_alloc 1 (boot_sys w) = (Some f, s1)" "f = brk (sy_w (boot_sys w))"
    "sys_ok serves s1 []"
    "sy_files s1 = (sy_files (boot_sys w))(f \<mapsto> \<lparr>ff_nodeid = 1, ff_fh = FH_NONE, ff_upref = None\<rparr>)" "f < brk (sy_w s1)"
    by (rule fusefs_file_alloc_ok [OF boot_sys_ok [OF assms]])
  let ?s = "s1\<lparr>sy_d := (sy_d s1)\<lparr>ds_q := fuse_ukfs_queue_init\<rparr>\<rparr>"
  have "fusefs_vopen True (True, True, True) (boot_sys w) = (Some f, True, ?s)"
    using a(1) by (simp add: fusefs_vopen_def fuse_daemon_start_def)
  moreover have "sys_ok serves ?s []"
    using a(3) by (simp add: sys_ok_def serving_def fuse_ukfs_queue_init_def queue_ok_def)
  ultimately show thesis using that a(2,4,5) by (simp add: boot_sys_def)
qed

lemma demo_world_ready: "ready demo_world"
  by (rule session_new_ready [OF demo_world_new]) (simp add: demo_platform_def)

text \<open>Two files of it: the root and the file, which is not open yet.\<close>

definition demo_sys :: "unit ukfs_sys" where
  "demo_sys = (boot_sys demo_world)\<lparr>sy_files :=
     [10 \<mapsto> \<lparr>ff_nodeid = 1, ff_fh = FH_NONE, ff_upref = None\<rparr>, 11 \<mapsto> \<lparr>ff_nodeid = 2, ff_fh = FH_NONE, ff_upref = None\<rparr>]\<rparr>"

lemma demo_sys_ok: "sys_ok serves demo_sys []"
  using boot_sys_ok [OF demo_world_ready, of serves] by (simp add: sys_ok_def demo_sys_def)

lemma demo_sys_files:
  "sy_files demo_sys 10 = Some \<lparr>ff_nodeid = 1, ff_fh = FH_NONE, ff_upref = None\<rparr>"
  "sy_files demo_sys 11 = Some \<lparr>ff_nodeid = 2, ff_fh = FH_NONE, ff_upref = None\<rparr>"
  by (simp_all add: demo_sys_def)

text \<open>Concrete constants of the file system interface.\<close>

definition demo_consts :: ukfs_consts where
  "demo_consts = \<lparr>UKFS_STOP_FILE = 1, UKFS_STOP_MNT = 2, UKFS_DIRENT_RECLEN = \<lambda>n. ucast n + 24,
     UK_STATX_MODE = 2, UK_STATX_SIZE = 0x200, UK_STATX_INO = 0x100, UK_STATX_NLINK = 4\<rparr>"

end
