(* ===== verification/Fuse_Concurrent.thy ===== *)
theory Fuse_Concurrent
  imports Fuse_System
begin

text \<open>
  Any number of driver threads calling at the same time, and the daemon thread, in every interleaving: the
  request part of the driver's operations (\<^verbatim>\<open>ukfs-fuse.c\<close>: the request is built in the caller's frame, pushed and
  awaited), the steps of the queue (\<open>q_step\<close> of \<open>Fuse_Queue\<close>, with its mutex and its semaphore) and the loop of the
  daemon (\<^verbatim>\<open>fuse_daemon.c\<close>). The counter of unique numbers is a sequentially consistent atomic. The handling of a
  request by the daemon is one step: the library's state belongs to the daemon thread, and the replies do not
  touch the driver's request after raising its semaphore.

  The invariant connects this system with an abstract one in which a call is announced, queued, answered from the
  file system's memory in the order of the queue, and returned.
\<close>

section \<open>Threads\<close>

datatype drv_pc =
    Outside            \<comment> \<open>in no call\<close>
  | Queueing addr      \<comment> \<open>inside push, with the request at this address\<close>
  | Waiting addr       \<comment> \<open>about to lower the semaphore of the request\<close>

datatype dmn_pc =
    Looping            \<comment> \<open>at the top of the loop\<close>
  | Popping            \<comment> \<open>inside pop\<close>
  | Handling addr      \<comment> \<open>has taken a request\<close>

definition DAEMON :: tid where "DAEMON = 0"

text \<open>For the record: \<open>cc_called\<close> are the calls made, \<open>cc_served\<close> the requests with their answers in the order in which the
  daemon gave them, \<open>cc_done\<close> the calls that have returned, with the request as the driver then reads it.\<close>

record 'u conc_state =
  cc_q :: q_state
  cc_w :: "'u fuse_world"
  cc_unique :: u64
  cc_buf :: "byte list"
  cc_drv :: "tid \<Rightarrow> drv_pc"
  cc_dmn :: dmn_pc
  cc_called :: "(tid \<times> ukfs_in) list"
  cc_served :: "(ukfs_in \<times> int \<times> reply_data \<times> nat) list"
  cc_done :: "(tid \<times> fuse_ukfs_request) list"

definition outcome :: "fuse_ukfs_request \<Rightarrow> ukfs_in \<times> int \<times> reply_data \<times> nat" where
  "outcome r = (ur_in r, ur_error r, ur_reply_data r, ur_reply_len r)"

text \<open>The start of a call.\<close>

definition conc_call :: "ukfs_in \<Rightarrow> tid \<Rightarrow> 'u conc_state \<Rightarrow> 'u conc_state" where
  "conc_call i t s =
     (let w = cc_w s; p = brk w; r = fresh_request (ukfs_opcode_of i) (cc_unique s) i
      in s\<lparr>cc_unique := cc_unique s + 1,
           cc_w := w\<lparr>brk := p + 1, ukfs := (ukfs w)(p \<mapsto> r)\<rparr>,
           cc_q := (cc_q s)\<lparr>qs_pc := (qs_pc (cc_q s))(t := Push_lock p)\<rparr>,
           cc_drv := (cc_drv s)(t := Queueing p), cc_called := cc_called s @ [(t, i)]\<rparr>)"

inductive work_step :: "'u fuse_lowlevel_ops \<Rightarrow> 'u conc_state \<Rightarrow> 'u conc_state \<Rightarrow> bool" for op where
  driver_push: "cc_drv s t = Queueing p \<Longrightarrow> q_step (cc_q s) t q' \<Longrightarrow>
    work_step op s (s\<lparr>cc_q := q', cc_drv := (cc_drv s)(t := if qs_pc q' t = Idle then Waiting p else Queueing p)\<rparr>)"
| driver_wakes: "cc_drv s t = Waiting p \<Longrightarrow> ukfs (cc_w s) p = Some r \<Longrightarrow> 0 < ur_done r \<Longrightarrow>
    work_step op s (s\<lparr>cc_w := (cc_w s)\<lparr>ukfs := (ukfs (cc_w s))(p := None)\<rparr>, cc_drv := (cc_drv s)(t := Outside),
      cc_done := cc_done s @ [(t, r)]\<rparr>)"
| daemon_pops: "cc_dmn s = Looping \<Longrightarrow>
    work_step op s (s\<lparr>cc_q := (cc_q s)\<lparr>qs_pc := (qs_pc (cc_q s))(DAEMON := Pop_down)\<rparr>, cc_dmn := Popping\<rparr>)"
| daemon_pop: "cc_dmn s = Popping \<Longrightarrow> q_step (cc_q s) DAEMON q' \<Longrightarrow>
    work_step op s (s\<lparr>cc_q := q', cc_dmn := (case qs_pc (cc_q s) DAEMON of Pop_unlock p \<Rightarrow> Handling p | _ \<Rightarrow> Popping)\<rparr>)"
| daemon_handles: "cc_dmn s = Handling p \<Longrightarrow> daemon_handle op p (cc_buf s) (cc_w s) = (buf, w) \<Longrightarrow>
    work_step op s (s\<lparr>cc_buf := buf, cc_w := w, cc_dmn := Looping,
      cc_served := cc_served s @ (case ukfs w p of None \<Rightarrow> [] | Some r \<Rightarrow> [outcome r])\<rparr>)"

text \<open>The system after mounting, and what it reaches when the threads other than the daemon make calls that
  satisfy \<open>ok\<close>.\<close>

definition conc_start :: "'u fuse_world \<Rightarrow> 'u conc_state" where
  "conc_start w = \<lparr>cc_q = q_start, cc_w = w, cc_unique = 1, cc_buf = map (uninit (plat w)) [0..<FUSE_DAEMON_BUF_SIZE],
     cc_drv = (\<lambda>_. Outside), cc_dmn = Looping, cc_called = [], cc_served = [], cc_done = []\<rparr>"

inductive conc_reachable :: "'u fuse_lowlevel_ops \<Rightarrow> (ukfs_in \<Rightarrow> bool) \<Rightarrow> 'u fuse_world \<Rightarrow> 'u conc_state \<Rightarrow> bool"
  for op ok w where
  conc_init: "conc_reachable op ok w (conc_start w)"
| conc_calls: "conc_reachable op ok w s \<Longrightarrow> t \<noteq> DAEMON \<Longrightarrow> cc_drv s t = Outside \<Longrightarrow> ok i \<Longrightarrow>
    conc_reachable op ok w (conc_call i t s)"
| conc_works: "conc_reachable op ok w s \<Longrightarrow> work_step op s s' \<Longrightarrow> conc_reachable op ok w s'"

section \<open>Where the threads are\<close>

fun drv_at :: "drv_pc \<Rightarrow> q_pc \<Rightarrow> bool" where
  "drv_at (Queueing p) pc \<longleftrightarrow> pc = Push_lock p \<or> pc = Push_insert p \<or> owes_up pc"
| "drv_at _ pc \<longleftrightarrow> pc = Idle"

fun dmn_at :: "dmn_pc \<Rightarrow> q_pc \<Rightarrow> bool" where
  "dmn_at Popping pc \<longleftrightarrow> pc = Pop_down \<or> owns_unit pc \<or> (\<exists>p. pc = Pop_unlock p)"
| "dmn_at _ pc \<longleftrightarrow> pc = Idle"

definition threads_ok :: "'u conc_state \<Rightarrow> bool" where
  "threads_ok s \<longleftrightarrow> q_inv (cc_q s) \<and> cc_drv s DAEMON = Outside \<and> dmn_at (cc_dmn s) (qs_pc (cc_q s) DAEMON) \<and>
     (\<forall>t. t \<noteq> DAEMON \<longrightarrow> drv_at (cc_drv s t) (qs_pc (cc_q s) t)) \<and> finite {t. cc_drv s t \<noteq> Outside}"

text \<open>The request of a thread, and whether it is in the queue or past it; the requests that wait for the daemon, the one
  in its hands first.\<close>

fun stage :: "drv_pc \<Rightarrow> q_pc \<Rightarrow> (addr \<times> bool) option" where
  "stage Outside pc = None"
| "stage (Queueing p) pc = Some (p, owes_up pc)"
| "stage (Waiting p) pc = Some (p, True)"

definition calls :: "'u conc_state \<Rightarrow> tid \<Rightarrow> (addr \<times> bool) option" where
  "calls s t = stage (cc_drv s t) (qs_pc (cc_q s) t)"

fun in_hand :: "dmn_pc \<Rightarrow> q_pc \<Rightarrow> addr list" where
  "in_hand (Handling p) pc = [p]"
| "in_hand Popping (Pop_unlock p) = [p]"
| "in_hand _ pc = []"

definition unserved :: "'u conc_state \<Rightarrow> addr list" where
  "unserved s = in_hand (cc_dmn s) (qs_pc (cc_q s) DAEMON) @ qs_head (cc_q s)"

lemma thread_ok_tid: "threads_ok s \<Longrightarrow> cc_drv s t \<noteq> Outside \<Longrightarrow> t \<noteq> DAEMON"
  by (auto simp: threads_ok_def)

text \<open>The steps that a thread inside push or pop can make.\<close>

lemma driver_push_cases:
  assumes "threads_ok s" and "cc_drv s t = Queueing p" and "q_step (cc_q s) t q'"
  obtains (lock) "qs_pc (cc_q s) t = Push_lock p" "qs_pc q' = (qs_pc (cc_q s))(t := Push_insert p)" "qs_head q' = qs_head (cc_q s)"
  | (insert) "qs_pc (cc_q s) t = Push_insert p" "qs_pc q' = (qs_pc (cc_q s))(t := Push_unlock)" "qs_head q' = qs_head (cc_q s) @ [p]"
  | (unlock) "qs_pc (cc_q s) t = Push_unlock" "qs_pc q' = (qs_pc (cc_q s))(t := Push_up)" "qs_head q' = qs_head (cc_q s)"
  | (up) "qs_pc (cc_q s) t = Push_up" "qs_pc q' = (qs_pc (cc_q s))(t := Idle)" "qs_head q' = qs_head (cc_q s)"
proof -
  have "t \<noteq> DAEMON" using thread_ok_tid [OF assms(1)] assms(2) by simp
  then have "drv_at (Queueing p) (qs_pc (cc_q s) t)" using assms(1,2) by (metis threads_ok_def)
  with assms(3) that show thesis by cases auto
qed

lemma daemon_pop_cases:
  assumes "threads_ok s" and "cc_dmn s = Popping" and "q_step (cc_q s) DAEMON q'"
  obtains (down) "qs_pc (cc_q s) DAEMON = Pop_down" "qs_pc q' = (qs_pc (cc_q s))(DAEMON := Pop_lock)" "qs_head q' = qs_head (cc_q s)"
  | (lock) "qs_pc (cc_q s) DAEMON = Pop_lock" "qs_pc q' = (qs_pc (cc_q s))(DAEMON := Pop_first)" "qs_head q' = qs_head (cc_q s)"
  | (first) p where "qs_pc (cc_q s) DAEMON = Pop_first" "qs_pc q' = (qs_pc (cc_q s))(DAEMON := Pop_remove p)" "qs_head q' = qs_head (cc_q s)"
  | (remove) p ps where "qs_pc (cc_q s) DAEMON = Pop_remove p" "qs_pc q' = (qs_pc (cc_q s))(DAEMON := Pop_unlock p)"
      "qs_head (cc_q s) = p # ps" "qs_head q' = ps"
  | (unlock) p where "qs_pc (cc_q s) DAEMON = Pop_unlock p" "qs_pc q' = (qs_pc (cc_q s))(DAEMON := Idle)" "qs_head q' = qs_head (cc_q s)"
proof -
  have inv: "q_inv (cc_q s)" and d: "dmn_at Popping (qs_pc (cc_q s) DAEMON)"
    using assms(1,2) by (auto simp: threads_ok_def)
  from assms(3) show thesis
  proof cases
    case (pop_assert)
    then show thesis using q_inv_unit_head [OF inv, of DAEMON] by simp
  next
    case (pop_remove r)
    then show thesis using that(4) q_inv_removeD [OF inv, of DAEMON r] by auto
  qed (use d that in auto)
qed

lemma threads_ok_driver:
  assumes "threads_ok s" and "t \<noteq> DAEMON" and "q_inv (cc_q s')" and "qs_pc (cc_q s') = (qs_pc (cc_q s))(t := pc)"
    and "cc_drv s' = (cc_drv s)(t := d)" and "cc_dmn s' = cc_dmn s" and "drv_at d pc"
  shows "threads_ok s'"
proof -
  have "finite {u. ((cc_drv s)(t := d)) u \<noteq> Outside}"
    using assms(1) by (intro card_threads_upd(1)) (simp add: threads_ok_def)
  then show ?thesis using assms unfolding threads_ok_def by auto
qed

lemma threads_ok_call:
  assumes "threads_ok s" and "t \<noteq> DAEMON" and "cc_drv s t = Outside"
  shows "threads_ok (conc_call i t s)"
proof (rule threads_ok_driver [OF assms(1,2)])
  have "qs_pc (cc_q s) t = Idle" using assms by (metis threads_ok_def drv_at.simps(2))
  then show "q_inv (cc_q (conc_call i t s))"
    using q_step_inv [OF q_step.push_call] assms(1) by (auto simp: threads_ok_def conc_call_def Let_def)
qed (auto simp: conc_call_def Let_def)

lemma threads_ok_work:
  assumes "threads_ok s" and "work_step op s s'"
  shows "threads_ok s'"
  using assms(2)
proof cases
  case (driver_push t p q')
  have i: "q_inv (cc_q s')" using q_step_inv [OF driver_push(3)] assms(1) by (simp add: driver_push(1) threads_ok_def)
  have t: "t \<noteq> DAEMON" using thread_ok_tid [OF assms(1)] driver_push(2) by simp
  have stays: "threads_ok s'" if "qs_pc q' = (qs_pc (cc_q s))(t := pc)" "pc \<noteq> Idle" "drv_at (Queueing p) pc" for pc
    using that by (intro threads_ok_driver [OF assms(1) t i, where d = "Queueing p" and pc = pc]) (simp_all add: driver_push(1))
  from assms(1) driver_push(2,3) show ?thesis
  proof (cases rule: driver_push_cases)
    case up
    then show ?thesis
      by (intro threads_ok_driver [OF assms(1) t i, where d = "Waiting p"]) (simp_all add: driver_push(1))
  qed (use stays in simp_all)
next
  case (driver_wakes t p r)
  have t: "t \<noteq> DAEMON" using thread_ok_tid [OF assms(1)] driver_wakes(2) by simp
  then have "qs_pc (cc_q s) t = Idle" using assms(1) driver_wakes(2) by (metis threads_ok_def drv_at.simps(3))
  then show ?thesis
    using assms(1) by (intro threads_ok_driver [OF assms(1) t, where d = Outside and pc = Idle])
      (auto simp: driver_wakes(1) threads_ok_def)
next
  case daemon_pops
  have "qs_pc (cc_q s) DAEMON = Idle" using assms(1) daemon_pops(2) by (auto simp: threads_ok_def)
  then have "q_inv (cc_q s')"
    using q_step_inv [OF q_step.pop_call] assms(1) by (auto simp: daemon_pops(1) threads_ok_def)
  then show ?thesis using assms(1) by (simp add: threads_ok_def daemon_pops(1))
next
  case (daemon_pop q')
  have "q_inv q'" using q_step_inv [OF daemon_pop(3)] assms(1) by (simp add: threads_ok_def)
  with assms(1) show ?thesis
    by (cases rule: daemon_pop_cases [OF assms(1) daemon_pop(2,3)]) (simp_all add: threads_ok_def daemon_pop(1))
next
  case (daemon_handles p buf w)
  then show ?thesis using assms(1) by (simp add: threads_ok_def)
qed

section \<open>Requests and answers\<close>

text \<open>The abstract service: answers to a sequence of requests, one after the other.\<close>

fun run_service :: "'u answer_fun \<Rightarrow> platform \<Rightarrow> 'u \<Rightarrow> ukfs_in list \<Rightarrow> (int \<times> reply_data \<times> nat) list \<times> 'u" where
  "run_service answer pl m [] = ([], m)"
| "run_service answer pl m (i # is) =
     (let (e, d, n, m) = answer i pl m; (rs, m) = run_service answer pl m is in ((e, d, n) # rs, m))"

lemma run_service_append:
  "run_service answer pl m (is @ js) =
     (let (rs, m) = run_service answer pl m is; (rs', m) = run_service answer pl m js in (rs @ rs', m))"
  by (induction "is" arbitrary: m) (simp_all add: Let_def split: prod.splits)

text \<open>\<open>R\<close> gives the request of each thread and whether it was queued, \<open>U\<close> the requests that wait for the daemon. A queued
  request that does not wait any more has its answer, and its semaphore was raised once.\<close>

definition requests_ok :: "(ukfs_in \<Rightarrow> bool) \<Rightarrow> (tid \<Rightarrow> (addr \<times> bool) option) \<Rightarrow> addr list \<Rightarrow> 'u fuse_world \<Rightarrow>
    (ukfs_in \<times> int \<times> reply_data \<times> nat) list \<Rightarrow> bool" where
  "requests_ok serves R U w sv \<longleftrightarrow>
     (\<forall>t p b. R t = Some (p, b) \<longrightarrow> p < brk w \<and> (\<exists>r. ukfs w p = Some r \<and> wf_request r \<and> serves (ur_in r) \<and>
        (if b \<and> p \<notin> set U then ur_done r = 1 \<and> outcome r \<in> set sv else ur_done r = 0))) \<and>
     (\<forall>p \<in> set U. \<exists>t. R t = Some (p, True)) \<and>
     (\<forall>t u p b c. R t = Some (p, b) \<longrightarrow> R u = Some (p, c) \<longrightarrow> t = u) \<and>
     distinct U"

lemma requests_okD:
  assumes "requests_ok serves R U w sv" and "R t = Some (p, b)"
  obtains r where "ukfs w p = Some r" "wf_request r" "serves (ur_in r)" "p < brk w"
    "b \<and> p \<notin> set U \<longrightarrow> ur_done r = 1 \<and> outcome r \<in> set sv" "\<not> (b \<and> p \<notin> set U) \<longrightarrow> ur_done r = 0"
  using assms unfolding requests_ok_def by metis

lemma requests_ok_inj:
  "requests_ok serves R U w sv \<Longrightarrow> R t = Some (p, b) \<Longrightarrow> R u = Some (p, c) \<Longrightarrow> t = u"
  unfolding requests_ok_def by blast

lemma requests_ok_waiting:
  "requests_ok serves R U w sv \<Longrightarrow> p \<in> set U \<Longrightarrow> \<exists>t. R t = Some (p, True)"
  unfolding requests_ok_def by blast

lemma requests_ok_call:
  fixes n :: u64
  assumes ok: "requests_ok serves R U w sv" and t: "R t = None" and i: "serves i" "name_ok i"
  defines "w' \<equiv> w\<lparr>brk := brk w + 1, ukfs := (ukfs w)(brk w \<mapsto> fresh_request (ukfs_opcode_of i) n i)\<rparr>"
  shows "requests_ok serves (R(t := Some (brk w, False))) U w' sv"
proof -
  have old: "p < brk w" if "R u = Some (p, b)" for u p b using requests_okD [OF ok that] by blast
  have U: "p < brk w" if "p \<in> set U" for p using requests_ok_waiting [OF ok that] old by blast
  have "p < brk w' \<and> (\<exists>r. ukfs w' p = Some r \<and> wf_request r \<and> serves (ur_in r) \<and>
      (if b \<and> p \<notin> set U then ur_done r = 1 \<and> outcome r \<in> set sv else ur_done r = 0))"
    if "(R(t := Some (brk w, False))) u = Some (p, b)" for u p b
  proof (cases "u = t")
    case True
    then show ?thesis using that i by (auto simp: w'_def fresh_request_def wf_request_def)
  next
    case False
    then have R: "R u = Some (p, b)" using that by simp
    show ?thesis using old [OF R] by (rule_tac requests_okD [OF ok R]) (auto simp: w'_def)
  qed
  moreover have "\<exists>u. (R(t := Some (brk w, False))) u = Some (p, True)" if U: "p \<in> set U" for p
  proof -
    obtain u where "R u = Some (p, True)" using requests_ok_waiting [OF ok U] ..
    with t have "(R(t := Some (brk w, False))) u = Some (p, True)" by auto
    then show ?thesis ..
  qed
  moreover have "u = v" if "(R(t := Some (brk w, False))) u = Some (p, b)" "(R(t := Some (brk w, False))) v = Some (p, c)" for u v p b c
    using that old [of u p b] old [of v p c] requests_ok_inj [OF ok, of u p b v c] by (auto split: if_splits)
  ultimately show ?thesis using ok unfolding requests_ok_def by blast
qed

lemma requests_ok_queue:
  assumes ok: "requests_ok serves R U w sv" and t: "R t = Some (p, False)"
  shows "requests_ok serves (R(t := Some (p, True))) (U @ [p]) w sv"
proof -
  have p: "p \<notin> set U" using requests_ok_waiting [OF ok, of p] requests_ok_inj [OF ok t] t by force
  have "x < brk w \<and> (\<exists>r. ukfs w x = Some r \<and> wf_request r \<and> serves (ur_in r) \<and>
      (if b \<and> x \<notin> set (U @ [p]) then ur_done r = 1 \<and> outcome r \<in> set sv else ur_done r = 0))"
    if "(R(t := Some (p, True))) u = Some (x, b)" for u x b
  proof (cases "u = t")
    case True
    then show ?thesis using that by (rule_tac requests_okD [OF ok t]) auto
  next
    case False
    then have R: "R u = Some (x, b)" using that by simp
    have "x \<noteq> p" using requests_ok_inj [OF ok t] R False by blast
    then show ?thesis by (rule_tac requests_okD [OF ok R]) auto
  qed
  moreover have "\<exists>u. (R(t := Some (p, True))) u = Some (x, True)" if U: "x \<in> set (U @ [p])" for x
  proof (cases "x = p")
    case False
    then have "x \<in> set U" using U by simp
    then obtain u where "R u = Some (x, True)" using requests_ok_waiting [OF ok] by blast
    with t have "(R(t := Some (p, True))) u = Some (x, True)" by auto
    then show ?thesis ..
  qed auto
  moreover have "u = v" if "(R(t := Some (p, True))) u = Some (x, b)" "(R(t := Some (p, True))) v = Some (x, c)" for u v x b c
    using that requests_ok_inj [OF ok t] requests_ok_inj [OF ok, of u x b v c] by (auto split: if_splits)
  ultimately show ?thesis using ok p unfolding requests_ok_def by (simp del: fun_upd_apply)
qed

lemma requests_ok_wake:
  assumes ok: "requests_ok serves R U w sv" and t: "R t = Some (p, True)" and r: "ukfs w p = Some r" "0 < ur_done r"
  shows "requests_ok serves (R(t := None)) U (w\<lparr>ukfs := (ukfs w)(p := None)\<rparr>) sv" and "outcome r \<in> set sv"
proof -
  have p: "p \<notin> set U" and out: "outcome r \<in> set sv" using r by (auto intro: requests_okD [OF ok t])
  then show "outcome r \<in> set sv" by simp
  have "x < brk w \<and> (\<exists>r. ((ukfs w)(p := None)) x = Some r \<and> wf_request r \<and> serves (ur_in r) \<and>
      (if b \<and> x \<notin> set U then ur_done r = 1 \<and> outcome r \<in> set sv else ur_done r = 0))"
    if "(R(t := None)) u = Some (x, b)" for u x b
  proof -
    have R: "R u = Some (x, b)" "u \<noteq> t" using that by (auto split: if_splits)
    then have "x \<noteq> p" using requests_ok_inj [OF ok t] by blast
    then show ?thesis by (rule_tac requests_okD [OF ok R(1)]) auto
  qed
  moreover have "\<exists>u. (R(t := None)) u = Some (x, True)" if U: "x \<in> set U" for x
  proof -
    obtain u where "R u = Some (x, True)" using requests_ok_waiting [OF ok U] ..
    moreover have "x \<noteq> p" using U p by auto
    ultimately have "(R(t := None)) u = Some (x, True)" using t by auto
    then show ?thesis ..
  qed
  moreover have "u = v" if "(R(t := None)) u = Some (x, b)" "(R(t := None)) v = Some (x, c)" for u v x b c
    using that requests_ok_inj [OF ok, of u x b v c] by (auto split: if_splits)
  ultimately show "requests_ok serves (R(t := None)) U (w\<lparr>ukfs := (ukfs w)(p := None)\<rparr>) sv"
    using ok unfolding requests_ok_def by (simp del: fun_upd_apply)
qed

lemma requests_ok_serve:
  assumes ok: "requests_ok serves R (p # U) w sv" and r: "ukfs w p = Some r"
    and w': "ukfs w' = (ukfs w)(p \<mapsto> set_answer e d n r)" "brk w \<le> brk w'"
  shows "requests_ok serves R U w' (sv @ [outcome (set_answer e d n r)])"
proof -
  have p: "p \<notin> set U" using ok by (simp add: requests_ok_def)
  obtain t where t: "R t = Some (p, True)" using requests_ok_waiting [OF ok, of p] by auto
  have "x < brk w' \<and> (\<exists>r'. ukfs w' x = Some r' \<and> wf_request r' \<and> serves (ur_in r') \<and>
      (if b \<and> x \<notin> set U then ur_done r' = 1 \<and> outcome r' \<in> set (sv @ [outcome (set_answer e d n r)]) else ur_done r' = 0))"
    if R: "R u = Some (x, b)" for u x b
  proof (cases "x = p")
    case True
    then have "b" using requests_ok_inj [OF ok t] R t by auto
    then show ?thesis using True r p w' by (rule_tac requests_okD [OF ok R]) (auto simp: set_answer_def wf_request_def)
  next
    case False
    then show ?thesis using w' by (rule_tac requests_okD [OF ok R]) (auto split: if_splits)
  qed
  moreover have "\<exists>u. R u = Some (x, True)" if "x \<in> set U" for x using requests_ok_waiting [OF ok] that by simp
  ultimately show ?thesis using ok unfolding requests_ok_def by auto
qed

section \<open>The invariant\<close>

text \<open>What a thread has called is what it got answers for, followed by the call under way.\<close>

definition of_thread :: "tid \<Rightarrow> (tid \<times> 'a) list \<Rightarrow> 'a list" where
  "of_thread t xs = map snd (filter (\<lambda>x. fst x = t) xs)"

lemma of_thread_simps [simp]:
  "of_thread t [] = []" "of_thread t (xs @ [(u, x)]) = of_thread t xs @ (if u = t then [x] else [])"
  by (simp_all add: of_thread_def)

definition pending :: "(tid \<Rightarrow> (addr \<times> bool) option) \<Rightarrow> 'u fuse_world \<Rightarrow> tid \<Rightarrow> ukfs_in list" where
  "pending R w t = (case R t of None \<Rightarrow> [] | Some (p, _) \<Rightarrow> [ur_in (the (ukfs w p))])"

definition inputs_ok :: "'u conc_state \<Rightarrow> bool" where
  "inputs_ok s \<longleftrightarrow> (\<forall>t. of_thread t (cc_called s) = map ur_in (of_thread t (cc_done s)) @ pending (calls s) (cc_w s) t)"

definition conc_ok :: "(ukfs_in \<Rightarrow> bool) \<Rightarrow> 'u answer_fun \<Rightarrow> 'u fuse_world \<Rightarrow> 'u conc_state \<Rightarrow> bool" where
  "conc_ok serves answer w0 s \<longleftrightarrow> threads_ok s \<and> ready (cc_w s) \<and> length (cc_buf s) = FUSE_DAEMON_BUF_SIZE \<and>
     plat (cc_w s) = plat w0 \<and> inputs_ok s \<and>
     requests_ok serves (calls s) (unserved s) (cc_w s) (cc_served s) \<and>
     run_service answer (plat w0) (fsmem w0) (map fst (cc_served s)) = (map snd (cc_served s), fsmem (cc_w s)) \<and>
     (\<forall>(t, r) \<in> set (cc_done s). outcome r \<in> set (cc_served s))"

lemma conc_ok_start:
  assumes "ready w"
  shows "conc_ok serves answer w (conc_start w)"
  using assms q_inv_start
  by (auto simp: conc_ok_def conc_start_def threads_ok_def q_start_def requests_ok_def calls_def unserved_def inputs_ok_def
      pending_def)

lemma conc_ok_call:
  assumes ok: "conc_ok serves answer w0 s" and t: "t \<noteq> DAEMON" "cc_drv s t = Outside" and i: "serves i" "name_ok i"
  shows "conc_ok serves answer w0 (conc_call i t s)"
proof -
  let ?s = "conc_call i t s"
  have "threads_ok ?s" using threads_ok_call [OF _ t] ok by (simp add: conc_ok_def)
  moreover have "ready (cc_w ?s)" using ready_alloc ok by (auto simp: conc_call_def Let_def conc_ok_def)
  moreover have c: "calls ?s = (calls s)(t := Some (brk (cc_w s), False))"
    by (auto simp: calls_def conc_call_def Let_def)
  moreover have "unserved ?s = unserved s" using t(1) by (simp add: unserved_def conc_call_def Let_def)
  moreover have "requests_ok serves ((calls s)(t := Some (brk (cc_w s), False))) (unserved s) (cc_w ?s) (cc_served s)"
    using requests_ok_call [of serves "calls s" "unserved s" "cc_w s" "cc_served s" t i "cc_unique s"] ok t(2) i
    by (simp add: conc_ok_def conc_call_def Let_def calls_def)
  moreover have "cc_served ?s = cc_served s" "cc_done ?s = cc_done s" "cc_buf ?s = cc_buf s" "plat (cc_w ?s) = plat (cc_w s)"
    "fsmem (cc_w ?s) = fsmem (cc_w s)" by (simp_all add: conc_call_def Let_def)
  moreover have "inputs_ok ?s"
  proof -
    have u: "ukfs (cc_w ?s) = (ukfs (cc_w s))(brk (cc_w s) \<mapsto> fresh_request (ukfs_opcode_of i) (cc_unique s) i)"
      by (simp add: conc_call_def Let_def)
    have "pending (calls ?s) (cc_w ?s) v = (if v = t then [i] else pending (calls s) (cc_w s) v)" for v
    proof (cases "calls s v")
      case (Some x)
      then have "fst x < brk (cc_w s)" using ok requests_okD [of serves "calls s" "unserved s" "cc_w s" "cc_served s" v "fst x" "snd x"]
        by (auto simp: conc_ok_def)
      then show ?thesis using Some by (cases x) (simp add: c u pending_def fresh_request_def)
    qed (simp add: c u pending_def fresh_request_def)
    moreover have "pending (calls s) (cc_w s) t = []" using t(2) by (simp add: pending_def calls_def)
    moreover have "cc_called ?s = cc_called s @ [(t, i)]" "cc_done ?s = cc_done s" by (simp_all add: conc_call_def Let_def)
    ultimately show ?thesis using ok by (simp add: inputs_ok_def conc_ok_def)
  qed
  ultimately show ?thesis using ok unfolding conc_ok_def by simp
qed

text \<open>A step that leaves the requests as they are.\<close>

lemma conc_ok_same:
  assumes "conc_ok serves answer w0 s" and "threads_ok s'" and "calls s' = calls s" and "unserved s' = unserved s"
    and "cc_w s' = cc_w s" "cc_buf s' = cc_buf s" "cc_called s' = cc_called s"
      "cc_served s' = cc_served s" "cc_done s' = cc_done s"
  shows "conc_ok serves answer w0 s'"
  using assms by (simp add: conc_ok_def inputs_ok_def)

lemma conc_ok_push:
  assumes ok: "conc_ok serves answer w0 s" and step: "cc_drv s t = Queueing p" "q_step (cc_q s) t q'"
  defines "s' \<equiv> s\<lparr>cc_q := q', cc_drv := (cc_drv s)(t := if qs_pc q' t = Idle then Waiting p else Queueing p)\<rparr>"
  shows "conc_ok serves answer w0 s'"
proof -
  have th: "threads_ok s" using ok by (simp add: conc_ok_def)
  have th': "threads_ok s'" unfolding s'_def by (rule threads_ok_work [OF th work_step.driver_push [OF step]])
  have t: "t \<noteq> DAEMON" using thread_ok_tid [OF th] step(1) by simp
  from th step show ?thesis
  proof (cases rule: driver_push_cases)
    case insert
    have c: "calls s' = (calls s)(t := Some (p, True))" "calls s t = Some (p, False)" "unserved s' = unserved s @ [p]"
      using insert t step(1) by (auto simp: calls_def unserved_def s'_def)
    then have "requests_ok serves (calls s') (unserved s') (cc_w s) (cc_served s)"
      using requests_ok_queue ok by (fastforce simp: conc_ok_def)
    moreover have "pending (calls s') (cc_w s) = pending (calls s) (cc_w s)" using c by (auto simp: pending_def)
    ultimately show ?thesis using ok th' by (simp add: conc_ok_def inputs_ok_def) (simp add: s'_def)
  qed (rule conc_ok_same [OF ok th']; use t step(1) in \<open>auto simp: calls_def unserved_def s'_def\<close>)+
qed

lemma conc_ok_wake:
  assumes ok: "conc_ok serves answer w0 s" and step: "cc_drv s t = Waiting p" "ukfs (cc_w s) p = Some r" "0 < ur_done r"
  defines "s' \<equiv> s\<lparr>cc_w := (cc_w s)\<lparr>ukfs := (ukfs (cc_w s))(p := None)\<rparr>, cc_drv := (cc_drv s)(t := Outside),
      cc_done := cc_done s @ [(t, r)]\<rparr>"
  shows "conc_ok serves answer w0 s'"
proof -
  have th': "threads_ok s'"
    unfolding s'_def using threads_ok_work [OF _ work_step.driver_wakes [OF step]] ok by (auto simp: conc_ok_def)
  have c: "calls s' = (calls s)(t := None)" "unserved s' = unserved s" by (auto simp: calls_def unserved_def s'_def)
  have rq: "requests_ok serves (calls s) (unserved s) (cc_w s) (cc_served s)" "calls s t = Some (p, True)"
    using ok step(1) by (simp_all add: conc_ok_def calls_def)
  note w = requests_ok_wake [OF rq step(2,3)]
  have "ready (cc_w s')" using ok by (auto simp: conc_ok_def ready_def wf_world_def s'_def)
  moreover have "inputs_ok s'"
  proof -
    have "pending (calls s') (cc_w s') u = (if u = t then [] else pending (calls s) (cc_w s) u)" for u
      using requests_ok_inj [OF rq(1,2)] c(1) by (auto simp: pending_def s'_def split: option.splits)
    moreover have "pending (calls s) (cc_w s) t = [ur_in r]" using rq(2) step(2) by (simp add: pending_def)
    ultimately show ?thesis using ok by (simp add: inputs_ok_def conc_ok_def) (simp add: s'_def)
  qed
  ultimately show ?thesis using ok th' w c by (auto simp: conc_ok_def s'_def)
qed

lemma conc_ok_pop:
  assumes ok: "conc_ok serves answer w0 s" and step: "cc_dmn s = Popping" "q_step (cc_q s) DAEMON q'"
  defines "s' \<equiv> s\<lparr>cc_q := q', cc_dmn := (case qs_pc (cc_q s) DAEMON of Pop_unlock p \<Rightarrow> Handling p | _ \<Rightarrow> Popping)\<rparr>"
  shows "conc_ok serves answer w0 s'"
proof -
  have th: "threads_ok s" and D: "cc_drv s DAEMON = Outside" using ok by (simp_all add: conc_ok_def threads_ok_def)
  have th': "threads_ok s'" unfolding s'_def by (rule threads_ok_work [OF th work_step.daemon_pop [OF step]])
  from th step show ?thesis
    by (cases rule: daemon_pop_cases; intro conc_ok_same [OF ok th']) (use D step(1) in \<open>auto simp: calls_def unserved_def s'_def\<close>)
qed

context replying_ops
begin

lemma conc_ok_handle:
  assumes ok: "conc_ok serves answer w0 s" and step: "cc_dmn s = Handling p" "daemon_handle op p (cc_buf s) (cc_w s) = (buf, w)"
  defines "s' \<equiv> s\<lparr>cc_buf := buf, cc_w := w, cc_dmn := Looping,
      cc_served := cc_served s @ (case ukfs w p of None \<Rightarrow> [] | Some r \<Rightarrow> [outcome r])\<rparr>"
  shows "conc_ok serves answer w0 s'"
proof -
  let ?U = "qs_head (cc_q s)"
  have un: "unserved s = p # ?U" "unserved s' = ?U" "calls s' = calls s"
    using step(1) by (auto simp: unserved_def calls_def s'_def)
  have rq: "requests_ok serves (calls s) (p # ?U) (cc_w s) (cc_served s)" using ok un by (simp add: conc_ok_def)
  obtain t where t: "calls s t = Some (p, True)" using requests_ok_waiting [OF rq, of p] by auto
  obtain r where r: "ukfs (cc_w s) p = Some r" "wf_request r" "serves (ur_in r)" using requests_okD [OF rq t] by blast
  obtain e d n m where a: "answer (ur_in r) (plat (cc_w s)) (fsmem (cc_w s)) = (e, d, n, m)" by (metis prod_cases4)
  have rd: "ready (cc_w s)" "length (cc_buf s) = FUSE_DAEMON_BUF_SIZE" using ok by (simp_all add: conc_ok_def)
  obtain buf' w' where h: "daemon_handle op p (cc_buf s) (cc_w s) = (buf', w')" "length buf' = FUSE_DAEMON_BUF_SIZE"
    "ready w'" "ukfs w' = (ukfs (cc_w s))(p \<mapsto> set_answer e d n r)" "plat w' = plat (cc_w s)" "fsmem w' = m" "brk w' = brk (cc_w s) + 1"
    by (rule daemon_completes [OF rd(1) r rd(2) a])
  have eq: "buf' = buf" "w' = w" using h(1) step(2) by simp_all
  have sv: "cc_served s' = cc_served s @ [outcome (set_answer e d n r)]" using h(4) by (simp add: s'_def eq)
  have "requests_ok serves (calls s') (unserved s') (cc_w s') (cc_served s')"
    using requests_ok_serve [OF rq r(1) h(4)] h(7) by (simp add: un sv) (simp add: s'_def eq)
  moreover have "run_service answer (plat w0) (fsmem w0) (map fst (cc_served s')) = (map snd (cc_served s'), fsmem (cc_w s'))"
    using ok a h(6) by (simp add: sv run_service_append conc_ok_def outcome_def set_answer_def) (simp add: s'_def eq)
  moreover have "threads_ok s'"
    unfolding s'_def using threads_ok_work [OF _ work_step.daemon_handles [OF step]] ok by (auto simp: conc_ok_def)
  moreover have "inputs_ok s'"
  proof -
    have "ukfs (cc_w s') = (ukfs (cc_w s))(p \<mapsto> set_answer e d n r)" using h(4) by (simp add: s'_def eq)
    then have "pending (calls s') (cc_w s') = pending (calls s) (cc_w s)"
      using r(1) by (auto simp: pending_def un(3) set_answer_def split: option.splits)
    moreover have "cc_called s' = cc_called s" "cc_done s' = cc_done s" by (simp_all add: s'_def)
    ultimately show ?thesis using ok by (simp add: inputs_ok_def conc_ok_def)
  qed
  ultimately show ?thesis using ok h by (auto simp: conc_ok_def s'_def eq)
qed

lemma conc_ok_work:
  assumes ok: "conc_ok serves answer w0 s" and step: "work_step op s s'"
  shows "conc_ok serves answer w0 s'"
  using step
proof cases
  case daemon_pops
  have th: "threads_ok s" and D: "cc_drv s DAEMON = Outside" using ok by (simp_all add: conc_ok_def threads_ok_def)
  show ?thesis
    by (rule conc_ok_same [OF ok threads_ok_work [OF th step]]) (use D daemon_pops in \<open>auto simp: calls_def unserved_def\<close>)
next
  case (driver_push t p q')
  then show ?thesis using conc_ok_push [OF ok driver_push(2,3)] by simp
next
  case (driver_wakes t p r)
  then show ?thesis using conc_ok_wake [OF ok driver_wakes(2-4)] by simp
next
  case (daemon_pop q')
  then show ?thesis using conc_ok_pop [OF ok daemon_pop(2,3)] by simp
next
  case (daemon_handles p buf w)
  then show ?thesis using conc_ok_handle [OF ok daemon_handles(2,3)] by simp
qed

lemma conc_reachable_ok:
  assumes "conc_reachable op (\<lambda>i. serves i \<and> name_ok i) w s" and "ready w"
  shows "conc_ok serves answer w s"
  using assms by induction (auto intro: conc_ok_start conc_ok_call conc_ok_work)

text \<open>Some thread can always move while a call is under way.\<close>

lemma lock_holder_works:
  assumes th: "threads_ok s" and l: "qs_lock (cc_q s) = Some u"
  shows "\<exists>s'. work_step op s s'"
proof -
  obtain q' where q': "q_step (cc_q s) u q'" using lock_holder_moves [OF _ l] th by (auto simp: threads_ok_def)
  have h: "holds_lock (qs_pc (cc_q s) u)" using q_inv_lockD [of "cc_q s" u] th l by (simp add: threads_ok_def)
  show ?thesis
  proof (cases "u = DAEMON")
    case True
    then have "cc_dmn s = Popping" using th h by (cases "cc_dmn s") (auto simp: threads_ok_def)
    then show ?thesis using q' True work_step.daemon_pop by blast
  next
    case False
    then have "drv_at (cc_drv s u) (qs_pc (cc_q s) u)" using th by (simp add: threads_ok_def)
    then obtain p where "cc_drv s u = Queueing p" using h by (cases "cc_drv s u") auto
    then show ?thesis using q' work_step.driver_push by blast
  qed
qed

lemma pusher_works:
  assumes th: "threads_ok s" and l: "qs_lock (cc_q s) = None" and t: "cc_drv s t = Queueing p"
  shows "\<exists>s'. work_step op s s'"
proof -
  have "t \<noteq> DAEMON" using thread_ok_tid [OF th] t by simp
  then have d: "drv_at (Queueing p) (qs_pc (cc_q s) t)" using th t by (metis threads_ok_def)
  have "\<not> holds_lock (qs_pc (cc_q s) t)" using q_inv_lockD [of "cc_q s" t] th l by (simp add: threads_ok_def)
  then have "\<exists>q'. q_step (cc_q s) t q'"
    using d l q_step.push_lock [of "cc_q s" t p] q_step.push_up [of "cc_q s" t]
    by (cases "qs_pc (cc_q s) t") auto
  then show ?thesis using t work_step.driver_push by blast
qed

lemma daemon_works:
  assumes ok: "conc_ok serves answer w0 s" and l: "qs_lock (cc_q s) = None" and p: "unserved s \<noteq> []"
    and q: "\<And>t p. cc_drv s t \<noteq> Queueing p"
  shows "\<exists>s'. work_step op s s'"
proof (cases "cc_dmn s")
  case Looping
  then show ?thesis using work_step.daemon_pops by blast
next
  case (Handling x)
  then show ?thesis using work_step.daemon_handles by (metis prod.exhaust)
next
  case Popping
  have th: "threads_ok s" and inv: "q_inv (cc_q s)" using ok by (simp_all add: conc_ok_def threads_ok_def)
  have nl: "\<not> holds_lock (qs_pc (cc_q s) DAEMON)" using q_inv_lockD [OF inv, of DAEMON] l by simp
  have "dmn_at Popping (qs_pc (cc_q s) DAEMON)" using th Popping by (metis threads_ok_def)
  then consider "qs_pc (cc_q s) DAEMON = Pop_lock" | "qs_pc (cc_q s) DAEMON = Pop_down"
    using nl by (cases "qs_pc (cc_q s) DAEMON") auto
  then have "\<exists>q'. q_step (cc_q s) DAEMON q'"
  proof cases
    case 1
    then show ?thesis using q_step.pop_lock l by blast
  next
    case 2
    have "\<not> owes_up (qs_pc (cc_q s) t) \<and> \<not> owns_unit (qs_pc (cc_q s) t)" for t
    proof (cases "t = DAEMON")
      case False
      then have "drv_at (cc_drv s t) (qs_pc (cc_q s) t)" using th by (simp add: threads_ok_def)
      then show ?thesis using q [of t] by (cases "cc_drv s t") auto
    qed (simp add: 2)
    then have "threads_at owes_up (cc_q s) = {}" "threads_at owns_unit (cc_q s) = {}" by (auto simp: threads_at_def)
    moreover have "qs_head (cc_q s) \<noteq> []" using p 2 Popping by (simp add: unserved_def)
    ultimately have "0 < qs_count (cc_q s)" using inv by (cases "qs_head (cc_q s)") (simp_all add: q_inv_def)
    then show ?thesis using q_step.pop_down [OF 2] by blast
  qed
  then show ?thesis using Popping work_step.daemon_pop by blast
qed

lemma conc_progress:
  assumes ok: "conc_ok serves answer w0 s" and t: "cc_drv s t \<noteq> Outside"
  shows "\<exists>s'. work_step op s s'"
proof (rule ccontr)
  assume stuck: "\<nexists>s'. work_step op s s'"
  have th: "threads_ok s" and rq: "requests_ok serves (calls s) (unserved s) (cc_w s) (cc_served s)"
    using ok by (simp_all add: conc_ok_def)
  have l: "qs_lock (cc_q s) = None" using lock_holder_works [OF th] stuck by (cases "qs_lock (cc_q s)") auto
  have q: "cc_drv s u \<noteq> Queueing p" for u p using pusher_works [OF th l] stuck by blast
  then obtain p where p: "cc_drv s t = Waiting p" using t by (cases "cc_drv s t") auto
  have un: "unserved s = []" using daemon_works [OF ok l _ q] stuck by blast
  have "calls s t = Some (p, True)" by (simp add: calls_def p)
  then obtain r where "ukfs (cc_w s) p = Some r" "ur_done r = 1" using requests_okD [OF rq] un by (metis empty_iff empty_set)
  then show False using stuck work_step.driver_wakes [OF p, of r op] by simp
qed

end

section \<open>The work that is left\<close>

definition sum_all :: "('a \<Rightarrow> nat) \<Rightarrow> nat" where
  "sum_all f = (\<Sum>x | f x \<noteq> 0. f x)"

lemma sum_all_within: "finite B \<Longrightarrow> {x. f x \<noteq> 0} \<subseteq> B \<Longrightarrow> sum_all f = sum f B"
  unfolding sum_all_def by (rule sum.mono_neutral_left) auto

lemma sum_all_upd:
  assumes "finite {x. f x \<noteq> 0}"
  shows "sum_all (f(i := v)) + f i = sum_all f + v"
proof -
  let ?A = "{x. f x \<noteq> 0} - {i}"
  have fin: "finite (insert i ?A)" using assms by simp
  have "sum_all f = sum f (insert i ?A)" by (rule sum_all_within [OF fin]) auto
  moreover have "sum_all (f(i := v)) = sum (f(i := v)) (insert i ?A)" by (rule sum_all_within [OF fin]) auto
  moreover have "sum (f(i := v)) ?A = sum f ?A" by (rule sum.cong) auto
  ultimately show ?thesis using assms by (simp add: sum.insert_remove)
qed

text \<open>The steps of its own that a thread needs to return, and seven of the daemon for a request that is not yet queued;
  the steps up to the end of the daemon's current iteration.\<close>

fun own_steps :: "drv_pc \<Rightarrow> q_pc \<Rightarrow> nat" where
  "own_steps Outside pc = 0"
| "own_steps (Waiting p) pc = 1"
| "own_steps (Queueing p) (Push_lock _) = 12"
| "own_steps (Queueing p) (Push_insert _) = 11"
| "own_steps (Queueing p) Push_unlock = 3"
| "own_steps (Queueing p) pc = 2"

fun daemon_steps :: "dmn_pc \<Rightarrow> q_pc \<Rightarrow> nat" where
  "daemon_steps Looping pc = 7"
| "daemon_steps (Handling p) pc = 1"
| "daemon_steps Popping Pop_lock = 5"
| "daemon_steps Popping Pop_first = 4"
| "daemon_steps Popping (Pop_remove _) = 3"
| "daemon_steps Popping (Pop_unlock _) = 2"
| "daemon_steps Popping pc = 6"

definition driver_steps :: "'u conc_state \<Rightarrow> tid \<Rightarrow> nat" where
  "driver_steps s t = own_steps (cc_drv s t) (qs_pc (cc_q s) t)"

definition work_left :: "'u conc_state \<Rightarrow> nat" where
  "work_left s = sum_all (driver_steps s) + 7 * length (unserved s) + daemon_steps (cc_dmn s) (qs_pc (cc_q s) DAEMON)"

lemma finite_driver_steps:
  assumes "threads_ok s"
  shows "finite {t. driver_steps s t \<noteq> 0}"
proof -
  have "driver_steps s t \<noteq> 0 \<Longrightarrow> cc_drv s t \<noteq> Outside" for t by (auto simp: driver_steps_def)
  then show ?thesis using assms by (auto simp: threads_ok_def intro: finite_subset [of _ "{t. cc_drv s t \<noteq> Outside}"])
qed

lemma work_decreases:
  assumes th: "threads_ok s" and step: "work_step op s s'"
  shows "work_left s' < work_left s"
  using step
proof cases
  case (driver_push t p q')
  have t: "t \<noteq> DAEMON" using thread_ok_tid [OF th] driver_push(2) by simp
  have dec: ?thesis if pc: "qs_pc q' = (qs_pc (cc_q s))(t := pc)" and k: "length (qs_head q') = length (qs_head (cc_q s)) + k"
    and lt: "own_steps (if pc = Idle then Waiting p else Queueing p) pc + 7 * k < own_steps (Queueing p) (qs_pc (cc_q s) t)" for pc k
  proof -
    let ?v = "own_steps (if pc = Idle then Waiting p else Queueing p) pc"
    have "driver_steps s' = (driver_steps s)(t := ?v)" using pc by (auto simp: driver_steps_def driver_push(1))
    moreover have "driver_steps s t = own_steps (Queueing p) (qs_pc (cc_q s) t)" by (simp add: driver_steps_def driver_push(2))
    ultimately have "sum_all (driver_steps s') + own_steps (Queueing p) (qs_pc (cc_q s) t) = sum_all (driver_steps s) + ?v"
      using sum_all_upd [OF finite_driver_steps [OF th], of t ?v] by (simp only:)
    moreover have "length (unserved s') = length (unserved s) + k"
      "daemon_steps (cc_dmn s') (qs_pc (cc_q s') DAEMON) = daemon_steps (cc_dmn s) (qs_pc (cc_q s) DAEMON)"
      using pc k t by (simp_all add: unserved_def driver_push(1))
    ultimately show ?thesis using lt by (simp add: work_left_def)
  qed
  from th driver_push(2,3) show ?thesis
  proof (cases rule: driver_push_cases)
    case insert
    then show ?thesis by (intro dec [where k = 1 and pc = Push_unlock]) simp_all
  next
    case lock
    then show ?thesis by (intro dec [where k = 0 and pc = "Push_insert p"]) simp_all
  next
    case unlock
    then show ?thesis by (intro dec [where k = 0 and pc = Push_up]) simp_all
  next
    case up
    then show ?thesis by (intro dec [where k = 0 and pc = Idle]) simp_all
  qed
next
  case (driver_wakes t p r)
  have "driver_steps s' = (driver_steps s)(t := 0)" "driver_steps s t = 1" "unserved s' = unserved s"
    using driver_wakes by (auto simp: driver_steps_def unserved_def)
  then show ?thesis using sum_all_upd [OF finite_driver_steps [OF th], of t 0] driver_wakes(1) by (simp add: work_left_def)
next
  case daemon_pops
  have "driver_steps s' = driver_steps s" using th daemon_pops by (auto simp: driver_steps_def threads_ok_def)
  then show ?thesis using daemon_pops by (simp add: work_left_def unserved_def)
next
  case (daemon_pop q')
  have "\<exists>pc. qs_pc q' = (qs_pc (cc_q s))(DAEMON := pc)"
    using th daemon_pop(2,3) by (cases rule: daemon_pop_cases) blast+
  then have d: "driver_steps s' = driver_steps s" using th by (auto simp: driver_steps_def daemon_pop(1) threads_ok_def)
  from th daemon_pop(2,3) have "7 * length (unserved s') + daemon_steps (cc_dmn s') (qs_pc (cc_q s') DAEMON) <
      7 * length (unserved s) + daemon_steps (cc_dmn s) (qs_pc (cc_q s) DAEMON)"
    by (cases rule: daemon_pop_cases) (simp_all add: unserved_def daemon_pop(1,2))
  then show ?thesis by (simp add: work_left_def d)
next
  case (daemon_handles p buf w)
  have "driver_steps s' = driver_steps s" using daemon_handles by (auto simp: driver_steps_def)
  then show ?thesis using daemon_handles by (simp add: work_left_def unserved_def)
qed

lemma work_left_bound:
  assumes th: "threads_ok s" and rq: "requests_ok serves (calls s) (unserved s) w sv"
  shows "work_left s \<le> 19 * card {t. cc_drv s t \<noteq> Outside} + 7"
proof -
  let ?T = "{t. cc_drv s t \<noteq> Outside}"
  have fin: "finite ?T" using th by (simp add: threads_ok_def)
  have own: "own_steps d pc \<le> 12" for d pc by (cases "(d, pc)" rule: own_steps.cases) auto
  have "sum_all (driver_steps s) \<le> sum (driver_steps s) ?T"
    unfolding sum_all_def by (rule sum_mono2 [OF fin]) (auto simp: driver_steps_def)
  also have "\<dots> \<le> card ?T * 12" using sum_bounded_above [of ?T "driver_steps s" 12] own by (simp add: driver_steps_def)
  finally have a: "sum_all (driver_steps s) \<le> 12 * card ?T" by simp
  have "set (unserved s) \<subseteq> (\<lambda>t. fst (the (calls s t))) ` ?T"
  proof
    fix p assume "p \<in> set (unserved s)"
    then obtain t where t: "calls s t = Some (p, True)" using requests_ok_waiting [OF rq] by blast
    then have "t \<in> ?T" by (auto simp: calls_def)
    then show "p \<in> (\<lambda>t. fst (the (calls s t))) ` ?T" using t by force
  qed
  then have "card (set (unserved s)) \<le> card ?T" using fin card_mono card_image_le by (meson finite_imageI order_trans)
  moreover have "distinct (unserved s)" using rq by (simp add: requests_ok_def)
  ultimately have b: "length (unserved s) \<le> card ?T" by (simp add: distinct_card)
  have "daemon_steps d pc \<le> 7" for d pc by (cases "(d, pc)" rule: daemon_steps.cases) auto
  from this [of "cc_dmn s" "qs_pc (cc_q s) DAEMON"] a b show ?thesis unfolding work_left_def by linarith
qed

context replying_ops
begin

lemma work_run:
  "(work_step op ^^ n) s s' \<Longrightarrow> conc_ok serves answer w0 s \<Longrightarrow> conc_ok serves answer w0 s' \<and> n + work_left s' \<le> work_left s"
proof (induction n arbitrary: s')
  case (Suc n)
  then obtain v where v: "(work_step op ^^ n) s v" "work_step op v s'" by auto
  then have ok: "conc_ok serves answer w0 v" "n + work_left v \<le> work_left s" using Suc by auto
  moreover have "work_left s' < work_left v" using work_decreases [OF _ v(2)] ok(1) by (simp add: conc_ok_def)
  ultimately show ?case using conc_ok_work [OF ok(1) v(2)] by simp
qed simp

lemma work_run_returns:
  assumes ok: "conc_ok serves answer w0 s" and run: "(work_step op ^^ n) s s'"
  shows "n \<le> 19 * card {t. cc_drv s t \<noteq> Outside} + 7" and "(\<nexists>s''. work_step op s' s'') \<Longrightarrow> cc_drv s' t = Outside"
proof -
  note r = work_run [OF run ok]
  have "work_left s \<le> 19 * card {t. cc_drv s t \<noteq> Outside} + 7" using ok by (auto simp: conc_ok_def intro: work_left_bound)
  with r show "n \<le> 19 * card {t. cc_drv s t \<noteq> Outside} + 7" by simp
  show "cc_drv s' t = Outside" if "\<nexists>s''. work_step op s' s''" using conc_progress r that by blast
qed

text \<open>Running until nothing can move.\<close>

lemma maximal_run:
  "conc_ok serves answer w0 s \<Longrightarrow> \<exists>n s'. (work_step op ^^ n) s s' \<and> (\<nexists>s''. work_step op s' s'')"
proof (induction "work_left s" arbitrary: s rule: less_induct)
  case less
  show ?case
  proof (cases "\<exists>v. work_step op s v")
    case True
    then obtain v where v: "work_step op s v" ..
    have "threads_ok s" using less.prems by (simp add: conc_ok_def)
    then have "work_left v < work_left s" using v by (rule work_decreases)
    moreover have "conc_ok serves answer w0 v" using less.prems v by (rule conc_ok_work)
    ultimately obtain n s' where "(work_step op ^^ n) v s'" "\<nexists>s''. work_step op s' s''" using less.hyps by blast
    with v have "(work_step op ^^ Suc n) s s'" by (metis relpowp_Suc_I2)
    with \<open>\<nexists>s''. work_step op s' s''\<close> show ?thesis by blast
  next
    case False
    then show ?thesis by (intro exI [of _ 0] exI [of _ s]) simp
  qed
qed

end

section \<open>Properties\<close>

lemma run_service_stateless:
  assumes "\<And>i. snd (snd (snd (answer i pl m))) = m"
  shows "run_service answer pl m is = (map (\<lambda>i. case answer i pl m of (e, d, n, _) \<Rightarrow> (e, d, n)) is, m)"
proof (induction "is")
  case (Cons i "is")
  then show ?case using assms [of i] by (cases "answer i pl m") simp
qed simp

lemma stateless_outcomes:
  assumes "conc_ok serves answer w0 s" and "\<And>i pl m. snd (snd (snd (answer i pl m))) = m" and "outcome r \<in> set (cc_served s)"
  shows "answer (ur_in r) (plat w0) (fsmem w0) = (ur_error r, ur_reply_data r, ur_reply_len r, fsmem w0)"
proof -
  let ?f = "\<lambda>i. case answer i (plat w0) (fsmem w0) of (e, d, n, _) \<Rightarrow> (e, d, n)"
  have "fst (run_service answer (plat w0) (fsmem w0) (map fst (cc_served s))) = map snd (cc_served s)"
    using assms(1) by (simp add: conc_ok_def)
  then have "map (\<lambda>x. ?f (fst x)) (cc_served s) = map snd (cc_served s)"
    unfolding run_service_stateless [of answer "plat w0" "fsmem w0", OF assms(2)] by (simp add: comp_def del: map_eq_conv)
  then have "?f (fst (outcome r)) = snd (outcome r)" using assms(3) by (simp only: map_eq_conv)
  then show ?thesis using assms(2) [of "ur_in r" "plat w0" "fsmem w0"]
    by (cases "answer (ur_in r) (plat w0) (fsmem w0)") (simp add: outcome_def)
qed

lemma of_thread_mem: "x \<in> set (of_thread t xs) \<Longrightarrow> (t, x) \<in> set xs"
  by (auto simp: of_thread_def)

text \<open>\<^bold>\<open>C1\<close> Any number of threads call the driver at the same time, in every interleaving with each other and with the
  daemon, from a world that is ready (initialised, no fault yet, an allocator that does not fail), with calls that the test file
  system serves: reads of inode 2 from an offset that is not negative, directory reads from such an offset, opens, requests for
  attributes, and lookups of names without a zero byte and shorter than 8152 bytes. Then no fault occurs and no assertion of the queue fails; the calls that have returned to a thread are those it
  made, in its order, only the call it is in is missing; and each of them returned the file system's answer to its own
  input.\<close>

theorem concurrent_calls_answered:
  assumes "conc_reachable hello_ll_oper (\<lambda>i. hello_serves i \<and> name_ok i) w s" and "ready w"
  shows "fault (cc_w s) = None \<and> qs_pc (cc_q s) t \<noteq> Assert_failed \<and>
    (\<forall>r \<in> set (of_thread t (cc_done s)).
       hello_answer (ur_in r) (plat w) (fsmem w) = (ur_error r, ur_reply_data r, ur_reply_len r, fsmem w)) \<and>
    (\<exists>rest. of_thread t (cc_called s) = map ur_in (of_thread t (cc_done s)) @ rest \<and>
       length rest = (if cc_drv s t = Outside then 0 else 1))"
proof -
  have ok: "conc_ok hello_serves hello_answer w s" by (rule hello.conc_reachable_ok [OF assms])
  have m: "snd (snd (snd (hello_answer i pl m))) = m" for i pl and m :: 'a by (metis hello_answer_mem prod.collapse)
  have "hello_answer (ur_in r) (plat w) (fsmem w) = (ur_error r, ur_reply_data r, ur_reply_len r, fsmem w)"
    if "r \<in> set (of_thread t (cc_done s))" for r
    using ok of_thread_mem [OF that] by (intro stateless_outcomes [OF ok m]) (auto simp: conc_ok_def)
  moreover have "length (pending (calls s) (cc_w s) t) = (if cc_drv s t = Outside then 0 else 1)"
    by (cases "cc_drv s t") (simp_all add: pending_def calls_def)
  ultimately show ?thesis using ok by (auto simp: conc_ok_def inputs_ok_def ready_def threads_ok_def q_inv_def)
qed

text \<open>\<^bold>\<open>C2\<close> Calls return, from a world that is ready and for calls that the test file system serves (an allocator that
  does not fail, reads of inode 2, offsets that are not negative, names shorter than 8152 bytes): while a call is under way some
  thread can move, and the threads cannot go on for ever without new calls: with \<open>k\<close> calls under way they make at most 19 k + 7 steps, and when no step is left every call has returned.\<close>

theorem concurrent_calls_return:
  assumes "conc_reachable hello_ll_oper (\<lambda>i. hello_serves i \<and> name_ok i) w s" and "ready w"
    and "(work_step hello_ll_oper ^^ n) s s'"
  shows "n \<le> 19 * card {t. cc_drv s t \<noteq> Outside} + 7 \<and>
    ((\<nexists>s''. work_step hello_ll_oper s' s'') \<longrightarrow> (\<forall>t. cc_drv s' t = Outside))"
  using hello.work_run_returns [OF hello.conc_reachable_ok [OF assms(1,2)] assms(3)] by blast

text \<open>Two threads, one asking for attributes and one reading.\<close>

lemma demo_calls:
  defines "s \<equiv> conc_call (In_read 2 0 0 5) 2 (conc_call (In_getattr 2) 1 (conc_start demo_world))"
  shows "conc_reachable hello_ll_oper (\<lambda>i. hello_serves i \<and> name_ok i) demo_world s" and "ready demo_world"
    and "{t. cc_drv s t \<noteq> Outside} = {1, 2}" and "cc_called s = [(1, In_getattr 2), (2, In_read 2 0 0 5)]"
proof -
  have c: "cc_drv (conc_start w) t = Outside" "cc_drv (conc_call i t s) u = (if u = t then Queueing (brk (cc_w s)) else cc_drv s u)"
    "cc_called (conc_call i t s) = cc_called s @ [(t, i)]" "cc_called (conc_start w) = []" for i t u and s :: "'u conc_state" and w :: "'u fuse_world"
    by (simp_all add: conc_start_def conc_call_def Let_def)
  show "conc_reachable hello_ll_oper (\<lambda>i. hello_serves i \<and> name_ok i) demo_world s"
    unfolding s_def by (intro conc_calls conc_init) (simp_all add: c DAEMON_def)
  show "ready demo_world" by (rule demo_world_ready)
  show "{t. cc_drv s t \<noteq> Outside} = {1, 2}" "cc_called s = [(1, In_getattr 2), (2, In_read 2 0 0 5)]"
    by (auto simp: s_def c)
qed

lemma work_called: "work_step op s s' \<Longrightarrow> cc_called s' = cc_called s"
  by (induction rule: work_step.induct) simp_all

lemma work_run_reachable:
  "(work_step op ^^ n) s s' \<Longrightarrow> conc_reachable op ok w s \<Longrightarrow> conc_reachable op ok w s' \<and> cc_called s' = cc_called s"
proof (induction n arbitrary: s')
  case (Suc n)
  then obtain v where v: "(work_step op ^^ n) s v" "work_step op v s'" by auto
  then show ?case using Suc work_called [OF v(2)] conc_works by metis
qed simp

theorem concurrent_calls_return_witness:
  defines "s \<equiv> conc_call (In_read 2 0 0 5) 2 (conc_call (In_getattr 2) 1 (conc_start demo_world))"
  shows "\<exists>n s'. n \<le> 45 \<and> (work_step hello_ll_oper ^^ n) s s' \<and> (\<forall>t. cc_drv s' t = Outside)"
proof -
  note d = demo_calls [folded s_def]
  obtain n s' where r: "(work_step hello_ll_oper ^^ n) s s'" "\<nexists>s''. work_step hello_ll_oper s' s''"
    using hello.maximal_run [OF hello.conc_reachable_ok [OF d(1,2)]] by blast
  then show ?thesis using concurrent_calls_return [OF d(1,2) r(1)] d(3) by auto
qed

theorem concurrent_calls_answered_witness:
  "\<exists>s r. conc_reachable hello_ll_oper (\<lambda>i. hello_serves i \<and> name_ok i) demo_world s \<and>
     of_thread 2 (cc_done s) = [r] \<and> ur_in r = In_read 2 0 0 5 \<and> ur_error r = 0 \<and> ur_reply_data r = RBytes (take 5 hello_str)"
proof -
  let ?s = "conc_call (In_read 2 0 0 5) 2 (conc_call (In_getattr 2) 1 (conc_start demo_world))"
  note ok = hello.conc_reachable_ok [OF demo_calls(1,2)]
  obtain n s' where r: "(work_step hello_ll_oper ^^ n) ?s s'" "\<nexists>s''. work_step hello_ll_oper s' s''"
    using hello.maximal_run [OF ok] by blast
  have s': "conc_reachable hello_ll_oper (\<lambda>i. hello_serves i \<and> name_ok i) demo_world s'" "of_thread 2 (cc_called s') = [In_read 2 0 0 5]"
    using work_run_reachable [OF r(1) demo_calls(1)] demo_calls(4) by (auto simp: of_thread_def)
  have "cc_drv s' 2 = Outside" by (rule hello.work_run_returns(2) [OF ok r])
  note t = this concurrent_calls_answered [OF s'(1) demo_calls(2), of 2]
  then obtain q where q: "of_thread 2 (cc_done s') = [q]" "ur_in q = In_read 2 0 0 5" using s'(2) by (auto simp: map_eq_Cons_conv)
  then have "hello_answer (In_read 2 0 0 5) (plat demo_world) (fsmem demo_world) =
    (ur_error q, ur_reply_data q, ur_reply_len q, fsmem demo_world)" using t(2) by auto
  then show ?thesis using s'(1) q by (intro exI [of _ s'] exI [of _ q]) (auto simp: window_def)
qed

end
