(* ===== verification/Fuse_Tree.thy ===== *)
theory Fuse_Tree
  imports Fuse_System
begin

text \<open>
  The operations of the driver (\<^verbatim>\<open>ukfs-fuse.c\<close>) on a file system that is a tree of nodes: attributes of a node, names in
  a directory, directory entries and contents of files. The locale \<open>tree_ops\<close> extends the contract of \<open>Fuse_System\<close> by
  these; lookup, attributes and listing through the driver are then those of the tree. The interpretation
  \<open>hello_tree\<close> shows that the file system of the test application is such a tree.
\<close>

section \<open>Directory streams\<close>

lemma hello_dirent_decode:
  "fuse_dirent_ino (hello_dirent i off name @ xs) = Some i"
  "fuse_dirent_off (hello_dirent i off name @ xs) = Some off"
  "fuse_dirent_namelen (hello_dirent i off name @ xs) = Some (of_nat (length name))"
  "fuse_dirent_type (hello_dirent i off name @ xs) = Some 0"
  "drop FUSE_NAME_OFFSET (hello_dirent i off name @ xs) =
     name @ replicate (dirent_size (length name) - (FUSE_NAME_OFFSET + length name)) 0 @ xs"
  by (simp_all add: hello_dirent_def dirent_roundtrip)

text \<open>The entries of a directory as the byte string that READDIR reads from, starting at offset \<open>k\<close>: each entry carries the
  offset of the next one.\<close>

type_synonym dir_entry = "u64 \<times> byte list"

fun dir_stream :: "nat \<Rightarrow> dir_entry list \<Rightarrow> byte list" where
  "dir_stream k [] = []"
| "dir_stream k ((ino, name) # es) =
     hello_dirent ino (of_nat (k + dirent_size (length name))) name @ dir_stream (k + dirent_size (length name)) es"

definition dir_offset :: "dir_entry list \<Rightarrow> nat" where
  "dir_offset es = (\<Sum>(ino, name) \<leftarrow> es. dirent_size (length name))"

lemma dir_offset_simps [simp]:
  "dir_offset [] = 0" "dir_offset ((ino, name) # es) = dirent_size (length name) + dir_offset es"
  "dir_offset (es @ fs) = dir_offset es + dir_offset fs"
  by (simp_all add: dir_offset_def)

lemma length_dir_stream [simp]: "length (dir_stream k es) = dir_offset es"
  by (induction k es rule: dir_stream.induct) (simp_all add: length_hello_dirent)

lemma drop_dir_stream: "drop (dir_offset es) (dir_stream k (es @ fs)) = dir_stream (k + dir_offset es) fs"
  by (induction es arbitrary: k) (auto simp: length_hello_dirent ac_simps)

text \<open>The same entries as the driver hands them to its caller.\<close>

fun listing :: "ukfs_consts \<Rightarrow> nat \<Rightarrow> dir_entry list \<Rightarrow> uk_fs_dirent list" where
  "listing uc k [] = []"
| "listing uc k ((ino, name) # es) = dirent_of uc ino (of_nat (k + dirent_size (length name))) name #
     listing uc (k + dirent_size (length name)) es"

section \<open>Trees\<close>

locale tree_ops = readable_ops op serves answer content
  for op :: "'u fuse_lowlevel_ops" and serves :: "ukfs_in \<Rightarrow> bool" and answer :: "'u answer_fun" and content :: "u64 \<Rightarrow> byte list option" +
  fixes attr :: "u64 \<Rightarrow> stat option" and child :: "u64 \<Rightarrow> byte list \<Rightarrow> u64 option" and dir :: "u64 \<Rightarrow> dir_entry list option"
  assumes getattrs: "serves (In_getattr ino) \<and>
      (\<exists>k. answer (In_getattr ino) pl m = (case attr ino of None \<Rightarrow> (- ENOENT, RNull, k, m) | Some x \<Rightarrow> (0, RStat x, k, m)))"
    and lookups: "serves (In_lookup ino name) \<and> (\<exists>k e. answer (In_lookup ino name) pl m =
      (case child ino name of None \<Rightarrow> (- ENOENT, RNull, k, m) | Some c \<Rightarrow> (0, REntry (e\<lparr>ep_ino := c\<rparr>), k, m)))"
    and readdirs: "dir ino = Some es \<Longrightarrow> 0 \<le>s off \<Longrightarrow> serves (In_readdir ino fh off sz) \<and>
      answer (In_readdir ino fh off sz) pl m = (0, RBytes (window (dir_stream 0 es) off sz), length (window (dir_stream 0 es) off sz), m)"
    and small_dirs: "dir ino = Some es \<Longrightarrow> dir_offset es \<le> 4096"
begin

lemma getstat:
  assumes s: "sys_ok serves s ps" and f: "nodes s f = Some ino"
  shows "\<exists>s'. fusefs_getstat uc op f s = Some (case attr ino of None \<Rightarrow> (- ENOENT, None, s')
      | Some x \<Rightarrow> (0, Some \<lparr>stx_mask = UK_STATX_MODE uc OR UK_STATX_SIZE uc OR UK_STATX_INO uc OR UK_STATX_NLINK uc,
          stx_mode = st_mode x, stx_size = st_size x, stx_ino = st_ino x, stx_nlink = st_nlink x,
          stx_uid = st_uid x, stx_gid = st_gid x\<rparr>, s')) \<and>
    sys_ok serves s' [] \<and> sy_files s' = sy_files s \<and> sy_refs s' = sy_refs s \<and> brk (sy_w s) < brk (sy_w s')"
proof -
  from f obtain ff where ff: "sy_files s f = Some ff" "ff_nodeid ff = ino" by (rule nodes_SomeE)
  let ?i = "In_getattr ino"
  from getattrs [of ino "plat (sy_w s)" "fsmem (sy_w s)"] obtain e d k
    where v: "serves ?i" and a: "answer ?i (plat (sy_w s)) (fsmem (sy_w s)) = (e, d, k, fsmem (sy_w s))"
      and ed: "(e, d) = (case attr ino of None \<Rightarrow> (- ENOENT, RNull) | Some x \<Rightarrow> (0, RStat x))"
    by (cases "attr ino") auto
  obtain q s' where c: "client_call op FUSE_UKFS_GETATTR ?i s = Some (q, s')" "ur_error q = e" "ur_reply_data q = d"
    "sys_ok serves s' []" "sy_files s' = sy_files s" "sy_refs s' = sy_refs s" "brk (sy_w s) < brk (sy_w s')"
    by (rule call [OF s v _ a]) simp_all
  show ?thesis using c ff ed by (intro exI [of _ s']) (auto simp: fusefs_getstat_def split: option.splits)
qed

lemma lookup:
  assumes s: "sys_ok serves s ps" and f: "nodes s f = Some ino"
    and path: "path \<noteq> []" "path \<noteq> bytes_of ''.''" "path \<noteq> bytes_of ''..''" and len: "length path < FUSE_DAEMON_BUF_SIZE - 40"
  shows "\<exists>s'. sys_ok serves s' [] \<and> brk (sy_w s) < brk (sy_w s') \<and>
    (case child ino (takeWhile (\<lambda>b. b \<noteq> 0) path) of
       None \<Rightarrow> fusefs_lookup uc op f path s = Some (- ENOENT, None, s') \<and> sy_files s' = sy_files s \<and> sy_refs s' = sy_refs s
     | Some c \<Rightarrow> (\<exists>a. fusefs_lookup uc op f path s = Some (UKFS_STOP_FILE uc, Some (a, length path), s') \<and>
         brk (sy_w s) \<le> a \<and> a < brk (sy_w s') \<and>
         sy_files s' = (sy_files s)(a \<mapsto> \<lparr>ff_nodeid = c, ff_fh = FH_NONE, ff_upref = None\<rparr>) \<and> sy_refs s' = (sy_refs s)(a := 1)))"
proof -
  from f obtain ff where ff: "sy_files s f = Some ff" "ff_nodeid ff = ino" by (rule nodes_SomeE)
  let ?n = "takeWhile (\<lambda>b. b \<noteq> 0) path" let ?i = "In_lookup ino ?n"
  let ?s = "s\<lparr>sy_d := (sy_d s)\<lparr>ds_w := (sy_w s)\<lparr>nmalloc := nmalloc (sy_w s) + 1\<rparr>\<rparr>\<rparr>"
  note m = sys_ok_malloc [OF s]
  have nm: "name_ok ?i" using len length_takeWhile_le [of "\<lambda>b. b \<noteq> 0" path] by (auto dest: set_takeWhileD)
  from lookups [of ino ?n "plat (sy_w ?s)" "fsmem (sy_w ?s)"] obtain e d k p
    where v: "serves ?i" and a: "answer ?i (plat (sy_w ?s)) (fsmem (sy_w ?s)) = (e, d, k, fsmem (sy_w ?s))"
      and ed: "(e, d) = (case child ino ?n of None \<Rightarrow> (- ENOENT, RNull) | Some c \<Rightarrow> (0, REntry (p\<lparr>ep_ino := c\<rparr>)))"
    by (cases "child ino ?n") auto
  obtain q s1 where c: "client_call op FUSE_UKFS_LOOKUP ?i ?s = Some (q, s1)" "ur_error q = e" "ur_reply_data q = d"
    "sys_ok serves s1 []" "sy_files s1 = sy_files s" "sy_refs s1 = sy_refs s" "brk (sy_w s) < brk (sy_w s1)"
    by (rule call [OF m(2) v nm a]) simp_all
  show ?thesis
  proof (cases "child ino ?n")
    case None
    then have "fusefs_lookup uc op f path s = Some (- ENOENT, None, s1)"
      using c(1-3) ed ff path m(1) by (simp add: fusefs_lookup_def)
    then show ?thesis using None c(4-7) by auto
  next
    case (Some x)
    obtain b s2 where b: "fusefs_file_alloc x s1 = (Some b, s2)" "b = brk (sy_w s1)" "sys_ok serves s2 []"
      "sy_files s2 = (sy_files s1)(b \<mapsto> \<lparr>ff_nodeid = x, ff_fh = FH_NONE, ff_upref = None\<rparr>)" "sy_refs s2 = (sy_refs s1)(b := 1)"
      "b < brk (sy_w s2)"
      by (rule fusefs_file_alloc_ok [OF c(4)])
    then have "fusefs_lookup uc op f path s = Some (UKFS_STOP_FILE uc, Some (b, length path), s2)"
      using Some c(1-3) ed ff path m(1) by (simp add: fusefs_lookup_def)
    then show ?thesis using Some c(4-7) b(2-6) by (intro exI [of _ s2]) auto
  qed
qed

text \<open>A call at the start of an entry, and one at the end.\<close>

lemma listdir:
  assumes s: "sys_ok serves s ps" and f: "nodes s f = Some ino" and d: "dir ino = Some (es @ fs)"
    and len: "\<And>i name. (i, name) \<in> set fs \<Longrightarrow> UKFS_DIRENT_RECLEN uc (of_nat (length name)) \<le> len"
  shows "\<exists>s'. fusefs_listdir uc op f (of_nat (dir_offset es)) len s = Some (case fs of
       [] \<Rightarrow> (0, None, of_nat (dir_offset es), s')
     | (i, name) # _ \<Rightarrow> (let next = of_nat (dir_offset (es @ [(i, name)]))
         in (uint (UKFS_DIRENT_RECLEN uc (of_nat (length name))), Some (dirent_of uc i next name), next, s'))) \<and>
    sys_ok serves s' [] \<and> sy_files s' = sy_files s \<and> sy_refs s' = sy_refs s \<and> brk (sy_w s) < brk (sy_w s')"
proof -
  from f obtain ff where ff: "sy_files s f = Some ff" "ff_nodeid ff = ino" by (rule nodes_SomeE)
  let ?o = "of_nat (dir_offset es) :: u64" let ?i = "In_readdir ino 0 ?o 4096"
  let ?b = "window (dir_stream 0 (es @ fs)) ?o 4096"
  have small: "dir_offset es + dir_offset fs \<le> 4096" using small_dirs [OF d] by simp
  then have uo: "unat ?o = dir_offset es" by (simp add: unat_of_nat take_bit_nat_eq_self)
  then have off: "0 \<le>s ?o" using small by (simp add: nonneg_iff)
  have b: "?b = dir_stream (dir_offset es) fs" using small by (simp add: window_def uo drop_dir_stream)
  have a: "answer ?i (plat (sy_w s)) (fsmem (sy_w s)) = (0, RBytes ?b, length ?b, fsmem (sy_w s))" and v: "serves ?i"
    using readdirs [OF d off] by simp_all
  obtain q s' where c: "client_call op FUSE_UKFS_READDIR ?i s = Some (q, s')" "ur_error q = 0" "ur_reply_data q = RBytes ?b"
    "ur_reply_len q = length ?b" "sys_ok serves s' []" "sy_files s' = sy_files s" "sy_refs s' = sy_refs s"
    "brk (sy_w s) < brk (sy_w s')"
    by (rule call [OF s v _ a]) simp_all
  show ?thesis
  proof (cases fs)
    case Nil
    then have "fusefs_listdir uc op f ?o len s = Some (0, None, ?o, s')" using c(1-4) ff b by (simp add: fusefs_listdir_def)
    then show ?thesis using c(5-8) Nil by auto
  next
    case (Cons e gs)
    obtain i name where e: "e = (i, name)" by (cases e)
    let ?n = "of_nat (dir_offset es + dirent_size (length name)) :: u64"
    have bb: "?b = hello_dirent i ?n name @ dir_stream (dir_offset es + dirent_size (length name)) gs"
      unfolding b by (simp add: Cons e)
    have ge: "FUSE_NAME_OFFSET + length name \<le> dirent_size (length name)" by (rule dirent_size_ge)
    then have "length name \<le> 4096" using small by (simp add: Cons e)
    then have un: "unat (of_nat (length name) :: u32) = length name" by (simp add: unat_of_nat take_bit_nat_eq_self)
    have ne: "length ?b \<noteq> 0" using ge by (simp add: bb length_hello_dirent)
    have lb: "FUSE_NAME_OFFSET + length name \<le> length ?b" using ge by (simp add: bb length_hello_dirent)
    have nm: "take (length name) (drop FUSE_NAME_OFFSET ?b) = name" by (simp only: bb hello_dirent_decode(5)) simp
    have rl: "\<not> len < UKFS_DIRENT_RECLEN uc (of_nat (length name))" using len [of i name] by (simp add: Cons e linorder_not_less)
    have "fusefs_listdir uc op f ?o len s =
        Some (uint (UKFS_DIRENT_RECLEN uc (of_nat (length name))), Some (dirent_of uc i ?n name), ?n, s')"
      using c(1-4) ff ne un lb nm rl by (simp add: fusefs_listdir_def hello_dirent_decode bb dirent_of_def Let_def)
    then show ?thesis using c(5-8) by (auto simp: Cons e Let_def)
  qed
qed

text \<open>The caller's loop over a directory yields its entries in order and ends.\<close>

lemma list_directory_entries:
  assumes "sys_ok serves s ps" and "nodes s f = Some ino" and "dir ino = Some (es @ fs)"
    and len: "\<And>i name. (i, name) \<in> set fs \<Longrightarrow>
      0 < UKFS_DIRENT_RECLEN uc (of_nat (length name)) \<and> UKFS_DIRENT_RECLEN uc (of_nat (length name)) \<le> len"
  shows "\<exists>s'. list_directory uc op f len (Suc (length fs)) (of_nat (dir_offset es)) s = Some (0, listing uc (dir_offset es) fs, s') \<and>
    sys_ok serves s' []"
  using assms
proof (induction fs arbitrary: es s ps)
  case Nil
  then show ?case using listdir [of s ps f ino es "[]" uc len] by auto
next
  case (Cons e fs)
  obtain i name where e: "e = (i, name)" by (cases e)
  let ?n = "of_nat (dir_offset (es @ [e])) :: u64"
  obtain s1 where s1: "fusefs_listdir uc op f (of_nat (dir_offset es)) len s =
      Some (uint (UKFS_DIRENT_RECLEN uc (of_nat (length name))), Some (dirent_of uc i ?n name), ?n, s1)"
    "sys_ok serves s1 []" "sy_files s1 = sy_files s"
    using listdir [of s ps f ino es "e # fs" uc len] Cons.prems by (auto simp: e Let_def)
  have "nodes s1 f = Some ino" using nodes_cong [OF s1(3)] Cons.prems(2) by simp
  then obtain s2 where s2: "list_directory uc op f len (Suc (length fs)) ?n s1 = Some (0, listing uc (dir_offset (es @ [e])) fs, s2)"
    "sys_ok serves s2 []"
    using Cons.IH [of s1 "[]" "es @ [e]"] s1(2) Cons.prems(3,4) by auto
  have "uint (UKFS_DIRENT_RECLEN uc (of_nat (length name))) > 0"
    using Cons.prems(4) [of i name] by (simp add: e word_less_def)
  then show ?case using s1(1) s2 by (simp add: e del: list_directory.simps(2)) (simp add: list_directory.simps(2))
qed

end

section \<open>The tree of the test file system\<close>

definition hello_attr :: "u64 \<Rightarrow> stat option" where
  "hello_attr ino = (if ino = 1 \<or> ino = 2 then Some (snd (hello_stat ino zero_stat)) else None)"

definition hello_child :: "u64 \<Rightarrow> byte list \<Rightarrow> u64 option" where
  "hello_child ino name = (if ino = 1 \<and> name = hello_name then Some 2 else None)"

definition hello_entries :: "u64 \<Rightarrow> dir_entry list option" where
  "hello_entries ino = (if ino = 1 then Some [(1, bytes_of ''.''), (1, bytes_of ''..''), (2, hello_name)] else None)"

lemma hello_dir_stream: "dir_stream 0 [(1, bytes_of ''.''), (1, bytes_of ''..''), (2, hello_name)] = hello_dir"
  by (simp add: hello_dir_def dirent_size_def)

lemma hello_entry_upd: "hello_entry\<lparr>ep_ino := 2\<rparr> = hello_entry"
  by (simp add: hello_entry_def)

interpretation hello_tree: tree_ops "hello_ll_oper :: 'u fuse_lowlevel_ops" hello_serves hello_answer hello_content
  hello_attr hello_child hello_entries
proof unfold_locales
  fix ino pl and m :: 'u
  show "hello_serves (In_getattr ino) \<and> (\<exists>k. hello_answer (In_getattr ino) pl m =
      (case hello_attr ino of None \<Rightarrow> (- ENOENT, RNull, k, m) | Some x \<Rightarrow> (0, RStat x, k, m)))"
    by (auto simp: hello_attr_def)
next
  fix ino name pl and m :: 'u
  show "hello_serves (In_lookup ino name) \<and> (\<exists>k e. hello_answer (In_lookup ino name) pl m =
      (case hello_child ino name of None \<Rightarrow> (- ENOENT, RNull, k, m) | Some c \<Rightarrow> (0, REntry (e\<lparr>ep_ino := c\<rparr>), k, m)))"
    using hello_entry_upd by (auto simp: hello_child_def intro!: exI [of _ hello_entry])
next
  fix ino es off fh sz pl and m :: 'u
  show "hello_entries ino = Some es \<Longrightarrow> 0 \<le>s off \<Longrightarrow> hello_serves (In_readdir ino fh off sz) \<and>
      hello_answer (In_readdir ino fh off sz) pl m =
        (0, RBytes (window (dir_stream 0 es) off sz), length (window (dir_stream 0 es) off sz), m)"
    by (auto simp: hello_entries_def hello_dir_stream simp del: dir_stream.simps split: if_splits)
  show "hello_entries ino = Some es \<Longrightarrow> dir_offset es \<le> 4096"
    by (auto simp: hello_entries_def dirent_size_def split: if_splits)
qed

end
