(* ===== verification/Hello_Perf.thy ===== *)
theory Hello_Perf
  imports Fuse_Tree
begin

text \<open>
  The file system of the performance test, \<^verbatim>\<open>apps/fuse-perf-test/hello_ll.c\<close>: that of \<open>Hello_LL\<close> with a second
  file of 100 MiB (inode 3), without \<^verbatim>\<open>init\<close> and extended attributes, and with a read that rejects other
  inodes instead of asserting. Its \<^verbatim>\<open>dirbuf_add\<close> and \<^verbatim>\<open>reply_buf_limited\<close> are the same code as in \<open>Hello_LL\<close>. The
  interpretations \<open>perf\<close> and \<open>perf_files\<close> show that it meets the contracts of the daemon and of the driver's
  reading.
\<close>

section \<open>Operations\<close>

definition bigfile_name :: "byte list" where
  "bigfile_name = bytes_of ''bigfile''"

definition BIGFILE_SIZE :: nat where
  "BIGFILE_SIZE = 100 * 1024 * 1024"

definition perf_stat :: "u64 \<Rightarrow> stat \<Rightarrow> int \<times> stat" where
  "perf_stat ino stbuf =
     (let stbuf = stbuf\<lparr>st_ino := ino\<rparr>
      in if ino = 1 then (0, stbuf\<lparr>st_mode := S_IFDIR OR 0x1ED, st_nlink := 2\<rparr>)
         else if ino = 2 then
           (0, stbuf\<lparr>st_mode := S_IFREG OR 0x124, st_nlink := 1, st_size := of_nat (length hello_str)\<rparr>)
         else if ino = 3 then
           (0, stbuf\<lparr>st_mode := S_IFREG OR 0x124, st_nlink := 1, st_size := of_nat BIGFILE_SIZE\<rparr>)
         else (- 1, stbuf))"

definition perf_getattr :: "addr \<Rightarrow> u64 \<Rightarrow> fuse_file_info option \<Rightarrow> 'u action" where
  "perf_getattr req ino fi w =
     (let (res, stbuf) = perf_stat ino zero_stat
      in if res = - 1 then reply_err req ENOENT w
         else snd (fuse_reply_attr req stbuf ONE_SECOND w))"

definition perf_lookup :: "addr \<Rightarrow> u64 \<Rightarrow> byte list \<Rightarrow> 'u action" where
  "perf_lookup req parent name w =
     (if parent \<noteq> 1 then reply_err req ENOENT w
      else
        (let found = (\<lambda>ino w.
               let e = zero_entry_param\<lparr>ep_ino := ino, ep_attr_timeout := ONE_SECOND, ep_entry_timeout := ONE_SECOND\<rparr>;
                   e = e\<lparr>ep_attr := snd (perf_stat ino (ep_attr e))\<rparr>
               in snd (fuse_reply_entry req e w))
         in rd (strcmp_eq name (hello_name @ [0])) (\<lambda>same w.
              if same then found 2 w
              else rd (strcmp_eq name (bigfile_name @ [0])) (\<lambda>same w.
                if same then found 3 w else reply_err req ENOENT w) w) w))"

definition perf_readdir :: "addr \<Rightarrow> u64 \<Rightarrow> u64 \<Rightarrow> u64 \<Rightarrow> fuse_file_info \<Rightarrow> 'u action" where
  "perf_readdir req ino sz off fi w =
     (if ino \<noteq> 1 then reply_err req ENOTDIR w
      else
        (let bw = (\<lparr>db_p = None, db_size = 0\<rparr>, w);
             bw = dirbuf_add (bytes_of ''.'' @ [0]) 1 bw;
             bw = dirbuf_add (bytes_of ''..'' @ [0]) 1 bw;
             bw = dirbuf_add (hello_name @ [0]) 2 bw;
             (b, w) = dirbuf_add (bigfile_name @ [0]) 3 bw
         in snd (reply_buf_limited req (db_p b) (db_size b) off sz w)))"

definition perf_open :: "addr \<Rightarrow> u64 \<Rightarrow> fuse_file_info \<Rightarrow> 'u action" where
  "perf_open req ino fi w =
     (if ino = 1 then reply_err req EISDIR w
      else if fi_flags fi AND O_ACCMODE \<noteq> O_RDONLY then reply_err req EACCES w
      else snd (fuse_reply_open req fi w))"

text \<open>The large file holds the letter A; the part that is read is made up in a temporary block.\<close>

definition perf_read :: "addr \<Rightarrow> u64 \<Rightarrow> u64 \<Rightarrow> u64 \<Rightarrow> fuse_file_info \<Rightarrow> 'u action" where
  "perf_read req ino sz off fi w =
     (if ino = 2 then snd (reply_buf_limited req (Some (hello_str @ [0])) (of_nat (length hello_str)) off sz w)
      else if ino = 3 then
        (if of_nat BIGFILE_SIZE \<le>s off then snd (fuse_reply_buf req None 0 w)
         else
           (let to_read = of_nat BIGFILE_SIZE - off;
                to_read = (if sz < to_read then sz else to_read);
                (ok, w) = try_malloc w
            in if \<not> ok then reply_err req ENOMEM w
               else snd (fuse_reply_buf req (Some (replicate (unat to_read) 65)) (unat to_read) w)))
      else reply_err req EISDIR w)"

definition perf_oper :: "'u fuse_lowlevel_ops" where
  "perf_oper = no_ops\<lparr>op_lookup := Some perf_lookup, op_getattr := Some perf_getattr, op_readdir := Some perf_readdir,
     op_open := Some perf_open, op_read := Some perf_read\<rparr>"

section \<open>The content of the file system\<close>

definition perf_content :: "u64 \<Rightarrow> byte list option" where
  "perf_content ino = (if ino = 2 then Some hello_str else if ino = 3 then Some (replicate BIGFILE_SIZE 65) else None)"

definition perf_entry :: "u64 \<Rightarrow> fuse_entry_param" where
  "perf_entry ino = \<lparr>ep_ino = ino, ep_generation = 0, ep_attr = snd (perf_stat ino zero_stat),
     ep_attr_timeout = ONE_SECOND, ep_entry_timeout = ONE_SECOND\<rparr>"

definition perf_dir :: "byte list" where
  "perf_dir = hello_dir @ hello_dirent 3 128 bigfile_name"

fun perf_answer :: "'u answer_fun" where
  "perf_answer (In_lookup parent name) pl m =
     (if parent = 1 \<and> name = hello_name then (0, REntry (perf_entry 2), sizeof_entry_param pl, m)
      else if parent = 1 \<and> name = bigfile_name then (0, REntry (perf_entry 3), sizeof_entry_param pl, m)
      else (- ENOENT, RNull, 0, m))"
| "perf_answer (In_getattr ino) pl m =
     (if ino \<in> {1, 2, 3} then (0, RStat (snd (perf_stat ino zero_stat)), sizeof_stat pl, m)
      else (- ENOENT, RNull, 0, m))"
| "perf_answer (In_open ino flags) pl m =
     (if ino = 1 then (- EISDIR, RNull, 0, m)
      else if flags AND O_ACCMODE \<noteq> O_RDONLY then (- EACCES, RNull, 0, m)
      else (0, ROpen zero_open_out, 16, m))"
| "perf_answer (In_read ino fh off sz) pl m =
     (case perf_content ino of
        None \<Rightarrow> (- EISDIR, RNull, 0, m)
      | Some bs \<Rightarrow> (0, RBytes (window bs off sz), length (window bs off sz), m))"
| "perf_answer (In_readdir ino fh off sz) pl m =
     (if ino \<noteq> 1 then (- ENOTDIR, RNull, 0, m)
      else (0, RBytes (window perf_dir off sz), length (window perf_dir off sz), m))"

fun perf_serves :: "ukfs_in \<Rightarrow> bool" where
  "perf_serves (In_read ino fh off sz) \<longleftrightarrow> 0 \<le>s off"
| "perf_serves (In_readdir ino fh off sz) \<longleftrightarrow> 0 \<le>s off"
| "perf_serves _ \<longleftrightarrow> True"

section \<open>The contracts\<close>

lemma bigfile_name_simps [simp]: "length bigfile_name = 7" "0 \<notin> set bigfile_name"
  by (simp_all add: bigfile_name_def bytes_of_def)

lemma perf_oper_simps:
  "op_lookup perf_oper = Some perf_lookup" "op_getattr perf_oper = Some perf_getattr"
  "op_open perf_oper = Some perf_open" "op_read perf_oper = Some perf_read" "op_readdir perf_oper = Some perf_readdir"
  by (simp_all add: perf_oper_def)

lemma perf_lookup_completes:
  assumes "live_req w a p" "\<forall>n. malloc_ok (plat w) n" "0 \<notin> set name"
    and "perf_answer (In_lookup parent name) (plat w) (fsmem w) = (e, d, n, m)"
  shows "completes a p e d n w (perf_lookup a parent (name @ 0 # rest) w)"
proof -
  have cmp: "strcmp_eq (name @ 0 # rest) (hello_name @ [0]) = Some (name = hello_name)"
    "strcmp_eq (name @ 0 # rest) (bigfile_name @ [0]) = Some (name = bigfile_name)"
    by (rule strcmp_eq_strings; use assms in auto)+
  have ent: "zero_entry_param\<lparr>ep_ino := ino, ep_attr_timeout := ONE_SECOND, ep_entry_timeout := ONE_SECOND,
      ep_attr := snd (perf_stat ino zero_stat)\<rparr> = perf_entry ino" for ino
    by (simp add: perf_entry_def zero_entry_param_def)
  have "completes a p 0 (REntry (perf_entry ino)) (sizeof_entry_param (plat w)) w (snd (fuse_reply_entry a (perf_entry ino) w))"
    if "ino \<noteq> 0" for ino
    using fuse_reply_entry_completes(2) [OF assms(1), of "perf_entry ino"] reply_result_ok [OF assms(2)] that
    by (simp add: perf_entry_def)
  then show ?thesis
    using assms(1,4) reply_err_completes [OF assms(1), of ENOENT] cmp ent [of 2] ent [of 3]
    by (auto simp: perf_lookup_def Let_def zero_entry_param_def split: if_splits)
qed

lemma perf_getattr_completes:
  assumes "live_req w a p" "\<forall>n. malloc_ok (plat w) n"
    and "perf_answer (In_getattr ino) (plat w) (fsmem w) = (e, d, n, m)"
  shows "completes a p e d n w (perf_getattr a ino fi w)"
proof -
  have "fst (perf_stat ino zero_stat) = (if ino \<in> {1, 2, 3} then 0 else - 1)"
    by (simp add: perf_stat_def Let_def)
  then show ?thesis
    using assms fuse_reply_attr_completes(2) [OF assms(1)] reply_result_ok [OF assms(2)]
      reply_err_completes [OF assms(1), of ENOENT]
    by (auto simp: perf_getattr_def split: prod.splits if_splits)
qed

lemma perf_open_completes:
  assumes "live_req w a p" "\<forall>n. malloc_ok (plat w) n"
    and "perf_answer (In_open ino flags) (plat w) (fsmem w) = (e, d, n, m)"
  shows "completes a p e d n w (perf_open a ino (zero_file_info\<lparr>fi_flags := flags\<rparr>) w)"
proof -
  have "fill_open zero_open_out (zero_file_info\<lparr>fi_flags := flags\<rparr>) = zero_open_out"
    by (simp add: fill_open_def zero_file_info_def or_flag_def zero_open_out_def)
  then show ?thesis
    using assms fuse_reply_open_completes(2) [OF assms(1), of "zero_file_info\<lparr>fi_flags := flags\<rparr>"]
      reply_result_ok [OF assms(2)] reply_err_completes [OF assms(1)]
    by (auto simp: perf_open_def zero_file_info_def split: if_splits)
qed

lemma perf_big_read_completes:
  fixes sz :: u32
  assumes live: "live_req w a p" and ok: "\<forall>n. malloc_ok (plat w) n" and off: "0 \<le>s off"
  defines "win \<equiv> window (replicate BIGFILE_SIZE 65) off sz"
  shows "completes a p 0 (RBytes win) (length win) w (perf_read a 3 (ucast sz) off fi w)"
proof -
  let ?B = "of_nat BIGFILE_SIZE :: u64"
  have B: "unat ?B = BIGFILE_SIZE" by (simp add: BIGFILE_SIZE_def)
  have off': "unat off < 2 ^ 63" using off by (simp add: nonneg_iff)
  have le: "?B \<le>s off \<longleftrightarrow> BIGFILE_SIZE \<le> unat off"
    using sless_iff [OF off', of ?B] by (auto simp: B word_sle_eq word_sless_alt BIGFILE_SIZE_def)
  have usz: "unat (ucast sz :: u64) = unat sz"
    by (simp add: unsigned_ucast_eq take_bit_nat_eq_self order_less_trans [OF unsigned_less])
  show ?thesis
  proof (cases "BIGFILE_SIZE \<le> unat off")
    case True
    then have "win = []" by (simp add: win_def window_def)
    then show ?thesis using True le fuse_reply_buf_empty_completes(2) [OF live] by (simp add: perf_read_def buf_result_ok [OF ok])
  next
    case False
    define len where "len = (if ucast sz < ?B - off then ucast sz else ?B - off)"
    have "unat (?B - off) = BIGFILE_SIZE - unat off" using False by (simp add: unat_sub word_le_nat_alt B)
    then have ulen: "unat len = min (BIGFILE_SIZE - unat off) (unat sz)" using usz by (auto simp: len_def word_less_nat_alt)
    have win: "replicate (unat len) 65 = win" "length win = unat len"
      by (simp_all add: win_def window_def ulen min.commute)
    let ?w = "w\<lparr>nmalloc := nmalloc w + 1\<rparr>"
    have "perf_read a 3 (ucast sz) off fi w = snd (fuse_reply_buf a (Some win) (length win) ?w)"
      using False le ok by (simp add: perf_read_def try_malloc_def Let_def win len_def [symmetric] flip: win(1))
    moreover have "completes a p 0 (RBytes win) (length win) ?w (snd (fuse_reply_buf a (Some win) (length win) ?w))"
      using fuse_reply_buf_completes(2) [of ?w a p "length win" win] live ok by (simp add: live_req_nmalloc buf_result_ok)
    ultimately show ?thesis by (simp add: completes_nmalloc)
  qed
qed

lemma perf_read_completes:
  assumes l: "live_req w a p" "\<forall>n. malloc_ok (plat w) n" "0 \<le>s off"
    and a: "perf_answer (In_read ino fh off sz) (plat w) (fsmem w) = (e, d, n, m)"
  shows "completes a p e d n w (perf_read a ino (ucast sz) off fi w)"
proof -
  consider "ino = 2" | "ino = 3" | "ino \<noteq> 2" "ino \<noteq> 3" by blast
  then show ?thesis
  proof cases
    case 1
    then show ?thesis
      using reply_buf_limited_completes [OF l(1,2) _ _ l(3), of 13 "hello_str @ [0]" sz] a
      by (auto simp: perf_read_def perf_content_def)
  next
    case 2
    then show ?thesis using perf_big_read_completes [OF l, of sz fi] a by (auto simp: perf_content_def)
  next
    case 3
    then show ?thesis using reply_err_completes [OF l(1), of EISDIR] a by (auto simp: perf_read_def perf_content_def)
  qed
qed

lemma length_perf_dir [simp]: "length perf_dir = 128"
  by (simp add: perf_dir_def length_hello_dirent dirent_size_def)

lemma perf_readdir_completes:
  assumes l: "live_req w a p" "\<forall>n. malloc_ok (plat w) n" "0 \<le>s off"
    and a: "perf_answer (In_readdir ino fh off sz) (plat w) (fsmem w) = (e, d, n, m)"
  shows "completes a p e d n w (perf_readdir a ino (ucast sz) off fi w)"
proof (cases "ino = 1")
  case True
  let ?w = "w\<lparr>nmalloc := nmalloc w + 4\<rparr>"
  have "hello_dir \<noteq> []" using length_hello_dir by fastforce
  then have "dirbuf_add (bigfile_name @ [0]) 3 (\<lparr>db_p = Some hello_dir, db_size = 96\<rparr>, w\<lparr>nmalloc := nmalloc w + 3\<rparr>) =
      (\<lparr>db_p = Some perf_dir, db_size = 128\<rparr>, ?w)"
    using dirbuf_add_entry [of "w\<lparr>nmalloc := nmalloc w + 3\<rparr>", OF _ bigfile_name_simps(2), of "\<lparr>db_p = Some hello_dir, db_size = 96\<rparr>" hello_dir 3] l(2)
    by (simp add: perf_dir_def dirent_size_def)
  then have "perf_readdir a ino (ucast sz) off fi w = snd (reply_buf_limited a (Some perf_dir) 128 off (ucast sz) ?w)"
    using True hello_dirbuf [OF l(2)] by (simp add: perf_readdir_def)
  moreover have "completes a p 0 (RBytes (window perf_dir off sz)) (length (window perf_dir off sz)) ?w
      (snd (reply_buf_limited a (Some perf_dir) 128 off (ucast sz) ?w))"
    using reply_buf_limited_completes [of ?w a p 128 perf_dir off sz] l by (simp add: live_req_nmalloc)
  ultimately show ?thesis using a True by (auto simp: completes_nmalloc)
next
  case False
  then show ?thesis using a reply_err_completes [OF l(1), of ENOTDIR] by (auto simp: perf_readdir_def)
qed

lemma perf_answer_mem: "perf_answer i pl m = (e, d, n, m') \<Longrightarrow> m' = m"
  by (cases i) (auto split: if_splits option.splits)

lemmas perf_completes = perf_lookup_completes perf_getattr_completes perf_open_completes perf_read_completes perf_readdir_completes

interpretation perf: replying_ops "perf_oper :: 'u fuse_lowlevel_ops" perf_serves perf_answer
proof
  fix i a rest
  show "op_call (perf_oper :: 'u fuse_lowlevel_ops) a i rest \<noteq> None"
    by (cases i) (simp_all add: perf_oper_simps)
next
  fix i a rest p e d n m and act :: "'u action" and w :: "'u fuse_world"
  assume s: "perf_serves i" "name_ok i" "op_call (perf_oper :: 'u fuse_lowlevel_ops) a i rest = Some act"
    and l: "live_req w a p" "\<forall>n. malloc_ok (plat w) n"
    and a: "perf_answer i (plat w) (fsmem w) = (e, d, n, m)"
  have m: "w\<lparr>fsmem := m\<rparr> = w" using perf_answer_mem [OF a] by simp
  show "completes a p e d n (w\<lparr>fsmem := m\<rparr>) (act w)"
    unfolding m using perf_completes [OF l] s a by (cases i) (auto simp: perf_oper_simps)
qed

interpretation perf_files: readable_ops "perf_oper :: 'u fuse_lowlevel_ops" perf_serves perf_answer perf_content
  by unfold_locales (auto dest: perf_answer_mem simp: perf_content_def zero_open_out_def split: if_splits)

definition perf_attr :: "u64 \<Rightarrow> stat option" where
  "perf_attr ino = (if ino \<in> {1, 2, 3} then Some (snd (perf_stat ino zero_stat)) else None)"

definition perf_child :: "u64 \<Rightarrow> byte list \<Rightarrow> u64 option" where
  "perf_child ino name =
     (if ino \<noteq> 1 then None else if name = hello_name then Some 2 else if name = bigfile_name then Some 3 else None)"

definition perf_entries :: "u64 \<Rightarrow> dir_entry list option" where
  "perf_entries ino =
     (if ino = 1 then Some [(1, bytes_of ''.''), (1, bytes_of ''..''), (2, hello_name), (3, bigfile_name)] else None)"

lemma perf_dir_stream:
  "dir_stream 0 [(1, bytes_of ''.''), (1, bytes_of ''..''), (2, hello_name), (3, bigfile_name)] = perf_dir"
  by (simp add: perf_dir_def hello_dir_def dirent_size_def)

lemma perf_entry_upd: "(perf_entry ino)\<lparr>ep_ino := ino\<rparr> = perf_entry ino"
  by (simp add: perf_entry_def)

interpretation perf_tree: tree_ops "perf_oper :: 'u fuse_lowlevel_ops" perf_serves perf_answer perf_content
  perf_attr perf_child perf_entries
proof unfold_locales
  fix ino pl and m :: 'u
  show "perf_serves (In_getattr ino) \<and> (\<exists>k. perf_answer (In_getattr ino) pl m =
      (case perf_attr ino of None \<Rightarrow> (- ENOENT, RNull, k, m) | Some x \<Rightarrow> (0, RStat x, k, m)))"
    by (auto simp: perf_attr_def)
next
  fix ino name pl and m :: 'u
  show "perf_serves (In_lookup ino name) \<and> (\<exists>k e. perf_answer (In_lookup ino name) pl m =
      (case perf_child ino name of None \<Rightarrow> (- ENOENT, RNull, k, m) | Some c \<Rightarrow> (0, REntry (e\<lparr>ep_ino := c\<rparr>), k, m)))"
    using perf_entry_upd [of 2] perf_entry_upd [of 3]
    by (auto simp: perf_child_def intro: exI [of _ "perf_entry 2"] exI [of _ "perf_entry 3"])
next
  fix ino es off fh sz pl and m :: 'u
  show "perf_entries ino = Some es \<Longrightarrow> 0 \<le>s off \<Longrightarrow> perf_serves (In_readdir ino fh off sz) \<and>
      perf_answer (In_readdir ino fh off sz) pl m =
        (0, RBytes (window (dir_stream 0 es) off sz), length (window (dir_stream 0 es) off sz), m)"
    by (auto simp: perf_entries_def perf_dir_stream simp del: dir_stream.simps split: if_splits)
  show "perf_entries ino = Some es \<Longrightarrow> dir_offset es \<le> 4096"
    by (auto simp: perf_entries_def dirent_size_def split: if_splits)
qed

section \<open>Properties\<close>

text \<open>Reading the files of the performance test through the driver, at any non-negative offset and into
  any list of buffers of together less than 4 GiB, returns: the buffers are filled in order with the bytes of
  the file from the offset on (for the large file the letter A up to its size of 100 MiB), and the return value
  is their number.\<close>

lemma perf_read_content:
  assumes "sys_ok perf_serves s ps" and "sy_files s f = Some ff" and "perf_content (ff_nodeid ff) = Some bs"
    and "0 \<le>s off" and "sum_list (map unat iov) < 2 ^ 32"
  shows "\<exists>parts s'. fusefs_read perf_oper f iov off s = Some (int (length (concat parts)), parts, s') \<and>
    concat parts = take (sum_list (map unat iov)) (drop (unat off) bs) \<and>
    length parts \<le> length iov \<and> (\<forall>i < length parts. length (parts ! i) \<le> unat (iov ! i)) \<and>
    (sys_ok perf_serves s' [] \<or> s' = s)"
  using perf_files.read_content [OF assms] by blast

end
