(* ===== verification/Fuse_Readers.thy ===== *)
theory Fuse_Readers
  imports Fuse_Concurrent Hello_Perf
begin

text \<open>
  Threads that read files of the driver at the same time. The driver opens a file when it is first read
  (\<^verbatim>\<open>fusefs_read\<close>, \<^verbatim>\<open>fusefs_do_open\<close> of \<^verbatim>\<open>ukfs-fuse.c\<close>), without a lock: several threads may find the same file not opened,
  send an OPEN each and store a handle each. Here \<^verbatim>\<open>fusefs_read\<close> is cut at every access to the shared file and at every wait, on
  top of the interleaving of \<open>Fuse_Concurrent\<close>. The lemmas show that a run of the readers is a run of their calls, that every read
  nevertheless returns the bytes of its file, and that it returns.
\<close>

section \<open>Readers\<close>

text \<open>Where a thread is in \<^verbatim>\<open>fusefs_read\<close>, with its file, the lengths of its buffers and the offset.\<close>

datatype reading =
    NotReading
  | Opening addr "u64 list" u64   \<comment> \<open>waits for the answer of its OPEN\<close>
  | Checked addr "u64 list" u64   \<comment> \<open>found or made the file open\<close>
  | Reading addr "u64 list" u64   \<comment> \<open>waits for the answer of its READ\<close>

record 'u readers =
  rs_conc :: "'u conc_state"
  rs_files :: "addr \<rightharpoonup> fusefs_file"
  rs_pc :: "tid \<Rightarrow> reading"
  rs_results :: "(tid \<times> (addr \<times> u64 list \<times> u64) \<times> int \<times> byte list list) list"

definition read_returns :: "tid \<Rightarrow> addr \<times> u64 list \<times> u64 \<Rightarrow> int \<Rightarrow> byte list list \<Rightarrow> 'u readers \<Rightarrow> 'u readers" where
  "read_returns t x res parts s = s\<lparr>rs_pc := (rs_pc s)(t := NotReading), rs_results := rs_results s @ [(t, x, res, parts)]\<rparr>"

definition read_fault :: "fault \<Rightarrow> 'u readers \<Rightarrow> 'u readers" where
  "read_fault e s = s\<lparr>rs_conc := (rs_conc s)\<lparr>cc_w := raise_fault e (cc_w (rs_conc s))\<rparr>\<rparr>"

text \<open>A request of the thread, and the answer to its last one.\<close>

definition ask :: "ukfs_in \<Rightarrow> reading \<Rightarrow> tid \<Rightarrow> 'u readers \<Rightarrow> 'u readers" where
  "ask i pc t s = s\<lparr>rs_conc := conc_call i t (rs_conc s), rs_pc := (rs_pc s)(t := pc)\<rparr>"

definition answered :: "tid \<Rightarrow> 'u readers \<Rightarrow> fuse_ukfs_request" where
  "answered t s = last (of_thread t (cc_done (rs_conc s)))"

text \<open>The four parts of \<^verbatim>\<open>fusefs_read\<close>: the test whether the file is open, what follows the OPEN, the request for the data, and what
  follows the READ.\<close>

definition read_begins :: "addr \<Rightarrow> u64 list \<Rightarrow> u64 \<Rightarrow> tid \<Rightarrow> 'u readers \<Rightarrow> 'u readers" where
  "read_begins f iov off t s =
     (case rs_files s f of
        None \<Rightarrow> read_fault UseAfterFree s
      | Some ff \<Rightarrow>
          if ff_fh ff = FH_NONE then ask (In_open (ff_nodeid ff) 0) (Opening f iov off) t s
          else s\<lparr>rs_pc := (rs_pc s)(t := Checked f iov off)\<rparr>)"

definition read_opened :: "addr \<Rightarrow> u64 list \<Rightarrow> u64 \<Rightarrow> tid \<Rightarrow> 'u readers \<Rightarrow> 'u readers" where
  "read_opened f iov off t s =
     (let req = answered t s
      in if ur_error req \<noteq> 0 then read_returns t (f, iov, off) (ur_error req) [] s
         else (case ur_reply_data req of
                 RNull \<Rightarrow> read_returns t (f, iov, off) (- EIO) [] s
               | ROpen out \<Rightarrow>
                   (case rs_files s f of
                      None \<Rightarrow> read_fault UseAfterFree s
                    | Some ff \<Rightarrow> s\<lparr>rs_files := (rs_files s)(f \<mapsto> ff\<lparr>ff_fh := oo_fh out\<rparr>), rs_pc := (rs_pc s)(t := Checked f iov off)\<rparr>)
               | _ \<Rightarrow> read_fault TypeConfusion s))"

definition read_asks :: "addr \<Rightarrow> u64 list \<Rightarrow> u64 \<Rightarrow> tid \<Rightarrow> 'u readers \<Rightarrow> 'u readers" where
  "read_asks f iov off t s =
     (let total = iov_total iov
      in if total = 0 then read_returns t (f, iov, off) 0 [] s
         else (case rs_files s f of
                 None \<Rightarrow> read_fault UseAfterFree s
               | Some ff \<Rightarrow> ask (In_read (ff_nodeid ff) (ff_fh ff) off (ucast total)) (Reading f iov off) t s))"

definition read_answered :: "addr \<Rightarrow> u64 list \<Rightarrow> u64 \<Rightarrow> tid \<Rightarrow> 'u readers \<Rightarrow> 'u readers" where
  "read_answered f iov off t s =
     (let req = answered t s
      in if ur_error req \<noteq> 0 then read_returns t (f, iov, off) (ur_error req) [] s
         else (case ur_reply_data req of
                 RNull \<Rightarrow> read_returns t (f, iov, off) 0 [] s
               | RBytes src \<Rightarrow>
                   if length src < ur_reply_len req then read_fault OutOfBounds s
                   else (let parts = scatter (map unat iov) (take (ur_reply_len req) src)
                         in read_returns t (f, iov, off) (int (length (concat parts))) parts s)
               | _ \<Rightarrow> read_fault TypeConfusion s))"

inductive read_step :: "'u fuse_lowlevel_ops \<Rightarrow> 'u readers \<Rightarrow> 'u readers \<Rightarrow> bool" for op where
  call_works: "work_step op (rs_conc s) c \<Longrightarrow> read_step op s (s\<lparr>rs_conc := c\<rparr>)"
| open_returns: "rs_pc s t = Opening f iov off \<Longrightarrow> cc_drv (rs_conc s) t = Outside \<Longrightarrow> read_step op s (read_opened f iov off t s)"
| data_asked: "rs_pc s t = Checked f iov off \<Longrightarrow> read_step op s (read_asks f iov off t s)"
| data_returns: "rs_pc s t = Reading f iov off \<Longrightarrow> cc_drv (rs_conc s) t = Outside \<Longrightarrow> read_step op s (read_answered f iov off t s)"

definition readers_start :: "(addr \<rightharpoonup> fusefs_file) \<Rightarrow> 'u fuse_world \<Rightarrow> 'u readers" where
  "readers_start fs w = \<lparr>rs_conc = conc_start w, rs_files = fs, rs_pc = (\<lambda>_. NotReading), rs_results = []\<rparr>"

text \<open>Reads of existing files, at offsets that are not negative and of together less than 4 GiB.\<close>

inductive readers_reachable :: "'u fuse_lowlevel_ops \<Rightarrow> (addr \<rightharpoonup> fusefs_file) \<Rightarrow> 'u fuse_world \<Rightarrow> 'u readers \<Rightarrow> bool" for op fs w where
  readers_init: "readers_reachable op fs w (readers_start fs w)"
| readers_begin: "readers_reachable op fs w s \<Longrightarrow> t \<noteq> DAEMON \<Longrightarrow> rs_pc s t = NotReading \<Longrightarrow> rs_files s f \<noteq> None \<Longrightarrow> 0 \<le>s off \<Longrightarrow>
    sum_list (map unat iov) < 2 ^ 32 \<Longrightarrow> readers_reachable op fs w (read_begins f iov off t s)"
| readers_work: "readers_reachable op fs w s \<Longrightarrow> read_step op s s' \<Longrightarrow> readers_reachable op fs w s'"

section \<open>Reads return the bytes of their files\<close>

definition node :: "'u readers \<Rightarrow> addr \<Rightarrow> u64 option" where
  "node s f = map_option ff_nodeid (rs_files s f)"

lemma node_simps [simp]:
  "node (s\<lparr>rs_pc := pcs\<rparr>) = node s" "node (s\<lparr>rs_conc := c\<rparr>) = node s" "node (read_returns t x res parts s) = node s" "node (ask i pc t s) = node s"
  by (simp_all add: node_def fun_eq_iff read_returns_def ask_def)

lemma conc_call_simps [simp]:
  "cc_called (conc_call i t c) = cc_called c @ [(t, i)]" "cc_drv (conc_call i t c) = (cc_drv c)(t := Queueing (brk (cc_w c)))"
  by (simp_all add: conc_call_def Let_def)

lemma work_keeps_outside: "work_step op c c' \<Longrightarrow> cc_drv c t = Outside \<Longrightarrow> cc_drv c' t = Outside"
  by (induction rule: work_step.induct) auto

text \<open>What a thread in \<^verbatim>\<open>fusefs_read\<close> has asked for last.\<close>

definition reader_at :: "'u readers \<Rightarrow> tid \<Rightarrow> bool" where
  "reader_at s t \<longleftrightarrow>
     (let good = (\<lambda>f iov off. node s f \<noteq> None \<and> 0 \<le>s off \<and> sum_list (map unat iov) < 2 ^ 32);
          asked = (\<lambda>i. \<exists>xs. of_thread t (cc_called (rs_conc s)) = xs @ [i])
      in case rs_pc s t of
           NotReading \<Rightarrow> cc_drv (rs_conc s) t = Outside
         | Checked f iov off \<Rightarrow> cc_drv (rs_conc s) t = Outside \<and> good f iov off
         | Opening f iov off \<Rightarrow> good f iov off \<and> asked (In_open (the (node s f)) 0)
         | Reading f iov off \<Rightarrow> good f iov off \<and> (\<exists>fh. asked (In_read (the (node s f)) fh off (ucast (iov_total iov)))))"

lemma reader_at_frame:
  assumes "reader_at s t" and "rs_pc s' t = rs_pc s t" and "cc_drv (rs_conc s) t = Outside \<longrightarrow> cc_drv (rs_conc s') t = Outside"
    and "of_thread t (cc_called (rs_conc s')) = of_thread t (cc_called (rs_conc s))" and "node s' = node s"
  shows "reader_at s' t"
  using assms by (auto simp: reader_at_def Let_def split: reading.splits)

text \<open>A result that the read returns rightly: the bytes of the file from the offset on, as many as there are and the buffers hold,
  in the buffers in order.\<close>

definition read_right :: "(u64 \<Rightarrow> byte list option) \<Rightarrow> (addr \<rightharpoonup> fusefs_file) \<Rightarrow> tid \<times> (addr \<times> u64 list \<times> u64) \<times> int \<times> byte list list \<Rightarrow> bool" where
  "read_right content fs y \<longleftrightarrow> (case y of (t, (f, iov, off), res, parts) \<Rightarrow>
     (\<exists>ff bs. fs f = Some ff \<and> content (ff_nodeid ff) = Some bs \<and> res = int (length (concat parts)) \<and>
        concat parts = take (sum_list (map unat iov)) (drop (unat off) bs) \<and> length parts \<le> length iov \<and>
        (\<forall>i < length parts. length (parts ! i) \<le> unat (iov ! i))))"

lemma read_run_reachable: "(read_step op ^^ n) s s' \<Longrightarrow> readers_reachable op fs w s \<Longrightarrow> readers_reachable op fs w s'"
  by (induction n arbitrary: s') (auto intro: readers_work)

text \<open>What each part of \<^verbatim>\<open>fusefs_read\<close> leads to, and the steps that are left: a call takes at most twelve of the thread's own.\<close>

definition moves :: "tid \<Rightarrow> reading \<Rightarrow> 'u readers \<Rightarrow> 'u readers \<Rightarrow> bool" where
  "moves t pc s s' \<longleftrightarrow> rs_conc s' = rs_conc s \<and> rs_pc s' = (rs_pc s)(t := pc)"

lemma read_returns_moves [simp]: "moves t NotReading s (read_returns t x res parts s)"
  by (simp add: moves_def read_returns_def)

lemma read_opened_leads:
  "(\<exists>e. read_opened f iov off t s = read_fault e s) \<or> moves t NotReading s (read_opened f iov off t s) \<or>
   moves t (Checked f iov off) s (read_opened f iov off t s)"
  by (simp add: read_opened_def Let_def split: reply_data.split option.split) (auto simp: moves_def)

lemma read_asks_leads:
  "(\<exists>e. read_asks f iov off t s = read_fault e s) \<or> moves t NotReading s (read_asks f iov off t s) \<or>
   (\<exists>i. read_asks f iov off t s = ask i (Reading f iov off) t s)"
  by (simp add: read_asks_def Let_def split: option.split) blast

lemma read_answered_leads:
  "(\<exists>e. read_answered f iov off t s = read_fault e s) \<or> moves t NotReading s (read_answered f iov off t s)"
  by (simp add: read_answered_def Let_def split: reply_data.split) blast

fun read_steps :: "reading \<Rightarrow> nat" where
  "read_steps NotReading = 0"
| "read_steps (Reading _ _ _) = 1"
| "read_steps (Checked _ _ _) = 14"
| "read_steps (Opening _ _ _) = 15"

lemma read_steps_le: "read_steps pc \<le> 15" and read_steps_0: "read_steps pc = 0 \<longleftrightarrow> pc = NotReading"
  by (cases pc; simp)+

definition reads_left :: "'u readers \<Rightarrow> nat" where
  "reads_left s = work_left (rs_conc s) + sum_all (\<lambda>t. read_steps (rs_pc s t))"

lemma sum_read_steps:
  assumes "finite {t. pcs t \<noteq> NotReading}"
  shows "sum_all (\<lambda>u. read_steps ((pcs(t := pc)) u)) + read_steps (pcs t) = sum_all (\<lambda>u. read_steps (pcs u)) + read_steps pc"
proof -
  have "(\<lambda>u. read_steps ((pcs(t := pc)) u)) = (\<lambda>u. read_steps (pcs u))(t := read_steps pc)" by auto
  then show ?thesis using sum_all_upd [of "\<lambda>u. read_steps (pcs u)" t "read_steps pc"] assms by (simp add: read_steps_0)
qed

lemma reads_left_move:
  assumes "finite {t. rs_pc s t \<noteq> NotReading}" and "moves t pc s s'" and "read_steps pc < read_steps (rs_pc s t)"
  shows "reads_left s' < reads_left s"
  using sum_read_steps [OF assms(1), of t pc] assms(2,3) by (simp add: reads_left_def moves_def)

lemma work_left_call:
  assumes th: "threads_ok c" and t: "t \<noteq> DAEMON" "cc_drv c t = Outside"
  shows "work_left (conc_call i t c) = work_left c + 12"
proof -
  have "driver_steps (conc_call i t c) = (driver_steps c)(t := 12)" "driver_steps c t = 0"
    using t(2) by (auto simp: driver_steps_def conc_call_def Let_def)
  moreover have "unserved (conc_call i t c) = unserved c"
    "daemon_steps (cc_dmn (conc_call i t c)) (qs_pc (cc_q (conc_call i t c)) DAEMON) = daemon_steps (cc_dmn c) (qs_pc (cc_q c) DAEMON)"
    using t(1) by (simp_all add: unserved_def conc_call_def Let_def)
  ultimately show ?thesis using sum_all_upd [OF finite_driver_steps [OF th], of t 12] by (simp add: work_left_def)
qed

lemma reads_left_ask:
  assumes "finite {t. rs_pc s t \<noteq> NotReading}" and "threads_ok (rs_conc s)" and "t \<noteq> DAEMON" "cc_drv (rs_conc s) t = Outside"
    and "read_steps pc + 12 < read_steps (rs_pc s t)"
  shows "reads_left (ask i pc t s) < reads_left s"
  using sum_read_steps [OF assms(1), of t pc] work_left_call [OF assms(2-4)] assms(5) by (simp add: reads_left_def ask_def)

text \<open>The read of a thread stays under way until its result is recorded.\<close>

fun read_of :: "reading \<Rightarrow> (addr \<times> u64 list \<times> u64) option" where
  "read_of NotReading = None"
| "read_of (Opening f iov off) = Some (f, iov, off)"
| "read_of (Checked f iov off) = Some (f, iov, off)"
| "read_of (Reading f iov off) = Some (f, iov, off)"

definition has_result :: "tid \<Rightarrow> addr \<times> u64 list \<times> u64 \<Rightarrow> 'u readers \<Rightarrow> bool" where
  "has_result t x s \<longleftrightarrow> (\<exists>res parts. (t, x, res, parts) \<in> set (rs_results s))"

lemma has_result_simps [simp]:
  "has_result t x (s\<lparr>rs_conc := c\<rparr>) = has_result t x s" "has_result t x (s\<lparr>rs_pc := pcs\<rparr>) = has_result t x s"
  "has_result t x (s\<lparr>rs_files := fs\<rparr>) = has_result t x s" "has_result t x (ask i pc u s) = has_result t x s"
  "has_result t x (read_fault e s) = has_result t x s"
  "has_result t x (read_returns u y res parts s) \<longleftrightarrow> t = u \<and> x = y \<or> has_result t x s"
  by (auto simp: has_result_def ask_def read_fault_def read_returns_def)

lemma rs_pc_simps [simp]:
  "rs_pc (read_fault e s) = rs_pc s" "rs_pc (ask i pc t s) = (rs_pc s)(t := pc)" "rs_pc (read_returns t x res parts s) = (rs_pc s)(t := NotReading)"
  by (simp_all add: ask_def read_fault_def read_returns_def)

lemma read_step_keeps:
  assumes "read_step op s s'" and "read_of (rs_pc s t) = Some x \<or> has_result t x s"
  shows "read_of (rs_pc s' t) = Some x \<or> has_result t x s'"
  using assms
  by (cases; cases "rs_pc s t")
    (auto simp: read_opened_def read_asks_def read_answered_def Let_def split: reply_data.splits option.splits if_splits)

lemma read_run_keeps:
  "(read_step op ^^ n) s s' \<Longrightarrow> read_of (rs_pc s t) = Some x \<or> has_result t x s \<Longrightarrow> read_of (rs_pc s' t) = Some x \<or> has_result t x s'"
proof (induction n arbitrary: s')
  case (Suc n)
  then obtain v where "(read_step op ^^ n) s v" "read_step op v s'" by auto
  then show ?case using Suc read_step_keeps by blast
qed simp

context readable_ops
begin

lemma last_answer:
  assumes "conc_reachable op (\<lambda>i. serves i \<and> name_ok i) w c" and "ready w" and "cc_drv c t = Outside"
    and "of_thread t (cc_called c) = xs @ [i]"
  defines "r \<equiv> last (of_thread t (cc_done c))"
  shows "answer i (plat w) (fsmem w) = (ur_error r, ur_reply_data r, ur_reply_len r, fsmem w)"
proof -
  have ok: "conc_ok serves answer w c" by (rule conc_reachable_ok [OF assms(1,2)])
  have "pending (calls c) (cc_w c) t = []" using assms(3) by (simp add: pending_def calls_def)
  then have d: "map ur_in (of_thread t (cc_done c)) = xs @ [i]" using ok assms(4) by (simp add: conc_ok_def inputs_ok_def)
  then have n: "of_thread t (cc_done c) \<noteq> []" by auto
  then have i: "ur_in r = i" using d last_map [OF n, of ur_in] by (simp add: r_def)
  have m: "snd (snd (snd (answer i pl m))) = m" for i pl m using stateless [of i pl m] by (metis prod.collapse)
  have "outcome r \<in> set (cc_served c)" using ok of_thread_mem [OF last_in_set [OF n]] by (auto simp: conc_ok_def r_def)
  from stateless_outcomes [OF ok m this] show ?thesis by (simp add: i)
qed

definition readers_ok :: "(addr \<rightharpoonup> fusefs_file) \<Rightarrow> 'u fuse_world \<Rightarrow> 'u readers \<Rightarrow> bool" where
  "readers_ok fs w s \<longleftrightarrow> conc_reachable op (\<lambda>i. serves i \<and> name_ok i) w (rs_conc s) \<and>
     node s = (\<lambda>f. map_option ff_nodeid (fs f)) \<and> rs_pc s DAEMON = NotReading \<and> finite {t. rs_pc s t \<noteq> NotReading} \<and> (\<forall>t. reader_at s t) \<and>
     (\<forall>y \<in> set (rs_results s). read_right content fs y)"

lemma readers_ok_change:
  assumes ok: "readers_ok fs w s" and "t \<noteq> DAEMON" and "rs_pc s' = (rs_pc s)(t := pc)"
    and "conc_reachable op (\<lambda>i. serves i \<and> name_ok i) w (rs_conc s')" and "node s' = node s" and "reader_at s' t"
    and "\<And>u. u \<noteq> t \<Longrightarrow> cc_drv (rs_conc s') u = cc_drv (rs_conc s) u"
    and "\<And>u. u \<noteq> t \<Longrightarrow> of_thread u (cc_called (rs_conc s')) = of_thread u (cc_called (rs_conc s))"
    and "\<And>y. y \<in> set (rs_results s') \<Longrightarrow> y \<in> set (rs_results s) \<or> read_right content fs y"
  shows "readers_ok fs w s'"
proof -
  have "reader_at s' u" for u
  proof (cases "u = t")
    case False
    show ?thesis by (rule reader_at_frame [of s]) (use ok assms(3,5,7,8) False in \<open>auto simp: readers_ok_def\<close>)
  qed (use assms(6) in simp)
  moreover have "\<forall>y \<in> set (rs_results s'). read_right content fs y" using ok assms(9) unfolding readers_ok_def by blast
  moreover have "finite {u. rs_pc s' u \<noteq> NotReading}"
    unfolding assms(3) using ok by (intro card_threads_upd(1)) (simp add: readers_ok_def)
  ultimately show ?thesis using ok assms(2-5) unfolding readers_ok_def by auto
qed

lemma readers_ok_start: "readers_ok fs w (readers_start fs w)"
proof -
  have "cc_drv (conc_start w) t = Outside" for t by (simp add: conc_start_def)
  then show ?thesis by (auto simp: readers_ok_def readers_start_def node_def reader_at_def intro: conc_init)
qed

lemma readers_ok_ask:
  assumes ok: "readers_ok fs w s" and t: "t \<noteq> DAEMON" "cc_drv (rs_conc s) t = Outside" and i: "serves i" "name_ok i"
    and pc: "reader_at (ask i pc t s) t"
  shows "readers_ok fs w (ask i pc t s)"
proof (rule readers_ok_change [OF ok t(1) _ _ _ pc])
  show "conc_reachable op (\<lambda>i. serves i \<and> name_ok i) w (rs_conc (ask i pc t s))"
    using ok t i by (auto simp: readers_ok_def ask_def intro: conc_calls)
qed (auto simp: ask_def of_thread_def)

lemma readers_ok_return:
  assumes ok: "readers_ok fs w s" and t: "t \<noteq> DAEMON" "cc_drv (rs_conc s) t = Outside" and r: "read_right content fs (t, x, res, parts)"
  shows "readers_ok fs w (read_returns t x res parts s)"
  by (rule readers_ok_change [OF ok t(1)])
    (use ok t(2) r in \<open>auto simp: reader_at_def readers_ok_def\<close>, auto simp: read_returns_def)

lemma readers_ok_begin:
  assumes ok: "readers_ok fs w s" and t: "t \<noteq> DAEMON" "rs_pc s t = NotReading" and f: "rs_files s f \<noteq> None"
    and off: "0 \<le>s off" "sum_list (map unat iov) < 2 ^ 32" and fs: "\<forall>f ff. fs f = Some ff \<longrightarrow> content (ff_nodeid ff) \<noteq> None"
  shows "readers_ok fs w (read_begins f iov off t s)"
proof -
  obtain ff where ff: "rs_files s f = Some ff" using f by blast
  then have n: "node s f = Some (ff_nodeid ff)" by (simp add: node_def)
  have o: "cc_drv (rs_conc s) t = Outside" using ok t(2) by (auto simp: readers_ok_def reader_at_def Let_def split: reading.splits)
  obtain ff0 where "fs f = Some ff0" "ff_nodeid ff0 = ff_nodeid ff" using ok n by (auto simp: readers_ok_def)
  then have "content (ff_nodeid ff) \<noteq> None" using fs by metis
  then have "serves (In_open (ff_nodeid ff) 0)" using opens by blast
  moreover have "name_ok (In_open (ff_nodeid ff) 0)" by simp
  moreover have "reader_at (ask (In_open (ff_nodeid ff) 0) (Opening f iov off) t s) t"
    using n off by (auto simp: reader_at_def) (auto simp: ask_def of_thread_def)
  ultimately have "readers_ok fs w (ask (In_open (ff_nodeid ff) 0) (Opening f iov off) t s)" by (rule readers_ok_ask [OF ok t(1) o])
  moreover have "readers_ok fs w (s\<lparr>rs_pc := (rs_pc s)(t := Checked f iov off)\<rparr>)"
    by (rule readers_ok_change [OF ok t(1)]) (use ok n o off in \<open>auto simp: readers_ok_def reader_at_def\<close>)
  ultimately show ?thesis by (simp add: read_begins_def ff)
qed

lemma reader_tid: "readers_ok fs w s \<Longrightarrow> rs_pc s t \<noteq> NotReading \<Longrightarrow> t \<noteq> DAEMON"
  by (auto simp: readers_ok_def)

lemma node_file:
  assumes "readers_ok fs w s" and "node s f \<noteq> None" and "\<forall>f ff. fs f = Some ff \<longrightarrow> content (ff_nodeid ff) \<noteq> None"
  obtains ff ff0 bs where "rs_files s f = Some ff" "node s f = Some (ff_nodeid ff)" "fs f = Some ff0" "ff_nodeid ff0 = ff_nodeid ff"
    "content (ff_nodeid ff) = Some bs"
proof -
  obtain ff where ff: "rs_files s f = Some ff" "node s f = Some (ff_nodeid ff)" using assms(2) by (auto simp: node_def)
  then obtain ff0 where ff0: "fs f = Some ff0" "ff_nodeid ff0 = ff_nodeid ff" using assms(1) by (auto simp: readers_ok_def)
  then obtain bs where "content (ff_nodeid ff) = Some bs" using assms(3) by (metis not_None_eq)
  then show thesis using that ff ff0 by blast
qed

lemma read_step_ok:
  assumes ok: "readers_ok fs w s" and w: "ready w" and fs: "\<forall>f ff. fs f = Some ff \<longrightarrow> content (ff_nodeid ff) \<noteq> None"
    and step: "read_step op s s'"
  shows "readers_ok fs w s'"
  using step
proof cases
  case (call_works c)
  have "conc_reachable op (\<lambda>i. serves i \<and> name_ok i) w c" using ok call_works(2) by (auto simp: readers_ok_def intro: conc_works)
  moreover have "reader_at s' t" for t
    by (rule reader_at_frame [of s])
      (use ok call_works work_keeps_outside [OF call_works(2)] work_called [OF call_works(2)] in \<open>auto simp: readers_ok_def\<close>)
  ultimately show ?thesis using ok call_works(1) by (auto simp: readers_ok_def)
next
  case (open_returns t f iov off)
  have "reader_at s t" using ok by (simp add: readers_ok_def)
  then obtain xs where r: "node s f \<noteq> None" "0 \<le>s off" "sum_list (map unat iov) < 2 ^ 32"
    "of_thread t (cc_called (rs_conc s)) = xs @ [In_open (the (node s f)) 0]" by (auto simp: reader_at_def open_returns(2))
  obtain ff bs where ff: "rs_files s f = Some ff" "node s f = Some (ff_nodeid ff)" "content (ff_nodeid ff) = Some bs"
    using node_file [OF ok r(1) fs] by metis
  have "answer (In_open (ff_nodeid ff) 0) (plat w) (fsmem w) =
      (ur_error (answered t s), ur_reply_data (answered t s), ur_reply_len (answered t s), fsmem w)"
    unfolding answered_def using ok r(4) ff(2) by (intro last_answer [OF _ w open_returns(3)]) (auto simp: readers_ok_def)
  then obtain out where a: "ur_error (answered t s) = 0" "ur_reply_data (answered t s) = ROpen out"
    using opens [OF ff(3), of "plat w" "fsmem w"] by auto
  have s': "s' = s\<lparr>rs_files := (rs_files s)(f \<mapsto> ff\<lparr>ff_fh := oo_fh out\<rparr>), rs_pc := (rs_pc s)(t := Checked f iov off)\<rparr>"
    by (simp add: open_returns(1) read_opened_def a ff(1))
  have n: "node s' = node s" by (auto simp: s' node_def fun_eq_iff ff(1))
  show ?thesis
  proof (rule readers_ok_change [OF ok])
    show "reader_at s' t" using r n open_returns(3) by (simp add: reader_at_def s')
  qed (use ok n reader_tid [OF ok, of t] open_returns(2) in \<open>auto simp: s' readers_ok_def\<close>)
next
  case (data_asked t f iov off)
  have "reader_at s t" using ok by (simp add: readers_ok_def)
  then have r: "node s f \<noteq> None" "0 \<le>s off" "sum_list (map unat iov) < 2 ^ 32" "cc_drv (rs_conc s) t = Outside"
    by (auto simp: reader_at_def data_asked(2))
  obtain ff ff0 bs where ff: "rs_files s f = Some ff" "node s f = Some (ff_nodeid ff)" "fs f = Some ff0" "ff_nodeid ff0 = ff_nodeid ff"
    "content (ff_nodeid ff) = Some bs" by (rule node_file [OF ok r(1) fs])
  have t: "t \<noteq> DAEMON" using reader_tid [OF ok] data_asked(2) by simp
  show ?thesis
  proof (cases "iov_total iov = 0")
    case True
    then have "sum_list (map unat iov) = 0" using unat_iov_total [of iov] r(3) by simp
    then have "read_right content fs (t, (f, iov, off), 0, [])" using ff by (simp add: read_right_def)
    then show ?thesis using readers_ok_return [OF ok t r(4)] True by (simp add: data_asked(1) read_asks_def)
  next
    case False
    have "reader_at s' t" using False r ff(2) by (auto simp: data_asked(1) read_asks_def Let_def ff(1) reader_at_def) (auto simp: ask_def of_thread_def)
    moreover have "serves (In_read (ff_nodeid ff) (ff_fh ff) off (ucast (iov_total iov)))" using reads [OF ff(5) r(2)] by blast
    ultimately show ?thesis using readers_ok_ask [OF ok t r(4)] False by (simp add: data_asked(1) read_asks_def Let_def ff(1))
  qed
next
  case (data_returns t f iov off)
  have "reader_at s t" using ok by (simp add: readers_ok_def)
  then obtain xs fh where r: "node s f \<noteq> None" "0 \<le>s off" "sum_list (map unat iov) < 2 ^ 32"
    "of_thread t (cc_called (rs_conc s)) = xs @ [In_read (the (node s f)) fh off (ucast (iov_total iov))]"
    by (auto simp: reader_at_def data_returns(2))
  obtain ff ff0 bs where ff: "rs_files s f = Some ff" "node s f = Some (ff_nodeid ff)" "fs f = Some ff0" "ff_nodeid ff0 = ff_nodeid ff"
    "content (ff_nodeid ff) = Some bs" by (rule node_file [OF ok r(1) fs])
  let ?b = "window bs off (ucast (iov_total iov))" let ?parts = "scatter (map unat iov) ?b"
  have "answer (In_read (ff_nodeid ff) fh off (ucast (iov_total iov))) (plat w) (fsmem w) =
      (ur_error (answered t s), ur_reply_data (answered t s), ur_reply_len (answered t s), fsmem w)"
    unfolding answered_def using ok r(4) ff(2) by (intro last_answer [OF _ w data_returns(3)]) (auto simp: readers_ok_def)
  then have a: "ur_error (answered t s) = 0" "ur_reply_data (answered t s) = RBytes ?b" "ur_reply_len (answered t s) = length ?b"
    using reads [OF ff(5) r(2), of fh "ucast (iov_total iov)" "plat w" "fsmem w"] by simp_all
  have "unat (ucast (iov_total iov) :: u32) = sum_list (map unat iov)"
    using unat_iov_total [of iov] r(3) by (simp add: unsigned_ucast_eq take_bit_nat_eq_self)
  then have "read_right content fs (t, (f, iov, off), int (length (concat ?parts)), ?parts)"
    using ff scatter_fits [of "map unat iov" ?b] by (auto simp: read_right_def concat_scatter window_def)
  then show ?thesis using readers_ok_return [OF ok _ data_returns(3)] reader_tid [OF ok, of t] data_returns(2)
    by (simp add: data_returns(1) read_answered_def a Let_def)
qed

lemma readers_reachable_ok:
  assumes "readers_reachable op fs w s" and "ready w" and "\<forall>f ff. fs f = Some ff \<longrightarrow> content (ff_nodeid ff) \<noteq> None"
  shows "readers_ok fs w s"
  using assms(1)
proof induction
  case readers_init
  show ?case by (rule readers_ok_start)
next
  case (readers_begin s t f off iov)
  show ?case by (rule readers_ok_begin [OF readers_begin.IH readers_begin.hyps(2-6) assms(3)])
next
  case (readers_work s s')
  show ?case by (rule read_step_ok [OF readers_work.IH assms(2,3) readers_work.hyps(2)])
qed

lemma readers_ok_conc: "readers_ok fs w s \<Longrightarrow> ready w \<Longrightarrow> conc_ok serves answer w (rs_conc s)"
  using conc_reachable_ok by (simp add: readers_ok_def)

lemma readers_ok_no_fault: "readers_ok fs w s \<Longrightarrow> ready w \<Longrightarrow> fault (cc_w (rs_conc s)) = None"
  using readers_ok_conc by (simp add: conc_ok_def ready_def)

section \<open>Reads return\<close>

lemma read_progress:
  assumes ok: "readers_ok fs w s" and w: "ready w" and t: "rs_pc s t \<noteq> NotReading"
  shows "\<exists>s'. read_step op s s'"
proof (cases "cc_drv (rs_conc s) t = Outside")
  case True
  then show ?thesis using t by (cases "rs_pc s t") (blast intro: read_step.intros)+
next
  case False
  then show ?thesis using conc_progress [OF readers_ok_conc [OF ok w]] call_works by blast
qed

lemma read_decreases:
  assumes ok: "readers_ok fs w s" and w: "ready w" and fs: "\<forall>f ff. fs f = Some ff \<longrightarrow> content (ff_nodeid ff) \<noteq> None"
    and step: "read_step op s s'"
  shows "reads_left s' < reads_left s"
proof -
  have th: "threads_ok (rs_conc s)" using readers_ok_conc [OF ok w] by (simp add: conc_ok_def)
  have nf: "s' \<noteq> read_fault e s" for e
    using readers_ok_no_fault [OF read_step_ok [OF ok w fs step] w] readers_ok_no_fault [OF ok w] by (auto simp: read_fault_def raise_fault_def)
  have fin: "finite {t. rs_pc s t \<noteq> NotReading}" using ok by (simp add: readers_ok_def)
  from step show ?thesis
  proof cases
    case (call_works c)
    then show ?thesis using work_decreases [OF th call_works(2)] by (simp add: reads_left_def)
  next
    case (open_returns t f iov off)
    then show ?thesis using read_opened_leads [of f iov off t s] nf by (auto intro: reads_left_move [OF fin])
  next
    case (data_asked t f iov off)
    then have o: "cc_drv (rs_conc s) t = Outside" using ok by (auto simp: readers_ok_def reader_at_def Let_def dest: spec [of _ t])
    show ?thesis using read_asks_leads [of f iov off t s] nf data_asked reads_left_ask [OF fin th _ o] reader_tid [OF ok, of t]
      by (auto intro: reads_left_move [OF fin])
  next
    case (data_returns t f iov off)
    then show ?thesis using read_answered_leads [of f iov off t s] nf by (auto intro: reads_left_move [OF fin])
  qed
qed

lemma reads_left_bound:
  assumes ok: "readers_ok fs w s" and w: "ready w"
  shows "reads_left s \<le> 34 * card {t. rs_pc s t \<noteq> NotReading} + 7"
proof -
  let ?T = "{t. rs_pc s t \<noteq> NotReading}" and ?D = "{t. cc_drv (rs_conc s) t \<noteq> Outside}"
  have fin: "finite ?T" using ok by (simp add: readers_ok_def)
  have "?D \<subseteq> ?T"
  proof
    fix t assume t: "t \<in> ?D"
    have "reader_at s t" using ok by (simp add: readers_ok_def)
    then show "t \<in> ?T" using t by (auto simp: reader_at_def)
  qed
  then have "card ?D \<le> card ?T" by (rule card_mono [OF fin])
  moreover have "work_left (rs_conc s) \<le> 19 * card ?D + 7"
    using readers_ok_conc [OF ok w] by (auto simp: conc_ok_def intro: work_left_bound)
  moreover have "sum_all (\<lambda>t. read_steps (rs_pc s t)) \<le> sum (\<lambda>t. read_steps (rs_pc s t)) ?T"
    unfolding sum_all_def by (rule sum_mono2 [OF fin]) auto
  moreover have "sum (\<lambda>t. read_steps (rs_pc s t)) ?T \<le> card ?T * 15"
    using sum_bounded_above [of ?T "\<lambda>t. read_steps (rs_pc s t)" 15] read_steps_le by simp
  ultimately show ?thesis by (simp add: reads_left_def)
qed

lemma read_run:
  assumes "(read_step op ^^ n) s s'" and "readers_ok fs w s" and "ready w" and "\<forall>f ff. fs f = Some ff \<longrightarrow> content (ff_nodeid ff) \<noteq> None"
  shows "readers_ok fs w s' \<and> n + reads_left s' \<le> reads_left s"
  using assms(1)
proof (induction n arbitrary: s')
  case 0
  then show ?case using assms(2) by simp
next
  case (Suc n)
  then obtain v where v: "(read_step op ^^ n) s v" "read_step op v s'" by auto
  then have ok: "readers_ok fs w v" "n + reads_left v \<le> reads_left s" using Suc.IH by auto
  then show ?case using read_decreases [OF ok(1) assms(3,4) v(2)] read_step_ok [OF ok(1) assms(3,4) v(2)] by simp
qed

lemma read_run_returns:
  assumes ok: "readers_ok fs w s" and w: "ready w" and fs: "\<forall>f ff. fs f = Some ff \<longrightarrow> content (ff_nodeid ff) \<noteq> None"
    and run: "(read_step op ^^ n) s s'"
  shows "n \<le> 34 * card {t. rs_pc s t \<noteq> NotReading} + 7" and "(\<nexists>s''. read_step op s' s'') \<Longrightarrow> rs_pc s' t = NotReading"
proof -
  note r = read_run [OF run ok w fs]
  show "n \<le> 34 * card {t. rs_pc s t \<noteq> NotReading} + 7" using r reads_left_bound [OF ok w] by simp
  show "rs_pc s' t = NotReading" if "\<nexists>s''. read_step op s' s''" using read_progress r w that by blast
qed

lemma maximal_reads:
  assumes "readers_ok fs w s" and w: "ready w" and fs: "\<forall>f ff. fs f = Some ff \<longrightarrow> content (ff_nodeid ff) \<noteq> None"
  shows "\<exists>n s'. (read_step op ^^ n) s s' \<and> (\<nexists>s''. read_step op s' s'')"
  using assms(1)
proof (induction "reads_left s" arbitrary: s rule: less_induct)
  case less
  show ?case
  proof (cases "\<exists>v. read_step op s v")
    case True
    then obtain v where v: "read_step op s v" ..
    then obtain n s' where "(read_step op ^^ n) v s'" "\<nexists>s''. read_step op s' s''"
      using less.hyps [OF read_decreases [OF less.prems w fs v] read_step_ok [OF less.prems w fs v]] by blast
    with v have "(read_step op ^^ Suc n) s s'" by (metis relpowp_Suc_I2)
    with \<open>\<nexists>s''. read_step op s' s''\<close> show ?thesis by blast
  next
    case False
    then show ?thesis by (intro exI [of _ 0] exI [of _ s]) simp
  qed
qed

lemma read_run_results:
  assumes ok: "readers_ok fs w s" and w: "ready w" and fs: "\<forall>f ff. fs f = Some ff \<longrightarrow> content (ff_nodeid ff) \<noteq> None"
    and run: "(read_step op ^^ n) s s'" and stuck: "\<nexists>s''. read_step op s' s''" and x: "read_of (rs_pc s t) = Some x"
  shows "\<exists>res parts. (t, x, res, parts) \<in> set (rs_results s') \<and> read_right content fs (t, x, res, parts)"
proof -
  have "rs_pc s' t = NotReading" by (rule read_run_returns(2) [OF ok w fs run stuck])
  then have "has_result t x s'" using read_run_keeps [OF run, of t x] x by simp
  moreover have "\<forall>y \<in> set (rs_results s'). read_right content fs y" using read_run [OF run ok w fs] by (simp add: readers_ok_def)
  ultimately show ?thesis unfolding has_result_def by blast
qed

end

section \<open>Properties\<close>

text \<open>\<^bold>\<open>C3\<close> Any number of threads read files of the driver at the same time, each from an offset that is not negative and into
  buffers of together less than 4 GiB, and may find a file not opened and open it together, in every interleaving of their steps with
  each other and with the daemon. When all files of the driver are regular files of the test file system, and the world is ready at the
  start (initialised, no fault, an allocator that does not fail): no fault occurs, and every read that has returned gave the
  bytes of its file from its offset on, in its buffers in order, with their number as the result.\<close>

theorem concurrent_reads_right:
  assumes "readers_reachable hello_ll_oper fs w s" and "ready w" and "\<forall>f ff. fs f = Some ff \<longrightarrow> hello_content (ff_nodeid ff) \<noteq> None"
  shows "fault (cc_w (rs_conc s)) = None \<and> (\<forall>y \<in> set (rs_results s). read_right hello_content fs y)"
proof -
  have ok: "hello_files.readers_ok fs w s" by (rule hello_files.readers_reachable_ok [OF assms])
  then show ?thesis using hello_files.readers_ok_no_fault [OF ok assms(2)] by (simp add: hello_files.readers_ok_def)
qed

text \<open>\<^bold>\<open>C4\<close> Reads return, also when their threads open the same file together, for offsets that are not
  negative, less than 4 GiB for each read, regular files only and an allocator that does not fail: with \<open>k\<close> reads under way the threads make at most
  34 k + 7 steps, and when no step is left every one of the reads has returned, with the bytes of its file.\<close>

theorem concurrent_reads_return:
  assumes "readers_reachable hello_ll_oper fs w s" and "ready w" and "\<forall>f ff. fs f = Some ff \<longrightarrow> hello_content (ff_nodeid ff) \<noteq> None"
    and "(read_step hello_ll_oper ^^ n) s s'"
  shows "n \<le> 34 * card {t. rs_pc s t \<noteq> NotReading} + 7 \<and>
    ((\<nexists>s''. read_step hello_ll_oper s' s'') \<longrightarrow> (\<forall>t x. read_of (rs_pc s t) = Some x \<longrightarrow>
       (\<exists>res parts. (t, x, res, parts) \<in> set (rs_results s') \<and> read_right hello_content fs (t, x, res, parts))))"
proof -
  note ok = hello_files.readers_reachable_ok [OF assms(1-3)]
  show ?thesis using hello_files.read_run_returns(1) [OF ok assms(2-4)] hello_files.read_run_results [OF ok assms(2-4)] by blast
qed

text \<open>Two threads find the same file not opened.\<close>

definition demo_files :: "addr \<rightharpoonup> fusefs_file" where
  "demo_files = [11 \<mapsto> \<lparr>ff_nodeid = 2, ff_fh = FH_NONE, ff_upref = None\<rparr>]"

definition demo_readers :: "unit readers" where
  "demo_readers = read_begins 11 [3, 5] 6 2 (read_begins 11 [5] 0 1 (readers_start demo_files demo_world))"

lemma demo_readers:
  "readers_reachable hello_ll_oper demo_files demo_world demo_readers" "ready demo_world"
  "\<forall>f ff. demo_files f = Some ff \<longrightarrow> hello_content (ff_nodeid ff) \<noteq> None"
  "rs_pc demo_readers = (\<lambda>_. NotReading)(1 := Opening 11 [5] 0, 2 := Opening 11 [3, 5] 6)"
proof -
  have b: "read_begins 11 iov off t s = ask (In_open 2 0) (Opening 11 iov off) t s" if "rs_files s = demo_files"
    for iov off t and s :: "unit readers" using that by (simp add: read_begins_def demo_files_def)
  have f: "rs_files (readers_start demo_files w) = demo_files" "rs_files (ask i pc t s) = rs_files s"
    "rs_pc (readers_start demo_files w) = (\<lambda>_. NotReading)" for w i pc t and s :: "unit readers" by (simp_all add: readers_start_def ask_def)
  show "readers_reachable hello_ll_oper demo_files demo_world demo_readers"
    unfolding demo_readers_def
    by (intro readers_begin readers_init) (simp_all add: b f, simp_all add: demo_files_def DAEMON_def word_sle_eq)
  show "rs_pc demo_readers = (\<lambda>_. NotReading)(1 := Opening 11 [5] 0, 2 := Opening 11 [3, 5] 6)"
    by (simp add: demo_readers_def b f)
qed (simp_all add: demo_world_ready demo_files_def hello_content_def)

theorem concurrent_reads_return_witness:
  "\<exists>n s' parts. n \<le> 75 \<and> (read_step hello_ll_oper ^^ n) demo_readers s' \<and>
     (2, (11, [3, 5], 6), 7, parts) \<in> set (rs_results s') \<and> concat parts = drop 6 hello_str"
proof -
  note d = demo_readers(1-3)
  obtain n s' where r: "(read_step hello_ll_oper ^^ n) demo_readers s'" "\<nexists>s''. read_step hello_ll_oper s' s''"
    using hello_files.maximal_reads [OF hello_files.readers_reachable_ok [OF d] d(2,3)] by blast
  have c: "{t. rs_pc demo_readers t \<noteq> NotReading} = {1, 2}" "read_of (rs_pc demo_readers 2) = Some (11, [3, 5], 6)"
    by (auto simp: demo_readers(4))
  note p = concurrent_reads_return [OF d r(1)]
  obtain res parts where q: "(2, (11, [3, 5], 6), res, parts) \<in> set (rs_results s')"
    "read_right hello_content demo_files (2, (11, [3, 5], 6), res, parts)" using p r(2) c(2) by blast
  then have "concat parts = take 8 (drop 6 hello_str)" "res = int (length (concat parts))"
    by (auto simp: read_right_def demo_files_def hello_content_def)
  then have "concat parts = drop 6 hello_str" "res = 7" by (simp_all add: hello_str_def bytes_of_def)
  then show ?thesis using q(1) r(1) p c(1) by (intro exI [of _ n] exI [of _ s'] exI [of _ parts]) simp
qed

theorem concurrent_reads_right_witness:
  "\<exists>s parts. readers_reachable hello_ll_oper demo_files demo_world s \<and> (1, (11, [5], 0), 5, parts) \<in> set (rs_results s) \<and>
     concat parts = take 5 hello_str"
proof -
  note d = demo_readers(1-3)
  note ok = hello_files.readers_reachable_ok [OF d]
  obtain n s where r: "(read_step hello_ll_oper ^^ n) demo_readers s" "\<nexists>s''. read_step hello_ll_oper s s''"
    using hello_files.maximal_reads [OF ok d(2,3)] by blast
  have s: "readers_reachable hello_ll_oper demo_files demo_world s" by (rule read_run_reachable [OF r(1) d(1)])
  have "rs_pc s 1 = NotReading" by (rule hello_files.read_run_returns(2) [OF ok d(2,3) r])
  then obtain res parts where q: "(1, (11, [5], 0), res, parts) \<in> set (rs_results s)"
    using read_run_keeps [OF r(1), of 1 "(11, [5], 0)"] by (auto simp: demo_readers(4) has_result_def)
  then have "read_right hello_content demo_files (1, (11, [5], 0), res, parts)" using concurrent_reads_right [OF s d(2,3)] by blast
  then have c: "concat parts = take 5 hello_str" "res = int (length (concat parts))"
    by (auto simp: read_right_def demo_files_def hello_content_def)
  then have "res = 5" by (simp add: hello_str_def bytes_of_def)
  then show ?thesis using s q c(1) by blast
qed

end
