(* ===== verification/Fuse_Typed.thy ===== *)
theory Fuse_Typed
  imports Hello_Perf
begin

text \<open>
  The types of answers. The driver and the daemon share an untyped pointer, \<^verbatim>\<open>reply_data\<close>: the library's reply functions
  store a structure or bytes behind it, and the driver reads what its opcode calls for. Here is what each opcode calls for, a
  contract for file systems that reply accordingly (the locale \<open>typed_ops\<close>), and that the daemon then leaves only well-typed
  answers behind; both file systems of the applications meet the contract.
\<close>

text \<open>What the driver reads for each kind of request, with its length; bytes never exceed what was asked for.\<close>

fun reply_typed :: "ukfs_in \<Rightarrow> reply_data \<Rightarrow> nat \<Rightarrow> platform \<Rightarrow> bool" where
  "reply_typed (In_lookup parent name) (REntry e) n pl \<longleftrightarrow> n = sizeof_entry_param pl"
| "reply_typed (In_getattr ino) (RStat a) n pl \<longleftrightarrow> n = sizeof_stat pl"
| "reply_typed (In_open ino flags) (ROpen out) n pl \<longleftrightarrow> n = 16"
| "reply_typed (In_read ino fh off sz) (RBytes bs) n pl \<longleftrightarrow> n = length bs \<and> n \<le> unat sz"
| "reply_typed (In_readdir ino fh off sz) (RBytes bs) n pl \<longleftrightarrow> n = length bs \<and> n \<le> unat sz"
| "reply_typed _ _ n pl \<longleftrightarrow> False"

definition answer_typed :: "ukfs_in \<Rightarrow> int \<Rightarrow> reply_data \<Rightarrow> nat \<Rightarrow> platform \<Rightarrow> bool" where
  "answer_typed i e d n pl \<longleftrightarrow> (if e = 0 then reply_typed i d n pl else e < 0 \<and> d = RNull \<and> n = 0)"

locale typed_ops = replying_ops op serves answer
  for op :: "'u fuse_lowlevel_ops" and serves :: "ukfs_in \<Rightarrow> bool" and answer :: "'u answer_fun" +
  assumes answers_typed: "answer i pl m = (e, d, n, m') \<Longrightarrow> answer_typed i e d n pl"
begin

definition typed_at :: "platform \<Rightarrow> (addr \<rightharpoonup> fuse_ukfs_request) \<Rightarrow> addr \<Rightarrow> bool" where
  "typed_at pl us p \<longleftrightarrow> (\<exists>q. us p = Some q \<and> answer_typed (ur_in q) (ur_error q) (ur_reply_data q) (ur_reply_len q) pl)"

lemma serve_all_typed:
  assumes "\<forall>p \<in> set ps. us p \<noteq> None" and "\<forall>p \<in> D. typed_at pl us p" and "p \<in> D \<union> set ps"
  shows "typed_at pl (fst (serve_all answer pl ps (us, m))) p"
  using assms
proof (induction ps arbitrary: us m D)
  case (Cons a ps)
  obtain e d n m' where ans: "answer (ur_in (the (us a))) pl m = (e, d, n, m')" by (metis prod_cases4)
  let ?us = "us(a \<mapsto> set_answer e d n (the (us a)))"
  have "typed_at pl ?us a" using answers_typed [OF ans] by (simp add: typed_at_def set_answer_def)
  then have "\<forall>p \<in> insert a D. typed_at pl ?us p" using Cons.prems(2) by (auto simp: typed_at_def)
  moreover have "\<forall>p \<in> set ps. ?us p \<noteq> None" using Cons.prems(1) by simp
  moreover have "p \<in> insert a D \<union> set ps" using Cons.prems(3) by simp
  ultimately have "typed_at pl (fst (serve_all answer pl ps (?us, m'))) p" by (intro Cons.IH)
  then show ?case by (simp add: ans)
qed simp

lemma answers_left_typed:
  assumes "serving serves s ps" and "p \<in> set ps"
  shows "typed_at (plat (ds_w s)) (ukfs (ds_w (daemon_run op (length ps) s))) p \<and> fault (ds_w (daemon_run op (length ps) s)) = None"
proof -
  note r = daemon_serves_queue [OF assms(1)]
  have "\<forall>p \<in> set ps. ukfs (ds_w s) p \<noteq> None" using assms(1) by (auto simp: serving_def)
  then have "typed_at (plat (ds_w s)) (fst (serve_all answer (plat (ds_w s)) ps (ukfs (ds_w s), fsmem (ds_w s)))) p"
    using assms(2) by (intro serve_all_typed [where D = "{}"]) auto
  then show ?thesis using r by (simp add: serving_def ready_def) (metis fst_conv)
qed

end

lemma window_length: "length (window bs off sz) \<le> unat sz"
  by (simp add: window_def)

interpretation hello_typed: typed_ops "hello_ll_oper :: 'u fuse_lowlevel_ops" hello_serves hello_answer
proof unfold_locales
  fix i pl e d n and m m' :: 'u
  assume "hello_answer i pl m = (e, d, n, m')"
  then show "answer_typed i e d n pl" by (cases i) (auto simp: answer_typed_def window_length split: if_splits)
qed

interpretation perf_typed: typed_ops "perf_oper :: 'u fuse_lowlevel_ops" perf_serves perf_answer
proof unfold_locales
  fix i pl e d n and m m' :: 'u
  assume "perf_answer i pl m = (e, d, n, m')"
  then show "answer_typed i e d n pl" by (cases i) (auto simp: answer_typed_def window_length split: if_splits option.splits)
qed

text \<open>\<^bold>\<open>C11\<close> Type safety of the answers: when the daemon has served a queue of requests, each of them has an answer of the type
  that the driver reads for it, an entry for a lookup, attributes, an open file, or bytes whose length is the reported one
  and not more than was asked for; an error is negative and comes without data. No fault has occurred.\<close>

theorem daemon_answers_typed:
  fixes s :: "'u daemon_state"
  assumes "serving hello_serves s ps \<and> op = hello_ll_oper \<or> serving perf_serves s ps \<and> op = perf_oper" and "p \<in> set ps"
  shows "\<exists>q. ukfs (ds_w (daemon_run op (length ps) s)) p = Some q \<and>
      answer_typed (ur_in q) (ur_error q) (ur_reply_data q) (ur_reply_len q) (plat (ds_w s)) \<and>
      fault (ds_w (daemon_run op (length ps) s)) = None"
  using assms(1)
proof
  assume "serving hello_serves s ps \<and> op = hello_ll_oper"
  then show ?thesis using hello_typed.answers_left_typed [of s ps p] assms(2) by (auto simp: hello_typed.typed_at_def)
next
  assume "serving perf_serves s ps \<and> op = perf_oper"
  then show ?thesis using perf_typed.answers_left_typed [of s ps p] assms(2) by (auto simp: perf_typed.typed_at_def)
qed

theorem daemon_answers_typed_witness:
  defines "q \<equiv> fresh_request FUSE_UKFS_READ 1 (In_read 2 0 0 5)"
  defines "s \<equiv> \<lparr>ds_q = fuse_ukfs_queue_push fuse_ukfs_queue_init 3, ds_buf = replicate 8192 0, ds_w = demo_world\<lparr>ukfs := [3 \<mapsto> q]\<rparr>\<rparr>"
  shows "\<exists>q. ukfs (ds_w (daemon_run hello_ll_oper 1 s)) 3 = Some q \<and>
      answer_typed (ur_in q) (ur_error q) (ur_reply_data q) (ur_reply_len q) demo_platform"
proof -
  have "wf_world (ds_w s) [] []"
    using wf_session_new [OF demo_world_new] unfolding s_def by (subst wf_world_cong [of _ demo_world]) auto
  then have "ready (ds_w s)" using demo_world_ready by (simp add: ready_def s_def)
  then have "serving hello_serves s [3]"
    by (simp add: serving_def s_def q_def fresh_request_def wf_request_def fuse_ukfs_queue_push_def
        fuse_ukfs_queue_init_def queue_ok_def word_sle_eq)
  then show ?thesis using daemon_answers_typed [of s "[3]" hello_ll_oper 3] by (auto simp: s_def demo_world_simps)
qed

end
