(* ===== verification/Fuse_Opt.thy ===== *)
theory Fuse_Opt
  imports Fuse_Prelude "HOL-Library.Monad_Syntax"
begin

text \<open>
  The option parser (\<^verbatim>\<open>libs/libfuse/lib/fuse_opt.c\<close>, \<^verbatim>\<open>include/fuse/fuse_opt.h\<close>): argument vectors,
  option strings with their escapes, templates, and the parser that hands options to a table of
  variables or to the caller's processing function.

  A C string is a \<^typ>\<open>string\<close> without NUL; the option group that the parser rewrites in place is a
  block of characters with its NUL. The memory behind \<^verbatim>\<open>data + offset\<close> is a typed field of the caller's
  structure. Every function returns the code's result and the changed objects; \<open>None\<close> stands for a
  failed assertion or an undefined access. \<^verbatim>\<open>malloc\<close>, \<^verbatim>\<open>realloc\<close> and \<^verbatim>\<open>strdup\<close> share one counter: the \<open>n\<close>-th
  allocation succeeds or not as \<open>oe_alloc\<close> says. \<^verbatim>\<open>sscanf\<close> with a format of one integer conversion is
  \<open>oe_scanf\<close>, and the caller's processing function is a parameter as well.
\<close>

section \<open>Data\<close>

abbreviation NUL :: char where "NUL \<equiv> CHR 0x00"
abbreviation BSLASH :: char where "BSLASH \<equiv> CHR 0x5C"
abbreviation COMMA :: char where "COMMA \<equiv> CHR '',''"

record fuse_args =
  fa_argc :: nat
  fa_argv :: "string list option"
  fa_allocated :: bool

text \<open>What an offset into the caller's structure designates: nothing (\<^verbatim>\<open>-1U\<close>), a field of type \<^verbatim>\<open>int\<close> or
  \<^verbatim>\<open>unsigned\<close>, or a field of type \<^verbatim>\<open>char *\<close>; given by the update of that field.\<close>

datatype 'd opt_slot = NoSlot | IntField "u32 \<Rightarrow> 'd \<Rightarrow> 'd" | StrField "string \<Rightarrow> 'd \<Rightarrow> 'd"

record 'd fuse_opt =
  op_templ :: string
  op_offset :: "'d opt_slot"
  op_value :: int

abbreviation FUSE_OPT_KEY_OPT :: int where "FUSE_OPT_KEY_OPT \<equiv> - 1"
abbreviation FUSE_OPT_KEY_NONOPT :: int where "FUSE_OPT_KEY_NONOPT \<equiv> - 2"
abbreviation FUSE_OPT_KEY_KEEP :: int where "FUSE_OPT_KEY_KEEP \<equiv> - 3"
abbreviation FUSE_OPT_KEY_DISCARD :: int where "FUSE_OPT_KEY_DISCARD \<equiv> - 4"

definition FUSE_OPT_KEY :: "string \<Rightarrow> int \<Rightarrow> 'd fuse_opt" where
  "FUSE_OPT_KEY templ key = \<lparr>op_templ = templ, op_offset = NoSlot, op_value = key\<rparr>"

record opt_env =
  oe_alloc :: "nat \<Rightarrow> bool"
  oe_scanf :: "string \<Rightarrow> string \<Rightarrow> u32 option"

type_synonym 'd fuse_opt_proc_t = "'d \<Rightarrow> string \<Rightarrow> int \<Rightarrow> fuse_args \<Rightarrow> nat \<Rightarrow> (int \<times> 'd \<times> fuse_args \<times> nat) option"

record 'd fuse_opt_context =
  cx_data :: 'd
  cx_opt :: "'d fuse_opt list"
  cx_proc :: "'d fuse_opt_proc_t option"
  cx_argctr :: nat
  cx_argc :: nat
  cx_argv :: "string list"
  cx_outargs :: fuse_args
  cx_opts :: "string option"
  cx_nonopt :: nat
  cx_allocs :: nat

section \<open>Argument vectors\<close>

definition fuse_opt_free_args :: "fuse_args \<Rightarrow> fuse_args" where
  "fuse_opt_free_args args = args\<lparr>fa_argc := 0, fa_argv := None, fa_allocated := False\<rparr>"

definition fuse_opt_add_arg :: "opt_env \<Rightarrow> fuse_args \<Rightarrow> string \<Rightarrow> nat \<Rightarrow> (int \<times> fuse_args \<times> nat) option" where
  "fuse_opt_add_arg env args arg n =
     (if \<not> (fa_argv args = None \<or> fa_allocated args) then None
      else if \<not> oe_alloc env n then Some (- 1, args, n + 1)
      else if \<not> oe_alloc env (n + 1) then Some (- 1, args, n + 2)
      else
        (let argv = (case fa_argv args of None \<Rightarrow> [] | Some l \<Rightarrow> take (fa_argc args) l)
         in Some (0, args\<lparr>fa_argv := Some (argv @ [arg]), fa_allocated := True, fa_argc := fa_argc args + 1\<rparr>, n + 2)))"

text \<open>The new last argument is moved to \<open>pos\<close>; the block copy shifts the ones from there on.\<close>

definition fuse_opt_insert_arg :: "opt_env \<Rightarrow> fuse_args \<Rightarrow> nat \<Rightarrow> string \<Rightarrow> nat \<Rightarrow> (int \<times> fuse_args \<times> nat) option" where
  "fuse_opt_insert_arg env args pos arg n =
     (if \<not> pos \<le> fa_argc args then None
      else do {
        (res, args, n) \<leftarrow> fuse_opt_add_arg env args arg n;
        if res = - 1 then Some (- 1, args, n)
        else case fa_argv args of
               None \<Rightarrow> None
             | Some argv \<Rightarrow>
                 if pos \<noteq> fa_argc args - 1 then
                   (let newarg = argv ! (fa_argc args - 1)
                    in Some (0, args\<lparr>fa_argv := Some (take pos argv @ [newarg] @ take (fa_argc args - pos - 1) (drop pos argv))\<rparr>, n))
                 else Some (0, args, n)
      })"

section \<open>Option strings\<close>

definition escape_opt :: "bool \<Rightarrow> string \<Rightarrow> string" where
  "escape_opt esc s = concat (map (\<lambda>c. if esc \<and> (c = COMMA \<or> c = BSLASH) then [BSLASH, c] else [c]) s)"

definition add_opt_common :: "opt_env \<Rightarrow> string option \<Rightarrow> string \<Rightarrow> bool \<Rightarrow> nat \<Rightarrow> int \<times> string option \<times> nat" where
  "add_opt_common env opts opt esc n =
     (if \<not> oe_alloc env n then (- 1, opts, n + 1)
      else
        (let old = (case opts of None \<Rightarrow> [] | Some s \<Rightarrow> s)
         in (0, Some (old @ (if old \<noteq> [] then [COMMA] else []) @ escape_opt esc opt), n + 1)))"

definition fuse_opt_add_opt :: "opt_env \<Rightarrow> string option \<Rightarrow> string \<Rightarrow> nat \<Rightarrow> int \<times> string option \<times> nat" where
  "fuse_opt_add_opt env opts opt = add_opt_common env opts opt False"

definition fuse_opt_add_opt_escaped :: "opt_env \<Rightarrow> string option \<Rightarrow> string \<Rightarrow> nat \<Rightarrow> int \<times> string option \<times> nat" where
  "fuse_opt_add_opt_escaped env opts opt = add_opt_common env opts opt True"

section \<open>Templates\<close>

definition strchr :: "string \<Rightarrow> char \<Rightarrow> nat option" where
  "strchr s c = (if c \<in> set s then Some (length (takeWhile (\<lambda>x. x \<noteq> c) s)) else None)"

text \<open>A character of a C string, the NUL at its end included.\<close>

definition at :: "string \<Rightarrow> nat \<Rightarrow> char" where
  "at s i = (if i < length s then s ! i else NUL)"

definition match_template :: "string \<Rightarrow> string \<Rightarrow> nat option" where
  "match_template t arg =
     (let sep = (case strchr t (CHR ''='') of Some i \<Rightarrow> Some i | None \<Rightarrow> strchr t (CHR '' ''));
          exact = (if t = arg then Some 0 else None)
      in case sep of
           None \<Rightarrow> exact
         | Some i \<Rightarrow>
             if at t (i + 1) = NUL \<or> at t (i + 1) = CHR ''%'' then
               (let tlen = (if t ! i = CHR ''='' then i + 1 else i)
                in if length arg \<ge> tlen \<and> take tlen arg = take tlen t then Some i else exact)
             else exact)"

text \<open>The first matching entry, its separator, and the table behind it.\<close>

fun find_opt :: "'d fuse_opt list \<Rightarrow> string \<Rightarrow> ('d fuse_opt \<times> nat \<times> 'd fuse_opt list) option" where
  "find_opt [] arg = None"
| "find_opt (opt # rest) arg =
     (case match_template (op_templ opt) arg of
        Some sep \<Rightarrow> Some (opt, sep, rest)
      | None \<Rightarrow> find_opt rest arg)"

definition fuse_opt_match :: "'d fuse_opt list \<Rightarrow> string \<Rightarrow> int" where
  "fuse_opt_match opts opt = (if find_opt opts opt \<noteq> None then 1 else 0)"

section \<open>Processing\<close>

type_synonym 'd opt_run = "'d fuse_opt_context \<Rightarrow> (int \<times> 'd fuse_opt_context) option"

definition next_arg :: "'d opt_run" where
  "next_arg ctx =
     (if cx_argctr ctx + 1 \<ge> cx_argc ctx then Some (- 1, ctx)
      else Some (0, ctx\<lparr>cx_argctr := cx_argctr ctx + 1\<rparr>))"

definition add_arg :: "opt_env \<Rightarrow> string \<Rightarrow> 'd opt_run" where
  "add_arg env arg ctx = do {
     (res, args, n) \<leftarrow> fuse_opt_add_arg env (cx_outargs ctx) arg (cx_allocs ctx);
     Some (res, ctx\<lparr>cx_outargs := args, cx_allocs := n\<rparr>)
   }"

definition add_opt :: "opt_env \<Rightarrow> string \<Rightarrow> 'd opt_run" where
  "add_opt env opt ctx =
     (let (res, opts, n) = add_opt_common env (cx_opts ctx) opt True (cx_allocs ctx)
      in Some (res, ctx\<lparr>cx_opts := opts, cx_allocs := n\<rparr>))"

definition call_proc :: "opt_env \<Rightarrow> string \<Rightarrow> int \<Rightarrow> bool \<Rightarrow> 'd opt_run" where
  "call_proc env arg key is_o ctx =
     (if key = FUSE_OPT_KEY_DISCARD then Some (0, ctx)
      else
        (let add = (if is_o then add_opt env arg else add_arg env arg)
         in case cx_proc ctx of
              None \<Rightarrow> add ctx
            | Some proc \<Rightarrow>
                if key = FUSE_OPT_KEY_KEEP then add ctx
                else do {
                  (res, data, outargs, n) \<leftarrow> proc (cx_data ctx) arg key (cx_outargs ctx) (cx_allocs ctx);
                  let ctx = ctx\<lparr>cx_data := data, cx_outargs := outargs, cx_allocs := n\<rparr>;
                  if res = - 1 \<or> res = 0 then Some (res, ctx) else add ctx
                }))"

definition process_opt_param :: "opt_env \<Rightarrow> 'd opt_slot \<Rightarrow> string \<Rightarrow> string \<Rightarrow> 'd opt_run" where
  "process_opt_param env var format param ctx =
     (if at format 0 \<noteq> CHR ''%'' then None
      else if at format 1 = CHR ''s'' then
        (case var of
           StrField upd \<Rightarrow>
             (if oe_alloc env (cx_allocs ctx) then
                Some (0, ctx\<lparr>cx_data := upd param (cx_data ctx), cx_allocs := cx_allocs ctx + 1\<rparr>)
              else Some (- 1, ctx\<lparr>cx_allocs := cx_allocs ctx + 1\<rparr>))
         | _ \<Rightarrow> None)
      else
        (case var of
           IntField upd \<Rightarrow>
             (case oe_scanf env format param of
                Some v \<Rightarrow> Some (0, ctx\<lparr>cx_data := upd v (cx_data ctx)\<rparr>)
              | None \<Rightarrow> Some (- 1, ctx))
         | _ \<Rightarrow> None))"

definition process_opt :: "opt_env \<Rightarrow> 'd fuse_opt \<Rightarrow> nat \<Rightarrow> string \<Rightarrow> bool \<Rightarrow> 'd opt_run" where
  "process_opt env opt sep arg is_o ctx =
     (case op_offset opt of
        NoSlot \<Rightarrow> do {
          (res, ctx) \<leftarrow> call_proc env arg (op_value opt) is_o ctx;
          Some (if res = - 1 then - 1 else 0, ctx)
        }
      | var \<Rightarrow>
          if sep \<noteq> 0 \<and> at (op_templ opt) (sep + 1) \<noteq> NUL then
            (let param = (if at (op_templ opt) sep = CHR ''='' then drop (sep + 1) arg else drop sep arg)
             in do {
               (res, ctx) \<leftarrow> process_opt_param env var (drop (sep + 1) (op_templ opt)) param ctx;
               Some (if res = - 1 then - 1 else 0, ctx)
             })
          else
            (case var of
               IntField upd \<Rightarrow> Some (0, ctx\<lparr>cx_data := upd (of_int (op_value opt)) (cx_data ctx)\<rparr>)
             | _ \<Rightarrow> None))"

definition process_opt_sep_arg :: "opt_env \<Rightarrow> 'd fuse_opt \<Rightarrow> nat \<Rightarrow> string \<Rightarrow> bool \<Rightarrow> 'd opt_run" where
  "process_opt_sep_arg env opt sep arg is_o ctx = do {
     (res, ctx) \<leftarrow> next_arg ctx;
     if res = - 1 then Some (- 1, ctx)
     else if \<not> oe_alloc env (cx_allocs ctx) then Some (- 1, ctx\<lparr>cx_allocs := cx_allocs ctx + 1\<rparr>)
     else process_opt env opt sep (take sep arg @ cx_argv ctx ! cx_argctr ctx) is_o (ctx\<lparr>cx_allocs := cx_allocs ctx + 1\<rparr>)
   }"

lemma find_opt_shorter: "find_opt opts arg = Some (opt, sep, rest) \<Longrightarrow> length rest < length opts"
  by (induction opts arg rule: find_opt.induct) (auto split: option.splits)

text \<open>The loop of \<^verbatim>\<open>process_gopt\<close> over the matching entries of the table.\<close>

function process_matches :: "opt_env \<Rightarrow> ('d fuse_opt \<times> nat \<times> 'd fuse_opt list) option \<Rightarrow> string \<Rightarrow> bool \<Rightarrow> 'd opt_run" where
  "process_matches env None arg is_o ctx = Some (0, ctx)"
| "process_matches env (Some (opt, sep, rest)) arg is_o ctx = do {
     (res, ctx) \<leftarrow> (if sep \<noteq> 0 \<and> at (op_templ opt) sep = CHR '' '' \<and> at arg sep = NUL
                   then process_opt_sep_arg env opt sep arg is_o ctx
                   else process_opt env opt sep arg is_o ctx);
     if res = - 1 then Some (- 1, ctx)
     else process_matches env (find_opt rest arg) arg is_o ctx
   }"
  by pat_completeness auto

termination
proof (relation "measure (\<lambda>(env, found, arg, is_o, ctx). case found of None \<Rightarrow> 0 | Some (opt, sep, rest) \<Rightarrow> Suc (length rest))")
  fix env :: opt_env and opt :: "'d fuse_opt" and sep :: nat and rest :: "'d fuse_opt list" and arg :: string
    and is_o :: bool and ctx ctx' :: "'d fuse_opt_context"
  show "((env, find_opt rest arg, arg, is_o, ctx'), env, Some (opt, sep, rest), arg, is_o, ctx) \<in>
    measure (\<lambda>(env, found, arg, is_o, ctx). case found of None \<Rightarrow> 0 | Some (opt, sep, rest) \<Rightarrow> Suc (length rest))"
    using find_opt_shorter [of rest arg] by (cases "find_opt rest arg") auto
qed simp

definition process_gopt :: "opt_env \<Rightarrow> string \<Rightarrow> bool \<Rightarrow> 'd opt_run" where
  "process_gopt env arg is_o ctx =
     (case find_opt (cx_opt ctx) arg of
        Some found \<Rightarrow> process_matches env (Some found) arg is_o ctx
      | None \<Rightarrow> call_proc env arg FUSE_OPT_KEY_OPT is_o ctx)"

text \<open>The block \<open>buf\<close> is read at \<open>s\<close> and rewritten at \<open>d\<close>: each option is unescaped to the start of the
  block and processed there.\<close>

definition c_str :: "string \<Rightarrow> string" where
  "c_str buf = takeWhile (\<lambda>c. c \<noteq> NUL) buf"

definition is_octal :: "char \<Rightarrow> char \<Rightarrow> bool" where
  "is_octal hi c \<longleftrightarrow> 48 \<le> (of_char c :: nat) \<and> (of_char c :: nat) \<le> of_char hi"

definition octal_char :: "char \<Rightarrow> char \<Rightarrow> char \<Rightarrow> char" where
  "octal_char x y z =
     char_of ((of_char x - 48) * 64 + (of_char y - 48) * 8 + (of_char z - 48) :: nat)"

function real_option_group :: "opt_env \<Rightarrow> string \<Rightarrow> nat \<Rightarrow> nat \<Rightarrow> 'd opt_run" where
  "real_option_group env buf s d ctx =
     (if \<not> (s < length buf \<and> d < length buf) then None
      else if buf ! s = COMMA \<or> buf ! s = NUL then do {
        let buf' = buf[d := NUL];
        (res, ctx) \<leftarrow> process_gopt env (c_str buf') True ctx;
        if res = - 1 then Some (- 1, ctx)
        else if buf ! s = NUL then Some (0, ctx)
        else real_option_group env buf' (s + 1) 0 ctx
      }
      else if buf ! s = BSLASH \<and> at buf (s + 1) \<noteq> NUL then
        (if is_octal (CHR ''3'') (at buf (s + 1)) \<and> is_octal (CHR ''7'') (at buf (s + 2)) \<and> is_octal (CHR ''7'') (at buf (s + 3))
         then real_option_group env (buf[d := octal_char (at buf (s + 1)) (at buf (s + 2)) (at buf (s + 3))]) (s + 4) (d + 1) ctx
         else real_option_group env (buf[d := at buf (s + 1)]) (s + 2) (d + 1) ctx)
      else real_option_group env (buf[d := buf ! s]) (s + 1) (d + 1) ctx)"
  by pat_completeness auto

termination
  by (relation "measure (\<lambda>(env, buf, s, d, ctx). length buf - s)") auto

declare real_option_group.simps [simp del]

definition process_real_option_group :: "opt_env \<Rightarrow> string \<Rightarrow> 'd opt_run" where
  "process_real_option_group env opts = real_option_group env opts 0 0"

definition process_option_group :: "opt_env \<Rightarrow> string \<Rightarrow> 'd opt_run" where
  "process_option_group env opts ctx =
     (if \<not> oe_alloc env (cx_allocs ctx) then Some (- 1, ctx\<lparr>cx_allocs := cx_allocs ctx + 1\<rparr>)
      else process_real_option_group env (opts @ [NUL]) (ctx\<lparr>cx_allocs := cx_allocs ctx + 1\<rparr>))"

definition process_one :: "opt_env \<Rightarrow> string \<Rightarrow> 'd opt_run" where
  "process_one env arg ctx =
     (if cx_nonopt ctx \<noteq> 0 \<or> at arg 0 \<noteq> CHR ''-'' then call_proc env arg FUSE_OPT_KEY_NONOPT False ctx
      else if at arg 1 = CHR ''o'' then
        (if at arg 2 \<noteq> NUL then process_option_group env (drop 2 arg) ctx
         else do {
           (res, ctx) \<leftarrow> next_arg ctx;
           if res = - 1 then Some (- 1, ctx)
           else process_option_group env (cx_argv ctx ! cx_argctr ctx) ctx
         })
      else if at arg 1 = CHR ''-'' \<and> at arg 2 = NUL then do {
        (res, ctx) \<leftarrow> add_arg env arg ctx;
        if res = - 1 then Some (- 1, ctx)
        else Some (0, ctx\<lparr>cx_nonopt := fa_argc (cx_outargs ctx)\<rparr>)
      }
      else process_gopt env arg False ctx)"

section \<open>What processing keeps\<close>

text \<open>Every processing function leaves the command line, the table and the processing function alone and
  moves \<open>argctr\<close> only forward; the loop over the arguments therefore ends.\<close>

definition advances :: "'d fuse_opt_context \<Rightarrow> 'd fuse_opt_context \<Rightarrow> bool" where
  "advances ctx ctx' \<longleftrightarrow> cx_argctr ctx \<le> cx_argctr ctx' \<and> cx_argc ctx' = cx_argc ctx \<and> cx_argv ctx' = cx_argv ctx \<and>
     cx_opt ctx' = cx_opt ctx \<and> cx_proc ctx' = cx_proc ctx"

lemma advances_refl [simp]: "advances ctx ctx" by (simp add: advances_def)

lemma advances_trans [trans]: "advances a b \<Longrightarrow> advances b c \<Longrightarrow> advances a c"
  by (auto simp: advances_def)

lemma advances_update [simp]:
  "advances ctx (ctx'\<lparr>cx_data := d\<rparr>) = advances ctx ctx'" "advances ctx (ctx'\<lparr>cx_outargs := args\<rparr>) = advances ctx ctx'"
  "advances ctx (ctx'\<lparr>cx_opts := os\<rparr>) = advances ctx ctx'" "advances ctx (ctx'\<lparr>cx_allocs := n\<rparr>) = advances ctx ctx'"
  "advances ctx (ctx'\<lparr>cx_nonopt := k\<rparr>) = advances ctx ctx'"
  by (simp_all add: advances_def)

named_theorems opt_steps \<open>each processing function advances\<close>

lemma next_arg_advances [opt_steps]: "next_arg ctx = Some (res, ctx') \<Longrightarrow> advances ctx ctx'"
  by (auto simp: next_arg_def advances_def split: if_splits)

lemma add_arg_advances [opt_steps]: "add_arg env arg ctx = Some (res, ctx') \<Longrightarrow> advances ctx ctx'"
  by (auto simp: add_arg_def bind_eq_Some_conv)

lemma add_opt_advances [opt_steps]: "add_opt env arg ctx = Some (res, ctx') \<Longrightarrow> advances ctx ctx'"
  by (auto simp: add_opt_def split: prod.splits)

lemma call_proc_advances [opt_steps]: "call_proc env arg key is_o ctx = Some (res, ctx') \<Longrightarrow> advances ctx ctx'"
  by (auto simp: call_proc_def Let_def bind_eq_Some_conv split: if_splits option.splits
      dest!: opt_steps) (auto simp: advances_def)

lemma process_opt_param_advances [opt_steps]:
  "process_opt_param env var format param ctx = Some (res, ctx') \<Longrightarrow> advances ctx ctx'"
  by (auto simp: process_opt_param_def split: if_splits option.splits opt_slot.splits)

lemma process_opt_advances [opt_steps]: "process_opt env opt sep arg is_o ctx = Some (res, ctx') \<Longrightarrow> advances ctx ctx'"
  by (auto simp: process_opt_def Let_def bind_eq_Some_conv split: if_splits opt_slot.splits dest!: opt_steps)

lemma process_opt_sep_arg_advances [opt_steps]:
  "process_opt_sep_arg env opt sep arg is_o ctx = Some (res, ctx') \<Longrightarrow> advances ctx ctx'"
  by (auto simp: process_opt_sep_arg_def bind_eq_Some_conv split: if_splits dest!: opt_steps) (auto simp: advances_def)

lemma process_matches_advances [opt_steps]:
  "process_matches env found arg is_o ctx = Some (res, ctx') \<Longrightarrow> advances ctx ctx'"
proof (induction env found arg is_o ctx rule: process_matches.induct)
  case (2 env opt sep rest arg is_o ctx)
  let ?step = "if sep \<noteq> 0 \<and> at (op_templ opt) sep = CHR '' '' \<and> at arg sep = NUL
    then process_opt_sep_arg env opt sep arg is_o ctx else process_opt env opt sep arg is_o ctx"
  from "2.prems" obtain r c where step: "?step = Some (r, c)"
    and rest: "if r = - 1 then res = - 1 \<and> ctx' = c else process_matches env (find_opt rest arg) arg is_o c = Some (res, ctx')"
    by (auto simp: bind_eq_Some_conv split: if_splits)
  have "advances ctx c" using step by (auto split: if_splits dest: opt_steps)
  then show ?case using rest "2.IH" [OF step refl] by (auto split: if_splits intro: advances_trans)
qed simp

lemma process_gopt_advances [opt_steps]: "process_gopt env arg is_o ctx = Some (res, ctx') \<Longrightarrow> advances ctx ctx'"
  by (auto simp: process_gopt_def split: option.splits dest!: opt_steps)

lemma real_option_group_advances [opt_steps]:
  "real_option_group env buf s d ctx = Some (res, ctx') \<Longrightarrow> advances ctx ctx'"
proof (induction env buf s d ctx rule: real_option_group.induct)
  case (1 env buf s d ctx)
  show ?case
  proof (cases "s < length buf \<and> d < length buf \<and> (buf ! s = COMMA \<or> buf ! s = NUL)")
    case True
    with "1.prems" obtain r c where step: "process_gopt env (c_str (buf[d := NUL])) True ctx = Some (r, c)"
      and rest: "r = - 1 \<or> buf ! s = NUL \<Longrightarrow> ctx' = c"
        "r \<noteq> - 1 \<Longrightarrow> buf ! s \<noteq> NUL \<Longrightarrow> real_option_group env (buf[d := NUL]) (s + 1) 0 c = Some (res, ctx')"
      by (subst (asm) real_option_group.simps) (auto simp: Let_def bind_eq_Some_conv split: if_splits)
    have "advances ctx c" using step by (rule opt_steps)
    then show ?thesis
      using rest "1.IH"(1) [OF _ _ refl step refl] True by (cases "r = - 1 \<or> buf ! s = NUL") (auto intro: advances_trans)
  next
    case False
    with "1.prems" show ?thesis
      by (subst (asm) real_option_group.simps) (auto split: if_splits intro: "1.IH"(2,3,4))
  qed
qed

lemma process_option_group_advances [opt_steps]:
  "process_option_group env opts ctx = Some (res, ctx') \<Longrightarrow> advances ctx ctx'"
  by (auto simp: process_option_group_def process_real_option_group_def split: if_splits dest!: opt_steps)
    (auto simp: advances_def)

lemma bind_advances:
  assumes "do { (r, c) \<leftarrow> m; f r c } = Some (res, ctx')"
    and "\<And>r c. m = Some (r, c) \<Longrightarrow> advances ctx c" and "\<And>r c. f r c = Some (res, ctx') \<Longrightarrow> advances c ctx'"
  shows "advances ctx ctx'"
  using assms by (cases m) (auto intro: advances_trans)

lemma process_one_advances [opt_steps]: "process_one env arg ctx = Some (res, ctx') \<Longrightarrow> advances ctx ctx'"
  unfolding process_one_def
  by (simp split: if_split_asm;
      (erule opt_steps | (erule bind_advances, erule opt_steps, force split: if_split_asm dest: opt_steps)))

section \<open>Parsing\<close>

function opt_loop :: "opt_env \<Rightarrow> 'd opt_run" where
  "opt_loop env ctx =
     (if cx_argctr ctx < cx_argc ctx then
        (case process_one env (cx_argv ctx ! cx_argctr ctx) ctx of
           None \<Rightarrow> None
         | Some (res, ctx) \<Rightarrow>
             if res = - 1 then Some (- 1, ctx) else opt_loop env (ctx\<lparr>cx_argctr := cx_argctr ctx + 1\<rparr>))
      else Some (0, ctx))"
  by pat_completeness auto

termination
  by (relation "measure (\<lambda>(env, ctx). cx_argc ctx - cx_argctr ctx)")
    (auto dest!: process_one_advances simp: advances_def)

declare opt_loop.simps [simp del]

definition insert_arg :: "opt_env \<Rightarrow> nat \<Rightarrow> string \<Rightarrow> 'd opt_run" where
  "insert_arg env pos arg ctx = do {
     (res, args, n) \<leftarrow> fuse_opt_insert_arg env (cx_outargs ctx) pos arg (cx_allocs ctx);
     Some (res, ctx\<lparr>cx_outargs := args, cx_allocs := n\<rparr>)
   }"

definition drop_separator :: "'d opt_run" where
  "drop_separator ctx =
     (let args = cx_outargs ctx
      in if cx_nonopt ctx \<noteq> 0 \<and> cx_nonopt ctx = fa_argc args then
           (case fa_argv args of
              None \<Rightarrow> None
            | Some argv \<Rightarrow>
                if argv ! (fa_argc args - 1) = ''--'' then
                  Some (0, ctx\<lparr>cx_outargs := args\<lparr>fa_argv := Some (take (fa_argc args - 1) argv), fa_argc := fa_argc args - 1\<rparr>\<rparr>)
                else Some (0, ctx))
         else Some (0, ctx))"

definition opt_parse :: "opt_env \<Rightarrow> 'd opt_run" where
  "opt_parse env ctx = do {
     (res, ctx) \<leftarrow> (if cx_argc ctx \<noteq> 0 then add_arg env (cx_argv ctx ! 0) ctx else Some (0, ctx));
     if res = - 1 then Some (- 1, ctx)
     else do {
       (res, ctx) \<leftarrow> opt_loop env (ctx\<lparr>cx_argctr := 1\<rparr>);
       if res = - 1 then Some (- 1, ctx)
       else
         (case cx_opts ctx of
            None \<Rightarrow> drop_separator ctx
          | Some opts \<Rightarrow> do {
              (res, ctx) \<leftarrow> insert_arg env 1 ''-o'' ctx;
              if res = - 1 then Some (- 1, ctx)
              else do {
                (res, ctx) \<leftarrow> insert_arg env 2 opts ctx;
                if res = - 1 then Some (- 1, ctx) else drop_separator ctx
              }
            })
     }
   }"

text \<open>The parser's result: the code, the arguments that are left, the caller's structure and the number of
  allocations. \<open>args\<close> may be a null pointer.\<close>

definition fuse_opt_parse :: "opt_env \<Rightarrow> fuse_args option \<Rightarrow> 'd \<Rightarrow> 'd fuse_opt list \<Rightarrow> 'd fuse_opt_proc_t option \<Rightarrow> nat \<Rightarrow>
    (int \<times> fuse_args option \<times> 'd \<times> nat) option" where
  "fuse_opt_parse env args data opts proc n =
     (case args of
        None \<Rightarrow> Some (0, args, data, n)
      | Some a \<Rightarrow>
          (case fa_argv a of
             None \<Rightarrow> Some (0, args, data, n)
           | Some argv \<Rightarrow>
               if fa_argc a = 0 then Some (0, args, data, n)
               else do {
                 (res, ctx) \<leftarrow> opt_parse env
                   \<lparr>cx_data = data, cx_opt = opts, cx_proc = proc, cx_argctr = 0, cx_argc = fa_argc a, cx_argv = argv,
                    cx_outargs = \<lparr>fa_argc = 0, fa_argv = None, fa_allocated = False\<rparr>, cx_opts = None, cx_nonopt = 0,
                    cx_allocs = n\<rparr>;
                 Some (res, if res \<noteq> - 1 then Some (cx_outargs ctx) else args, cx_data ctx, cx_allocs ctx)
               }))"

section \<open>Option groups\<close>

text \<open>The reference for the rewriting in place: the options of a group, unescaped.\<close>

definition octal_at :: "string \<Rightarrow> bool" where
  "octal_at s \<longleftrightarrow> is_octal (CHR ''3'') (at s 0) \<and> is_octal (CHR ''7'') (at s 1) \<and> is_octal (CHR ''7'') (at s 2)"

function tokens :: "string \<Rightarrow> string \<Rightarrow> string list" where
  "tokens acc [] = [acc]"
| "tokens acc (c # cs) =
     (if c = COMMA then acc # tokens [] cs
      else if c = BSLASH \<and> cs \<noteq> [] then
        (if octal_at cs then tokens (acc @ [octal_char (at cs 0) (at cs 1) (at cs 2)]) (drop 3 cs)
         else tokens (acc @ [hd cs]) (tl cs))
      else tokens (acc @ [c]) cs)"
  by pat_completeness auto

termination by (relation "measure (\<lambda>(acc, s). length s)") auto

fun run_opts :: "opt_env \<Rightarrow> string list \<Rightarrow> 'd opt_run" where
  "run_opts env [] ctx = Some (0, ctx)"
| "run_opts env (opt # opts) ctx = do {
     (res, ctx) \<leftarrow> process_gopt env (c_str opt) True ctx;
     if res = - 1 then Some (- 1, ctx) else run_opts env opts ctx
   }"

lemma tokens_not_empty [simp]: "tokens acc s \<noteq> []"
  by (induction acc s rule: tokens.induct) auto

lemma c_str_update: "d < length buf \<Longrightarrow> c_str (buf[d := NUL]) = c_str (take d buf)"
  by (simp add: c_str_def upd_conv_take_nth_drop takeWhile_tail)

lemma take_Suc_update: "d < length buf \<Longrightarrow> take (Suc d) (buf[d := c]) = take d buf @ [c]"
  by (simp add: take_Suc_conv_app_nth)

lemma drop_Cons_nth: "drop s buf = c # cs \<Longrightarrow> s < length buf \<and> buf ! s = c \<and> drop (Suc s) buf = cs"
  by (cases "s < length buf") (auto simp: Cons_nth_drop_Suc [symmetric])

lemma at_drop:
  assumes d: "drop s buf = rest @ [NUL]"
  shows "at buf (s + k) = at rest k"
proof -
  have "at buf (s + k) = at (drop s buf) k" by (simp add: at_def less_diff_conv add.commute)
  then show ?thesis by (simp add: d nth_append at_def)
qed

lemma real_option_group_tokens:
  fixes ctx :: "'d fuse_opt_context"
  assumes "drop s buf = rest @ [NUL]" and "d \<le> s" and "NUL \<notin> set rest"
  shows "real_option_group env buf s d ctx = run_opts env (tokens (take d buf) rest) ctx"
  using assms
proof (induction "take d buf" rest arbitrary: buf s d ctx rule: tokens.induct)
  case (1 buf d s ctx)
  then have "s < length buf" "buf ! s = NUL" by (auto dest: drop_Cons_nth)
  then show ?case using 1 by (subst real_option_group.simps) (auto simp: Let_def c_str_update split: prod.splits intro!: Option.bind_cong)
next
  case (2 c cs buf d s ctx)
  have s: "s < length buf" "buf ! s = c" and s1: "drop (Suc s) buf = cs @ [NUL]"
    using "2.prems"(1) by (auto dest: drop_Cons_nth)
  have d: "d < length buf" and c: "c \<noteq> NUL" "NUL \<notin> set cs" using "2.prems"(2,3) s by auto
  have at1: "at buf (s + 1 + k) = at cs k" for k using at_drop [of "s + 1" buf cs k] s1 by simp
  have upd: "drop (s + n + 1) (buf[d := x]) = drop n cs @ [NUL]" if "n \<le> length cs" for n x
  proof -
    have "drop (s + n + 1) (buf[d := x]) = drop n (drop (Suc s) buf)"
      using "2.prems"(2) by (simp add: drop_update_cancel add.commute)
    then show ?thesis using that s1 by simp
  qed
  show ?case
  proof (cases "c = COMMA")
    case True
    have "real_option_group env (buf[d := NUL]) (s + 1) 0 ctx' = run_opts env (tokens [] cs) ctx'" for ctx' :: "'d fuse_opt_context"
      using "2.hyps"(1) [OF True, of 0 "buf[d := NUL]" "s + 1" ctx'] upd [of 0] c by simp
    then show ?thesis using True s d
      by (subst real_option_group.simps) (auto simp: Let_def c_str_update intro!: Option.bind_cong)
  next
    case F1: False
    show ?thesis
    proof (cases "c = BSLASH \<and> cs \<noteq> []")
      case True
      then have nz: "at cs 0 \<noteq> NUL" and hd: "at cs 0 = hd cs" using c by (cases cs; auto simp: at_def)+
      note ats = at1 [of 0] at1 [of 1] at1 [of 2]
      show ?thesis
      proof (cases "octal_at cs")
        case oct: True
        let ?x = "octal_char (at cs 0) (at cs 1) (at cs 2)"
        have "3 \<le> length cs" using oct by (auto simp: octal_at_def is_octal_def at_def split: if_splits)
        then have "real_option_group env (buf[d := ?x]) (s + 4) (d + 1) ctx = run_opts env (tokens (take d buf @ [?x]) (drop 3 cs)) ctx"
          using "2.hyps"(2) [OF F1 True oct, of "d + 1" "buf[d := ?x]" "s + 4" ctx] upd [of 3 ?x] c d "2.prems"(2)
          by (auto simp: take_Suc_update add.commute dest: in_set_dropD)
        then show ?thesis using True F1 s d nz ats oct c
          by (subst real_option_group.simps) (simp add: octal_at_def numeral_eq_Suc)
      next
        case noct: False
        have "Suc 0 \<le> length cs" using True by (cases cs) auto
        then have "real_option_group env (buf[d := hd cs]) (s + 2) (d + 1) ctx = run_opts env (tokens (take d buf @ [hd cs]) (tl cs)) ctx"
          using "2.hyps"(3) [OF F1 True noct, of "d + 1" "buf[d := hd cs]" "s + 2" ctx] upd [of 1 "hd cs"] c d "2.prems"(2) True
          by (auto simp: take_Suc_update drop_Suc dest: list.set_sel(2))
        then show ?thesis using True F1 s d nz ats noct hd c
          by (subst real_option_group.simps) (auto simp: octal_at_def numeral_eq_Suc)
      qed
    next
      case False
      have "real_option_group env (buf[d := c]) (s + 1) (d + 1) ctx = run_opts env (tokens (take d buf @ [c]) cs) ctx"
        using "2.hyps"(4) [OF F1 False, of "d + 1" "buf[d := c]" "s + 1" ctx] upd [of 0 c] c d "2.prems"(2)
        by (simp add: take_Suc_update)
      moreover have "\<not> (c = BSLASH \<and> at buf (s + 1) \<noteq> NUL)" using False at1 [of 0] by (auto simp: at_def)
      ultimately show ?thesis using False F1 s d c
        by (subst real_option_group.simps) auto
    qed
  qed
qed

lemma process_option_group_tokens:
  assumes "NUL \<notin> set opts" and "oe_alloc env (cx_allocs ctx)"
  shows "process_option_group env opts ctx = run_opts env (tokens [] opts) (ctx\<lparr>cx_allocs := cx_allocs ctx + 1\<rparr>)"
  using assms real_option_group_tokens [of 0 "opts @ [NUL]" opts 0 env]
  by (simp add: process_option_group_def process_real_option_group_def)

subsection \<open>Escaping\<close>

lemma tokens_escape:
  assumes "rest = [] \<or> hd rest = COMMA"
  shows "tokens acc (escape_opt True opt @ rest) = tokens (acc @ opt) rest"
proof (induction opt arbitrary: acc)
  case (Cons c opt)
  have "\<not> octal_at (c # s)" if "c = COMMA \<or> c = BSLASH" for s
    using that by (auto simp: octal_at_def is_octal_def at_def)
  then show ?case using Cons by (cases "c = COMMA \<or> c = BSLASH") (auto simp: escape_opt_def)
qed (use assms in \<open>simp add: escape_opt_def\<close>)

text \<open>The option string after adding an option to it.\<close>

definition added :: "string option \<Rightarrow> string \<Rightarrow> string option" where
  "added opts opt =
     (let old = (case opts of None \<Rightarrow> [] | Some s \<Rightarrow> s)
      in Some (old @ (if old \<noteq> [] then [COMMA] else []) @ escape_opt True opt))"

lemma add_opt_common_ok: "oe_alloc env n \<Longrightarrow> add_opt_common env opts opt True n = (0, added opts opt, n + 1)"
  by (simp add: add_opt_common_def added_def Let_def)

lemma escape_opt_empty [simp]: "escape_opt esc opt = [] \<longleftrightarrow> opt = []"
  by (cases opt) (auto simp: escape_opt_def)

lemma foldl_added:
  assumes "\<forall>opt \<in> set opts. opt \<noteq> []" and "str \<noteq> []"
  shows "foldl added (Some str) opts = Some (str @ concat (map (\<lambda>opt. COMMA # escape_opt True opt) opts))"
  using assms
proof (induction opts arbitrary: str)
  case (Cons opt opts)
  then show ?case using Cons.IH [of "str @ COMMA # escape_opt True opt"] by (simp add: added_def)
qed simp

lemma tokens_joined:
  "tokens acc (concat (map (\<lambda>opt. COMMA # escape_opt True opt) opts)) = acc # opts"
proof (induction opts arbitrary: acc)
  case (Cons opt opts)
  have "concat (map (\<lambda>opt. COMMA # escape_opt True opt) opts) = [] \<or> hd (concat (map (\<lambda>opt. COMMA # escape_opt True opt) opts)) = COMMA"
    by (cases opts) auto
  then show ?case using Cons by (simp add: tokens_escape)
qed simp

lemma tokens_foldl_added:
  assumes "opts \<noteq> []" and "\<forall>opt \<in> set opts. opt \<noteq> []"
  shows "\<exists>str. foldl added None opts = Some str \<and> tokens [] str = opts"
proof -
  obtain opt opts' where o: "opts = opt # opts'" using assms(1) by (cases opts) auto
  let ?rest = "concat (map (\<lambda>opt. COMMA # escape_opt True opt) opts')"
  have "foldl added None opts = Some (escape_opt True opt @ ?rest)"
    using foldl_added [of opts' "escape_opt True opt"] assms(2) o by (simp add: added_def)
  moreover have "?rest = [] \<or> hd ?rest = COMMA" by (cases opts') auto
  ultimately show ?thesis using o by (simp add: tokens_escape tokens_joined)
qed

lemma set_escape [simp]: "NUL \<in> set (escape_opt esc opt) \<longleftrightarrow> NUL \<in> set opt"
  by (auto simp: escape_opt_def split: if_splits)

lemma foldl_added_no_nul:
  assumes "\<forall>opt \<in> set opts. NUL \<notin> set opt" and "\<forall>str. s = Some str \<longrightarrow> NUL \<notin> set str" and "foldl added s opts = Some str"
  shows "NUL \<notin> set str"
  using assms
proof (induction opts arbitrary: s)
  case (Cons opt opts)
  then show ?case using Cons.IH [of "added s opt"] by (auto simp: added_def Let_def split: option.splits if_splits)
qed simp

section \<open>Arguments that no table entry matches\<close>

text \<open>An argument vector of the parser, and its options and other arguments: an option group is given as
  \<^verbatim>\<open>-oGROUP\<close> or as two arguments \<^verbatim>\<open>-o GROUP\<close>, and after the separator \<^verbatim>\<open>--\<close> no argument is an option.\<close>

abbreviation args_of :: "string list \<Rightarrow> fuse_args" where
  "args_of l \<equiv> \<lparr>fa_argc = length l, fa_argv = Some l, fa_allocated = True\<rparr>"

definition group_flag :: "string \<Rightarrow> bool" where
  "group_flag a \<longleftrightarrow> at a 0 = CHR ''-'' \<and> at a 1 = CHR ''o''"

fun others_of :: "string list \<Rightarrow> string list" where
  "others_of [] = []"
| "others_of (a # as) =
     (if a = ''--'' then a # as
      else if group_flag a then (if length a = 2 then others_of (tl as) else others_of as)
      else a # others_of as)"

fun options_of :: "string list \<Rightarrow> string list" where
  "options_of [] = []"
| "options_of (a # as) =
     (if a = ''--'' then []
      else if group_flag a then
        (if length a = 2 then tokens [] (hd as) @ options_of (tl as) else tokens [] (drop 2 a) @ options_of as)
      else options_of as)"

fun group_missing :: "string list \<Rightarrow> bool" where
  "group_missing [] = False"
| "group_missing (a # as) =
     (if a = ''--'' then False
      else if group_flag a \<and> length a = 2 then (as = [] \<or> group_missing (tl as))
      else group_missing as)"

lemma at_no_nul: "NUL \<notin> set a \<Longrightarrow> at a i = NUL \<longleftrightarrow> length a \<le> i"
  by (auto simp: at_def) (metis leI nth_mem)

lemma separator_at: "NUL \<notin> set a \<Longrightarrow> at a 0 = CHR ''-'' \<and> at a 1 = CHR ''-'' \<and> at a 2 = NUL \<longleftrightarrow> a = ''--''"
  by (cases a; cases "tl a"; cases "tl (tl a)") (auto simp: at_def)

text \<open>A state of the parser with an empty table and no processing function.\<close>

definition plain_ctx :: "'d \<Rightarrow> string list \<Rightarrow> nat \<Rightarrow> string list \<Rightarrow> string option \<Rightarrow> nat \<Rightarrow> nat \<Rightarrow> 'd fuse_opt_context" where
  "plain_ctx data argv i l opts k n = \<lparr>cx_data = data, cx_opt = [], cx_proc = None, cx_argctr = i, cx_argc = length argv,
     cx_argv = argv, cx_outargs = args_of l, cx_opts = opts, cx_nonopt = k, cx_allocs = n\<rparr>"

lemma plain_ctx_simps [simp]:
  "cx_argctr (plain_ctx data argv i l opts k n) = i" "cx_argc (plain_ctx data argv i l opts k n) = length argv"
  "cx_argv (plain_ctx data argv i l opts k n) = argv" "cx_nonopt (plain_ctx data argv i l opts k n) = k"
  "cx_opts (plain_ctx data argv i l opts k n) = opts" "cx_outargs (plain_ctx data argv i l opts k n) = args_of l"
  "cx_allocs (plain_ctx data argv i l opts k n) = n" "cx_data (plain_ctx data argv i l opts k n) = data"
  "plain_ctx data argv i l opts k n\<lparr>cx_argctr := j\<rparr> = plain_ctx data argv j l opts k n"
  "plain_ctx data argv i l opts k n\<lparr>cx_allocs := m\<rparr> = plain_ctx data argv i l opts k m"
  "plain_ctx data argv i l opts k n\<lparr>cx_nonopt := k'\<rparr> = plain_ctx data argv i l opts k' n"
  "plain_ctx data argv i l opts k n\<lparr>cx_opts := opts'\<rparr> = plain_ctx data argv i l opts' k n"
  "plain_ctx data argv i l opts k n\<lparr>cx_outargs := args_of l'\<rparr> = plain_ctx data argv i l' opts k n"
  "cx_opt (plain_ctx data argv i l opts k n) = []" "cx_proc (plain_ctx data argv i l opts k n) = None"
  by (simp_all add: plain_ctx_def)

lemma call_proc_plain:
  assumes "\<And>n. oe_alloc env n" and "key \<noteq> FUSE_OPT_KEY_DISCARD"
  shows "call_proc env arg key is_o (plain_ctx data argv i l opts k n) =
    Some (0, if is_o then plain_ctx data argv i l (added opts arg) k (n + 1) else plain_ctx data argv i (l @ [arg]) opts k (n + 2))"
  using assms
  by (simp add: call_proc_def plain_ctx_def add_opt_def add_arg_def fuse_opt_add_arg_def add_opt_common_ok)

lemma process_gopt_plain:
  assumes "\<And>n. oe_alloc env n"
  shows "process_gopt env arg is_o (plain_ctx data argv i l opts k n) =
    Some (0, if is_o then plain_ctx data argv i l (added opts arg) k (n + 1) else plain_ctx data argv i (l @ [arg]) opts k (n + 2))"
  by (simp add: process_gopt_def call_proc_plain [OF assms])

lemma run_opts_plain:
  assumes "\<And>n. oe_alloc env n"
  shows "\<exists>m. run_opts env os (plain_ctx data argv i l opts k n) = Some (0, plain_ctx data argv i l (foldl added opts (map c_str os)) k m)"
proof (induction os arbitrary: opts n)
  case (Cons x os)
  then show ?case by (simp add: process_gopt_plain [OF assms])
qed auto

lemma group_plain:
  assumes "\<And>n. oe_alloc env n" and "NUL \<notin> set g"
  shows "\<exists>m. process_option_group env g (plain_ctx data argv i l opts k n) =
    Some (0, plain_ctx data argv i l (foldl added opts (map c_str (tokens [] g))) k m)"
  by (simp add: process_option_group_tokens assms run_opts_plain)

lemma opt_loop_nonopt:
  assumes "\<And>n. oe_alloc env n" and "k \<noteq> 0"
  shows "drop i argv = as \<Longrightarrow> i \<le> length argv \<Longrightarrow>
    \<exists>m. opt_loop env (plain_ctx data argv i l opts k n) = Some (0, plain_ctx data argv (length argv) (l @ as) opts k m)"
proof (induction as arbitrary: i l n)
  case Nil
  then show ?case by (subst opt_loop.simps) auto
next
  case (Cons a as)
  then have i: "i < length argv" "argv ! i = a" "drop (Suc i) argv = as" by (auto dest: drop_Cons_nth)
  then show ?case using Cons.IH [of "Suc i" "l @ [a]"] assms(2)
    by (subst opt_loop.simps) (simp add: process_one_def call_proc_plain [OF assms(1)])
qed

definition separator_pos :: "nat \<Rightarrow> string list \<Rightarrow> nat" where
  "separator_pos start others =
     (if ''--'' \<in> set others then start + length (takeWhile (\<lambda>a. a \<noteq> ''--'') others) + 1 else 0)"

lemma separator_pos_Cons: "a \<noteq> ''--'' \<Longrightarrow> separator_pos start (a # others) = separator_pos (Suc start) others"
  by (auto simp: separator_pos_def)

lemma opt_loop_plain:
  assumes al: "\<And>n. oe_alloc env n"
  shows "drop i argv = as \<Longrightarrow> i \<le> length argv \<Longrightarrow> \<forall>a \<in> set as. NUL \<notin> set a \<Longrightarrow>
    (group_missing as \<longrightarrow> (\<exists>ctx. opt_loop env (plain_ctx data argv i l opts 0 n) = Some (- 1, ctx) \<and> cx_data ctx = data)) \<and>
    (\<not> group_missing as \<longrightarrow> (\<exists>m. opt_loop env (plain_ctx data argv i l opts 0 n) =
       Some (0, plain_ctx data argv (length argv) (l @ others_of as) (foldl added opts (map c_str (options_of as)))
         (separator_pos (length l) (others_of as)) m)))"
proof (induction as arbitrary: i l opts n rule: others_of.induct)
  case 1
  then have "i = length argv" by simp
  moreover have "opt_loop env (plain_ctx data argv (length argv) l opts 0 n) = Some (0, plain_ctx data argv (length argv) l opts 0 n)"
    by (subst opt_loop.simps) simp
  ultimately show ?case by (auto simp: separator_pos_def)
next
  case (2 a as)
  then have i: "i < length argv" "argv ! i = a" "drop (Suc i) argv = as" and nul: "NUL \<notin> set a" by (auto dest: drop_Cons_nth)
  show ?case
  proof (cases "group_flag a")
    case grp: True
    then have ne: "a \<noteq> ''--''" and ge: "2 \<le> length a" by (auto simp: group_flag_def at_def split: if_splits)
    show ?thesis
    proof (cases "length a = 2")
      case two: True
      then have "at a 2 = NUL" by (simp add: at_def)
      show ?thesis
      proof (cases as)
        case Nil
        then have "opt_loop env (plain_ctx data argv i l opts 0 n) = Some (- 1, plain_ctx data argv i l opts 0 n)"
          using i grp \<open>at a 2 = NUL\<close> by (subst opt_loop.simps) (simp add: process_one_def group_flag_def next_arg_def)
        then show ?thesis using ne grp two Nil by simp
      next
        case (Cons b bs)
        then have j: "Suc i < length argv" "argv ! Suc i = b" "drop (Suc (Suc i)) argv = bs" using i(3) by (auto dest: drop_Cons_nth)
        obtain m where g: "process_option_group env b (plain_ctx data argv (Suc i) l opts 0 n) =
          Some (0, plain_ctx data argv (Suc i) l (foldl added opts (map c_str (tokens [] b))) 0 m)"
          using group_plain [OF al, of b data argv "Suc i" l opts 0 n] "2.prems"(3) Cons by auto
        have "opt_loop env (plain_ctx data argv i l opts 0 n) =
          opt_loop env (plain_ctx data argv (Suc (Suc i)) l (foldl added opts (map c_str (tokens [] b))) 0 m)"
          using i grp \<open>at a 2 = NUL\<close> j g by (subst opt_loop.simps) (simp add: process_one_def group_flag_def next_arg_def)
        then show ?thesis
          using "2.IH"(1) [OF ne grp two, of "Suc (Suc i)" l "foldl added opts (map c_str (tokens [] b))" m] ne grp two Cons j "2.prems"(3)
          by (simp split: if_split_asm)
      qed
    next
      case more: False
      then have "at a 2 \<noteq> NUL" using ge nul by (simp add: at_no_nul)
      obtain m where g: "process_option_group env (drop 2 a) (plain_ctx data argv i l opts 0 n) =
        Some (0, plain_ctx data argv i l (foldl added opts (map c_str (tokens [] (drop 2 a)))) 0 m)"
        using group_plain [OF al, of "drop 2 a" data argv i l opts 0 n] nul by (auto dest: in_set_dropD)
      have "opt_loop env (plain_ctx data argv i l opts 0 n) =
        opt_loop env (plain_ctx data argv (Suc i) l (foldl added opts (map c_str (tokens [] (drop 2 a)))) 0 m)"
        using i grp \<open>at a 2 \<noteq> NUL\<close> g by (subst opt_loop.simps) (simp add: process_one_def group_flag_def)
      then show ?thesis
        using "2.IH"(2) [OF ne grp more, of "Suc i" l "foldl added opts (map c_str (tokens [] (drop 2 a)))" m] ne grp more i "2.prems"(3)
        by simp
    qed
  next
    case ngrp: False
    show ?thesis
    proof (cases "a = ''--''")
      case True
      have "opt_loop env (plain_ctx data argv i l opts 0 n) = opt_loop env (plain_ctx data argv (Suc i) (l @ [a]) opts (Suc (length l)) (n + 2))"
        using i True
        by (subst opt_loop.simps) (simp add: process_one_def at_def add_arg_def fuse_opt_add_arg_def al plain_ctx_def)
      then show ?thesis
        using opt_loop_nonopt [OF al, of "Suc (length l)" "Suc i" argv as data "l @ [a]" opts "n + 2"] i True
        by (simp add: separator_pos_def)
    next
      case False
      have "opt_loop env (plain_ctx data argv i l opts 0 n) = opt_loop env (plain_ctx data argv (Suc i) (l @ [a]) opts 0 (n + 2))"
        using i False ngrp separator_at [OF nul]
        by (subst opt_loop.simps) (auto simp: process_one_def group_flag_def call_proc_plain [OF al] process_gopt_plain [OF al])
      then show ?thesis
        using "2.IH"(3) [OF False ngrp, of "Suc i" "l @ [a]" opts "n + 2"] i False ngrp "2.prems"(3)
        by (simp add: separator_pos_Cons)
    qed
  qed
qed

lemma insert_arg_plain:
  assumes "\<And>n. oe_alloc env n" and "pos \<le> length l"
  shows "insert_arg env pos arg (plain_ctx data argv i l opts k n) =
    Some (0, plain_ctx data argv i (take pos l @ arg # drop pos l) opts k (n + 2))"
  using assms by (simp add: insert_arg_def fuse_opt_insert_arg_def fuse_opt_add_arg_def plain_ctx_def)

text \<open>The arguments that the parser leaves: the options as one group behind the program's name, then the
  other arguments.\<close>

definition passed_args :: "string \<Rightarrow> string list \<Rightarrow> string list" where
  "passed_args prog as =
     (case foldl added None (map c_str (options_of as)) of
        None \<Rightarrow> prog # (if others_of as \<noteq> [] \<and> last (others_of as) = ''--'' \<and> ''--'' \<notin> set (butlast (others_of as))
                      then butlast (others_of as) else others_of as)
      | Some opts \<Rightarrow> prog # ''-o'' # opts # others_of as)"

lemma separator_last:
  "separator_pos start others = start + length others \<and> separator_pos start others \<noteq> 0 \<longleftrightarrow>
   others \<noteq> [] \<and> last others = ''--'' \<and> ''--'' \<notin> set (butlast others)"
proof (cases others rule: rev_cases)
  case (snoc xs x)
  have "length (takeWhile (\<lambda>a. a \<noteq> ''--'') xs) = length xs \<longleftrightarrow> ''--'' \<notin> set xs" by (induction xs) auto
  then show ?thesis using snoc by (auto simp: separator_pos_def takeWhile_tail)
qed (simp add: separator_pos_def)

lemma drop_separator_plain:
  "drop_separator (plain_ctx data argv i (prog # others) opts (separator_pos 1 others) n) = Some (0, plain_ctx data argv i
     (prog # (if others \<noteq> [] \<and> last others = ''--'' \<and> ''--'' \<notin> set (butlast others) then butlast others else others))
     opts (separator_pos 1 others) n)"
  using separator_last [of 1 others]
  by (auto simp: drop_separator_def plain_ctx_def last_conv_nth butlast_conv_take nth_Cons' take_Cons')

lemma opt_parse_plain:
  assumes al: "\<And>n. oe_alloc env n" and nul: "\<forall>a \<in> set as. NUL \<notin> set a"
    and args: "args = \<lparr>fa_argc = Suc (length as), fa_argv = Some (prog # as), fa_allocated = b\<rparr>"
  shows "\<exists>m. fuse_opt_parse env (Some args) data [] None n =
    Some (if group_missing as then (- 1, Some args, data, m) else (0, Some (args_of (passed_args prog as)), data, m))"
proof -
  let ?argv = "prog # as"
  let ?ctx = "\<lparr>cx_data = data, cx_opt = [], cx_proc = None, cx_argctr = 0, cx_argc = Suc (length as), cx_argv = ?argv,
    cx_outargs = \<lparr>fa_argc = 0, fa_argv = None, fa_allocated = False\<rparr>, cx_opts = None, cx_nonopt = 0, cx_allocs = n\<rparr>"
  have first: "add_arg env prog ?ctx = Some (0, plain_ctx data ?argv 0 [prog] None 0 (n + 2))"
    by (simp add: add_arg_def fuse_opt_add_arg_def al plain_ctx_def)
  have loop: "(group_missing as \<longrightarrow> (\<exists>ctx. opt_loop env (plain_ctx data ?argv 1 [prog] None 0 (n + 2)) = Some (- 1, ctx) \<and> cx_data ctx = data)) \<and>
    (\<not> group_missing as \<longrightarrow> (\<exists>m. opt_loop env (plain_ctx data ?argv 1 [prog] None 0 (n + 2)) =
       Some (0, plain_ctx data ?argv (Suc (length as)) (prog # others_of as) (foldl added None (map c_str (options_of as)))
         (separator_pos 1 (others_of as)) m)))"
    using opt_loop_plain [OF al, of 1 ?argv as data "[prog]" None "n + 2"] nul by simp
  have parse: "fuse_opt_parse env (Some args) data [] None n = do {
      (res, ctx) \<leftarrow> opt_parse env ?ctx;
      Some (res, if res \<noteq> - 1 then Some (cx_outargs ctx) else Some args, cx_data ctx, cx_allocs ctx) }"
    unfolding fuse_opt_parse_def args by simp
  show ?thesis
  proof (cases "group_missing as")
    case True
    then obtain ctx where "opt_loop env (plain_ctx data ?argv 1 [prog] None 0 (n + 2)) = Some (- 1, ctx)" "cx_data ctx = data"
      using loop by auto
    then show ?thesis using True by (simp add: parse opt_parse_def first)
  next
    case False
    let ?opts = "foldl added None (map c_str (options_of as))" let ?k = "separator_pos 1 (others_of as)"
    from False loop obtain m where l: "opt_loop env (plain_ctx data ?argv 1 [prog] None 0 (n + 2)) =
      Some (0, plain_ctx data ?argv (Suc (length as)) (prog # others_of as) ?opts ?k m)" by auto
    show ?thesis
    proof (cases ?opts)
      case None
      then show ?thesis using False l drop_separator_plain [of data ?argv "Suc (length as)" prog "others_of as" None m]
        by (simp add: parse opt_parse_def first passed_args_def)
    next
      case (Some opts)
      have k: "?k \<le> Suc (Suc (length (others_of as)))"
        using length_takeWhile_le [of "\<lambda>a. a \<noteq> ''--''" "others_of as"] by (simp add: separator_pos_def)
      show ?thesis using False l Some k
        by (simp add: parse opt_parse_def first passed_args_def insert_arg_plain [OF al] drop_separator_def)
    qed
  qed
qed

section \<open>Properties\<close>

definition add_escaped :: "opt_env \<Rightarrow> string option \<Rightarrow> string \<Rightarrow> string option" where
  "add_escaped env opts opt = fst (snd (fuse_opt_add_opt_escaped env opts opt 0))"

text \<open>\<^bold>\<open>C16\<close> Options survive the option string: any non-empty options (with commas, backslashes and digits in
  them) that are added with escaping to an empty option string come out of the in-place parser of an option
  group one by one, unchanged and in order, each handed to the table search.\<close>

theorem opt_group_roundtrip:
  assumes "\<And>n. oe_alloc env n" and "opts \<noteq> []" and "\<forall>opt \<in> set opts. opt \<noteq> [] \<and> NUL \<notin> set opt"
  shows "\<exists>str. foldl (add_escaped env) None opts = Some str \<and>
    process_option_group env str ctx = run_opts env opts (ctx\<lparr>cx_allocs := cx_allocs ctx + 1\<rparr>)"
proof -
  have "add_escaped env = added"
    by (intro ext) (simp add: add_escaped_def fuse_opt_add_opt_escaped_def add_opt_common_ok assms(1))
  moreover obtain str where str: "foldl added None opts = Some str" "tokens [] str = opts"
    using tokens_foldl_added assms(2,3) by blast
  moreover have "NUL \<notin> set str" using foldl_added_no_nul [OF _ _ str(1)] assms(3) by simp
  ultimately show ?thesis using assms(1) by (simp add: process_option_group_tokens)
qed

theorem opt_group_roundtrip_witness:
  defines "env \<equiv> \<lparr>oe_alloc = \<lambda>_. True, oe_scanf = \<lambda>_ _. None\<rparr>"
  defines "ctx \<equiv> plain_ctx () [] 0 [] None 0 0"
  shows "\<exists>str. foldl (add_escaped env) None [''a,b'', [BSLASH, CHR ''0'']] = Some str \<and>
    process_option_group env str ctx = run_opts env [''a,b'', [BSLASH, CHR ''0'']] (ctx\<lparr>cx_allocs := cx_allocs ctx + 1\<rparr>)"
  by (rule opt_group_roundtrip) (auto simp: env_def)

text \<open>\<^bold>\<open>C24\<close> Parsing with an empty table and without a processing function keeps everything: it ends, and
  leaves the program's name, all options collected in one group, and the other arguments in their order. A
  group flag without its group is the only error, and it leaves the arguments as they were. The separator is
  dropped when it is the last argument and there is no option; with options it stays.\<close>

theorem opt_parse_passes_through:
  assumes "\<And>n. oe_alloc env n" and "\<forall>a \<in> set as. NUL \<notin> set a"
    and "args = \<lparr>fa_argc = Suc (length as), fa_argv = Some (prog # as), fa_allocated = b\<rparr>"
  shows "\<exists>m. fuse_opt_parse env (Some args) data [] None n =
    Some (if group_missing as then (- 1, Some args, data, m) else (0, Some (args_of (passed_args prog as)), data, m))"
  using assms by (rule opt_parse_plain)

theorem opt_parse_passes_through_witness:
  defines "env \<equiv> \<lparr>oe_alloc = \<lambda>_. True, oe_scanf = \<lambda>_ _. None\<rparr>"
  shows "(\<exists>m. fuse_opt_parse env (Some \<lparr>fa_argc = 5, fa_argv = Some [''p'', ''-oa,b'', ''x'', ''-oc'', ''--''], fa_allocated = False\<rparr>)
      () [] None 0 = Some (0, Some (args_of [''p'', ''-o'', ''a,b,c'', ''x'', ''--'']), (), m)) \<and>
    (\<exists>m. fuse_opt_parse env (Some \<lparr>fa_argc = 3, fa_argv = Some [''p'', ''x'', ''--''], fa_allocated = False\<rparr>)
      () [] None 0 = Some (0, Some (args_of [''p'', ''x'']), (), m))"
proof
  have al: "\<And>n. oe_alloc env n" by (simp add: env_def)
  show "\<exists>m. fuse_opt_parse env (Some \<lparr>fa_argc = 5, fa_argv = Some [''p'', ''-oa,b'', ''x'', ''-oc'', ''--''], fa_allocated = False\<rparr>)
      () [] None 0 = Some (0, Some (args_of [''p'', ''-o'', ''a,b,c'', ''x'', ''--'']), (), m)"
    using opt_parse_passes_through [OF al, of "[''-oa,b'', ''x'', ''-oc'', ''--'']" _ "''p''" False "()" 0]
    by (simp add: group_flag_def at_def passed_args_def c_str_def added_def escape_opt_def numeral_eq_Suc)
  show "\<exists>m. fuse_opt_parse env (Some \<lparr>fa_argc = 3, fa_argv = Some [''p'', ''x'', ''--''], fa_allocated = False\<rparr>)
      () [] None 0 = Some (0, Some (args_of [''p'', ''x'']), (), m)"
    using opt_parse_passes_through [OF al, of "[''x'', ''--'']" _ "''p''" False "()" 0]
    by (simp add: group_flag_def at_def passed_args_def numeral_eq_Suc)
qed

end
