(* ===== verification/Fuse_Helper.thy ===== *)
theory Fuse_Helper
  imports Fuse_Opt Fuse_Init
begin

text \<open>
  The command line of a file system (\<^verbatim>\<open>libs/libfuse/lib/helper.c\<close>): the option tables, the processing
  function that takes the mount point, \<^verbatim>\<open>fuse_parse_cmdline\<close>, \<^verbatim>\<open>fuse_daemonize\<close>, the main function of the
  high-level API, and the connection options of \<^verbatim>\<open>fuse_apply_conn_info_opts\<close>. The functions that it calls
  from \<^verbatim>\<open>fuse_compat_stub.c\<close> and \<^verbatim>\<open>fuse_posix_stub.c\<close> are those of the port. Help texts are not modelled.
\<close>

section \<open>Command line\<close>

record fuse_cmdline_opts =
  co_singlethread :: u32
  co_foreground :: u32
  co_debug :: u32
  co_nodefault_subtype :: u32
  co_mountpoint :: "string option"
  co_show_version :: u32
  co_show_help :: u32
  co_clone_fd :: u32
  co_max_idle_threads :: u32
  co_max_threads :: u32

definition FUSE_HELPER_OPT :: "string \<Rightarrow> ((u32 \<Rightarrow> u32) \<Rightarrow> 'd \<Rightarrow> 'd) \<Rightarrow> 'd fuse_opt" where
  "FUSE_HELPER_OPT t p = \<lparr>op_templ = t, op_offset = IntField (\<lambda>v. p (\<lambda>_. v)), op_value = 1\<rparr>"

definition fuse_helper_opts :: "fuse_cmdline_opts fuse_opt list" where
  "fuse_helper_opts =
     [FUSE_HELPER_OPT ''-h'' co_show_help_update,
      FUSE_HELPER_OPT ''--help'' co_show_help_update,
      FUSE_HELPER_OPT ''-V'' co_show_version_update,
      FUSE_HELPER_OPT ''--version'' co_show_version_update,
      FUSE_HELPER_OPT ''-d'' co_debug_update,
      FUSE_HELPER_OPT ''debug'' co_debug_update,
      FUSE_HELPER_OPT ''-d'' co_foreground_update,
      FUSE_HELPER_OPT ''debug'' co_foreground_update,
      FUSE_OPT_KEY ''-d'' FUSE_OPT_KEY_KEEP,
      FUSE_OPT_KEY ''debug'' FUSE_OPT_KEY_KEEP,
      FUSE_HELPER_OPT ''-f'' co_foreground_update,
      FUSE_HELPER_OPT ''-s'' co_singlethread_update,
      FUSE_HELPER_OPT ''fsname='' co_nodefault_subtype_update,
      FUSE_OPT_KEY ''fsname='' FUSE_OPT_KEY_KEEP,
      FUSE_HELPER_OPT ''subtype='' co_nodefault_subtype_update,
      FUSE_OPT_KEY ''subtype='' FUSE_OPT_KEY_KEEP,
      FUSE_HELPER_OPT ''clone_fd'' co_clone_fd_update,
      FUSE_HELPER_OPT ''max_idle_threads=%u'' co_max_idle_threads_update,
      FUSE_HELPER_OPT ''max_threads=%u'' co_max_threads_update]"

text \<open>\<^verbatim>\<open>fuse_compat_stub.c\<close> and \<^verbatim>\<open>fuse_posix_stub.c\<close>: no mount point is a descriptor, and \<^verbatim>\<open>realpath\<close> copies
  the path into the caller's block of \<^verbatim>\<open>PATH_MAX\<close> bytes; \<open>None\<close> is a copy past its end.\<close>

abbreviation PATH_MAX :: nat where "PATH_MAX \<equiv> 4096"

definition fuse_mnt_parse_fuse_fd :: "string \<Rightarrow> int" where
  "fuse_mnt_parse_fuse_fd mountpoint = - 1"

definition realpath :: "string \<Rightarrow> nat \<Rightarrow> string option" where
  "realpath path room = (if length path < room then Some path else None)"

definition fuse_helper_opt_proc :: "opt_env \<Rightarrow> fuse_cmdline_opts fuse_opt_proc_t" where
  "fuse_helper_opt_proc env opts arg key outargs n =
     (if key = FUSE_OPT_KEY_NONOPT then
        (if co_mountpoint opts = None then
           (if fuse_mnt_parse_fuse_fd arg \<noteq> - 1 then
              (let (res, mp, n) = fuse_opt_add_opt env (co_mountpoint opts) arg n
               in Some (res, opts\<lparr>co_mountpoint := mp\<rparr>, outargs, n))
            else
              (case realpath arg PATH_MAX of
                 None \<Rightarrow> None
               | Some mountpoint \<Rightarrow>
                   (let (res, mp, n) = fuse_opt_add_opt env (co_mountpoint opts) mountpoint n
                    in Some (res, opts\<lparr>co_mountpoint := mp\<rparr>, outargs, n))))
         else Some (- 1, opts, outargs, n))
      else Some (1, opts, outargs, n))"

definition basename :: "string \<Rightarrow> string" where
  "basename progname =
     (if CHR ''/'' \<notin> set progname then progname
      else (let base = rev (takeWhile (\<lambda>c. c \<noteq> CHR ''/'') (rev progname))
            in if base \<noteq> [] then base else ''/''))"

definition add_default_subtype :: "opt_env \<Rightarrow> string \<Rightarrow> fuse_args \<Rightarrow> nat \<Rightarrow> (int \<times> fuse_args \<times> nat) option" where
  "add_default_subtype env progname args n =
     (if \<not> oe_alloc env n then Some (- 1, args, n + 1)
      else fuse_opt_add_arg env args (''-osubtype='' @ basename progname) (n + 1))"

definition fuse_parse_cmdline_312 :: "opt_env \<Rightarrow> fuse_args \<Rightarrow> nat \<Rightarrow> (int \<times> fuse_args \<times> fuse_cmdline_opts \<times> nat) option" where
  "fuse_parse_cmdline_312 env args n =
     (let opts = \<lparr>co_singlethread = 0, co_foreground = 0, co_debug = 0, co_nodefault_subtype = 0, co_mountpoint = None,
                  co_show_version = 0, co_show_help = 0, co_clone_fd = 0, co_max_idle_threads = - 1, co_max_threads = 10\<rparr>
      in do {
        (res, args', opts, n) \<leftarrow> fuse_opt_parse env (Some args) opts fuse_helper_opts (Some (fuse_helper_opt_proc env)) n;
        let args = (case args' of Some a \<Rightarrow> a | None \<Rightarrow> args);
        if res = - 1 then Some (- 1, args, opts, n)
        else if co_nodefault_subtype opts = 0 then
          (case fa_argv args of
             Some (prog # _) \<Rightarrow> do {
               (res, args, n) \<leftarrow> add_default_subtype env prog args n;
               Some (if res = - 1 then - 1 else 0, args, opts, n)
             }
           | _ \<Rightarrow> None)
        else Some (0, args, opts, n)
      })"

text \<open>The variant for callers compiled against the structure before \<^verbatim>\<open>max_threads\<close> was added to it: that field
  of \<open>out\<close> stays as it was.\<close>

definition fuse_parse_cmdline_30 :: "opt_env \<Rightarrow> fuse_args \<Rightarrow> fuse_cmdline_opts \<Rightarrow> nat \<Rightarrow>
    (int \<times> fuse_args \<times> fuse_cmdline_opts \<times> nat) option" where
  "fuse_parse_cmdline_30 env args out n = do {
     (rc, args, opts, n) \<leftarrow> fuse_parse_cmdline_312 env args n;
     Some (rc, args, if rc = 0 then opts\<lparr>co_max_threads := co_max_threads out\<rparr> else out, n)
   }"

section \<open>Daemonizing and the high-level main function\<close>

text \<open>\<^verbatim>\<open>fork\<close> of \<^verbatim>\<open>fuse_posix_stub.c\<close> always fails.\<close>

definition fork :: int where "fork = - 1"

text \<open>The calls that \<^verbatim>\<open>fuse_daemonize\<close> makes, with what they return as parameters: the two descriptors of the
  pipe or a failure, the result of \<^verbatim>\<open>setsid\<close>, and the descriptor of \<^verbatim>\<open>/dev/null\<close> or \<open>- 1\<close>.\<close>

record daemon_os =
  do_pipe :: "(int \<times> int) option"
  do_setsid :: int
  do_open_null :: int

datatype posix_call = Pipe | Fork | Read int | ExitCall int | Setsid | Chdir string | Open string | Dup2 int int
  | Write int | Close int

datatype daemonized = Continues int | Exits

definition fuse_daemonize :: "daemon_os \<Rightarrow> u32 \<Rightarrow> daemonized \<times> posix_call list" where
  "fuse_daemonize os foreground =
     (if foreground = 0 then
        (case do_pipe os of
           None \<Rightarrow> (Continues (- 1), [Pipe])
         | Some (rd_end, wr_end) \<Rightarrow>
             if fork = - 1 then (Continues (- 1), [Pipe, Fork])
             else if fork \<noteq> 0 then (Exits, [Pipe, Fork, Read rd_end, ExitCall 0])
             else if do_setsid os = - 1 then (Continues (- 1), [Pipe, Fork, Setsid])
             else
               (let nullfd = do_open_null os
                in (Continues 0, [Pipe, Fork, Setsid, Chdir ''/'', Open ''/dev/null''] @
                      (if nullfd \<noteq> - 1 then
                         [Dup2 nullfd 0, Dup2 nullfd 1, Dup2 nullfd 2] @ (if nullfd > 2 then [Close nullfd] else [])
                       else []) @
                      [Write wr_end, Close rd_end, Close wr_end])))
      else (Continues 0, [Chdir ''/'']))"

text \<open>\<^verbatim>\<open>fuse_compat_stub.c\<close>: the high-level API is not there, signal handlers are accepted.\<close>

definition fuse_new_31 :: "unit option" where "fuse_new_31 = None"
definition fuse_mount :: int where "fuse_mount = - 1"
definition fuse_set_signal_handlers :: int where "fuse_set_signal_handlers = 0"
definition fuse_loop :: int where "fuse_loop = - 1"
definition fuse_loop_cfg_create :: "unit option" where "fuse_loop_cfg_create = None"
definition fuse_loop_mt_312 :: int where "fuse_loop_mt_312 = - 1"

definition fuse_main_real_versioned :: "opt_env \<Rightarrow> daemon_os \<Rightarrow> string list \<Rightarrow> nat \<Rightarrow> int option" where
  "fuse_main_real_versioned env os argv n = do {
     (res, args, opts, n) \<leftarrow> fuse_parse_cmdline_312 env \<lparr>fa_argc = length argv, fa_argv = Some argv, fa_allocated = False\<rparr> n;
     if res \<noteq> 0 then Some 1
     else if co_show_version opts \<noteq> 0 then Some 0
     else if co_show_help opts \<noteq> 0 then Some 0
     else if co_show_help opts = 0 \<and> co_mountpoint opts = None then Some 2
     else if fuse_new_31 = None then Some 3
     else if fuse_mount \<noteq> 0 then Some 4
     else case fst (fuse_daemonize os (co_foreground opts)) of
       Exits \<Rightarrow> Some 0
     | Continues r \<Rightarrow>
         if r \<noteq> 0 then Some 5
         else if fuse_set_signal_handlers \<noteq> 0 then Some 6
         else if co_singlethread opts \<noteq> 0 then Some (if fuse_loop \<noteq> 0 then 8 else 0)
         else if fuse_loop_cfg_create = None then Some 7
         else Some (if fuse_loop_mt_312 \<noteq> 0 then 8 else 0)
   }"

definition fuse_main_real_30 :: "opt_env \<Rightarrow> daemon_os \<Rightarrow> string list \<Rightarrow> nat \<Rightarrow> int option" where
  "fuse_main_real_30 env os argv n = fuse_main_real_versioned env os argv n"

definition parse_mount_opts :: "fuse_args \<Rightarrow> unit option" where "parse_mount_opts args = None"
definition fuse_kern_mount :: "string \<Rightarrow> unit \<Rightarrow> int" where "fuse_kern_mount mountpoint mo = - 1"

definition fuse_open_channel :: "string \<Rightarrow> string \<Rightarrow> int" where
  "fuse_open_channel mountpoint options =
     (case parse_mount_opts \<lparr>fa_argc = 3, fa_argv = Some [[], ''-o'', options], fa_allocated = False\<rparr> of
        None \<Rightarrow> - 1
      | Some opts \<Rightarrow> fuse_kern_mount mountpoint opts)"

section \<open>Connection options\<close>

record fuse_conn_info_opts =
  ci_atomic_o_trunc :: u32
  ci_no_remote_posix_lock :: u32
  ci_no_remote_flock :: u32
  ci_splice_write :: u32
  ci_splice_move :: u32
  ci_splice_read :: u32
  ci_no_splice_write :: u32
  ci_no_splice_move :: u32
  ci_no_splice_read :: u32
  ci_auto_inval_data :: u32
  ci_no_auto_inval_data :: u32
  ci_no_readdirplus :: u32
  ci_no_readdirplus_auto :: u32
  ci_async_dio :: u32
  ci_no_async_dio :: u32
  ci_writeback_cache :: u32
  ci_no_writeback_cache :: u32
  ci_async_read :: u32
  ci_sync_read :: u32
  ci_max_write :: u32
  ci_max_readahead :: u32
  ci_max_background :: u32
  ci_congestion_threshold :: u32
  ci_time_gran :: u32
  ci_set_max_write :: u32
  ci_set_max_readahead :: u32
  ci_set_max_background :: u32
  ci_set_congestion_threshold :: u32
  ci_set_time_gran :: u32

definition CONN_OPTION :: "string \<Rightarrow> ((u32 \<Rightarrow> u32) \<Rightarrow> 'd \<Rightarrow> 'd) \<Rightarrow> int \<Rightarrow> 'd fuse_opt" where
  "CONN_OPTION t p v = \<lparr>op_templ = t, op_offset = IntField (\<lambda>x. p (\<lambda>_. x)), op_value = v\<rparr>"

definition conn_info_opt_spec :: "fuse_conn_info_opts fuse_opt list" where
  "conn_info_opt_spec =
     [CONN_OPTION ''max_write=%u'' ci_max_write_update 0,
      CONN_OPTION ''max_write='' ci_set_max_write_update 1,
      CONN_OPTION ''max_readahead=%u'' ci_max_readahead_update 0,
      CONN_OPTION ''max_readahead='' ci_set_max_readahead_update 1,
      CONN_OPTION ''max_background=%u'' ci_max_background_update 0,
      CONN_OPTION ''max_background='' ci_set_max_background_update 1,
      CONN_OPTION ''congestion_threshold=%u'' ci_congestion_threshold_update 0,
      CONN_OPTION ''congestion_threshold='' ci_set_congestion_threshold_update 1,
      CONN_OPTION ''sync_read'' ci_sync_read_update 1,
      CONN_OPTION ''async_read'' ci_async_read_update 1,
      CONN_OPTION ''atomic_o_trunc'' ci_atomic_o_trunc_update 1,
      CONN_OPTION ''no_remote_lock'' ci_no_remote_posix_lock_update 1,
      CONN_OPTION ''no_remote_lock'' ci_no_remote_flock_update 1,
      CONN_OPTION ''no_remote_flock'' ci_no_remote_flock_update 1,
      CONN_OPTION ''no_remote_posix_lock'' ci_no_remote_posix_lock_update 1,
      CONN_OPTION ''splice_write'' ci_splice_write_update 1,
      CONN_OPTION ''no_splice_write'' ci_no_splice_write_update 1,
      CONN_OPTION ''splice_move'' ci_splice_move_update 1,
      CONN_OPTION ''no_splice_move'' ci_no_splice_move_update 1,
      CONN_OPTION ''splice_read'' ci_splice_read_update 1,
      CONN_OPTION ''no_splice_read'' ci_no_splice_read_update 1,
      CONN_OPTION ''auto_inval_data'' ci_auto_inval_data_update 1,
      CONN_OPTION ''no_auto_inval_data'' ci_no_auto_inval_data_update 1,
      CONN_OPTION ''readdirplus=no'' ci_no_readdirplus_update 1,
      CONN_OPTION ''readdirplus=yes'' ci_no_readdirplus_update 0,
      CONN_OPTION ''readdirplus=yes'' ci_no_readdirplus_auto_update 1,
      CONN_OPTION ''readdirplus=auto'' ci_no_readdirplus_update 0,
      CONN_OPTION ''readdirplus=auto'' ci_no_readdirplus_auto_update 0,
      CONN_OPTION ''async_dio'' ci_async_dio_update 1,
      CONN_OPTION ''no_async_dio'' ci_no_async_dio_update 1,
      CONN_OPTION ''writeback_cache'' ci_writeback_cache_update 1,
      CONN_OPTION ''no_writeback_cache'' ci_no_writeback_cache_update 1,
      CONN_OPTION ''time_gran=%u'' ci_time_gran_update 0,
      CONN_OPTION ''time_gran='' ci_set_time_gran_update 1]"

definition LL_ENABLE :: "u32 \<Rightarrow> u64 \<Rightarrow> 'u fuse_world \<Rightarrow> 'u fuse_world" where
  "LL_ENABLE cond cap w = (if cond \<noteq> 0 then snd (fuse_set_feature_flag cap w) else w)"

definition LL_DISABLE :: "u32 \<Rightarrow> u64 \<Rightarrow> 'u fuse_world \<Rightarrow> 'u fuse_world" where
  "LL_DISABLE cond cap w = (if cond \<noteq> 0 then fuse_unset_feature_flag cap w else w)"

definition apply_limits :: "fuse_conn_info_opts \<Rightarrow> fuse_conn_info \<Rightarrow> fuse_conn_info" where
  "apply_limits opts c =
     (let c = (if ci_set_max_write opts \<noteq> 0 then c\<lparr>max_write := ci_max_write opts\<rparr> else c);
          c = (if ci_set_max_background opts \<noteq> 0 then c\<lparr>max_background := ci_max_background opts\<rparr> else c);
          c = (if ci_set_congestion_threshold opts \<noteq> 0 then c\<lparr>congestion_threshold := ci_congestion_threshold opts\<rparr> else c);
          c = (if ci_set_time_gran opts \<noteq> 0 then c\<lparr>time_gran := ci_time_gran opts\<rparr> else c)
      in if ci_set_max_readahead opts \<noteq> 0 then c\<lparr>max_readahead := ci_max_readahead opts\<rparr> else c)"

definition fuse_apply_conn_info_opts :: "fuse_conn_info_opts \<Rightarrow> 'u fuse_world \<Rightarrow> 'u fuse_world" where
  "fuse_apply_conn_info_opts opts w =
     (let w = conn_mod (apply_limits opts) w;
          w = LL_ENABLE (ci_splice_read opts) FUSE_CAP_SPLICE_READ w;
          w = LL_DISABLE (ci_no_splice_read opts) FUSE_CAP_SPLICE_READ w;
          w = LL_ENABLE (ci_splice_write opts) FUSE_CAP_SPLICE_WRITE w;
          w = LL_DISABLE (ci_no_splice_write opts) FUSE_CAP_SPLICE_WRITE w;
          w = LL_ENABLE (ci_splice_move opts) FUSE_CAP_SPLICE_MOVE w;
          w = LL_DISABLE (ci_no_splice_move opts) FUSE_CAP_SPLICE_MOVE w;
          w = LL_ENABLE (ci_auto_inval_data opts) FUSE_CAP_AUTO_INVAL_DATA w;
          w = LL_DISABLE (ci_no_auto_inval_data opts) FUSE_CAP_AUTO_INVAL_DATA w;
          w = LL_DISABLE (ci_no_readdirplus opts) FUSE_CAP_READDIRPLUS w;
          w = LL_DISABLE (ci_no_readdirplus_auto opts) FUSE_CAP_READDIRPLUS_AUTO w;
          w = LL_ENABLE (ci_async_dio opts) FUSE_CAP_ASYNC_DIO w;
          w = LL_DISABLE (ci_no_async_dio opts) FUSE_CAP_ASYNC_DIO w;
          w = LL_ENABLE (ci_writeback_cache opts) FUSE_CAP_WRITEBACK_CACHE w;
          w = LL_DISABLE (ci_no_writeback_cache opts) FUSE_CAP_WRITEBACK_CACHE w;
          w = LL_ENABLE (ci_async_read opts) FUSE_CAP_ASYNC_READ w;
          w = LL_DISABLE (ci_sync_read opts) FUSE_CAP_ASYNC_READ w;
          w = LL_DISABLE (ci_no_remote_posix_lock opts) FUSE_CAP_POSIX_LOCKS w
      in LL_DISABLE (ci_no_remote_flock opts) FUSE_CAP_FLOCK_LOCKS w)"

definition zero_conn_info_opts :: fuse_conn_info_opts where
  "zero_conn_info_opts = \<lparr>ci_atomic_o_trunc = 0, ci_no_remote_posix_lock = 0, ci_no_remote_flock = 0, ci_splice_write = 0,
     ci_splice_move = 0, ci_splice_read = 0, ci_no_splice_write = 0, ci_no_splice_move = 0, ci_no_splice_read = 0,
     ci_auto_inval_data = 0, ci_no_auto_inval_data = 0, ci_no_readdirplus = 0, ci_no_readdirplus_auto = 0, ci_async_dio = 0,
     ci_no_async_dio = 0, ci_writeback_cache = 0, ci_no_writeback_cache = 0, ci_async_read = 0, ci_sync_read = 0,
     ci_max_write = 0, ci_max_readahead = 0, ci_max_background = 0, ci_congestion_threshold = 0, ci_time_gran = 0,
     ci_set_max_write = 0, ci_set_max_readahead = 0, ci_set_max_background = 0, ci_set_congestion_threshold = 0,
     ci_set_time_gran = 0\<rparr>"

text \<open>The result is the options, or a null pointer; and the arguments that are left.\<close>

definition fuse_parse_conn_info_opts :: "opt_env \<Rightarrow> fuse_args \<Rightarrow> nat \<Rightarrow> (fuse_conn_info_opts option \<times> fuse_args \<times> nat) option" where
  "fuse_parse_conn_info_opts env args n =
     (if \<not> oe_alloc env n then Some (None, args, n + 1)
      else do {
        (res, args', opts, n) \<leftarrow> fuse_opt_parse env (Some args) zero_conn_info_opts conn_info_opt_spec None (n + 1);
        let args = (case args' of Some a \<Rightarrow> a | None \<Rightarrow> args);
        Some (if res = - 1 then None else Some opts, args, n)
      })"

section \<open>Parsing the common flags\<close>

definition helper_flags :: "string list" where
  "helper_flags = [''-h'', ''--help'', ''-V'', ''--version'', ''-d'', ''-f'', ''-s'']"

text \<open>The effect of one argument on the parsed options: a flag sets its fields, any other argument is the
  mount point.\<close>

definition cmdline_arg :: "string \<Rightarrow> fuse_cmdline_opts \<Rightarrow> fuse_cmdline_opts" where
  "cmdline_arg a d =
     (if a = ''-h'' \<or> a = ''--help'' then d\<lparr>co_show_help := 1\<rparr>
      else if a = ''-V'' \<or> a = ''--version'' then d\<lparr>co_show_version := 1\<rparr>
      else if a = ''-d'' then d\<lparr>co_debug := 1, co_foreground := 1\<rparr>
      else if a = ''-f'' then d\<lparr>co_foreground := 1\<rparr>
      else if a = ''-s'' then d\<lparr>co_singlethread := 1\<rparr>
      else d\<lparr>co_mountpoint := Some a\<rparr>)"

definition helper_ctx :: "opt_env \<Rightarrow> fuse_cmdline_opts \<Rightarrow> string list \<Rightarrow> nat \<Rightarrow> string list \<Rightarrow> nat \<Rightarrow> fuse_cmdline_opts fuse_opt_context" where
  "helper_ctx env data argv i l n = \<lparr>cx_data = data, cx_opt = fuse_helper_opts, cx_proc = Some (fuse_helper_opt_proc env), cx_argctr = i,
     cx_argc = length argv, cx_argv = argv, cx_outargs = args_of l, cx_opts = None, cx_nonopt = 0, cx_allocs = n\<rparr>"

lemma helper_ctx_simps [simp]:
  "cx_argctr (helper_ctx env data argv i l n) = i" "cx_argc (helper_ctx env data argv i l n) = length argv"
  "cx_argv (helper_ctx env data argv i l n) = argv" "cx_nonopt (helper_ctx env data argv i l n) = 0"
  "cx_opts (helper_ctx env data argv i l n) = None" "cx_outargs (helper_ctx env data argv i l n) = args_of l"
  "cx_allocs (helper_ctx env data argv i l n) = n" "cx_data (helper_ctx env data argv i l n) = data"
  "cx_opt (helper_ctx env data argv i l n) = fuse_helper_opts" "cx_proc (helper_ctx env data argv i l n) = Some (fuse_helper_opt_proc env)"
  "helper_ctx env data argv i l n\<lparr>cx_argctr := j\<rparr> = helper_ctx env data argv j l n"
  "helper_ctx env data argv i l n\<lparr>cx_data := data'\<rparr> = helper_ctx env data' argv i l n"
  by (simp_all add: helper_ctx_def)

text \<open>Searching the table for a concrete argument.\<close>

lemmas search_simps = fuse_helper_opts_def FUSE_HELPER_OPT_def FUSE_OPT_KEY_def match_template_def strchr_def at_def

lemma process_flag:
  assumes al: "\<And>n. oe_alloc env n" and a: "a \<in> set helper_flags"
  shows "\<exists>m. process_gopt env a False (helper_ctx env data argv i l n) =
    Some (0, helper_ctx env (cmdline_arg a data) argv i (l @ (if a = ''-d'' then [a] else [])) m)"
proof -
  have "a = ''-h'' \<or> a = ''--help'' \<or> a = ''-V'' \<or> a = ''--version'' \<or> a = ''-d'' \<or> a = ''-f'' \<or> a = ''-s''"
    using a by (simp add: helper_flags_def)
  then show ?thesis
    by (elim disjE)
      (simp_all add: process_gopt_def search_simps process_opt_def cmdline_arg_def call_proc_def add_arg_def fuse_opt_add_arg_def al helper_ctx_def)
qed

lemma process_mountpoint:
  assumes "\<And>n. oe_alloc env n" and "at a 0 \<noteq> CHR ''-''" and "length a < PATH_MAX" and "NUL \<notin> set a"
  shows "co_mountpoint data = None \<Longrightarrow> \<exists>m. process_one env a (helper_ctx env data argv i l n) =
      Some (0, helper_ctx env (data\<lparr>co_mountpoint := Some a\<rparr>) argv i l m)"
    and "co_mountpoint data \<noteq> None \<Longrightarrow> process_one env a (helper_ctx env data argv i l n) = Some (- 1, helper_ctx env data argv i l n)"
  using assms
  by (simp_all add: process_one_def call_proc_def fuse_helper_opt_proc_def fuse_mnt_parse_fuse_fd_def realpath_def
      fuse_opt_add_opt_def add_opt_common_def escape_opt_def helper_ctx_def)

lemma process_flag_one: "a \<in> set helper_flags \<Longrightarrow> cx_nonopt ctx = 0 \<Longrightarrow> process_one env a ctx = process_gopt env a False ctx"
  by (auto simp: helper_flags_def process_one_def at_def)

definition mountpoints :: "string list \<Rightarrow> string list" where
  "mountpoints as = filter (\<lambda>a. a \<notin> set helper_flags) as"

lemma helper_loop:
  assumes al: "\<And>n. oe_alloc env n"
  shows "drop i argv = as \<Longrightarrow> i \<le> length argv \<Longrightarrow>
    \<forall>a \<in> set (mountpoints as). at a 0 \<noteq> CHR ''-'' \<and> length a < PATH_MAX \<and> NUL \<notin> set a \<Longrightarrow>
    (if length (mountpoints as) + (if co_mountpoint data = None then 0 else 1) \<le> 1
     then \<exists>m. opt_loop env (helper_ctx env data argv i l n) =
       Some (0, helper_ctx env (fold cmdline_arg as data) argv (length argv) (l @ filter (\<lambda>a. a = ''-d'') as) m)
     else \<exists>ctx. opt_loop env (helper_ctx env data argv i l n) = Some (- 1, ctx))"
proof (induction as arbitrary: i data l n)
  case Nil
  then have "i = length argv" by simp
  then show ?case by (auto simp: opt_loop.simps [of env "helper_ctx env data argv (length argv) l n"] mountpoints_def)
next
  case (Cons a as)
  have i: "i < length argv" "argv ! i = a" "drop (Suc i) argv = as" using Cons.prems(1) by (auto dest: drop_Cons_nth)
  show ?case
  proof (cases "a \<in> set helper_flags")
    case True
    obtain m where "process_one env a (helper_ctx env data argv i l n) =
      Some (0, helper_ctx env (cmdline_arg a data) argv i (l @ (if a = ''-d'' then [a] else [])) m)"
      using process_flag [OF al True, of data argv i l n] True by (auto simp: process_flag_one)
    then have "opt_loop env (helper_ctx env data argv i l n) =
      opt_loop env (helper_ctx env (cmdline_arg a data) argv (Suc i) (l @ (if a = ''-d'' then [a] else [])) m)"
      using i by (subst opt_loop.simps) simp
    moreover have "co_mountpoint (cmdline_arg a data) = co_mountpoint data"
      using True by (auto simp: helper_flags_def cmdline_arg_def)
    ultimately show ?thesis
      using Cons.IH [of "Suc i" "cmdline_arg a data" "l @ (if a = ''-d'' then [a] else [])" m] i Cons.prems(3) True
      by (auto simp: mountpoints_def split: if_split_asm)
  next
    case False
    then have ar: "at a 0 \<noteq> CHR ''-''" "length a < PATH_MAX" "NUL \<notin> set a" using Cons.prems(3) by (auto simp: mountpoints_def)
    have arg: "cmdline_arg a data = data\<lparr>co_mountpoint := Some a\<rparr>" "a \<noteq> ''-d''"
      using False by (auto simp: helper_flags_def cmdline_arg_def)
    show ?thesis
    proof (cases "co_mountpoint data = None")
      case None: True
      obtain m where "process_one env a (helper_ctx env data argv i l n) =
        Some (0, helper_ctx env (data\<lparr>co_mountpoint := Some a\<rparr>) argv i l m)"
        using process_mountpoint(1) [OF al ar None] by blast
      then have "opt_loop env (helper_ctx env data argv i l n) =
        opt_loop env (helper_ctx env (data\<lparr>co_mountpoint := Some a\<rparr>) argv (Suc i) l m)"
        using i by (subst opt_loop.simps) simp
      then show ?thesis
        using Cons.IH [of "Suc i" "data\<lparr>co_mountpoint := Some a\<rparr>" l m] i Cons.prems(3) False None arg
        by (auto simp: mountpoints_def split: if_split_asm)
    next
      case some: False
      have "opt_loop env (helper_ctx env data argv i l n) = Some (- 1, helper_ctx env data argv i l n)"
        using i process_mountpoint(2) [OF al ar some] by (subst opt_loop.simps) simp
      then show ?thesis using False some by (auto simp: mountpoints_def)
    qed
  qed
qed

lemma fold_cmdline_fields:
  "co_singlethread (fold cmdline_arg as d) = (if ''-s'' \<in> set as then 1 else co_singlethread d)"
  "co_foreground (fold cmdline_arg as d) = (if ''-f'' \<in> set as \<or> ''-d'' \<in> set as then 1 else co_foreground d)"
  "co_debug (fold cmdline_arg as d) = (if ''-d'' \<in> set as then 1 else co_debug d)"
  "co_show_version (fold cmdline_arg as d) = (if ''-V'' \<in> set as \<or> ''--version'' \<in> set as then 1 else co_show_version d)"
  "co_show_help (fold cmdline_arg as d) = (if ''-h'' \<in> set as \<or> ''--help'' \<in> set as then 1 else co_show_help d)"
  "co_nodefault_subtype (fold cmdline_arg as d) = co_nodefault_subtype d" "co_clone_fd (fold cmdline_arg as d) = co_clone_fd d"
  "co_max_idle_threads (fold cmdline_arg as d) = co_max_idle_threads d" "co_max_threads (fold cmdline_arg as d) = co_max_threads d"
  by (induction as arbitrary: d; auto simp: cmdline_arg_def)+

lemma cmdline_arg_mountpoint: "co_mountpoint (cmdline_arg a d) = (if a \<in> set helper_flags then co_mountpoint d else Some a)"
  by (auto simp: cmdline_arg_def helper_flags_def)

lemma fold_cmdline_mountpoint:
  "length (mountpoints as) \<le> 1 \<Longrightarrow>
   co_mountpoint (fold cmdline_arg as d) = (case mountpoints as of [] \<Rightarrow> co_mountpoint d | m # _ \<Rightarrow> Some m)"
proof (induction as arbitrary: d)
  case (Cons a as)
  then show ?case by (cases "a \<in> set helper_flags") (auto simp: mountpoints_def cmdline_arg_mountpoint split: list.splits)
qed (simp add: mountpoints_def)

lemma cmdline_flags:
  assumes al: "\<And>n. oe_alloc env n"
    and as: "\<forall>a \<in> set (mountpoints as). at a 0 \<noteq> CHR ''-'' \<and> length a < PATH_MAX \<and> NUL \<notin> set a"
    and args: "args = \<lparr>fa_argc = Suc (length as), fa_argv = Some (prog # as), fa_allocated = False\<rparr>"
  shows "if length (mountpoints as) \<le> 1
    then \<exists>m. fuse_parse_cmdline_312 env args n = Some (0, args_of (prog # filter (\<lambda>a. a = ''-d'') as @ [''-osubtype='' @ basename prog]),
      \<lparr>co_singlethread = of_bool (''-s'' \<in> set as), co_foreground = of_bool (''-f'' \<in> set as \<or> ''-d'' \<in> set as),
       co_debug = of_bool (''-d'' \<in> set as), co_nodefault_subtype = 0,
       co_mountpoint = (case mountpoints as of [] \<Rightarrow> None | m # _ \<Rightarrow> Some m),
       co_show_version = of_bool (''-V'' \<in> set as \<or> ''--version'' \<in> set as),
       co_show_help = of_bool (''-h'' \<in> set as \<or> ''--help'' \<in> set as),
       co_clone_fd = 0, co_max_idle_threads = - 1, co_max_threads = 10\<rparr>, m)
    else \<exists>opts m. fuse_parse_cmdline_312 env args n = Some (- 1, args, opts, m)"
proof -
  let ?d = "\<lparr>co_singlethread = 0, co_foreground = 0, co_debug = 0, co_nodefault_subtype = 0, co_mountpoint = None,
    co_show_version = 0, co_show_help = 0, co_clone_fd = 0, co_max_idle_threads = - 1, co_max_threads = 10\<rparr>"
  let ?opts = "\<lparr>co_singlethread = of_bool (''-s'' \<in> set as), co_foreground = of_bool (''-f'' \<in> set as \<or> ''-d'' \<in> set as),
    co_debug = of_bool (''-d'' \<in> set as), co_nodefault_subtype = 0,
    co_mountpoint = (case mountpoints as of [] \<Rightarrow> None | m # _ \<Rightarrow> Some m),
    co_show_version = of_bool (''-V'' \<in> set as \<or> ''--version'' \<in> set as),
    co_show_help = of_bool (''-h'' \<in> set as \<or> ''--help'' \<in> set as),
    co_clone_fd = 0, co_max_idle_threads = - 1, co_max_threads = 10\<rparr>"
  let ?argv = "prog # as" let ?l = "filter (\<lambda>a. a = ''-d'') as"
  have first: "add_arg env prog (helper_ctx env ?d ?argv 0 [] n\<lparr>cx_outargs := \<lparr>fa_argc = 0, fa_argv = None, fa_allocated = False\<rparr>\<rparr>)
    = Some (0, helper_ctx env ?d ?argv 0 [prog] (n + 2))"
    by (simp add: add_arg_def fuse_opt_add_arg_def al helper_ctx_def)
  note loop = helper_loop [OF al, of 1 ?argv as ?d "[prog]" "n + 2"]
  show ?thesis
  proof (cases "length (mountpoints as) \<le> 1")
    case True
    then obtain m where l: "opt_loop env (helper_ctx env ?d ?argv 1 [prog] (n + 2)) =
      Some (0, helper_ctx env (fold cmdline_arg as ?d) ?argv (Suc (length as)) (prog # ?l) m)"
      using loop as by auto
    have "fuse_opt_parse env (Some args) ?d fuse_helper_opts (Some (fuse_helper_opt_proc env)) n =
      Some (0, Some (args_of (prog # ?l)), fold cmdline_arg as ?d, m)"
      using first l unfolding fuse_opt_parse_def args
      by (simp add: opt_parse_def) (simp add: helper_ctx_def drop_separator_def)
    moreover have "fold cmdline_arg as ?d = ?opts"
      by (rule fuse_cmdline_opts.equality) (simp_all add: fold_cmdline_fields fold_cmdline_mountpoint [OF True] split: list.split)
    ultimately show ?thesis using True
      by (simp add: fuse_parse_cmdline_312_def add_default_subtype_def al fuse_opt_add_arg_def)
  next
    case False
    then obtain ctx where l: "opt_loop env (helper_ctx env ?d ?argv 1 [prog] (n + 2)) = Some (- 1, ctx)"
      using loop as by auto
    then have "fuse_opt_parse env (Some args) ?d fuse_helper_opts (Some (fuse_helper_opt_proc env)) n =
      Some (- 1, Some args, cx_data ctx, cx_allocs ctx)"
      using first unfolding fuse_opt_parse_def args
      by (simp add: opt_parse_def) (simp add: helper_ctx_def)
    then show ?thesis using False by (simp add: fuse_parse_cmdline_312_def)
  qed
qed

text \<open>Without \<^verbatim>\<open>fork\<close>, a file system cannot leave the foreground (and keeps the pipe open when it tries).\<close>

lemma fuse_daemonize_result:
  "fuse_daemonize os foreground =
     (if foreground = 0 then (Continues (- 1), if do_pipe os = None then [Pipe] else [Pipe, Fork])
      else (Continues 0, [Chdir ''/'']))"
  by (auto simp: fuse_daemonize_def fork_def split: option.splits)

text \<open>The main function of the high-level API never gets to mount anything.\<close>

lemma fuse_main_real_result:
  assumes "\<And>n. oe_alloc env n" and "\<forall>a \<in> set (mountpoints as). at a 0 \<noteq> CHR ''-'' \<and> length a < PATH_MAX \<and> NUL \<notin> set a"
  shows "fuse_main_real_30 env os (prog # as) n =
    Some (if length (mountpoints as) > 1 then 1
          else if set as \<inter> {''-h'', ''--help'', ''-V'', ''--version''} \<noteq> {} then 0
          else if mountpoints as = [] then 2 else 3)"
  using cmdline_flags [OF assms refl, of prog n]
  by (auto simp: fuse_main_real_30_def fuse_main_real_versioned_def fuse_new_31_def split: if_splits list.splits)

section \<open>Properties\<close>

text \<open>Parsing a command line of the common flags and non-option arguments, in any order: the flags set
  exactly their fields (\<^verbatim>\<open>-d\<close> implies foreground), a single non-option argument is the mount point, what is
  left are the program's name, the \<^verbatim>\<open>-d\<close> flags and the default subtype; more than one non-option argument is
  an error that leaves the arguments as they were.\<close>

lemma cmdline_flags_parsed:
  assumes al: "\<And>n. oe_alloc env n"
    and as: "\<forall>a \<in> set (mountpoints as). at a 0 \<noteq> CHR ''-'' \<and> length a < PATH_MAX \<and> NUL \<notin> set a"
    and args: "args = \<lparr>fa_argc = Suc (length as), fa_argv = Some (prog # as), fa_allocated = False\<rparr>"
  shows "if length (mountpoints as) \<le> 1
    then \<exists>m. fuse_parse_cmdline_312 env args n = Some (0, args_of (prog # filter (\<lambda>a. a = ''-d'') as @ [''-osubtype='' @ basename prog]),
      \<lparr>co_singlethread = of_bool (''-s'' \<in> set as), co_foreground = of_bool (''-f'' \<in> set as \<or> ''-d'' \<in> set as),
       co_debug = of_bool (''-d'' \<in> set as), co_nodefault_subtype = 0,
       co_mountpoint = (case mountpoints as of [] \<Rightarrow> None | m # _ \<Rightarrow> Some m),
       co_show_version = of_bool (''-V'' \<in> set as \<or> ''--version'' \<in> set as),
       co_show_help = of_bool (''-h'' \<in> set as \<or> ''--help'' \<in> set as),
       co_clone_fd = 0, co_max_idle_threads = - 1, co_max_threads = 10\<rparr>, m)
    else \<exists>opts m. fuse_parse_cmdline_312 env args n = Some (- 1, args, opts, m)"
  using assms by (rule cmdline_flags)

lemma conn_flags [simp]:
  "capable_ext (conn (LL_ENABLE c f w)) = capable_ext (conn w)"
  "capable_ext (conn (LL_DISABLE c f w)) = capable_ext (conn w)"
  "bit (want_ext (conn (LL_ENABLE c f w))) i \<longleftrightarrow> bit (want_ext (conn w)) i \<or> c \<noteq> 0 \<and> has_bits (capable_ext (conn w)) f \<and> bit f i"
  "bit (want_ext (conn (LL_DISABLE c f w))) i \<longleftrightarrow> bit (want_ext (conn w)) i \<and> \<not> (c \<noteq> 0 \<and> bit f i)"
  "max_write (conn (LL_ENABLE c f w)) = max_write (conn w)" "max_write (conn (LL_DISABLE c f w)) = max_write (conn w)"
  by (auto simp: LL_ENABLE_def LL_DISABLE_def fuse_set_feature_flag_def fuse_unset_feature_flag_def se_mod_def bit_simps
      dest: bit_imp_le_length)

text \<open>Enabling and disabling capabilities changes nothing else of the connection.\<close>

lemma conn_flags_only:
  "conn (LL_ENABLE c f w) = (conn w)\<lparr>want := want (conn (LL_ENABLE c f w)), want_ext := want_ext (conn (LL_ENABLE c f w))\<rparr>"
  "conn (LL_DISABLE c f w) = (conn w)\<lparr>want := want (conn (LL_DISABLE c f w)), want_ext := want_ext (conn (LL_DISABLE c f w))\<rparr>"
  by (simp_all add: LL_ENABLE_def LL_DISABLE_def fuse_set_feature_flag_def fuse_unset_feature_flag_def se_mod_def)

definition same_limits :: "fuse_conn_info \<Rightarrow> 'u fuse_world \<Rightarrow> bool" where
  "same_limits c w \<longleftrightarrow> conn w = c\<lparr>want := want (conn w), want_ext := want_ext (conn w)\<rparr>"

lemma same_limits_flags [simp]: "same_limits c (LL_ENABLE e f w) \<longleftrightarrow> same_limits c w" "same_limits c (LL_DISABLE e f w) \<longleftrightarrow> same_limits c w"
  by (simp_all add: same_limits_def) (subst conn_flags_only, cases "conn w", cases c, simp)+

lemma apply_only_limits: "same_limits (apply_limits opts (conn w)) (fuse_apply_conn_info_opts opts w)"
proof -
  have "same_limits (apply_limits opts (conn w)) (conn_mod (apply_limits opts) w)"
    by (simp add: same_limits_def conn_mod_def se_mod_def)
  then show ?thesis by (simp add: fuse_apply_conn_info_opts_def Let_def)
qed

lemma apply_limits_fields:
  "apply_limits opts c = c\<lparr>
      max_write := (if ci_set_max_write opts = 0 then max_write c else ci_max_write opts),
      max_background := (if ci_set_max_background opts = 0 then max_background c else ci_max_background opts),
      congestion_threshold := (if ci_set_congestion_threshold opts = 0 then congestion_threshold c else ci_congestion_threshold opts),
      time_gran := (if ci_set_time_gran opts = 0 then time_gran c else ci_time_gran opts),
      max_readahead := (if ci_set_max_readahead opts = 0 then max_readahead c else ci_max_readahead opts)\<rparr>"
  by (cases c) (simp add: apply_limits_def Let_def)

definition conn_caps :: "fuse_conn_info_opts \<Rightarrow> (u32 \<times> u32 \<times> nat) list" where
  "conn_caps opts =
     [(ci_async_read opts, ci_sync_read opts, 0), (0, ci_no_remote_posix_lock opts, 1), (ci_splice_write opts, ci_no_splice_write opts, 7),
      (ci_splice_move opts, ci_no_splice_move opts, 8), (ci_splice_read opts, ci_no_splice_read opts, 9), (0, ci_no_remote_flock opts, 10),
      (ci_auto_inval_data opts, ci_no_auto_inval_data opts, 12), (0, ci_no_readdirplus opts, 13), (0, ci_no_readdirplus_auto opts, 14),
      (ci_async_dio opts, ci_no_async_dio opts, 15), (ci_writeback_cache opts, ci_no_writeback_cache opts, 16)]"

lemma single_cap:
  fixes f w :: u64
  assumes "f = 2 ^ n" and "n < 64"
  shows "has_bits w f \<longleftrightarrow> bit w n" and "bit f i \<longleftrightarrow> i = n"
  using assms by (auto simp: has_bits_single bit_simps)

lemma cap_bits:
  "has_bits w FUSE_CAP_ASYNC_READ \<longleftrightarrow> bit w 0" "bit FUSE_CAP_ASYNC_READ i \<longleftrightarrow> i = 0"
  "has_bits w FUSE_CAP_POSIX_LOCKS \<longleftrightarrow> bit w 1" "bit FUSE_CAP_POSIX_LOCKS i \<longleftrightarrow> i = 1"
  "has_bits w FUSE_CAP_SPLICE_WRITE \<longleftrightarrow> bit w 7" "bit FUSE_CAP_SPLICE_WRITE i \<longleftrightarrow> i = 7"
  "has_bits w FUSE_CAP_SPLICE_MOVE \<longleftrightarrow> bit w 8" "bit FUSE_CAP_SPLICE_MOVE i \<longleftrightarrow> i = 8"
  "has_bits w FUSE_CAP_SPLICE_READ \<longleftrightarrow> bit w 9" "bit FUSE_CAP_SPLICE_READ i \<longleftrightarrow> i = 9"
  "has_bits w FUSE_CAP_FLOCK_LOCKS \<longleftrightarrow> bit w 10" "bit FUSE_CAP_FLOCK_LOCKS i \<longleftrightarrow> i = 10"
  "has_bits w FUSE_CAP_AUTO_INVAL_DATA \<longleftrightarrow> bit w 12" "bit FUSE_CAP_AUTO_INVAL_DATA i \<longleftrightarrow> i = 12"
  "has_bits w FUSE_CAP_READDIRPLUS \<longleftrightarrow> bit w 13" "bit FUSE_CAP_READDIRPLUS i \<longleftrightarrow> i = 13"
  "has_bits w FUSE_CAP_READDIRPLUS_AUTO \<longleftrightarrow> bit w 14" "bit FUSE_CAP_READDIRPLUS_AUTO i \<longleftrightarrow> i = 14"
  "has_bits w FUSE_CAP_ASYNC_DIO \<longleftrightarrow> bit w 15" "bit FUSE_CAP_ASYNC_DIO i \<longleftrightarrow> i = 15"
  "has_bits w FUSE_CAP_WRITEBACK_CACHE \<longleftrightarrow> bit w 16" "bit FUSE_CAP_WRITEBACK_CACHE i \<longleftrightarrow> i = 16"
  by (rule single_cap; simp)+

lemma apply_bits:
  fixes opts :: fuse_conn_info_opts and w :: "'u fuse_world"
  defines "w' \<equiv> fuse_apply_conn_info_opts opts w"
  shows "bit (want_ext (conn w')) i \<longleftrightarrow>
    (case find (\<lambda>(e, d, n). n = i) (conn_caps opts) of
       None \<Rightarrow> bit (want_ext (conn w)) i
     | Some (e, d, n) \<Rightarrow> d = 0 \<and> (bit (want_ext (conn w)) i \<or> e \<noteq> 0 \<and> bit (capable_ext (conn w)) i))"
proof -
  have l: "want_ext (conn (conn_mod (apply_limits opts) w)) = want_ext (conn w)" "capable_ext (conn (conn_mod (apply_limits opts) w)) = capable_ext (conn w)"
    by (simp_all add: conn_mod_def se_mod_def apply_limits_def Let_def)
  show ?thesis unfolding w'_def fuse_apply_conn_info_opts_def Let_def
    by (simp add: cap_bits l conn_caps_def conj_commute del: bit_numeral_word_iff)
qed

text \<open>\<^bold>\<open>C33\<close> Applying connection options: each capability with options is wanted afterwards exactly if it is not
  disabled and was wanted before or is enabled and offered by the kernel; disabling wins over enabling, every
  other capability is as before, so nothing is wanted that is not offered (if nothing was before). Each of the limits \<^verbatim>\<open>max_write\<close>,
  \<^verbatim>\<open>max_background\<close>, \<^verbatim>\<open>congestion_threshold\<close>, \<^verbatim>\<open>time_gran\<close> and \<^verbatim>\<open>max_readahead\<close> is the option's value if it was set and the old
  one if not, and nothing else of the connection changes but the wanted capabilities. The option \<^verbatim>\<open>atomic_o_trunc\<close> has no effect.\<close>

theorem conn_opts_applied:
  fixes w :: "'u fuse_world"
  assumes "want_flags_valid (capable_ext (conn w)) (want_ext (conn w))"
  shows "want_flags_valid (capable_ext (conn w)) (want_ext (conn (fuse_apply_conn_info_opts opts w))) \<and>
    (\<forall>i. bit (want_ext (conn (fuse_apply_conn_info_opts opts w))) i \<longleftrightarrow>
      (case find (\<lambda>(e, d, n). n = i) (conn_caps opts) of
         None \<Rightarrow> bit (want_ext (conn w)) i
       | Some (e, d, n) \<Rightarrow> d = 0 \<and> (bit (want_ext (conn w)) i \<or> e \<noteq> 0 \<and> bit (capable_ext (conn w)) i))) \<and>
    conn (fuse_apply_conn_info_opts opts w) = (conn w)\<lparr>
      max_write := (if ci_set_max_write opts = 0 then max_write (conn w) else ci_max_write opts),
      max_background := (if ci_set_max_background opts = 0 then max_background (conn w) else ci_max_background opts),
      congestion_threshold := (if ci_set_congestion_threshold opts = 0 then congestion_threshold (conn w) else ci_congestion_threshold opts),
      time_gran := (if ci_set_time_gran opts = 0 then time_gran (conn w) else ci_time_gran opts),
      max_readahead := (if ci_set_max_readahead opts = 0 then max_readahead (conn w) else ci_max_readahead opts),
      want := want (conn (fuse_apply_conn_info_opts opts w)), want_ext := want_ext (conn (fuse_apply_conn_info_opts opts w))\<rparr> \<and>
    fuse_apply_conn_info_opts (opts\<lparr>ci_atomic_o_trunc := v\<rparr>) w = fuse_apply_conn_info_opts opts w"
proof (intro conjI allI)
  show "want_flags_valid (capable_ext (conn w)) (want_ext (conn (fuse_apply_conn_info_opts opts w)))"
    using assms unfolding want_flags_valid_bits apply_bits by (auto split: option.splits)
  show "conn (fuse_apply_conn_info_opts opts w) = (conn w)\<lparr>
      max_write := (if ci_set_max_write opts = 0 then max_write (conn w) else ci_max_write opts),
      max_background := (if ci_set_max_background opts = 0 then max_background (conn w) else ci_max_background opts),
      congestion_threshold := (if ci_set_congestion_threshold opts = 0 then congestion_threshold (conn w) else ci_congestion_threshold opts),
      time_gran := (if ci_set_time_gran opts = 0 then time_gran (conn w) else ci_time_gran opts),
      max_readahead := (if ci_set_max_readahead opts = 0 then max_readahead (conn w) else ci_max_readahead opts),
      want := want (conn (fuse_apply_conn_info_opts opts w)), want_ext := want_ext (conn (fuse_apply_conn_info_opts opts w))\<rparr>"
    using apply_only_limits [of opts w] unfolding same_limits_def apply_limits_fields by simp
  show "fuse_apply_conn_info_opts (opts\<lparr>ci_atomic_o_trunc := v\<rparr>) w = fuse_apply_conn_info_opts opts w"
  proof -
    have "apply_limits (opts\<lparr>ci_atomic_o_trunc := v\<rparr>) = apply_limits opts" by (intro ext) (simp add: apply_limits_def)
    then show ?thesis by (simp add: fuse_apply_conn_info_opts_def)
  qed
qed (simp add: apply_bits)

theorem conn_opts_applied_witness:
  defines "w \<equiv> demo_world"
  defines "opts \<equiv> zero_conn_info_opts\<lparr>ci_splice_read := 1, ci_no_splice_read := 1, ci_set_max_write := 1, ci_max_write := 4096,
    ci_set_time_gran := 1, ci_time_gran := 1000, ci_max_background := 7\<rparr>"
  defines "c \<equiv> conn (fuse_apply_conn_info_opts opts w)"
  shows "\<not> bit (want_ext c) 9 \<and> max_write c = 4096 \<and> time_gran c = 1000 \<and> max_background c = max_background (conn w)"
proof -
  have "want_flags_valid (capable_ext (conn w)) (want_ext (conn w))"
    by (simp add: w_def want_flags_valid_def demo_world_def fuse_session_new_versioned_def demo_platform_def zero_session_def
        zero_conn_info_def Let_def)
  note c = conn_opts_applied [OF this, of opts, folded c_def]
  have "\<not> bit (want_ext c) 9" using c by (simp add: conn_caps_def opts_def zero_conn_info_opts_def)
  moreover have "max_write c = 4096" "time_gran c = 1000" "max_background c = max_background (conn w)"
    by (subst c [THEN conjunct2, THEN conjunct2, THEN conjunct1], simp add: opts_def zero_conn_info_opts_def)+
  ultimately show ?thesis by simp
qed

end
