(* ===== verification/Fuse_Session.thy ===== *)
theory Fuse_Session
  imports Fuse_Helper Fuse_Dispatch
begin

text \<open>
  The rest of the session of \<^verbatim>\<open>libs/libfuse/lib/fuse_lowlevel.c\<close>: request buffers, receiving a request from
  the device, custom I/O, registration for the driver (\<^verbatim>\<open>fuse_session_mount\<close>), the blocking session loop and
  the end of a session; and the main function of the file systems under \<^verbatim>\<open>apps/\<close> (compiled as
  \<^verbatim>\<open>fuse_backend_main\<close>), which the test programs run in a thread of its own.

  Parameters: the addresses the C library's allocator returns, the results of the reads from the device, and
  the operating system calls behind \<^verbatim>\<open>fuse_daemonize\<close>.
\<close>

section \<open>Request buffers\<close>

text \<open>The allocator: the \<open>n\<close>-th call for a size gives an address or no memory. The live blocks are kept by
  their address.\<close>

record c_heap =
  hp_calls :: nat
  hp_live :: "u64 list"

type_synonym allocator = "nat \<Rightarrow> u64 \<Rightarrow> u64 option"

definition heap_alloc :: "allocator \<Rightarrow> u64 \<Rightarrow> c_heap \<Rightarrow> u64 option \<times> c_heap" where
  "heap_alloc al sz h =
     (case al (hp_calls h) sz of
        None \<Rightarrow> (None, h\<lparr>hp_calls := hp_calls h + 1\<rparr>)
      | Some p \<Rightarrow> (Some p, h\<lparr>hp_calls := hp_calls h + 1, hp_live := p # hp_live h\<rparr>))"

definition heap_free :: "u64 \<Rightarrow> c_heap \<Rightarrow> c_heap option" where
  "heap_free p h = (if p \<in> set (hp_live h) then Some (h\<lparr>hp_live := remove1 p (hp_live h)\<rparr>) else None)"

abbreviation pagesize :: u64 where "pagesize \<equiv> 4096"
abbreviation write_header_sz :: u64 where "write_header_sz \<equiv> 80"

definition ROUND_UP :: "u64 \<Rightarrow> u64 \<Rightarrow> u64" where
  "ROUND_UP v d = (v + d - 1) AND NOT (d - 1)"

definition buf_alloc :: "allocator \<Rightarrow> u64 \<Rightarrow> bool \<Rightarrow> c_heap \<Rightarrow> u64 option \<times> c_heap" where
  "buf_alloc al sz internal h =
     (if internal then
        (let new_size = ROUND_UP (sz + write_header_sz) pagesize;
             (buf, h) = heap_alloc al new_size h
         in case buf of
              None \<Rightarrow> (None, h)
            | Some p \<Rightarrow> (Some (p + (pagesize - write_header_sz)), h))
      else heap_alloc al sz h)"

record recv_buf =
  rb_mem :: "u64 option"
  rb_mem_size :: u64
  rb_size :: u64

definition fuse_buf_free :: "recv_buf \<Rightarrow> c_heap \<Rightarrow> (recv_buf \<times> c_heap) option" where
  "fuse_buf_free buf h =
     (case rb_mem buf of
        None \<Rightarrow> Some (buf, h)
      | Some p \<Rightarrow>
          (let ptr = p - pagesize + write_header_sz
           in case heap_free ptr h of
                None \<Rightarrow> None
              | Some h \<Rightarrow> Some (buf\<lparr>rb_mem := None\<rparr>, h)))"

section \<open>Receiving a request\<close>

abbreviation ENODEV :: int where "ENODEV \<equiv> 19"

text \<open>What a read from the device does: the result, and whether the session was told to end meanwhile. The
  list of reads stands for the device; when it is used up, the read blocks and the function does not return.
  Custom I/O (\<^verbatim>\<open>se->io->read\<close>) has the same results.\<close>

datatype read_result = ReadErr int | ReadOk nat

type_synonym device = "(read_result \<times> bool) list"

datatype 'a recv = Received 'a | RecvBlocked | RecvFault

fun receive_restart :: "allocator \<Rightarrow> bool \<Rightarrow> device \<Rightarrow> u64 \<Rightarrow> recv_buf \<Rightarrow> c_heap \<Rightarrow> 'u fuse_world \<Rightarrow>
    (int \<times> recv_buf \<times> c_heap \<times> 'u fuse_world) recv" where
  "receive_restart al internal [] bufsize buf h w = RecvBlocked"
| "receive_restart al internal ((r, ended) # dev) bufsize buf h w =
     (let w = (if ended then se_mod (\<lambda>s. s\<lparr>se_mt_exited := True\<rparr>) w else w)
      in if fuse_session_exited w \<noteq> 0 then Received (0, buf, h, w)
         else case r of
           ReadErr err \<Rightarrow>
             if err = EINVAL \<and> internal \<and> bufsize < se_bufsize (se w) then
               (let bufsize = se_bufsize (se w);
                    (newbuf, h) = buf_alloc al bufsize internal h
                in case newbuf of
                     None \<Rightarrow> Received (- ENOMEM, buf, h, w)
                   | Some p \<Rightarrow>
                       (case fuse_buf_free buf h of
                          None \<Rightarrow> RecvFault
                        | Some (buf, h) \<Rightarrow>
                            receive_restart al internal dev bufsize (buf\<lparr>rb_mem := Some p, rb_mem_size := bufsize\<rparr>) h w))
             else if err = ENOENT then receive_restart al internal dev bufsize buf h w
             else if err = ENODEV then Received (0, buf, h, fuse_session_exit w)
             else Received (- err, buf, h, w)
         | ReadOk res \<Rightarrow>
             if res < 40 then Received (- EIO, buf, h, w)
             else Received (int res, buf\<lparr>rb_size := of_nat res\<rparr>, h, w))"

definition fuse_session_receive_buf_common :: "allocator \<Rightarrow> bool \<Rightarrow> device \<Rightarrow> recv_buf \<Rightarrow> c_heap \<Rightarrow> 'u fuse_world \<Rightarrow>
    (int \<times> recv_buf \<times> c_heap \<times> 'u fuse_world) recv" where
  "fuse_session_receive_buf_common al internal dev buf h w =
     (case rb_mem buf of
        Some _ \<Rightarrow> receive_restart al internal dev (if internal then rb_mem_size buf else se_bufsize (se w)) buf h w
      | None \<Rightarrow>
          (let bufsize = se_bufsize (se w);
               (mem, h) = buf_alloc al bufsize internal h
           in case mem of
                None \<Rightarrow> Received (- ENOMEM, buf, h, w)
              | Some p \<Rightarrow>
                  (let buf = buf\<lparr>rb_mem := Some p\<rparr>;
                       buf = (if internal then buf\<lparr>rb_mem_size := bufsize\<rparr> else buf)
                   in receive_restart al internal dev bufsize buf h w)))"

definition fuse_session_receive_buf :: "allocator \<Rightarrow> device \<Rightarrow> recv_buf \<Rightarrow> c_heap \<Rightarrow> 'u fuse_world \<Rightarrow>
    (int \<times> recv_buf \<times> c_heap \<times> 'u fuse_world) recv" where
  "fuse_session_receive_buf al dev buf h w = fuse_session_receive_buf_common al False dev buf h w"

definition fuse_session_receive_buf_internal :: "allocator \<Rightarrow> device \<Rightarrow> recv_buf \<Rightarrow> c_heap \<Rightarrow> 'u fuse_world \<Rightarrow>
    (int \<times> recv_buf \<times> c_heap \<times> 'u fuse_world) recv" where
  "fuse_session_receive_buf_internal al dev buf h w =
     (let w = (if \<not> se_got_init (se w) \<and> \<not> se_buf_reallocable (se w)
               then se_mod (\<lambda>s. s\<lparr>se_buf_reallocable := True\<rparr>) w else w)
      in fuse_session_receive_buf_common al True dev buf h w)"

section \<open>Session\<close>

definition fuse_session_new_30 :: "platform \<Rightarrow> 'u \<Rightarrow> bool \<Rightarrow> nat \<Rightarrow> nat \<Rightarrow> u64 \<Rightarrow> 'u fuse_world option" where
  "fuse_session_new_30 p fs op_given op_size sizeof_ops userdata =
     fuse_session_new_versioned p fs True (if op_given then op_size else sizeof_ops) userdata"

text \<open>\<open>io\<close> is the pair of whether its \<^verbatim>\<open>read\<close> and its \<^verbatim>\<open>writev\<close> are given, or a null pointer.\<close>

definition fuse_session_custom_io_317 :: "(bool \<times> bool) option \<Rightarrow> int \<Rightarrow> 'u fuse_world \<Rightarrow> int \<times> 'u fuse_world" where
  "fuse_session_custom_io_317 io fd w =
     (if fd < 0 then (- EBADF, w)
      else case io of
        None \<Rightarrow> (- EINVAL, w)
      | Some (rd_given, wr_given) \<Rightarrow>
          if \<not> rd_given \<or> \<not> wr_given then (- EINVAL, w)
          else
            (let (mem, w) = try_malloc w
             in if \<not> mem then (- ENOMEM, se_mod (\<lambda>s. s\<lparr>se_io := False\<rparr>) w)
                else (0, se_mod (\<lambda>s. s\<lparr>se_io := True, se_fd := fd\<rparr>) w)))"

definition fuse_session_custom_io_30 :: "(bool \<times> bool) option \<Rightarrow> int \<Rightarrow> 'u fuse_world \<Rightarrow> int \<times> 'u fuse_world" where
  "fuse_session_custom_io_30 io fd w = fuse_session_custom_io_317 io fd w"

definition fuse_session_fd :: "'u fuse_world \<Rightarrow> int" where
  "fuse_session_fd w = se_fd (se w)"

text \<open>The end of a session: the file system's \<^verbatim>\<open>destroy\<close> runs unless DESTROY was received, then the session's
  descriptor is closed (the second result; the session is freed).\<close>

definition fuse_session_destroy :: "'u fuse_lowlevel_ops \<Rightarrow> 'u fuse_world \<Rightarrow> 'u fuse_world \<times> int option" where
  "fuse_session_destroy op w =
     (let w = (if se_got_init (se w) \<and> \<not> se_got_destroy (se w)
               then (case op_destroy op of None \<Rightarrow> w | Some f \<Rightarrow> f (se_userdata (se w)) w) else w)
      in (w, if se_fd (se w) \<noteq> - 1 then Some (se_fd (se w)) else None))"

section \<open>The main function of a file system\<close>

text \<open>\<^verbatim>\<open>fuse_session_mount\<close> registers the session for the driver. The registered pointer is never reset, so
  after \<^verbatim>\<open>fuse_session_destroy\<close> it points to freed memory.\<close>

datatype 'u registered = NoSession | LiveSession "'u fuse_world" | FreedSession

definition fuse_session_mount :: "'u fuse_world \<Rightarrow> int \<times> 'u registered" where
  "fuse_session_mount w = (0, LiveSession w)"

text \<open>\<^verbatim>\<open>fuse_compat_stub.c\<close>: the multi-threaded loop is refused.\<close>

definition fuse_session_loop_mt_312 :: int where "fuse_session_loop_mt_312 = - 1"

text \<open>The result of \<open>None\<close> is that the session loop blocks for ever on a semaphore of its own.\<close>

definition fuse_session_loop :: "int option" where "fuse_session_loop = None"

definition fuse_backend_main :: "opt_env \<Rightarrow> daemon_os \<Rightarrow> platform \<Rightarrow> 'u fuse_lowlevel_ops \<Rightarrow> 'u \<Rightarrow> nat \<Rightarrow> string list \<Rightarrow> nat \<Rightarrow>
    (int option \<times> 'u registered) option" where
  "fuse_backend_main env os p op fs sizeof_op argv n = do {
     (res, args, opts, n) \<leftarrow> fuse_parse_cmdline_312 env \<lparr>fa_argc = length argv, fa_argv = Some argv, fa_allocated = False\<rparr> n;
     if res \<noteq> 0 then Some (Some 1, NoSession)
     else if co_show_help opts \<noteq> 0 then Some (Some 0, NoSession)
     else if co_show_version opts \<noteq> 0 then Some (Some 0, NoSession)
     else if co_mountpoint opts = None then Some (Some 1, NoSession)
     else case fuse_session_new_versioned p fs True sizeof_op 0 of
       None \<Rightarrow> Some (Some 1, NoSession)
     | Some w \<Rightarrow>
         if fuse_set_signal_handlers \<noteq> 0 then Some (Some 1, NoSession)
         else (case fuse_session_mount w of (r, reg) \<Rightarrow>
           if r \<noteq> 0 then Some (Some 1, FreedSession)
           else case fst (fuse_daemonize os (co_foreground opts)) of
             Exits \<Rightarrow> Some (Some 0, reg)
           | Continues _ \<Rightarrow>
               if co_singlethread opts \<noteq> 0 then
                 (case fuse_session_loop of
                    None \<Rightarrow> Some (None, reg)
                  | Some ret \<Rightarrow> (let (w, fd) = fuse_session_destroy op (fuse_session_unmount w)
                                in Some (Some (if ret \<noteq> 0 then 1 else 0), FreedSession)))
               else
                 (let ret = fuse_session_loop_mt_312; (w, fd) = fuse_session_destroy op (fuse_session_unmount w)
                  in Some (Some (if ret \<noteq> 0 then 1 else 0), FreedSession)))
   }"

section \<open>Room in a request buffer\<close>

lemma unat_ROUND_UP:
  assumes "unat v + 4095 < 2 ^ 64"
  shows "unat (ROUND_UP v pagesize) = (unat v + 4095) div 4096 * 4096"
proof -
  let ?y = "v + 4095"
  have y: "unat ?y = unat v + 4095" using assms by (simp add: unat_word_ariths)
  have "(4095 :: u64) = mask 12" by (simp add: mask_eq_exp_minus_1)
  then have "ROUND_UP v pagesize = ?y AND NOT (take_bit 12 ?y)"
    unfolding ROUND_UP_def by (auto simp: bit_eq_iff bit_simps add.commute)
  also have "\<dots> = ?y - take_bit 12 ?y"
    by (rule disjunctive_diff_eq_and_not [symmetric]) (auto simp: bit_eq_iff bit_simps)
  finally have "ROUND_UP v pagesize = ?y - take_bit 12 ?y" .
  moreover have t: "unat (take_bit 12 ?y) = unat ?y mod 4096" 
    using unsigned_take_bit_eq [of 12 ?y, where ?'a = nat] take_bit_eq_mod [of 12 "unat ?y"] by simp
  ultimately have "unat (ROUND_UP v pagesize) = unat ?y - unat ?y mod 4096" by (simp add: unat_sub word_le_nat_alt)
  then show ?thesis unfolding y by (simp add: minus_mod_eq_div_mult)
qed

abbreviation raw_block :: "u64 \<Rightarrow> u64" where
  "raw_block p \<equiv> p - pagesize + write_header_sz"

lemma buf_alloc_cases:
  "buf_alloc al sz True h = (None, h\<lparr>hp_calls := hp_calls h + 1\<rparr>) \<or>
   (\<exists>b. al (hp_calls h) (ROUND_UP (sz + write_header_sz) pagesize) = Some b \<and>
     buf_alloc al sz True h = (Some (b + (pagesize - write_header_sz)), h\<lparr>hp_calls := hp_calls h + 1, hp_live := b # hp_live h\<rparr>))"
  by (auto simp: buf_alloc_def heap_alloc_def split: option.splits)

lemma raw_block_alloc [simp]: "raw_block (b + (pagesize - write_header_sz)) = b" by simp

lemma buffer_room:
  fixes s :: nat
  shows "s \<le> (s + 80 + 4095) div 4096 * 4096 - 4016 \<longleftrightarrow> \<not> (80 < s mod 4096 \<and> s mod 4096 \<le> 4016)"
proof -
  define k r where "k = s div 4096" and "r = s mod 4096"
  have s: "s = 4096 * k + r" and r: "r < 4096" by (simp_all add: k_def r_def)
  have "(s + 80 + 4095) div 4096 = k + (r + 4175) div 4096" unfolding s by simp
  moreover have "(r + 4175) div 4096 = (if r \<le> 4016 then 1 else 2)" using r by auto
  ultimately have d: "(s + 80 + 4095) div 4096 * 4096 = 4096 * k + (if r \<le> 4016 then 4096 else 8192)" by simp
  show ?thesis unfolding d r_def [symmetric] using s r by (cases "r \<le> 4016") auto
qed

section \<open>Properties\<close>

text \<open>\<^bold>\<open>C37\<close> A request buffer that the library allocates for itself: the payload of a WRITE request lies on the
  block's second page and freeing the buffer frees the block. The room from the buffer's start to the block's
  end covers the requested size except when that size is more than 80 and at most 4016 bytes over a multiple
  of the page size: then reads of the full size can go past the end.\<close>

theorem request_buffer_room:
  assumes "buf_alloc al sz True h = (Some p, h')" and "unat sz + 80 + 4095 < 2 ^ 64"
  shows "\<exists>b. al (hp_calls h) (ROUND_UP (sz + write_header_sz) pagesize) = Some b \<and> hp_live h' = b # hp_live h \<and>
    p + write_header_sz = b + pagesize \<and>
    fuse_buf_free \<lparr>rb_mem = Some p, rb_mem_size = sz, rb_size = k\<rparr> h' =
      Some (\<lparr>rb_mem = None, rb_mem_size = sz, rb_size = k\<rparr>, h'\<lparr>hp_live := hp_live h\<rparr>) \<and>
    (unat sz \<le> unat (ROUND_UP (sz + write_header_sz) pagesize) - 4016 \<longleftrightarrow> \<not> (80 < unat sz mod 4096 \<and> unat sz mod 4096 \<le> 4016))"
proof -
  let ?n = "ROUND_UP (sz + write_header_sz) pagesize"
  obtain b where b: "al (hp_calls h) ?n = Some b" "p = b + (pagesize - write_header_sz)"
      "h' = h\<lparr>hp_calls := hp_calls h + 1, hp_live := b # hp_live h\<rparr>"
    using assms(1) buf_alloc_cases [of al sz h] by auto
  have "unat (sz + write_header_sz) = unat sz + 80" using assms(2) by (simp add: unat_word_ariths)
  then have "unat ?n = (unat sz + 80 + 4095) div 4096 * 4096" using unat_ROUND_UP [of "sz + write_header_sz"] assms(2) by simp
  then show ?thesis using b buffer_room [of "unat sz"]
    by (intro exI [of _ b]) (auto simp: fuse_buf_free_def heap_free_def)
qed

theorem request_buffer_room_witness:
  defines "al \<equiv> (\<lambda>n sz. Some 8192) :: allocator" and "h \<equiv> \<lparr>hp_calls = 0, hp_live = []\<rparr>"
  shows "\<not> unat (9096 :: u64) \<le> unat (ROUND_UP (9096 + write_header_sz) pagesize) - 4016 \<and>
    unat (135168 :: u64) \<le> unat (ROUND_UP (135168 + write_header_sz) pagesize) - 4016"
proof -
  have "buf_alloc al sz True h = (Some (8192 + (pagesize - write_header_sz)), \<lparr>hp_calls = 1, hp_live = [8192]\<rparr>)" for sz
    by (simp add: buf_alloc_def heap_alloc_def al_def h_def)
  note c = request_buffer_room [OF this]
  show ?thesis using c [of 9096 0] c [of 135168 0] by simp
qed

lemma fuse_buf_free_ok:
  assumes "\<forall>p. rb_mem buf = Some p \<longrightarrow> raw_block p \<in> set (hp_live h)"
  shows "fuse_buf_free buf h = Some (buf\<lparr>rb_mem := None\<rparr>, case rb_mem buf of None \<Rightarrow> h | Some p \<Rightarrow> h\<lparr>hp_live := remove1 (raw_block p) (hp_live h)\<rparr>)"
  using assms by (auto simp: fuse_buf_free_def heap_free_def split: option.splits)

text \<open>A buffer that the library can free, and the reads that end a call.\<close>

definition recv_ok :: "recv_buf \<Rightarrow> c_heap \<Rightarrow> bool" where
  "recv_ok buf h \<longleftrightarrow> (\<exists>p. rb_mem buf = Some p \<and> raw_block p \<in> set (hp_live h))"

definition read_ends :: "read_result \<times> bool \<Rightarrow> bool" where
  "read_ends e \<longleftrightarrow> snd e \<or> fst e \<noteq> ReadErr ENOENT \<and> fst e \<noteq> ReadErr EINVAL"

lemma read_ends_restart [simp]: "\<not> read_ends (ReadErr ENOENT, False)" "\<not> read_ends (ReadErr EINVAL, False)"
  by (simp_all add: read_ends_def)

lemma receive_restart_result:
  fixes w :: "'u fuse_world"
  assumes "recv_ok buf h" and "list_ex read_ends dev" and "\<forall>e b. (ReadErr e, b) \<in> set dev \<longrightarrow> e > 0"
  shows "\<exists>res buf' h' w'. receive_restart al True dev bufsize buf h w = Received (res, buf', h', w') \<and>
    recv_ok buf' h' \<and> length (hp_live h') = length (hp_live h) \<and>
    (res > 0 \<longrightarrow> res \<ge> 40 \<and> rb_size buf' = of_int res \<and> (\<exists>b. (ReadOk (nat res), b) \<in> set dev)) \<and>
    (res = 0 \<longrightarrow> fuse_session_exited w' = 1)"
  using assms
proof (induction dev arbitrary: bufsize buf h w)
  case (Cons ev dev)
  obtain r ended where ev: "ev = (r, ended)" by (cases ev)
  define v where "v = (if ended then se_mod (\<lambda>s. s\<lparr>se_mt_exited := True\<rparr>) w else w)"
  have errs: "\<forall>e b. (ReadErr e, b) \<in> set dev \<longrightarrow> e > 0" using Cons.prems(3) by auto
  show ?case
  proof (cases "fuse_session_exited v = 0")
    case False
    then show ?thesis using Cons.prems(1) by (simp add: ev v_def [symmetric] Let_def) (simp add: fuse_session_exited_def split: if_splits)
  next
    case live: True
    then have ended: "\<not> ended" by (auto simp: v_def fuse_session_exited_def se_mod_def split: if_splits)
    show ?thesis
    proof (cases r)
      case (ReadOk n)
      then show ?thesis using Cons.prems(1) live by (cases "n < 40") (auto simp: ev v_def [symmetric] Let_def recv_ok_def)
    next
      case (ReadErr e)
      have e: "e > 0" using Cons.prems(3) ReadErr ev by auto
      show ?thesis
      proof (cases "e = EINVAL \<and> bufsize < se_bufsize (se v)")
        case grow: True
        then have rest: "list_ex read_ends dev" using Cons.prems(2) ReadErr ended by (auto simp: ev)
        show ?thesis
        proof (cases "fst (buf_alloc al (se_bufsize (se v)) True h)")
          case None
          then have "buf_alloc al (se_bufsize (se v)) True h = (None, h\<lparr>hp_calls := hp_calls h + 1\<rparr>)"
            using buf_alloc_cases [of al "se_bufsize (se v)" h] by auto
          then show ?thesis using Cons.prems(1) grow live ReadErr by (simp add: ev v_def [symmetric] recv_ok_def)
        next
          case (Some q)
          then obtain b where b: "buf_alloc al (se_bufsize (se v)) True h = (Some q, h\<lparr>hp_calls := hp_calls h + 1, hp_live := b # hp_live h\<rparr>)"
            "q = b + (pagesize - write_header_sz)"
            using buf_alloc_cases [of al "se_bufsize (se v)" h] by auto
          obtain p where p: "rb_mem buf = Some p" "raw_block p \<in> set (hp_live h)" using Cons.prems(1) by (auto simp: recv_ok_def)
          let ?h = "h\<lparr>hp_calls := hp_calls h + 1, hp_live := remove1 (raw_block p) (b # hp_live h)\<rparr>"
          let ?buf = "buf\<lparr>rb_mem := Some q, rb_mem_size := se_bufsize (se v)\<rparr>"
          have step: "receive_restart al True (ev # dev) bufsize buf h w = receive_restart al True dev (se_bufsize (se v)) ?buf ?h v"
            using grow live ReadErr b p by (simp add: ev v_def [symmetric] fuse_buf_free_ok Let_def)
          have "recv_ok ?buf ?h" using b p by (auto simp: recv_ok_def)
          moreover have "length (hp_live ?h) = length (hp_live h)" using p by (auto simp: length_remove1 Suc_diff_Suc dest: length_pos_if_in_set)
          ultimately show ?thesis
            using Cons.IH [of ?buf ?h "se_bufsize (se v)" v] rest errs unfolding step by force
        qed
      next
        case same: False
        show ?thesis
        proof (cases "e = ENOENT")
          case True
          then have rest: "list_ex read_ends dev" using Cons.prems(2) ReadErr ended by (auto simp: ev)
          have "receive_restart al True (ev # dev) bufsize buf h w = receive_restart al True dev bufsize buf h v"
            using same live ReadErr True by (simp add: ev v_def [symmetric])
          then show ?thesis using Cons.IH [of buf h bufsize v] rest errs Cons.prems(1) by force
        next
          case False
          then show ?thesis using same live ReadErr e Cons.prems(1)
            by (auto simp: ev v_def [symmetric] Let_def fuse_session_exit_def fuse_session_exited_def se_mod_def)
        qed
      qed
    qed
  qed
qed simp

text \<open>\<^bold>\<open>C32\<close> Receiving a request, as the library's own loops do: if one of the reads gives something other than
  an interrupted or a too small read, the call returns, without an invalid free; it neither leaks nor loses a
  buffer, whatever reallocations and failed allocations happen. A positive result is the length of a message
  that holds a header, a result of 0 means that the session has ended.\<close>

theorem receive_returns:
  fixes w :: "'u fuse_world"
  assumes "rb_mem buf = None \<or> recv_ok buf h" and "list_ex read_ends dev" and "\<forall>e b. (ReadErr e, b) \<in> set dev \<longrightarrow> e > 0"
  shows "\<exists>res buf' h' w'. fuse_session_receive_buf_internal al dev buf h w = Received (res, buf', h', w') \<and>
    (rb_mem buf' = None \<or> recv_ok buf' h') \<and>
    length (hp_live h') = length (hp_live h) + of_bool (rb_mem buf = None \<and> rb_mem buf' \<noteq> None) \<and>
    (res > 0 \<longrightarrow> res \<ge> 40 \<and> rb_size buf' = of_int res \<and> (\<exists>b. (ReadOk (nat res), b) \<in> set dev)) \<and>
    (res = 0 \<longrightarrow> fuse_session_exited w' = 1)"
proof -
  define v where "v = (if \<not> se_got_init (se w) \<and> \<not> se_buf_reallocable (se w) then se_mod (\<lambda>s. s\<lparr>se_buf_reallocable := True\<rparr>) w else w)"
  have eq: "fuse_session_receive_buf_internal al dev buf h w = fuse_session_receive_buf_common al True dev buf h v"
    by (simp add: fuse_session_receive_buf_internal_def v_def Let_def)
  show ?thesis
  proof (cases "rb_mem buf")
    case (Some p)
    then have ok: "recv_ok buf h" using assms(1) by simp
    have "fuse_session_receive_buf_common al True dev buf h v = receive_restart al True dev (rb_mem_size buf) buf h v"
      by (simp add: fuse_session_receive_buf_common_def Some)
    then show ?thesis using receive_restart_result [OF ok assms(2,3), of al "rb_mem_size buf" v] Some unfolding eq by auto
  next
    case None
    consider (no) "buf_alloc al (se_bufsize (se v)) True h = (None, h\<lparr>hp_calls := hp_calls h + 1\<rparr>)"
      | (yes) b where "buf_alloc al (se_bufsize (se v)) True h =
        (Some (b + (pagesize - write_header_sz)), h\<lparr>hp_calls := hp_calls h + 1, hp_live := b # hp_live h\<rparr>)"
      using buf_alloc_cases [of al "se_bufsize (se v)" h] by auto
    then show ?thesis
    proof cases
      case no
      then show ?thesis using None unfolding eq by (simp add: fuse_session_receive_buf_common_def)
    next
      case yes
      let ?h = "h\<lparr>hp_calls := hp_calls h + 1, hp_live := b # hp_live h\<rparr>"
      let ?buf = "buf\<lparr>rb_mem := Some (b + (pagesize - write_header_sz)), rb_mem_size := se_bufsize (se v)\<rparr>"
      have ok: "recv_ok ?buf ?h" by (simp add: recv_ok_def)
      have "fuse_session_receive_buf_common al True dev buf h v = receive_restart al True dev (se_bufsize (se v)) ?buf ?h v"
        using yes None by (simp add: fuse_session_receive_buf_common_def Let_def)
      moreover obtain res buf' h' w' where "receive_restart al True dev (se_bufsize (se v)) ?buf ?h v = Received (res, buf', h', w')"
        "recv_ok buf' h'" "length (hp_live h') = length (hp_live ?h)"
        "res > 0 \<longrightarrow> res \<ge> 40 \<and> rb_size buf' = of_int res \<and> (\<exists>b. (ReadOk (nat res), b) \<in> set dev)"
        "res = 0 \<longrightarrow> fuse_session_exited w' = 1"
        using receive_restart_result [OF ok assms(2,3), of al "se_bufsize (se v)" v] by metis
      ultimately show ?thesis using None unfolding eq
        by (intro exI [of _ res] exI [of _ buf'] exI [of _ h'] exI [of _ w']) (auto simp: recv_ok_def)
    qed
  qed
qed

theorem receive_returns_witness:
  defines "al \<equiv> (\<lambda>n sz. Some (of_nat n * 1048576)) :: allocator" and "h \<equiv> \<lparr>hp_calls = 1, hp_live = []\<rparr>"
    and "buf \<equiv> \<lparr>rb_mem = None, rb_mem_size = 0, rb_size = 0\<rparr>"
    and "dev \<equiv> [(ReadErr ENOENT, False), (ReadErr EINVAL, False), (ReadOk 56, False)]"
  shows "\<exists>res buf' h' w'. fuse_session_receive_buf_internal al dev buf h demo_world = Received (res, buf', h', w') \<and>
    (rb_mem buf' = None \<or> recv_ok buf' h') \<and>
    length (hp_live h') = length (hp_live h) + of_bool (rb_mem buf = None \<and> rb_mem buf' \<noteq> None) \<and>
    (res > 0 \<longrightarrow> res \<ge> 40 \<and> rb_size buf' = of_int res \<and> (\<exists>b. (ReadOk (nat res), b) \<in> set dev)) \<and>
    (res = 0 \<longrightarrow> fuse_session_exited w' = 1)"
  by (rule receive_returns) (auto simp: buf_def dev_def read_ends_def)

text \<open>\<^bold>\<open>C34\<close> The main function of a file system, run with the common flags and one mount point: with \<^verbatim>\<open>-s\<close> it
  registers a new session for the driver and blocks, so that the session stays valid; without \<^verbatim>\<open>-s\<close> it fails
  at once and frees the session, which stays registered: a mount that follows uses freed memory.\<close>

theorem backend_main_result:
  fixes op :: "'u fuse_lowlevel_ops"
  assumes "\<And>n. oe_alloc env n" and "mountpoints as = [m]" and "at m 0 \<noteq> CHR ''-''" and "length m < PATH_MAX" and "NUL \<notin> set m"
    and "set as \<inter> {''-h'', ''--help'', ''-V'', ''--version''} = {}"
    and "fuse_session_new_versioned p fs True sizeof_op 0 = Some w"
  shows "fuse_backend_main env os p op fs sizeof_op (prog # as) n =
    Some (if ''-s'' \<in> set as then (None, LiveSession w) else (Some 1, FreedSession))"
proof -
  have "\<forall>a \<in> set (mountpoints as). at a 0 \<noteq> CHR ''-'' \<and> length a < PATH_MAX \<and> NUL \<notin> set a" using assms(2-5) by simp
  note c = cmdline_flags [OF assms(1) this refl, of prog n]
  show ?thesis using c assms(2,6,7)
    by (auto simp: fuse_backend_main_def fuse_set_signal_handlers_def fuse_session_mount_def fuse_daemonize_result
        fuse_session_loop_def fuse_session_loop_mt_312_def split: prod.splits)
qed

theorem backend_main_result_witness:
  defines "env \<equiv> \<lparr>oe_alloc = \<lambda>_. True, oe_scanf = \<lambda>_ _. None\<rparr>" and "os \<equiv> \<lparr>do_pipe = None, do_setsid = 0, do_open_null = 3\<rparr>"
  shows "fuse_backend_main env os demo_platform no_ops () 1 [''fuse'', ''-f'', ''-s'', ''/''] 0 = Some (None, LiveSession demo_world) \<and>
    fuse_backend_main env os demo_platform no_ops () 1 [''fuse'', ''/''] 0 = Some (Some 1, FreedSession)"
proof -
  have al: "\<And>n. oe_alloc env n" by (simp add: env_def)
  have mp: "mountpoints [''-f'', ''-s'', ''/''] = [''/'']" "mountpoints [''/''] = [''/'']" by (simp_all add: mountpoints_def helper_flags_def)
  show ?thesis
    using backend_main_result [OF al mp(1) _ _ _ _ demo_world_new, of os no_ops "''fuse''" 0]
      backend_main_result [OF al mp(2) _ _ _ _ demo_world_new, of os no_ops "''fuse''" 0]
    by (simp add: at_def)
qed

end
