(* ===== verification/Fuse_Groups.thy ===== *)
theory Fuse_Groups
  imports Fuse_Session
begin

text \<open>
  The supplementary groups of the process behind a request (\<^verbatim>\<open>fuse_req_getgroups\<close> of \<^verbatim>\<open>fuse_lowlevel.c\<close>): the code reads
  the status file of the process, with a buffer that grows until the file fits, looks for the line of the groups and
  reads its numbers with \<^verbatim>\<open>strtoul\<close>. Parameters: the allocator, and what the file is at each time it is opened. The lemmas
  show that the numbers written in the file are the ones delivered, and that no buffer is left behind.
\<close>

section \<open>Numbers in text\<close>

definition isspace :: "char \<Rightarrow> bool" where
  "isspace c \<longleftrightarrow> of_char c \<in> {0x20, 0x09, 0x0A, 0x0B, 0x0C, 0x0D :: nat}"

text \<open>The value of a digit in any base up to 36; other characters are beyond every base.\<close>

definition digit_val :: "char \<Rightarrow> nat" where
  "digit_val c =
     (let n = of_char c :: nat
      in if 48 \<le> n \<and> n \<le> 57 then n - 48
         else if 97 \<le> n \<and> n \<le> 122 then n - 87
         else if 65 \<le> n \<and> n \<le> 90 then n - 55
         else 36)"

definition digits_val :: "nat \<Rightarrow> string \<Rightarrow> nat" where
  "digits_val base ds = foldl (\<lambda>a c. a * base + digit_val c) 0 ds"

definition strip_sign :: "string \<Rightarrow> bool \<times> string" where
  "strip_sign t = (case t of [] \<Rightarrow> (False, t) | c # u \<Rightarrow> if c = CHR ''-'' then (True, u) else if c = CHR ''+'' then (False, u) else (False, t))"

text \<open>A hexadecimal prefix counts only in front of a hexadecimal digit.\<close>

definition strip_base :: "string \<Rightarrow> nat \<times> string" where
  "strip_base t =
     (if t = [] \<or> hd t \<noteq> CHR ''0'' then (10, t)
      else if length t \<ge> 3 \<and> (t ! 1 = CHR ''x'' \<or> t ! 1 = CHR ''X'') \<and> digit_val (t ! 2) < 16 then (16, drop 2 t)
      else (8, t))"

text \<open>\<^verbatim>\<open>strtoul(s, &end, 0)\<close>: the number at the start of the string and the rest behind it; \<open>None\<close> when there is none
  (\<^verbatim>\<open>end == s\<close>).\<close>

definition strtoul :: "string \<Rightarrow> (u64 \<times> string) option" where
  "strtoul s =
     (let (neg, t) = strip_sign (dropWhile isspace s);
          (base, t) = strip_base t;
          ds = takeWhile (\<lambda>c. digit_val c < base) t;
          n = digits_val base ds
      in if ds = [] then None
         else Some (if n \<ge> 2 ^ 64 then - 1 else if neg then - of_nat n else of_nat n, drop (length ds) t))"

lemma strip_sign_le: "length (snd (strip_sign t)) \<le> length t"
  by (auto simp: strip_sign_def split: list.splits)

lemma strip_base_le: "length (snd (strip_base t)) \<le> length t"
  by (simp add: strip_base_def)

lemma strtoul_shorter:
  assumes "strtoul s = Some (v, t)"
  shows "length t < length s"
proof -
  obtain neg t1 base t2 where 1: "strip_sign (dropWhile isspace s) = (neg, t1)" "strip_base t1 = (base, t2)"
    by (metis surj_pair)
  have "length t2 \<le> length s"
    using strip_sign_le [of "dropWhile isspace s"] strip_base_le [of t1] length_dropWhile_le [of isspace s] 1 by simp
  moreover have "t2 \<noteq> []" "length t = length t2 - length (takeWhile (\<lambda>c. digit_val c < base) t2)"
    "takeWhile (\<lambda>c. digit_val c < base) t2 \<noteq> []"
    using assms 1 by (auto simp: strtoul_def Let_def split: if_splits)
  ultimately show ?thesis by (metis diff_less length_greater_0_conv less_le_trans)
qed

section \<open>The groups of a process\<close>

datatype proc_file = CannotOpen | CannotRead | Content string

fun strstr :: "string \<Rightarrow> string \<Rightarrow> string option" where
  "strstr [] pat = (if pat = [] then Some [] else None)"
| "strstr (c # s) pat = (if take (length pat) (c # s) = pat then Some (c # s) else strstr s pat)"

fun show_dec :: "nat \<Rightarrow> string" where
  "show_dec n = (if n < 10 then [char_of (48 + n)] else show_dec (n div 10) @ [char_of (48 + n mod 10)])"

declare show_dec.simps [simp del]

definition GROUPS :: string where "GROUPS = CHR 0x0A # ''Groups:''"

text \<open>The loop over the numbers; the caller's array has \<^verbatim>\<open>size\<close> elements.\<close>

function read_groups :: "int \<Rightarrow> string \<Rightarrow> int \<Rightarrow> u32 list \<Rightarrow> int \<times> u32 list" where
  "read_groups sz s ret ls =
     (case strtoul s of
        None \<Rightarrow> (ret, ls)
      | Some (val, end) \<Rightarrow> read_groups sz end (ret + 1) (if ret < sz then ls[nat ret := ucast val] else ls))"
  by auto
termination
  by (relation "measure (\<lambda>(_, s, _, _). length s)") (auto dest: strtoul_shorter)

declare read_groups.simps [simp del]

definition finish :: "u64 \<Rightarrow> int \<Rightarrow> u32 list \<Rightarrow> c_heap \<Rightarrow> (int \<times> u32 list \<times> c_heap) option" where
  "finish buf ret ls h = Option.bind (heap_free buf h) (\<lambda>h. Some (ret, ls, h))"

text \<open>One attempt with a buffer, and the next with a buffer four times as large. The result of \<^verbatim>\<open>read\<close> is kept in an \<^verbatim>\<open>int\<close>.\<close>

partial_function (option) getgroups_try :: "allocator \<Rightarrow> (nat \<Rightarrow> proc_file) \<Rightarrow> int \<Rightarrow> u32 list \<Rightarrow> u64 \<Rightarrow> nat \<Rightarrow> c_heap \<Rightarrow>
    (int \<times> u32 list \<times> c_heap) option" where
  "getgroups_try al pf sz ls bufsize k h =
     (case heap_alloc al bufsize h of
        (None, h) \<Rightarrow> Some (- ENOMEM, ls, h)
      | (Some buf, h) \<Rightarrow>
          (case pf k of
             CannotOpen \<Rightarrow> finish buf (- EIO) ls h
           | CannotRead \<Rightarrow> finish buf (- EIO) ls h
           | Content c \<Rightarrow>
               (let got = take (unat bufsize) c; ret = sint (of_nat (length got) :: u32)
                in if ret < 0 then finish buf (- EIO) ls h
                   else if of_int ret = bufsize then
                     Option.bind (heap_free buf h) (\<lambda>h. getgroups_try al pf sz ls (bufsize * 4) (Suc k) h)
                   else (case strstr (c_str (take (nat ret) got)) GROUPS of
                      None \<Rightarrow> finish buf (- EIO) ls h
                    | Some s \<Rightarrow> (let (ret, ls) = read_groups sz (drop 8 s) 0 ls in finish buf ret ls h)))))"

definition status_path :: "fuse_req \<Rightarrow> string" where
  "status_path req = (let pid = scast (ctx_pid (rq_ctx req)) :: u64; p = show_dec (unat pid) in ''/proc/'' @ p @ ''/task/'' @ p @ ''/status'')"

definition fuse_req_getgroups :: "allocator \<Rightarrow> (string \<Rightarrow> nat \<Rightarrow> proc_file) \<Rightarrow> fuse_req \<Rightarrow> int \<Rightarrow> u32 list \<Rightarrow> c_heap \<Rightarrow>
    (int \<times> u32 list \<times> c_heap) option" where
  "fuse_req_getgroups al files req sz ls h = getgroups_try al (files (status_path req)) sz ls 1024 0 h"

section \<open>Reading what was written\<close>

lemma digit_val_digit [simp]: "n < 10 \<Longrightarrow> digit_val (char_of (48 + n)) = n"
  by (simp add: digit_val_def take_bit_nat_eq_self)

lemma show_dec_digits: "c \<in> set (show_dec n) \<Longrightarrow> digit_val c < 10"
  by (induction n rule: show_dec.induct) (subst (asm) (2) show_dec.simps, auto split: if_splits)

lemma digits_val_snoc: "digits_val b (ds @ [c]) = digits_val b ds * b + digit_val c"
  by (simp add: digits_val_def)

lemma digits_val_show: "digits_val 10 (show_dec n) = n"
  by (induction n rule: show_dec.induct) (subst show_dec.simps, auto simp: digits_val_snoc, simp add: digits_val_def)

lemma show_dec_not_Nil [simp]: "show_dec n \<noteq> []"
  by (subst show_dec.simps) simp

lemma show_dec_zero: "show_dec 0 = ''0''"
  by (subst show_dec.simps) (simp add: char_of_eq_iff)

text \<open>Only zero starts with the digit zero.\<close>

lemma hd_show_dec: "0 < n \<Longrightarrow> 0 < digit_val (hd (show_dec n))"
proof (induction n rule: show_dec.induct)
  case (1 n)
  then show ?case by (subst show_dec.simps) (cases "n < 10", auto simp: div_greater_zero_iff)
qed

lemma digit_not_space: "digit_val c < 10 \<Longrightarrow> \<not> isspace c \<and> c \<noteq> CHR ''-'' \<and> c \<noteq> CHR ''+''"
  by (auto simp: digit_val_def isspace_def Let_def split: if_splits)

lemma strtoul_decimal:
  assumes "\<forall>c \<in> set ws. isspace c" and "n < 2 ^ 64" and "rest = [] \<or> 36 \<le> digit_val (hd rest)"
  shows "strtoul (ws @ show_dec n @ rest) = Some (of_nat n, rest)"
proof -
  obtain c cs where sh: "show_dec n = c # cs" by (cases "show_dec n") auto
  have c: "digit_val c < 10" using show_dec_digits [of c n] by (simp add: sh)
  have d: "dropWhile isspace (ws @ show_dec n @ rest) = show_dec n @ rest"
    using assms(1) digit_not_space [OF c] by (simp add: sh)
  have s: "strip_sign (show_dec n @ rest) = (False, show_dec n @ rest)"
    using digit_not_space [OF c] by (simp add: sh strip_sign_def)
  have all: "takeWhile (\<lambda>c. digit_val c < b) (show_dec n @ rest) = show_dec n" if "\<forall>c \<in> set (show_dec n). digit_val c < b" "b \<le> 36" for b
    using that assms(3) by (cases rest) auto
  show ?thesis
  proof (cases "n = 0")
    case True
    have "\<not> (length (show_dec n @ rest) \<ge> 3 \<and> ((show_dec n @ rest) ! 1 = CHR ''x'' \<or> (show_dec n @ rest) ! 1 = CHR ''X''))"
      using assms(3) by (cases rest) (auto simp: True show_dec_zero digit_val_def)
    then have "strip_base (show_dec n @ rest) = (8, show_dec n @ rest)" by (auto simp: strip_base_def True show_dec_zero)
    moreover have "digits_val 8 (show_dec n) = n" "\<forall>c \<in> set (show_dec n). digit_val c < 8"
      by (simp_all add: True show_dec_zero digits_val_def digit_val_def)
    ultimately show ?thesis using all [of 8] using assms(2) by (simp add: strtoul_def d s)
  next
    case False
    then have "c \<noteq> CHR ''0''" using hd_show_dec [of n] by (auto simp: sh digit_val_def)
    then have "strip_base (show_dec n @ rest) = (10, show_dec n @ rest)" by (simp add: strip_base_def sh)
    then show ?thesis using all [of 10] show_dec_digits [of _ n] assms(2) by (simp add: strtoul_def d s digits_val_show)
  qed
qed

lemma strtoul_none:
  assumes "\<forall>c \<in> set ws. isspace c" and "rest = [] \<or> \<not> isspace (hd rest) \<and> hd rest \<notin> {CHR ''-'', CHR ''+''} \<and> 10 \<le> digit_val (hd rest)"
  shows "strtoul (ws @ rest) = None"
proof -
  have "dropWhile isspace (ws @ rest) = rest" using assms by (cases rest) auto
  moreover have "strip_sign rest = (False, rest)" using assms(2) by (auto simp: strip_sign_def split: list.splits)
  moreover have "hd rest \<noteq> CHR ''0''" if "rest \<noteq> []" using assms(2) that by (auto simp: digit_val_def)
  then have "strip_base rest = (10, rest)" by (auto simp: strip_base_def)
  moreover have "takeWhile (\<lambda>c. digit_val c < 10) rest = []" using assms(2) by (cases rest) auto
  ultimately show ?thesis by (simp add: strtoul_def)
qed

text \<open>The numbers of a line, each followed by a blank, as the kernel prints them.\<close>

definition group_list :: "u32 list \<Rightarrow> string" where
  "group_list gs = concat (map (\<lambda>g. show_dec (unat g) @ '' '') gs)"

lemma read_groups_list:
  assumes "\<forall>c \<in> set ws. isspace c" and "\<forall>c \<in> set ws'. isspace c"
    and "rest = [] \<or> \<not> isspace (hd rest) \<and> hd rest \<notin> {CHR ''-'', CHR ''+''} \<and> 10 \<le> digit_val (hd rest)"
    and "0 \<le> sz" "length ls = nat sz"
  shows "read_groups sz (ws @ group_list gs @ ws' @ rest) (int k) ls =
    (int (k + length gs), take k ls @ take (nat sz - k) gs @ drop (k + length gs) ls)"
  using assms(1,5)
proof (induction gs arbitrary: ws k ls)
  case Nil
  have "strtoul ((ws @ ws') @ rest) = None" using Nil.prems(1) assms(2,3) by (intro strtoul_none) auto
  then show ?case by (subst read_groups.simps) (simp add: group_list_def)
next
  case (Cons g gs)
  let ?rest = "group_list gs @ ws' @ rest"
  let ?ls = "if int k < sz then ls[k := g] else ls"
  have "unat g < 2 ^ 32" using unsigned_less [of g] by simp
  then have g: "unat g < 2 ^ 64" by simp
  have u: "(ucast (ucast g :: u64) :: u32) = g" by (rule bit_word_eqI) (auto simp: bit_simps)
  have "strtoul (ws @ show_dec (unat g) @ '' '' @ ?rest) = Some (of_nat (unat g), '' '' @ ?rest)"
    using Cons.prems(1) g by (intro strtoul_decimal) (auto simp: digit_val_def)
  then have "read_groups sz (ws @ group_list (g # gs) @ ws' @ rest) (int k) ls = read_groups sz ('' '' @ ?rest) (int (Suc k)) ?ls"
    by (subst read_groups.simps) (simp add: group_list_def u algebra_simps)
  also have "\<dots> = (int (Suc k + length gs), take (Suc k) ?ls @ take (nat sz - Suc k) gs @ drop (Suc k + length gs) ?ls)"
    using Cons.prems(2) by (intro Cons.IH) (auto simp: isspace_def)
  also have "take (Suc k) ?ls @ take (nat sz - Suc k) gs @ drop (Suc k + length gs) ?ls =
      take k ls @ take (nat sz - k) (g # gs) @ drop (k + length (g # gs)) ls"
  proof (cases "int k < sz")
    case True
    then have "k < length ls" "nat sz - k = Suc (nat sz - Suc k)" using Cons.prems(2) by auto
    then show ?thesis using True by (simp add: take_Suc_conv_app_nth)
  qed (use Cons.prems(2) in simp)
  finally show ?case by simp
qed

lemma length_GROUPS [simp]: "length GROUPS = 8"
  by (simp add: GROUPS_def)

text \<open>The pattern is found at its first place.\<close>

lemma strstr_first:
  assumes "\<And>u v. pre \<noteq> u @ GROUPS @ v"
  shows "strstr (pre @ GROUPS @ rest) GROUPS = Some (GROUPS @ rest)"
  using assms
proof (induction pre)
  case Nil
  then show ?case by (simp add: GROUPS_def)
next
  case (Cons c pre)
  have "take 8 (c # pre @ GROUPS @ rest) \<noteq> GROUPS"
  proof
    assume p: "take 8 (c # pre @ GROUPS @ rest) = GROUPS"
    show False
    proof (cases "length pre \<ge> 7")
      case True
      then have "take 8 (c # pre) = GROUPS" using p by simp
      then have "c # pre = [] @ GROUPS @ drop 8 (c # pre)" by (metis append_Nil append_take_drop_id)
      then show False using Cons.prems by blast
    next
      case False
      then have "(c # pre @ GROUPS @ rest) ! Suc (length pre) = CHR 0x0A" by (simp add: nth_append GROUPS_def)
      moreover have "(c # pre @ GROUPS @ rest) ! Suc (length pre) = GROUPS ! Suc (length pre)"
        using nth_take [of "Suc (length pre)" 8 "c # pre @ GROUPS @ rest"] False unfolding p by simp
      moreover have "\<forall>i < 7. GROUPS ! Suc i \<noteq> CHR 0x0A" by (auto simp: GROUPS_def less_Suc_eq numeral_eq_Suc)
      ultimately show False using False by (metis not_le)
    qed
  qed
  moreover have "strstr (pre @ GROUPS @ rest) GROUPS = Some (GROUPS @ rest)"
    using Cons.prems by (intro Cons.IH) (metis append_Cons)
  ultimately show ?case by simp
qed

lemma free_fresh: "heap_alloc al sz h = (Some p, h1) \<Longrightarrow> \<exists>h2. heap_free p h1 = Some h2 \<and> hp_live h2 = hp_live h"
  by (auto simp: heap_alloc_def heap_free_def split: option.splits)

definition groups_result :: "string \<Rightarrow> int \<Rightarrow> u32 list \<Rightarrow> int \<times> u32 list" where
  "groups_result c sz ls = (case strstr (c_str c) GROUPS of None \<Rightarrow> (- EIO, ls) | Some s \<Rightarrow> read_groups sz (drop 8 s) 0 ls)"

lemma getgroups_step:
  assumes "\<And>n sz. al n sz \<noteq> None" and "pf k = Content c" and "length c < 2 ^ 30" and "bufs \<le> 2 ^ 30"
  shows "\<exists>h1. hp_live h1 = hp_live h \<and> getgroups_try al pf sz ls (of_nat bufs) k h =
    (if bufs \<le> length c then getgroups_try al pf sz ls (of_nat (4 * bufs)) (Suc k) h1
     else Some (case groups_result c sz ls of (ret, ls) \<Rightarrow> (ret, ls, h1)))"
proof -
  obtain p h1 where a: "heap_alloc al (of_nat bufs) h = (Some p, h1)"
    using assms(1) [of "hp_calls h" "of_nat bufs"] by (auto simp: heap_alloc_def)
  from free_fresh [OF a] obtain h2 where f: "heap_free p h1 = Some h2" "hp_live h2 = hp_live h" by blast
  have b: "unat (of_nat bufs :: u64) = bufs" using assms(4) by (simp add: unat_of_nat take_bit_nat_eq_self)
  have r: "sint (of_nat n :: u32) = int n" if "n \<le> 2 ^ 30" for n
    using that by (simp add: signed_of_nat signed_take_bit_int_eq_self)
  note defs = a assms(2) b Let_def finish_def
  show ?thesis
  proof (cases "bufs \<le> length c")
    case True
    then have "getgroups_try al pf sz ls (of_nat bufs) k h = getgroups_try al pf sz ls (of_nat (4 * bufs)) (Suc k) h2"
      using assms(4) f(1) by (subst getgroups_try.simps) (simp add: defs min.absorb2 r mult.commute)
    then show ?thesis using True f(2) by auto
  next
    case False
    then have "unat (of_nat (length c) :: u64) = length c" by (use assms(3) in \<open>simp add: unat_of_nat take_bit_nat_eq_self\<close>)
    then have "(of_nat (length c) :: u64) \<noteq> of_nat bufs" using False b by auto
    then have "getgroups_try al pf sz ls (of_nat bufs) k h = Some (case groups_result c sz ls of (ret, ls) \<Rightarrow> (ret, ls, h2))"
      using False assms(3) f(1)
      by (subst getgroups_try.simps) (simp add: defs min.absorb1 r groups_result_def split: option.splits prod.splits)
    then show ?thesis using False f(2) by auto
  qed
qed

text \<open>With a file that does not change, the buffer grows until the file fits.\<close>

lemma getgroups_content:
  assumes "\<And>n sz. al n sz \<noteq> None" and "\<And>k. pf k = Content c" and "length c < 2 ^ 30" and "j \<le> 10"
  shows "\<exists>h'. getgroups_try al pf sz ls (of_nat (1024 * 4 ^ j)) k h = Some (case groups_result c sz ls of (ret, ls) \<Rightarrow> (ret, ls, h')) \<and>
    hp_live h' = hp_live h"
  using assms(4)
proof (induction "10 - j" arbitrary: j k h)
  case (0 j)
  then have j: "1024 * 4 ^ j = (2 :: nat) ^ 30" by simp
  from getgroups_step [where al = al and pf = pf and k = k and h = h and sz = sz and ls = ls, OF assms(1-3) eq_refl [OF j]] show ?case using assms(3) j by auto
next
  case (Suc d j)
  have "(4 :: nat) ^ j \<le> 4 ^ 10" using Suc.prems by (intro power_increasing) simp_all
  then have "1024 * 4 ^ j \<le> (2 :: nat) ^ 30" by simp
  from getgroups_step [where al = al and pf = pf and k = k and h = h and sz = sz and ls = ls, OF assms(1-3) this] obtain h1 where h1: "hp_live h1 = hp_live h"
    "getgroups_try al pf sz ls (of_nat (1024 * 4 ^ j)) k h =
      (if 1024 * 4 ^ j \<le> length c then getgroups_try al pf sz ls (of_nat (4 * (1024 * 4 ^ j))) (Suc k) h1
       else Some (case groups_result c sz ls of (ret, ls) \<Rightarrow> (ret, ls, h1)))" by blast
  have "4 * (1024 * 4 ^ j) = (1024 * 4 ^ Suc j :: nat)" by simp
  with Suc.hyps(1) [of "Suc j" "Suc k" h1] Suc.hyps(2) h1 show ?case by (auto split: if_splits)
qed

text \<open>\<^bold>\<open>C21\<close> For a process whose status file has the line of its groups as the kernel prints it, \<^verbatim>\<open>fuse_req_getgroups\<close> returns: its result is
  the number of the groups, the caller's array holds the first of them, as many as it has room for, and every buffer has
  been given back.\<close>

theorem getgroups_delivers:
  assumes "\<And>n sz. al n sz \<noteq> None" and "\<And>k. files (status_path req) k = Content c"
    and "c = pre @ GROUPS @ [CHR 0x09] @ group_list gs @ [CHR 0x0A] @ post" and "\<And>u v. pre \<noteq> u @ GROUPS @ v"
    and "NUL \<notin> set pre \<union> set post" and "length c < 2 ^ 30"
    and "post = [] \<or> \<not> isspace (hd post) \<and> hd post \<notin> {CHR ''-'', CHR ''+''} \<and> 10 \<le> digit_val (hd post)"
    and "0 \<le> sz" and "length ls = nat sz"
  shows "\<exists>h'. fuse_req_getgroups al files req sz ls h =
      Some (int (length gs), take (nat sz) gs @ drop (length gs) ls, h') \<and> hp_live h' = hp_live h"
proof -
  have "NUL \<notin> set (show_dec n)" for n using show_dec_digits [of NUL n] by (auto simp: digit_val_def)
  then have "NUL \<notin> set (group_list gs)" by (auto simp: group_list_def)
  then have "NUL \<notin> set c" using assms(5) by (simp add: assms(3) GROUPS_def)
  then have "c_str c = c" unfolding c_str_def by (simp add: takeWhile_eq_all_conv, blast)
  then have "strstr (c_str c) GROUPS = Some (GROUPS @ [CHR 0x09] @ group_list gs @ [CHR 0x0A] @ post)"
    using strstr_first [OF assms(4)] by (simp add: assms(3))
  moreover have "read_groups sz ([CHR 0x09] @ group_list gs @ [CHR 0x0A] @ post) (int 0) ls =
      (int (0 + length gs), take 0 ls @ take (nat sz - 0) gs @ drop (0 + length gs) ls)"
    by (rule read_groups_list [OF _ _ assms(7-9)]) (simp_all add: isspace_def)
  ultimately have "groups_result c sz ls = (int (length gs), take (nat sz) gs @ drop (length gs) ls)"
    by (simp add: groups_result_def GROUPS_def)
  with getgroups_content [of al "files (status_path req)" c 0 sz ls 0 h] assms(1,2,6) show ?thesis
    by (simp add: fuse_req_getgroups_def)
qed

theorem getgroups_delivers_witness:
  "\<exists>h'. fuse_req_getgroups (\<lambda>n sz. Some 4096)
       (\<lambda>p k. Content (''Name: sh'' @ GROUPS @ [CHR 0x09] @ group_list [1000, 27, 0] @ [CHR 0x0A] @ ''NStgid: 1'')) zero_req 2 [7, 7]
       \<lparr>hp_calls = 0, hp_live = []\<rparr> = Some (3, [1000, 27], h') \<and> hp_live h' = []"
proof -
  let ?c = "''Name: sh'' @ GROUPS @ [CHR 0x09] @ group_list [1000, 27, 0] @ [CHR 0x0A] @ ''NStgid: 1''"
  have "length ?c < 2 ^ 30" by (simp add: GROUPS_def group_list_def show_dec.simps)
  moreover have "\<And>u v. ''Name: sh'' \<noteq> u @ GROUPS @ v"
  proof
    fix u v assume "''Name: sh'' = u @ GROUPS @ v"
    then have "CHR 0x0A \<in> set ''Name: sh''" by (simp add: GROUPS_def)
    then show False by simp
  qed
  ultimately show ?thesis
    using getgroups_delivers [of "\<lambda>n sz. Some 4096" "\<lambda>p k. Content ?c" zero_req ?c "''Name: sh''" "[1000, 27, 0]" "''NStgid: 1''" 2 "[7, 7]"
        "\<lparr>hp_calls = 0, hp_live = []\<rparr>"]
    by (simp add: isspace_def digit_val_def)
qed

end
