(* ===== verification/Fuse_Data.thy ===== *)
theory Fuse_Data
  imports Fuse_Notify
begin

text \<open>
  Replies and notifications that carry a buffer vector (\<^verbatim>\<open>fuse_reply_data\<close> and
  \<^verbatim>\<open>fuse_lowlevel_notify_store\<close> of \<^verbatim>\<open>libs/libfuse/lib/fuse_lowlevel.c\<close>), built on the copying functions of
  \<open>Fuse_Buffer\<close>. This is the variant without \<^verbatim>\<open>splice\<close>, in which the data always goes through memory.

  Parameters: the descriptors (\<open>os_fd\<close>), the stack address of the copying function, and what
  \<^verbatim>\<open>posix_memalign\<close> returns (an address of unused memory, or no memory).
\<close>

section \<open>Sending\<close>

definition data_fault :: "'s mem_os \<Rightarrow> 'u fuse_world \<Rightarrow> int \<times> 's mem_os \<times> 'u fuse_world" where
  "data_fault mo w = (- 1, mo, raise_fault OutOfBounds w)"

definition map_block :: "nat \<Rightarrow> nat \<Rightarrow> (nat \<Rightarrow> byte option) \<Rightarrow> mem \<Rightarrow> mem" where
  "map_block p n f m = (\<lambda>a. if p \<le> a \<and> a < p + n then f (a - p) else m a)"

definition plain_buf :: "nat \<Rightarrow> u64 \<Rightarrow> nat fuse_buf" where
  "plain_buf p n = \<lparr>fb_size = n, fb_flags = 0, fb_mem = p, fb_fd = - 1, fb_pos = 0, fb_mem_size = 0\<rparr>"

definition fuse_send_data_iov_fallback :: "'s os_fd \<Rightarrow> nat \<Rightarrow> nat option \<Rightarrow> addr option \<Rightarrow> u64 \<Rightarrow> int \<Rightarrow> byte list list \<Rightarrow>
    nat fuse_bufvec \<Rightarrow> u64 \<Rightarrow> fuse_req option \<Rightarrow> 's mem_os \<Rightarrow> 'u fuse_world \<Rightarrow> int \<times> 's mem_os \<times> 'u fuse_world" where
  "fuse_send_data_iov_fallback os tmp memalign ch unique error iov buf len req mo w =
     (if bv_count buf = 1 \<and> bv_idx buf = 0 \<and> bv_off buf = 0 \<and> \<not> has_bits (fb_flags (hd (bv_buf buf))) FUSE_BUF_IS_FD then
        (case ld (mo_mem mo) (fb_mem (hd (bv_buf buf))) (unat len) of
           None \<Rightarrow> data_fault mo w
         | Some d \<Rightarrow> (let (res, w) = fuse_send_msg ch unique error (iov @ [d]) req w in (res, mo, w)))
      else
        (case memalign of
           None \<Rightarrow> (ENOMEM, mo, w)
         | Some mbuf \<Rightarrow>
             (let mo = mo\<lparr>mo_mem := map_block mbuf (unat len) (\<lambda>i. Some (uninit (plat w) i)) (mo_mem mo)\<rparr>
              in case fuse_buf_copy os tmp False (bufvec_of (plain_buf mbuf len)) buf 0 mo of
                   None \<Rightarrow> data_fault mo w
                 | Some (r, _, _, mo) \<Rightarrow>
                     (let res = sint (of_int r :: u32);
                          freed = mo\<lparr>mo_mem := map_block mbuf (unat len) (\<lambda>_. None) (mo_mem mo)\<rparr>
                      in if res < 0 then (- res, freed, w)
                         else
                           (case ld (mo_mem mo) mbuf (nat res) of
                              None \<Rightarrow> data_fault mo w
                            | Some d \<Rightarrow> (let (res, w) = fuse_send_msg ch unique error (iov @ [d]) req w in (res, freed, w)))))))"

definition fuse_send_data_iov :: "'s os_fd \<Rightarrow> nat \<Rightarrow> nat option \<Rightarrow> addr option \<Rightarrow> u64 \<Rightarrow> int \<Rightarrow> byte list list \<Rightarrow>
    nat fuse_bufvec \<Rightarrow> u32 \<Rightarrow> fuse_req option \<Rightarrow> 's mem_os \<Rightarrow> 'u fuse_world \<Rightarrow> int \<times> 's mem_os \<times> 'u fuse_world" where
  "fuse_send_data_iov os tmp memalign ch unique error iov req_data flags req mo w =
     fuse_send_data_iov_fallback os tmp memalign ch unique error iov req_data (fuse_buf_size req_data) req mo w"

section \<open>Operations\<close>

text \<open>\<^verbatim>\<open>fuse_uring_stub.c\<close>\<close>

definition fuse_reply_data_uring :: int where "fuse_reply_data_uring = - ENOSYS"

definition fuse_reply_data :: "'s os_fd \<Rightarrow> nat \<Rightarrow> nat option \<Rightarrow> addr \<Rightarrow> nat fuse_bufvec \<Rightarrow> u32 \<Rightarrow> 's mem_os \<Rightarrow>
    'u fuse_world \<Rightarrow> int \<times> 's mem_os \<times> 'u fuse_world" where
  "fuse_reply_data os tmp memalign req bufv flags mo w =
     (case reqs w req of
        None \<Rightarrow> (- 1, mo, raise_fault UseAfterFree w)
      | Some r \<Rightarrow>
          if rq_is_uring r then (fuse_reply_data_uring, mo, w)
          else
            (let (res, mo, w) = fuse_send_data_iov os tmp memalign (rq_ch r) (rq_unique r) 0 [] bufv flags (Some r) mo w
             in if res \<le> 0 then (res, mo, fuse_free_req req w)
                else (let (res, w) = fuse_reply_err req res w in (res, mo, w))))"

definition fuse_lowlevel_notify_store :: "'s os_fd \<Rightarrow> nat \<Rightarrow> nat option \<Rightarrow> u64 \<Rightarrow> u64 \<Rightarrow> nat fuse_bufvec \<Rightarrow> u32 \<Rightarrow>
    's mem_os \<Rightarrow> 'u fuse_world \<Rightarrow> int \<times> 's mem_os \<times> 'u fuse_world" where
  "fuse_lowlevel_notify_store os tmp memalign ino offset bufv flags mo w =
     (if proto_minor (conn w) < 15 then (- ENOSYS, mo, w)
      else
        (let outarg = le_bytes 8 ino @ le_bytes 8 offset @ le_bytes 4 (ucast (fuse_buf_size bufv) :: u32) @ le_bytes 4 (0 :: u32);
             (res, mo, w) = fuse_send_data_iov os tmp memalign None 0 FUSE_NOTIFY_STORE [outarg] bufv flags None mo w
         in (if res > 0 then - res else res, mo, w)))"

section \<open>What is sent\<close>

text \<open>A vector at its start, of memory buffers that are mapped.\<close>

definition whole_vec :: "mem \<Rightarrow> nat fuse_bufvec \<Rightarrow> bool" where
  "whole_vec m bv \<longleftrightarrow> mem_vec bv \<and> bv_idx bv = 0 \<and> bv_off bv = 0 \<and> bv_buf bv \<noteq> [] \<and> (\<forall>a \<in> set (vec_addrs bv). m a \<noteq> None)"

lemma whole_vec_addrs: "whole_vec m bv \<Longrightarrow> vec_addrs bv = concat (map buf_addrs (bv_buf bv))"
  by (cases "bv_buf bv") (simp_all add: whole_vec_def vec_addrs_def)

lemma whole_vec_size:
  assumes "whole_vec m bv" and "length (vec_addrs bv) < 2 ^ 31"
  shows "unat (fuse_buf_size bv) = length (vec_addrs bv)"
proof -
  have "take (unat (bv_count bv)) (bv_buf bv) = bv_buf bv" using assms(1) by (simp add: whole_vec_def mem_vec_def)
  moreover have "length (vec_addrs bv) = sum_list (map (unat \<circ> fb_size) (bv_buf bv))"
    by (simp add: whole_vec_addrs [OF assms(1)] length_concat buf_addrs_def comp_def)
  ultimately show ?thesis using assms(2) by (simp add: fuse_buf_size_def unat_buf_size_from)
qed

text \<open>What is left is never more than the size of the vector, and all of it when a single buffer is at its start.\<close>

lemma vec_addrs_size:
  assumes v: "mem_vec bv" and n: "unat (fuse_buf_size bv) < 2 ^ 31"
  shows "length (vec_addrs bv) \<le> unat (fuse_buf_size bv)"
    and "bv_count bv = 1 \<Longrightarrow> bv_idx bv = 0 \<Longrightarrow> bv_off bv = 0 \<Longrightarrow> length (vec_addrs bv) = unat (fuse_buf_size bv)"
proof -
  let ?i = "unat (bv_idx bv)"
  have c: "take (unat (bv_count bv)) (bv_buf bv) = bv_buf bv" using v by (simp add: mem_vec_def)
  have sz: "unat (fuse_buf_size bv) = sum_list (map (unat \<circ> fb_size) (bv_buf bv))"
    using n unfolding fuse_buf_size_def unat_buf_size_from c by simp
  have len: "length (concat (map buf_addrs bs)) = sum_list (map (unat \<circ> fb_size) bs)" for bs
    by (simp add: length_concat buf_addrs_def comp_def)
  have "length (vec_addrs bv) \<le> length (concat (map buf_addrs (drop ?i (bv_buf bv))))"
    by (simp add: vec_addrs_def split: list.splits)
  also have "\<dots> \<le> sum_list (map (unat \<circ> fb_size) (take ?i (bv_buf bv))) + sum_list (map (unat \<circ> fb_size) (drop ?i (bv_buf bv)))"
    unfolding len by simp
  also have "\<dots> = unat (fuse_buf_size bv)" unfolding sz by (metis append_take_drop_id map_append sum_list_append)
  finally show "length (vec_addrs bv) \<le> unat (fuse_buf_size bv)" .
  assume s: "bv_count bv = 1" "bv_idx bv = 0" "bv_off bv = 0"
  then obtain b where "bv_buf bv = [b]" using v by (cases "bv_buf bv") (auto simp: mem_vec_def)
  then show "length (vec_addrs bv) = unat (fuse_buf_size bv)" using s by (simp add: sz vec_addrs_def buf_addrs_def)
qed

lemma ld_mapped: "\<forall>a \<in> {p..<p + n}. m a \<noteq> None \<Longrightarrow> ld m p n = Some (map (\<lambda>a. the (m a)) [p..<p + n])"
  by (simp add: ld_def list_all_iff)

text \<open>Memory that \<^verbatim>\<open>posix_memalign\<close> has returned, and the copy of a vector into it.\<close>

definition with_block :: "nat \<Rightarrow> nat \<Rightarrow> 'u fuse_world \<Rightarrow> 's mem_os \<Rightarrow> 's mem_os" where
  "with_block mbuf n w mo = mo\<lparr>mo_mem := map_block mbuf n (\<lambda>i. Some (uninit (plat w) i)) (mo_mem mo)\<rparr>"

lemma copy_to_block:
  fixes w :: "'u fuse_world"
  assumes v: "mem_vec bv" and mp: "\<forall>a \<in> set (vec_addrs bv). mo_mem mo a \<noteq> None"
    and len: "unat off + length (vec_addrs bv) \<le> unat len" and n: "unat len < 2 ^ 31"
    and fresh: "{mbuf..<mbuf + unat len} \<inter> set (vec_addrs bv) = {}"
  defines "d \<equiv> map (\<lambda>a. the (mo_mem mo a)) (vec_addrs bv)" and "dv \<equiv> (bufvec_of (plain_buf mbuf len))\<lparr>bv_off := off\<rparr>"
  obtains dv' sv' m where "fuse_buf_copy os tmp False dv bv 0 (with_block mbuf (unat len) w mo) = Some (int (length d), dv', sv', mo\<lparr>mo_mem := m\<rparr>)"
    "ld m (mbuf + unat off) (length d) = Some d"
    "\<forall>a. a \<notin> {mbuf + unat off..<mbuf + unat len} \<longrightarrow> m a = mo_mem (with_block mbuf (unat len) w mo) a"
proof -
  let ?D = "vec_addrs bv" let ?mo = "with_block mbuf (unat len) w mo"
  have bo: "off \<le> len" using len by (simp add: word_le_nat_alt)
  have dv: "mem_vec dv" "vec_addrs dv = [mbuf + unat off..<mbuf + unat len]"
    using bo by (simp_all add: dv_def mem_vec_def bufvec_of_def plain_buf_def has_bits_def vec_addrs_def buf_addrs_def)
  have frs: "a \<notin> {mbuf..<mbuf + unat len}" if "a \<in> set ?D" for a using fresh that by auto
  have same: "mo_mem ?mo a = mo_mem mo a" if "a \<in> set ?D" for a using frs [OF that] by (auto simp: with_block_def map_block_def)
  have mp': "\<forall>a \<in> set (vec_addrs dv) \<union> set ?D. mo_mem ?mo a \<noteq> None"
  proof
    fix a assume "a \<in> set (vec_addrs dv) \<union> set ?D"
    then show "mo_mem ?mo a \<noteq> None" using mp same [of a] by (auto simp: dv with_block_def map_block_def)
  qed
  have ds: "distinct (vec_addrs dv)" "set (vec_addrs dv) \<inter> set ?D = {}" using frs by (auto simp: dv)
  have nn: "length ?D = min (length (vec_addrs dv)) (length ?D)" using len by (simp add: dv)
  obtain dv' sv' m where c: "buf_copy_loop os tmp dv bv 0 0 ?mo = Some (int (length ?D), dv', sv', ?mo\<lparr>mo_mem := m\<rparr>)"
    and cp: "copies [mbuf + unat off..<mbuf + unat off + length ?D] ?D (mo_mem ?mo) m"
  proof -
    have "take (length ?D) [mbuf + unat off..<mbuf + unat len] = [mbuf + unat off..<mbuf + unat off + length ?D]" using len by simp
    then show thesis using that buf_copy_loop_mem [OF dv(1) v mp' ds nn, of 0 os tmp 0] len n by (auto simp: dv)
  qed
  have "map (mo_mem ?mo) ?D = map (mo_mem mo) ?D" using same by (intro map_cong) simp_all
  then have "map m [mbuf + unat off..<mbuf + unat off + length ?D] = map (mo_mem mo) ?D" using cp by (simp only: copies_def)
  then have "map the (map m [mbuf + unat off..<mbuf + unat off + length ?D]) = map the (map (mo_mem mo) ?D)" by (rule arg_cong)
  then have "map (\<lambda>a. the (m a)) [mbuf + unat off..<mbuf + unat off + length ?D] = d" unfolding d_def by (simp add: comp_def)
  moreover have "\<forall>a \<in> {mbuf + unat off..<mbuf + unat off + length ?D}. m a \<noteq> None"
    using copies_mapped [OF cp] mp' len by (auto simp: dv)
  ultimately have "ld m (mbuf + unat off) (length d) = Some d" using ld_mapped by (metis d_def length_map)
  moreover have "\<forall>a. a \<notin> {mbuf + unat off..<mbuf + unat len} \<longrightarrow> m a = mo_mem ?mo a" using cp len by (auto simp: copies_def)
  moreover have "?mo\<lparr>mo_mem := m\<rparr> = mo\<lparr>mo_mem := m\<rparr>" by (simp add: with_block_def)
  ultimately show thesis using that [of dv' sv' m] c by (simp add: fuse_buf_copy_def d_def)
qed

text \<open>Whatever way it takes, the message carries the bytes of the vector that are left.\<close>

lemma fallback_bytes:
  fixes w :: "'u fuse_world"
  assumes v: "mem_vec bv" and mp: "\<forall>a \<in> set (vec_addrs bv). mo_mem mo a \<noteq> None"
    and len: "length (vec_addrs bv) \<le> unat len"
    and direct: "bv_count bv = 1 \<Longrightarrow> bv_idx bv = 0 \<Longrightarrow> bv_off bv = 0 \<Longrightarrow> length (vec_addrs bv) = unat len" and n: "unat len < 2 ^ 31"
    and fresh: "{mbuf..<mbuf + unat len} \<inter> set (vec_addrs bv) = {}"
  defines "d \<equiv> map (\<lambda>a. the (mo_mem mo a)) (vec_addrs bv)"
  shows "\<exists>m. fuse_send_data_iov_fallback os tmp (Some mbuf) ch unique error iov bv len req mo w =
    (fst (fuse_send_msg ch unique error (iov @ [d]) req w), mo\<lparr>mo_mem := m\<rparr>, snd (fuse_send_msg ch unique error (iov @ [d]) req w))"
proof (cases "bv_count bv = 1 \<and> bv_idx bv = 0 \<and> bv_off bv = 0 \<and> \<not> has_bits (fb_flags (hd (bv_buf bv))) FUSE_BUF_IS_FD")
  case True
  then obtain b where b: "bv_buf bv = [b]" using v by (cases "bv_buf bv") (auto simp: mem_vec_def)
  then have D: "vec_addrs bv = [fb_mem b..<fb_mem b + unat len]"
    using True direct by (simp add: vec_addrs_def buf_addrs_def)
  have "ld (mo_mem mo) (fb_mem b) (unat len) = Some d" using mp unfolding d_def D by (intro ld_mapped) auto
  then have "fuse_send_data_iov_fallback os tmp (Some mbuf) ch unique error iov bv len req mo w =
    (fst (fuse_send_msg ch unique error (iov @ [d]) req w), mo\<lparr>mo_mem := mo_mem mo\<rparr>, snd (fuse_send_msg ch unique error (iov @ [d]) req w))"
    using True b by (simp add: fuse_send_data_iov_fallback_def case_prod_beta)
  then show ?thesis by blast
next
  case False
  obtain dv' sv' m where c: "fuse_buf_copy os tmp False ((bufvec_of (plain_buf mbuf len))\<lparr>bv_off := 0\<rparr>) bv 0 (with_block mbuf (unat len) w mo) =
      Some (int (length d), dv', sv', mo\<lparr>mo_mem := m\<rparr>)" and ld: "ld m (mbuf + unat (0 :: u64)) (length d) = Some d"
  proof (rule copy_to_block [OF v mp _ n fresh, of 0 os tmp w])
    show "unat (0 :: u64) + length (vec_addrs bv) \<le> unat len" using len by simp
  qed (simp add: d_def)
  have "length d < 2 ^ 31" using n len by (simp add: d_def)
  then have res: "sint (of_int (int (length d)) :: u32) = int (length d)"
    unfolding sint_sbintrunc' by (simp add: signed_take_bit_int_eq_self)
  have "(bufvec_of (plain_buf mbuf len))\<lparr>bv_off := 0\<rparr> = bufvec_of (plain_buf mbuf len)" by (simp add: bufvec_of_def)
  then show ?thesis
    using c ld res unfolding fuse_send_data_iov_fallback_def if_not_P [OF False] with_block_def [symmetric]
    by (auto simp: case_prod_beta with_block_def simp del: of_int_of_nat_eq)
qed

lemma fallback_no_memory:
  "\<not> (bv_count bv = 1 \<and> bv_idx bv = 0 \<and> bv_off bv = 0) \<Longrightarrow> fuse_send_data_iov_fallback os tmp None ch unique error iov bv len req mo w = (ENOMEM, mo, w)"
  by (auto simp: fuse_send_data_iov_fallback_def)

text \<open>A single buffer at its start needs no temporary block.\<close>

lemma fallback_no_block:
  assumes "mem_vec bv" and "bv_count bv = 1" "bv_idx bv = 0" "bv_off bv = 0"
  shows "fuse_send_data_iov_fallback os tmp memalign ch unique error iov bv len req mo w =
    fuse_send_data_iov_fallback os tmp (Some mbuf) ch unique error iov bv len req mo w"
proof -
  obtain b where "bv_buf bv = [b]" using assms by (cases "bv_buf bv") (auto simp: mem_vec_def)
  then show ?thesis using assms by (simp add: fuse_send_data_iov_fallback_def mem_vec_def)
qed

section \<open>Properties\<close>

text \<open>\<^bold>\<open>C26\<close> Replying with a buffer vector is the same as replying with the bytes that it has left: for a live request
  (not one of io-uring, which the port has not), error numbers of \<^verbatim>\<open>writev\<close> that are not negative, and a vector of
  memory buffers, in one piece or in several, at its start or at any other position, all of it mapped and below
  2 GiB, the message of \<^verbatim>\<open>fuse_reply_data\<close> and everything that follows from sending it are those of
  \<^verbatim>\<open>send_reply_iov\<close> with these bytes as its one vector, whether the buffer is sent as it is (which is done only
  for a single buffer at its start) or copied through a temporary block. The block, where the allocation gives
  one, is disjoint from the vector; where it fails and is needed, the request is answered with ENOMEM.\<close>

theorem reply_data_as_iov:
  fixes w :: "'u fuse_world"
  assumes "reqs w a = Some r" and "\<not> rq_is_uring r" and "mem_vec bv" and "\<forall>x \<in> set (vec_addrs bv). mo_mem mo x \<noteq> None"
    and "unat (fuse_buf_size bv) < 2 ^ 31"
    and "\<forall>mbuf. memalign = Some mbuf \<longrightarrow> {mbuf..<mbuf + unat (fuse_buf_size bv)} \<inter> set (vec_addrs bv) = {}"
    and "\<forall>n e. writev_errno (plat w) n = Some e \<longrightarrow> 0 \<le> e"
  shows "\<exists>mo'. fuse_reply_data os tmp memalign a bv flags mo w =
    (let (res, w') = if memalign = None \<and> \<not> (bv_count bv = 1 \<and> bv_idx bv = 0 \<and> bv_off bv = 0) then fuse_reply_err a ENOMEM w
       else send_reply_iov a 0 [map (\<lambda>x. the (mo_mem mo x)) (vec_addrs bv)] w
     in (res, mo', w'))"
proof (cases "memalign = None \<and> \<not> (bv_count bv = 1 \<and> bv_idx bv = 0 \<and> bv_off bv = 0)")
  case True
  then have "fuse_send_data_iov os tmp memalign (rq_ch r) (rq_unique r) 0 [] bv flags (Some r) mo w = (ENOMEM, mo, w)"
    unfolding fuse_send_data_iov_def using fallback_no_memory by blast
  then show ?thesis using assms(1,2) unfolding if_P [OF True] by (simp add: fuse_reply_data_def case_prod_beta)
next
  case False
  let ?d = "map (\<lambda>x. the (mo_mem mo x)) (vec_addrs bv)" let ?n = "unat (fuse_buf_size bv)"
  let ?m = "fuse_send_msg (rq_ch r) (rq_unique r) 0 [?d] (Some r) w"
  note size = vec_addrs_size [OF assms(3,5)]
  define mbuf where "mbuf = (case memalign of None \<Rightarrow> Suc (sum_list (vec_addrs bv)) | Some b \<Rightarrow> b)"
  have dj: "{mbuf..<mbuf + ?n} \<inter> set (vec_addrs bv) = {}"
    using assms(6) member_le_sum_list [of _ "vec_addrs bv"] by (fastforce simp: mbuf_def split: option.splits)
  obtain mo' where "fuse_send_data_iov os tmp (Some mbuf) (rq_ch r) (rq_unique r) 0 [] bv flags (Some r) mo w = (fst ?m, mo', snd ?m)"
    using fallback_bytes [OF assms(3,4) size assms(5) dj, of os tmp "rq_ch r" "rq_unique r" 0 "[]" "Some r" w]
    unfolding fuse_send_data_iov_def by fastforce
  moreover have "fuse_send_data_iov os tmp memalign (rq_ch r) (rq_unique r) 0 [] bv flags (Some r) mo w =
      fuse_send_data_iov os tmp (Some mbuf) (rq_ch r) (rq_unique r) 0 [] bv flags (Some r) mo w"
    using False fallback_no_block [OF assms(3)] unfolding fuse_send_data_iov_def by (cases memalign) (auto simp: mbuf_def)
  moreover have "fst ?m \<le> 0"
    using assms(7) by (auto simp: fuse_send_msg_def fuse_send_msg_uring_def fuse_write_msg_dev_def Let_def split: option.splits)
  ultimately show ?thesis
    using assms(1,2) unfolding if_not_P [OF False]
    by (simp add: fuse_reply_data_def send_reply_iov_def fuse_send_reply_iov_nofree_def with_req_int_def case_prod_beta)
qed

theorem reply_data_as_iov_witness:
  defines "b \<equiv> \<lambda>a n. \<lparr>fb_size = n, fb_flags = 0, fb_mem = a, fb_fd = 0, fb_pos = 0, fb_mem_size = 0\<rparr>"
  defines "bv \<equiv> \<lparr>bv_count = 3, bv_idx = 0, bv_off = 1, bv_buf = [b 0 3, b 50 0, b 10 2]\<rparr>"
  shows "dev_out (snd (snd (fuse_reply_data \<lparr>os_write = \<lambda>_ _ _ s. (Inl 5, s), os_read = \<lambda>_ _ _ s. (Inl 5, s), os_splice = None\<rparr> 0 (Some 100) 2 bv 0
      \<lparr>mo_mem = \<lambda>a. Some (of_nat a), mo_os = ()\<rparr> (demo_world\<lparr>reqs := [2 \<mapsto> zero_req\<lparr>rq_ref_cnt := 1\<rparr>]\<rparr>)))) =
    [(SeFd 0, enc_fuse_out_header 20 0 0 @ [1, 2, 10, 11])]"
proof -
  let ?w = "demo_world\<lparr>reqs := [2 \<mapsto> zero_req\<lparr>rq_ref_cnt := 1\<rparr>]\<rparr>"
  let ?os = "\<lparr>os_write = \<lambda>_ _ _ s. (Inl 5, s), os_read = \<lambda>_ _ _ s. (Inl 5, s), os_splice = None\<rparr> :: unit os_fd"
  let ?mo = "\<lparr>mo_mem = \<lambda>a. Some (of_nat a), mo_os = ()\<rparr> :: unit mem_os"
  have d: "vec_addrs bv = [1, 2, 10, 11]" by (simp add: vec_addrs_def buf_addrs_def bv_def b_def upt_rec)
  have v: "mem_vec bv" by (auto simp: mem_vec_def bv_def b_def has_bits_def)
  have sz: "fuse_buf_size bv = 5"
    by (simp add: word_unat_eq_iff buf_size_saturates bv_def b_def)
  have "\<exists>mo'. fuse_reply_data ?os 0 (Some 100) 2 bv 0 ?mo ?w =
      (let (res, w') = if Some (100 :: nat) = None \<and> \<not> (bv_count bv = 1 \<and> bv_idx bv = 0 \<and> bv_off bv = 0) then fuse_reply_err 2 ENOMEM ?w
         else send_reply_iov 2 0 [map (\<lambda>x. the (mo_mem ?mo x)) (vec_addrs bv)] ?w
       in (res, mo', w'))"
    by (rule reply_data_as_iov [where r = "zero_req\<lparr>rq_ref_cnt := 1\<rparr>"])
      (simp_all add: d v sz demo_world_simps, simp_all add: zero_req_def demo_platform_def)
  then have "\<exists>mo'. fuse_reply_data ?os 0 (Some 100) 2 bv 0 ?mo ?w =
      (fst (send_reply_iov 2 0 [[1, 2, 10, 11]] ?w), mo', snd (send_reply_iov 2 0 [[1, 2, 10, 11]] ?w))"
    by (simp add: d case_prod_beta Let_def)
  moreover have "dev_out (snd (send_reply_iov 2 0 [[1, 2, 10, 11]] ?w)) = [(SeFd 0, enc_fuse_out_header 20 0 0 @ [1, 2, 10, 11])]"
    by (simp add: send_reply_iov_def fuse_send_reply_iov_nofree_def with_req_int_def fuse_send_msg_def fuse_write_msg_dev_def iov_length_def
      zero_req_def demo_world_simps demo_platform_def Let_def fuse_free_req_last demo_world_def
      fuse_session_new_versioned_def zero_session_def)
  ultimately show ?thesis by auto
qed

end
