(* ===== verification/Fuse_Support.thy ===== *)
theory Fuse_Support
  imports Fuse_Dispatch Fuse_Data
begin

text \<open>
  The small supporting functions: what a request tells about itself, names of opcodes and passthrough files
  (\<^verbatim>\<open>fuse_lowlevel.c\<close>), logging (\<^verbatim>\<open>fuse_log.c\<close>), the POSIX threads and semaphores on Unikraft's
  (\<^verbatim>\<open>pthread.h\<close>, \<^verbatim>\<open>semaphore.h\<close>), and the remaining stubs of the C library (\<^verbatim>\<open>fuse_posix_stub.c\<close>). Parameters:
  Unikraft's locks, the requests to the device (\<^verbatim>\<open>ioctl\<close>) and \<^verbatim>\<open>posix_memalign\<close>.
\<close>

section \<open>Logging\<close>

datatype fuse_log_level = FUSE_LOG_EMERG | FUSE_LOG_ALERT | FUSE_LOG_CRIT | FUSE_LOG_ERR | FUSE_LOG_WARNING
  | FUSE_LOG_NOTICE | FUSE_LOG_INFO | FUSE_LOG_DEBUG

text \<open>The state of logging: the registered function, which changes a log \<open>'o\<close> of its own, and what was printed.\<close>

record ('a, 'o) logger =
  current_log_func :: "(fuse_log_level \<Rightarrow> string \<Rightarrow> 'a list \<Rightarrow> 'o \<Rightarrow> 'o) option"
  log_own :: 'o
  log_printed :: "(string \<times> 'a list) list"

definition fuse_set_log_func :: "(fuse_log_level \<Rightarrow> string \<Rightarrow> 'a list \<Rightarrow> 'o \<Rightarrow> 'o) option \<Rightarrow> ('a, 'o) logger \<Rightarrow> ('a, 'o) logger" where
  "fuse_set_log_func func l = l\<lparr>current_log_func := func\<rparr>"

definition fuse_log :: "fuse_log_level \<Rightarrow> string \<Rightarrow> 'a list \<Rightarrow> ('a, 'o) logger \<Rightarrow> ('a, 'o) logger" where
  "fuse_log level fmt args l =
     (case current_log_func l of
        Some f \<Rightarrow> l\<lparr>log_own := f level fmt args (log_own l)\<rparr>
      | None \<Rightarrow> l\<lparr>log_printed := log_printed l @ [(fmt, args)]\<rparr>)"

text \<open>A run of messages goes, in order, to the registered function, or is printed whatever its level.\<close>

lemma log_all:
  "fold (\<lambda>(level, fmt, args). fuse_log level fmt args) ms l =
     (case current_log_func l of
        Some f \<Rightarrow> l\<lparr>log_own := fold (\<lambda>(level, fmt, args). f level fmt args) ms (log_own l)\<rparr>
      | None \<Rightarrow> l\<lparr>log_printed := log_printed l @ map snd ms\<rparr>)"
  by (induction ms arbitrary: l) (auto simp: fuse_log_def split: option.splits)

section \<open>Threads and semaphores\<close>

text \<open>Unikraft's operations on a mutex and a semaphore; \<open>None\<close> is that the caller waits.\<close>

record ('m, 's) uk_sync =
  sync_mutex_init :: "'m \<Rightarrow> 'm"
  sync_mutex_lock :: "'m \<Rightarrow> 'm option"
  sync_mutex_unlock :: "'m \<Rightarrow> 'm"
  sync_semaphore_init :: "u32 \<Rightarrow> 's"
  sync_semaphore_down :: "'s \<Rightarrow> 's option"
  sync_semaphore_up :: "'s \<Rightarrow> 's"

definition pthread_mutex_init :: "('m, 's) uk_sync \<Rightarrow> 'm \<Rightarrow> int \<times> 'm" where "pthread_mutex_init u m = (0, sync_mutex_init u m)"
definition pthread_mutex_destroy :: "'m \<Rightarrow> int \<times> 'm" where "pthread_mutex_destroy m = (0, m)"
definition pthread_mutex_lock :: "('m, 's) uk_sync \<Rightarrow> 'm \<Rightarrow> (int \<times> 'm) option" where
  "pthread_mutex_lock u m = map_option (Pair 0) (sync_mutex_lock u m)"
definition pthread_mutex_unlock :: "('m, 's) uk_sync \<Rightarrow> 'm \<Rightarrow> int \<times> 'm" where "pthread_mutex_unlock u m = (0, sync_mutex_unlock u m)"
definition pthread_create :: int where "pthread_create = - 1"
definition pthread_join :: int where "pthread_join = - 1"
definition pthread_cancel :: int where "pthread_cancel = - 1"
definition pthread_key_create :: int where "pthread_key_create = - 1"
definition pthread_key_delete :: int where "pthread_key_delete = - 1"
definition pthread_setspecific :: int where "pthread_setspecific = - 1"
definition pthread_getspecific :: "u64 option" where "pthread_getspecific = None"

definition sem_init :: "('m, 's) uk_sync \<Rightarrow> u32 \<Rightarrow> int \<times> 's" where "sem_init u value = (0, sync_semaphore_init u value)"
definition sem_destroy :: "'s \<Rightarrow> int \<times> 's" where "sem_destroy s = (0, s)"
definition sem_wait :: "('m, 's) uk_sync \<Rightarrow> 's \<Rightarrow> (int \<times> 's) option" where
  "sem_wait u s = map_option (Pair 0) (sync_semaphore_down u s)"
definition sem_post :: "('m, 's) uk_sync \<Rightarrow> 's \<Rightarrow> int \<times> 's" where "sem_post u s = (0, sync_semaphore_up u s)"

section \<open>C library\<close>

definition perror :: "string \<Rightarrow> int \<Rightarrow> string \<times> string \<times> int" where
  "perror s errno = (''%s: error %d\<newline>'', s, errno)"

definition aligned_alloc :: "(u64 \<Rightarrow> u64 \<Rightarrow> int + u64) \<Rightarrow> u64 \<Rightarrow> u64 \<Rightarrow> u64 option" where
  "aligned_alloc posix_memalign alignment sz = (case posix_memalign alignment sz of Inl _ \<Rightarrow> None | Inr ptr \<Rightarrow> Some ptr)"

definition getenv :: "string \<Rightarrow> string option" where "getenv name = None"

definition fuse_get_session :: "addr option" where "fuse_get_session = None"
definition fuse_pkgversion :: string where "fuse_pkgversion = ''3.12.0-ukfuse''"

section \<open>Texts for the user\<close>

definition fuse_cmdline_help :: "string list" where
  "fuse_cmdline_help =
     [''    -h   --help            print help\<newline>'',
      ''    -V   --version         print version\<newline>'',
      ''    -d   -o debug          enable debug output (implies -f)\<newline>'',
      ''    -f                     foreground operation\<newline>'',
      ''    -s                     disable multi-threaded operation\<newline>'',
      ''    -o clone_fd            use separate fuse device fd for each thread\<newline>'',
      ''                           (may improve performance)\<newline>'',
      ''    -o max_idle_threads    the maximum number of idle worker threads\<newline>'',
      ''                           allowed (default: -1)\<newline>'',
      ''    -o max_threads         the maximum number of worker threads\<newline>'',
      ''                           allowed (default: 10)\<newline>'']"

definition fuse_lowlevel_version :: "string \<times> u32 list" where
  "fuse_lowlevel_version = (''using FUSE kernel interface version %i.%i\<newline>'', [FUSE_KERNEL_VERSION, FUSE_KERNEL_MINOR_VERSION])"

definition fuse_lowlevel_help :: "string list" where
  "fuse_lowlevel_help =
     [''    -o allow_other         allow access by all users\<newline>'',
      ''    -o allow_root          allow access by root\<newline>'',
      ''    -o auto_unmount        auto unmount on process termination\<newline>'',
      ''    -o io_uring            enable io-uring\<newline>'',
      ''    -o io_uring_q_depth=<n> io-uring queue depth\<newline>'']"

section \<open>Requests\<close>

text \<open>What a request tells; \<open>None\<close> is a use of a request that does not exist.\<close>

definition fuse_req_userdata :: "addr \<Rightarrow> 'u fuse_world \<Rightarrow> u64 option" where
  "fuse_req_userdata req w = map_option (\<lambda>_. se_userdata (se w)) (reqs w req)"

definition fuse_req_ctx :: "addr \<Rightarrow> 'u fuse_world \<Rightarrow> fuse_ctx option" where
  "fuse_req_ctx req w = map_option rq_ctx (reqs w req)"

definition fuse_req_is_uring :: "addr \<Rightarrow> 'u fuse_world \<Rightarrow> bool option" where
  "fuse_req_is_uring req w = map_option rq_is_uring (reqs w req)"

definition fuse_req_get_payload :: int where "fuse_req_get_payload = - ENOTSUP"

section \<open>Passthrough files\<close>

record fuse_backing_map =
  bm_fd :: int
  bm_flags :: u32
  bm_padding :: u64

datatype dev_ioctl = FUSE_DEV_IOC_BACKING_OPEN fuse_backing_map | FUSE_DEV_IOC_BACKING_CLOSE int

text \<open>The device's answer to a request: the return value of \<^verbatim>\<open>ioctl\<close> and \<^verbatim>\<open>errno\<close>. The error number stands for the text of
  the message.\<close>

definition fuse_passthrough_open :: "(int \<Rightarrow> dev_ioctl \<Rightarrow> int \<times> int) \<Rightarrow> int \<Rightarrow> 'u fuse_world \<Rightarrow> (int, 'o) logger \<Rightarrow> int \<times> (int, 'o) logger" where
  "fuse_passthrough_open ioctl fd w l =
     (let bm = \<lparr>bm_fd = fd, bm_flags = 0, bm_padding = 0\<rparr>;
          (ret, errno) = ioctl (se_fd (se w)) (FUSE_DEV_IOC_BACKING_OPEN bm)
      in if ret \<le> 0 then (0, fuse_log FUSE_LOG_ERR ''fuse: passthrough_open: %s\<newline>'' [errno] l) else (ret, l))"

definition fuse_passthrough_close :: "(int \<Rightarrow> dev_ioctl \<Rightarrow> int \<times> int) \<Rightarrow> int \<Rightarrow> 'u fuse_world \<Rightarrow> (int, 'o) logger \<Rightarrow> int \<times> (int, 'o) logger" where
  "fuse_passthrough_close ioctl backing_id w l =
     (let (ret, errno) = ioctl (se_fd (se w)) (FUSE_DEV_IOC_BACKING_CLOSE backing_id)
      in (ret, if ret < 0 then fuse_log FUSE_LOG_ERR ''fuse: passthrough_close: %s\<newline>'' [errno] l else l))"

text \<open>A backing file is open exactly when its number is positive; only then nothing is logged.\<close>

lemma passthrough_open_result:
  assumes "fuse_passthrough_open ioctl fd w l = (r, l')"
  shows "0 \<le> r" "0 < r \<longleftrightarrow> 0 < fst (ioctl (se_fd (se w)) (FUSE_DEV_IOC_BACKING_OPEN \<lparr>bm_fd = fd, bm_flags = 0, bm_padding = 0\<rparr>))"
    "0 < r \<Longrightarrow> l' = l"
  using assms by (auto simp: fuse_passthrough_open_def split: if_splits prod.splits)

section \<open>Names of opcodes\<close>

definition ll_op_names :: "u32 \<Rightarrow> string option" where
  "ll_op_names = map_of
     [(FUSE_LOOKUP, ''LOOKUP''), (FUSE_FORGET, ''FORGET''), (FUSE_GETATTR, ''GETATTR''), (FUSE_SETATTR, ''SETATTR''),
      (FUSE_READLINK, ''READLINK''), (FUSE_SYMLINK, ''SYMLINK''), (FUSE_MKNOD, ''MKNOD''), (FUSE_MKDIR, ''MKDIR''),
      (FUSE_UNLINK, ''UNLINK''), (FUSE_RMDIR, ''RMDIR''), (FUSE_RENAME, ''RENAME''), (FUSE_LINK, ''LINK''), (FUSE_OPEN, ''OPEN''),
      (FUSE_READ, ''READ''), (FUSE_WRITE, ''WRITE''), (FUSE_STATFS, ''STATFS''), (FUSE_RELEASE, ''RELEASE''), (FUSE_FSYNC, ''FSYNC''),
      (FUSE_SETXATTR, ''SETXATTR''), (FUSE_GETXATTR, ''GETXATTR''), (FUSE_LISTXATTR, ''LISTXATTR''), (FUSE_REMOVEXATTR, ''REMOVEXATTR''),
      (FUSE_FLUSH, ''FLUSH''), (FUSE_INIT, ''INIT''), (FUSE_OPENDIR, ''OPENDIR''), (FUSE_READDIR, ''READDIR''),
      (FUSE_RELEASEDIR, ''RELEASEDIR''), (FUSE_FSYNCDIR, ''FSYNCDIR''), (FUSE_GETLK, ''GETLK''), (FUSE_SETLK, ''SETLK''),
      (FUSE_SETLKW, ''SETLKW''), (FUSE_ACCESS, ''ACCESS''), (FUSE_CREATE, ''CREATE''), (FUSE_TMPFILE, ''TMPFILE''),
      (FUSE_INTERRUPT, ''INTERRUPT''), (FUSE_BMAP, ''BMAP''), (FUSE_IOCTL, ''IOCTL''), (FUSE_POLL, ''POLL''),
      (FUSE_FALLOCATE, ''FALLOCATE''), (FUSE_DESTROY, ''DESTROY''), (FUSE_NOTIFY_REPLY, ''NOTIFY_REPLY''),
      (FUSE_BATCH_FORGET, ''BATCH_FORGET''), (FUSE_READDIRPLUS, ''READDIRPLUS''), (FUSE_RENAME2, ''RENAME2''),
      (FUSE_COPY_FILE_RANGE, ''COPY_FILE_RANGE''), (FUSE_COPY_FILE_RANGE_64, ''COPY_FILE_RANGE_64''), (FUSE_LSEEK, ''LSEEK''),
      (FUSE_STATX, ''STATX''), (CUSE_INIT, ''CUSE_INIT'')]"

definition opname :: "u32 \<Rightarrow> string" where
  "opname opcode = (if opcode \<ge> FUSE_MAXOP then ''???'' else case ll_op_names opcode of None \<Rightarrow> ''???'' | Some name \<Rightarrow> name)"

lemma map_of_dom: "map fst xs = map fst ys \<Longrightarrow> map_of xs k = None \<longleftrightarrow> map_of ys k = None"
  by (metis map_of_eq_None_iff set_map)

text \<open>The opcodes with a name are those with a handler, so a request is refused for its opcode exactly when it has no name.\<close>

lemma opname_iff_handler: "opname opcode \<noteq> ''???'' \<longleftrightarrow> opcode < FUSE_MAXOP \<and> fuse_ll_ops op opcode \<noteq> None"
proof -
  have "fuse_ll_ops op opcode = None \<longleftrightarrow> ll_op_names opcode = None"
    unfolding fuse_ll_ops_def ll_op_names_def by (rule map_of_dom) simp
  moreover have "name \<noteq> ''???''" if "ll_op_names opcode = Some name" for name
    using that [unfolded ll_op_names_def, THEN map_of_SomeD] by (auto simp del: not_None_eq)
  ultimately show ?thesis by (auto simp: opname_def not_le split: option.splits)
qed

end
