(* ===== verification/Fuse_Splice.thy ===== *)
theory Fuse_Splice
  imports Fuse_Data Fuse_Groups
begin

text \<open>
  Sending data with \<^verbatim>\<open>splice\<close>: the code of \<^verbatim>\<open>libs/libfuse/lib/fuse_lowlevel.c\<close> under \<^verbatim>\<open>HAVE_SPLICE\<close> and \<^verbatim>\<open>HAVE_VMSPLICE\<close>, which
  the port leaves out and a build for Linux has. A reply first goes into a pipe that each thread keeps (the header with \<^verbatim>\<open>vmsplice\<close>,
  the data by copying or splicing), and then from the pipe to the device; where that does not work the code goes back to the way through
  memory, taking the data out of the pipe again if need be.

  Parameters: the system calls on pipes (\<open>pipe_os\<close>), on the state of the descriptors of \<open>Fuse_Buffer\<close>. What they promise are the laws of
  the locale \<open>pipes\<close>: a pipe is a queue of bytes. Thread-specific data is that of POSIX. The lemmas show that a reply through the pipe
  is the reply through memory, and that the pipe is empty after each.
\<close>

section \<open>Numbers\<close>

text \<open>\<^verbatim>\<open>strtol\<close> with base 10 and the test that the whole string is a number (\<^verbatim>\<open>util.h\<close>). Without digits \<^verbatim>\<open>strtol\<close> returns 0 and the string
  itself as the rest.\<close>

definition libfuse_strtol :: "string \<Rightarrow> int + int" where
  "libfuse_strtol str =
     (let (neg, t) = strip_sign (dropWhile isspace str);
          ds = takeWhile (\<lambda>c. digit_val c < 10) t;
          val = (if neg then - int (digits_val 10 ds) else int (digits_val 10 ds));
          endptr = (if ds = [] then str else drop (length ds) t)
      in if val < - (2 ^ 63) \<or> 2 ^ 63 \<le> val \<or> endptr \<noteq> [] then Inl (- EINVAL) else Inr val)"

text \<open>A number with a line end behind it is refused.\<close>

lemma strtol_newline: "libfuse_strtol (s @ [CHR 0x0A]) = Inl (- EINVAL)"
proof -
  let ?s = "s @ [CHR 0x0A]" let ?t = "snd (strip_sign (dropWhile isspace ?s))"
  define ds where "ds = takeWhile (\<lambda>c. digit_val c < 10) ?t"
  have nl: "isspace (CHR 0x0A)" "\<not> digit_val (CHR 0x0A) < 10" by (simp_all add: isspace_def digit_val_def)
  have tail: "\<exists>n. snd (strip_sign u) = drop n u" for u
  proof (cases u)
    case (Cons c v)
    then have "snd (strip_sign u) = drop 1 u \<or> snd (strip_sign u) = drop 0 u" by (simp add: strip_sign_def)
    then show ?thesis by blast
  qed (simp add: strip_sign_def)
  have "drop (length ds) ?t \<noteq> []" if "ds \<noteq> []"
  proof
    assume "drop (length ds) ?t = []"
    then have t: "?t = ds" by (metis append_Nil2 ds_def takeWhile_eq_take append_take_drop_id)
    obtain n where n: "?t = drop n (dropWhile isspace ?s)" using tail by blast
    obtain m where "dropWhile isspace ?s = drop m ?s" by (metis dropWhile_eq_drop)
    then have d: "ds = drop (n + m) ?s" using t n by (metis drop_drop)
    then have "n + m < length ?s" using that by (metis drop_all not_le)
    then have "last ds = last ?s" unfolding d by (rule last_drop)
    moreover have "digit_val (last ds) < 10" using that by (metis ds_def last_in_set set_takeWhileD)
    ultimately show False using nl by simp
  qed
  then show ?thesis by (auto simp: libfuse_strtol_def Let_def ds_def [symmetric] split_beta)
qed

section \<open>System calls\<close>

datatype fcntl_cmd = F_SETFL_NONBLOCK | F_SETFD_CLOEXEC | F_SETPIPE_SZ int

text \<open>\<open>os_pipe2\<close> is there if \<^verbatim>\<open>HAVE_PIPE2\<close> and \<^verbatim>\<open>O_CLOEXEC\<close> are. \<^verbatim>\<open>vmsplice\<close> puts pages of the process into the pipe, which stay its
  own: when the pipe is spliced to the device, the bytes are those that the pages have then. \<open>os_splice_dev\<close> gets them as an argument, and
  returns the bytes that the device took (\<^verbatim>\<open>splice\<close>, or \<^verbatim>\<open>splice_send\<close> of custom I/O); \<open>os_dev_splice\<close> is the other direction, with the
  number of bytes that came.\<close>

record 's pipe_os =
  po_fd :: "'s os_fd"
  os_pipe :: "'s \<Rightarrow> (int + int \<times> int) \<times> 's"
  os_pipe2 :: "('s \<Rightarrow> (int + int \<times> int) \<times> 's) option"
  os_fcntl :: "int \<Rightarrow> fcntl_cmd \<Rightarrow> 's \<Rightarrow> (int + int) \<times> 's"
  os_open :: "string \<Rightarrow> 's \<Rightarrow> (int + int) \<times> 's"
  os_close :: "int \<Rightarrow> 's \<Rightarrow> 's"
  os_vmsplice :: "int \<Rightarrow> byte list list \<Rightarrow> u32 \<Rightarrow> 's \<Rightarrow> (int + nat) \<times> 's"
  os_splice_dev :: "int \<Rightarrow> byte list list \<Rightarrow> nat \<Rightarrow> u32 \<Rightarrow> 's \<Rightarrow> (int + byte list) \<times> 's"
  os_dev_splice :: "int \<Rightarrow> nat \<Rightarrow> 's \<Rightarrow> (int + nat) \<times> 's"

section \<open>The pipe of a thread\<close>

record fuse_ll_pipe =
  lp_size :: u64
  lp_can_grow :: bool
  lp_rd :: int
  lp_wr :: int

text \<open>Memory and descriptors, the value of \<^verbatim>\<open>se->pipe_key\<close> in the thread, and \<^verbatim>\<open>se->broken_splice_nonblock\<close>.\<close>

record 's splice_st =
  ss_mo :: "'s mem_os"
  ss_pipe :: "fuse_ll_pipe option"
  ss_broken :: bool

abbreviation ss_os :: "'s splice_st \<Rightarrow> 's" where "ss_os x \<equiv> mo_os (ss_mo x)"

definition with_os :: "'s \<Rightarrow> 's splice_st \<Rightarrow> 's splice_st" where
  "with_os s x = x\<lparr>ss_mo := (ss_mo x)\<lparr>mo_os := s\<rparr>\<rparr>"

definition fuse_ll_pipe_free :: "'s pipe_os \<Rightarrow> fuse_ll_pipe \<Rightarrow> 's splice_st \<Rightarrow> 's splice_st" where
  "fuse_ll_pipe_free os llp x = with_os (os_close os (lp_wr llp) (os_close os (lp_rd llp) (ss_os x))) x"

text \<open>The calls of \<^verbatim>\<open>fcntl\<close> up to the first that fails.\<close>

fun fcntls :: "'s pipe_os \<Rightarrow> (int \<times> fcntl_cmd) list \<Rightarrow> 's \<Rightarrow> int option \<times> 's" where
  "fcntls os [] s = (None, s)"
| "fcntls os ((fd, cmd) # cs) s =
     (case os_fcntl os fd cmd s of
        (Inl err, s) \<Rightarrow> (Some err, s)
      | (Inr _, s) \<Rightarrow> fcntls os cs s)"

definition fuse_pipe :: "'s pipe_os \<Rightarrow> 's \<Rightarrow> (int + int \<times> int) \<times> 's" where
  "fuse_pipe os s =
     (case os_pipe2 os of
        Some pipe2 \<Rightarrow> pipe2 s
      | None \<Rightarrow>
          (case os_pipe os s of
             (Inl err, s) \<Rightarrow> (Inl err, s)
           | (Inr (r, wr), s) \<Rightarrow>
               (case fcntls os [(r, F_SETFL_NONBLOCK), (wr, F_SETFL_NONBLOCK), (r, F_SETFD_CLOEXEC), (wr, F_SETFD_CLOEXEC)] s of
                  (Some err, s) \<Rightarrow> (Inl err, os_close os wr (os_close os r s))
                | (None, s) \<Rightarrow> (Inr (r, wr), s))))"

definition fuse_ll_get_pipe :: "'s pipe_os \<Rightarrow> 's splice_st \<Rightarrow> 'u fuse_world \<Rightarrow> fuse_ll_pipe option \<times> 's splice_st \<times> 'u fuse_world" where
  "fuse_ll_get_pipe os x w =
     (case ss_pipe x of
        Some llp \<Rightarrow> (Some llp, x, w)
      | None \<Rightarrow>
          (let (ok, w) = try_malloc w
           in if \<not> ok then (None, x, w)
              else
                (case fuse_pipe os (ss_os x) of
                   (Inl err, s) \<Rightarrow> (None, with_os s x, w)
                 | (Inr (r, wr), s) \<Rightarrow>
                     (let llp = \<lparr>lp_size = pagesize * 16, lp_can_grow = True, lp_rd = r, lp_wr = wr\<rparr>
                      in (Some llp, (with_os s x)\<lparr>ss_pipe := Some llp\<rparr>, w)))))"

definition fuse_ll_clear_pipe :: "'s pipe_os \<Rightarrow> 's splice_st \<Rightarrow> 's splice_st" where
  "fuse_ll_clear_pipe os x =
     (case ss_pipe x of
        None \<Rightarrow> x
      | Some llp \<Rightarrow> fuse_ll_pipe_free os llp (x\<lparr>ss_pipe := None\<rparr>))"

text \<open>The bytes read are returned; the caller says where they go.\<close>

definition read_back :: "'s pipe_os \<Rightarrow> int \<Rightarrow> nat \<Rightarrow> 's splice_st \<Rightarrow> int \<times> byte list \<times> 's splice_st" where
  "read_back os fd len x =
     (case os_read (po_fd os) fd len None (ss_os x) of
        (Inl err, s) \<Rightarrow> (- EIO, [], with_os s x)
      | (Inr d, s) \<Rightarrow> (if length d \<noteq> len then - EIO else 0, d, with_os s x))"

definition grow_pipe_to_max :: "'s pipe_os \<Rightarrow> int \<Rightarrow> 's \<Rightarrow> int \<times> 's" where
  "grow_pipe_to_max os pipefd s =
     (case os_open os ''/proc/sys/fs/pipe-max-size'' s of
        (Inl err, s) \<Rightarrow> (- err, s)
      | (Inr maxfd, s) \<Rightarrow>
          (case os_read (po_fd os) maxfd 31 None s of
             (Inl err, s) \<Rightarrow> (- err, os_close os maxfd s)
           | (Inr d, s) \<Rightarrow>
               (let s = os_close os maxfd s
                in case libfuse_strtol (takeWhile (\<lambda>c. c \<noteq> NUL) (map (char_of \<circ> unat) d)) of
                     Inl res \<Rightarrow> (res, s)
                   | Inr mx \<Rightarrow>
                       (case os_fcntl os pipefd (F_SETPIPE_SZ mx) s of
                          (Inl err, s) \<Rightarrow> (- err, s)
                        | (Inr _, s) \<Rightarrow> (sint (of_int mx :: u32), s)))))"

text \<open>The file ends in a newline, so the pipe never grows this way.\<close>

lemma grow_pipe_newline:
  assumes "os_open os ''/proc/sys/fs/pipe-max-size'' s = (Inr fd, s1)" and "os_read (po_fd os) fd 31 None s1 = (Inr d, s2)"
    and "takeWhile (\<lambda>c. c \<noteq> NUL) (map (char_of \<circ> unat) d) = ds @ [CHR 0x0A]"
  shows "grow_pipe_to_max os pipefd s = (- EINVAL, os_close os fd s2)"
  using assms by (simp add: grow_pipe_to_max_def Let_def strtol_newline)

section \<open>Sending\<close>

text \<open>The sizes of the buffers from the position on.\<close>

definition total_buf_size :: "nat fuse_bufvec \<Rightarrow> u64" where
  "total_buf_size buf =
     (let bs = drop (unat (bv_idx buf)) (take (unat (bv_count buf)) (bv_buf buf))
      in sum_list (map fb_size bs) - (if bs = [] then 0 else bv_off buf))"

definition splice_fallback :: "'s pipe_os \<Rightarrow> nat \<Rightarrow> nat option \<Rightarrow> addr option \<Rightarrow> u64 \<Rightarrow> int \<Rightarrow> byte list list \<Rightarrow>
    nat fuse_bufvec \<Rightarrow> u64 \<Rightarrow> fuse_req option \<Rightarrow> 's splice_st \<Rightarrow> 'u fuse_world \<Rightarrow> int \<times> 's splice_st \<times> 'u fuse_world" where
  "splice_fallback os tmp memalign ch unique error iov buf len req x w =
     (let (res, mo, w) = fuse_send_data_iov_fallback (po_fd os) tmp memalign ch unique error iov buf len req (ss_mo x) w
      in (res, x\<lparr>ss_mo := mo\<rparr>, w))"

text \<open>Makes the pipe large enough, and says whether it is.\<close>

definition pipe_fits :: "'s pipe_os \<Rightarrow> fuse_ll_pipe \<Rightarrow> u64 \<Rightarrow> 's splice_st \<Rightarrow> bool \<times> 's splice_st" where
  "pipe_fits os llp pipesize x =
     (if lp_size llp < pipesize then
        (if lp_can_grow llp then
           (case os_fcntl os (lp_rd llp) (F_SETPIPE_SZ (uint pipesize)) (ss_os x) of
              (Inl err, s) \<Rightarrow>
                (let (res, s) = grow_pipe_to_max os (lp_rd llp) s;
                     llp = (if res > 0 then llp\<lparr>lp_size := of_int res\<rparr> else llp)
                 in (False, (with_os s x)\<lparr>ss_pipe := Some (llp\<lparr>lp_can_grow := False\<rparr>)\<rparr>))
            | (Inr res, s) \<Rightarrow> (\<not> of_int res < pipesize, (with_os s x)\<lparr>ss_pipe := Some (llp\<lparr>lp_size := of_int res\<rparr>)\<rparr>))
         else (False, x))
      else (True, x))"

text \<open>What reaches the device.\<close>

definition dev_takes :: "addr option \<Rightarrow> byte list \<Rightarrow> 'u fuse_world \<Rightarrow> 'u fuse_world" where
  "dev_takes ch bs w = w\<lparr>dev_out := dev_out w @ [(case ch of Some c \<Rightarrow> ChFd c | None \<Rightarrow> SeFd (se_fd (se w)), bs)]\<rparr>"

text \<open>The last part: the header gets the length of what is in the pipe, and the pipe goes to the device.\<close>

definition splice_out :: "'s pipe_os \<Rightarrow> fuse_ll_pipe \<Rightarrow> addr option \<Rightarrow> u64 \<Rightarrow> int \<Rightarrow> byte list list \<Rightarrow> nat \<Rightarrow> u32 \<Rightarrow>
    's splice_st \<Rightarrow> 'u fuse_world \<Rightarrow> int \<times> 's splice_st \<times> 'u fuse_world" where
  "splice_out os llp ch unique error iov len flags x w =
     (let out_len = of_nat (16 + iov_length iov + len) :: u32;
          hdr = enc_fuse_out_header out_len (of_int error) unique;
          splice_flags = (if has_bits flags FUSE_BUF_SPLICE_MOVE \<and> want_ext (conn w) AND FUSE_CAP_SPLICE_MOVE \<noteq> 0 then SPLICE_F_MOVE else 0)
      in if (case ch of Some c \<Rightarrow> ukfs w c = None | None \<Rightarrow> False) then (- 1, x, raise_fault UseAfterFree w)
         else
           (case os_splice_dev os (lp_rd llp) (hdr # iov) (unat out_len) splice_flags (ss_os x) of
              (Inl err, s) \<Rightarrow> (- err, fuse_ll_clear_pipe os (with_os s x), w)
            | (Inr bs, s) \<Rightarrow>
                (let w = dev_takes ch bs w
                 in if length bs \<noteq> unat out_len then (- EIO, fuse_ll_clear_pipe os (with_os s x), w)
                    else (0, with_os s x, w))))"

text \<open>After a short copy into the pipe: the rest of the data is read into memory. If there is a rest, the pipe is read back in front of
  it and the message is written from memory; otherwise it is what is in the pipe.\<close>

definition splice_short :: "'s pipe_os \<Rightarrow> nat \<Rightarrow> nat option \<Rightarrow> fuse_ll_pipe \<Rightarrow> addr option \<Rightarrow> u64 \<Rightarrow> int \<Rightarrow> byte list list \<Rightarrow>
    nat fuse_bufvec \<Rightarrow> u64 \<Rightarrow> nat \<Rightarrow> u32 \<Rightarrow> fuse_req option \<Rightarrow> 's splice_st \<Rightarrow> 'u fuse_world \<Rightarrow> int \<times> 's splice_st \<times> 'u fuse_world" where
  "splice_short os tmp memalign llp ch unique error iov buf len now_len flags req x w =
     (case memalign of
        None \<Rightarrow> (ENOMEM, fuse_ll_clear_pipe os x, w)
      | Some mbuf \<Rightarrow>
          (let mo = (ss_mo x)\<lparr>mo_mem := map_block mbuf (unat len) (\<lambda>i. Some (uninit (plat w) i)) (mo_mem (ss_mo x))\<rparr>;
               free = (\<lambda>x. x\<lparr>ss_mo := (ss_mo x)\<lparr>mo_mem := map_block mbuf (unat len) (\<lambda>_. None) (mo_mem (ss_mo x))\<rparr>\<rparr>);
               mem_buf = (bufvec_of (plain_buf mbuf len))\<lparr>bv_off := of_nat now_len\<rparr>
           in case fuse_buf_copy (po_fd os) tmp False mem_buf buf 0 mo of
                None \<Rightarrow> (- 1, x, raise_fault OutOfBounds w)
              | Some (r, _, _, mo) \<Rightarrow>
                  (let res = sint (of_int r :: u32); x = x\<lparr>ss_mo := mo\<rparr>
                   in if res > 0 then
                        (let (ok, w) = try_malloc w
                         in if \<not> ok then (ENOMEM, fuse_ll_clear_pipe os (free x), w)
                            else
                              (let (e, _, x) = read_back os (lp_rd llp) (16 + iov_length iov) x
                               in if e \<noteq> 0 then (e, fuse_ll_clear_pipe os (free x), w)
                                  else
                                    (let (e, d, x) = read_back os (lp_rd llp) now_len x
                                     in case st (mo_mem (ss_mo x)) mbuf d of
                                          None \<Rightarrow> (- 1, x, raise_fault OutOfBounds w)
                                        | Some m \<Rightarrow>
                                            (let x = x\<lparr>ss_mo := (ss_mo x)\<lparr>mo_mem := m\<rparr>\<rparr>
                                             in if e \<noteq> 0 then (e, fuse_ll_clear_pipe os (free x), w)
                                                else
                                                  (case ld m mbuf (now_len + nat res) of
                                                     None \<Rightarrow> (- 1, x, raise_fault OutOfBounds w)
                                                   | Some d \<Rightarrow> (let (res, w) = fuse_send_msg ch unique error (iov @ [d]) req w in (res, free x, w)))))))
                      else splice_out os llp ch unique error iov now_len flags (free x) w)))"

definition pipe_buf :: "int \<Rightarrow> u64 \<Rightarrow> nat fuse_buf" where
  "pipe_buf fd len = \<lparr>fb_size = len, fb_flags = FUSE_BUF_IS_FD, fb_mem = 0, fb_fd = fd, fb_pos = 0, fb_mem_size = 0\<rparr>"

text \<open>The data after the header has gone into the pipe.\<close>

definition splice_data :: "'s pipe_os \<Rightarrow> nat \<Rightarrow> nat option \<Rightarrow> fuse_ll_pipe \<Rightarrow> addr option \<Rightarrow> u64 \<Rightarrow> int \<Rightarrow> byte list list \<Rightarrow>
    nat fuse_bufvec \<Rightarrow> u64 \<Rightarrow> u32 \<Rightarrow> fuse_req option \<Rightarrow> 's splice_st \<Rightarrow> 'u fuse_world \<Rightarrow> int \<times> 's splice_st \<times> 'u fuse_world" where
  "splice_data os tmp memalign llp ch unique error iov buf len flags req x w =
     (case fuse_buf_copy (po_fd os) tmp False (bufvec_of (pipe_buf (lp_wr llp) len)) buf (FUSE_BUF_FORCE_SPLICE OR FUSE_BUF_SPLICE_NONBLOCK) (ss_mo x) of
        None \<Rightarrow> (- 1, x, raise_fault OutOfBounds w)
      | Some (r, _, buf, mo) \<Rightarrow>
          (let res = sint (of_int r :: u32); x = x\<lparr>ss_mo := mo\<rparr>
           in if res < 0 then
                (if res = - EAGAIN \<or> res = - EINVAL then
                   (let x = (if res = - EAGAIN then x\<lparr>ss_broken := True\<rparr> else x);
                        x = fuse_ll_pipe_free os llp (x\<lparr>ss_pipe := None\<rparr>)
                    in splice_fallback os tmp memalign ch unique error iov buf len req x w)
                 else (- res, fuse_ll_clear_pipe os x, w))
              else if res \<noteq> 0 \<and> nat res < unat len then
                splice_short os tmp memalign llp ch unique error iov buf len (nat res) flags req x w
              else splice_out os llp ch unique error iov (nat res) flags x w))"

text \<open>From the pipe's size on.\<close>

definition splice_through :: "'s pipe_os \<Rightarrow> nat \<Rightarrow> nat option \<Rightarrow> fuse_ll_pipe \<Rightarrow> addr option \<Rightarrow> u64 \<Rightarrow> int \<Rightarrow> byte list list \<Rightarrow>
    nat fuse_bufvec \<Rightarrow> u64 \<Rightarrow> u32 \<Rightarrow> fuse_req option \<Rightarrow> 's splice_st \<Rightarrow> 'u fuse_world \<Rightarrow> int \<times> 's splice_st \<times> 'u fuse_world" where
  "splice_through os tmp memalign llp ch unique error iov buf len flags req x w =
     (let headerlen = 16 + iov_length iov;
          out_len = of_nat headerlen + ucast len :: u32;
          pipesize = pagesize * (of_nat (length iov + 1) + bv_count buf + 1) + ucast out_len;
          (fits, x) = pipe_fits os llp pipesize x;
          hdr = enc_fuse_out_header out_len (of_int error) unique
      in if \<not> fits then splice_fallback os tmp memalign ch unique error iov buf len req x w
         else
           (case os_vmsplice os (lp_wr llp) (hdr # iov) SPLICE_F_NONBLOCK (ss_os x) of
              (Inl err, s) \<Rightarrow> splice_fallback os tmp memalign ch unique error iov buf len req (with_os s x) w
            | (Inr n, s) \<Rightarrow>
                (let x = with_os s x
                 in if n \<noteq> headerlen then (- EIO, fuse_ll_clear_pipe os x, w)
                    else splice_data os tmp memalign llp ch unique error iov buf len flags req x w)))"

definition fuse_send_data_iov_splice :: "'s pipe_os \<Rightarrow> nat \<Rightarrow> nat option \<Rightarrow> addr option \<Rightarrow> u64 \<Rightarrow> int \<Rightarrow> byte list list \<Rightarrow>
    nat fuse_bufvec \<Rightarrow> u32 \<Rightarrow> fuse_req option \<Rightarrow> 's splice_st \<Rightarrow> 'u fuse_world \<Rightarrow> int \<times> 's splice_st \<times> 'u fuse_world" where
  "fuse_send_data_iov_splice os tmp memalign ch unique error iov buf flags req x w =
     (let len = fuse_buf_size buf;
          fallback = splice_fallback os tmp memalign ch unique error iov buf len req
      in if ss_broken x \<or> has_bits flags FUSE_BUF_NO_SPLICE \<or> total_buf_size buf < 2 * pagesize \<or>
            proto_minor (conn w) < 14 \<or> want_ext (conn w) AND FUSE_CAP_SPLICE_WRITE = 0
         then fallback x w
         else
           (case fuse_ll_get_pipe os x w of
              (None, x, w) \<Rightarrow> fallback x w
            | (Some llp, x, w) \<Rightarrow> splice_through os tmp memalign llp ch unique error iov buf len flags req x w))"

section \<open>Pipes\<close>

text \<open>What the code relies on: a pipe, named by its two ends, is a queue of bytes. A write takes a part of the data, and not none of it;
  a read takes bytes from the front; \<^verbatim>\<open>splice\<close> hands bytes from the front to the device, of the pages of the process as they are now. Calls that
  fail leave the pipe as it is, and so do calls on other descriptors.\<close>

definition errno_ok :: "int \<Rightarrow> bool" where
  "errno_ok e \<longleftrightarrow> 0 < e \<and> e < 4096"

definition now_in_pipe :: "byte list list \<Rightarrow> byte list \<Rightarrow> byte list" where
  "now_in_pipe pages c = concat pages @ drop (length (concat pages)) c"

locale pipes =
  fixes os :: "'s pipe_os" and cont :: "'s \<Rightarrow> int \<times> int \<Rightarrow> byte list option"
  assumes pipe_new: "os_pipe os s = (Inr p, s') \<Longrightarrow> cont s' = (cont s)(p \<mapsto> [])"
    and pipe2_new: "os_pipe2 os = Some pipe2 \<Longrightarrow> pipe2 s = (Inr p, s') \<Longrightarrow> cont s' = (cont s)(p \<mapsto> [])"
    and fcntl_keeps: "cont (snd (os_fcntl os fd cmd s)) = cont s"
    and open_keeps: "cont (snd (os_open os path s)) = cont s"
    and open_other: "os_open os path s = (Inr fd, s') \<Longrightarrow> cont s p \<noteq> None \<Longrightarrow> fd \<noteq> fst p \<and> fd \<noteq> snd p"
    and close_other: "fd \<noteq> fst p \<Longrightarrow> fd \<noteq> snd p \<Longrightarrow> cont (os_close os fd s) p = cont s p"
    and read_other: "fd \<noteq> fst p \<Longrightarrow> cont (snd (os_read (po_fd os) fd n pos s)) p = cont s p"
    and vmsplice_fails: "os_vmsplice os fd bss fl s = (Inl e, s') \<Longrightarrow> cont s' = cont s"
    and vmsplices: "os_vmsplice os (snd p) bss fl s = (Inr n, s') \<Longrightarrow> cont s p = Some c \<Longrightarrow>
      n \<le> length (concat bss) \<and> cont s' p = Some (c @ take n (concat bss))"
    and write_fails: "os_write (po_fd os) fd d pos s = (Inl e, s') \<Longrightarrow> errno_ok e \<and> cont s' = cont s"
    and writes: "os_write (po_fd os) (snd p) d None s = (Inr n, s') \<Longrightarrow> cont s p = Some c \<Longrightarrow>
      n \<le> length d \<and> (d \<noteq> [] \<longrightarrow> 0 < n) \<and> cont s' p = Some (c @ take n d)"
    and reads: "os_read (po_fd os) (fst p) n None s = (Inr d, s') \<Longrightarrow> cont s p = Some c \<Longrightarrow>
      length d \<le> n \<and> d = take (length d) c \<and> cont s' p = Some (drop (length d) c)"
    and splice_fails: "os_splice_dev os fd pages n fl s = (Inl e, s') \<Longrightarrow> errno_ok e"
    and splices: "os_splice_dev os (fst p) pages n fl s = (Inr bs, s') \<Longrightarrow> cont s p = Some c \<Longrightarrow>
      length bs \<le> n \<and> bs = take (length bs) (now_in_pipe pages c) \<and> cont s' p = Some (drop (length bs) c)"

text \<open>Calls that do all their work: no memory is missing, writes to the device succeed, a full pipe is the only reason for a write to fail, and
  the other calls on a pipe take all that they are given or asked for.\<close>

definition pipes_work :: "'s pipe_os \<Rightarrow> ('s \<Rightarrow> int \<times> int \<Rightarrow> byte list option) \<Rightarrow> bool" where
  "pipes_work os cont \<longleftrightarrow>
     (\<forall>fd d pos s e s'. os_write (po_fd os) fd d pos s = (Inl e, s') \<longrightarrow> e = EAGAIN) \<and>
     (\<forall>fd bss fl s n s'. os_vmsplice os fd bss fl s = (Inr n, s') \<longrightarrow> n = length (concat bss)) \<and>
     (\<forall>p c n s. cont s p = Some c \<longrightarrow> n \<le> length c \<longrightarrow>
        (\<exists>d s'. os_read (po_fd os) (fst p) n None s = (Inr d, s') \<and> length d = n)) \<and>
     (\<forall>p c pages n fl s. cont s p = Some c \<longrightarrow> n \<le> length c \<longrightarrow>
        (\<exists>bs s'. os_splice_dev os (fst p) pages n fl s = (Inr bs, s') \<and> length bs = n))"

definition all_work :: "'s pipe_os \<Rightarrow> ('s \<Rightarrow> int \<times> int \<Rightarrow> byte list option) \<Rightarrow> nat option \<Rightarrow> 'u fuse_world \<Rightarrow> bool" where
  "all_work os cont memalign w \<longleftrightarrow> pipes_work os cont \<and> memalign \<noteq> None \<and> (\<forall>n. malloc_ok (plat w) n) \<and> (\<forall>n. writev_errno (plat w) n = None)"

lemma pipes_workD:
  assumes "pipes_work os cont"
  shows "os_write (po_fd os) fd d pos s = (Inl e, s') \<Longrightarrow> e = EAGAIN"
    and "os_vmsplice os fd bss fl s = (Inr n, s') \<Longrightarrow> n = length (concat bss)"
    and "cont s p = Some c \<Longrightarrow> n \<le> length c \<Longrightarrow> \<exists>d s'. os_read (po_fd os) (fst p) n None s = (Inr d, s') \<and> length d = n"
    and "cont s p = Some c \<Longrightarrow> n \<le> length c \<Longrightarrow> \<exists>bs s'. os_splice_dev os (fst p) pages n fl s = (Inr bs, s') \<and> length bs = n"
proof -
  note w = assms [unfolded pipes_work_def, THEN conjunct1] assms [unfolded pipes_work_def, THEN conjunct2]
  show "os_write (po_fd os) fd d pos s = (Inl e, s') \<Longrightarrow> e = EAGAIN" using w(1) by metis
  show "os_vmsplice os fd bss fl s = (Inr n, s') \<Longrightarrow> n = length (concat bss)" using w(2) [THEN conjunct1] by metis
  show "cont s p = Some c \<Longrightarrow> n \<le> length c \<Longrightarrow> \<exists>d s'. os_read (po_fd os) (fst p) n None s = (Inr d, s') \<and> length d = n"
    using w(2) [THEN conjunct2, THEN conjunct1] by metis
  show "cont s p = Some c \<Longrightarrow> n \<le> length c \<Longrightarrow> \<exists>bs s'. os_splice_dev os (fst p) pages n fl s = (Inr bs, s') \<and> length bs = n"
    using w(2) [THEN conjunct2, THEN conjunct2] by metis
qed

text \<open>The vector behind the last buffer.\<close>

lemma advance_end:
  assumes "mem_vec bv" and "fuse_bufvec_advance bv len = Some (False, bv')" and "unat (bv_idx bv) < length (bv_buf bv)"
  shows "vec_addrs bv' = []"
proof -
  have "bv_idx bv' = bv_count bv" "bv_buf bv' = bv_buf bv"
    using assms(2,3) mem_vec_current [OF assms(1)] by (auto simp: fuse_bufvec_advance_def Let_def split: if_splits)
  then show ?thesis using assms(1) by (simp add: vec_addrs_def mem_vec_def)
qed

definition pipe_vec :: "int \<Rightarrow> u64 \<Rightarrow> u64 \<Rightarrow> nat fuse_bufvec" where
  "pipe_vec fd len off = (bufvec_of (pipe_buf fd len))\<lparr>bv_off := off\<rparr>"

lemma pipe_vec_simps:
  "fuse_bufvec_current (pipe_vec fd len off) = Some (Some (pipe_buf fd len))"
  "unat off + unat n \<le> unat len \<Longrightarrow> fuse_bufvec_advance (pipe_vec fd len off) n =
     Some (unat off + unat n < unat len, if unat off + unat n < unat len then pipe_vec fd len (off + n) else (pipe_vec fd len (off + n))\<lparr>bv_idx := 1\<rparr>)"
proof -
  show cur: "fuse_bufvec_current (pipe_vec fd len off) = Some (Some (pipe_buf fd len))" for off
    by (simp add: pipe_vec_def bufvec_of_def fuse_bufvec_current_def)
  assume le: "unat off + unat n \<le> unat len"
  have "unat len < 2 ^ 64" by (rule order_less_le_trans [OF unsigned_less]) simp
  then have u: "unat (off + n) = unat off + unat n" using le by (simp add: unat_word_ariths take_bit_nat_eq_self)
  then have "off + n \<le> len" "off + n = len \<longleftrightarrow> \<not> unat off + unat n < unat len"
    using le by (auto simp: word_le_nat_alt intro: unsigned_word_eqI)
  then show "fuse_bufvec_advance (pipe_vec fd len off) n =
     Some (unat off + unat n < unat len, if unat off + unat n < unat len then pipe_vec fd len (off + n) else (pipe_vec fd len (off + n))\<lparr>bv_idx := 1\<rparr>)"
    using cur [of off] by (auto simp: fuse_bufvec_advance_def Let_def pipe_vec_def bufvec_of_def pipe_buf_def)
qed

text \<open>Between two replies the pipe of the thread is empty.\<close>

definition pipe_idle :: "('s \<Rightarrow> int \<times> int \<Rightarrow> byte list option) \<Rightarrow> 's splice_st \<Rightarrow> bool" where
  "pipe_idle cont x \<longleftrightarrow> (\<forall>llp. ss_pipe x = Some llp \<longrightarrow> cont (ss_os x) (lp_rd llp, lp_wr llp) = Some [])"

text \<open>A message with its header, where it goes, and what the result of sending means: 0 if all of it has arrived, otherwise a part at most.\<close>

definition msg_of :: "u64 \<Rightarrow> int \<Rightarrow> byte list list \<Rightarrow> byte list \<Rightarrow> byte list" where
  "msg_of unique error iov d = enc_fuse_out_header (of_nat (16 + iov_length iov + length d)) (of_int error) unique @ concat iov @ d"

definition dev_of :: "addr option \<Rightarrow> 'u fuse_world \<Rightarrow> dev_fd" where
  "dev_of ch w = (case ch of Some c \<Rightarrow> ChFd c | None \<Rightarrow> SeFd (se_fd (se w)))"

definition delivered :: "addr option \<Rightarrow> byte list \<Rightarrow> 'u fuse_world \<Rightarrow> int \<Rightarrow> 'u fuse_world \<Rightarrow> bool" where
  "delivered ch msg w res w' \<longleftrightarrow> fault w' = fault w \<and>
     (if res = 0 then dev_out w' = dev_out w @ [(dev_of ch w, msg)]
      else dev_out w' = dev_out w \<or> (\<exists>k < length msg. dev_out w' = dev_out w @ [(dev_of ch w, take k msg)]))"

text \<open>A channel that exists, and a request that is not one of io-uring.\<close>

definition can_send :: "addr option \<Rightarrow> fuse_req option \<Rightarrow> 'u fuse_world \<Rightarrow> bool" where
  "can_send ch req w \<longleftrightarrow> (\<forall>c. ch = Some c \<longrightarrow> ukfs w c \<noteq> None) \<and> (\<forall>r. req = Some r \<longrightarrow> \<not> rq_is_uring r) \<and>
     (\<forall>n e. writev_errno (plat w) n = Some e \<longrightarrow> 0 < e)"

lemma can_send_nmalloc [simp]: "can_send ch req (w\<lparr>nmalloc := n\<rparr>) = can_send ch req w"
  by (simp add: can_send_def)

lemma delivered_nmalloc [simp]: "delivered ch msg (w\<lparr>nmalloc := n\<rparr>) res w' = delivered ch msg w res w'"
  by (cases ch) (simp_all add: delivered_def dev_of_def)

lemma delivered_error: "res \<noteq> 0 \<Longrightarrow> delivered ch msg w res w" "res \<noteq> 0 \<Longrightarrow> delivered ch msg w res (w\<lparr>nmalloc := n\<rparr>)"
  by (simp_all add: delivered_def)

lemma send_msg_delivered:
  assumes "can_send ch req w"
  shows "delivered ch (msg_of unique error iov d) w (fst (fuse_send_msg ch unique error (iov @ [d]) req w)) (snd (fuse_send_msg ch unique error (iov @ [d]) req w))"
proof -
  have "\<not> (case req of None \<Rightarrow> False | Some r \<Rightarrow> rq_is_uring r)" using assms by (cases req) (simp_all add: can_send_def)
  moreover have "iov_length (iov @ [d]) = iov_length iov + length d" by (simp add: iov_length_def)
  ultimately show ?thesis using assms
    by (auto simp: fuse_send_msg_def fuse_write_msg_dev_def Let_def delivered_def dev_of_def msg_of_def can_send_def add.assoc
      split: option.splits)
qed

lemma send_msg_works: "can_send ch req w \<Longrightarrow> \<forall>n. writev_errno (plat w) n = None \<Longrightarrow> fst (fuse_send_msg ch unique error iov req w) = 0"
  by (cases req; cases ch) (auto simp: fuse_send_msg_def fuse_write_msg_dev_def Let_def can_send_def)

lemma length_concat_iov [simp]: "length (concat iov) = iov_length iov"
  by (simp add: iov_length_def length_concat)

lemma length_out_header [simp]: "length (enc_fuse_out_header len e u) = 16"
  by (simp add: enc_fuse_out_header_def)

lemma total_buf_size_empty:
  assumes "mem_vec bv" and "vec_addrs bv = []"
  shows "total_buf_size bv = 0"
proof (cases "unat (bv_idx bv) < length (bv_buf bv)")
  case True
  let ?b = "bv_buf bv ! unat (bv_idx bv)" let ?bs = "drop (Suc (unat (bv_idx bv))) (bv_buf bv)"
  note ad = vec_addrs_current [OF assms(1) True]
  have t: "take (unat (bv_count bv)) (bv_buf bv) = bv_buf bv" using assms(1) by (simp add: mem_vec_def)
  have "fb_size b = 0" if "b \<in> set ?bs" for b using ad(1) assms(2) that by (auto simp: buf_addrs_def unat_eq_zero)
  then have z: "sum_list (map fb_size ?bs) = 0" by (simp add: sum_list_0 cong: map_cong)
  have "unat (bv_off bv) = unat (fb_size ?b)" using ad(1,2) assms(2) by auto
  then have "bv_off bv = fb_size ?b" by (simp add: word_unat_eq_iff)
  then show ?thesis using z by (simp add: total_buf_size_def t True Cons_nth_drop_Suc [OF True, symmetric])
qed (use assms in \<open>simp add: total_buf_size_def mem_vec_def\<close>)

lemma with_os_simps [simp]:
  "ss_os (with_os s x) = s" "ss_pipe (with_os s x) = ss_pipe x" "mo_mem (ss_mo (with_os s x)) = mo_mem (ss_mo x)" "ss_broken (with_os s x) = ss_broken x"
  by (simp_all add: with_os_def)

lemma clear_pipe_idle [simp]: "pipe_idle cont (fuse_ll_clear_pipe os x)"
  by (cases "ss_pipe x") (simp_all add: pipe_idle_def fuse_ll_clear_pipe_def fuse_ll_pipe_free_def)

lemma st_in_front:
  assumes "\<forall>a \<in> {p..<p + length d1}. m a \<noteq> None"
  obtains m' where "st m p d1 = Some m'" "\<And>d2. ld m (p + length d1) (length d2) = Some d2 \<Longrightarrow> ld m' p (length d1 + length d2) = Some (d1 @ d2)"
proof -
  let ?m = "\<lambda>a. if p \<le> a \<and> a < p + length d1 then Some (d1 ! (a - p)) else m a"
  have "st m p d1 = Some ?m" using assms by (simp add: st_def list_all_iff)
  moreover have "ld ?m p (length d1 + length d2) = Some (d1 @ d2)" if "ld m (p + length d1) (length d2) = Some d2" for d2
  proof -
    have l: "\<forall>a \<in> {p + length d1..<p + length d1 + length d2}. m a \<noteq> None"
      "map (\<lambda>a. the (m a)) [p + length d1..<p + length d1 + length d2] = d2"
      using that by (auto simp: ld_def list_all_iff split: if_splits)
    have "map (\<lambda>a. the (?m a)) [p..<p + length d1] = d1" by (rule nth_equalityI) simp_all
    moreover have "map (\<lambda>a. the (?m a)) [p + length d1..<p + length d1 + length d2] = d2" by (subst l(2) [symmetric]) (rule map_cong, simp_all)
    moreover have "[p..<p + (length d1 + length d2)] = [p..<p + length d1] @ [p + length d1..<p + length d1 + length d2]"
      using upt_add_eq_append [of p "p + length d1" "length d2"] by (simp add: add.assoc)
    ultimately have "map (\<lambda>a. the (?m a)) [p..<p + (length d1 + length d2)] = d1 @ d2" by (simp only: map_append)
    moreover have "\<forall>a \<in> {p..<p + (length d1 + length d2)}. ?m a \<noteq> None" using l(1) by (auto simp: not_less)
    ultimately show ?thesis using ld_mapped [of p "length d1 + length d2" ?m] by simp
  qed
  ultimately show thesis using that by blast
qed

context pipes
begin

definition write_err :: "int \<Rightarrow> bool" where
  "write_err e \<longleftrightarrow> (\<exists>fd d pos s s'. os_write (po_fd os) fd d pos s = (Inl e, s'))"

lemma write_err: "write_err e \<Longrightarrow> errno_ok e" "write_err e \<Longrightarrow> pipes_work os cont \<Longrightarrow> e = EAGAIN"
  unfolding write_err_def using write_fails pipes_workD(1) by metis+

lemma write_once:
  assumes c: "cont (mo_os s) p = Some c" and d: "ld (mo_mem s) (fb_mem src + unat soff) (unat l) = Some d" and l: "unat l < 2 ^ 63"
  obtains r s' n where "fuse_buf_write (po_fd os) (pipe_buf (snd p) len) doff src soff l s = Some (r, s')" "mo_mem s' = mo_mem s"
    "n \<le> unat l" "cont (mo_os s') p = Some (c @ take n d)" "r = int n \<and> (l \<noteq> 0 \<longrightarrow> 0 < n) \<or> n = 0 \<and> write_err (- r)"
proof (cases "l = 0")
  case True
  then show thesis
    using that [of 0 s 0] c by (simp add: fuse_buf_write_def buf_write_loop.simps [of _ _ _ _ _ 0])
next
  case False
  obtain res t where w: "os_write (po_fd os) (snd p) d None (mo_os s) = (res, t)" by fastforce
  have ld: "length d = unat l" by (rule ld_length [OF d])
  have f: "fb_fd (pipe_buf (snd p) len) = snd p" "\<not> has_bits (fb_flags (pipe_buf (snd p) len)) FUSE_BUF_FD_SEEK"
    "\<not> has_bits (fb_flags (pipe_buf (snd p) len)) FUSE_BUF_FD_RETRY" by (simp_all add: pipe_buf_def has_bits_def)
  show thesis
  proof (cases res)
    case (Inl e)
    then have "fuse_buf_write (po_fd os) (pipe_buf (snd p) len) doff src soff l s = Some (- e, s\<lparr>mo_os := t\<rparr>)"
      using False d w f by (simp add: fuse_buf_write_def buf_write_loop.simps [of _ _ _ _ _ l])
    then show thesis using that [of "- e" "s\<lparr>mo_os := t\<rparr>" 0] write_fails [OF w [unfolded Inl]] w Inl c by (simp add: write_err_def) blast
  next
    case (Inr n)
    have "d \<noteq> []" using False ld by (metis length_0_conv unat_eq_zero)
    then have n: "n \<le> unat l" "0 < n" "cont t p = Some (c @ take n d)" using writes [OF w [unfolded Inr] c] ld by simp_all
    then have "unat (of_nat n :: u64) = n" using l by (simp add: unat_of_nat take_bit_nat_eq_self)
    moreover from this have "unat (of_nat n :: u64) < 2 ^ 63" using n l by simp
    ultimately have "sint (of_nat n :: u64) = int n" by (simp only: sint_small uint_nat)
    then have "fuse_buf_write (po_fd os) (pipe_buf (snd p) len) doff src soff l s = Some (int n, s\<lparr>mo_os := t\<rparr>)"
      using False d w f n Inr by (simp add: fuse_buf_write_def buf_write_loop.simps [of _ _ _ _ _ l] Let_def)
    then show thesis using that [of "int n" "s\<lparr>mo_os := t\<rparr>" n] n by simp
  qed
qed

text \<open>Copying a vector of memory buffers into the pipe, one buffer at a time: the write fails, it is the last one or a short one, or
  the loop goes on behind the buffer.\<close>

lemma copy_to_pipe_step:
  fixes tmp :: nat
  assumes sv: "mem_vec srcv" and mp: "\<forall>a \<in> set (vec_addrs srcv). mo_mem s a \<noteq> None" and c: "cont (mo_os s) p = Some c"
    and sz: "unat copied + length (vec_addrs srcv) = unat len" and l63: "unat len < 2 ^ 63" and i: "unat (bv_idx srcv) < length (bv_buf srcv)"
  defines "copy \<equiv> \<lambda>copied. buf_copy_loop (po_fd os) tmp (pipe_vec (snd p) len copied)"
  obtains (fails) e s' where "copy copied srcv flags copied s = Some (if copied = 0 then - e else int (unat copied), pipe_vec (snd p) len copied, srcv, s')"
      "write_err e" "mo_mem s' = mo_mem s" "cont (mo_os s') p = Some c"
  | (stops) n dv sv s' where "copy copied srcv flags copied s = Some (int (unat copied + n), dv, sv, s')" "mo_mem s' = mo_mem s"
      "n \<le> length (vec_addrs srcv)" "cont (mo_os s') p = Some (c @ take n (map (\<lambda>a. the (mo_mem s a)) (vec_addrs srcv)))"
      "mem_vec sv" "vec_addrs sv = drop n (vec_addrs srcv)" "copied = 0 \<longrightarrow> 0 < n \<or> vec_addrs srcv = []"
  | (goes_on) n sv s' where "copy copied srcv flags copied s = copy (copied + of_nat n) sv flags (copied + of_nat n) s'" "mo_mem s' = mo_mem s"
      "n \<le> length (vec_addrs srcv)" "cont (mo_os s') p = Some (c @ take n (map (\<lambda>a. the (mo_mem s a)) (vec_addrs srcv)))"
      "mem_vec sv" "vec_addrs sv = drop n (vec_addrs srcv)" "unat (copied + of_nat n) = unat copied + n" "unat copied + n < unat len"
      "length (bv_buf sv) - unat (bv_idx sv) < length (bv_buf srcv) - unat (bv_idx srcv)"
proof -
  let ?S = "vec_addrs srcv" let ?P = "pipe_vec (snd p) len copied" let ?b = "bv_buf srcv ! unat (bv_idx srcv)" let ?off = "bv_off srcv"
  have "unat copied < 2 ^ 63" using sz l63 by simp
  then have sc: "sint copied = int (unat copied)" by (simp only: sint_small uint_nat)
  note ad = vec_addrs_current [OF sv i]
  define l where "l = fb_size ?b - ?off"
  have ul: "unat l = unat (fb_size ?b) - unat ?off" using ad(2) by (simp add: l_def unat_sub word_le_nat_alt)
  have lS: "unat l \<le> length ?S" "take (unat l) ?S = [fb_mem ?b + unat ?off..<fb_mem ?b + unat ?off + unat l]"
    using ul ad(1,2) by simp_all
  have "unat (len - copied) = length ?S" using sz by (simp add: unat_sub word_le_nat_alt)
  then have mn: "min_size (fb_size ?b - ?off) (fb_size (pipe_buf (snd p) len) - bv_off ?P) = l"
    using lS(1) by (auto simp: min_size_def l_def pipe_buf_def pipe_vec_def word_less_nat_alt intro!: iffD2 [OF word_unat_eq_iff])
  let ?d = "map (\<lambda>a. the (mo_mem s a)) (take (unat l) ?S)"
  have "\<forall>a \<in> {fb_mem ?b + unat ?off..<fb_mem ?b + unat ?off + unat l}. mo_mem s a \<noteq> None"
    using mp lS(2) by (metis atLeastLessThan_upt in_set_takeD)
  then have ld: "ld (mo_mem s) (fb_mem ?b + unat ?off) (unat l) = Some ?d" unfolding lS(2) by (rule ld_mapped)
  have l': "unat l < 2 ^ 63" using lS(1) sz l63 by simp
  obtain r s1 n where w: "fuse_buf_write (po_fd os) (pipe_buf (snd p) len) copied ?b ?off l s = Some (r, s1)" "mo_mem s1 = mo_mem s"
    "n \<le> unat l" "cont (mo_os s1) p = Some (c @ take n ?d)" "r = int n \<and> (l \<noteq> 0 \<longrightarrow> 0 < n) \<or> n = 0 \<and> write_err (- r)"
    by (rule write_once [OF c ld l'])
  have tn: "take n ?d = take n (map (\<lambda>a. the (mo_mem s a)) ?S)" using w(3) by (simp add: take_map min_def)
  have one: "fuse_buf_copy_one (po_fd os) tmp (pipe_buf (snd p) len) copied ?b ?off l flags s = Some (r, s1)"
    using w(1) ad(3) by (simp add: fuse_buf_copy_one_def Let_def) (simp add: pipe_buf_def has_bits_def)
  have cur: "fuse_bufvec_current srcv = Some (Some ?b)" "bv_off ?P = copied"
    using mem_vec_current [OF sv] i by (simp_all add: pipe_vec_def)
  show thesis
  proof (cases "r < 0")
    case True
    then have e: "n = 0" "write_err (- r)" using w(5) by auto
    have "copy copied srcv flags copied s = Some (if copied = 0 then - (- r) else int (unat copied), ?P, srcv, s1)"
      unfolding copy_def using True one mn cur sc pipe_vec_simps(1) by (subst buf_copy_loop.simps) (simp add: Let_def)
    then show thesis using fails [OF _ e(2) w(2)] e(1) w(4) by simp
  next
    case False
    then have r: "r = int n" and pos: "l \<noteq> 0 \<longrightarrow> 0 < n" using w(5) write_err(1) [of "- r"] by (auto simp: errno_ok_def)
    let ?n = "of_nat n :: u64"
    have un: "unat ?n = n" using w(3) l' by (simp add: unat_of_nat take_bit_nat_eq_self)
    have b1: "unat ?off + unat ?n \<le> unat (fb_size ?b)" using w(3) ul ad(2) un by simp
    have b2: "unat copied + unat ?n \<le> unat len" using w(3) lS(1) sz un by simp
    have uc: "unat (copied + ?n) = unat copied + n" using b2 un l63 by (simp add: unat_word_ariths take_bit_nat_eq_self)
    obtain ms sv1 where as: "fuse_bufvec_advance srcv ?n = Some (ms, sv1)" "mem_vec sv1"
      "ms \<longrightarrow> vec_addrs sv1 = drop (unat ?n) ?S \<and> bv_buf sv1 = bv_buf srcv \<and>
        (if unat ?off + unat ?n = unat (fb_size ?b) then unat (bv_idx sv1) = Suc (unat (bv_idx srcv)) else bv_idx sv1 = bv_idx srcv)"
      "\<not> ms \<longrightarrow> length ?S = unat ?n"
      by (rule advance_addrs [OF sv i b1])
    have dr: "vec_addrs sv1 = drop n ?S" using as un advance_end [OF sv, of ?n sv1] i by (cases ms) simp_all
    have nS: "n \<le> length ?S" using w(3) lS(1) by simp
    define go where "go \<longleftrightarrow> ms \<and> unat copied + n < unat len \<and> \<not> ?n < l"
    have "unat (copied + ?n) < 2 ^ 63" using uc b2 un l63 by simp
    then have sn: "sint (copied + ?n) = int (unat copied + n)" by (simp only: sint_small uint_nat uc)
    have step: "\<exists>dv. copy copied srcv flags copied s =
        (if go then copy (copied + ?n) sv1 flags (copied + ?n) s1 else Some (int (unat copied + n), dv, sv1, s1))"
      unfolding copy_def using False one mn cur sn as(1) pipe_vec_simps(1) pipe_vec_simps(2) [OF b2, of "snd p"]
      by (subst buf_copy_loop.simps) (simp add: Let_def r un go_def)
    show thesis
    proof (cases go)
      case True
      then have g: "ms" "unat copied + n < unat len" "n = unat l" using w(3) un by (auto simp: go_def word_less_nat_alt)
      then have "unat (bv_idx sv1) = Suc (unat (bv_idx srcv))" "bv_buf sv1 = bv_buf srcv" using as(3) un ul ad(2) by auto
      then have "length (bv_buf sv1) - unat (bv_idx sv1) < length (bv_buf srcv) - unat (bv_idx srcv)" using i by simp
      then show thesis using goes_on [OF _ w(2) nS w(4) [unfolded tn] as(2) dr uc g(2)] step True by auto
    next
      case False
      have "0 < n \<or> ?S = []" if "copied = 0"
      proof (rule ccontr)
        assume "\<not> (0 < n \<or> ?S = [])"
        then have z: "n = 0" "l = 0" "?S \<noteq> []" using pos by auto
        then have "ms" using as(4) un by auto
        then show False using False z sz that by (simp add: go_def)
      qed
      then show thesis using stops [OF _ w(2) nS w(4) [unfolded tn] as(2) dr] step False by auto
    qed
  qed
qed

text \<open>A prefix of the vector's bytes goes in, and the vector stands behind it. The copy has failed only if nothing went in.\<close>

lemma copy_to_pipe:
  assumes "mem_vec srcv" and "\<forall>a \<in> set (vec_addrs srcv). mo_mem s a \<noteq> None" and "cont (mo_os s) p = Some c"
    and "unat copied + length (vec_addrs srcv) = unat len" and "unat len < 2 ^ 63"
  shows "\<exists>r dv sv s' k. buf_copy_loop (po_fd os) tmp (pipe_vec (snd p) len copied) srcv flags copied s = Some (r, dv, sv, s') \<and>
    mo_mem s' = mo_mem s \<and> k \<le> length (vec_addrs srcv) \<and>
    cont (mo_os s') p = Some (c @ take k (map (\<lambda>a. the (mo_mem s a)) (vec_addrs srcv))) \<and>
    mem_vec sv \<and> vec_addrs sv = drop k (vec_addrs srcv) \<and>
    (r = int (unat copied + k) \<and> (vec_addrs srcv \<noteq> [] \<longrightarrow> 0 < r) \<or> copied = 0 \<and> k = 0 \<and> write_err (- r))"
  using assms
proof (induction "length (bv_buf srcv) - unat (bv_idx srcv)" arbitrary: srcv copied s c rule: less_induct)
  case less
  note sv = less.prems(1) and mp = less.prems(2) and c = less.prems(3) and sz = less.prems(4) and l63 = less.prems(5)
  let ?S = "vec_addrs srcv" let ?P = "pipe_vec (snd p) len copied" let ?d = "map (\<lambda>a. the (mo_mem s a)) ?S"
  have cp: "copied \<noteq> 0 \<longrightarrow> 0 < int (unat copied)" by (simp only: of_nat_0_less_iff unat_gt_0) simp
  show ?case
  proof (cases "unat (bv_idx srcv) < length (bv_buf srcv)")
    case False
    then have "?S = []" by (rule vec_addrs_end [OF sv])
    moreover have "unat copied < 2 ^ 63" using sz l63 by simp
    then have "buf_copy_loop (po_fd os) tmp ?P srcv flags copied s = Some (int (unat copied), ?P, srcv, s)"
      using False mem_vec_current [OF sv] by (subst buf_copy_loop.simps) (simp add: pipe_vec_simps(1) sint_small)
    ultimately show ?thesis using sv c by auto
  next
    case True
    from sv mp c sz l63 True show ?thesis
    proof (cases rule: copy_to_pipe_step [where tmp = tmp and flags = flags])
      case (fails e s')
      show ?thesis
        by (rule exI [of _ "if copied = 0 then - e else int (unat copied)"], rule exI [of _ ?P], rule exI [of _ srcv], rule exI [of _ s'], rule exI [of _ 0])
          (use fails sv cp in auto)
    next
      case (stops n dv sv' s')
      show ?thesis
        by (rule exI [of _ "int (unat copied + n)"], rule exI [of _ dv], rule exI [of _ sv'], rule exI [of _ s'], rule exI [of _ n])
          (use stops cp in auto)
    next
      case (goes_on n sv1 s1)
      let ?n = "of_nat n :: u64"
      have mp1: "\<forall>a \<in> set (vec_addrs sv1). mo_mem s1 a \<noteq> None" using mp goes_on(2,6) by (metis in_set_dropD)
      have sz1: "unat (copied + ?n) + length (vec_addrs sv1) = unat len" using goes_on(3,6,7) sz by simp
      obtain r dv sv' s' k where ih: "buf_copy_loop (po_fd os) tmp (pipe_vec (snd p) len (copied + ?n)) sv1 flags (copied + ?n) s1 = Some (r, dv, sv', s')"
        "mo_mem s' = mo_mem s1" "k \<le> length (vec_addrs sv1)"
        "cont (mo_os s') p = Some ((c @ take n ?d) @ take k (map (\<lambda>a. the (mo_mem s1 a)) (vec_addrs sv1)))"
        "mem_vec sv'" "vec_addrs sv' = drop k (vec_addrs sv1)"
        "r = int (unat (copied + ?n) + k) \<and> (vec_addrs sv1 \<noteq> [] \<longrightarrow> 0 < r) \<or> copied + ?n = 0 \<and> k = 0 \<and> write_err (- r)"
        using less.hyps [OF goes_on(9,5) mp1 goes_on(4) sz1 l63] by blast
      have "vec_addrs sv1 \<noteq> []" using sz1 goes_on(7,8) by auto
      moreover have "take (n + k) ?d = take n ?d @ take k (map (\<lambda>a. the (mo_mem s1 a)) (vec_addrs sv1))"
        unfolding take_add by (simp add: goes_on(2,6) drop_map)
      moreover have "copied = 0 \<and> n = 0" if "copied + ?n = 0" using goes_on(7) unfolding that by (simp add: unat_eq_zero)
      ultimately show ?thesis
        using goes_on(1,2,3,6,7) ih
        by - (rule exI [of _ r], rule exI [of _ dv], rule exI [of _ sv'], rule exI [of _ s'], rule exI [of _ "n + k"], auto simp: add.commute)
    qed
  qed
qed

lemma fcntls_keep: "cont (snd (fcntls os cs s)) = cont s"
proof (induction cs arbitrary: s)
  case (Cons c cs)
  obtain fd cmd where c: "c = (fd, cmd)" by fastforce
  obtain r t where f: "os_fcntl os fd cmd s = (r, t)" by fastforce
  then have "cont t = cont s" using fcntl_keeps [of fd cmd s] by simp
  then show ?case using Cons.IH [of t] f by (cases r) (simp_all add: c)
qed simp

lemma new_pipe_empty:
  assumes "fuse_pipe os s = (Inr p, s')"
  shows "cont s' p = Some []"
proof (cases "os_pipe2 os")
  case None
  obtain r wr t where p: "os_pipe os s = (Inr (r, wr), t)"
    using assms None by (cases "os_pipe os s"; cases "fst (os_pipe os s)") (auto simp: fuse_pipe_def)
  let ?cs = "[(r, F_SETFL_NONBLOCK), (wr, F_SETFL_NONBLOCK), (r, F_SETFD_CLOEXEC), (wr, F_SETFD_CLOEXEC)]"
  obtain e u where f: "fcntls os ?cs t = (e, u)" by fastforce
  have "p = (r, wr)" "s' = u" using assms None p f by (auto simp: fuse_pipe_def simp del: fcntls.simps split: option.splits)
  then show ?thesis using fcntls_keep [of ?cs t] pipe_new [OF p] f by simp
next
  case (Some pipe2)
  then show ?thesis using assms pipe2_new [OF Some, of s p s'] by (simp add: fuse_pipe_def)
qed

lemma get_pipe:
  assumes "pipe_idle cont x" and "fuse_ll_get_pipe os x w = (r, x', w')"
  shows "pipe_idle cont x'" and "r = Some llp \<Longrightarrow> ss_pipe x' = Some llp" and "mo_mem (ss_mo x') = mo_mem (ss_mo x)"
    and "w' = w \<or> w' = w\<lparr>nmalloc := nmalloc w + 1\<rparr>"
proof -
  have "pipe_idle cont x' \<and> (r = Some llp \<longrightarrow> ss_pipe x' = Some llp) \<and> mo_mem (ss_mo x') = mo_mem (ss_mo x) \<and>
      (w' = w \<or> w' = w\<lparr>nmalloc := nmalloc w + 1\<rparr>)"
  proof (cases "ss_pipe x")
    case None
    obtain f t where f: "fuse_pipe os (ss_os x) = (f, t)" by fastforce
    show ?thesis
      using None assms f new_pipe_empty [of "ss_os x" _ t]
      by (cases f) (auto simp: fuse_ll_get_pipe_def try_malloc_def pipe_idle_def Let_def split: if_splits)
  qed (use assms in \<open>auto simp: fuse_ll_get_pipe_def\<close>)
  then show "pipe_idle cont x'" "r = Some llp \<Longrightarrow> ss_pipe x' = Some llp" "mo_mem (ss_mo x') = mo_mem (ss_mo x)"
    "w' = w \<or> w' = w\<lparr>nmalloc := nmalloc w + 1\<rparr>" by blast+
qed

lemma grow_keeps:
  assumes "cont s p = Some c"
  shows "cont (snd (grow_pipe_to_max os fd s)) p = Some c"
proof -
  obtain r t where o: "os_open os ''/proc/sys/fs/pipe-max-size'' s = (r, t)" by fastforce
  have ct: "cont t p = Some c" using open_keeps [of "''/proc/sys/fs/pipe-max-size''" s] o assms by simp
  show ?thesis
  proof (cases r)
    case (Inr maxfd)
    have ne: "maxfd \<noteq> fst p" "maxfd \<noteq> snd p" using open_other [OF o [unfolded Inr], of p] assms by simp_all
    obtain q u where q: "os_read (po_fd os) maxfd 31 None t = (q, u)" by fastforce
    have "cont (os_close os maxfd u) p = Some c" using close_other [OF ne, of u] read_other [OF ne(1), of 31 None t] q ct by simp
    then show ?thesis using o q Inr fcntl_keeps
      by (auto simp: grow_pipe_to_max_def Let_def split: sum.splits prod.splits) (metis snd_conv)+
  qed (use o ct in \<open>simp add: grow_pipe_to_max_def\<close>)
qed

lemma pipe_fits_keeps:
  assumes "pipe_idle cont x" and "ss_pipe x = Some llp" and "pipe_fits os llp n x = (b, x')"
  shows "pipe_idle cont x'" and "\<exists>llp'. ss_pipe x' = Some llp' \<and> lp_rd llp' = lp_rd llp \<and> lp_wr llp' = lp_wr llp"
    and "mo_mem (ss_mo x') = mo_mem (ss_mo x)"
proof -
  let ?p = "(lp_rd llp, lp_wr llp)"
  obtain r t where f: "os_fcntl os (lp_rd llp) (F_SETPIPE_SZ (uint n)) (ss_os x) = (r, t)" by fastforce
  have c: "cont t ?p = Some []" using fcntl_keeps [of "lp_rd llp" "F_SETPIPE_SZ (uint n)" "ss_os x"] f assms(1,2) by (simp add: pipe_idle_def)
  obtain g u where g: "grow_pipe_to_max os (lp_rd llp) t = (g, u)" by fastforce
  have "cont u ?p = Some []" using grow_keeps [OF c, of "lp_rd llp"] g by simp
  then show "pipe_idle cont x'" "\<exists>llp'. ss_pipe x' = Some llp' \<and> lp_rd llp' = lp_rd llp \<and> lp_wr llp' = lp_wr llp"
    "mo_mem (ss_mo x') = mo_mem (ss_mo x)"
    using assms f g c by (cases r; auto simp: pipe_fits_def pipe_idle_def Let_def split: if_splits)+
qed


text \<open>The thread's pipe holds the header and data.\<close>

definition pipe_holds :: "fuse_ll_pipe \<Rightarrow> byte list \<Rightarrow> 's splice_st \<Rightarrow> bool" where
  "pipe_holds llp c x \<longleftrightarrow> (\<exists>llp'. ss_pipe x = Some llp' \<and> lp_rd llp' = lp_rd llp \<and> lp_wr llp' = lp_wr llp) \<and>
     cont (ss_os x) (lp_rd llp, lp_wr llp) = Some c"

definition sends :: "nat option \<Rightarrow> addr option \<Rightarrow> byte list \<Rightarrow> 'u fuse_world \<Rightarrow> int \<Rightarrow> 's splice_st \<Rightarrow> 'u fuse_world \<Rightarrow> bool" where
  "sends memalign ch msg w res x w' \<longleftrightarrow> pipe_idle cont x \<and> delivered ch msg w res w' \<and> (all_work os cont memalign w \<longrightarrow> res = 0)"

lemma sends_nmalloc [simp]: "sends memalign ch msg (w\<lparr>nmalloc := n\<rparr>) res x w' = sends memalign ch msg w res x w'"
  by (simp add: sends_def all_work_def)

lemma sends_error:
  assumes "\<not> all_work os cont memalign w" and "res \<noteq> 0" and "pipe_idle cont x" and "w' = w \<or> w' = w\<lparr>nmalloc := nmalloc w + 1\<rparr>"
  shows "sends memalign ch msg w res x w'"
  using assms by (auto simp: sends_def delivered_def)

lemma pipe_holds_idle: "pipe_holds llp [] x \<Longrightarrow> pipe_idle cont x"
  by (auto simp: pipe_holds_def pipe_idle_def)

lemma splice_out_delivers:
  assumes h: "pipe_holds llp (hdr @ concat iov @ d) x" "length hdr = 16" and n: "16 + iov_length iov + length d < 2 ^ 31" and cs: "can_send ch req w"
    and r: "splice_out os llp ch unique error iov (length d) flags x w = (res, x', w')"
  shows "sends memalign ch (msg_of unique error iov d) w res x' w'"
proof -
  let ?p = "(lp_rd llp, lp_wr llp)" let ?len = "of_nat (16 + iov_length iov + length d) :: u32"
  let ?hdr = "enc_fuse_out_header ?len (of_int error) unique" let ?msg = "msg_of unique error iov d"
  let ?fl = "if has_bits flags FUSE_BUF_SPLICE_MOVE \<and> want_ext (conn w) AND FUSE_CAP_SPLICE_MOVE \<noteq> 0 then SPLICE_F_MOVE else 0"
  have ul: "unat ?len = 16 + iov_length iov + length d" using n by (simp add: unat_of_nat take_bit_nat_eq_self del: of_nat_add)
  have lm: "length ?msg = unat ?len" unfolding ul by (simp add: msg_of_def)
  have ch: "\<not> (case ch of Some c \<Rightarrow> ukfs w c = None | None \<Rightarrow> False)" using cs by (cases ch) (simp_all add: can_send_def)
  have now: "now_in_pipe (?hdr # iov) (hdr @ concat iov @ d) = ?msg" using h(2) by (simp add: now_in_pipe_def msg_of_def)
  obtain q s where q: "os_splice_dev os (lp_rd llp) (?hdr # iov) (unat ?len) ?fl (ss_os x) = (q, s)" by fastforce
  note r' = r [unfolded splice_out_def Let_def if_not_P [OF ch] q]
  have c: "cont (ss_os x) ?p = Some (hdr @ concat iov @ d)" using h(1) by (simp add: pipe_holds_def)
  have le: "unat ?len \<le> length (hdr @ concat iov @ d)" unfolding ul using h(2) by simp
  have works: "\<exists>bs. q = Inr bs \<and> length bs = unat ?len" if pw: "pipes_work os cont"
    using pipes_workD(4) [OF pw c le, of "?hdr # iov" ?fl] q by auto
  show ?thesis
  proof (cases q)
    case (Inl e)
    then have "res = - e" "x' = fuse_ll_clear_pipe os (with_os s x)" "w' = w" using r' by simp_all
    moreover have "errno_ok e" using splice_fails q Inl by blast
    moreover have "\<not> all_work os cont memalign w" using works Inl by (auto simp: all_work_def)
    ultimately show ?thesis by (intro sends_error) (auto simp: errno_ok_def)
  next
    case (Inr bs)
    have b: "length bs \<le> unat ?len" "bs = take (length bs) ?msg" "cont s ?p = Some (drop (length bs) (hdr @ concat iov @ d))"
    proof -
      have "os_splice_dev os (fst ?p) (?hdr # iov) (unat ?len) ?fl (ss_os x) = (Inr bs, s)" using q Inr by (simp only: fst_conv)
      with c have "length bs \<le> unat ?len \<and> bs = take (length bs) ?msg \<and> cont s ?p = Some (drop (length bs) (hdr @ concat iov @ d))"
        using splices now by metis
      then show "length bs \<le> unat ?len" "bs = take (length bs) ?msg" "cont s ?p = Some (drop (length bs) (hdr @ concat iov @ d))" by blast+
    qed
    have o: "dev_out (dev_takes ch bs w) = dev_out w @ [(dev_of ch w, bs)]" "fault (dev_takes ch bs w) = fault w"
      by (simp_all add: dev_takes_def dev_of_def)
    show ?thesis
    proof (cases "length bs = unat ?len")
      case True
      then have e: "res = 0" "x' = with_os s x" "w' = dev_takes ch bs w" using r' Inr by simp_all
      have "bs = ?msg" using b(2) True lm by simp
      moreover have "drop (length bs) (hdr @ concat iov @ d) = []" using True ul h(2) by simp
      then have "pipe_holds llp [] x'" using b(3) h(1) e(2) by (simp add: pipe_holds_def)
      ultimately show ?thesis using e o pipe_holds_idle by (auto simp: delivered_def sends_def)
    next
      case False
      then have e: "res = - EIO" "x' = fuse_ll_clear_pipe os (with_os s x)" "w' = dev_takes ch bs w" using r' Inr by simp_all
      moreover have "length bs < length ?msg" using b(1) False lm by simp
      moreover have "\<not> all_work os cont memalign w" using works Inr False by (auto simp: all_work_def)
      ultimately show ?thesis using o b(2) by (auto simp: delivered_def sends_def)
    qed
  qed
qed


lemma read_back_pipe:
  assumes h: "pipe_holds llp c x" and r: "read_back os (lp_rd llp) n x = (e, d, x')"
  shows "length d \<le> n" and "mo_mem (ss_mo x') = mo_mem (ss_mo x)" and "e = 0 \<Longrightarrow> d = take n c \<and> length d = n \<and> pipe_holds llp (drop n c) x'"
proof -
  let ?p = "(lp_rd llp, lp_wr llp)"
  obtain q s where q: "os_read (po_fd os) (fst ?p) n None (ss_os x) = (q, s)" by fastforce
  have c: "cont (ss_os x) ?p = Some c" using h by (simp add: pipe_holds_def)
  have "length d \<le> n \<and> mo_mem (ss_mo x') = mo_mem (ss_mo x) \<and> (e = 0 \<longrightarrow> d = take n c \<and> length d = n \<and> pipe_holds llp (drop n c) x')"
  proof (cases q)
    case (Inr b)
    have "length b \<le> n \<and> b = take (length b) c \<and> cont s ?p = Some (drop (length b) c)" using reads [OF q [unfolded Inr] c] .
    then show ?thesis using r q Inr h by (auto simp: read_back_def pipe_holds_def split: if_splits)
  qed (use r q in \<open>auto simp: read_back_def\<close>)
  then show "length d \<le> n" "mo_mem (ss_mo x') = mo_mem (ss_mo x)" "e = 0 \<Longrightarrow> d = take n c \<and> length d = n \<and> pipe_holds llp (drop n c) x'"
    by blast+
qed

lemma read_back_works:
  assumes "pipes_work os cont" and h: "pipe_holds llp c x" and "n \<le> length c" and r: "read_back os (lp_rd llp) n x = (e, d, x')"
  shows "e = 0"
proof -
  have c: "cont (ss_os x) (lp_rd llp, lp_wr llp) = Some c" using h by (simp add: pipe_holds_def)
  show ?thesis using pipes_workD(3) [OF assms(1) c assms(3)] r by (auto simp: read_back_def)
qed

text \<open>The way back: the rest of the data is in memory behind a gap, and what is in the pipe goes into the gap.\<close>

lemma read_back_delivers:
  assumes h: "pipe_holds llp (hdr @ concat iov @ d1) x" "length hdr = 16" and cs: "can_send ch req w"
    and gap: "\<forall>a \<in> {mbuf..<mbuf + length d1}. mo_mem (ss_mo x) a \<noteq> None" "ld (mo_mem (ss_mo x)) (mbuf + length d1) (length d2) = Some d2"
    and r1: "read_back os (lp_rd llp) (16 + iov_length iov) x = (e1, b1, x1)" and r2: "read_back os (lp_rd llp) (length d1) x1 = (e2, b2, x2)"
    and e1: "e1 = 0"
  shows "\<exists>m. st (mo_mem (ss_mo x2)) mbuf b2 = Some m \<and>
    (e2 = 0 \<longrightarrow> ld m mbuf (length d1 + length d2) = Some (d1 @ d2) \<and> pipe_holds llp [] x2)"
proof -
  have "pipe_holds llp d1 x1" using read_back_pipe(3) [OF h(1) r1 e1] h(2) by simp
  note b = read_back_pipe [OF this r2]
  have m: "mo_mem (ss_mo x2) = mo_mem (ss_mo x)" using b(2) read_back_pipe(2) [OF h(1) r1] by simp
  have "\<forall>a \<in> {mbuf..<mbuf + length b2}. mo_mem (ss_mo x2) a \<noteq> None" using gap(1) b(1) m by auto
  then obtain m' where m': "st (mo_mem (ss_mo x2)) mbuf b2 = Some m'"
    "\<And>d2. ld (mo_mem (ss_mo x2)) (mbuf + length b2) (length d2) = Some d2 \<Longrightarrow> ld m' mbuf (length b2 + length d2) = Some (b2 @ d2)"
    by (rule st_in_front) blast
  show ?thesis using m' b(3) gap(2) m by (intro exI [of _ m']) auto
qed


lemma splice_short_delivers:
  fixes w :: "'u fuse_world"
  assumes h: "pipe_holds llp (hdr @ concat iov @ take k d) x" "length hdr = 16" and cs: "can_send ch req w"
    and v: "mem_vec sv" "vec_addrs sv = drop k D" and mp: "\<forall>a \<in> set D. mo_mem (ss_mo x) a \<noteq> None"
    and d: "d = map (\<lambda>a. the (mo_mem (ss_mo x) a)) D" and len: "length D = unat len" "unat len < 2 ^ 31" and k: "k < length D"
    and fresh: "\<forall>mbuf. memalign = Some mbuf \<longrightarrow> {mbuf..<mbuf + unat len} \<inter> set D = {}"
    and r: "splice_short os tmp memalign llp ch unique error iov sv len k flags req x w = (res, x', w')"
  shows "sends memalign ch (msg_of unique error iov d) w res x' w'"
proof (cases memalign)
  case None
  then show ?thesis using r by (auto simp: splice_short_def all_work_def intro: sends_error)
next
  case (Some mbuf)
  let ?mo = "with_block mbuf (unat len) w (ss_mo x)" let ?off = "of_nat k :: u64"
  have uo: "unat ?off = k" using k len by (simp add: unat_of_nat take_bit_nat_eq_self)
  have d2: "map (\<lambda>a. the (mo_mem (ss_mo x) a)) (vec_addrs sv) = drop k d" by (simp add: v(2) d drop_map)
  have "unat ?off + length (vec_addrs sv) \<le> unat len" using uo v(2) k len by simp
  moreover have "\<forall>a \<in> set (vec_addrs sv). mo_mem (ss_mo x) a \<noteq> None" using mp v(2) by (metis in_set_dropD)
  moreover have "{mbuf..<mbuf + unat len} \<inter> set (vec_addrs sv) = {}" using fresh Some v(2) by (auto dest: in_set_dropD)
  ultimately obtain dv' sv' m where c: "fuse_buf_copy (po_fd os) tmp False ((bufvec_of (plain_buf mbuf len))\<lparr>bv_off := ?off\<rparr>) sv 0 ?mo =
      Some (int (length (drop k d)), dv', sv', (ss_mo x)\<lparr>mo_mem := m\<rparr>)"
    and ld: "ld m (mbuf + unat ?off) (length (drop k d)) = Some (drop k d)"
    and out: "\<forall>a. a \<notin> {mbuf + unat ?off..<mbuf + unat len} \<longrightarrow> m a = mo_mem ?mo a"
    using copy_to_block [OF v(1) _ _ len(2), of "ss_mo x" ?off mbuf "po_fd os" tmp w] unfolding d2 by metis
  have lt: "length (drop k d) < 2 ^ 31" "0 < length (drop k d)" using len k by (simp_all add: d)
  then have res: "sint (of_int (int (length (drop k d))) :: u32) = int (length (drop k d))"
    unfolding sint_sbintrunc' by (simp add: signed_take_bit_int_eq_self)
  have tk: "length (take k d) = k" using k by (simp add: d)
  let ?x = "x\<lparr>ss_mo := (ss_mo x)\<lparr>mo_mem := m\<rparr>\<rparr>"
  have hx: "pipe_holds llp (hdr @ concat iov @ take k d) ?x" using h(1) by (simp add: pipe_holds_def)
  have gap: "\<forall>a \<in> {mbuf..<mbuf + length (take k d)}. mo_mem (ss_mo ?x) a \<noteq> None"
    unfolding tk using out k len uo by (auto simp: with_block_def map_block_def)
  have ld': "ld (mo_mem (ss_mo ?x)) (mbuf + length (take k d)) (length (drop k d)) = Some (drop k d)" using ld uo tk by simp
  obtain e1 b1 x1 where r1: "read_back os (lp_rd llp) (16 + iov_length iov) ?x = (e1, b1, x1)" by (metis prod_cases3)
  obtain e2 b2 x2 where r2: "read_back os (lp_rd llp) (length (take k d)) x1 = (e2, b2, x2)" by (metis prod_cases3)
  let ?free = "\<lambda>x. x\<lparr>ss_mo := (ss_mo x)\<lparr>mo_mem := map_block mbuf (unat len) (\<lambda>_. None) (mo_mem (ss_mo x))\<rparr>\<rparr>"
  let ?w = "w\<lparr>nmalloc := nmalloc w + 1\<rparr>"
  have bl: "(ss_mo x)\<lparr>mo_mem := map_block mbuf (unat len) (\<lambda>i. Some (uninit (plat w) i)) (mo_mem (ss_mo x))\<rparr> = ?mo" by (simp add: with_block_def)
  note r' = r [unfolded splice_short_def Some option.case Let_def bl c prod.case res]
  show ?thesis
  proof (cases "malloc_ok (plat w) (nmalloc w) \<and> e1 = 0")
    case False
    have "res \<noteq> 0 \<and> x' \<in> {fuse_ll_clear_pipe os (?free ?x), fuse_ll_clear_pipe os (?free x1)} \<and> w' = ?w"
      using False r' lt(2) r1 by (auto simp: try_malloc_def Let_def split: if_splits)
    moreover have "\<not> all_work os cont memalign w"
      using False read_back_works [OF _ hx _ r1] h(2) by (auto simp: all_work_def)
    ultimately show ?thesis by (auto intro: sends_error)
  next
    case True
    obtain m' where m': "st (mo_mem (ss_mo x2)) mbuf b2 = Some m'"
      "e2 = 0 \<longrightarrow> ld m' mbuf (length (take k d) + length (drop k d)) = Some (take k d @ drop k d) \<and> pipe_holds llp [] x2"
      using read_back_delivers [OF hx h(2) cs gap ld' r1 r2] True by blast
    show ?thesis
    proof (cases "e2 = 0")
      case False
      have "res \<noteq> 0 \<and> x' = fuse_ll_clear_pipe os (?free (x2\<lparr>ss_mo := (ss_mo x2)\<lparr>mo_mem := m'\<rparr>\<rparr>)) \<and> w' = ?w"
        using False r' lt(2) r1 r2 True m'(1) tk by (auto simp: try_malloc_def Let_def split: if_splits)
      moreover have "\<not> all_work os cont memalign w"
        using False read_back_works [OF _ read_back_pipe(3) [OF hx r1, THEN conjunct2, THEN conjunct2] _ r2] True h(2) by (auto simp: all_work_def)
      ultimately show ?thesis by (auto intro: sends_error)
    next
      case e2: True
      let ?y = "x2\<lparr>ss_mo := (ss_mo x2)\<lparr>mo_mem := m'\<rparr>\<rparr>" let ?s = "fuse_send_msg ch unique error (iov @ [d]) req ?w"
      have "ld m' mbuf (k + length (drop k d)) = Some d" using m'(2) e2 tk by simp
      moreover have "k + nat (int (length d) - int k) = length d" using lt(2) by simp
      moreover obtain a b where s: "?s = (a, b)" by fastforce
      ultimately have "res = fst ?s \<and> x' = ?free ?y \<and> w' = snd ?s"
        using r' lt(2) r1 r2 True m'(1) tk e2 by (simp add: try_malloc_def Let_def)
      moreover have "pipe_holds llp [] (?free ?y)" using m'(2) e2 by (simp add: pipe_holds_def)
      ultimately show ?thesis using send_msg_delivered [of ch req ?w unique error iov d] send_msg_works [of ch req ?w] cs pipe_holds_idle
        by (simp add: sends_def all_work_def)
    qed
  qed
qed


lemma fallback_delivers:
  fixes w :: "'u fuse_world"
  assumes v: "mem_vec sv" "bv_buf sv \<noteq> []" "vec_addrs sv = D" and mp: "\<forall>a \<in> set D. mo_mem (ss_mo x) a \<noteq> None" and cs: "can_send ch req w"
    and len: "length D = unat len" "unat len < 2 ^ 31"
    and fresh: "\<forall>mbuf. memalign = Some mbuf \<longrightarrow> {mbuf..<mbuf + unat len} \<inter> set D = {}"
    and r: "splice_fallback os tmp memalign ch unique error iov sv len req x w = (res, x', w')" and i: "pipe_idle cont x"
  shows "sends memalign ch (msg_of unique error iov (map (\<lambda>a. the (mo_mem (ss_mo x) a)) D)) w res x' w'"
proof -
  let ?s = "fuse_send_msg ch unique error (iov @ [map (\<lambda>a. the (mo_mem (ss_mo x) a)) D]) req w"
  have send: ?thesis if f: "splice_fallback os tmp (Some mbuf) ch unique error iov sv len req x w = (res, x', w')"
    and dj: "{mbuf..<mbuf + unat len} \<inter> set D = {}" for mbuf
  proof -
    obtain m where "fuse_send_data_iov_fallback (po_fd os) tmp (Some mbuf) ch unique error iov sv len req (ss_mo x) w = (fst ?s, (ss_mo x)\<lparr>mo_mem := m\<rparr>, snd ?s)"
      using fallback_bytes [OF v(1), of "ss_mo x" len mbuf "po_fd os" tmp ch unique error iov req w] mp len v(3) dj by auto
    then show ?thesis using f send_msg_delivered [OF cs] send_msg_works [OF cs] i
      by (auto simp: splice_fallback_def pipe_idle_def sends_def all_work_def)
  qed
  show ?thesis
  proof (cases memalign)
    case None
    show ?thesis
    proof (cases "bv_count sv = 1 \<and> bv_idx sv = 0 \<and> bv_off sv = 0 \<and> \<not> has_bits (fb_flags (hd (bv_buf sv))) FUSE_BUF_IS_FD")
      case True
      let ?mbuf = "Suc (sum_list D)"
      have "{?mbuf..<?mbuf + unat len} \<inter> set D = {}" using member_le_sum_list [of _ D] by fastforce
      moreover have "splice_fallback os tmp (Some ?mbuf) ch unique error iov sv len req x w = (res, x', w')"
        using r True None by (simp add: splice_fallback_def fuse_send_data_iov_fallback_def)
      ultimately show ?thesis using send by blast
    next
      case False
      then have "res = ENOMEM" "x' = x" "w' = w"
        using r unfolding splice_fallback_def fuse_send_data_iov_fallback_def if_not_P [OF False] by (simp_all add: None)
      then show ?thesis using i None by (simp add: sends_error all_work_def)
    qed
  qed (use send r fresh in auto)
qed


lemma splice_data_delivers:
  fixes w :: "'u fuse_world"
  assumes h: "pipe_holds llp (hdr @ concat iov) x" "length hdr = 16" and cs: "can_send ch req w"
    and v: "mem_vec bv" "vec_addrs bv = D" "D \<noteq> []" and mp: "\<forall>a \<in> set D. mo_mem (ss_mo x) a \<noteq> None"
    and len: "length D = unat len" "16 + iov_length iov + length D < 2 ^ 31"
    and fresh: "\<forall>mbuf. memalign = Some mbuf \<longrightarrow> {mbuf..<mbuf + unat len} \<inter> set D = {}"
    and r: "splice_data os tmp memalign llp ch unique error iov bv len flags req x w = (res, x', w')"
  defines "d \<equiv> map (\<lambda>a. the (mo_mem (ss_mo x) a)) D"
  shows "sends memalign ch (msg_of unique error iov d) w res x' w'"
proof -
  let ?p = "(lp_rd llp, lp_wr llp)" let ?fl = "FUSE_BUF_FORCE_SPLICE OR FUSE_BUF_SPLICE_NONBLOCK"
  have pv: "bufvec_of (pipe_buf (lp_wr llp) len) = pipe_vec (snd ?p) len 0" by (simp add: pipe_vec_def bufvec_of_def)
  have l31: "unat len < 2 ^ 31" using len by linarith
  have "\<forall>a \<in> set (vec_addrs bv). mo_mem (ss_mo x) a \<noteq> None" using mp v(2) by simp
  moreover have "cont (mo_os (ss_mo x)) ?p = Some (hdr @ concat iov)" using h(1) by (simp add: pipe_holds_def)
  moreover have "unat (0 :: u64) + length (vec_addrs bv) = unat len" "unat len < 2 ^ 63" using v(2) len(1) l31 by simp_all
  ultimately obtain c dv sv mo k where cp0: "buf_copy_loop (po_fd os) tmp (pipe_vec (snd ?p) len 0) bv ?fl 0 (ss_mo x) = Some (c, dv, sv, mo)"
    and cp: "mo_mem mo = mo_mem (ss_mo x)" "k \<le> length (vec_addrs bv)"
    "cont (mo_os mo) ?p = Some ((hdr @ concat iov) @ take k (map (\<lambda>a. the (mo_mem (ss_mo x) a)) (vec_addrs bv)))"
    "mem_vec sv" "vec_addrs sv = drop k (vec_addrs bv)"
    "c = int (unat (0 :: u64) + k) \<and> (vec_addrs bv \<noteq> [] \<longrightarrow> 0 < c) \<or> (0 :: u64) = 0 \<and> k = 0 \<and> write_err (- c)"
    using copy_to_pipe [OF v(1), of "ss_mo x" ?p "hdr @ concat iov" 0 len tmp ?fl] by blast
  have cp1: "fuse_buf_copy (po_fd os) tmp False (bufvec_of (pipe_buf (lp_wr llp) len)) bv ?fl (ss_mo x) = Some (c, dv, sv, mo)"
    unfolding fuse_buf_copy_def pv using cp0 by (simp only: if_False)
  note cp = cp1 cp(1) cp(2) [unfolded v(2)] cp(3) [unfolded v(2), folded d_def] cp(4) cp(5) [unfolded v(2)] cp(6)
  have cp6: "c = int k \<and> 0 < c \<or> k = 0 \<and> write_err (- c)" using cp(7) v(2,3) by auto
  then have cp7: "c = int k \<and> 0 < c \<or> k = 0 \<and> errno_ok (- c)" using write_err(1) by blast
  have "- (2 ^ 31) \<le> c" "c < 2 ^ 31" using cp(3) cp7 len by (auto simp: errno_ok_def)
  then have ci: "sint (of_int c :: u32) = c" unfolding sint_sbintrunc' by (simp add: signed_take_bit_int_eq_self)
  let ?x = "x\<lparr>ss_mo := mo\<rparr>"
  have hx: "pipe_holds llp (hdr @ concat iov @ take k d) ?x" using h(1) cp(4) by (simp add: pipe_holds_def)
  have dx: "d = map (\<lambda>a. the (mo_mem (ss_mo ?x) a)) D" "\<forall>a \<in> set D. mo_mem (ss_mo ?x) a \<noteq> None" using cp(2) mp by (simp_all add: d_def)
  note r' = r [unfolded splice_data_def cp(1) option.case prod.case Let_def ci]
  consider (err) "c < 0" | (short) "0 < c" "k < length D" | (all) "0 < c" "k = length D" 
    using cp(3) cp7 by (cases "k < length D") (auto simp: errno_ok_def)
  then show ?thesis
  proof cases
    case err
    then have k: "k = 0" using cp7 by auto
    show ?thesis
    proof (cases "c = - EAGAIN \<or> c = - EINVAL")
      case True
      define y where "y = fuse_ll_pipe_free os llp ((if c = - EAGAIN then ?x\<lparr>ss_broken := True\<rparr> else ?x)\<lparr>ss_pipe := None\<rparr>)"
      have y: "pipe_idle cont y" "mo_mem (ss_mo y) = mo_mem (ss_mo ?x)"
        by (simp_all add: y_def pipe_idle_def fuse_ll_pipe_free_def with_os_def)
      have sv: "bv_buf sv \<noteq> []" "vec_addrs sv = D" using cp(6) k v(3) by (auto simp: vec_addrs_def)
      have "splice_fallback os tmp memalign ch unique error iov sv len req y w = (res, x', w')"
        using r' err True by (simp add: y_def)
      then show ?thesis using fallback_delivers [OF cp(5) sv _ cs len(1) l31 fresh _ y(1), of tmp unique error iov res x' w'] dx y(2) by simp
    next
      case False
      then have "\<not> all_work os cont memalign w" using cp6 err write_err(2) [of "- c"] by (auto simp: all_work_def)
      then show ?thesis using False r' err by (auto intro: sends_error)
    qed
  next
    case short
    then have "splice_short os tmp memalign llp ch unique error iov sv len k flags req ?x w = (res, x', w')" using r' cp7 len(1) by (auto simp: errno_ok_def)
    then show ?thesis by (rule splice_short_delivers [OF hx h(2) cs cp(5,6) dx(2,1) len(1) l31 short(2) fresh])
  next
    case all
    then have "splice_out os llp ch unique error iov (length d) flags ?x w = (res, x', w')" using r' cp7 len(1) by (auto simp: errno_ok_def d_def)
    moreover have "pipe_holds llp (hdr @ concat iov @ d) ?x" using hx all(2) by (simp add: d_def)
    moreover have "16 + iov_length iov + length d < 2 ^ 31" using len(2) by (simp add: d_def)
    ultimately show ?thesis using splice_out_delivers [OF _ h(2) _ cs] by blast
  qed
qed

lemma splice_through_delivers:
  fixes w :: "'u fuse_world"
  assumes i: "pipe_idle cont x" "ss_pipe x = Some llp" and cs: "can_send ch req w"
    and v: "mem_vec bv" "bv_buf bv \<noteq> []" "vec_addrs bv = D" "D \<noteq> []" and mp: "\<forall>a \<in> set D. mo_mem (ss_mo x) a \<noteq> None"
    and len: "length D = unat len" "16 + iov_length iov + length D < 2 ^ 31"
    and fresh: "\<forall>mbuf. memalign = Some mbuf \<longrightarrow> {mbuf..<mbuf + unat len} \<inter> set D = {}"
    and r: "splice_through os tmp memalign llp ch unique error iov bv len flags req x w = (res, x', w')"
  shows "sends memalign ch (msg_of unique error iov (map (\<lambda>a. the (mo_mem (ss_mo x) a)) D)) w res x' w'"
proof -
  define hl ol where "hl = 16 + iov_length iov" and "ol = (of_nat hl + ucast len :: u32)"
  define ps hdr where "ps = pagesize * (of_nat (length iov + 1) + bv_count bv + 1) + ucast ol" and "hdr = enc_fuse_out_header ol (of_int error) unique"
  let ?fb = "splice_fallback os tmp memalign ch unique error iov bv len req"
  obtain fits z where pf: "pipe_fits os llp ps x = (fits, z)" by fastforce
  note z = pipe_fits_keeps [OF i pf]
  have zh: "pipe_holds llp [] z" using z(1,2) by (auto simp: pipe_idle_def pipe_holds_def)
  obtain q t where q: "os_vmsplice os (snd (lp_rd llp, lp_wr llp)) (hdr # iov) SPLICE_F_NONBLOCK (ss_os z) = (q, t)" by fastforce
  note r' = r [unfolded splice_through_def Let_def, folded hl_def ol_def, folded ps_def hdr_def, unfolded pf prod.case q [unfolded snd_conv]]
  have l31: "unat len < 2 ^ 31" using len by linarith
  have mz: "\<forall>a \<in> set D. mo_mem (ss_mo (with_os t z)) a \<noteq> None" "\<forall>a \<in> set D. mo_mem (ss_mo z) a \<noteq> None" using mp z(3) by simp_all
  consider (nofit) "\<not> fits" | (fails) e where "fits" "q = Inl e" | (part) k where "fits" "q = Inr k" "k \<noteq> hl" | (header) "fits" "q = Inr hl"
    by (cases q) blast+
  then show ?thesis
  proof cases
    case nofit
    then have "?fb z w = (res, x', w')" using r' by simp
    from fallback_delivers [OF v(1-3) mz(2) cs len(1) l31 fresh this z(1)] show ?thesis by (simp only: z(3))
  next
    case (fails e)
    then have "pipe_idle cont (with_os t z)" using vmsplice_fails q z(1) by (simp add: pipe_idle_def)
    moreover have "?fb (with_os t z) w = (res, x', w')" using r' fails by simp
    ultimately show ?thesis using fallback_delivers [OF v(1-3) mz(1) cs len(1) l31 fresh] z(3) by (metis with_os_simps(3))
  next
    case (part k)
    then have "res = - EIO \<and> x' = fuse_ll_clear_pipe os (with_os t z) \<and> w' = w" using r' by simp
    moreover have "\<not> all_work os cont memalign w"
      using part pipes_workD(2) [OF _ q [unfolded part(2)]] by (auto simp: all_work_def hl_def hdr_def)
    ultimately show ?thesis by (auto intro: sends_error)
  next
    case header
    have "cont t (lp_rd llp, lp_wr llp) = Some ([] @ take hl (concat (hdr # iov)))"
      using vmsplices [OF q [unfolded header(2)], of "[]"] zh by (simp add: pipe_holds_def)
    moreover have lh: "length hdr = 16" by (simp add: hdr_def)
    ultimately have h: "pipe_holds llp (hdr @ concat iov) (with_os t z)" using zh by (simp add: pipe_holds_def hl_def)
    have "splice_data os tmp memalign llp ch unique error iov bv len flags req (with_os t z) w = (res, x', w')" using r' header by simp
    from splice_data_delivers [OF h lh cs v(1,3,4) mz(1) len fresh this] show ?thesis by (simp only: z(3) with_os_simps(3))
  qed
qed

lemma splice_delivers:
  fixes w :: "'u fuse_world"
  assumes i: "pipe_idle cont x" and v: "whole_vec (mo_mem (ss_mo x)) bv" and n: "16 + iov_length iov + length (vec_addrs bv) < 2 ^ 31" and cs: "can_send ch req w"
    and fresh: "\<forall>mbuf. memalign = Some mbuf \<longrightarrow> {mbuf..<mbuf + length (vec_addrs bv)} \<inter> set (vec_addrs bv) = {}"
    and r: "fuse_send_data_iov_splice os tmp memalign ch unique error iov bv flags req x w = (res, x', w')"
  shows "sends memalign ch (msg_of unique error iov (map (\<lambda>a. the (mo_mem (ss_mo x) a)) (vec_addrs bv))) w res x' w'"
proof -
  let ?len = "fuse_buf_size bv" let ?D = "vec_addrs bv" let ?m = "mo_mem (ss_mo x)"
  have len: "length ?D = unat ?len" using whole_vec_size [OF v] n by simp
  have v': "mem_vec bv" "bv_buf bv \<noteq> []" "\<forall>a \<in> set ?D. ?m a \<noteq> None" using v by (auto simp: whole_vec_def)
  have l31: "unat ?len < 2 ^ 31" using len n by linarith
  note fr = fresh [unfolded len]
  show ?thesis
  proof (cases "ss_broken x \<or> has_bits flags FUSE_BUF_NO_SPLICE \<or> total_buf_size bv < 2 * pagesize \<or>
      proto_minor (conn w) < 14 \<or> want_ext (conn w) AND FUSE_CAP_SPLICE_WRITE = 0")
    case True
    show ?thesis using r [unfolded fuse_send_data_iov_splice_def Let_def if_P [OF True]]
      by (rule fallback_delivers [OF v'(1,2) refl v'(3) cs len l31 fr _ i])
  next
    case guard: False
    have ne: "?D \<noteq> []"
    proof
      assume "?D = []"
      then have "total_buf_size bv = 0" by (rule total_buf_size_empty [OF v'(1)])
      then show False using guard by simp
    qed
    obtain p y v where g: "fuse_ll_get_pipe os x w = (p, y, v)" by (metis prod_cases3)
    note gp = get_pipe [OF i g] and r' = r [unfolded fuse_send_data_iov_splice_def Let_def if_not_P [OF guard] g prod.case]
    have csv: "can_send ch req v" using cs gp(4) by (elim disjE) simp_all
    have my: "\<forall>a \<in> set ?D. mo_mem (ss_mo y) a \<noteq> None" using v'(3) gp(3) by simp
    have "sends memalign ch (msg_of unique error iov (map (\<lambda>a. the (mo_mem (ss_mo y) a)) ?D)) v res x' w'"
    proof (cases p)
      case None
      show ?thesis using r' [unfolded None option.case] by (rule fallback_delivers [OF v'(1,2) refl my csv len l31 fr _ gp(1)])
    next
      case (Some llp)
      show ?thesis using r' [unfolded Some option.case]
        by (rule splice_through_delivers [OF gp(1) gp(2) [OF Some] csv v'(1,2) refl ne my len n fr])
    qed
    then show ?thesis unfolding gp(3) using gp(4) by (elim disjE) simp_all
  qed
qed

end

declare length_concat_iov [simp del]

section \<open>Pipes as queues of bytes\<close>

text \<open>A system with pipes of \<open>room\<close> bytes: the ends of a pipe are neighbouring descriptors, and the read end has the bytes. What \<^verbatim>\<open>vmsplice\<close> is
  given fits. The requests that wait at the device are those of \<open>rp_waiting\<close>.\<close>

record ref_pipes =
  rp_pipes :: "int \<Rightarrow> byte list option"
  rp_next :: int
  rp_waiting :: "byte list list"

definition ref_cont :: "ref_pipes \<Rightarrow> int \<times> int \<Rightarrow> byte list option" where
  "ref_cont s p = (if snd p = fst p + 1 then rp_pipes s (fst p) else None)"

definition ref_put :: "int \<Rightarrow> byte list option \<Rightarrow> ref_pipes \<Rightarrow> ref_pipes" where
  "ref_put r c s = s\<lparr>rp_pipes := (rp_pipes s)(r := c)\<rparr>"

definition ref_write :: "nat \<Rightarrow> int \<Rightarrow> byte list \<Rightarrow> u64 option \<Rightarrow> ref_pipes \<Rightarrow> (int + nat) \<times> ref_pipes" where
  "ref_write room fd d pos s =
     (case rp_pipes s (fd - 1) of
        None \<Rightarrow> (Inl EAGAIN, s)
      | Some c \<Rightarrow>
          (let n = min (length d) (room - length c)
           in if n = 0 \<and> d \<noteq> [] then (Inl EAGAIN, s) else (Inr n, ref_put (fd - 1) (Some (c @ take n d)) s)))"

definition ref_read :: "int \<Rightarrow> nat \<Rightarrow> u64 option \<Rightarrow> ref_pipes \<Rightarrow> (int + byte list) \<times> ref_pipes" where
  "ref_read fd n pos s =
     (case rp_pipes s fd of
        None \<Rightarrow> (Inl EAGAIN, s)
      | Some c \<Rightarrow> (Inr (take n c), ref_put fd (Some (drop n c)) s))"

definition ref_pipe_os :: "nat \<Rightarrow> ref_pipes pipe_os" where
  "ref_pipe_os room =
     \<lparr>po_fd = \<lparr>os_write = ref_write room, os_read = ref_read, os_splice = Some (\<lambda>_ _ _ _ _ _ s. (Inl EINVAL, s))\<rparr>,
      os_pipe = (\<lambda>s. (Inr (rp_next s, rp_next s + 1), (ref_put (rp_next s) (Some []) s)\<lparr>rp_next := rp_next s + 2\<rparr>)),
      os_pipe2 = None,
      os_fcntl = (\<lambda>fd cmd s. (Inr (case cmd of F_SETPIPE_SZ n \<Rightarrow> n | _ \<Rightarrow> 0), s)),
      os_open = (\<lambda>path s. (Inl ENOENT, s)),
      os_close = (\<lambda>fd s. ref_put (fd - 1) None (ref_put fd None s)),
      os_vmsplice = (\<lambda>fd bss fl s. case rp_pipes s (fd - 1) of
         None \<Rightarrow> (Inl EAGAIN, s)
       | Some c \<Rightarrow> (Inr (length (concat bss)), ref_put (fd - 1) (Some (c @ concat bss)) s)),
      os_splice_dev = (\<lambda>fd pages n fl s. case rp_pipes s fd of
         None \<Rightarrow> (Inl EAGAIN, s)
       | Some c \<Rightarrow> (Inr (take n (now_in_pipe pages c)), ref_put fd (Some (drop n c)) s)),
      os_dev_splice = (\<lambda>fd n s. case (rp_pipes s (fd - 1), rp_waiting s) of
         (Some c, m # ms) \<Rightarrow> if length m \<le> n then (Inr (length m), (ref_put (fd - 1) (Some (c @ m)) s)\<lparr>rp_waiting := ms\<rparr>) else (Inl EINVAL, s)
       | _ \<Rightarrow> (Inl EAGAIN, s))\<rparr>"

lemma take_drop_min [simp]: "take (min (length c) n) c = take n c" "drop (min (length c) n) c = drop n c"
  "drop (min (length (now_in_pipe pages c)) n) c = drop n c"
  by (auto simp: min_def now_in_pipe_def)

interpretation ref_pipes: pipes "ref_pipe_os room" ref_cont
  by unfold_locales
    (auto simp: ref_pipe_os_def ref_cont_def ref_put_def ref_write_def ref_read_def errno_ok_def fun_eq_iff Let_def iov_length_def [symmetric]
      split: option.splits if_splits prod.splits)

lemma ref_pipes_work: "pipes_work (ref_pipe_os room) ref_cont"
  by (auto simp: pipes_work_def ref_pipe_os_def ref_cont_def ref_write_def ref_read_def now_in_pipe_def Let_def split: option.splits if_splits)

section \<open>Properties\<close>

text \<open>\<^bold>\<open>C27\<close> A reply through a pipe is the reply through memory: on any system whose pipes are queues of bytes, for any vector of mapped
  memory buffers that is at its start and whose message is below 2 GiB (a temporary block, where there is one, is disjoint from it), however the pipe can or cannot be made, grown and filled, and whichever way the code takes (through the pipe to the device, back
  through memory after the pipe took only a part, or through memory alone): if the result is 0, the device has received one message, with the
  bytes that \<^verbatim>\<open>fuse_send_msg\<close> writes for the header and the data of the vector; if not, it has received a proper part of it at most. The
  pipe of the thread is empty again. And if all calls do their work, the result is 0.\<close>

theorem spliced_reply_delivered:
  fixes w :: "'u fuse_world"
  assumes "pipes os cont" and "pipe_idle cont x" and "whole_vec (mo_mem (ss_mo x)) bv"
    and "16 + iov_length iov + length (vec_addrs bv) < 2 ^ 31" and "can_send ch req w"
    and "\<forall>mbuf. memalign = Some mbuf \<longrightarrow> {mbuf..<mbuf + length (vec_addrs bv)} \<inter> set (vec_addrs bv) = {}"
    and "fuse_send_data_iov_splice os tmp memalign ch unique error iov bv flags req x w = (res, x', w')"
  shows "pipe_idle cont x' \<and>
    delivered ch (msg_of unique error iov (map (\<lambda>a. the (mo_mem (ss_mo x) a)) (vec_addrs bv))) w res w' \<and>
    (all_work os cont memalign w \<longrightarrow> res = 0)"
  using pipes.splice_delivers [OF assms] by (simp add: pipes.sends_def [OF assms(1)])

text \<open>A pipe with room for 6000 bytes, and two buffers of 5000 bytes: the code takes the data back from the pipe.\<close>

theorem spliced_reply_delivered_witness:
  defines "b \<equiv> \<lambda>a. \<lparr>fb_size = 5000, fb_flags = 0, fb_mem = a, fb_fd = 0, fb_pos = 0, fb_mem_size = 0\<rparr>"
  defines "bv \<equiv> \<lparr>bv_count = 2, bv_idx = 0, bv_off = 0, bv_buf = [b 10000, b 20000]\<rparr>"
  defines "x \<equiv> \<lparr>ss_mo = \<lparr>mo_mem = \<lambda>a. Some (of_nat a), mo_os = \<lparr>rp_pipes = Map.empty, rp_next = 3, rp_waiting = []\<rparr>\<rparr>, ss_pipe = None, ss_broken = False\<rparr>"
  defines "w \<equiv> conn_mod (\<lambda>c. c\<lparr>want_ext := FUSE_CAP_SPLICE_WRITE\<rparr>) demo_world"
  shows "\<exists>x' w'. fuse_send_data_iov_splice (ref_pipe_os 6000) 0 (Some 50000) None 7 0 [] bv 0 None x w = (0, x', w') \<and>
    dev_out w' = [(SeFd 0, msg_of 7 0 [] (map of_nat ([10000..<15000] @ [20000..<25000])))]"
proof -
  have d: "vec_addrs bv = [10000..<15000] @ [20000..<25000]" by (simp add: vec_addrs_def buf_addrs_def bv_def b_def del: upt_rec_numeral)
  have v: "whole_vec (mo_mem (ss_mo x)) bv" unfolding whole_vec_def by (simp add: mem_vec_def bv_def b_def has_bits_def x_def del: upt_rec_numeral)
  have w: "writev_errno (plat w) = (\<lambda>_. None)" "malloc_ok (plat w) = (\<lambda>_. True)" "dev_out w = []" "se_fd (se w) = 0"
    by (simp_all add: w_def conn_mod_def se_mod_def demo_world_simps demo_platform_def)
      (simp add: demo_world_def fuse_session_new_versioned_def demo_platform_def zero_session_def Let_def)
  obtain res x' w' where r: "fuse_send_data_iov_splice (ref_pipe_os 6000) 0 (Some 50000) None 7 0 [] bv 0 None x w = (res, x', w')"
    by (metis prod_cases3)
  have f: "\<forall>mbuf. Some 50000 = Some mbuf \<longrightarrow> {mbuf..<mbuf + length (vec_addrs bv)} \<inter> set (vec_addrs bv) = {}" by (auto simp: d simp del: upt_rec_numeral)
  note p = spliced_reply_delivered [OF ref_pipes.pipes_axioms _ v _ _ f r]
  have "pipe_idle ref_cont x" "16 + iov_length [] + length (vec_addrs bv) < 2 ^ 31" "can_send None None w" "all_work (ref_pipe_os 6000) ref_cont (Some 50000) w"
    by (simp_all add: pipe_idle_def x_def iov_length_def d can_send_def w all_work_def ref_pipes_work del: upt_rec_numeral)
  then have "res = 0" "dev_out w' = [(SeFd 0, msg_of 7 0 [] (map (\<lambda>a. the (mo_mem (ss_mo x) a)) (vec_addrs bv)))]"
    using p by (auto simp: delivered_def dev_of_def w simp del: upt_rec_numeral)
  then show ?thesis using r by (simp add: d x_def del: upt_rec_numeral)
qed

end
