(* ===== verification/Fuse_Splice_Recv.thy ===== *)
theory Fuse_Splice_Recv
  imports Fuse_Splice
begin

text \<open>
  Receiving a request with \<^verbatim>\<open>splice\<close>: the part of \<^verbatim>\<open>_fuse_session_receive_buf\<close> of \<^verbatim>\<open>libs/libfuse/lib/fuse_lowlevel.c\<close> under
  \<^verbatim>\<open>HAVE_SPLICE\<close>. The request goes from the device into the pipe of the thread; a short one is then read into memory, a long one stays in the
  pipe for the handler. The locale \<open>splice_device\<close> extends the laws of pipes by the device, which hands over one request at a time.
\<close>

section \<open>Receiving\<close>

text \<open>The buffer as \<open>Fuse_Session\<close> has it, with its flags and its descriptor.\<close>

record splice_buf =
  sb_buf :: recv_buf
  sb_flags :: u32
  sb_fd :: int

record 's recv_st =
  rs_heap :: c_heap
  rs_sp :: "'s splice_st"

text \<open>The bytes of a request buffer from its start to the end of its block.\<close>

definition block_room :: "u64 \<Rightarrow> bool \<Rightarrow> nat" where
  "block_room sz internal = (if internal then unat (ROUND_UP (sz + write_header_sz) pagesize) - 4016 else unat sz)"

text \<open>A request of \<open>n\<close> bytes that is in the pipe, into memory. A new block has its address from the allocator.\<close>

definition pipe_to_buf :: "'s pipe_os \<Rightarrow> nat \<Rightarrow> allocator \<Rightarrow> bool \<Rightarrow> fuse_ll_pipe \<Rightarrow> u64 \<Rightarrow> nat \<Rightarrow> splice_buf \<Rightarrow> 's recv_st \<Rightarrow> 'u fuse_world \<Rightarrow>
    (int \<times> splice_buf \<times> 's recv_st \<times> 'u fuse_world) recv" where
  "pipe_to_buf os tmp al internal llp bufsize n buf t w =
     (let rb = sb_buf buf;
          (mem, t) = (case rb_mem rb of
             Some p \<Rightarrow> (Some p, t)
           | None \<Rightarrow>
               (case buf_alloc al bufsize internal (rs_heap t) of
                  (None, h) \<Rightarrow> (None, t\<lparr>rs_heap := h\<rparr>)
                | (Some p, h) \<Rightarrow> (Some p, t\<lparr>rs_heap := h, rs_sp := (rs_sp t)\<lparr>ss_mo := with_block (unat p) (block_room bufsize internal) w (ss_mo (rs_sp t))\<rparr>\<rparr>)))
      in case mem of
           None \<Rightarrow> Received (- ENOMEM, buf, t, w)
         | Some p \<Rightarrow>
             (let rb = (if rb_mem rb = None then rb\<lparr>rb_mem := Some p, rb_mem_size := bufsize\<rparr> else rb);
                  buf = buf\<lparr>sb_buf := rb\<lparr>rb_size := bufsize\<rparr>, sb_flags := 0\<rparr>;
                  src = bufvec_of \<lparr>fb_size = of_nat n, fb_flags = FUSE_BUF_IS_FD, fb_mem = 0, fb_fd = lp_rd llp, fb_pos = 0, fb_mem_size = 0\<rparr>;
                  dst = bufvec_of \<lparr>fb_size = bufsize, fb_flags = 0, fb_mem = unat p, fb_fd = sb_fd buf, fb_pos = 0, fb_mem_size = rb_mem_size rb\<rparr>
              in case fuse_buf_copy (po_fd os) tmp False dst src 0 (ss_mo (rs_sp t)) of
                   None \<Rightarrow> RecvFault
                 | Some (res, _, _, mo) \<Rightarrow>
                     (let t = t\<lparr>rs_sp := (rs_sp t)\<lparr>ss_mo := mo\<rparr>\<rparr>; clear = t\<lparr>rs_sp := fuse_ll_clear_pipe os (rs_sp t)\<rparr>
                      in if res < 0 then Received (res, buf, clear, w)
                         else if nat res < n then Received (- EIO, buf, clear, w)
                         else if nat res \<noteq> n then RecvFault
                         else Received (res, buf\<lparr>sb_buf := (sb_buf buf)\<lparr>rb_size := of_nat n\<rparr>\<rparr>, t, w))))"

text \<open>What the other threads do while a call of \<^verbatim>\<open>splice\<close> waits for the device: whether they end the session, and the size of the buffers
  that they leave (the handling of INIT sets it). When the list is used up the call waits for ever.\<close>

type_synonym meanwhile = "(bool \<times> u64) list"

definition splice_recv_fallback :: "allocator \<Rightarrow> bool \<Rightarrow> device \<Rightarrow> splice_buf \<Rightarrow> 's recv_st \<Rightarrow> 'u fuse_world \<Rightarrow>
    (int \<times> splice_buf \<times> 's recv_st \<times> 'u fuse_world) recv" where
  "splice_recv_fallback al internal dev buf t w =
     (case fuse_session_receive_buf_common al internal dev (sb_buf buf) (rs_heap t) w of
        Received (res, rb, h, w) \<Rightarrow> Received (res, buf\<lparr>sb_buf := rb\<rparr>, t\<lparr>rs_heap := h\<rparr>, w)
      | RecvBlocked \<Rightarrow> RecvBlocked
      | RecvFault \<Rightarrow> RecvFault)"

fun receive_splice :: "'s pipe_os \<Rightarrow> nat \<Rightarrow> allocator \<Rightarrow> bool \<Rightarrow> device \<Rightarrow> meanwhile \<Rightarrow> splice_buf \<Rightarrow> 's recv_st \<Rightarrow> 'u fuse_world \<Rightarrow>
    (int \<times> splice_buf \<times> 's recv_st \<times> 'u fuse_world) recv" where
  "receive_splice os tmp al internal dev mw buf t w =
     (let bufsize = se_bufsize (se w)
      in if proto_minor (conn w) < 14 \<or> want_ext (conn w) AND FUSE_CAP_SPLICE_READ = 0 then splice_recv_fallback al internal dev buf t w
         else
           (case fuse_ll_get_pipe os (rs_sp t) w of
              (None, x, w) \<Rightarrow> splice_recv_fallback al internal dev buf (t\<lparr>rs_sp := x\<rparr>) w
            | (Some llp, x, w) \<Rightarrow>
                (case pipe_fits os llp bufsize x of
                   (False, x) \<Rightarrow> splice_recv_fallback al internal dev buf (t\<lparr>rs_sp := x\<rparr>) w
                 | (True, x) \<Rightarrow>
                     (case mw of
                        [] \<Rightarrow> RecvBlocked
                      | (ended, newsize) # mw \<Rightarrow>
                          (let (r, s) = os_dev_splice os (lp_wr llp) (unat bufsize) (ss_os x);
                               t = t\<lparr>rs_sp := with_os s x\<rparr>;
                               w = se_mod (\<lambda>e. e\<lparr>se_bufsize := newsize, se_mt_exited := se_mt_exited e \<or> ended\<rparr>) w
                           in if fuse_session_exited w \<noteq> 0 then Received (0, buf, t, w)
                              else
                                (case r of
                                   Inl err \<Rightarrow>
                                     if err = ENODEV then Received (0, buf, t, fuse_session_exit w)
                                     else if err = EINVAL \<and> bufsize < se_bufsize (se w) then
                                       receive_splice os tmp al internal dev mw buf (t\<lparr>rs_sp := fuse_ll_clear_pipe os (rs_sp t)\<rparr>) w
                                     else Received (- err, buf, t, w)
                                 | Inr n \<Rightarrow>
                                     if n < 40 then Received (- EIO, buf, t, w)
                                     else if n < 80 + unat pagesize then pipe_to_buf os tmp al internal llp bufsize n buf t w
                                     else Received (int n,
                                            buf\<lparr>sb_buf := (sb_buf buf)\<lparr>rb_size := of_nat n\<rparr>, sb_flags := FUSE_BUF_IS_FD, sb_fd := lp_rd llp\<rparr>, t, w)))))))"

declare receive_splice.simps [simp del]

section \<open>The device\<close>

text \<open>The request \<open>m\<close> is in the memory of the buffer, or the buffer names the pipe, which holds it.\<close>

definition in_memory :: "('s \<Rightarrow> int \<times> int \<Rightarrow> byte list option) \<Rightarrow> byte list \<Rightarrow> splice_buf \<Rightarrow> 's recv_st \<Rightarrow> bool" where
  "in_memory cont m buf t \<longleftrightarrow> sb_flags buf = 0 \<and> rb_size (sb_buf buf) = of_nat (length m) \<and> pipe_idle cont (rs_sp t) \<and>
     (\<exists>p. rb_mem (sb_buf buf) = Some p \<and> ld (mo_mem (ss_mo (rs_sp t))) (unat p) (length m) = Some m)"

definition in_pipe :: "('s \<Rightarrow> int \<times> int \<Rightarrow> byte list option) \<Rightarrow> byte list \<Rightarrow> splice_buf \<Rightarrow> 's recv_st \<Rightarrow> bool" where
  "in_pipe cont m buf t \<longleftrightarrow> sb_flags buf = FUSE_BUF_IS_FD \<and> rb_size (sb_buf buf) = of_nat (length m) \<and>
     (\<exists>llp. ss_pipe (rs_sp t) = Some llp \<and> sb_fd buf = lp_rd llp \<and> cont (ss_os (rs_sp t)) (lp_rd llp, lp_wr llp) = Some m)"

definition holds_request :: "('s \<Rightarrow> int \<times> int \<Rightarrow> byte list option) \<Rightarrow> byte list \<Rightarrow> splice_buf \<Rightarrow> 's recv_st \<Rightarrow> bool" where
  "holds_request cont m buf t \<longleftrightarrow> (if length m < 80 + unat pagesize then in_memory cont m buf t else in_pipe cont m buf t)"

text \<open>The outcome of a call that goes through the pipe: it waits, or it takes at most one request, the first that waits; with a positive
  result it has taken one, the result is its length, and the buffer has it.\<close>

definition takes_one :: "('s \<Rightarrow> int \<times> int \<Rightarrow> byte list option) \<Rightarrow> ('s \<Rightarrow> byte list list) \<Rightarrow> 's recv_st \<Rightarrow>
    (int \<times> splice_buf \<times> 's recv_st \<times> 'u fuse_world) recv \<Rightarrow> bool" where
  "takes_one cont waiting t r \<longleftrightarrow>
     (case r of
        RecvBlocked \<Rightarrow> True
      | RecvFault \<Rightarrow> False
      | Received (res, buf, t', _) \<Rightarrow>
          (res \<le> 0 \<and> waiting (ss_os (rs_sp t')) = waiting (ss_os (rs_sp t))) \<or>
          (\<exists>m. waiting (ss_os (rs_sp t)) = m # waiting (ss_os (rs_sp t')) \<and>
             (res \<le> 0 \<or> res = int (length m) \<and> 40 \<le> length m \<and> holds_request cont m buf t')))"

text \<open>A buffer that the caller brings has room for the requests that are copied; the sizes that the session gives to buffers are never below
  the minimum of the protocol.\<close>

definition room_ok :: "splice_buf \<Rightarrow> 's recv_st \<Rightarrow> bool" where
  "room_ok buf t \<longleftrightarrow>
     (\<forall>q. rb_mem (sb_buf buf) = Some q \<longrightarrow> (\<forall>a \<in> {unat q..<unat q + (80 + 4096)}. mo_mem (ss_mo (rs_sp t)) a \<noteq> None))"

definition size_ok :: "u64 \<Rightarrow> bool" where
  "size_ok sz \<longleftrightarrow> FUSE_MIN_READ_BUFFER \<le> sz \<and> unat sz < 2 ^ 62"

text \<open>Nothing is lost.\<close>

definition loses_none :: "('s \<Rightarrow> byte list list) \<Rightarrow> 's recv_st \<Rightarrow> (int \<times> splice_buf \<times> 's recv_st \<times> 'u fuse_world) recv \<Rightarrow> bool" where
  "loses_none waiting t r \<longleftrightarrow>
     (case r of Received (res, _, t', _) \<Rightarrow> waiting (ss_os (rs_sp t')) \<noteq> waiting (ss_os (rs_sp t)) \<longrightarrow> res > 0 | _ \<Rightarrow> True)"

text \<open>Everything goes well: the calls do all their work, there is memory, the device hands over whole requests and nobody ends the session.\<close>

definition goes_well :: "'s pipe_os \<Rightarrow> ('s \<Rightarrow> int \<times> int \<Rightarrow> byte list option) \<Rightarrow> ('s \<Rightarrow> byte list list) \<Rightarrow> allocator \<Rightarrow> meanwhile \<Rightarrow> 's recv_st \<Rightarrow> 'u fuse_world \<Rightarrow> bool" where
  "goes_well os cont waiting al mw t w \<longleftrightarrow> pipes_work os cont \<and> (\<forall>n sz. al n sz \<noteq> None) \<and> (\<forall>m \<in> set (waiting (ss_os (rs_sp t))). 40 \<le> length m) \<and>
     fuse_session_exited w = 0 \<and> (\<forall>e \<in> set mw. \<not> fst e)"

text \<open>The device has requests that wait, and a call hands over one of them as a whole. No other call takes one.\<close>

locale splice_device = pipes os cont
  for os :: "'s pipe_os" and cont :: "'s \<Rightarrow> int \<times> int \<Rightarrow> byte list option" +
  fixes waiting :: "'s \<Rightarrow> byte list list"
  assumes dev_gives: "os_dev_splice os (snd p) n s = (Inr k, s') \<Longrightarrow> cont s p = Some c \<Longrightarrow>
      \<exists>m. waiting s = m # waiting s' \<and> k = length m \<and> k \<le> n \<and> cont s' p = Some (c @ m)"
    and dev_fails: "os_dev_splice os fd n s = (Inl e, s') \<Longrightarrow> errno_ok e \<and> waiting s' = waiting s"
    and read_fails: "os_read (po_fd os) fd n pos s = (Inl e, s') \<Longrightarrow> errno_ok e"
    and waiting_keeps: "waiting (snd (os_pipe os s)) = waiting s" "os_pipe2 os = Some pipe2 \<Longrightarrow> waiting (snd (pipe2 s)) = waiting s"
      "waiting (snd (os_fcntl os fd cmd s)) = waiting s" "waiting (snd (os_open os path s)) = waiting s"
      "waiting (os_close os fd s) = waiting s" "waiting (snd (os_read (po_fd os) fd n pos s)) = waiting s"
begin

text \<open>One read from the pipe into a block.\<close>

lemma fuse_buf_read_once:
  assumes c: "cont (mo_os mo) p = Some m" and l: "unat len = length m" "length m < 2 ^ 62" "m \<noteq> []"
    and mp: "\<forall>a \<in> {q..<q + length m}. mo_mem mo a \<noteq> None"
    and src: "fb_fd src = fst p" "fb_flags src = FUSE_BUF_IS_FD" and dst: "fb_mem dst = q"
  obtains r mo' where "fuse_buf_read (po_fd os) dst 0 src 0 len mo = Some (r, mo')" "waiting (mo_os mo') = waiting (mo_os mo)"
    "r \<le> int (length m)" "r = int (length m) \<Longrightarrow> cont (mo_os mo') p = Some [] \<and> ld (mo_mem mo') q (length m) = Some m"
    "pipes_work os cont \<Longrightarrow> r = int (length m)"
proof -
  have f: "\<not> has_bits (fb_flags src) FUSE_BUF_FD_SEEK" "\<not> has_bits (fb_flags src) FUSE_BUF_FD_RETRY" by (simp_all add: src has_bits_def)
  have l0: "len \<noteq> 0" using l by auto
  obtain res s where q: "os_read (po_fd os) (fst p) (unat len) None (mo_os mo) = (res, s)" by fastforce
  have work: "\<exists>d. res = Inr d \<and> length d = length m" if "pipes_work os cont"
    using pipes_workD(3) [OF that c, of "length m"] q l(1) by auto
  have wt: "waiting s = waiting (mo_os mo)" using waiting_keeps(6) [of "fst p" "unat len" None "mo_os mo"] q by simp
  show thesis
  proof (cases res)
    case (Inl e)
    then have "fuse_buf_read (po_fd os) dst 0 src 0 len mo = Some (- e, mo\<lparr>mo_os := s\<rparr>)"
      using l0 q f src by (simp add: fuse_buf_read_def buf_read_loop.simps [of _ _ _ _ _ len])
    moreover have "- e < 0" using read_fails [OF q [unfolded Inl]] by (simp add: errno_ok_def)
    ultimately show thesis by (intro that [of "- e" "mo\<lparr>mo_os := s\<rparr>"]) (use wt l(3) work Inl in auto)
  next
    case (Inr d)
    have d: "length d \<le> length m" "d = take (length d) m" "cont s p = Some (drop (length d) m)"
      using reads [OF q [unfolded Inr] c] l(1) by simp_all
    have "\<forall>a \<in> {q..<q + length d}. mo_mem mo a \<noteq> None" using mp d(1) by auto
    then obtain m' where m': "st (mo_mem mo) q d = Some m'"
      "\<And>d2. ld (mo_mem mo) (q + length d) (length d2) = Some d2 \<Longrightarrow> ld m' q (length d + length d2) = Some (d @ d2)"
      by (rule st_in_front) blast
    have ldd: "ld m' q (length d) = Some d" using m'(2) [of "[]"] by (simp add: ld_def)
    have u: "unat (of_nat (length d) :: u64) = length d" using d(1) l(2) by (simp add: unat_of_nat take_bit_nat_eq_self)
    then have "unat (of_nat (length d) :: u64) < 2 ^ 63" using d(1) l(2) by simp
    then have "sint (of_nat (length d) :: u64) = int (length d)" by (simp only: sint_small uint_nat u)
    then have "fuse_buf_read (po_fd os) dst 0 src 0 len mo = Some (int (length d), mo\<lparr>mo_os := s, mo_mem := m'\<rparr>)"
      using l0 q f src dst m'(1) Inr by (simp add: fuse_buf_read_def buf_read_loop.simps [of _ _ _ _ _ len] Let_def)
    moreover have "length d = length m \<Longrightarrow> cont s p = Some [] \<and> ld m' q (length m) = Some m" using d(2,3) ldd by simp
    ultimately show thesis
      by (intro that [of "int (length d)" "mo\<lparr>mo_os := s, mo_mem := m'\<rparr>"]) (use wt d(1) work Inr in simp_all)
  qed
qed

text \<open>The copy of what is in the pipe into a larger block: a single read.\<close>

lemma copy_from_pipe:
  assumes c: "cont (mo_os mo) p = Some m" and l: "length m \<le> unat cap" "length m < 2 ^ 62" "m \<noteq> []"
    and mp: "\<forall>a \<in> {q..<q + length m}. mo_mem mo a \<noteq> None"
  obtains r dv sv mo' where
    "fuse_buf_copy (po_fd os) tmp False
       (bufvec_of \<lparr>fb_size = cap, fb_flags = 0, fb_mem = q, fb_fd = fd, fb_pos = 0, fb_mem_size = sz\<rparr>)
       (bufvec_of \<lparr>fb_size = of_nat (length m), fb_flags = FUSE_BUF_IS_FD, fb_mem = 0, fb_fd = fst p, fb_pos = 0, fb_mem_size = 0\<rparr>) 0 mo =
     Some (r, dv, sv, mo')"
    "waiting (mo_os mo') = waiting (mo_os mo)" "r \<le> int (length m)"
    "r = int (length m) \<Longrightarrow> cont (mo_os mo') p = Some [] \<and> ld (mo_mem mo') q (length m) = Some m"
    "pipes_work os cont \<Longrightarrow> r = int (length m)"
proof -
  let ?dst = "\<lparr>fb_size = cap, fb_flags = 0, fb_mem = q, fb_fd = fd, fb_pos = 0, fb_mem_size = sz\<rparr> :: nat fuse_buf"
  let ?src = "\<lparr>fb_size = of_nat (length m), fb_flags = FUSE_BUF_IS_FD, fb_mem = 0, fb_fd = fst p, fb_pos = 0, fb_mem_size = 0\<rparr> :: nat fuse_buf"
  have u: "unat (of_nat (length m) :: u64) = length m" using l(2) by (simp add: unat_of_nat take_bit_nat_eq_self)
  have mn: "min_size (of_nat (length m)) cap = of_nat (length m)" "min_size cap (of_nat (length m)) = of_nat (length m)"
    using l(1) by (auto simp: min_size_def word_less_nat_alt u intro!: unsigned_word_eqI)
  obtain r mo' where rd: "fuse_buf_read (po_fd os) ?dst 0 ?src 0 (of_nat (length m)) mo = Some (r, mo')"
    "waiting (mo_os mo') = waiting (mo_os mo)"
    "r \<le> int (length m)" "r = int (length m) \<Longrightarrow> cont (mo_os mo') p = Some [] \<and> ld (mo_mem mo') q (length m) = Some m"
    "pipes_work os cont \<Longrightarrow> r = int (length m)"
    using fuse_buf_read_once [OF c, of "of_nat (length m)" q ?src ?dst] u l mp by auto
  have one: "fuse_buf_copy_one (po_fd os) tmp ?dst 0 ?src 0 (of_nat (length m)) 0 mo = Some (r, mo')"
    using rd(1) by (simp add: fuse_buf_copy_one_def has_bits_def)
  let ?dv = "bufvec_of ?dst" let ?sv = "bufvec_of ?src"
  have cur: "fuse_bufvec_current ?sv = Some (Some ?src)" "fuse_bufvec_current ?dv = Some (Some ?dst)"
    by (simp_all add: fuse_bufvec_current_def bufvec_of_def)
  have off: "bv_off ?sv = 0" "bv_off ?dv = 0" by (simp_all add: bufvec_of_def)
  have copy: "fuse_buf_copy (po_fd os) tmp False ?dv ?sv 0 mo =
      (if r < 0 then Some (r, ?dv, ?sv, mo')
       else Option.bind (fuse_bufvec_advance ?sv (of_int r)) (\<lambda>(more, srcv).
         if \<not> more then Some (sint (of_int r :: u64), ?dv, srcv, mo')
         else Option.bind (fuse_bufvec_advance ?dv (of_int r)) (\<lambda>(more, dstv).
           if \<not> more then Some (sint (of_int r :: u64), dstv, srcv, mo')
           else if of_int r < (of_nat (length m) :: u64) then Some (sint (of_int r :: u64), dstv, srcv, mo')
           else buf_copy_loop (po_fd os) tmp dstv srcv 0 (of_int r) mo')))"
    using one by (simp add: fuse_buf_copy_def buf_copy_loop.simps [of _ _ ?dv ?sv] cur off mn Let_def)
  show thesis
  proof (cases "r < 0")
    case True
    then show thesis using that [of r ?dv ?sv mo'] copy rd(2-5) by simp
  next
    case False
    then obtain k where d: "r = int k" "k \<le> length m" using rd(3) by (metis nonneg_int_cases not_le of_nat_le_iff)
    have ud: "unat (of_nat k :: u64) = k" using d(2) l(2) by (simp add: unat_of_nat take_bit_nat_eq_self)
    then have "unat (of_nat k :: u64) < 2 ^ 63" using d(2) l(2) by simp
    then have sd: "sint (of_nat k :: u64) = int k" by (simp only: sint_small uint_nat ud)
    have le: "(of_nat k :: u64) \<le> of_nat (length m)" "(of_nat k :: u64) \<le> cap"
      using d(2) l(1) by (simp_all add: word_le_nat_alt ud u)
    have eq: "(of_nat k :: u64) = of_nat (length m) \<longleftrightarrow> k = length m"
      "(of_nat k :: u64) = cap \<Longrightarrow> k = length m" "(of_nat k :: u64) < of_nat (length m) \<longleftrightarrow> k < length m"
      using ud u d(2) l(1) by (metis, metis le_antisym, simp add: word_less_nat_alt)
    have "\<exists>dv sv. fuse_buf_copy (po_fd os) tmp False ?dv ?sv 0 mo = Some (int k, dv, sv, mo')"
    proof (cases "k = length m")
      case True
      then have "fuse_bufvec_advance ?sv (of_nat k) = Some (False, ?sv\<lparr>bv_off := of_nat k, bv_idx := 1\<rparr>)"
        by (simp add: fuse_bufvec_advance_def bufvec_of_def fuse_bufvec_current_def Let_def)
      then show ?thesis using copy d(1) sd by simp
    next
      case False
      then have "fuse_bufvec_advance ?sv (of_nat k) = Some (True, ?sv\<lparr>bv_off := of_nat k\<rparr>)"
        "fuse_bufvec_advance ?dv (of_nat k) = Some (True, ?dv\<lparr>bv_off := of_nat k\<rparr>)"
        using le eq(1,2) by (auto simp: fuse_bufvec_advance_def bufvec_of_def fuse_bufvec_current_def Let_def)
      then show ?thesis using copy d(1,2) sd eq(3) False by simp
    qed
    then obtain dv sv where "fuse_buf_copy (po_fd os) tmp False ?dv ?sv 0 mo = Some (r, dv, sv, mo')" using d(1) by auto
    then show thesis using that rd(2-5) by blast
  qed
qed

text \<open>No call but that of the device takes a request.\<close>

lemma clear_pipe_waits [simp]: "waiting (ss_os (fuse_ll_clear_pipe os x)) = waiting (ss_os x)"
  by (simp add: fuse_ll_clear_pipe_def fuse_ll_pipe_free_def waiting_keeps split: option.splits)

lemma clear_pipe_mem [simp]: "mo_mem (ss_mo (fuse_ll_clear_pipe os x)) = mo_mem (ss_mo x)"
  by (simp add: fuse_ll_clear_pipe_def fuse_ll_pipe_free_def split: option.splits)

lemma fcntls_waits: "waiting (snd (fcntls os cs s)) = waiting s"
proof (induction cs arbitrary: s)
  case (Cons c cs)
  obtain fd cmd where c: "c = (fd, cmd)" by fastforce
  obtain r t where f: "os_fcntl os fd cmd s = (r, t)" by fastforce
  then have "waiting t = waiting s" using waiting_keeps(3) [of fd cmd s] by simp
  then show ?case using Cons.IH [of t] f by (cases r) (simp_all add: c)
qed simp

lemma fuse_pipe_waits: "waiting (snd (fuse_pipe os s)) = waiting s"
proof (cases "os_pipe2 os")
  case None
  obtain r t where p: "os_pipe os s = (r, t)" by fastforce
  then have t: "waiting t = waiting s" using waiting_keeps(1) [of s] by simp
  show ?thesis
  proof (cases r)
    case (Inr q)
    obtain e u where f: "fcntls os [(fst q, F_SETFL_NONBLOCK), (snd q, F_SETFL_NONBLOCK), (fst q, F_SETFD_CLOEXEC), (snd q, F_SETFD_CLOEXEC)] t = (e, u)"
      by fastforce
    then have "waiting u = waiting t" by (metis fcntls_waits snd_conv)
    then show ?thesis using None p Inr f t by (cases q; cases e) (simp_all add: fuse_pipe_def waiting_keeps)
  qed (simp add: fuse_pipe_def None p t)
qed (simp add: fuse_pipe_def waiting_keeps)

lemma get_pipe_waits:
  assumes "fuse_ll_get_pipe os x w = (r, x', w')"
  shows "waiting (ss_os x') = waiting (ss_os x)"
proof -
  obtain q s where "fuse_pipe os (ss_os x) = (q, s)" by fastforce
  then show ?thesis using assms fuse_pipe_waits [of "ss_os x"]
    by (auto simp: fuse_ll_get_pipe_def Let_def split: option.splits prod.splits if_splits sum.splits)
qed

lemma grow_waits: "waiting (snd (grow_pipe_to_max os fd s)) = waiting s"
proof -
  obtain r t where o: "os_open os ''/proc/sys/fs/pipe-max-size'' s = (r, t)" by fastforce
  then have t: "waiting t = waiting s" using waiting_keeps(4) [of "''/proc/sys/fs/pipe-max-size''" s] by simp
  show ?thesis
  proof (cases r)
    case (Inr mfd)
    obtain q u where rd: "os_read (po_fd os) mfd 31 None t = (q, u)" by fastforce
    then have u: "waiting u = waiting t" using waiting_keeps(6) [of mfd 31 None t] by simp
    have f: "waiting (snd (os_fcntl os fd cmd (os_close os mfd u))) = waiting s" for cmd using u t by (simp add: waiting_keeps)
    then have f': "os_fcntl os fd cmd (os_close os mfd u) = (x, v) \<Longrightarrow> waiting v = waiting s" for cmd x v by (metis snd_conv)
    show ?thesis using o Inr rd u t f'
      by (auto simp: grow_pipe_to_max_def Let_def waiting_keeps split: sum.splits prod.splits)
  qed (simp add: grow_pipe_to_max_def o t)
qed

lemma pipe_fits_waits:
  assumes "pipe_fits os llp n x = (b, x')"
  shows "waiting (ss_os x') = waiting (ss_os x)"
proof -
  obtain r t where f: "os_fcntl os (lp_rd llp) (F_SETPIPE_SZ (uint n)) (ss_os x) = (r, t)" by fastforce
  then have t: "waiting t = waiting (ss_os x)" using waiting_keeps(3) [of "lp_rd llp" "F_SETPIPE_SZ (uint n)" "ss_os x"] by simp
  obtain q u where g: "grow_pipe_to_max os (lp_rd llp) t = (q, u)" by fastforce
  then have "waiting u = waiting t" using grow_waits [of "lp_rd llp" t] by simp
  then show ?thesis using assms f g t by (auto simp: pipe_fits_def Let_def split: if_splits sum.splits)
qed

text \<open>A request that is in the pipe, into memory.\<close>

lemma block_room_enough:
  assumes "8192 \<le> unat sz" and "unat sz < 2 ^ 62"
  shows "80 + 4096 \<le> block_room sz internal"
proof -
  have "unat (sz + write_header_sz) = unat sz + 80" using assms(2) by (simp add: unat_word_ariths)
  then have "unat (ROUND_UP (sz + write_header_sz) pagesize) = (unat sz + 80 + 4095) div 4096 * 4096"
    using unat_ROUND_UP [of "sz + write_header_sz"] assms(2) by simp
  moreover have "2 \<le> (unat sz + 80 + 4095) div 4096" using assms(1) by linarith
  ultimately have "8192 \<le> unat (ROUND_UP (sz + write_header_sz) pagesize)" by linarith
  then have "4176 \<le> unat (ROUND_UP (sz + write_header_sz) pagesize) - 4016" by linarith
  then show ?thesis using assms(1) by (simp add: block_room_def)
qed

lemma pipe_to_buf_result:
  assumes p: "ss_pipe (rs_sp t) = Some l" "cont (ss_os (rs_sp t)) (lp_rd llp, lp_wr llp) = Some m"
    and l: "lp_rd l = lp_rd llp" "lp_wr l = lp_wr llp" and m: "40 \<le> length m" "length m < 80 + 4096" and sz: "8192 \<le> unat bufsize" "unat bufsize < 2 ^ 62"
    and mem: "\<forall>q. rb_mem (sb_buf buf) = Some q \<longrightarrow> (\<forall>a \<in> {unat q..<unat q + 4176}. mo_mem (ss_mo (rs_sp t)) a \<noteq> None)"
  obtains res buf' t' where "pipe_to_buf os tmp al internal llp bufsize (length m) buf t w = Received (res, buf', t', w)"
    "waiting (ss_os (rs_sp t')) = waiting (ss_os (rs_sp t))" "res < 0 \<or> res = int (length m) \<and> in_memory cont m buf' t'"
    "pipes_work os cont \<Longrightarrow> \<forall>n sz. al n sz \<noteq> None \<Longrightarrow> res = int (length m)"
proof -
  let ?x = "rs_sp t" let ?p = "(lp_rd llp, lp_wr llp)"
  define rb where "rb = sb_buf buf"
  define copy where "copy = (\<lambda>(q :: u64) rb (t :: 's recv_st). (let buf = buf\<lparr>sb_buf := rb\<lparr>rb_size := bufsize\<rparr>, sb_flags := 0\<rparr>;
      src = bufvec_of \<lparr>fb_size = of_nat (length m), fb_flags = FUSE_BUF_IS_FD, fb_mem = 0, fb_fd = lp_rd llp, fb_pos = 0, fb_mem_size = 0\<rparr>;
      dst = bufvec_of \<lparr>fb_size = bufsize, fb_flags = 0, fb_mem = unat q, fb_fd = sb_fd buf, fb_pos = 0, fb_mem_size = rb_mem_size rb\<rparr>
    in case fuse_buf_copy (po_fd os) tmp False dst src 0 (ss_mo (rs_sp t)) of
         None \<Rightarrow> RecvFault
       | Some (res, _, _, mo) \<Rightarrow>
           (let t = t\<lparr>rs_sp := (rs_sp t)\<lparr>ss_mo := mo\<rparr>\<rparr>; clear = t\<lparr>rs_sp := fuse_ll_clear_pipe os (rs_sp t)\<rparr>
            in if res < 0 then Received (res, buf, clear, w)
               else if nat res < length m then Received (- EIO, buf, clear, w)
               else if nat res \<noteq> length m then RecvFault
               else Received (res, buf\<lparr>sb_buf := (sb_buf buf)\<lparr>rb_size := of_nat (length m)\<rparr>\<rparr>, t, w))))"
  have copied: "\<exists>res buf' t'. copy q rb t = Received (res, buf', t', w) \<and> waiting (ss_os (rs_sp t')) = waiting (ss_os (rs_sp t)) \<and>
      (res < 0 \<or> res = int (length m) \<and> in_memory cont m buf' t') \<and> (pipes_work os cont \<longrightarrow> res = int (length m))"
    if t: "ss_pipe (rs_sp t) = Some l" "cont (ss_os (rs_sp t)) ?p = Some m" and q: "rb_mem rb = Some q"
      and mp: "\<forall>a \<in> {unat q..<unat q + 4176}. mo_mem (ss_mo (rs_sp t)) a \<noteq> None" for q rb t
  proof -
    have mp': "\<forall>a \<in> {unat q..<unat q + length m}. mo_mem (ss_mo (rs_sp t)) a \<noteq> None" using mp m(2) by auto
    have le: "length m \<le> unat bufsize" "length m < 2 ^ 62" "m \<noteq> []" using m sz(1) by auto
    obtain r dv sv mo where r:
      "fuse_buf_copy (po_fd os) tmp False (bufvec_of \<lparr>fb_size = bufsize, fb_flags = 0, fb_mem = unat q, fb_fd = sb_fd buf, fb_pos = 0, fb_mem_size = rb_mem_size rb\<rparr>)
         (bufvec_of \<lparr>fb_size = of_nat (length m), fb_flags = FUSE_BUF_IS_FD, fb_mem = 0, fb_fd = lp_rd llp, fb_pos = 0, fb_mem_size = 0\<rparr>) 0
         (ss_mo (rs_sp t)) = Some (r, dv, sv, mo)"
      "waiting (mo_os mo) = waiting (ss_os (rs_sp t))" "r \<le> int (length m)"
      "r = int (length m) \<Longrightarrow> cont (mo_os mo) ?p = Some [] \<and> ld (mo_mem mo) (unat q) (length m) = Some m"
      "pipes_work os cont \<Longrightarrow> r = int (length m)"
      by (rule copy_from_pipe [OF t(2) le mp', of tmp "sb_fd buf" "rb_mem_size rb", unfolded fst_conv]) (rule that)
    consider "r < 0" | "0 \<le> r" "nat r < length m" | "r = int (length m)" using r(3) by linarith
    then show ?thesis
    proof cases
      case 3
      then have c: "cont (mo_os mo) ?p = Some []" "ld (mo_mem mo) (unat q) (length m) = Some m" using r(4) by auto
      show ?thesis using r(2) 3 c t(1) q l by (simp add: copy_def r(1) Let_def in_memory_def pipe_idle_def)
    qed (use r(2,5) in \<open>auto simp: copy_def r(1) Let_def\<close>)
  qed
  show thesis
  proof (cases "rb_mem rb")
    case (Some q)
    have eq: "pipe_to_buf os tmp al internal llp bufsize (length m) buf t w = copy q rb t"
      using Some by (simp add: pipe_to_buf_def copy_def rb_def Let_def)
    show thesis using copied [OF p Some] mem Some that unfolding eq rb_def by blast
  next
    case None
    obtain r h where a: "buf_alloc al bufsize internal (rs_heap t) = (r, h)" by fastforce
    show thesis
    proof (cases r)
      case None
      then have "\<not> (\<forall>n sz. al n sz \<noteq> None)" using a by (auto simp: buf_alloc_def heap_alloc_def Let_def split: if_splits option.splits)
      then show thesis
        by (intro that [of "- ENOMEM" buf "t\<lparr>rs_heap := h\<rparr>"]) (use \<open>rb_mem rb = None\<close> a None in \<open>simp_all add: pipe_to_buf_def rb_def Let_def\<close>)
    next
      case (Some q)
      let ?t = "t\<lparr>rs_heap := h, rs_sp := (rs_sp t)\<lparr>ss_mo := with_block (unat q) (block_room bufsize internal) w (ss_mo (rs_sp t))\<rparr>\<rparr>"
      let ?rb = "rb\<lparr>rb_mem := Some q, rb_mem_size := bufsize\<rparr>"
      have eq: "pipe_to_buf os tmp al internal llp bufsize (length m) buf t w = copy q ?rb ?t"
        using \<open>rb_mem rb = None\<close> a Some by (simp add: pipe_to_buf_def copy_def rb_def Let_def)
      have "\<forall>a \<in> {unat q..<unat q + 4176}. mo_mem (ss_mo (rs_sp ?t)) a \<noteq> None"
        using block_room_enough [OF sz, of internal] by (auto simp: with_block_def map_block_def)
      moreover have "ss_os (rs_sp ?t) = ss_os (rs_sp t)" by (simp add: with_block_def)
      ultimately show thesis using copied [of ?t ?rb q] p that unfolding eq by auto
    qed
  qed
qed

text \<open>The call as a whole.\<close>

definition outcome :: "allocator \<Rightarrow> bool \<Rightarrow> device \<Rightarrow> meanwhile \<Rightarrow> splice_buf \<Rightarrow> 's recv_st \<Rightarrow> 'u fuse_world \<Rightarrow>
    (int \<times> splice_buf \<times> 's recv_st \<times> 'u fuse_world) recv \<Rightarrow> bool" where
  "outcome al internal dev mw buf t w r \<longleftrightarrow>
     (\<exists>t0 w0. r = splice_recv_fallback al internal dev buf t0 w0 \<and> waiting (ss_os (rs_sp t0)) = waiting (ss_os (rs_sp t)) \<and> pipe_idle cont (rs_sp t0)) \<or>
     takes_one cont waiting t r \<and> (goes_well os cont waiting al mw t w \<longrightarrow> loses_none waiting t r)"

lemma request_in_pipe:
  fixes w :: "'u fuse_world" and al :: allocator and internal :: bool and tmp :: nat
  assumes p: "ss_pipe (rs_sp t) = Some l" "cont (ss_os (rs_sp t)) (lp_rd llp, lp_wr llp) = Some m" "lp_rd l = lp_rd llp" "lp_wr l = lp_wr llp"
    and sz: "size_ok bufsize" and rm: "room_ok buf t"
  defines "r \<equiv> (if length m < 40 then Received (- EIO, buf, t, w)
     else if length m < 80 + unat pagesize then pipe_to_buf os tmp al internal llp bufsize (length m) buf t w
     else Received (int (length m), buf\<lparr>sb_buf := (sb_buf buf)\<lparr>rb_size := of_nat (length m)\<rparr>, sb_flags := FUSE_BUF_IS_FD, sb_fd := lp_rd llp\<rparr>, t, w))"
  shows "\<exists>res buf' t'. r = Received (res, buf', t', w) \<and> waiting (ss_os (rs_sp t')) = waiting (ss_os (rs_sp t)) \<and>
    (res \<le> 0 \<or> res = int (length m) \<and> 40 \<le> length m \<and> holds_request cont m buf' t') \<and>
    (pipes_work os cont \<and> (\<forall>n sz. al n sz \<noteq> None) \<and> 40 \<le> length m \<longrightarrow> res > 0)"
proof -
  consider (short) "length m < 40" | (copied) "40 \<le> length m" "length m < 80 + 4096" | (long) "80 + 4096 \<le> length m" by linarith
  then show ?thesis
  proof cases
    case copied
    have sz': "8192 \<le> unat bufsize" "unat bufsize < 2 ^ 62" using sz by (simp_all add: size_ok_def word_le_nat_alt)
    have mem: "\<forall>q. rb_mem (sb_buf buf) = Some q \<longrightarrow> (\<forall>a \<in> {unat q..<unat q + 4176}. mo_mem (ss_mo (rs_sp t)) a \<noteq> None)"
      using rm by (simp add: room_ok_def)
    obtain res buf' t' where "pipe_to_buf os tmp al internal llp bufsize (length m) buf t w = Received (res, buf', t', w)"
      "waiting (ss_os (rs_sp t')) = waiting (ss_os (rs_sp t))" "res < 0 \<or> res = int (length m) \<and> in_memory cont m buf' t'"
      "pipes_work os cont \<Longrightarrow> \<forall>n sz. al n sz \<noteq> None \<Longrightarrow> res = int (length m)"
      by (rule pipe_to_buf_result [OF p copied sz' mem]) (rule that)
    then show ?thesis using copied by (auto simp: r_def holds_request_def)
  next
    case long
    then show ?thesis using p by (auto simp: r_def holds_request_def in_pipe_def)
  qed (simp add: r_def)
qed

lemma outcome_before:
  assumes "outcome al internal dev mw buf t' w' r" and "waiting (ss_os (rs_sp t')) = waiting (ss_os (rs_sp t))"
    and "goes_well os cont waiting al (e # mw) t w \<Longrightarrow> fuse_session_exited w' = 0"
  shows "outcome al internal dev (e # mw) buf t w r"
proof -
  have "takes_one cont waiting t' r = takes_one cont waiting t r" "loses_none waiting t' r = loses_none waiting t r"
    by (simp_all only: takes_one_def loses_none_def assms(2))
  moreover have "goes_well os cont waiting al mw t' w'" if "goes_well os cont waiting al (e # mw) t w" using that assms(2,3) by (simp add: goes_well_def)
  ultimately show ?thesis using assms(1,2) unfolding outcome_def by metis
qed

text \<open>What the device answers, with \<open>R\<close> the result of the retry.\<close>

lemma device_answers:
  fixes w :: "'u fuse_world"
  assumes z: "ss_pipe z = Some l" "lp_rd l = lp_rd llp" "lp_wr l = lp_wr llp" "pipe_idle cont z" "waiting (ss_os z) = waiting (ss_os (rs_sp t))"
      "mo_mem (ss_mo z) = mo_mem (ss_mo (rs_sp t))"
    and sz: "size_ok bufsize" and rm: "room_ok buf t" and d: "os_dev_splice os (lp_wr llp) (unat bufsize) (ss_os z) = (q, s)"
    and ex: "goes_well os cont waiting al (e # mw) t w \<Longrightarrow> fuse_session_exited v = 0"
  defines "t1 \<equiv> t\<lparr>rs_sp := with_os s z\<rparr>"
  assumes retry: "isl q \<Longrightarrow> fuse_session_exited v = 0 \<Longrightarrow> outcome al internal dev mw buf (t1\<lparr>rs_sp := fuse_ll_clear_pipe os (rs_sp t1)\<rparr>) v R"
  shows "outcome al internal dev (e # mw) buf t w
     (if fuse_session_exited v \<noteq> 0 then Received (0, buf, t1, v)
      else
        (case q of
           Inl err \<Rightarrow>
             if err = ENODEV then Received (0, buf, t1, fuse_session_exit v)
             else if err = EINVAL \<and> bufsize < se_bufsize (se v) then R
             else Received (- err, buf, t1, v)
         | Inr n \<Rightarrow>
             if n < 40 then Received (- EIO, buf, t1, v)
             else if n < 80 + unat pagesize then pipe_to_buf os tmp al internal llp bufsize n buf t1 v
             else Received (int n,
                    buf\<lparr>sb_buf := (sb_buf buf)\<lparr>rb_size := of_nat n\<rparr>, sb_flags := FUSE_BUF_IS_FD, sb_fd := lp_rd llp\<rparr>, t1, v)))"
proof (cases q)
  case (Inl err)
  have k: "errno_ok err" "waiting s = waiting (ss_os z)" using dev_fails [OF d [unfolded Inl]] by auto
  have stays: "outcome al internal dev (e # mw) buf t w (Received (r, buf, t1, u))" if "r \<le> 0" for r and u :: "'u fuse_world"
    using that k(2) z(5) by (simp add: outcome_def takes_one_def loses_none_def t1_def)
  have again: "outcome al internal dev (e # mw) buf t w R" if "fuse_session_exited v = 0"
    by (rule outcome_before [OF retry]) (use that ex Inl k(2) z(5) in \<open>simp_all add: t1_def\<close>)
  show ?thesis using k(1) by (simp add: Inl stays again errno_ok_def)
next
  case (Inr n)
  have "cont (ss_os z) (lp_rd llp, lp_wr llp) = Some []" using z(1-4) by (auto simp: pipe_idle_def)
  from dev_gives [of "(lp_rd llp, lp_wr llp)", unfolded snd_conv, OF d [unfolded Inr] this]
  obtain m where m: "waiting (ss_os z) = m # waiting s" "n = length m" "cont s (lp_rd llp, lp_wr llp) = Some m" by auto
  have rm1: "room_ok buf t1" using rm z(6) by (simp add: room_ok_def t1_def)
  have c1: "cont (ss_os (rs_sp t1)) (lp_rd llp, lp_wr llp) = Some m" and p1: "ss_pipe (rs_sp t1) = Some l" using m(3) z(1) by (simp_all add: t1_def)
  have w1: "waiting (ss_os (rs_sp t)) = m # waiting (ss_os (rs_sp t1))" using m(1) z(5) by (simp add: t1_def)
  show ?thesis
  proof (cases "fuse_session_exited v = 0")
    case True
    obtain res buf' t' where r: "(if length m < 40 then Received (- EIO, buf, t1, v)
       else if length m < 80 + unat pagesize then pipe_to_buf os tmp al internal llp bufsize (length m) buf t1 v
       else Received (int (length m), buf\<lparr>sb_buf := (sb_buf buf)\<lparr>rb_size := of_nat (length m)\<rparr>, sb_flags := FUSE_BUF_IS_FD, sb_fd := lp_rd llp\<rparr>, t1, v)) =
       Received (res, buf', t', v)" and w': "waiting (ss_os (rs_sp t')) = waiting (ss_os (rs_sp t1))"
      "res \<le> 0 \<or> res = int (length m) \<and> 40 \<le> length m \<and> holds_request cont m buf' t'"
      "pipes_work os cont \<and> (\<forall>n sz. al n sz \<noteq> None) \<and> 40 \<le> length m \<longrightarrow> res > 0"
      using request_in_pipe [OF p1 c1 z(2,3) sz rm1, of v tmp al internal] by blast
    have "takes_one cont waiting t (Received (res, buf', t', v))" using w' w1 by (simp add: takes_one_def)
    moreover have "loses_none waiting t (Received (res, buf', t', v))" if "goes_well os cont waiting al (e # mw) t w"
      using that w'(3) w1 by (simp add: loses_none_def goes_well_def)
    ultimately show ?thesis using True Inr m(2) r by (simp add: outcome_def)
  next
    case False
    then show ?thesis using ex w1 by (auto simp: outcome_def takes_one_def)
  qed
qed

lemma receive_splice_takes:
  fixes w :: "'u fuse_world"
  assumes "pipe_idle cont (rs_sp t)" and "room_ok buf t" and "size_ok (se_bufsize (se w))" and "\<forall>e \<in> set mw. size_ok (snd e)"
  shows "outcome al internal dev mw buf t w (receive_splice os tmp al internal dev mw buf t w)"
  using assms
proof (induction mw arbitrary: t w rule: length_induct)
  case (1 mw)
  note IH = 1(1) [rule_format] and i = 1(2) and rm = 1(3) and sz = 1(4) and szs = 1(5)
  let ?R = "receive_splice os tmp al internal dev mw buf t w" let ?n = "se_bufsize (se w)"
  have fb: "outcome al internal dev mw buf t w ?R" if "?R = splice_recv_fallback al internal dev buf (t\<lparr>rs_sp := x\<rparr>) v"
    "waiting (ss_os x) = waiting (ss_os (rs_sp t))" "pipe_idle cont x" for x v
    using that unfolding outcome_def by (intro disjI1 exI [of _ "t\<lparr>rs_sp := x\<rparr>"] exI [of _ v]) simp
  show ?case
  proof (cases "proto_minor (conn w) < 14 \<or> want_ext (conn w) AND FUSE_CAP_SPLICE_READ = 0")
    case True
    then show ?thesis using fb [of "rs_sp t" w] i by (simp add: receive_splice.simps [of _ _ _ _ _ mw] Let_def)
  next
    case guard: False
    obtain p y v where g: "fuse_ll_get_pipe os (rs_sp t) w = (p, y, v)" by (metis prod_cases3)
    note gp = get_pipe [OF i g] get_pipe_waits [OF g]
    show ?thesis
    proof (cases p)
      case None
      then show ?thesis using fb [of y v] gp guard g by (simp add: receive_splice.simps [of _ _ _ _ _ mw] Let_def)
    next
      case (Some llp)
      obtain fits z where pf: "pipe_fits os llp ?n y = (fits, z)" by fastforce
      note z = pipe_fits_keeps [OF gp(1) gp(2) [OF Some] pf] pipe_fits_waits [OF pf]
      show ?thesis
      proof (cases fits)
        case False
        then show ?thesis using fb [of z v] gp z guard g pf Some by (simp add: receive_splice.simps [of _ _ _ _ _ mw] Let_def)
      next
        case fits: True
        obtain l where l: "ss_pipe z = Some l" "lp_rd l = lp_rd llp" "lp_wr l = lp_wr llp" using z(2) by blast
        show ?thesis
        proof (cases mw)
          case Nil
          then show ?thesis using guard g pf Some fits
            by (simp add: receive_splice.simps [of _ _ _ _ _ "[]"] Let_def outcome_def takes_one_def loses_none_def)
        next
          case (Cons e mw')
          obtain ended ns where e: "e = (ended, ns)" by fastforce
          obtain q s where d: "os_dev_splice os (lp_wr llp) (unat ?n) (ss_os z) = (q, s)" by fastforce
          define u where "u = se_mod (\<lambda>e. e\<lparr>se_bufsize := ns, se_mt_exited := se_mt_exited e \<or> ended\<rparr>) v"
          let ?t1 = "t\<lparr>rs_sp := with_os s z\<rparr>" let ?t2 = "?t1\<lparr>rs_sp := fuse_ll_clear_pipe os (rs_sp ?t1)\<rparr>"
          have mm: "mo_mem (ss_mo z) = mo_mem (ss_mo (rs_sp t))" using z(3) gp(3) by simp
          have ex: "fuse_session_exited u = 0" if "goes_well os cont waiting al (e # mw') t w"
            using that gp(4) by (auto simp: goes_well_def e u_def se_mod_def fuse_session_exited_def split: if_splits)
          have "outcome al internal dev mw' buf ?t2 u (receive_splice os tmp al internal dev mw' buf ?t2 u)"
            using IH [of mw' ?t2 u] rm szs mm by (simp add: Cons e u_def se_mod_def room_ok_def)
          note da = device_answers [where tmp = tmp, OF l z(1) _ mm sz rm d ex this]
          have "waiting (ss_os z) = waiting (ss_os (rs_sp t))" using z(4) gp(5) by simp
          note da = da [OF this]
          show ?thesis using da guard g pf Some fits d
            by (simp only: Cons e receive_splice.simps [of _ _ _ _ _ "_ # _"] Let_def u_def if_False prod.case option.case list.case bool.case)
        qed
      qed
    qed
  qed
qed

end

section \<open>Requests in pipes\<close>

interpretation ref_device: splice_device "ref_pipe_os room" ref_cont rp_waiting
  by unfold_locales (auto simp: ref_pipe_os_def ref_cont_def ref_put_def ref_read_def errno_ok_def split: option.splits if_splits list.splits)

section \<open>Properties\<close>

text \<open>\<^bold>\<open>C28\<close> Receiving through a pipe takes one request whole: on any system whose pipes are queues and whose device hands over one request at
  a time, the call either receives through memory, with no request taken from the device by \<^verbatim>\<open>splice\<close>, or it takes at most one, the
  first that waits. If the result is positive it is the length of that request, which the buffer has: in its memory, with its size, and the
  pipe empty again, if it is short, and otherwise in the pipe that the buffer names. If calls do all their work, there is memory, and nobody ends
  the session, no request is lost. A retry after INIT has made the buffers larger starts again with nothing taken.\<close>

theorem spliced_request_received:
  fixes w :: "'u fuse_world" and al :: allocator and internal :: bool and dev :: device and tmp :: nat
  assumes "splice_device os cont waiting" and "pipe_idle cont (rs_sp t)" and "room_ok buf t"
    and "size_ok (se_bufsize (se w))" and "\<forall>e \<in> set mw. size_ok (snd e)"
  defines "r \<equiv> receive_splice os tmp al internal dev mw buf t w"
  shows "(\<exists>t0 w0. r = splice_recv_fallback al internal dev buf t0 w0 \<and> waiting (ss_os (rs_sp t0)) = waiting (ss_os (rs_sp t)) \<and>
      pipe_idle cont (rs_sp t0)) \<or>
    takes_one cont waiting t r \<and> (goes_well os cont waiting al mw t w \<longrightarrow> loses_none waiting t r)"
  using splice_device.receive_splice_takes [OF assms(1-5), of al internal dev tmp] unfolding splice_device.outcome_def [OF assms(1)] r_def .

text \<open>A WRITE request of 5000 bytes stays in the pipe.\<close>

theorem spliced_request_received_witness:
  defines "m \<equiv> replicate 5000 7"
  defines "x \<equiv> \<lparr>ss_mo = \<lparr>mo_mem = \<lambda>a. Some 0, mo_os = \<lparr>rp_pipes = [3 \<mapsto> []], rp_next = 5, rp_waiting = [m]\<rparr>\<rparr>,
     ss_pipe = Some \<lparr>lp_size = 135168, lp_can_grow = True, lp_rd = 3, lp_wr = 4\<rparr>, ss_broken = False\<rparr>"
  defines "t \<equiv> \<lparr>rs_heap = \<lparr>hp_calls = 0, hp_live = []\<rparr>, rs_sp = x\<rparr>"
  defines "buf \<equiv> \<lparr>sb_buf = \<lparr>rb_mem = Some 10000, rb_mem_size = 135168, rb_size = 0\<rparr>, sb_flags = 0, sb_fd = 0\<rparr>"
  defines "w \<equiv> conn_mod (\<lambda>c. c\<lparr>want_ext := FUSE_CAP_SPLICE_READ\<rparr>) (se_mod (\<lambda>e. e\<lparr>se_bufsize := 135168\<rparr>) demo_world)"
  shows "\<exists>buf' t' w'. receive_splice (ref_pipe_os 65536) 0 (\<lambda>_ _. None) True [] [(False, 135168)] buf t w = Received (5000, buf', t', w') \<and>
    rp_waiting (ss_os (rs_sp t')) = [] \<and> in_pipe ref_cont m buf' t'"
proof -
  let ?r = "receive_splice (ref_pipe_os 65536) 0 (\<lambda>_ _. None) True [] [(False, 135168)] buf t w"
  have w: "proto_minor (conn w) = 31" "want_ext (conn w) = FUSE_CAP_SPLICE_READ" "fuse_session_exited w = 0"
      "se_bufsize (se w) = 135168"
    by (simp_all add: w_def conn_mod_def se_mod_def demo_world_simps demo_platform_def)
      (simp_all add: demo_world_def fuse_session_new_versioned_def demo_platform_def zero_session_def zero_conn_info_def Let_def fuse_session_exited_def)
  let ?os = "ref_pipe_os 65536" let ?l = "\<lparr>lp_size = 135168, lp_can_grow = True, lp_rd = 3, lp_wr = 4\<rparr> :: fuse_ll_pipe"
  have g: "fuse_ll_get_pipe ?os x w = (Some ?l, x, w)" "pipe_fits ?os ?l 135168 x = (True, x)"
    by (simp_all add: fuse_ll_get_pipe_def x_def pipe_fits_def)
  have d: "os_dev_splice ?os 4 135168 (ss_os x) = (Inr 5000, \<lparr>rp_pipes = [3 \<mapsto> m], rp_next = 5, rp_waiting = []\<rparr>)"
    by (simp add: ref_pipe_os_def x_def ref_put_def m_def)
  define w' where "w' = se_mod (\<lambda>e. e\<lparr>se_bufsize := 135168, se_mt_exited := se_mt_exited e \<or> False\<rparr>) w"
  have "fuse_session_exited w' = 0" using w(3) by (simp add: w'_def se_mod_def fuse_session_exited_def split: if_splits)
  note e = this [unfolded w'_def, simplified]
  have "\<exists>buf' t' w'. ?r = Received (5000, buf', t', w') \<and> rp_waiting (ss_os (rs_sp t')) = []"
    by (simp add: receive_splice.simps w(1,2,4) t_def g d e Let_def)
  then obtain buf' t' w' where r: "?r = Received (5000, buf', t', w')" "rp_waiting (ss_os (rs_sp t')) = []" by blast
  have fb: "splice_recv_fallback (\<lambda>_ _. None) True [] buf t0 w0 = RecvBlocked" for t0 :: "ref_pipes recv_st" and w0 :: "unit fuse_world"
    by (simp add: splice_recv_fallback_def fuse_session_receive_buf_common_def buf_def)
  have "pipe_idle ref_cont (rs_sp t)" "room_ok buf t" "size_ok (se_bufsize (se w))" "\<forall>e \<in> set [(False, 135168 :: u64)]. size_ok (snd e)"
    by (simp_all add: pipe_idle_def t_def x_def ref_cont_def room_ok_def size_ok_def w(4))
  then have "takes_one ref_cont rp_waiting t ?r"
    using r(1) fb
      spliced_request_received [OF ref_device.splice_device_axioms [of 65536], where t = t and buf = buf and w = w and mw = "[(False, 135168)]" and
        al = "\<lambda>_ _. None" and internal = True and dev = "[]" and tmp = 0] by auto
  then have "holds_request ref_cont m buf' t'" unfolding r(1) takes_one_def by (simp add: t_def x_def r(2))
  then show ?thesis using r by (simp add: holds_request_def m_def)
qed

end
