(* ===== verification/Posix_Driver.thy ===== *)
theory Posix_Driver
  imports Fuse_Tree
begin

text \<open>
  The POSIX interface that the test programs call, and what they rely on: the virtual file system of Unikraft, which
  turns paths and descriptors into calls of the driver. It is not part of this program, so it is a parameter: the
  record \<open>posix\<close> of its functions, and the locale \<open>posix_driver\<close> with what their documentation says in terms of the
  driver's operations (\<open>fusefs_lookup\<close>, \<open>fusefs_getstat\<close>, \<open>fusefs_read\<close>, \<open>fusefs_listdir\<close>, \<open>fusefs_vopen\<close>). The lemmas of
  the locale \<open>posix_tree\<close> are proof rules for the calls of a program on a mounted tree.
\<close>

section \<open>Programs\<close>

text \<open>A program that calls the system is a function to an option; \<open>None\<close> is that it does not return. \<open>runs m Q\<close>: the program
  returns, with a result that satisfies \<open>Q\<close>.\<close>

definition runs :: "'a option \<Rightarrow> ('a \<Rightarrow> bool) \<Rightarrow> bool" where
  "runs m Q \<longleftrightarrow> (\<exists>x. m = Some x \<and> Q x)"

lemma runs_simps [simp]:
  "runs (Some x) Q \<longleftrightarrow> Q x" "\<not> runs None Q" "runs (Option.bind m f) Q \<longleftrightarrow> runs m (\<lambda>x. runs (f x) Q)"
  by (auto simp: runs_def bind_eq_Some_conv)

lemma runsI: "m = Some x \<Longrightarrow> Q x \<Longrightarrow> runs m Q"
  by (simp add: runs_def)

lemma runs_mono: "runs m P \<Longrightarrow> (\<And>x. P x \<Longrightarrow> Q x) \<Longrightarrow> runs m Q"
  by (auto simp: runs_def)

section \<open>The interface\<close>

datatype whence = SEEK_SET | SEEK_CUR | SEEK_END

text \<open>A C result of \<open>-1\<close> with the error number is \<open>Inl\<close>. Files are opened for reading. Besides the file functions: a new thread for
  the backend, giving up the processor, whether a session is registered
  (\<^verbatim>\<open>fuse_session_get_registered() != NULL\<close>), the cycle counter, \<^verbatim>\<open>malloc\<close>, and the contents of fresh automatic arrays.\<close>

record 'v posix =
  px_mount :: "string \<Rightarrow> string \<Rightarrow> string \<Rightarrow> 'v \<Rightarrow> ((int + unit) \<times> 'v) option"
  px_stat :: "byte list \<Rightarrow> 'v \<Rightarrow> ((int + stat) \<times> 'v) option"
  px_fstat :: "int \<Rightarrow> 'v \<Rightarrow> ((int + stat) \<times> 'v) option"
  px_access :: "byte list \<Rightarrow> int \<Rightarrow> 'v \<Rightarrow> ((int + unit) \<times> 'v) option"
  px_open :: "byte list \<Rightarrow> 'v \<Rightarrow> ((int + int) \<times> 'v) option"
  px_close :: "int \<Rightarrow> 'v \<Rightarrow> ((int + unit) \<times> 'v) option"
  px_lseek :: "int \<Rightarrow> int \<Rightarrow> whence \<Rightarrow> 'v \<Rightarrow> ((int + int) \<times> 'v) option"
  px_read :: "int \<Rightarrow> nat \<Rightarrow> 'v \<Rightarrow> ((int + byte list) \<times> 'v) option"
  px_pread :: "int \<Rightarrow> nat \<Rightarrow> int \<Rightarrow> 'v \<Rightarrow> ((int + byte list) \<times> 'v) option"
  px_opendir :: "byte list \<Rightarrow> 'v \<Rightarrow> ((int + int) \<times> 'v) option"
  px_readdir :: "int \<Rightarrow> 'v \<Rightarrow> (uk_fs_dirent option \<times> 'v) option"
  px_closedir :: "int \<Rightarrow> 'v \<Rightarrow> ((int + unit) \<times> 'v) option"
  px_thread_create :: "'v \<Rightarrow> bool \<times> 'v"
  px_yield :: "'v \<Rightarrow> 'v"
  px_registered :: "'v \<Rightarrow> bool"
  px_rdtsc :: "'v \<Rightarrow> u64 \<times> 'v"
  px_malloc :: "nat \<Rightarrow> 'v \<Rightarrow> bool \<times> 'v"
  px_fresh :: "nat \<Rightarrow> byte"

abbreviation F_OK :: int where "F_OK \<equiv> 0"
abbreviation R_OK :: int where "R_OK \<equiv> 4"

text \<open>What the file functions work on: the driver with its daemon, the driver's file of the mount point, and the open descriptors
  and directory streams, each with its driver file, the node, and the position.\<close>

record 'u vfs =
  vf_sys :: "'u ukfs_sys"
  vf_root :: addr
  vf_fds :: "int \<rightharpoonup> addr \<times> u64 \<times> int"
  vf_dirs :: "int \<rightharpoonup> addr \<times> u64 \<times> u64"

definition vfs_ok :: "(ukfs_in \<Rightarrow> bool) \<Rightarrow> 'u vfs \<Rightarrow> bool" where
  "vfs_ok serves v \<longleftrightarrow> sys_ok serves (vf_sys v) [] \<and> nodes (vf_sys v) (vf_root v) = Some FUSE_ROOT_ID \<and>
     (\<forall>d f n off. vf_fds v d = Some (f, n, off) \<longrightarrow> nodes (vf_sys v) f = Some n \<and> 0 \<le> off) \<and>
     (\<forall>d f n c. vf_dirs v d = Some (f, n, c) \<longrightarrow> nodes (vf_sys v) f = Some n)"

definition same_files :: "'u vfs \<Rightarrow> 'u vfs \<Rightarrow> bool" where
  "same_files v v' \<longleftrightarrow> vf_fds v' = vf_fds v \<and> vf_dirs v' = vf_dirs v"

text \<open>A call of the driver that left the daemon able to serve and the driver's files with their nodes.\<close>

definition keeps_serving :: "(ukfs_in \<Rightarrow> bool) \<Rightarrow> 'u ukfs_sys \<Rightarrow> 'u ukfs_sys \<Rightarrow> bool" where
  "keeps_serving serves s s' \<longleftrightarrow> sys_ok serves s' [] \<and> nodes s' = nodes s \<and> brk (sy_w s) \<le> brk (sy_w s')"

text \<open>The fields of \<^verbatim>\<open>struct stat\<close> that the driver provides.\<close>

definition stat_shows :: "stat \<Rightarrow> uk_statx \<Rightarrow> bool" where
  "stat_shows a x \<longleftrightarrow> st_ino a = stx_ino x \<and> st_mode a = stx_mode x \<and> st_nlink a = stx_nlink x \<and> st_size a = stx_size x"

definition slash :: byte where "slash = 0x2F"

text \<open>The part of a path after the mount point: the root itself, or the name of an entry of the root directory.\<close>

definition plain_name :: "byte list \<Rightarrow> bool" where
  "plain_name name \<longleftrightarrow> slash \<notin> set name \<and> 0 \<notin> set name \<and> name \<noteq> bytes_of ''.'' \<and> name \<noteq> bytes_of ''..'' \<and> length name \<le> 255"

context tree_ops
begin

lemma walk:
  assumes s: "sys_ok serves s []" and r: "nodes s r = Some FUSE_ROOT_ID" and name: "plain_name name"
  shows "\<exists>s'. sys_ok serves s' [] \<and> brk (sy_w s) \<le> brk (sy_w s') \<and>
    (case if name = [] then Some FUSE_ROOT_ID else child FUSE_ROOT_ID name of
       None \<Rightarrow> fusefs_lookup uc op r name s = Some (- ENOENT, None, s') \<and> nodes s' = nodes s
     | Some c \<Rightarrow> (\<exists>f. fusefs_lookup uc op r name s = Some (UKFS_STOP_FILE uc, Some (f, length name), s') \<and>
         (f = r \<and> c = FUSE_ROOT_ID \<and> nodes s' = nodes s \<or>
          brk (sy_w s) \<le> f \<and> f < brk (sy_w s') \<and> nodes s' = (nodes s)(f \<mapsto> c))))"
proof (cases "name = []")
  case True
  from r obtain ff where "sy_files s r = Some ff" by (rule nodes_SomeE)
  then have "fusefs_lookup uc op r name s = Some (UKFS_STOP_FILE uc, Some (r, length name), uk_file_acquire r s)"
    using True by (simp add: fusefs_lookup_def)
  moreover have "nodes (uk_file_acquire r s) = nodes s" by (rule nodes_cong) (simp add: uk_file_acquire_def)
  moreover have "sys_ok serves (uk_file_acquire r s) []" "sy_w (uk_file_acquire r s) = sy_w s"
    using s by (simp_all add: sys_ok_def uk_file_acquire_def)
  ultimately show ?thesis using True by (intro exI [of _ "uk_file_acquire r s"]) simp
next
  case False
  have t: "takeWhile (\<lambda>b. b \<noteq> 0) name = name" using name by (auto simp: plain_name_def takeWhile_eq_all_conv)
  have n: "name \<noteq> bytes_of ''.''" "name \<noteq> bytes_of ''..''" "length name < FUSE_DAEMON_BUF_SIZE - 40"
    using name by (auto simp: plain_name_def)
  from lookup [OF s r False n, of uc] obtain s' where s': "sys_ok serves s' []" "brk (sy_w s) < brk (sy_w s')"
    and c: "case child FUSE_ROOT_ID name of
       None \<Rightarrow> fusefs_lookup uc op r name s = Some (- ENOENT, None, s') \<and> sy_files s' = sy_files s \<and> sy_refs s' = sy_refs s
     | Some c \<Rightarrow> (\<exists>a. fusefs_lookup uc op r name s = Some (UKFS_STOP_FILE uc, Some (a, length name), s') \<and>
         brk (sy_w s) \<le> a \<and> a < brk (sy_w s') \<and>
         sy_files s' = (sy_files s)(a \<mapsto> \<lparr>ff_nodeid = c, ff_fh = FH_NONE, ff_upref = None\<rparr>) \<and> sy_refs s' = (sy_refs s)(a := 1))"
    unfolding t by blast
  show ?thesis
  proof (cases "child FUSE_ROOT_ID name")
    case None
    then show ?thesis using False s' c nodes_cong [of s' s] by (intro exI [of _ s']) simp
  next
    case (Some x)
    then obtain a where a: "fusefs_lookup uc op r name s = Some (UKFS_STOP_FILE uc, Some (a, length name), s')"
      "brk (sy_w s) \<le> a" "a < brk (sy_w s')" "nodes s' = (nodes s)(a \<mapsto> x)"
      using c nodes_upd [of s' s] by auto
    then show ?thesis using False Some s' by (intro exI [of _ s']) auto
  qed
qed

end

text \<open>The laws: \<open>view\<close> is the part of the system's state described above, \<open>valid\<close> the states with the file system mounted,
  \<open>starting\<close> those in which the program begins, and \<open>w\<close> the library's state behind the session that the backend
  thread registers.\<close>

locale posix_driver =
  fixes P :: "'v posix" and view :: "'v \<Rightarrow> 'u vfs" and valid :: "'v \<Rightarrow> bool" and starting :: "'v \<Rightarrow> bool" and w :: "'u fuse_world"
    and uc :: ukfs_consts and dirbuf :: u64 and op :: "'u fuse_lowlevel_ops" and serves :: "ukfs_in \<Rightarrow> bool"
  assumes valid_view: "valid v \<Longrightarrow> vfs_ok serves (view v)"
    and names_fit: "nl \<le> 255 \<Longrightarrow> 0 < UKFS_DIRENT_RECLEN uc nl \<and> UKFS_DIRENT_RECLEN uc nl \<le> dirbuf"
    and backend_scheduled: "starting v \<Longrightarrow> fusefs_vopen True (True, True, True) (boot_sys w) = (Some f, True, s) \<Longrightarrow>
      \<exists>v1 k v'. px_thread_create P v = (True, v1) \<and> (\<forall>j < k. \<not> px_registered P ((px_yield P ^^ j) v1)) \<and>
        px_registered P ((px_yield P ^^ k) v1) \<and>
        px_mount P ''none'' ''/'' ''fuse'' ((px_yield P ^^ k) v1) = Some (Inr (), v') \<and> valid v'"
    and stat_found: "valid v \<Longrightarrow> plain_name name \<Longrightarrow>
      fusefs_lookup uc op (vf_root (view v)) name (vf_sys (view v)) = Some (UKFS_STOP_FILE uc, Some (f, length name), s1) \<Longrightarrow>
      fusefs_getstat uc op f s1 = Some (0, Some x, s2) \<Longrightarrow>
      \<exists>a v'. px_stat P (slash # name) v = Some (Inr a, v') \<and> stat_shows a x \<and> valid v' \<and> same_files (view v) (view v')"
    and stat_missing: "valid v \<Longrightarrow> plain_name name \<Longrightarrow>
      fusefs_lookup uc op (vf_root (view v)) name (vf_sys (view v)) = Some (- e, None, s1) \<Longrightarrow> 0 < e \<Longrightarrow>
      \<exists>v'. px_stat P (slash # name) v = Some (Inl e, v') \<and> valid v' \<and> same_files (view v) (view v')"
    and access_found: "valid v \<Longrightarrow> plain_name name \<Longrightarrow>
      fusefs_lookup uc op (vf_root (view v)) name (vf_sys (view v)) = Some (UKFS_STOP_FILE uc, Some (f, length name), s1) \<Longrightarrow>
      fusefs_getstat uc op f s1 = Some (0, Some x, s2) \<Longrightarrow> mode = F_OK \<or> mode = R_OK \<Longrightarrow>
      \<exists>v'. px_access P (slash # name) mode v = Some (Inr (), v') \<and> valid v' \<and> same_files (view v) (view v')"
    and access_missing: "valid v \<Longrightarrow> plain_name name \<Longrightarrow>
      fusefs_lookup uc op (vf_root (view v)) name (vf_sys (view v)) = Some (- e, None, s1) \<Longrightarrow> 0 < e \<Longrightarrow>
      \<exists>v'. px_access P (slash # name) mode v = Some (Inl e, v') \<and> valid v' \<and> same_files (view v) (view v')"
    and open_found: "valid v \<Longrightarrow> plain_name name \<Longrightarrow>
      fusefs_lookup uc op (vf_root (view v)) name (vf_sys (view v)) = Some (UKFS_STOP_FILE uc, Some (f, length name), s1) \<Longrightarrow>
      nodes s1 f = Some n \<Longrightarrow>
      \<exists>d v'. px_open P (slash # name) v = Some (Inr d, v') \<and> valid v' \<and> vf_fds (view v) d = None \<and>
        vf_fds (view v') = (vf_fds (view v))(d \<mapsto> (f, n, 0)) \<and> vf_dirs (view v') = vf_dirs (view v)"
    and open_missing: "valid v \<Longrightarrow> plain_name name \<Longrightarrow>
      fusefs_lookup uc op (vf_root (view v)) name (vf_sys (view v)) = Some (- e, None, s1) \<Longrightarrow> 0 < e \<Longrightarrow>
      \<exists>v'. px_open P (slash # name) v = Some (Inl e, v') \<and> valid v' \<and> same_files (view v) (view v')"
    and close_open: "valid v \<Longrightarrow> vf_fds (view v) d \<noteq> None \<Longrightarrow>
      \<exists>v'. px_close P d v = Some (Inr (), v') \<and> valid v' \<and>
        vf_fds (view v') = (vf_fds (view v))(d := None) \<and> vf_dirs (view v') = vf_dirs (view v)"
    and fstat_open: "valid v \<Longrightarrow> vf_fds (view v) d = Some (f, n, off) \<Longrightarrow>
      fusefs_getstat uc op f (vf_sys (view v)) = Some (0, Some x, s1) \<Longrightarrow>
      \<exists>a v'. px_fstat P d v = Some (Inr a, v') \<and> stat_shows a x \<and> valid v' \<and> same_files (view v) (view v')"
    and lseek_set: "valid v \<Longrightarrow> vf_fds (view v) d = Some (f, n, off) \<Longrightarrow> 0 \<le> pos \<Longrightarrow> pos < 2 ^ 63 \<Longrightarrow>
      \<exists>v'. px_lseek P d pos SEEK_SET v = Some (Inr pos, v') \<and> valid v' \<and>
        vf_fds (view v') = (vf_fds (view v))(d \<mapsto> (f, n, pos)) \<and> vf_dirs (view v') = vf_dirs (view v)"
    and lseek_cur: "valid v \<Longrightarrow> vf_fds (view v) d = Some (f, n, off) \<Longrightarrow> 0 \<le> off + k \<Longrightarrow> off + k < 2 ^ 63 \<Longrightarrow>
      \<exists>v'. px_lseek P d k SEEK_CUR v = Some (Inr (off + k), v') \<and> valid v' \<and>
        vf_fds (view v') = (vf_fds (view v))(d \<mapsto> (f, n, off + k)) \<and> vf_dirs (view v') = vf_dirs (view v)"
    and lseek_end: "valid v \<Longrightarrow> vf_fds (view v) d = Some (f, n, off) \<Longrightarrow>
      fusefs_getstat uc op f (vf_sys (view v)) = Some (0, Some x, s1) \<Longrightarrow>
      0 \<le> sint (stx_size x) + k \<Longrightarrow> sint (stx_size x) + k < 2 ^ 63 \<Longrightarrow>
      \<exists>v'. px_lseek P d k SEEK_END v = Some (Inr (sint (stx_size x) + k), v') \<and> valid v' \<and>
        vf_fds (view v') = (vf_fds (view v))(d \<mapsto> (f, n, sint (stx_size x) + k)) \<and> vf_dirs (view v') = vf_dirs (view v)"
    and read_open: "valid v \<Longrightarrow> vf_fds (view v) d = Some (f, n, off) \<Longrightarrow>
      fusefs_read op f [of_nat len] (of_int off) (vf_sys (view v)) = Some (int (length bs), parts, s1) \<Longrightarrow> concat parts = bs \<Longrightarrow>
      keeps_serving serves (vf_sys (view v)) s1 \<Longrightarrow>
      \<exists>v'. px_read P d len v = Some (Inr bs, v') \<and> valid v' \<and>
        vf_fds (view v') = (vf_fds (view v))(d \<mapsto> (f, n, off + int (length bs))) \<and> vf_dirs (view v') = vf_dirs (view v)"
    and pread_open: "valid v \<Longrightarrow> vf_fds (view v) d = Some (f, n, off) \<Longrightarrow>
      fusefs_read op f [of_nat len] (of_int pos) (vf_sys (view v)) = Some (int (length bs), parts, s1) \<Longrightarrow> concat parts = bs \<Longrightarrow>
      keeps_serving serves (vf_sys (view v)) s1 \<Longrightarrow>
      \<exists>v'. px_pread P d len pos v = Some (Inr bs, v') \<and> valid v' \<and> same_files (view v) (view v')"
    and opendir_found: "valid v \<Longrightarrow> plain_name name \<Longrightarrow>
      fusefs_lookup uc op (vf_root (view v)) name (vf_sys (view v)) = Some (UKFS_STOP_FILE uc, Some (f, length name), s1) \<Longrightarrow>
      nodes s1 f = Some n \<Longrightarrow>
      \<exists>d v'. px_opendir P (slash # name) v = Some (Inr d, v') \<and> valid v' \<and> vf_dirs (view v) d = None \<and>
        vf_dirs (view v') = (vf_dirs (view v))(d \<mapsto> (f, n, 0)) \<and> vf_fds (view v') = vf_fds (view v)"
    and readdir_entry: "valid v \<Longrightarrow> vf_dirs (view v) d = Some (f, n, c) \<Longrightarrow>
      fusefs_listdir uc op f c dirbuf (vf_sys (view v)) = Some (r, Some de, c', s1) \<Longrightarrow> 0 < r \<Longrightarrow>
      keeps_serving serves (vf_sys (view v)) s1 \<Longrightarrow>
      \<exists>v'. px_readdir P d v = Some (Some de, v') \<and> valid v' \<and>
        vf_dirs (view v') = (vf_dirs (view v))(d \<mapsto> (f, n, c')) \<and> vf_fds (view v') = vf_fds (view v)"
    and readdir_end: "valid v \<Longrightarrow> vf_dirs (view v) d = Some (f, n, c) \<Longrightarrow>
      fusefs_listdir uc op f c dirbuf (vf_sys (view v)) = Some (0, None, c, s1) \<Longrightarrow>
      keeps_serving serves (vf_sys (view v)) s1 \<Longrightarrow>
      \<exists>v'. px_readdir P d v = Some (None, v') \<and> valid v' \<and> same_files (view v) (view v')"
    and closedir_open: "valid v \<Longrightarrow> vf_dirs (view v) d \<noteq> None \<Longrightarrow>
      \<exists>v'. px_closedir P d v = Some (Inr (), v') \<and> valid v' \<and>
        vf_dirs (view v') = (vf_dirs (view v))(d := None) \<and> vf_fds (view v') = vf_fds (view v)"
    and counter: "valid v \<Longrightarrow> valid (snd (px_rdtsc P v)) \<and> same_files (view v) (view (snd (px_rdtsc P v)))"
    and memory: "valid v \<Longrightarrow> valid (snd (px_malloc P sz v)) \<and> same_files (view v) (view (snd (px_malloc P sz v)))"

section \<open>Rules for calls on a mounted tree\<close>

locale posix_tree = tree_ops op serves answer content attr child dir + posix_driver P view valid starting w uc dirbuf op serves
  for op :: "'u fuse_lowlevel_ops" and serves answer content attr child dir
    and P :: "'v posix" and view :: "'v \<Rightarrow> 'u vfs" and valid starting w uc dirbuf
begin

definition names :: "byte list \<Rightarrow> u64 option" where
  "names name = (if name = [] then Some FUSE_ROOT_ID else child FUSE_ROOT_ID name)"

lemma resolve:
  assumes "valid v" and "plain_name name"
  shows "case names name of
      None \<Rightarrow> \<exists>s. fusefs_lookup uc op (vf_root (view v)) name (vf_sys (view v)) = Some (- ENOENT, None, s)
    | Some n \<Rightarrow> \<exists>f s. fusefs_lookup uc op (vf_root (view v)) name (vf_sys (view v)) = Some (UKFS_STOP_FILE uc, Some (f, length name), s) \<and>
        nodes s f = Some n \<and> sys_ok serves s []"
proof -
  have "sys_ok serves (vf_sys (view v)) []" "nodes (vf_sys (view v)) (vf_root (view v)) = Some FUSE_ROOT_ID"
    using valid_view [OF assms(1)] by (simp_all add: vfs_ok_def)
  from walk [OF this assms(2), of uc] this(2) show ?thesis
    unfolding names_def by (auto split: option.splits)
qed

definition shows_attr :: "stat \<Rightarrow> stat \<Rightarrow> bool" where
  "shows_attr a x \<longleftrightarrow> st_ino a = st_ino x \<and> st_mode a = st_mode x \<and> st_nlink a = st_nlink x \<and> st_size a = st_size x"

lemma getstat_attr:
  assumes "sys_ok serves s []" and "nodes s f = Some n" and "attr n = Some x"
  obtains y s' where "fusefs_getstat uc op f s = Some (0, Some y, s')" "\<And>a. stat_shows a y = shows_attr a x" "stx_size y = st_size x"
  using getstat [OF assms(1,2), of uc] assms(3) by (fastforce simp: stat_shows_def shows_attr_def)

lemma stat_rule:
  assumes "valid v" "plain_name name" "names name = Some n" "attr n = Some x"
    and "\<And>a v'. shows_attr a x \<Longrightarrow> valid v' \<Longrightarrow> same_files (view v) (view v') \<Longrightarrow> Q (Inr a, v')"
  shows "runs (px_stat P (slash # name) v) Q"
proof -
  from resolve [OF assms(1,2)] assms(3) obtain f s where
    f: "fusefs_lookup uc op (vf_root (view v)) name (vf_sys (view v)) = Some (UKFS_STOP_FILE uc, Some (f, length name), s)"
      "nodes s f = Some n" "sys_ok serves s []" by auto
  from getstat_attr [OF f(3,2) assms(4)] obtain y s' where y: "fusefs_getstat uc op f s = Some (0, Some y, s')"
    "\<And>a. stat_shows a y = shows_attr a x" by metis
  from stat_found [OF assms(1,2) f(1) y(1)] show ?thesis using y(2) assms(5) by (auto intro: runsI)
qed

lemma stat_missing_rule:
  assumes "valid v" "plain_name name" "names name = None"
    and "\<And>v'. valid v' \<Longrightarrow> same_files (view v) (view v') \<Longrightarrow> Q (Inl ENOENT, v')"
  shows "runs (px_stat P (slash # name) v) Q"
proof -
  from resolve [OF assms(1,2)] assms(3) obtain s where
    f: "fusefs_lookup uc op (vf_root (view v)) name (vf_sys (view v)) = Some (- ENOENT, None, s)" by auto
  from stat_missing [OF assms(1,2) f] show ?thesis using assms(4) by (auto intro: runsI)
qed

lemma access_rule:
  assumes "valid v" "plain_name name" "names name = Some n" "attr n = Some x" "mode = F_OK \<or> mode = R_OK"
    and "\<And>v'. valid v' \<Longrightarrow> same_files (view v) (view v') \<Longrightarrow> Q (Inr (), v')"
  shows "runs (px_access P (slash # name) mode v) Q"
proof -
  from resolve [OF assms(1,2)] assms(3) obtain f s where
    f: "fusefs_lookup uc op (vf_root (view v)) name (vf_sys (view v)) = Some (UKFS_STOP_FILE uc, Some (f, length name), s)"
      "nodes s f = Some n" "sys_ok serves s []" by auto
  from getstat_attr [OF f(3,2) assms(4)] obtain y s' where y: "fusefs_getstat uc op f s = Some (0, Some y, s')" by metis
  from access_found [OF assms(1,2) f(1) y assms(5)] show ?thesis using assms(6) by (auto intro: runsI)
qed

lemma access_missing_rule:
  assumes "valid v" "plain_name name" "names name = None"
    and "\<And>v'. valid v' \<Longrightarrow> same_files (view v) (view v') \<Longrightarrow> Q (Inl ENOENT, v')"
  shows "runs (px_access P (slash # name) mode v) Q"
proof -
  from resolve [OF assms(1,2)] assms(3) obtain s where
    f: "fusefs_lookup uc op (vf_root (view v)) name (vf_sys (view v)) = Some (- ENOENT, None, s)" by auto
  from access_missing [OF assms(1,2) f] show ?thesis using assms(4) by (auto intro: runsI)
qed

lemma open_rule:
  assumes "valid v" "plain_name name" "names name = Some n"
    and "\<And>d f v'. valid v' \<Longrightarrow> vf_fds (view v) d = None \<Longrightarrow> vf_fds (view v') = (vf_fds (view v))(d \<mapsto> (f, n, 0)) \<Longrightarrow>
      vf_dirs (view v') = vf_dirs (view v) \<Longrightarrow> Q (Inr d, v')"
  shows "runs (px_open P (slash # name) v) Q"
proof -
  from resolve [OF assms(1,2)] assms(3) obtain f s where
    f: "fusefs_lookup uc op (vf_root (view v)) name (vf_sys (view v)) = Some (UKFS_STOP_FILE uc, Some (f, length name), s)"
      "nodes s f = Some n" by auto
  from open_found [OF assms(1,2) f] show ?thesis using assms(4) by (auto intro: runsI)
qed

lemma open_missing_rule:
  assumes "valid v" "plain_name name" "names name = None"
    and "\<And>v'. valid v' \<Longrightarrow> same_files (view v) (view v') \<Longrightarrow> Q (Inl ENOENT, v')"
  shows "runs (px_open P (slash # name) v) Q"
proof -
  from resolve [OF assms(1,2)] assms(3) obtain s where
    f: "fusefs_lookup uc op (vf_root (view v)) name (vf_sys (view v)) = Some (- ENOENT, None, s)" by auto
  from open_missing [OF assms(1,2) f] show ?thesis using assms(4) by (auto intro: runsI)
qed

lemma opendir_rule:
  assumes "valid v" "plain_name name" "names name = Some n"
    and "\<And>d f v'. valid v' \<Longrightarrow> vf_dirs (view v) d = None \<Longrightarrow> vf_dirs (view v') = (vf_dirs (view v))(d \<mapsto> (f, n, 0)) \<Longrightarrow>
      vf_fds (view v') = vf_fds (view v) \<Longrightarrow> Q (Inr d, v')"
  shows "runs (px_opendir P (slash # name) v) Q"
proof -
  from resolve [OF assms(1,2)] assms(3) obtain f s where
    f: "fusefs_lookup uc op (vf_root (view v)) name (vf_sys (view v)) = Some (UKFS_STOP_FILE uc, Some (f, length name), s)"
      "nodes s f = Some n" by auto
  from opendir_found [OF assms(1,2) f] show ?thesis using assms(4) by (auto intro: runsI)
qed

text \<open>Calls on a descriptor.\<close>

lemma fd_ok: "valid v \<Longrightarrow> vf_fds (view v) d = Some (f, n, off) \<Longrightarrow>
    sys_ok serves (vf_sys (view v)) [] \<and> nodes (vf_sys (view v)) f = Some n \<and> 0 \<le> off"
  using valid_view by (auto simp: vfs_ok_def)

lemma fstat_rule:
  assumes "valid v" "vf_fds (view v) d = Some (f, n, off)" "attr n = Some x"
    and "\<And>a v'. shows_attr a x \<Longrightarrow> valid v' \<Longrightarrow> same_files (view v) (view v') \<Longrightarrow> Q (Inr a, v')"
  shows "runs (px_fstat P d v) Q"
proof -
  from fd_ok [OF assms(1,2)] getstat_attr [of "vf_sys (view v)" f n x] assms(3) obtain y s' where
    y: "fusefs_getstat uc op f (vf_sys (view v)) = Some (0, Some y, s')" "\<And>a. stat_shows a y = shows_attr a x" by metis
  from fstat_open [OF assms(1,2) y(1)] show ?thesis using y(2) assms(4) by (auto intro: runsI)
qed

lemma lseek_end_rule:
  assumes "valid v" "vf_fds (view v) d = Some (f, n, off)" "attr n = Some x" "pos = sint (st_size x) + k" "0 \<le> pos" "pos < 2 ^ 63"
    and "\<And>v'. valid v' \<Longrightarrow> vf_fds (view v') = (vf_fds (view v))(d \<mapsto> (f, n, pos)) \<Longrightarrow> vf_dirs (view v') = vf_dirs (view v) \<Longrightarrow>
      Q (Inr pos, v')"
  shows "runs (px_lseek P d k SEEK_END v) Q"
proof -
  from fd_ok [OF assms(1,2)] getstat_attr [of "vf_sys (view v)" f n x] assms(3) obtain y s' where
    y: "fusefs_getstat uc op f (vf_sys (view v)) = Some (0, Some y, s')" "stx_size y = st_size x" by metis
  from lseek_end [OF assms(1,2) y(1), of k] assms(4-7) show ?thesis by (auto simp: y(2) intro: runsI)
qed

lemma lseek_set_rule:
  assumes "valid v" "vf_fds (view v) d = Some (f, n, off)" "0 \<le> pos" "pos < 2 ^ 63"
    and "\<And>v'. valid v' \<Longrightarrow> vf_fds (view v') = (vf_fds (view v))(d \<mapsto> (f, n, pos)) \<Longrightarrow> vf_dirs (view v') = vf_dirs (view v) \<Longrightarrow>
      Q (Inr pos, v')"
  shows "runs (px_lseek P d pos SEEK_SET v) Q"
  using lseek_set [OF assms(1-4)] assms(5) by (auto intro: runsI)

lemma lseek_cur_rule:
  assumes "valid v" "vf_fds (view v) d = Some (f, n, off)" "0 \<le> off + k" "off + k < 2 ^ 63"
    and "\<And>v'. valid v' \<Longrightarrow> vf_fds (view v') = (vf_fds (view v))(d \<mapsto> (f, n, off + k)) \<Longrightarrow> vf_dirs (view v') = vf_dirs (view v) \<Longrightarrow>
      Q (Inr (off + k), v')"
  shows "runs (px_lseek P d k SEEK_CUR v) Q"
  using lseek_cur [OF assms(1-4)] assms(5) by (auto intro: runsI)

lemma close_rule:
  assumes "valid v" "vf_fds (view v) d \<noteq> None"
    and "\<And>v'. valid v' \<Longrightarrow> vf_fds (view v') = (vf_fds (view v))(d := None) \<Longrightarrow> vf_dirs (view v') = vf_dirs (view v) \<Longrightarrow> Q (Inr (), v')"
  shows "runs (px_close P d v) Q"
  using close_open [OF assms(1), of d] assms(2,3) by (auto intro: runsI)

text \<open>The driver's read on a descriptor.\<close>

lemma driver_read:
  assumes "valid v" "vf_fds (view v) d = Some (f, n, off)" "content n = Some bs" "0 \<le> pos" "pos < 2 ^ 63" "len < 2 ^ 32"
  shows "\<exists>parts s. fusefs_read op f [of_nat len] (of_int pos) (vf_sys (view v)) =
      Some (int (length (take len (drop (nat pos) bs))), parts, s) \<and> concat parts = take len (drop (nat pos) bs) \<and>
    keeps_serving serves (vf_sys (view v)) s"
proof -
  from fd_ok [OF assms(1,2)] have s: "sys_ok serves (vf_sys (view v)) []" and "nodes (vf_sys (view v)) f = Some n" by auto
  then obtain ff where f: "sy_files (vf_sys (view v)) f = Some ff" "ff_nodeid ff = n" by (auto elim: nodes_SomeE)
  have p: "unat (of_int pos :: u64) = nat pos"
    using assms(4,5) by (simp add: unsigned_of_int take_bit_int_eq_self)
  then have o: "0 \<le>s (of_int pos :: u64)" using assms(4,5) by (simp add: nonneg_iff nat_less_iff)
  have l: "unat (of_nat len :: u64) = len" using assms(6) by (simp add: unat_of_nat take_bit_nat_eq_self)
  have "content (ff_nodeid ff) = Some bs" using f(2) assms(3) by simp
  from read_content [OF s f(1) this o, of "[of_nat len]"] show ?thesis using assms(6) s by (auto simp: p l keeps_serving_def)
qed

lemma read_rule:
  assumes "valid v" "vf_fds (view v) d = Some (f, n, off)" "content n = Some bs" "off < 2 ^ 63" "len < 2 ^ 32"
    and "\<And>v'. valid v' \<Longrightarrow> vf_fds (view v') = (vf_fds (view v))(d \<mapsto> (f, n, off + int (length (take len (drop (nat off) bs))))) \<Longrightarrow>
      vf_dirs (view v') = vf_dirs (view v) \<Longrightarrow> Q (Inr (take len (drop (nat off) bs)), v')"
  shows "runs (px_read P d len v) Q"
proof -
  have "0 \<le> off" using fd_ok [OF assms(1,2)] by simp
  from driver_read [OF assms(1-3) this assms(4,5)] obtain parts s where
    r: "fusefs_read op f [of_nat len] (of_int off) (vf_sys (view v)) = Some (int (length (take len (drop (nat off) bs))), parts, s)"
      "concat parts = take len (drop (nat off) bs)" "keeps_serving serves (vf_sys (view v)) s" by blast
  from read_open [OF assms(1,2) r] show ?thesis using assms(6) by (auto intro: runsI)
qed

lemma pread_rule:
  assumes "valid v" "vf_fds (view v) d = Some (f, n, off)" "content n = Some bs" "0 \<le> pos" "pos < 2 ^ 63" "len < 2 ^ 32"
    and "\<And>v'. valid v' \<Longrightarrow> same_files (view v) (view v') \<Longrightarrow> Q (Inr (take len (drop (nat pos) bs)), v')"
  shows "runs (px_pread P d len pos v) Q"
proof -
  from driver_read [OF assms(1-6)] obtain parts s where
    r: "fusefs_read op f [of_nat len] (of_int pos) (vf_sys (view v)) = Some (int (length (take len (drop (nat pos) bs))), parts, s)"
      "concat parts = take len (drop (nat pos) bs)" "keeps_serving serves (vf_sys (view v)) s" by blast
  from pread_open [OF assms(1,2) r] show ?thesis using assms(7) by (auto intro: runsI)
qed

text \<open>Calls on a directory stream that has delivered the entries \<open>es\<close>.\<close>

lemma readdir_rule:
  assumes "valid v" "vf_dirs (view v) d = Some (f, n, of_nat (dir_offset es))" "dir n = Some (es @ fs)"
    and "\<And>i name. (i, name) \<in> set fs \<Longrightarrow> length name \<le> 255"
    and "\<And>v'. fs = [] \<Longrightarrow> valid v' \<Longrightarrow> same_files (view v) (view v') \<Longrightarrow> Q (None, v')"
    and "\<And>i name gs e v'. fs = (i, name) # gs \<Longrightarrow> d_ino e = i \<Longrightarrow> d_name e = name \<Longrightarrow> valid v' \<Longrightarrow>
      vf_dirs (view v') = (vf_dirs (view v))(d \<mapsto> (f, n, of_nat (dir_offset (es @ [(i, name)])))) \<Longrightarrow> vf_fds (view v') = vf_fds (view v) \<Longrightarrow>
      Q (Some e, v')"
  shows "runs (px_readdir P d v) Q"
proof -
  have ok: "sys_ok serves (vf_sys (view v)) []" "nodes (vf_sys (view v)) f = Some n"
    using valid_view [OF assms(1)] assms(2) unfolding vfs_ok_def by blast+
  have short: "0 < UKFS_DIRENT_RECLEN uc (of_nat (length name)) \<and> UKFS_DIRENT_RECLEN uc (of_nat (length name)) \<le> dirbuf"
    if "(i, name) \<in> set fs" for i name
    using assms(4) [OF that] by (intro names_fit) (simp add: word_le_nat_alt unat_of_nat take_bit_nat_eq_self)
  from listdir [OF ok assms(3), of uc dirbuf] short obtain s where
    s: "fusefs_listdir uc op f (of_nat (dir_offset es)) dirbuf (vf_sys (view v)) = Some (case fs of
       [] \<Rightarrow> (0, None, of_nat (dir_offset es), s)
     | (i, name) # _ \<Rightarrow> (let next = of_nat (dir_offset (es @ [(i, name)]))
         in (uint (UKFS_DIRENT_RECLEN uc (of_nat (length name))), Some (dirent_of uc i next name), next, s)))"
      "sys_ok serves s []" "sy_files s = sy_files (vf_sys (view v))" "brk (sy_w (vf_sys (view v))) < brk (sy_w s)" by blast
  have k: "keeps_serving serves (vf_sys (view v)) s" using s(2,4) nodes_cong [OF s(3)] by (simp add: keeps_serving_def)
  show ?thesis
  proof (cases fs)
    case Nil
    then show ?thesis using readdir_end [OF assms(1,2) _ k] s(1) assms(5) by (auto intro: runsI)
  next
    case (Cons e gs)
    obtain i name where e: "e = (i, name)" by (cases e)
    have "0 < uint (UKFS_DIRENT_RECLEN uc (of_nat (length name)))" using short [of i name] by (simp add: Cons e word_less_def)
    from readdir_entry [OF assms(1,2) _ this k] s(1) Cons e obtain v' where
      "px_readdir P d v = Some (Some (dirent_of uc i (of_nat (dir_offset (es @ [(i, name)]))) name), v')" "valid v'"
      "vf_dirs (view v') = (vf_dirs (view v))(d \<mapsto> (f, n, of_nat (dir_offset (es @ [(i, name)]))))" "vf_fds (view v') = vf_fds (view v)"
      by (auto simp: Let_def)
    then show ?thesis using Cons e by (auto simp: dirent_of_def intro!: runsI assms(6))
  qed
qed

lemma closedir_rule:
  assumes "valid v" "vf_dirs (view v) d \<noteq> None"
    and "\<And>v'. valid v' \<Longrightarrow> vf_dirs (view v') = (vf_dirs (view v))(d := None) \<Longrightarrow> vf_fds (view v') = vf_fds (view v) \<Longrightarrow> Q (Inr (), v')"
  shows "runs (px_closedir P d v) Q"
  using closedir_open [OF assms(1), of d] assms(2,3) by (auto intro: runsI)

lemmas call_rules = stat_rule stat_missing_rule access_rule access_missing_rule open_rule open_missing_rule opendir_rule
  fstat_rule lseek_set_rule lseek_cur_rule lseek_end_rule close_rule read_rule pread_rule closedir_rule

end

end
