(* ===== verification/Test_Programs.thy ===== *)
theory Test_Programs
  imports Posix_Driver Fuse_Session
begin

text \<open>
  The common parts of the test programs (\<^verbatim>\<open>apps/*/main.c\<close>) and the functional test \<^verbatim>\<open>apps/fuse-test/main.c\<close>. A program's
  state is the system it runs on, \<^verbatim>\<open>errno\<close>, and its output: the calls of \<^verbatim>\<open>printf\<close> with their format and arguments.
  Assertions of Unikraft stop the program.
\<close>

section \<open>Programs and their output\<close>

datatype pf_arg = PInt int | PStr "byte list"

record 'v prog =
  pg_os :: 'v
  pg_errno :: int
  pg_out :: "(string \<times> pf_arg list) list"

definition printf :: "string \<Rightarrow> pf_arg list \<Rightarrow> ('v, 'm) prog_scheme \<Rightarrow> ('v, 'm) prog_scheme" where
  "printf fmt args s = s\<lparr>pg_out := pg_out s @ [(fmt, args)]\<rparr>"

abbreviation print_lines :: "string list \<Rightarrow> ('v, 'm) prog_scheme \<Rightarrow> ('v, 'm) prog_scheme" where
  "print_lines ls s \<equiv> fold (\<lambda>l. printf l []) ls s"

text \<open>A call of the system: on failure \<^verbatim>\<open>errno\<close> is set.\<close>

definition syscall :: "('v \<Rightarrow> ((int + 'a) \<times> 'v) option) \<Rightarrow> ('v, 'm) prog_scheme \<Rightarrow> ((int + 'a) \<times> ('v, 'm) prog_scheme) option" where
  "syscall call s = do {
     (r, v) \<leftarrow> call (pg_os s);
     Some (r, (case r of Inl e \<Rightarrow> s\<lparr>pg_os := v, pg_errno := e\<rparr> | Inr _ \<Rightarrow> s\<lparr>pg_os := v\<rparr>))
   }"

definition sys_readdir :: "'v posix \<Rightarrow> int \<Rightarrow> ('v, 'm) prog_scheme \<Rightarrow> (uk_fs_dirent option \<times> ('v, 'm) prog_scheme) option" where
  "sys_readdir P dp s = do { (de, v) \<leftarrow> px_readdir P dp (pg_os s); Some (de, s\<lparr>pg_os := v\<rparr>) }"

text \<open>\<^verbatim>\<open>while ((de = readdir(dp)) != NULL) body\<close>, where the body changes the local variables \<open>a\<close>.\<close>

partial_function (option) while_readdir :: "'v posix \<Rightarrow> int \<Rightarrow>
    (uk_fs_dirent \<Rightarrow> 'a \<Rightarrow> ('v, 'm) prog_scheme \<Rightarrow> ('a \<times> ('v, 'm) prog_scheme) option) \<Rightarrow> 'a \<Rightarrow> ('v, 'm) prog_scheme \<Rightarrow>
    ('a \<times> ('v, 'm) prog_scheme) option" where
  "while_readdir P dp body a s =
     Option.bind (sys_readdir P dp s) (\<lambda>(de, s). case de of
       None \<Rightarrow> Some (a, s)
     | Some e \<Rightarrow> Option.bind (body e a s) (\<lambda>(a, s). while_readdir P dp body a s))"

text \<open>The returned length of a read, and its buffer afterwards.\<close>

definition ssize :: "int + byte list \<Rightarrow> int" where
  "ssize r = (case r of Inl _ \<Rightarrow> - 1 | Inr bs \<Rightarrow> int (length bs))"

definition fill :: "byte list \<Rightarrow> int + byte list \<Rightarrow> byte list" where
  "fill buf r = (case r of Inl _ \<Rightarrow> buf | Inr bs \<Rightarrow> bs @ drop (length bs) buf)"

definition fresh_array :: "'v posix \<Rightarrow> nat \<Rightarrow> byte list" where
  "fresh_array P n = map (px_fresh P) [0..<n]"

definition memcmp_eq :: "byte list \<Rightarrow> byte list \<Rightarrow> nat \<Rightarrow> bool" where
  "memcmp_eq a b n \<longleftrightarrow> take n a = take n b"

definition cname :: "uk_fs_dirent \<Rightarrow> byte list" where
  "cname de = takeWhile (\<lambda>b. b \<noteq> 0) (d_name de)"

abbreviation S_IFMT :: u32 where "S_IFMT \<equiv> 0xF000"

definition S_ISDIR :: "u32 \<Rightarrow> bool" where "S_ISDIR m \<longleftrightarrow> m AND S_IFMT = S_IFDIR"
definition S_ISREG :: "u32 \<Rightarrow> bool" where "S_ISREG m \<longleftrightarrow> m AND S_IFMT = S_IFREG"

section \<open>The start\<close>

definition backend_thread_fn :: "opt_env \<Rightarrow> daemon_os \<Rightarrow> platform \<Rightarrow> 'u fuse_lowlevel_ops \<Rightarrow> 'u \<Rightarrow> nat \<Rightarrow> nat \<Rightarrow>
    (int option \<times> 'u registered) option" where
  "backend_thread_fn env os p op fs sizeof_op n =
     (let bk_argv = [''fuse'', ''-f'', ''-s'', ''/''] in fuse_backend_main env os p op fs sizeof_op bk_argv n)"

partial_function (option) wait_registered :: "'v posix \<Rightarrow> 'v \<Rightarrow> 'v option" where
  "wait_registered P v = (if px_registered P v then Some v else wait_registered P (px_yield P v))"

section \<open>The functional test\<close>

datatype main_result = Returns int | Asserts

text \<open>The five tests of the program, each with whether its assertions held.\<close>

definition ft_stat_root :: "'v posix \<Rightarrow> ('v, 'm) prog_scheme \<Rightarrow> (bool \<times> ('v, 'm) prog_scheme) option" where
  "ft_stat_root P s = do {
     let s = printf ''[TRACE] About to stat(/)...\<newline>'' [] s;
     (ret, s) \<leftarrow> syscall (px_stat P (bytes_of ''/'')) s;
     case ret of
       Inl _ \<Rightarrow> Some (False, printf ''[-] stat(\"/\") failed, errno=%d\<newline>'' [PInt (pg_errno s)] s)
     | Inr a \<Rightarrow>
         if st_ino a \<noteq> 1 then Some (False, s)
         else if \<not> S_ISDIR (st_mode a) then Some (False, s)
         else Some (True, printf ''[+] stat(\"/\") passed\<newline>'' [] s)
   }"

definition ft_stat_hello :: "'v posix \<Rightarrow> ('v, 'm) prog_scheme \<Rightarrow> (bool \<times> ('v, 'm) prog_scheme) option" where
  "ft_stat_hello P s = do {
     (ret, s) \<leftarrow> syscall (px_stat P (bytes_of ''/hello'')) s;
     case ret of
       Inl _ \<Rightarrow> Some (False, printf ''[-] stat(\"/hello\") failed, errno=%d\<newline>'' [PInt (pg_errno s)] s)
     | Inr a \<Rightarrow>
         if st_ino a \<noteq> 2 then Some (False, s)
         else if \<not> S_ISREG (st_mode a) then Some (False, s)
         else if st_size a \<noteq> 13 then Some (False, s)
         else Some (True, printf ''[+] stat(\"/hello\") passed\<newline>'' [] s)
   }"

definition ft_stat_missing :: "'v posix \<Rightarrow> ('v, 'm) prog_scheme \<Rightarrow> (bool \<times> ('v, 'm) prog_scheme) option" where
  "ft_stat_missing P s = do {
     (ret, s) \<leftarrow> syscall (px_stat P (bytes_of ''/foo'')) s;
     case ret of
       Inr _ \<Rightarrow> Some (False, s)
     | Inl _ \<Rightarrow>
         if pg_errno s \<noteq> ENOENT then Some (False, s)
         else Some (True, printf ''[+] stat(\"/foo\") ENOENT passed\<newline>'' [] s)
   }"

definition ft_read :: "'v posix \<Rightarrow> ('v, 'm) prog_scheme \<Rightarrow> (bool \<times> ('v, 'm) prog_scheme) option" where
  "ft_read P s = do {
     (fd, s) \<leftarrow> syscall (px_open P (bytes_of ''/hello'')) s;
     case fd of
       Inl _ \<Rightarrow> Some (False, printf ''[-] open(\"/hello\") failed, errno=%d\<newline>'' [PInt (pg_errno s)] s)
     | Inr fd \<Rightarrow> do {
         let rbuf = replicate 32 0;
         (n, s) \<leftarrow> syscall (px_read P fd 31) s;
         let rbuf = fill rbuf n;
         if ssize n < 0 then Some (False, printf ''[-] read(\"/hello\") failed, errno=%d\<newline>'' [PInt (pg_errno s)] s)
         else do {
           (_, s) \<leftarrow> syscall (px_close P fd) s;
           if strcmp_eq rbuf (bytes_of ''Hello World!\<newline>'' @ [0]) \<noteq> Some True then Some (False, s)
           else Some (True, printf ''[+] read(\"/hello\") = \"%s\" passed\<newline>'' [PStr rbuf] s)
         }
       }
   }"

definition ft_readdir :: "'v posix \<Rightarrow> ('v, 'm) prog_scheme \<Rightarrow> (bool \<times> ('v, 'm) prog_scheme) option" where
  "ft_readdir P s = do {
     (d, s) \<leftarrow> syscall (px_opendir P (bytes_of ''/'')) s;
     case d of
       Inl _ \<Rightarrow> Some (False, printf ''[-] opendir(\"/\") failed, errno=%d\<newline>'' [PInt (pg_errno s)] s)
     | Inr d \<Rightarrow> do {
         (found_hello, s) \<leftarrow> while_readdir P d (\<lambda>de found_hello s.
            let s = printf ''  readdir: inode=%llu type=%d name=%s\<newline>''
                  [PInt (uint (d_ino de)), PInt (uint (d_type de)), PStr (cname de)] s
            in Some (if cname de = bytes_of ''hello'' then True else found_hello, s)) False s;
         (_, s) \<leftarrow> syscall (px_closedir P d) s;
         if \<not> found_hello then Some (False, s)
         else Some (True, printf ''[+] readdir(\"/\") found \"hello\" - passed\<newline>'' [] s)
       }
   }"

definition fuse_test_main :: "'v posix \<Rightarrow> ('v, 'm) prog_scheme \<Rightarrow> (main_result \<times> ('v, 'm) prog_scheme) option" where
  "fuse_test_main P s = (
     let s = print_lines [''\<newline>'', ''========================================\<newline>'', ''  FUSE-UKFS Performance Benchmarks\<newline>'',
           ''========================================\<newline>'', ''\<newline>'', ''\<newline>========================================\<newline>'',
           ''  FUSE-UKFS M4: LOOKUP & GETATTR Tests\<newline>'', ''========================================\<newline>\<newline>''] s;
         (bt, v) = px_thread_create P (pg_os s);
         s = s\<lparr>pg_os := v\<rparr>
     in if \<not> bt then Some (Asserts, s)
     else do {
       v \<leftarrow> wait_registered P (pg_os s);
       let s = s\<lparr>pg_os := v\<rparr>;
       let s = printf ''[TRACE] About to mount fuse at /...\<newline>'' [] s;
       (ret, s) \<leftarrow> syscall (px_mount P ''none'' ''/'' ''fuse'') s;
       let s = printf ''[TRACE] mount returned %d (errno=%d)\<newline>'' [PInt (case ret of Inl _ \<Rightarrow> - 1 | Inr _ \<Rightarrow> 0), PInt (pg_errno s)] s;
       if ret \<noteq> Inr () then Some (Asserts, s)
       else do {
         let s = printf ''[+] FUSE mounted at / (daemon started automatically)\<newline>'' [] s;
         (ok, s) \<leftarrow> ft_stat_root P s;
         if \<not> ok then Some (Asserts, s) else do {
         (ok, s) \<leftarrow> ft_stat_hello P s;
         if \<not> ok then Some (Asserts, s) else do {
         (ok, s) \<leftarrow> ft_stat_missing P s;
         if \<not> ok then Some (Asserts, s) else do {
         (ok, s) \<leftarrow> ft_read P s;
         if \<not> ok then Some (Asserts, s) else do {
         (ok, s) \<leftarrow> ft_readdir P s;
         if \<not> ok then Some (Asserts, s)
         else Some (Returns 0, printf ''\<newline>All Tests and Benchmarks Passed!\<newline>'' [] s) } } } }
       }
     })"

section \<open>Rules for programs\<close>

lemma runs_syscall [simp]:
  "runs (syscall call s) Q \<longleftrightarrow>
     runs (call (pg_os s)) (\<lambda>(r, v). Q (r, (case r of Inl e \<Rightarrow> s\<lparr>pg_os := v, pg_errno := e\<rparr> | Inr _ \<Rightarrow> s\<lparr>pg_os := v\<rparr>)))"
  by (auto simp: syscall_def runs_def bind_eq_Some_conv split: prod.splits)

lemma printf_simps [simp]:
  "pg_os (printf fmt args s) = pg_os s" "pg_errno (printf fmt args s) = pg_errno s"
  by (simp_all add: printf_def)

lemma wait_registered_yields:
  assumes "\<forall>j < k. \<not> px_registered P ((px_yield P ^^ j) v)" and "px_registered P ((px_yield P ^^ k) v)"
  shows "wait_registered P v = Some ((px_yield P ^^ k) v)"
  using assms
proof (induction k arbitrary: v)
  case 0
  then show ?case by (subst wait_registered.simps) simp
next
  case (Suc k)
  have "\<not> px_registered P ((px_yield P ^^ j) (px_yield P v))" if "j < k" for j
    using Suc.prems(1) that by (metis Suc_mono comp_apply funpow_Suc_right)
  then have "wait_registered P (px_yield P v) = Some ((px_yield P ^^ k) (px_yield P v))"
    using Suc.IH [of "px_yield P v"] Suc.prems(2) by (simp add: funpow_swap1)
  moreover have "wait_registered P v = wait_registered P (px_yield P v)"
    using Suc.prems(1) by (subst wait_registered.simps) (metis funpow_0 zero_less_Suc)
  ultimately show ?case by (simp add: funpow_swap1)
qed

context posix_driver
begin

lemma boots:
  assumes "starting v" and "ready w"
  obtains v1 v2 v3 where "px_thread_create P v = (True, v1)" "wait_registered P v1 = Some v2"
    "px_mount P ''none'' ''/'' ''fuse'' v2 = Some (Inr (), v3)" "valid v3"
proof -
  obtain s' where "fusefs_vopen True (True, True, True) (boot_sys w) = (Some (brk w), True, s')"
    by (rule vopen_ok [OF assms(2), of hello_serves])
  from backend_scheduled [OF assms(1) this] obtain v1 k v3 where
    v: "px_thread_create P v = (True, v1)" "\<forall>j < k. \<not> px_registered P ((px_yield P ^^ j) v1)"
    "px_registered P ((px_yield P ^^ k) v1)" "px_mount P ''none'' ''/'' ''fuse'' ((px_yield P ^^ k) v1) = Some (Inr (), v3)" "valid v3"
    by blast
  then show thesis using that [OF v(1) wait_registered_yields [OF v(2,3)] v(4,5)] by blast
qed

end

text \<open>Paths of the tests.\<close>

lemma test_paths:
  "bytes_of ''/'' = [slash]" "bytes_of ''/hello'' = slash # hello_name" "bytes_of ''/foo'' = slash # bytes_of ''foo''"
  "bytes_of ''/nonexistent'' = slash # bytes_of ''nonexistent''"
  by (simp_all add: bytes_of_def hello_name_def slash_def)

lemma test_names [simp]:
  "plain_name []" "plain_name hello_name" "plain_name (bytes_of ''foo'')" "plain_name (bytes_of ''nonexistent'')"
  by (simp_all add: plain_name_def bytes_of_def hello_name_def slash_def)

lemma hello_children [simp]:
  "hello_child 1 hello_name = Some 2" "hello_child 1 (bytes_of ''foo'') = None" "hello_child 1 (bytes_of ''nonexistent'') = None"
  "bytes_of ''foo'' \<noteq> []" "bytes_of ''nonexistent'' \<noteq> []" "hello_name \<noteq> []"
  by (simp_all add: hello_child_def hello_name_def bytes_of_def)

lemma hello_attrs:
  "hello_attr 1 = Some (zero_stat\<lparr>st_ino := 1, st_mode := 0x41ED, st_nlink := 2\<rparr>)"
  "hello_attr 2 = Some (zero_stat\<lparr>st_ino := 2, st_mode := 0x8124, st_nlink := 1, st_size := 13\<rparr>)"
  by (simp_all add: hello_attr_def hello_stat_def Let_def)

lemma hello_contents: "hello_content 2 = Some hello_str"
  by (simp add: hello_content_def)

lemmas stat_modes = S_ISDIR_def S_ISREG_def

lemma entry_names [simp]:
  "d_name de = bytes_of ''.'' \<Longrightarrow> cname de = bytes_of ''.''" "d_name de = bytes_of ''..'' \<Longrightarrow> cname de = bytes_of ''..''"
  "d_name de = hello_name \<Longrightarrow> cname de = hello_name"
  by (simp_all add: cname_def bytes_of_def hello_name_def)

lemma entries_differ [simp]: "bytes_of ''.'' \<noteq> hello_name" "bytes_of ''..'' \<noteq> hello_name" "hello_name \<noteq> bytes_of ''.''" "hello_name \<noteq> bytes_of ''..''"
  by (simp_all add: bytes_of_def hello_name_def)

lemma hello_text: "hello_str = bytes_of ''Hello World!\<newline>''"
  by (simp add: hello_str_def)

lemma hello_str_cmp: "strcmp_eq (hello_str @ replicate 19 0) (bytes_of ''Hello World!\<newline>'' @ [0]) = Some True"
  by (simp add: hello_str_def bytes_of_def numeral_eq_Suc)

abbreviation fd_file :: "'u vfs \<Rightarrow> int \<Rightarrow> addr" where "fd_file v d \<equiv> fst (the (vf_fds v d))"
abbreviation fd_node :: "'u vfs \<Rightarrow> int \<Rightarrow> u64" where "fd_node v d \<equiv> fst (snd (the (vf_fds v d)))"
abbreviation fd_pos :: "'u vfs \<Rightarrow> int \<Rightarrow> int" where "fd_pos v d \<equiv> snd (snd (the (vf_fds v d)))"

lemma not_None_exE: "x \<noteq> None \<Longrightarrow> (\<And>a b c. x = Some (a, b, c) \<Longrightarrow> thesis) \<Longrightarrow> thesis"
  by auto

section \<open>The test file system behind the POSIX interface\<close>

locale hello_posix = posix_driver P view valid starting w uc dirbuf hello_ll_oper hello_serves
  for P :: "'v posix" and view :: "'v \<Rightarrow> 'u vfs" and valid starting w uc dirbuf

sublocale hello_posix \<subseteq> posix_tree hello_ll_oper hello_serves hello_answer hello_content hello_attr hello_child hello_entries
  P view valid starting w uc dirbuf
  by unfold_locales

context posix_tree
begin

text \<open>The loop over a directory: an invariant on the entries delivered so far, the local variables and the program's state.\<close>

lemma while_readdir_rule:
  assumes "valid (pg_os s)" "vf_dirs (view (pg_os s)) d = Some (f, n, of_nat (dir_offset es))" "dir n = Some (es @ fs)"
    and short: "\<And>i name. (i, name) \<in> set fs \<Longrightarrow> length name \<le> 255"
    and body: "\<And>i name de es a s. (i, name) \<in> set fs \<Longrightarrow> d_ino de = i \<Longrightarrow> d_name de = name \<Longrightarrow> I es a s \<Longrightarrow> valid (pg_os s) \<Longrightarrow>
      runs (body de a s) (\<lambda>(a, s'). I (es @ [(i, name)]) a s' \<and> valid (pg_os s') \<and> vf_dirs (view (pg_os s')) = vf_dirs (view (pg_os s)))"
    and frame: "\<And>es a s v. I es a s \<Longrightarrow> I es a (s\<lparr>pg_os := v\<rparr>)"
    and init: "I es a s"
    and final: "\<And>a s c. I (es @ fs) a s \<Longrightarrow> valid (pg_os s) \<Longrightarrow> vf_dirs (view (pg_os s)) d = Some (f, n, c) \<Longrightarrow> Q (a, s)"
  shows "runs (while_readdir P d body a s) Q"
  using assms
proof (induction fs arbitrary: es a s)
  case Nil
  have "runs (px_readdir P d (pg_os s)) (\<lambda>(de, v). de = None \<and> valid v \<and> same_files (view (pg_os s)) (view v))"
    by (rule readdir_rule [OF Nil.prems(1-3)]) simp_all
  then obtain v where "px_readdir P d (pg_os s) = Some (None, v)" "valid v" "same_files (view (pg_os s)) (view v)"
    by (auto simp: runs_def)
  then show ?case using Nil.prems(2,6-8)
    by (subst while_readdir.simps) (auto simp: sys_readdir_def same_files_def)
next
  case (Cons e fs)
  obtain i name where e: "e = (i, name)" by (cases e)
  let ?c = "of_nat (dir_offset (es @ [e])) :: u64"
  have "runs (px_readdir P d (pg_os s)) (\<lambda>(de, v). \<exists>x. de = Some x \<and> d_ino x = i \<and> d_name x = name \<and> valid v \<and>
      vf_dirs (view v) = (vf_dirs (view (pg_os s)))(d \<mapsto> (f, n, ?c)))"
    by (rule readdir_rule [OF Cons.prems(1-3)]) (use Cons.prems(4) in \<open>auto simp: e\<close>)
  then obtain x v where v: "px_readdir P d (pg_os s) = Some (Some x, v)" "d_ino x = i" "d_name x = name" "valid v"
    "vf_dirs (view v) = (vf_dirs (view (pg_os s)))(d \<mapsto> (f, n, ?c))"
    by (auto simp: runs_def)
  let ?s = "s\<lparr>pg_os := v\<rparr>"
  have "runs (body x a ?s) (\<lambda>(a, s'). I (es @ [e]) a s' \<and> valid (pg_os s') \<and> vf_dirs (view (pg_os s')) = vf_dirs (view (pg_os ?s)))"
    using Cons.prems(5) [of i name x es a ?s] Cons.prems(6,7) v(2-4) by (simp add: e)
  moreover have "runs (while_readdir P d body a' s') Q"
    if "I (es @ [e]) a' s'" "valid (pg_os s')" "vf_dirs (view (pg_os s')) = vf_dirs (view v)" for a' s'
    using that v(5) Cons.prems by (intro Cons.IH [of s' "es @ [e]" a']) auto
  ultimately show ?case
    by (subst while_readdir.simps) (auto simp: sys_readdir_def v(1) elim!: runs_mono)
qed

end

context hello_posix
begin

lemma hello_named:
  "names [] = Some 1" "names hello_name = Some 2" "names (bytes_of ''foo'') = None" "names (bytes_of ''nonexistent'') = None"
  by (simp_all add: names_def)

lemmas root_path = test_names(1) hello_named(1)
lemmas hello_path = test_names(2) hello_named(2)
lemmas foo_path = test_names(3) hello_named(3)
lemmas missing_path = test_names(4) hello_named(4)

lemma hello_stat_rules:
  assumes "valid v"
  shows "(\<And>a v'. st_ino a = 1 \<Longrightarrow> st_mode a = 0x41ED \<Longrightarrow> st_nlink a = 2 \<Longrightarrow> valid v' \<Longrightarrow> same_files (view v) (view v') \<Longrightarrow> Q (Inr a, v')) \<Longrightarrow>
      runs (px_stat P (bytes_of ''/'') v) Q"
    and "(\<And>a v'. st_ino a = 2 \<Longrightarrow> st_mode a = 0x8124 \<Longrightarrow> st_nlink a = 1 \<Longrightarrow> st_size a = 13 \<Longrightarrow> valid v' \<Longrightarrow> same_files (view v) (view v') \<Longrightarrow> Q (Inr a, v')) \<Longrightarrow>
      runs (px_stat P (bytes_of ''/hello'') v) Q"
    and "(\<And>v'. valid v' \<Longrightarrow> same_files (view v) (view v') \<Longrightarrow> Q (Inl ENOENT, v')) \<Longrightarrow> runs (px_stat P (bytes_of ''/foo'') v) Q"
    and "(\<And>v'. valid v' \<Longrightarrow> same_files (view v) (view v') \<Longrightarrow> Q (Inl ENOENT, v')) \<Longrightarrow> runs (px_stat P (bytes_of ''/nonexistent'') v) Q"
  unfolding test_paths
  by - (rule stat_rule [OF assms root_path hello_attrs(1)] stat_rule [OF assms hello_path hello_attrs(2)]
      stat_missing_rule [OF assms foo_path] stat_missing_rule [OF assms missing_path]; simp add: shows_attr_def)+

text \<open>In the rules for descriptors, the file, node and position of the descriptor are read off the state.\<close>

lemma hello_fstat_rules:
  assumes "valid v" "vf_fds (view v) d \<noteq> None"
  shows "fd_node (view v) d = 1 \<Longrightarrow> (\<And>a v'. st_ino a = 1 \<Longrightarrow> st_mode a = 0x41ED \<Longrightarrow> st_nlink a = 2 \<Longrightarrow> valid v' \<Longrightarrow>
      same_files (view v) (view v') \<Longrightarrow> Q (Inr a, v')) \<Longrightarrow> runs (px_fstat P d v) Q"
    and "fd_node (view v) d = 2 \<Longrightarrow> (\<And>a v'. st_ino a = 2 \<Longrightarrow> st_mode a = 0x8124 \<Longrightarrow> st_nlink a = 1 \<Longrightarrow> st_size a = 13 \<Longrightarrow> valid v' \<Longrightarrow>
      same_files (view v) (view v') \<Longrightarrow> Q (Inr a, v')) \<Longrightarrow> runs (px_fstat P d v) Q"
  using assms(2)
  by - (elim not_None_exE, rule fstat_rule [OF assms(1) _ hello_attrs(1)] fstat_rule [OF assms(1) _ hello_attrs(2)]; simp add: shows_attr_def)+

lemma hello_open_rules:
  assumes "valid v"
  shows "(\<And>d f v'. valid v' \<Longrightarrow> vf_fds (view v) d = None \<Longrightarrow> vf_fds (view v') = (vf_fds (view v))(d \<mapsto> (f, 1, 0)) \<Longrightarrow> vf_dirs (view v') = vf_dirs (view v) \<Longrightarrow>
      Q (Inr d, v')) \<Longrightarrow> runs (px_open P (bytes_of ''/'') v) Q"
    and "(\<And>d f v'. valid v' \<Longrightarrow> vf_fds (view v) d = None \<Longrightarrow> vf_fds (view v') = (vf_fds (view v))(d \<mapsto> (f, 2, 0)) \<Longrightarrow> vf_dirs (view v') = vf_dirs (view v) \<Longrightarrow>
      Q (Inr d, v')) \<Longrightarrow> runs (px_open P (bytes_of ''/hello'') v) Q"
    and "(\<And>v'. valid v' \<Longrightarrow> same_files (view v) (view v') \<Longrightarrow> Q (Inl ENOENT, v')) \<Longrightarrow> runs (px_open P (bytes_of ''/nonexistent'') v) Q"
    and "(\<And>d f v'. valid v' \<Longrightarrow> vf_dirs (view v) d = None \<Longrightarrow> vf_dirs (view v') = (vf_dirs (view v))(d \<mapsto> (f, 1, 0)) \<Longrightarrow> vf_fds (view v') = vf_fds (view v) \<Longrightarrow>
      Q (Inr d, v')) \<Longrightarrow> runs (px_opendir P (bytes_of ''/'') v) Q"
  unfolding test_paths by - (rule open_rule [OF assms root_path] open_rule [OF assms hello_path]
      open_missing_rule [OF assms missing_path] opendir_rule [OF assms root_path]; simp)+

lemma hello_access_rules:
  assumes "valid v"
  shows "mode = F_OK \<or> mode = R_OK \<Longrightarrow> (\<And>v'. valid v' \<Longrightarrow> same_files (view v) (view v') \<Longrightarrow> Q (Inr (), v')) \<Longrightarrow> runs (px_access P (bytes_of ''/'') mode v) Q"
    and "mode = F_OK \<or> mode = R_OK \<Longrightarrow> (\<And>v'. valid v' \<Longrightarrow> same_files (view v) (view v') \<Longrightarrow> Q (Inr (), v')) \<Longrightarrow> runs (px_access P (bytes_of ''/hello'') mode v) Q"
    and "(\<And>v'. valid v' \<Longrightarrow> same_files (view v) (view v') \<Longrightarrow> Q (Inl ENOENT, v')) \<Longrightarrow> runs (px_access P (bytes_of ''/nonexistent'') mode v) Q"
  unfolding test_paths
  by - (rule access_rule [OF assms root_path hello_attrs(1)] access_rule [OF assms hello_path hello_attrs(2)]
      access_missing_rule [OF assms missing_path]; simp)+

lemma hello_read_rule:
  assumes "valid v" "vf_fds (view v) d \<noteq> None" "fd_node (view v) d = 2" "fd_pos (view v) d < 2 ^ 63" "len < 2 ^ 32"
    and "\<And>v'. valid v' \<Longrightarrow> vf_fds (view v') =
        (vf_fds (view v))(d \<mapsto> (fd_file (view v) d, 2, fd_pos (view v) d + int (length (take len (drop (nat (fd_pos (view v) d)) hello_str))))) \<Longrightarrow>
      vf_dirs (view v') = vf_dirs (view v) \<Longrightarrow> Q (Inr (take len (drop (nat (fd_pos (view v) d)) hello_str)), v')"
  shows "runs (px_read P d len v) Q"
  using assms(2) by (elim not_None_exE) (rule read_rule [OF assms(1) _ hello_contents]; use assms(3-6) in simp)

lemma hello_pread_rule:
  assumes "valid v" "vf_fds (view v) d \<noteq> None" "fd_node (view v) d = 2" "0 \<le> pos" "pos < 2 ^ 63" "len < 2 ^ 32"
    and "\<And>v'. valid v' \<Longrightarrow> same_files (view v) (view v') \<Longrightarrow> Q (Inr (take len (drop (nat pos) hello_str)), v')"
  shows "runs (px_pread P d len pos v) Q"
  using assms(2) by (elim not_None_exE) (rule pread_rule [OF assms(1) _ hello_contents]; use assms(3-7) in simp)

lemma hello_lseek_rules:
  assumes "valid v" "vf_fds (view v) d \<noteq> None"
  shows "0 \<le> k \<Longrightarrow> k < 2 ^ 63 \<Longrightarrow> (\<And>v'. valid v' \<Longrightarrow> vf_fds (view v') = (vf_fds (view v))(d \<mapsto> (fd_file (view v) d, fd_node (view v) d, k)) \<Longrightarrow>
      vf_dirs (view v') = vf_dirs (view v) \<Longrightarrow> Q (Inr k, v')) \<Longrightarrow> runs (px_lseek P d k SEEK_SET v) Q"
    and "0 \<le> fd_pos (view v) d + k \<Longrightarrow> fd_pos (view v) d + k < 2 ^ 63 \<Longrightarrow>
      (\<And>v'. valid v' \<Longrightarrow> vf_fds (view v') = (vf_fds (view v))(d \<mapsto> (fd_file (view v) d, fd_node (view v) d, fd_pos (view v) d + k)) \<Longrightarrow>
        vf_dirs (view v') = vf_dirs (view v) \<Longrightarrow> Q (Inr (fd_pos (view v) d + k), v')) \<Longrightarrow> runs (px_lseek P d k SEEK_CUR v) Q"
    and "fd_node (view v) d = 2 \<Longrightarrow> 0 \<le> 13 + k \<Longrightarrow> 13 + k < (2 ^ 63 :: int) \<Longrightarrow>
      (\<And>v'. valid v' \<Longrightarrow> vf_fds (view v') = (vf_fds (view v))(d \<mapsto> (fd_file (view v) d, 2, 13 + k)) \<Longrightarrow>
        vf_dirs (view v') = vf_dirs (view v) \<Longrightarrow> Q (Inr (13 + k), v')) \<Longrightarrow> runs (px_lseek P d k SEEK_END v) Q"
  using assms(2)
  by - (elim not_None_exE, rule lseek_set_rule [OF assms(1)] lseek_cur_rule [OF assms(1)]
      lseek_end_rule [OF assms(1) _ hello_attrs(2), where pos = "13 + k"]; (assumption | simp))+

lemmas hello_rules = hello_stat_rules hello_open_rules hello_access_rules hello_read_rule hello_pread_rule hello_lseek_rules
  close_rule closedir_rule

text \<open>The loop over the root directory.\<close>

lemma root_loop_rule:
  assumes "valid (pg_os s)" "\<exists>f. vf_dirs (view (pg_os s)) d = Some (f, 1, 0)"
    and body: "\<And>i name de es a s. (i, name) \<in> {(1, bytes_of ''.''), (1, bytes_of ''..''), (2, hello_name)} \<Longrightarrow> d_ino de = i \<Longrightarrow> d_name de = name \<Longrightarrow>
      I es a s \<Longrightarrow> valid (pg_os s) \<Longrightarrow>
      runs (body de a s) (\<lambda>(a, s'). I (es @ [(i, name)]) a s' \<and> valid (pg_os s') \<and> vf_dirs (view (pg_os s')) = vf_dirs (view (pg_os s)))"
    and frame: "\<And>es a s v. I es a s \<Longrightarrow> I es a (s\<lparr>pg_os := v\<rparr>)"
    and init: "I [] a s"
    and final: "\<And>a s c. I [(1, bytes_of ''.''), (1, bytes_of ''..''), (2, hello_name)] a s \<Longrightarrow> valid (pg_os s) \<Longrightarrow>
      vf_dirs (view (pg_os s)) d \<noteq> None \<Longrightarrow> Q (a, s)"
  shows "runs (while_readdir P d body a s) Q"
proof -
  from assms(2) obtain f where f: "vf_dirs (view (pg_os s)) d = Some (f, 1, 0)" ..
  show ?thesis
  proof (rule while_readdir_rule [OF assms(1), of d f 1 "[]" "[(1, bytes_of ''.''), (1, bytes_of ''..''), (2, hello_name)]" I])
    show "hello_entries 1 = Some ([] @ [(1, bytes_of ''.''), (1, bytes_of ''..''), (2, hello_name)])" by (simp add: hello_entries_def)
  qed (use f body frame init final in auto)
qed

text \<open>The tests of the functional test pass, and so does the program.\<close>

definition passes :: "(('v, 'm) prog_scheme \<Rightarrow> (bool \<times> ('v, 'm) prog_scheme) option) \<Rightarrow> bool" where
  "passes t \<longleftrightarrow> (\<forall>s. valid (pg_os s) \<longrightarrow> runs (t s) (\<lambda>(ok, s'). ok \<and> valid (pg_os s')))"

lemma passesD: "passes t \<Longrightarrow> valid (pg_os s) \<Longrightarrow> (\<And>s'. valid (pg_os s') \<Longrightarrow> Q (True, s')) \<Longrightarrow> runs (t s) Q"
  by (fastforce simp: passes_def elim: runs_mono)

lemma ft_stat_passes: "passes (ft_stat_root P)" "passes (ft_stat_hello P)" "passes (ft_stat_missing P)"
  by (auto simp: passes_def ft_stat_root_def ft_stat_hello_def ft_stat_missing_def stat_modes Let_def intro!: hello_rules)

lemma ft_read_passes: "passes (ft_read P)"
  by (auto simp: passes_def ft_read_def Let_def ssize_def fill_def hello_str_cmp intro!: hello_rules)

lemma ft_readdir_passes: "passes (ft_readdir P)"
  by (auto simp: passes_def ft_readdir_def Let_def hello_name_def [symmetric]
      intro!: hello_rules root_loop_rule [where I = "\<lambda>es found s. found = ((2, hello_name) \<in> set es)"])

lemma fuse_test_passes:
  assumes "starting (pg_os s)" and "ready w"
  shows "runs (fuse_test_main P s) (\<lambda>(r, s'). r = Returns 0 \<and> (\<exists>out. pg_out s' = out @ [(''\<newline>All Tests and Benchmarks Passed!\<newline>'', [])]))"
proof -
  obtain v1 v2 v3 where start: "px_thread_create P (pg_os s) = (True, v1)" "wait_registered P v1 = Some v2"
    "px_mount P ''none'' ''/'' ''fuse'' v2 = Some (Inr (), v3)" "valid v3"
    by (rule boots [OF assms])
  show ?thesis
    unfolding fuse_test_main_def
    by (simp add: start Let_def) (auto intro!: ft_stat_passes [THEN passesD] ft_read_passes [THEN passesD] ft_readdir_passes [THEN passesD] simp: start printf_def)
qed

end

end
