(* ===== verification/Correctness_Suite.thy ===== *)
theory Correctness_Suite
  imports Test_Programs
begin

text \<open>
  The correctness test suite, \<^verbatim>\<open>apps/fuse-correctness-test/main.c\<close>: its checks of single facts, its 24 tests and its main
  function, on top of the POSIX interface of \<open>Posix_Driver\<close>. The lemmas show that every test passes on the test file
  system, whatever system provides that interface.
\<close>

section \<open>Infrastructure\<close>

record 'v suite = "'v prog" +
  test_passed :: u32
  test_failed :: u32

type_synonym 'v test = "'v posix \<Rightarrow> 'v suite \<Rightarrow> 'v suite option"

definition TEST_PASS :: "string \<Rightarrow> 'v suite \<Rightarrow> 'v suite option" where
  "TEST_PASS name s = (let s = printf ''[PASS] %s\<newline>'' [PStr (bytes_of name)] s in Some (s\<lparr>test_passed := test_passed s + 1\<rparr>))"

definition TEST_FAIL :: "string \<Rightarrow> string \<Rightarrow> pf_arg list \<Rightarrow> 'v suite \<Rightarrow> 'v suite option" where
  "TEST_FAIL name fmt args s =
     (let s = printf (''[FAIL] %s: '' @ fmt @ ''\<newline>'') (PStr (bytes_of name) # args) s in Some (s\<lparr>test_failed := test_failed s + 1\<rparr>))"

abbreviation errno :: "('v, 'm) prog_scheme \<Rightarrow> pf_arg" where "errno s \<equiv> PInt (pg_errno s)"

section \<open>Checks\<close>

text \<open>The checks with \<^verbatim>\<open>stat\<close>: 0 when the attributes satisfy the condition, \<open>-1\<close> otherwise.\<close>

definition check_stat :: "(stat \<Rightarrow> bool) \<Rightarrow> 'v posix \<Rightarrow> byte list \<Rightarrow> 'v suite \<Rightarrow> (int \<times> 'v suite) option" where
  "check_stat good P path s = do {
     (r, s) \<leftarrow> syscall (px_stat P path) s;
     case r of
       Inl _ \<Rightarrow> Some (- 1, s)
     | Inr a \<Rightarrow> if \<not> good a then Some (- 1, s) else Some (0, s)
   }"

definition check_type :: "'v posix \<Rightarrow> byte list \<Rightarrow> u32 \<Rightarrow> 'v suite \<Rightarrow> (int \<times> 'v suite) option" where
  "check_type P path expected_type = check_stat (\<lambda>a. st_mode a AND S_IFMT = expected_type) P path"

definition check_mode :: "'v posix \<Rightarrow> byte list \<Rightarrow> u32 \<Rightarrow> 'v suite \<Rightarrow> (int \<times> 'v suite) option" where
  "check_mode P path expected_perm = check_stat (\<lambda>a. st_mode a AND 0x1FF = expected_perm) P path"

definition check_size :: "'v posix \<Rightarrow> byte list \<Rightarrow> u64 \<Rightarrow> 'v suite \<Rightarrow> (int \<times> 'v suite) option" where
  "check_size P path expected_size = check_stat (\<lambda>a. st_size a = expected_size) P path"

definition check_nlink :: "'v posix \<Rightarrow> byte list \<Rightarrow> u64 \<Rightarrow> 'v suite \<Rightarrow> (int \<times> 'v suite) option" where
  "check_nlink P path expected = check_stat (\<lambda>a. st_nlink a = expected) P path"

definition check_ino :: "'v posix \<Rightarrow> byte list \<Rightarrow> u64 \<Rightarrow> 'v suite \<Rightarrow> (int \<times> 'v suite) option" where
  "check_ino P path expected = check_stat (\<lambda>a. st_ino a = expected) P path"

definition check_data :: "'v posix \<Rightarrow> byte list \<Rightarrow> byte list \<Rightarrow> int \<Rightarrow> nat \<Rightarrow> 'v suite \<Rightarrow> (int \<times> 'v suite) option" where
  "check_data P path data offset len s = do {
     let buf = fresh_array P 256;
     (fd, s) \<leftarrow> syscall (px_open P path) s;
     case fd of
       Inl _ \<Rightarrow> Some (- 1, s)
     | Inr fd \<Rightarrow> do {
         (pos, s) \<leftarrow> syscall (px_lseek P fd offset SEEK_SET) s;
         case pos of
           Inl _ \<Rightarrow> do { (_, s) \<leftarrow> syscall (px_close P fd) s; Some (- 1, s) }
         | Inr _ \<Rightarrow> do {
             (n, s) \<leftarrow> syscall (px_read P fd len) s;
             let buf = fill buf n;
             (_, s) \<leftarrow> syscall (px_close P fd) s;
             if ssize n \<noteq> int len then Some (- 1, s)
             else if \<not> memcmp_eq buf data len then Some (- 1, s)
             else Some (0, s)
           }
       }
   }"

definition check_nonexist :: "'v posix \<Rightarrow> byte list \<Rightarrow> 'v suite \<Rightarrow> (int \<times> 'v suite) option" where
  "check_nonexist P path s = do {
     (res, s) \<leftarrow> syscall (px_stat P path) s;
     case res of
       Inr _ \<Rightarrow> Some (- 1, s)
     | Inl _ \<Rightarrow> if pg_errno s \<noteq> ENOENT then Some (- 1, s) else Some (0, s)
   }"

section \<open>Tests\<close>

definition test_stat_root :: "'v test" where
  "test_stat_root P s = (
     let name = ''T1: stat(\"/\") - root dir attributes'' in do {
     (r, s) \<leftarrow> syscall (px_stat P (bytes_of ''/'')) s;
     case r of
       Inl _ \<Rightarrow> TEST_FAIL name ''stat failed: errno=%d'' [errno s] s
     | Inr a \<Rightarrow>
         if \<not> S_ISDIR (st_mode a) then TEST_FAIL name ''not a directory: st_mode=0%o'' [PInt (uint (st_mode a))] s
         else if st_ino a \<noteq> 1 then TEST_FAIL name ''st_ino=%llu expected 1'' [PInt (uint (st_ino a))] s
         else if st_nlink a < 2 then TEST_FAIL name ''st_nlink=%lu expected >=2'' [PInt (uint (st_nlink a))] s
         else TEST_PASS name s
   })"

definition test_stat_file :: "'v test" where
  "test_stat_file P s = (
     let name = ''T2: stat(\"/hello\") - file attributes'' in do {
     (r, s) \<leftarrow> syscall (px_stat P (bytes_of ''/hello'')) s;
     case r of
       Inl _ \<Rightarrow> TEST_FAIL name ''stat failed: errno=%d'' [errno s] s
     | Inr a \<Rightarrow>
         if \<not> S_ISREG (st_mode a) then TEST_FAIL name ''not a regular file: st_mode=0%o'' [PInt (uint (st_mode a))] s
         else if st_mode a AND 0x1FF \<noteq> 0x124 then TEST_FAIL name ''mode=0%o expected 0444'' [PInt (uint (st_mode a AND 0x1FF))] s
         else if st_ino a \<noteq> 2 then TEST_FAIL name ''st_ino=%llu expected 2'' [PInt (uint (st_ino a))] s
         else if st_nlink a \<noteq> 1 then TEST_FAIL name ''st_nlink=%lu expected 1'' [PInt (uint (st_nlink a))] s
         else if st_size a \<noteq> 13 then TEST_FAIL name ''st_size=%lld expected 13'' [PInt (sint (st_size a))] s
         else TEST_PASS name s
   })"

definition test_stat_enoent :: "'v test" where
  "test_stat_enoent P s = (
     let name = ''T3: stat(\"/nonexistent\") - ENOENT'' in do {
     (r, s) \<leftarrow> check_nonexist P (bytes_of ''/nonexistent'') s;
     if r \<noteq> 0 then TEST_FAIL name ''expected ENOENT, got errno=%d or file exists'' [errno s] s
     else TEST_PASS name s
   })"

definition test_fstat_file :: "'v test" where
  "test_fstat_file P s = (
     let name = ''T4: fstat(\"/hello\") - matches stat()'' in do {
     (r, s) \<leftarrow> syscall (px_stat P (bytes_of ''/hello'')) s;
     case r of
       Inl _ \<Rightarrow> TEST_FAIL name ''stat failed: errno=%d'' [errno s] s
     | Inr st_path \<Rightarrow> do {
         (fd, s) \<leftarrow> syscall (px_open P (bytes_of ''/hello'')) s;
         case fd of
           Inl _ \<Rightarrow> TEST_FAIL name ''open failed: errno=%d'' [errno s] s
         | Inr fd \<Rightarrow> do {
             (r, s) \<leftarrow> syscall (px_fstat P fd) s;
             case r of
               Inl _ \<Rightarrow> do {
                 s \<leftarrow> TEST_FAIL name ''fstat failed: errno=%d'' [errno s] s;
                 (_, s) \<leftarrow> syscall (px_close P fd) s;
                 Some s
               }
             | Inr st_fd \<Rightarrow> do {
                 (_, s) \<leftarrow> syscall (px_close P fd) s;
                 if st_ino st_fd \<noteq> st_ino st_path \<or> st_mode st_fd \<noteq> st_mode st_path \<or>
                    st_size st_fd \<noteq> st_size st_path \<or> st_nlink st_fd \<noteq> st_nlink st_path
                 then TEST_FAIL name ''fstat and stat disagree'' [] s
                 else TEST_PASS name s
               }
           }
       }
   })"

definition test_open_enoent :: "'v test" where
  "test_open_enoent P s = (
     let name = ''T5: open(\"/nonexistent\", O_RDONLY) - ENOENT'' in do {
     (fd, s) \<leftarrow> syscall (px_open P (bytes_of ''/nonexistent'')) s;
     case fd of
       Inr fd \<Rightarrow> do {
         s \<leftarrow> TEST_FAIL name ''open succeeded unexpectedly'' [] s;
         (_, s) \<leftarrow> syscall (px_close P fd) s;
         Some s
       }
     | Inl _ \<Rightarrow>
         if pg_errno s \<noteq> ENOENT then TEST_FAIL name ''errno=%d expected ENOENT'' [errno s] s
         else TEST_PASS name s
   })"

definition test_open_dir :: "'v test" where
  "test_open_dir P s = (
     let name = ''T6: open(\"/\", O_RDONLY) - directory opens'' in do {
     (fd, s) \<leftarrow> syscall (px_open P (bytes_of ''/'')) s;
     case fd of
       Inl _ \<Rightarrow> TEST_FAIL name ''open failed: errno=%d'' [errno s] s
     | Inr fd \<Rightarrow> do {
         (r, s) \<leftarrow> syscall (px_fstat P fd) s;
         case r of
           Inl _ \<Rightarrow> do {
             s \<leftarrow> TEST_FAIL name ''fstat failed: errno=%d'' [errno s] s;
             (_, s) \<leftarrow> syscall (px_close P fd) s;
             Some s
           }
         | Inr a \<Rightarrow> do {
             (_, s) \<leftarrow> syscall (px_close P fd) s;
             if \<not> S_ISDIR (st_mode a) then TEST_FAIL name ''fstat: not a directory, mode=0%o'' [PInt (uint (st_mode a))] s
             else TEST_PASS name s
           }
       }
   })"

definition test_read_full :: "'v test" where
  "test_read_full P s = (
     let name = ''T7: read(\"/hello\") - full content correct''; expected = bytes_of ''Hello World!\<newline>'' in do {
     (r, s) \<leftarrow> check_data P (bytes_of ''/hello'') expected 0 13 s;
     if r \<noteq> 0 then TEST_FAIL name ''data mismatch or read error'' [] s
     else TEST_PASS name s
   })"

definition test_read_offset :: "'v test" where
  "test_read_offset P s = (
     let name = ''T8: read(\"/hello\", offset=7) - partial content'' in do {
     (r, s) \<leftarrow> check_data P (bytes_of ''/hello'') (bytes_of ''orld!\<newline>'') 7 6 s;
     if r \<noteq> 0 then TEST_FAIL name ''data mismatch at offset 7'' [] s
     else TEST_PASS name s
   })"

definition test_read_eof :: "'v test" where
  "test_read_eof P s = (
     let name = ''T9: read at EOF - returns 0'' in do {
     (fd, s) \<leftarrow> syscall (px_open P (bytes_of ''/hello'')) s;
     case fd of
       Inl _ \<Rightarrow> TEST_FAIL name ''open failed: errno=%d'' [errno s] s
     | Inr fd \<Rightarrow> do {
         (pos, s) \<leftarrow> syscall (px_lseek P fd 100 SEEK_SET) s;
         case pos of
           Inl _ \<Rightarrow> do {
             s \<leftarrow> TEST_FAIL name ''lseek failed: errno=%d'' [errno s] s;
             (_, s) \<leftarrow> syscall (px_close P fd) s;
             Some s
           }
         | Inr _ \<Rightarrow> do {
             (n, s) \<leftarrow> syscall (px_read P fd 16) s;
             (_, s) \<leftarrow> syscall (px_close P fd) s;
             if ssize n \<noteq> 0 then TEST_FAIL name ''read returned %ld, expected 0'' [PInt (ssize n)] s
             else TEST_PASS name s
           }
       }
   })"

definition test_read_partial :: "'v test" where
  "test_read_partial P s = (
     let name = ''T10: read(\"/hello\", size=5) - partial read'' in do {
     (r, s) \<leftarrow> check_data P (bytes_of ''/hello'') (bytes_of ''Hello'') 0 5 s;
     if r \<noteq> 0 then TEST_FAIL name ''first 5 bytes mismatch'' [] s
     else TEST_PASS name s
   })"

definition test_read_sequential :: "'v test" where
  "test_read_sequential P s = (
     let name = ''T11: sequential reads - offset advances''; buf1 = fresh_array P 6; buf2 = fresh_array P 8 in do {
     (fd, s) \<leftarrow> syscall (px_open P (bytes_of ''/hello'')) s;
     case fd of
       Inl _ \<Rightarrow> TEST_FAIL name ''open failed: errno=%d'' [errno s] s
     | Inr fd \<Rightarrow> do {
         (n1, s) \<leftarrow> syscall (px_read P fd 5) s;
         (n2, s) \<leftarrow> syscall (px_read P fd 8) s;
         (_, s) \<leftarrow> syscall (px_close P fd) s;
         if ssize n1 \<noteq> 5 then TEST_FAIL name ''first read returned %ld, expected 5'' [PInt (ssize n1)] s
         else if ssize n2 \<noteq> 8 then TEST_FAIL name ''second read returned %ld, expected 8'' [PInt (ssize n2)] s
         else if \<not> memcmp_eq (fill buf1 n1) (bytes_of ''Hello'') 5 then TEST_FAIL name ''first chunk mismatch'' [] s
         else if \<not> memcmp_eq (fill buf2 n2) (bytes_of '' World!\<newline>'') 8 then TEST_FAIL name ''second chunk mismatch'' [] s
         else TEST_PASS name s
       }
   })"

text \<open>\<^verbatim>\<open>d_name\<close> is \<open>.\<close> or \<open>..\<close>, character by character.\<close>

definition dot_or_dotdot :: "uk_fs_dirent \<Rightarrow> bool" where
  "dot_or_dotdot de \<longleftrightarrow> (let n = cname de @ [0] in n ! 0 = 0x2E \<and> (n ! 1 = 0 \<or> (n ! 1 = 0x2E \<and> n ! 2 = 0)))"

definition test_readdir_contents :: "'v test" where
  "test_readdir_contents P s = (
     let name = ''T12: readdir(\"/\") - all entries present'' in do {
     (dp, s) \<leftarrow> syscall (px_opendir P (bytes_of ''/'')) s;
     case dp of
       Inl _ \<Rightarrow> TEST_FAIL name ''opendir failed: errno=%d'' [errno s] s
     | Inr dp \<Rightarrow> do {
         ((found_hello, unexpected), s) \<leftarrow> while_readdir P dp (\<lambda>de (found_hello, unexpected) s.
            if dot_or_dotdot de then Some ((found_hello, unexpected), s)
            else if cname de = bytes_of ''hello'' then Some ((found_hello + 1, unexpected), s)
            else Some ((found_hello, unexpected + 1), printf ''  [unexpected entry: %s]\<newline>'' [PStr (cname de)] s)) (0 :: int, 0 :: int) s;
         (_, s) \<leftarrow> syscall (px_closedir P dp) s;
         if found_hello = 0 then TEST_FAIL name ''entry 'hello' not found'' [] s
         else if found_hello > 1 then TEST_FAIL name (''duplicate entry 'hello'' @ [CHR 0x27]) [] s
         else if unexpected \<noteq> 0 then TEST_FAIL name ''%d unexpected entries'' [PInt unexpected] s
         else TEST_PASS name s
       }
   })"

definition test_readdir_ino :: "'v test" where
  "test_readdir_ino P s = (
     let name = ''T13: readdir(\"/\") - d_ino matches stat()'' in do {
     (dp, s) \<leftarrow> syscall (px_opendir P (bytes_of ''/'')) s;
     case dp of
       Inl _ \<Rightarrow> TEST_FAIL name ''opendir failed: errno=%d'' [errno s] s
     | Inr dp \<Rightarrow> do {
         (err, s) \<leftarrow> while_readdir P dp (\<lambda>de err s.
            if dot_or_dotdot de then Some (err, s)
            else
              (let path = take 63 (bytes_of ''/'' @ cname de) in do {
                (r, s) \<leftarrow> syscall (px_stat P path) s;
                case r of
                  Inl _ \<Rightarrow> Some (err + 1, printf ''  [stat failed for %s]\<newline>'' [PStr path] s)
                | Inr a \<Rightarrow>
                    if d_ino de \<noteq> st_ino a then
                      Some (err + 1, printf ''  [%s: d_ino=%llu != st_ino=%llu]\<newline>''
                        [PStr (cname de), PInt (uint (d_ino de)), PInt (uint (st_ino a))] s)
                    else Some (err, s)
              })) (0 :: int) s;
         (_, s) \<leftarrow> syscall (px_closedir P dp) s;
         if err \<noteq> 0 then TEST_FAIL name ''%d inode mismatches'' [PInt err] s
         else TEST_PASS name s
       }
   })"

text \<open>The loop \<^verbatim>\<open>for (int i = 0; i < 3; i++)\<close>, with the iterations left.\<close>

fun readdir_repeat :: "string \<Rightarrow> nat \<Rightarrow> 'v posix \<Rightarrow> 'v suite \<Rightarrow> 'v suite option" where
  "readdir_repeat name 0 P s = TEST_PASS name s"
| "readdir_repeat name (Suc n) P s = do {
     (dp, s) \<leftarrow> syscall (px_opendir P (bytes_of ''/'')) s;
     case dp of
       Inl _ \<Rightarrow> TEST_FAIL name ''iteration %d: opendir failed: errno=%d'' [PInt (2 - int n), errno s] s
     | Inr dp \<Rightarrow> do {
         (_, s) \<leftarrow> while_readdir P dp (\<lambda>de u s. Some (u, s)) () s;
         (_, s) \<leftarrow> syscall (px_closedir P dp) s;
         readdir_repeat name n P s
       }
   }"

definition test_readdir_repeated :: "'v test" where
  "test_readdir_repeated = readdir_repeat ''T14: opendir/closedir x3 - no crash'' 3"

definition test_two_fds :: "'v test" where
  "test_two_fds P s = (
     let name = ''T24: two fds on \"/hello\" - independent positions''; buf1 = replicate 8 0; buf2 = replicate 8 0 in do {
     (fd1, s) \<leftarrow> syscall (px_open P (bytes_of ''/hello'')) s;
     case fd1 of
       Inl _ \<Rightarrow> TEST_FAIL name ''fd1 open failed: errno=%d'' [errno s] s
     | Inr fd1 \<Rightarrow> do {
         (fd2, s) \<leftarrow> syscall (px_open P (bytes_of ''/hello'')) s;
         case fd2 of
           Inl _ \<Rightarrow> do {
             s \<leftarrow> TEST_FAIL name ''fd2 open failed: errno=%d'' [errno s] s;
             (_, s) \<leftarrow> syscall (px_close P fd1) s;
             Some s
           }
         | Inr fd2 \<Rightarrow> do {
             (pos, s) \<leftarrow> syscall (px_lseek P fd1 7 SEEK_SET) s;
             if pos \<noteq> Inr 7 then do {
               s \<leftarrow> TEST_FAIL name ''lseek fd1 failed: errno=%d'' [errno s] s;
               (_, s) \<leftarrow> syscall (px_close P fd1) s;
               (_, s) \<leftarrow> syscall (px_close P fd2) s;
               Some s
             } else do {
               (n2, s) \<leftarrow> syscall (px_read P fd2 5) s;
               let buf2 = fill buf2 n2;
               (n1, s) \<leftarrow> syscall (px_read P fd1 5) s;
               let buf1 = fill buf1 n1;
               (_, s) \<leftarrow> syscall (px_close P fd1) s;
               (_, s) \<leftarrow> syscall (px_close P fd2) s;
               if ssize n2 \<noteq> 5 \<or> \<not> memcmp_eq buf2 (bytes_of ''Hello'') 5 then
                 TEST_FAIL name (''fd2 wrong: expected 'Hello' got '%.5s'' @ [CHR 0x27]) [PStr buf2] s
               else if ssize n1 \<noteq> 5 \<or> \<not> memcmp_eq buf1 (bytes_of ''orld!'') 5 then
                 TEST_FAIL name (''fd1 wrong: expected 'orld!' got '%.5s'' @ [CHR 0x27]) [PStr buf1] s
               else TEST_PASS name s
             }
           }
       }
   })"

text \<open>The conditions joined by \<open>||\<close> are checked in turn, up to the first that fails.\<close>

definition test_stat_after_read :: "'v test" where
  "test_stat_after_read P s = (
     let name = ''T15: stat(\"/hello\") after read - consistent'' in do {
     (fd, s) \<leftarrow> syscall (px_open P (bytes_of ''/hello'')) s;
     case fd of
       Inl _ \<Rightarrow> TEST_FAIL name ''open failed: errno=%d'' [errno s] s
     | Inr fd \<Rightarrow> do {
         (_, s) \<leftarrow> syscall (px_read P fd 5) s;
         (_, s) \<leftarrow> syscall (px_close P fd) s;
         (a, s) \<leftarrow> check_type P (bytes_of ''/hello'') S_IFREG s;
         (b, s) \<leftarrow> (if a \<noteq> 0 then Some (a, s) else check_size P (bytes_of ''/hello'') 13 s);
         (c, s) \<leftarrow> (if b \<noteq> 0 then Some (b, s) else check_ino P (bytes_of ''/hello'') 2 s);
         if c \<noteq> 0 then TEST_FAIL name ''stat inconsistent after read'' [] s
         else TEST_PASS name s
       }
   })"

text \<open>The first loop of the test, with the results so far.\<close>

fun stat_times :: "string \<Rightarrow> nat \<Rightarrow> stat list \<Rightarrow> 'v posix \<Rightarrow> 'v suite \<Rightarrow> (stat list option \<times> 'v suite) option" where
  "stat_times name 0 as P s = Some (Some as, s)"
| "stat_times name (Suc n) as P s = do {
     (r, s) \<leftarrow> syscall (px_stat P (bytes_of ''/hello'')) s;
     case r of
       Inl _ \<Rightarrow> do {
         s \<leftarrow> TEST_FAIL name ''stat [%d] failed: errno=%d'' [PInt (int (length as)), errno s] s;
         Some (None, s)
       }
     | Inr a \<Rightarrow> stat_times name n (as @ [a]) P s
   }"

definition test_stat_idempotent :: "'v test" where
  "test_stat_idempotent P s = (
     let name = ''T16: stat(\"/hello\") x3 - idempotent'' in do {
     (r, s) \<leftarrow> stat_times name 3 [] P s;
     case r of
       None \<Rightarrow> Some s
     | Some as \<Rightarrow>
         if st_ino (as ! 0) \<noteq> st_ino (as ! 1) \<or> st_ino (as ! 1) \<noteq> st_ino (as ! 2) \<or>
            st_size (as ! 0) \<noteq> st_size (as ! 1) \<or> st_size (as ! 1) \<noteq> st_size (as ! 2) \<or>
            st_mode (as ! 0) \<noteq> st_mode (as ! 1) \<or> st_mode (as ! 1) \<noteq> st_mode (as ! 2)
         then TEST_FAIL name ''stat returned different results across calls'' [] s
         else TEST_PASS name s
   })"

text \<open>The tests of positions. A result of \<^verbatim>\<open>lseek\<close> as the number it returns.\<close>

definition seek_result :: "int + int \<Rightarrow> int" where
  "seek_result r = (case r of Inl _ \<Rightarrow> - 1 | Inr pos \<Rightarrow> pos)"

definition test_lseek_seek_set :: "'v test" where
  "test_lseek_seek_set P s = (
     let name = ''T17: lseek(SEEK_SET, 6) + read - correct data''; buf = replicate 16 0 in do {
     (fd, s) \<leftarrow> syscall (px_open P (bytes_of ''/hello'')) s;
     case fd of
       Inl _ \<Rightarrow> TEST_FAIL name ''open failed: errno=%d'' [errno s] s
     | Inr fd \<Rightarrow> do {
         (pos, s) \<leftarrow> syscall (px_lseek P fd 6 SEEK_SET) s;
         if seek_result pos \<noteq> 6 then do {
           s \<leftarrow> TEST_FAIL name ''lseek returned %lld expected 6'' [PInt (seek_result pos)] s;
           (_, s) \<leftarrow> syscall (px_close P fd) s;
           Some s
         } else do {
           (n, s) \<leftarrow> syscall (px_read P fd 6) s;
           (_, s) \<leftarrow> syscall (px_close P fd) s;
           if ssize n \<noteq> 6 \<or> \<not> memcmp_eq (fill buf n) (bytes_of ''World!'') 6 then TEST_FAIL name ''data mismatch after SEEK_SET'' [] s
           else TEST_PASS name s
         }
       }
   })"

definition test_lseek_seek_cur :: "'v test" where
  "test_lseek_seek_cur P s = (
     let name = ''T18: lseek(SEEK_CUR, +3) - relative seek correct''; buf = replicate 16 0 in do {
     (fd, s) \<leftarrow> syscall (px_open P (bytes_of ''/hello'')) s;
     case fd of
       Inl _ \<Rightarrow> TEST_FAIL name ''open failed: errno=%d'' [errno s] s
     | Inr fd \<Rightarrow> do {
         (_, s) \<leftarrow> syscall (px_read P fd 5) s;
         (pos, s) \<leftarrow> syscall (px_lseek P fd 3 SEEK_CUR) s;
         if seek_result pos \<noteq> 8 then do {
           s \<leftarrow> TEST_FAIL name ''lseek returned %lld expected 8'' [PInt (seek_result pos)] s;
           (_, s) \<leftarrow> syscall (px_close P fd) s;
           Some s
         } else do {
           (n, s) \<leftarrow> syscall (px_read P fd 5) s;
           (_, s) \<leftarrow> syscall (px_close P fd) s;
           if ssize n \<noteq> 5 \<or> \<not> memcmp_eq (fill buf n) (bytes_of ''rld!\<newline>'') 5 then TEST_FAIL name ''data mismatch after SEEK_CUR'' [] s
           else TEST_PASS name s
         }
       }
   })"

definition test_lseek_seek_end :: "'v test" where
  "test_lseek_seek_end P s = (
     let name = ''T19: lseek(SEEK_END, -5) - seek from end correct''; buf = replicate 16 0 in do {
     (fd, s) \<leftarrow> syscall (px_open P (bytes_of ''/hello'')) s;
     case fd of
       Inl _ \<Rightarrow> TEST_FAIL name ''open failed: errno=%d'' [errno s] s
     | Inr fd \<Rightarrow> do {
         (pos, s) \<leftarrow> syscall (px_lseek P fd (- 5) SEEK_END) s;
         if seek_result pos \<noteq> 8 then do {
           s \<leftarrow> TEST_FAIL name ''lseek returned %lld expected 8'' [PInt (seek_result pos)] s;
           (_, s) \<leftarrow> syscall (px_close P fd) s;
           Some s
         } else do {
           (n, s) \<leftarrow> syscall (px_read P fd 5) s;
           (_, s) \<leftarrow> syscall (px_close P fd) s;
           if ssize n \<noteq> 5 \<or> \<not> memcmp_eq (fill buf n) (bytes_of ''rld!\<newline>'') 5 then TEST_FAIL name ''data mismatch after SEEK_END'' [] s
           else TEST_PASS name s
         }
       }
   })"

definition test_lseek_seek_end_size :: "'v test" where
  "test_lseek_seek_end_size P s = (
     let name = ''T20: lseek(SEEK_END, 0) == file size (13)'' in do {
     (fd, s) \<leftarrow> syscall (px_open P (bytes_of ''/hello'')) s;
     case fd of
       Inl _ \<Rightarrow> TEST_FAIL name ''open failed: errno=%d'' [errno s] s
     | Inr fd \<Rightarrow> do {
         (pos, s) \<leftarrow> syscall (px_lseek P fd 0 SEEK_END) s;
         (_, s) \<leftarrow> syscall (px_close P fd) s;
         if seek_result pos \<noteq> 13 then TEST_FAIL name ''SEEK_END returned %lld expected 13'' [PInt (seek_result pos)] s
         else TEST_PASS name s
       }
   })"

definition test_pread_no_offset_change :: "'v test" where
  "test_pread_no_offset_change P s = (
     let name = ''T21: pread(offset=7) - file offset unchanged''; buf = replicate 8 0 in do {
     (fd, s) \<leftarrow> syscall (px_open P (bytes_of ''/hello'')) s;
     case fd of
       Inl _ \<Rightarrow> TEST_FAIL name ''open failed: errno=%d'' [errno s] s
     | Inr fd \<Rightarrow> do {
         (_, s) \<leftarrow> syscall (px_lseek P fd 3 SEEK_SET) s;
         (n, s) \<leftarrow> syscall (px_pread P fd 6 7) s;
         if ssize n \<noteq> 6 \<or> \<not> memcmp_eq (fill buf n) (bytes_of ''orld!\<newline>'') 6 then do {
           s \<leftarrow> TEST_FAIL name ''pread returned wrong data'' [] s;
           (_, s) \<leftarrow> syscall (px_close P fd) s;
           Some s
         } else do {
           (cur, s) \<leftarrow> syscall (px_lseek P fd 0 SEEK_CUR) s;
           (_, s) \<leftarrow> syscall (px_close P fd) s;
           if seek_result cur \<noteq> 3 then TEST_FAIL name ''file offset moved to %lld after pread, expected 3'' [PInt (seek_result cur)] s
           else TEST_PASS name s
         }
       }
   })"

definition test_pread_multiple_offsets :: "'v test" where
  "test_pread_multiple_offsets P s = (
     let name = ''T22: pread at offsets 0, 6, 12 - data correct''; b0 = fresh_array P 6; b6 = fresh_array P 6; b12 = fresh_array P 2 in do {
     (fd, s) \<leftarrow> syscall (px_open P (bytes_of ''/hello'')) s;
     case fd of
       Inl _ \<Rightarrow> TEST_FAIL name ''open failed: errno=%d'' [errno s] s
     | Inr fd \<Rightarrow> do {
         (n0, s) \<leftarrow> syscall (px_pread P fd 5 0) s;
         (n6, s) \<leftarrow> syscall (px_pread P fd 6 6) s;
         (n12, s) \<leftarrow> syscall (px_pread P fd 1 12) s;
         (_, s) \<leftarrow> syscall (px_close P fd) s;
         if ssize n0 \<noteq> 5 \<or> \<not> memcmp_eq (fill b0 n0) (bytes_of ''Hello'') 5 then TEST_FAIL name ''pread(offset=0) mismatch'' [] s
         else if ssize n6 \<noteq> 6 \<or> \<not> memcmp_eq (fill b6 n6) (bytes_of ''World!'') 6 then TEST_FAIL name ''pread(offset=6) mismatch'' [] s
         else if ssize n12 \<noteq> 1 \<or> fill b12 n12 ! 0 \<noteq> 0x0A then TEST_FAIL name ''pread(offset=12) mismatch'' [] s
         else TEST_PASS name s
       }
   })"

definition test_access :: "'v test" where
  "test_access P s = (
     let name = ''T23: access() - F_OK, R_OK, ENOENT''; err = (0 :: int) in do {
     (r, s) \<leftarrow> syscall (px_access P (bytes_of ''/hello'') F_OK) s;
     let (err, s) = (if r \<noteq> Inr () then (err + 1, printf ''  [FAIL] access /hello F_OK: errno=%d\<newline>'' [errno s] s) else (err, s));
     (r, s) \<leftarrow> syscall (px_access P (bytes_of ''/hello'') R_OK) s;
     let (err, s) = (if r \<noteq> Inr () then (err + 1, printf ''  [FAIL] access /hello R_OK: errno=%d\<newline>'' [errno s] s) else (err, s));
     (r, s) \<leftarrow> syscall (px_access P (bytes_of ''/'') F_OK) s;
     let (err, s) = (if r \<noteq> Inr () then (err + 1, printf ''  [FAIL] access / F_OK: errno=%d\<newline>'' [errno s] s) else (err, s));
     (r, s) \<leftarrow> syscall (px_access P (bytes_of ''/nonexistent'') F_OK) s;
     let (err, s) = (if r = Inr () \<or> pg_errno s \<noteq> ENOENT
                     then (err + 1, printf ''  [FAIL] access /nonexistent F_OK should give ENOENT\<newline>'' [] s) else (err, s));
     if err \<noteq> 0 then TEST_FAIL name ''%d sub-checks failed'' [PInt err] s
     else TEST_PASS name s
   })"

section \<open>Main\<close>

definition suite_tests :: "'v test list" where
  "suite_tests = [test_stat_root, test_stat_file, test_stat_enoent, test_fstat_file, test_open_enoent, test_open_dir,
     test_read_full, test_read_offset, test_read_eof, test_read_partial, test_read_sequential, test_readdir_contents,
     test_readdir_ino, test_readdir_repeated, test_two_fds, test_stat_after_read, test_stat_idempotent,
     test_lseek_seek_set, test_lseek_seek_cur, test_lseek_seek_end, test_lseek_seek_end_size,
     test_pread_no_offset_change, test_pread_multiple_offsets, test_access]"

fun run_tests :: "'v test list \<Rightarrow> 'v test" where
  "run_tests [] P s = Some s"
| "run_tests (t # ts) P s = do { s \<leftarrow> t P s; run_tests ts P s }"

definition correctness_main :: "'v posix \<Rightarrow> 'v suite \<Rightarrow> (main_result \<times> 'v suite) option" where
  "correctness_main P s = (
     let s = print_lines [''\<newline>'', ''=====================================================\<newline>'', ''  UKFS-FUSE Correctness Test Suite\<newline>'',
           ''  Sources: libfuse/test_syscalls.c, pjdfstest, LTP\<newline>'', ''=====================================================\<newline>\<newline>''] s;
         (bt, v) = px_thread_create P (pg_os s);
         s = s\<lparr>pg_os := v\<rparr>
     in if \<not> bt then Some (Asserts, s)
     else do {
       v \<leftarrow> wait_registered P (pg_os s);
       let s = s\<lparr>pg_os := v\<rparr>;
       (ret, s) \<leftarrow> syscall (px_mount P ''none'' ''/'' ''fuse'') s;
       if ret \<noteq> Inr () then Some (Returns 1, printf ''FATAL: mount failed errno=%d\<newline>'' [errno s] s)
       else do {
         s \<leftarrow> run_tests suite_tests P (printf ''[+] FUSE filesystem mounted at /\<newline>\<newline>'' [] s);
         let s = printf ''\<newline>=====================================================\<newline>'' [] s;
         let s = printf ''  Results: %u passed, %u failed\<newline>'' [PInt (uint (test_passed s)), PInt (uint (test_failed s))] s;
         let s = printf ''=====================================================\<newline>'' [] s;
         if test_failed s > 0 then Some (Returns 1, printf ''CORRECTNESS TEST SUITE: FAILED\<newline>'' [] s)
         else Some (Returns 0, printf ''CORRECTNESS TEST SUITE: ALL PASSED\<newline>'' [] s)
       }
     })"

section \<open>The tests pass\<close>

lemma printf_suite [simp]: "test_passed (printf f a s) = test_passed s" "test_failed (printf f a s) = test_failed s"
  by (simp_all add: printf_def)

lemma verdicts [simp]:
  "runs (TEST_PASS name s) Q \<longleftrightarrow> Q (printf ''[PASS] %s\<newline>'' [PStr (bytes_of name)] s\<lparr>test_passed := test_passed s + 1\<rparr>)"
  by (simp add: TEST_PASS_def Let_def)

context hello_posix
begin

definition test_passes :: "'v test \<Rightarrow> bool" where
  "test_passes t \<longleftrightarrow> (\<forall>s. valid (pg_os s) \<longrightarrow> runs (t P s) (\<lambda>s'. valid (pg_os s') \<and>
     test_passed s' = test_passed s + 1 \<and> test_failed s' = test_failed s))"

lemma check_stat_rule:
  assumes "valid (pg_os s)" and "\<And>a. st_ino a = 2 \<Longrightarrow> st_mode a = 0x8124 \<Longrightarrow> st_nlink a = 1 \<Longrightarrow> st_size a = 13 \<Longrightarrow> good a"
    and "\<And>v. valid v \<Longrightarrow> Q (0, s\<lparr>pg_os := v\<rparr>)"
  shows "runs (check_stat good P (bytes_of ''/hello'') s) Q"
  using assms(2,3) by (auto simp: check_stat_def intro!: hello_rules assms(1))

lemma check_data_rule:
  assumes "valid (pg_os s)" and "0 \<le> off" "off < 2 ^ 63" "len < 2 ^ 32" "take len (drop (nat off) hello_str) = data" "length data = len"
    and "\<And>v. valid v \<Longrightarrow> Q (0, s\<lparr>pg_os := v\<rparr>)"
  shows "runs (check_data P (bytes_of ''/hello'') data off len s) Q"
  unfolding check_data_def using assms
  by (auto simp: Let_def ssize_def fill_def memcmp_eq_def intro!: hello_rules)

lemma attribute_tests:
  "test_passes test_stat_root" "test_passes test_stat_file" "test_passes test_stat_enoent" "test_passes test_fstat_file"
  "test_passes test_open_enoent"
  unfolding test_passes_def
  by (auto simp: test_stat_root_def test_stat_file_def test_stat_enoent_def check_nonexist_def test_fstat_file_def test_open_enoent_def
      stat_modes Let_def same_files_def intro!: hello_rules hello_fstat_rules(2))

lemma directory_test: "test_passes test_open_dir"
  unfolding test_passes_def
  by (auto simp: test_open_dir_def stat_modes Let_def same_files_def intro!: hello_rules hello_fstat_rules(1))

lemma hello_parts:
  "take 13 hello_str = bytes_of ''Hello World!\<newline>''" "take 6 (drop 7 hello_str) = bytes_of ''orld!\<newline>''"
  "take 5 hello_str = bytes_of ''Hello''" "take 8 (drop 5 hello_str) = bytes_of '' World!\<newline>''" "take 5 (drop 7 hello_str) = bytes_of ''orld!''"
  "take 6 (drop 6 hello_str) = bytes_of ''World!''" "take 5 (drop 8 hello_str) = bytes_of ''rld!\<newline>''" "drop 12 hello_str = [0x0A]"
  by (simp_all add: hello_str_def bytes_of_def)

lemma read_tests:
  "test_passes test_read_full" "test_passes test_read_offset" "test_passes test_read_partial"
  "test_passes test_read_eof" "test_passes test_read_sequential"
  unfolding test_passes_def
  by (auto simp: test_read_full_def test_read_offset_def test_read_partial_def test_read_eof_def test_read_sequential_def Let_def
      ssize_def fill_def memcmp_eq_def hello_parts intro!: hello_rules check_data_rule)

end

lemma entry_dots [simp]:
  "cname de = bytes_of ''.'' \<Longrightarrow> dot_or_dotdot de" "cname de = bytes_of ''..'' \<Longrightarrow> dot_or_dotdot de" "cname de = hello_name \<Longrightarrow> \<not> dot_or_dotdot de"
  by (simp_all add: dot_or_dotdot_def bytes_of_def hello_name_def)

lemma hello_path_of_entry: "bytes_of ''/'' @ hello_name = bytes_of ''/hello''" "take 63 (bytes_of ''/hello'') = bytes_of ''/hello''"
  by (simp_all add: bytes_of_def hello_name_def)

context hello_posix
begin

lemma contents_test: "test_passes test_readdir_contents"
  unfolding test_passes_def
proof (intro allI impI)
  fix s :: "'v suite" assume "valid (pg_os s)"
  then show "runs (test_readdir_contents P s) (\<lambda>s'. valid (pg_os s') \<and> test_passed s' = test_passed s + 1 \<and> test_failed s' = test_failed s)"
    unfolding test_readdir_contents_def
    by (auto simp: Let_def hello_name_def [symmetric]
      intro!: hello_rules root_loop_rule [where I = "\<lambda>es (found, unexpected) s'. found = int (length (filter (\<lambda>e. e = (2, hello_name)) es)) \<and>
        unexpected = 0 \<and> test_passed s' = test_passed s \<and> test_failed s' = test_failed s"])
qed

lemmas data_defs = Let_def ssize_def fill_def memcmp_eq_def seek_result_def hello_parts same_files_def

lemma seek_tests:
  "test_passes test_lseek_seek_set" "test_passes test_lseek_seek_cur" "test_passes test_lseek_seek_end" "test_passes test_lseek_seek_end_size"
  unfolding test_passes_def test_lseek_seek_set_def test_lseek_seek_cur_def test_lseek_seek_end_def test_lseek_seek_end_size_def
  by (auto simp: data_defs intro!: hello_rules)

lemma pread_tests: "test_passes test_pread_no_offset_change" "test_passes test_pread_multiple_offsets"
  unfolding test_passes_def test_pread_no_offset_change_def test_pread_multiple_offsets_def
  by (auto simp: data_defs intro!: hello_rules)

lemma two_fds_test: "test_passes test_two_fds"
  unfolding test_passes_def
proof (intro allI impI)
  fix s :: "'v suite" assume v: "valid (pg_os s)"
  show "runs (test_two_fds P s) (\<lambda>s'. valid (pg_os s') \<and> test_passed s' = test_passed s + 1 \<and> test_failed s' = test_failed s)"
    unfolding test_two_fds_def Let_def
    apply (simp, rule hello_open_rules(2) [OF v], simp, rule hello_open_rules(2), assumption)
    subgoal premises p for a f v1 b g v2
    proof -
      have "a \<noteq> b" using p(3,6) by auto
      then show ?thesis using p(5,7) by (auto simp: p(3,4,8) data_defs intro!: hello_rules)
    qed
    done
qed

lemma repeat_tests:
  "test_passes test_stat_after_read" "test_passes test_stat_idempotent" "test_passes test_access"
  unfolding test_passes_def
  by (auto simp: test_stat_after_read_def check_type_def check_size_def check_ino_def test_stat_idempotent_def test_access_def Let_def
      numeral_3_eq_3 same_files_def intro!: hello_rules check_stat_rule)

lemma ino_test: "test_passes test_readdir_ino"
  unfolding test_passes_def
proof (intro allI impI)
  fix s :: "'v suite" assume "valid (pg_os s)"
  then show "runs (test_readdir_ino P s) (\<lambda>s'. valid (pg_os s') \<and> test_passed s' = test_passed s + 1 \<and> test_failed s' = test_failed s)"
    unfolding test_readdir_ino_def
    by (auto simp: Let_def hello_path_of_entry same_files_def
      intro!: hello_rules root_loop_rule [where I = "\<lambda>es err s'. err = 0 \<and> test_passed s' = test_passed s \<and> test_failed s' = test_failed s"])
qed

lemma readdir_repeat_passes:
  "valid (pg_os s) \<Longrightarrow> runs (readdir_repeat name n P s) (\<lambda>s'. valid (pg_os s') \<and> test_passed s' = test_passed s + 1 \<and> test_failed s' = test_failed s)"
proof (induction n arbitrary: s)
  case (Suc n)
  then show ?case
    by (auto intro!: hello_rules root_loop_rule [where I = "\<lambda>es u s'. test_passed s' = test_passed s \<and> test_failed s' = test_failed s"]
        runs_mono [OF Suc.IH])
qed simp

lemma repeated_test: "test_passes test_readdir_repeated"
  unfolding test_passes_def test_readdir_repeated_def using readdir_repeat_passes by blast

lemmas all_tests = attribute_tests directory_test read_tests contents_test ino_test repeated_test two_fds_test repeat_tests seek_tests pread_tests

lemma run_tests_passes:
  assumes "\<And>t. t \<in> set ts \<Longrightarrow> test_passes t" and "valid (pg_os s)"
  shows "runs (run_tests ts P s) (\<lambda>s'. valid (pg_os s') \<and> test_passed s' = test_passed s + of_nat (length ts) \<and> test_failed s' = test_failed s)"
  using assms
proof (induction ts arbitrary: s)
  case (Cons t ts)
  have "runs (t P s) (\<lambda>s'. valid (pg_os s') \<and> test_passed s' = test_passed s + 1 \<and> test_failed s' = test_failed s)"
    using Cons.prems by (simp add: test_passes_def)
  then show ?case by (auto elim!: runs_mono intro!: runs_mono [OF Cons.IH] Cons.prems(1))
qed simp

lemma suite_passes:
  assumes "starting (pg_os s)" and "ready w" and "test_passed s = 0" "test_failed s = 0"
  shows "runs (correctness_main P s) (\<lambda>(r, s'). r = Returns 0 \<and> test_passed s' = 24 \<and> test_failed s' = 0 \<and>
    (\<exists>out. pg_out s' = out @ [(''CORRECTNESS TEST SUITE: ALL PASSED\<newline>'', [])]))"
proof -
  obtain v1 v2 v3 where start: "px_thread_create P (pg_os s) = (True, v1)" "wait_registered P v1 = Some v2"
    "px_mount P ''none'' ''/'' ''fuse'' v2 = Some (Inr (), v3)" "valid v3"
    by (rule boots [OF assms(1,2)])
  have "test_passes t" if "t \<in> set suite_tests" for t using that by (auto simp: suite_tests_def all_tests)
  note run = run_tests_passes [of suite_tests, OF this]
  have "of_nat (length suite_tests) = (24 :: u32)" by (simp add: suite_tests_def)
  then show ?thesis
    unfolding correctness_main_def
    by (simp add: start Let_def) (auto simp: start assms(3,4) printf_def intro!: runs_mono [OF run])
qed

end

end
