(* ===== verification/Perf_Suite.thy ===== *)
theory Perf_Suite
  imports Test_Programs Hello_Perf "HOL-Library.Multiset"
begin

text \<open>
  The performance test suite, \<^verbatim>\<open>apps/fuse-perf-test/main.c\<close>: the statistics over the measured times, the benchmarks and
  the main function, on top of the POSIX interface of \<open>Posix_Driver\<close> and the file system of \<open>Hello_Perf\<close>. The lemmas show
  what the reported numbers are and that every benchmark ends.
\<close>

section \<open>Statistics\<close>

record 'v bench = "'v prog" +
  samples :: "u64 list"

definition NUM_ITERATIONS :: nat where "NUM_ITERATIONS = 100000"

text \<open>The counter as the instruction delivers it, in two halves, and put together again.\<close>

definition rdtsc :: "'v posix \<Rightarrow> 'v bench \<Rightarrow> u64 \<times> 'v bench" where
  "rdtsc P s =
     (let (counter, v) = px_rdtsc P (pg_os s);
          lo = ucast counter :: u32; hi = ucast (drop_bit 32 counter) :: u32
      in (push_bit 32 (ucast hi) OR ucast lo, s\<lparr>pg_os := v\<rparr>))"

definition cmp_u64 :: "u64 \<Rightarrow> u64 \<Rightarrow> int" where
  "cmp_u64 arg1 arg2 = (if arg1 < arg2 then - 1 else if arg1 > arg2 then 1 else 0)"

text \<open>\<^verbatim>\<open>qsort\<close> of the C library, with the comparison as its argument.\<close>

fun insert_by :: "('a \<Rightarrow> 'a \<Rightarrow> int) \<Rightarrow> 'a \<Rightarrow> 'a list \<Rightarrow> 'a list" where
  "insert_by cmp x [] = [x]"
| "insert_by cmp x (y # ys) = (if cmp x y \<le> 0 then x # y # ys else y # insert_by cmp x ys)"

definition qsort :: "('a \<Rightarrow> 'a \<Rightarrow> int) \<Rightarrow> 'a list \<Rightarrow> 'a list" where
  "qsort cmp xs = foldr (insert_by cmp) xs []"

record stats =
  sg_avg :: u64
  sg_min :: u64
  sg_p50 :: u64
  sg_p90 :: u64
  sg_p95 :: u64
  sg_p99 :: u64
  sg_p999 :: u64
  sg_max :: u64

text \<open>The numbers that \<^verbatim>\<open>print_stats\<close> computes from the sorted times.\<close>

definition stats_of :: "u64 list \<Rightarrow> nat \<Rightarrow> stats" where
  "stats_of ts cnt =
     \<lparr>sg_avg = sum_list (take cnt ts) div of_nat cnt, sg_min = ts ! 0, sg_p50 = ts ! (cnt div 2),
      sg_p90 = ts ! (cnt * 90 div 100), sg_p95 = ts ! (cnt * 95 div 100), sg_p99 = ts ! (cnt * 99 div 100),
      sg_p999 = ts ! (cnt * 999 div 1000), sg_max = ts ! (cnt - 1)\<rparr>"

text \<open>Without a first sample, beyond the array, or with an overflow of \<^verbatim>\<open>int\<close> in an index, the C code has no defined result.\<close>

definition print_stats :: "string \<Rightarrow> nat \<Rightarrow> 'v bench \<Rightarrow> 'v bench option" where
  "print_stats name cnt s =
     (if cnt = 0 \<or> length (samples s) < cnt \<or> cnt * 999 \<ge> 2 ^ 31 then None
      else
        (let s = s\<lparr>samples := qsort cmp_u64 (take cnt (samples s)) @ drop cnt (samples s)\<rparr>;
             g = stats_of (samples s) cnt;
             s = printf ''\<newline>=====================================================\<newline>'' [] s;
             s = printf ''  Workload: %s\<newline>'' [PStr (bytes_of name)] s;
             s = printf ''=====================================================\<newline>'' [] s;
             s = printf ''  Samples: %d\<newline>'' [PInt (int cnt)] s;
             s = printf ''  Avg:     %llu cycles\<newline>'' [PInt (uint (sg_avg g))] s;
             s = printf ''  Min:     %llu cycles\<newline>'' [PInt (uint (sg_min g))] s;
             s = printf ''  p50:     %llu cycles\<newline>'' [PInt (uint (sg_p50 g))] s;
             s = printf ''  p90:     %llu cycles\<newline>'' [PInt (uint (sg_p90 g))] s;
             s = printf ''  p95:     %llu cycles\<newline>'' [PInt (uint (sg_p95 g))] s;
             s = printf ''  p99:     %llu cycles\<newline>'' [PInt (uint (sg_p99 g))] s;
             s = printf ''  p99.9:   %llu cycles\<newline>'' [PInt (uint (sg_p999 g))] s;
             s = printf ''  Max:     %llu cycles\<newline>'' [PInt (uint (sg_max g))] s
         in Some (printf ''-----------------------------------------------------\<newline>'' [] s)))"

section \<open>Benchmarks\<close>

text \<open>\<^verbatim>\<open>for (int i = 0; i < n; i++) body\<close>, from \<open>i\<close> on with \<open>k\<close> rounds to go.\<close>

primrec for_rounds :: "nat \<Rightarrow> nat \<Rightarrow> (nat \<Rightarrow> 's \<Rightarrow> 's option) \<Rightarrow> 's \<Rightarrow> 's option" where
  "for_rounds 0 i body s = Some s"
| "for_rounds (Suc k) i body s = Option.bind (body i s) (for_rounds k (Suc i) body)"

definition for_loop :: "nat \<Rightarrow> (nat \<Rightarrow> 's \<Rightarrow> 's option) \<Rightarrow> 's \<Rightarrow> 's option" where
  "for_loop n = for_rounds n 0"

text \<open>A call whose result is not used, and a timed part of a loop's body.\<close>

definition ignore :: "('v \<Rightarrow> ((int + 'a) \<times> 'v) option) \<Rightarrow> 'v bench \<Rightarrow> 'v bench option" where
  "ignore call s = do { (_, s) \<leftarrow> syscall call s; Some s }"

definition timed :: "'v posix \<Rightarrow> ('v bench \<Rightarrow> 'v bench option) \<Rightarrow> nat \<Rightarrow> 'v bench \<Rightarrow> 'v bench option" where
  "timed P work i s = do {
     let (t0, s) = rdtsc P s;
     s \<leftarrow> work s;
     let (t1, s) = rdtsc P s;
     if i < length (samples s) then Some (s\<lparr>samples := (samples s)[i := t1 - t0]\<rparr>) else None
   }"

definition bench_stat :: "'v posix \<Rightarrow> 'v bench \<Rightarrow> 'v bench option" where
  "bench_stat P s = do {
     s \<leftarrow> for_loop 100 (\<lambda>_. ignore (px_stat P (bytes_of ''/hello''))) s;
     s \<leftarrow> for_loop NUM_ITERATIONS (timed P (ignore (px_stat P (bytes_of ''/hello'')))) s;
     print_stats ''stat(\"/hello\") - LOOKUP+GETATTR'' NUM_ITERATIONS s
   }"

definition bench_stat_root :: "'v posix \<Rightarrow> 'v bench \<Rightarrow> 'v bench option" where
  "bench_stat_root P s = do {
     s \<leftarrow> for_loop 100 (\<lambda>_. ignore (px_stat P (bytes_of ''/''))) s;
     s \<leftarrow> for_loop NUM_ITERATIONS (timed P (ignore (px_stat P (bytes_of ''/'')))) s;
     print_stats ''stat(\"/\") - GETATTR only (1 round-trip)'' NUM_ITERATIONS s
   }"

definition bench_pread :: "'v posix \<Rightarrow> 'v bench \<Rightarrow> 'v bench option" where
  "bench_pread P s = do {
     (fd, s) \<leftarrow> syscall (px_open P (bytes_of ''/hello'')) s;
     case fd of
       Inl _ \<Rightarrow> Some (printf ''Failed to open /hello for pread bench\<newline>'' [] s)
     | Inr fd \<Rightarrow> do {
         s \<leftarrow> for_loop 100 (\<lambda>_. ignore (px_pread P fd 13 0)) s;
         s \<leftarrow> for_loop NUM_ITERATIONS (timed P (ignore (px_pread P fd 13 0))) s;
         s \<leftarrow> ignore (px_close P fd) s;
         print_stats ''pread(\"/hello\", 13, 0) - Data Transfer'' NUM_ITERATIONS s
       }
   }"

definition two_reads :: "'v posix \<Rightarrow> int \<Rightarrow> 'v bench \<Rightarrow> 'v bench option" where
  "two_reads P fd s = do { s \<leftarrow> ignore (px_read P fd 5) s; ignore (px_read P fd 8) s }"

definition bench_seq_read :: "'v posix \<Rightarrow> 'v bench \<Rightarrow> 'v bench option" where
  "bench_seq_read P s = do {
     (fd, s) \<leftarrow> syscall (px_open P (bytes_of ''/hello'')) s;
     case fd of
       Inl _ \<Rightarrow> Some (printf ''Failed to open /hello for seq read bench\<newline>'' [] s)
     | Inr fd \<Rightarrow> do {
         s \<leftarrow> for_loop 100 (\<lambda>_ s. do { s \<leftarrow> ignore (px_lseek P fd 0 SEEK_SET) s; two_reads P fd s }) s;
         s \<leftarrow> for_loop NUM_ITERATIONS (\<lambda>i s. do { s \<leftarrow> ignore (px_lseek P fd 0 SEEK_SET) s; timed P (two_reads P fd) i s }) s;
         s \<leftarrow> ignore (px_close P fd) s;
         print_stats ''seq read(\"/hello\") 5+8 bytes - 2 FUSE READs'' NUM_ITERATIONS s
       }
   }"

definition open_read_close :: "'v posix \<Rightarrow> 'v bench \<Rightarrow> 'v bench option" where
  "open_read_close P s = do {
     (fd, s) \<leftarrow> syscall (px_open P (bytes_of ''/hello'')) s;
     case fd of
       Inl _ \<Rightarrow> Some s
     | Inr fd \<Rightarrow> do { s \<leftarrow> ignore (px_pread P fd 13 0) s; ignore (px_close P fd) s }
   }"

definition bench_open_read_close :: "'v posix \<Rightarrow> 'v bench \<Rightarrow> 'v bench option" where
  "bench_open_read_close P s = do {
     let cnt = 1000;
     s \<leftarrow> for_loop cnt (timed P (open_read_close P)) s;
     print_stats ''open+pread+close (\"/hello\") - incl. lazy FUSE OPEN'' cnt s
   }"

definition list_root :: "'v posix \<Rightarrow> 'v bench \<Rightarrow> 'v bench option" where
  "list_root P s = do {
     (dp, s) \<leftarrow> syscall (px_opendir P (bytes_of ''/'')) s;
     case dp of
       Inl _ \<Rightarrow> Some s
     | Inr dp \<Rightarrow> do {
         (_, s) \<leftarrow> while_readdir P dp (\<lambda>de _ s. Some ((), s)) () s;
         ignore (px_closedir P dp) s
       }
   }"

definition bench_readdir :: "'v posix \<Rightarrow> 'v bench \<Rightarrow> 'v bench option" where
  "bench_readdir P s = do {
     let cnt = NUM_ITERATIONS div 10;
     s \<leftarrow> for_loop 20 (\<lambda>_. list_root P) s;
     s \<leftarrow> for_loop cnt (timed P (list_root P)) s;
     print_stats ''opendir + readdir + closedir'' cnt s
   }"

text \<open>The loop of the throughput benchmark: reads until the target or the end of the file is reached.\<close>

partial_function (option) read_until :: "'v posix \<Rightarrow> int \<Rightarrow> nat \<Rightarrow> u64 \<Rightarrow> u64 \<Rightarrow> 'v bench \<Rightarrow> (u64 \<times> 'v bench) option" where
  "read_until P fd block_size target_bytes bytes_read s =
     (if bytes_read < target_bytes then
        Option.bind (syscall (px_read P fd block_size) s) (\<lambda>(r, s).
          let n = ssize r
          in if n \<le> 0 then Some (bytes_read, s)
             else read_until P fd block_size target_bytes (bytes_read + of_int n) s)
      else Some (bytes_read, s))"

definition report_throughput :: "nat \<Rightarrow> u64 \<Rightarrow> u64 \<Rightarrow> 'v bench \<Rightarrow> 'v bench" where
  "report_throughput block_size bytes_read total_cycles s =
     (let mb = (ucast (bytes_read div (1024 * 1024)) :: u32);
          cycles_per_byte = (if bytes_read > 0 then total_cycles div bytes_read else 0);
          ms_approx = total_cycles div 3000000;
          ms_approx = (if ms_approx = 0 then 1 else ms_approx);
          mb_per_sec_approx = ucast mb * 1000 div ms_approx;
          s = printf ''\<newline>=====================================================\<newline>'' [] s;
          s = printf ''  Workload: Throughput - %zu KB blocks\<newline>'' [PInt (int (block_size div 1024))] s;
          s = printf ''=====================================================\<newline>'' [] s;
          s = printf ''  Total read:   %u MB\<newline>'' [PInt (uint mb)] s;
          s = printf ''  Total cycles: %llu\<newline>'' [PInt (uint total_cycles)] s;
          s = printf ''  Cycles/byte:  %llu  (TSC-freq independent)\<newline>'' [PInt (uint cycles_per_byte)] s;
          s = printf ''  Throughput:   ~%llu MB/s  (assumes 3 GHz TSC)\<newline>'' [PInt (uint mb_per_sec_approx)] s
      in printf ''-----------------------------------------------------\<newline>'' [] s)"

definition bench_throughput :: "'v posix \<Rightarrow> nat \<Rightarrow> 'v bench \<Rightarrow> 'v bench option" where
  "bench_throughput P block_size s = do {
     (fd, s) \<leftarrow> syscall (px_open P (bytes_of ''/bigfile'')) s;
     case fd of
       Inl _ \<Rightarrow> Some (printf ''Failed to open /bigfile for throughput bench\<newline>'' [] s)
     | Inr fd \<Rightarrow>
         (let (buf, v) = px_malloc P block_size (pg_os s); s = s\<lparr>pg_os := v\<rparr>
          in if \<not> buf then ignore (px_close P fd) s
          else do {
            let target_bytes = 50 * 1024 * 1024;
            let (t0, s) = rdtsc P s;
            (bytes_read, s) \<leftarrow> read_until P fd block_size target_bytes 0 s;
            let (t1, s) = rdtsc P s;
            s \<leftarrow> ignore (px_close P fd) s;
            let total_cycles = t1 - t0;
            Some (report_throughput block_size bytes_read total_cycles s)
          })
   }"

text \<open>The benchmarks in the order of the main function.\<close>

definition perf_benchmarks :: "'v posix \<Rightarrow> 'v bench \<Rightarrow> 'v bench option" where
  "perf_benchmarks P s = do {
     s \<leftarrow> bench_stat_root P s;
     s \<leftarrow> bench_stat P s;
     s \<leftarrow> bench_pread P s;
     s \<leftarrow> bench_seq_read P s;
     s \<leftarrow> bench_open_read_close P s;
     s \<leftarrow> bench_readdir P s;
     s \<leftarrow> bench_throughput P (4 * 1024) s;
     s \<leftarrow> bench_throughput P (64 * 1024) s;
     bench_throughput P (1024 * 1024) s
   }"

text \<open>The text of an error number (\<^verbatim>\<open>strerror\<close>) is shown by the number.\<close>

definition perf_main :: "'v posix \<Rightarrow> 'v bench \<Rightarrow> (main_result \<times> 'v bench) option" where
  "perf_main P s = (
     let s = print_lines [''\<newline>'', ''=====================================================\<newline>'',
           ''  UKFS-FUSE Performance Benchmark (RDTSC)\<newline>'', ''=====================================================\<newline>\<newline>''] s;
         (bt, v) = px_thread_create P (pg_os s);
         s = s\<lparr>pg_os := v\<rparr>
     in if \<not> bt then Some (Returns 1, printf ''[-] Failed to create backend thread\<newline>'' [] s)
     else do {
       v \<leftarrow> wait_registered P (pg_os s);
       let s = s\<lparr>pg_os := v\<rparr>;
       (ret, s) \<leftarrow> syscall (px_mount P ''none'' ''/'' ''fuse'') s;
       if ret \<noteq> Inr () then Some (Returns 1, printf ''[-] Error mounting FUSE: %s\<newline>'' [PInt (pg_errno s)] s)
       else do {
         let s = printf ''[+] FUSE filesystem mounted at /\<newline>'' [] s;
         s \<leftarrow> perf_benchmarks P s;
         Some (Returns 0, printf ''\<newline>[+] Benchmarks completed.\<newline>'' [] s)
       }
     })"

section \<open>What the statistics are\<close>

lemma insert_by_u64: "insert_by cmp_u64 x ys = insort x ys"
  by (induction ys) (auto simp: cmp_u64_def)

lemma qsort_sort: "qsort cmp_u64 xs = sort xs"
proof -
  have "insert_by cmp_u64 = insort" by (intro ext) (rule insert_by_u64)
  then show ?thesis by (simp add: qsort_def sort_key_def)
qed

text \<open>Every function that sorts with this comparison gives the same array.\<close>

lemma qsort_unique:
  assumes "mset ys = mset xs" and "sorted_wrt (\<lambda>a b. cmp_u64 a b \<le> 0) ys"
  shows "qsort cmp_u64 xs = ys"
proof -
  have "(\<lambda>a b. cmp_u64 a b \<le> 0) = (\<le>)" by (auto simp: cmp_u64_def fun_eq_iff)
  then show ?thesis using properties_for_sort [OF assms(1)] assms(2) by (simp add: qsort_sort)
qed

text \<open>The element of rank \<open>k\<close>: at most \<open>k\<close> elements are smaller, more than \<open>k\<close> are not larger.\<close>

definition has_rank :: "u64 list \<Rightarrow> nat \<Rightarrow> u64 \<Rightarrow> bool" where
  "has_rank xs k x \<longleftrightarrow> x \<in> set xs \<and> length (filter (\<lambda>y. y < x) xs) \<le> k \<and> k < length (filter (\<lambda>y. y \<le> x) xs)"

lemma length_filter_mset: "mset xs = mset ys \<Longrightarrow> length (filter Q xs) = length (filter Q ys)"
  by (metis mset_filter size_mset)

lemma has_rank_sort:
  assumes "k < length xs"
  shows "has_rank xs k (sort xs ! k)"
proof -
  let ?s = "sort xs" let ?x = "?s ! k"
  have k: "k < length ?s" using assms by simp
  have "?s = take k ?s @ drop k ?s" by simp
  have le: "y \<le> ?x" if "y \<in> set (take (Suc k) ?s)" for y
    using that k by (auto simp: in_set_conv_nth intro!: sorted_nth_mono)
  have ge: "?x \<le> y" if "y \<in> set (drop k ?s)" for y
    using that k by (auto simp: in_set_conv_nth intro!: sorted_nth_mono)
  have "length (filter (\<lambda>y. y < ?x) ?s) = length (filter (\<lambda>y. y < ?x) (take k ?s)) + length (filter (\<lambda>y. y < ?x) (drop k ?s))"
    by (metis append_take_drop_id filter_append length_append)
  moreover have "filter (\<lambda>y. y < ?x) (drop k ?s) = []" using ge by (force simp: filter_empty_conv)
  moreover have "length (filter (\<lambda>y. y < ?x) (take k ?s)) \<le> k" by (rule order_trans [OF length_filter_le]) simp
  ultimately have 1: "length (filter (\<lambda>y. y < ?x) ?s) \<le> k" by simp
  have "filter (\<lambda>y. y \<le> ?x) (take (Suc k) ?s) = take (Suc k) ?s" using le by (simp add: filter_id_conv)
  then have "Suc k \<le> length (filter (\<lambda>y. y \<le> ?x) (take (Suc k) ?s))" using k by simp
  also have "\<dots> \<le> length (filter (\<lambda>y. y \<le> ?x) ?s)"
    by (metis append_take_drop_id filter_append length_append le_add1)
  finally have 2: "k < length (filter (\<lambda>y. y \<le> ?x) ?s)" by simp
  have "?x \<in> set ?s" using k by (rule nth_mem)
  then show ?thesis using 1 2 unfolding has_rank_def
    by (simp add: length_filter_mset [of ?s xs, symmetric])
qed

lemma print_stats_samples:
  assumes "print_stats name cnt s = Some s'"
  shows "samples s' = sort (take cnt (samples s)) @ drop cnt (samples s)" "0 < cnt" "cnt \<le> length (samples s)"
    "length (samples s') = length (samples s)" "pg_os s' = pg_os s"
  using assms by (auto simp: print_stats_def Let_def printf_def qsort_sort split: if_splits)

lemma print_stats_returns: "0 < cnt \<Longrightarrow> cnt \<le> length (samples s) \<Longrightarrow> cnt * 999 < 2 ^ 31 \<Longrightarrow> \<exists>s'. print_stats name cnt s = Some s'"
  by (auto simp: print_stats_def Let_def)

lemma sum_word_no_wrap: "sum_list (map unat xs) < 2 ^ 64 \<Longrightarrow> unat (sum_list (xs :: u64 list)) = sum_list (map unat xs)"
proof (induction xs)
  case (Cons x xs)
  then show ?case by (simp add: unat_word_ariths take_bit_nat_eq_self)
qed simp

lemma mean_bounds:
  fixes f :: "'a \<Rightarrow> nat"
  assumes "xs \<noteq> []" and "\<And>x. x \<in> set xs \<Longrightarrow> lo \<le> f x \<and> f x \<le> hi"
  shows "lo \<le> sum_list (map f xs) div length xs \<and> sum_list (map f xs) div length xs \<le> hi"
proof -
  have "length xs * lo \<le> sum_list (map f xs) \<and> sum_list (map f xs) \<le> length xs * hi"
    using assms(2) by (induction xs) (auto simp: add_mono)
  then show ?thesis using assms(1) by (simp add: less_eq_div_iff_mult_less_eq div_le_mono2 mult.commute)
      (metis div_le_mono length_greater_0_conv nonzero_mult_div_cancel_right not_gr_zero)
qed

lemma nth_stats: "k < cnt \<Longrightarrow> cnt \<le> length xs \<Longrightarrow> (sort (take cnt xs) @ ys) ! k = sort (take cnt xs) ! k"
  by (simp add: nth_append)

lemma unat_div_of_nat: "n < 2 ^ 64 \<Longrightarrow> unat (x div of_nat n :: u64) = unat x div n"
  by (simp add: unat_div unat_of_nat take_bit_nat_eq_self)

lemma stats_ranks:
  assumes "0 < cnt" and "cnt \<le> length xs" and "g = stats_of (sort (take cnt xs) @ ys) cnt"
  shows "has_rank (take cnt xs) 0 (sg_min g)" "has_rank (take cnt xs) (cnt div 2) (sg_p50 g)"
    "has_rank (take cnt xs) (cnt * 90 div 100) (sg_p90 g)" "has_rank (take cnt xs) (cnt * 95 div 100) (sg_p95 g)"
    "has_rank (take cnt xs) (cnt * 99 div 100) (sg_p99 g)" "has_rank (take cnt xs) (cnt * 999 div 1000) (sg_p999 g)"
    "has_rank (take cnt xs) (cnt - 1) (sg_max g)"
  unfolding assms(3) stats_of_def using assms(1,2)
  by (auto simp: nth_append simp del: take_append intro!: has_rank_sort)

lemma stats_ordered:
  assumes "0 < cnt" and "cnt \<le> length xs" and "g = stats_of (sort (take cnt xs) @ ys) cnt"
  shows "sorted [sg_min g, sg_p50 g, sg_p90 g, sg_p95 g, sg_p99 g, sg_p999 g, sg_max g]"
proof -
  let ?s = "sort (take cnt xs)"
  have m: "?s ! i \<le> ?s ! j" if "i \<le> j" "j < cnt" for i j
    using that assms(2) by (intro sorted_nth_mono) simp_all
  show ?thesis unfolding assms(3) stats_of_def using assms(1,2)
    by (auto simp: nth_append simp del: take_append intro!: m)
qed

lemma stats_mean:
  assumes "0 < cnt" and "cnt \<le> length xs" and "cnt < 2 ^ 31" and "g = stats_of (sort (take cnt xs) @ ys) cnt"
    and "sum_list (map unat (take cnt xs)) < 2 ^ 64"
  shows "unat (sg_avg g) = sum_list (map unat (take cnt xs)) div cnt" "sg_min g \<le> sg_avg g" "sg_avg g \<le> sg_max g"
proof -
  let ?t = "take cnt xs" let ?s = "sort ?t"
  have "mset (map unat ?s) = mset (map unat ?t)" by simp
  then have sum: "sum_list (map unat ?s) = sum_list (map unat ?t)" by (metis sum_mset_sum_list)
  have "unat (sum_list ?s) = sum_list (map unat ?t)" using sum_word_no_wrap [of ?s] assms(5) sum by simp
  then show avg: "unat (sg_avg g) = sum_list (map unat ?t) div cnt"
    using assms(1-3) by (simp add: assms(4) stats_of_def unat_div_of_nat)
  have b: "unat (sg_min g) \<le> unat x \<and> unat x \<le> unat (sg_max g)" if "x \<in> set ?t" for x
  proof -
    from that have "x \<in> set ?s" by simp
    then obtain i where "i < length ?s" "?s ! i = x" unfolding in_set_conv_nth by blast
    then have i: "i < cnt" "x = ?s ! i" using assms(2) by simp_all
    have "?s ! 0 \<le> ?s ! i" "?s ! i \<le> ?s ! (cnt - 1)" by (rule sorted_nth_mono; use i(1) assms(2) in simp)+
    then show ?thesis using assms(1,2) i(2) by (simp add: assms(4) stats_of_def nth_stats word_le_nat_alt)
  qed
  have "?t \<noteq> []" using assms(1,2) by auto
  from mean_bounds [OF this b] show "sg_min g \<le> sg_avg g" "sg_avg g \<le> sg_max g"
    using assms(2) by (simp_all add: word_le_nat_alt avg)
qed

definition stats_lines :: "string \<Rightarrow> nat \<Rightarrow> stats \<Rightarrow> (string \<times> pf_arg list) list" where
  "stats_lines name cnt g =
     [(''\<newline>=====================================================\<newline>'', []), (''  Workload: %s\<newline>'', [PStr (bytes_of name)]),
      (''=====================================================\<newline>'', []), (''  Samples: %d\<newline>'', [PInt (int cnt)]),
      (''  Avg:     %llu cycles\<newline>'', [PInt (uint (sg_avg g))]), (''  Min:     %llu cycles\<newline>'', [PInt (uint (sg_min g))]),
      (''  p50:     %llu cycles\<newline>'', [PInt (uint (sg_p50 g))]), (''  p90:     %llu cycles\<newline>'', [PInt (uint (sg_p90 g))]),
      (''  p95:     %llu cycles\<newline>'', [PInt (uint (sg_p95 g))]), (''  p99:     %llu cycles\<newline>'', [PInt (uint (sg_p99 g))]),
      (''  p99.9:   %llu cycles\<newline>'', [PInt (uint (sg_p999 g))]), (''  Max:     %llu cycles\<newline>'', [PInt (uint (sg_max g))]),
      (''-----------------------------------------------------\<newline>'', [])]"

text \<open>\<^bold>\<open>C17\<close> The report over the first \<open>cnt\<close> samples: the printed percentiles are samples of the ranks 50, 90, 95, 99 and 99.9
  per cent of \<open>cnt\<close> (at most so many samples are smaller, more than so many are not larger), minimum and maximum are those of
  rank 0 and \<open>cnt - 1\<close>, the numbers are in ascending order, and, when the sum of the samples fits 64 bits, the average is
  their mean, between minimum and maximum.\<close>

theorem print_stats_percentiles:
  assumes "0 < cnt" and "cnt \<le> length (samples s)" and "cnt * 999 < 2 ^ 31"
  shows "\<exists>s' g. print_stats name cnt s = Some s' \<and> pg_out s' = pg_out s @ stats_lines name cnt g \<and>
    (let xs = take cnt (samples s) in
       has_rank xs 0 (sg_min g) \<and> has_rank xs (cnt div 2) (sg_p50 g) \<and> has_rank xs (cnt * 90 div 100) (sg_p90 g) \<and>
       has_rank xs (cnt * 95 div 100) (sg_p95 g) \<and> has_rank xs (cnt * 99 div 100) (sg_p99 g) \<and>
       has_rank xs (cnt * 999 div 1000) (sg_p999 g) \<and> has_rank xs (cnt - 1) (sg_max g) \<and>
       sorted [sg_min g, sg_p50 g, sg_p90 g, sg_p95 g, sg_p99 g, sg_p999 g, sg_max g] \<and>
       (sum_list (map unat xs) < 2 ^ 64 \<longrightarrow>
          unat (sg_avg g) = sum_list (map unat xs) div cnt \<and> sg_min g \<le> sg_avg g \<and> sg_avg g \<le> sg_max g))"
proof -
  from print_stats_returns [OF assms] obtain s' where s': "print_stats name cnt s = Some s'" by blast
  let ?g = "stats_of (sort (take cnt (samples s)) @ drop cnt (samples s)) cnt"
  have out: "pg_out s' = pg_out s @ stats_lines name cnt ?g"
    using s' by (auto simp: print_stats_def Let_def printf_def qsort_sort stats_lines_def split: if_splits)
  have "cnt < 2 ^ 31" using assms(3) by simp
  with s' out stats_ranks [OF assms(1,2) refl] stats_ordered [OF assms(1,2) refl] stats_mean [OF assms(1,2) _ refl]
  show ?thesis unfolding Let_def by blast
qed

theorem print_stats_percentiles_witness:
  "\<exists>s' g. print_stats ''demo'' 4 \<lparr>pg_os = (), pg_errno = 0, pg_out = [], samples = [7, 3, 9, 5]\<rparr> = Some s' \<and>
     pg_out s' = stats_lines ''demo'' 4 g \<and> has_rank [7, 3, 9, 5] 2 (sg_p50 g) \<and> sg_min g \<le> sg_p50 g \<and> unat (sg_avg g) = 6"
  using print_stats_percentiles [of 4 "\<lparr>pg_os = (), pg_errno = 0, pg_out = [], samples = [7, 3, 9, 5]\<rparr>" "''demo''"]
  by (simp add: Let_def) (elim exE conjE, intro exI conjI)

section \<open>The benchmarks end\<close>

lemma runs_ignore [simp]:
  "runs (ignore call s) Q \<longleftrightarrow>
     runs (call (pg_os s)) (\<lambda>(r, v). Q (case r of Inl e \<Rightarrow> s\<lparr>pg_os := v, pg_errno := e\<rparr> | Inr _ \<Rightarrow> s\<lparr>pg_os := v\<rparr>))"
  by (simp add: ignore_def split_def)

lemma rdtsc_counter: "rdtsc P s = (fst (px_rdtsc P (pg_os s)), s\<lparr>pg_os := snd (px_rdtsc P (pg_os s))\<rparr>)"
proof -
  have "push_bit 32 (ucast (ucast (drop_bit 32 c) :: u32)) OR ucast (ucast c :: u32) = c" for c :: u64
    by (rule bit_word_eqI) (auto simp: bit_simps)
  then show ?thesis by (simp add: rdtsc_def Let_def split_def)
qed

lemma for_rounds_rule:
  assumes "I s" and "\<And>i s. i < n + k \<Longrightarrow> I s \<Longrightarrow> runs (body i s) I"
  shows "runs (for_rounds k n body s) I"
  using assms
proof (induction k arbitrary: n s)
  case (Suc k)
  have "runs (body n s) I" using Suc.prems by simp
  then show ?case using Suc.prems(2) by (auto intro: Suc.IH elim!: runs_mono)
qed simp

lemma for_loop_rule:
  assumes "I s" and "\<And>i s. i < n \<Longrightarrow> I s \<Longrightarrow> runs (body i s) I" and "\<And>s. I s \<Longrightarrow> Q s"
  shows "runs (for_loop n body s) Q"
  unfolding for_loop_def using for_rounds_rule [of I s 0 n body] assms by (auto elim: runs_mono)

locale perf_posix = posix_driver P view valid starting w uc dirbuf perf_oper perf_serves
  for P :: "'v posix" and view :: "'v \<Rightarrow> 'u vfs" and valid starting w uc dirbuf

sublocale perf_posix \<subseteq> posix_tree perf_oper perf_serves perf_answer perf_content perf_attr perf_child perf_entries
  P view valid starting w uc dirbuf
  by unfold_locales

lemma perf_paths: "bytes_of ''/bigfile'' = slash # bigfile_name"
  by (simp add: bytes_of_def bigfile_name_def slash_def)

lemma perf_names [simp]: "plain_name bigfile_name" "bigfile_name \<noteq> []" "bigfile_name \<noteq> hello_name" "hello_name \<noteq> bigfile_name"
  by (simp_all add: plain_name_def bytes_of_def bigfile_name_def slash_def hello_name_def)

context perf_posix
begin

lemma perf_named: "names [] = Some 1" "names hello_name = Some 2" "names bigfile_name = Some 3"
  by (simp_all add: names_def perf_child_def)

text \<open>Between the calls of a benchmark: the file system is mounted, the array has its size, and the descriptors satisfy \<open>R\<close>.\<close>

definition measuring :: "((int \<rightharpoonup> addr \<times> u64 \<times> int) \<Rightarrow> bool) \<Rightarrow> 'v bench \<Rightarrow> bool" where
  "measuring R s \<longleftrightarrow> valid (pg_os s) \<and> length (samples s) = NUM_ITERATIONS \<and> R (vf_fds (view (pg_os s)))"

definition at_hello :: "int \<Rightarrow> (int \<rightharpoonup> addr \<times> u64 \<times> int) \<Rightarrow> bool" where
  "at_hello fd fds \<longleftrightarrow> (\<exists>f pos. fds fd = Some (f, 2, pos) \<and> pos \<le> 13)"

lemma timed_rule:
  assumes "measuring R s" and "i < NUM_ITERATIONS" and "\<And>s. measuring R s \<Longrightarrow> runs (work s) (measuring R)"
  shows "runs (timed P work i s) (measuring R)"
proof -
  let ?s = "s\<lparr>pg_os := snd (px_rdtsc P (pg_os s))\<rparr>"
  have "measuring R ?s" using assms(1) counter [of "pg_os s"] by (simp add: measuring_def same_files_def)
  from assms(3) [OF this] show ?thesis
    unfolding timed_def rdtsc_counter
    by (auto simp: elim!: runs_mono) (use assms(2) counter in \<open>auto simp: measuring_def same_files_def\<close>)
qed

lemma stat_step:
  assumes "measuring R s"
  shows "runs (ignore (px_stat P (bytes_of ''/hello'')) s) (measuring R)" "runs (ignore (px_stat P (bytes_of ''/'')) s) (measuring R)"
proof -
  have v: "valid (pg_os s)" using assms by (simp add: measuring_def)
  have a: "perf_attr 1 \<noteq> None" "perf_attr 2 \<noteq> None" by (simp_all add: perf_attr_def)
  then obtain x y where "perf_attr 1 = Some x" "perf_attr 2 = Some y" by auto
  then show "runs (ignore (px_stat P (bytes_of ''/hello'')) s) (measuring R)" "runs (ignore (px_stat P (bytes_of ''/'')) s) (measuring R)"
    using assms unfolding test_paths
    by (auto simp: measuring_def same_files_def intro!: stat_rule [OF v test_names(2) perf_named(2)] stat_rule [OF v test_names(1) perf_named(1)])
qed

lemma pread_step: "measuring (at_hello fd) s \<Longrightarrow> runs (ignore (px_pread P fd 13 0) s) (measuring (at_hello fd))"
  by (auto simp: measuring_def at_hello_def same_files_def perf_content_def intro!: pread_rule)

lemma read_step:
  assumes "measuring (at_hello fd) s" and "len < 2 ^ 32"
  shows "runs (ignore (px_read P fd len) s) (measuring (at_hello fd))"
proof -
  from assms(1) obtain f pos where s: "valid (pg_os s)" "length (samples s) = NUM_ITERATIONS" "vf_fds (view (pg_os s)) fd = Some (f, 2, pos)" "pos \<le> 13"
    by (auto simp: measuring_def at_hello_def)
  have "0 \<le> pos" using fd_ok [OF s(1,3)] by simp
  then have "pos + int (length (take len (drop (nat pos) hello_str))) \<le> 13" using s(4) by simp
  then show ?thesis using s assms(2)
    by (auto simp: measuring_def at_hello_def intro!: read_rule [OF s(1,3), of hello_str] simp: perf_content_def)
qed

lemma seek_step: "measuring (at_hello fd) s \<Longrightarrow> runs (ignore (px_lseek P fd 0 SEEK_SET) s) (measuring (at_hello fd))"
  by (auto simp: measuring_def at_hello_def intro!: lseek_set_rule)

lemma two_reads_step: "measuring (at_hello fd) s \<Longrightarrow> runs (two_reads P fd s) (measuring (at_hello fd))"
  unfolding two_reads_def runs_simps
  by (rule runs_mono [OF read_step]) (auto intro!: read_step simp del: runs_ignore)

lemma print_stats_step:
  assumes "measuring R s" and "0 < cnt" "cnt \<le> NUM_ITERATIONS"
  shows "runs (print_stats name cnt s) (measuring R)"
proof -
  have "cnt \<le> length (samples s)" "cnt * 999 < 2 ^ 31" using assms by (simp_all add: measuring_def NUM_ITERATIONS_def)
  from print_stats_returns [OF assms(2) this] obtain s' where s': "print_stats name cnt s = Some s'" by blast
  show ?thesis using print_stats_samples(4,5) [OF s'] assms(1) by (simp add: s' measuring_def)
qed

lemma open_hello_step:
  assumes "measuring R s" and "\<And>fd s. measuring (at_hello fd) s \<Longrightarrow> Q (Inr fd, s)"
  shows "runs (syscall (px_open P (bytes_of ''/hello'')) s) Q"
proof -
  have "valid (pg_os s)" using assms(1) by (simp add: measuring_def)
  then show ?thesis unfolding test_paths using assms
    by (auto intro!: open_rule [OF _ test_names(2) perf_named(2)] assms(2) simp: measuring_def at_hello_def)
qed

lemma close_step: "measuring (at_hello fd) s \<Longrightarrow> runs (ignore (px_close P fd) s) (measuring (\<lambda>_. True))"
  by (auto simp: measuring_def at_hello_def intro!: close_rule)

lemma open_read_close_step: "measuring (\<lambda>_. True) s \<Longrightarrow> runs (open_read_close P s) (measuring (\<lambda>_. True))"
  unfolding open_read_close_def runs_simps
  by (rule open_hello_step, assumption) (auto intro: runs_mono [OF pread_step] close_step simp del: runs_ignore)

lemma root_loop_step:
  assumes "valid (pg_os s)" and "\<exists>f. vf_dirs (view (pg_os s)) d = Some (f, 1, 0)" and "length (samples s) = NUM_ITERATIONS"
  shows "runs (while_readdir P d (\<lambda>de _ s. Some ((), s)) () s)
    (\<lambda>(u, s'). valid (pg_os s') \<and> vf_dirs (view (pg_os s')) d \<noteq> None \<and> length (samples s') = NUM_ITERATIONS)"
proof -
  from assms(2) obtain f where f: "vf_dirs (view (pg_os s)) d = Some (f, 1, 0)" ..
  show ?thesis
  proof (rule while_readdir_rule [OF assms(1), where es = "[]" and I = "\<lambda>es u s'. length (samples s') = NUM_ITERATIONS"])
    show "perf_entries 1 = Some ([] @ [(1, bytes_of ''.''), (1, bytes_of ''..''), (2, hello_name), (3, bigfile_name)])"
      by (simp add: perf_entries_def)
    show "length name \<le> 255" if "(i, name) \<in> set [(1, bytes_of ''.''), (1, bytes_of ''..''), (2, hello_name), (3, bigfile_name)]" for i :: u64 and name
      using that by (auto simp: hello_name_def bytes_of_def)
  qed (use f assms(3) in auto)
qed

lemma list_root_step:
  assumes "measuring (\<lambda>_. True) s"
  shows "runs (list_root P s) (measuring (\<lambda>_. True))"
proof -
  have v: "valid (pg_os s)" using assms by (simp add: measuring_def)
  show ?thesis unfolding list_root_def test_paths using assms
    by (auto simp: measuring_def intro!: opendir_rule [OF v test_names(1) perf_named(1)] closedir_rule runs_mono [OF root_loop_step])
qed

lemma rounds_rule:
  assumes "measuring R s" and "n \<le> NUM_ITERATIONS" and "\<And>i s. i < NUM_ITERATIONS \<Longrightarrow> measuring R s \<Longrightarrow> runs (body i s) (measuring R)"
    and "\<And>s. measuring R s \<Longrightarrow> Q s"
  shows "runs (for_loop n body s) Q"
  using assms by (intro for_loop_rule [where I = "measuring R"]) auto

abbreviation mounted :: "'v bench \<Rightarrow> bool" where "mounted \<equiv> measuring (\<lambda>_. True)"

lemma NUM_ITERATIONS_simps [simp]: "100 \<le> NUM_ITERATIONS" "20 \<le> NUM_ITERATIONS" "1000 \<le> NUM_ITERATIONS" "0 < NUM_ITERATIONS"
    "NUM_ITERATIONS div 10 \<le> NUM_ITERATIONS" "0 < NUM_ITERATIONS div 10"
  by (simp_all add: NUM_ITERATIONS_def)

lemma stat_benches: "mounted s \<Longrightarrow> runs (bench_stat P s) mounted" "mounted s \<Longrightarrow> runs (bench_stat_root P s) mounted"
  unfolding bench_stat_def bench_stat_root_def runs_simps
  by (auto simp del: runs_ignore intro!: rounds_rule [where R = "\<lambda>_. True"] stat_step timed_rule print_stats_step)

lemma open_read_close_bench: "mounted s \<Longrightarrow> runs (bench_open_read_close P s) mounted"
  unfolding bench_open_read_close_def Let_def runs_simps
  by (auto intro!: rounds_rule [where R = "\<lambda>_. True"] open_read_close_step timed_rule print_stats_step)

lemma readdir_bench: "mounted s \<Longrightarrow> runs (bench_readdir P s) mounted"
  unfolding bench_readdir_def Let_def runs_simps
  by (auto intro!: rounds_rule [where R = "\<lambda>_. True"] list_root_step timed_rule print_stats_step)

lemma pread_bench: "mounted s \<Longrightarrow> runs (bench_pread P s) mounted"
  unfolding bench_pread_def runs_simps
  by (rule open_hello_step, assumption)
    (auto simp del: runs_ignore intro!: rounds_rule [where R = "at_hello fd" for fd] pread_step timed_rule print_stats_step runs_mono [OF close_step])

lemma seq_read_bench: "mounted s \<Longrightarrow> runs (bench_seq_read P s) mounted"
  unfolding bench_seq_read_def runs_simps
  by (rule open_hello_step, assumption)
    (auto simp del: runs_ignore intro!: rounds_rule [where R = "at_hello fd" for fd] runs_mono [OF seek_step] two_reads_step timed_rule
      print_stats_step runs_mono [OF close_step])

text \<open>The loop of the throughput benchmark reads whole blocks until the target is reached.\<close>

lemma blocks_to_go: "0 < bs \<Longrightarrow> bs * k < target \<longleftrightarrow> k < (target + bs - 1) div bs" for bs k target :: nat
proof -
  assume "0 < bs"
  then have "k < (target + bs - 1) div bs \<longleftrightarrow> Suc k * bs \<le> target + bs - 1" by (simp add: Suc_le_eq [symmetric] less_eq_div_iff_mult_less_eq)
  also have "\<dots> \<longleftrightarrow> bs * k < target" using \<open>0 < bs\<close> by (auto simp: mult.commute)
  finally show ?thesis ..
qed

lemma read_until_rule:
  fixes bs :: nat
  defines "K \<equiv> (52428800 + bs - 1) div bs"
  assumes bs: "0 < bs" "bs \<le> 52428800" and k: "k \<le> K" and s: "valid (pg_os s)" "\<exists>f. vf_fds (view (pg_os s)) fd = Some (f, 3, int (bs * k))"
    and Q: "\<And>v. valid v \<Longrightarrow> vf_fds (view v) fd \<noteq> None \<Longrightarrow> Q (of_nat (bs * K), s\<lparr>pg_os := v\<rparr>)"
  shows "runs (read_until P fd bs 52428800 (of_nat (bs * k)) s) Q"
  using k s Q
proof (induction "K - k" arbitrary: k s)
  case 0
  then have k: "k = K" by simp
  have "\<not> bs * k < 52428800" using blocks_to_go [OF bs(1), of k 52428800] k by (simp add: K_def)
  moreover have "bs * K \<le> 104857600"
  proof -
    have "bs * K \<le> 52428800 + bs - 1" unfolding K_def by (rule times_div_less_eq_dividend)
    then show ?thesis using bs by simp
  qed
  ultimately have "\<not> (of_nat (bs * k) :: u64) < 52428800" using k
    by (simp add: word_less_nat_alt unat_of_nat take_bit_nat_eq_self del: of_nat_mult)
  then show ?case using 0 k by (subst read_until.simps) (auto intro: 0(5) [of "pg_os s", simplified])
next
  case (Suc d)
  then have k: "k < K" by simp
  have lt: "bs * k < 52428800" using blocks_to_go [OF bs(1), of k 52428800] k by (simp add: K_def)
  then have w: "(of_nat (bs * k) :: u64) < 52428800"
    by (simp add: word_less_nat_alt unat_of_nat take_bit_nat_eq_self del: of_nat_mult)
  from Suc.prems(3) obtain f where f: "vf_fds (view (pg_os s)) fd = Some (f, 3, int (bs * k))" by blast
  have len: "length (take bs (drop (nat (int (bs * k))) (replicate BIGFILE_SIZE (65 :: byte)))) = bs"
    using lt bs by (simp add: BIGFILE_SIZE_def del: of_nat_mult)
  have "runs (px_read P fd bs (pg_os s)) (\<lambda>(r, v). \<exists>xs. r = Inr xs \<and> length xs = bs \<and> valid v \<and> vf_fds (view v) fd = Some (f, 3, int (bs * Suc k)))"
    by (rule read_rule [OF Suc.prems(2) f, of "replicate BIGFILE_SIZE 65"]) (use lt bs len in \<open>simp_all add: perf_content_def del: of_nat_mult\<close>)
  then obtain xs v where v: "px_read P fd bs (pg_os s) = Some (Inr xs, v)" "length xs = bs" "valid v" "vf_fds (view v) fd = Some (f, 3, int (bs * Suc k))"
    by (auto simp: runs_def)
  have "runs (read_until P fd bs 52428800 (of_nat (bs * Suc k)) (s\<lparr>pg_os := v\<rparr>)) Q"
    by (rule Suc.hyps(1)) (use k Suc.hyps(2) Suc.prems(4) v in auto)
  then show ?case using w v bs(1) by (subst read_until.simps) (simp add: syscall_def ssize_def Let_def algebra_simps)
qed

text \<open>What the throughput benchmark prints.\<close>

definition reports :: "nat \<Rightarrow> nat \<Rightarrow> 'v bench \<Rightarrow> 'v bench \<Rightarrow> bool" where
  "reports kb mb s s' \<longleftrightarrow> (\<exists>c d e. pg_out s' = pg_out s @
     [(''\<newline>=====================================================\<newline>'', []), (''  Workload: Throughput - %zu KB blocks\<newline>'', [PInt (int kb)]),
      (''=====================================================\<newline>'', []), (''  Total read:   %u MB\<newline>'', [PInt (int mb)]),
      (''  Total cycles: %llu\<newline>'', [PInt c]), (''  Cycles/byte:  %llu  (TSC-freq independent)\<newline>'', [PInt d]),
      (''  Throughput:   ~%llu MB/s  (assumes 3 GHz TSC)\<newline>'', [PInt e]), (''-----------------------------------------------------\<newline>'', [])])"

lemma reported_mb: "n \<le> 104857600 \<Longrightarrow> uint (ucast ((of_nat n :: u64) div 1048576) :: u32) = int (n div 1048576)"
proof -
  assume n: "n \<le> 104857600"
  then have "unat ((of_nat n :: u64) div 1048576) = n div 1048576"
    by (simp add: unat_div unat_of_nat take_bit_nat_eq_self)
  moreover have "n div 1048576 \<le> 100" using div_le_mono [OF n, of 1048576] by simp
  ultimately show ?thesis by (simp add: uint_nat unsigned_ucast_eq take_bit_nat_eq_self)
qed

lemma throughput_bench:
  assumes "mounted s" and bs: "0 < bs" "bs \<le> 52428800"
  shows "runs (bench_throughput P bs s) (\<lambda>s'. mounted s' \<and>
    ((\<forall>v. fst (px_malloc P bs v)) \<longrightarrow> reports (bs div 1024) (bs * ((52428800 + bs - 1) div bs) div 1048576) s s'))"
proof -
  let ?K = "(52428800 + bs - 1) div bs"
  have "bs * ?K \<le> 52428800 + bs - 1" by (rule times_div_less_eq_dividend)
  then have mb: "bs * ?K \<le> 104857600" using bs by linarith
  then have mb': "bs * ((52428799 + bs) div bs) \<le> 104857600" by simp
  have v: "valid (pg_os s)" and l: "length (samples s) = NUM_ITERATIONS" using assms(1) by (simp_all add: measuring_def)
  have rest: "runs (read_until P fd bs 52428800 0 s1) Q"
    if "valid (pg_os s1)" "\<exists>f. vf_fds (view (pg_os s1)) fd = Some (f, 3, 0)"
      "\<And>v. valid v \<Longrightarrow> vf_fds (view v) fd \<noteq> None \<Longrightarrow> Q (of_nat (bs * ?K), s1\<lparr>pg_os := v\<rparr>)" for fd Q and s1 :: "'v bench"
    using read_until_rule [OF bs, of 0 s1 fd Q] that by simp
  show ?thesis
    unfolding bench_throughput_def perf_paths rdtsc_counter
    apply (simp add: Let_def split_def del: of_nat_mult, rule open_rule [OF v perf_names(1) perf_named(3)], simp add: split_def del: of_nat_mult)
    subgoal premises p for d f v1
    proof -
      let ?m = "px_malloc P bs v1"
      have m: "valid (snd ?m)" "vf_fds (view (snd ?m)) d = Some (f, 3, 0)" using memory [OF p(1), of bs] p(3) by (simp_all add: same_files_def)
      note t = counter [OF m(1)]
      have t2: "valid (snd (px_rdtsc P v)) \<and> vf_fds (view (snd (px_rdtsc P v))) d \<noteq> None" if "valid v" "vf_fds (view v) d \<noteq> None" for v
        using counter [OF that(1)] that(2) by (simp add: same_files_def)
      show ?thesis using m t l t2
        by (auto simp: same_files_def reports_def report_throughput_def Let_def printf_def measuring_def reported_mb [OF mb'] simp del: of_nat_mult
            intro!: close_rule rest)
    qed
    done
qed

lemma perf_main_ends:
  assumes "starting (pg_os s)" and "ready w" and "length (samples s) = NUM_ITERATIONS"
  shows "runs (perf_main P s) (\<lambda>(r, s'). r = Returns 0 \<and> (\<exists>out. pg_out s' = out @ [(''\<newline>[+] Benchmarks completed.\<newline>'', [])]))"
proof -
  obtain v1 v2 v3 where start: "px_thread_create P (pg_os s) = (True, v1)" "wait_registered P v1 = Some v2"
    "px_mount P ''none'' ''/'' ''fuse'' v2 = Some (Inr (), v3)" "valid v3"
    by (rule boots [OF assms(1,2)])
  show ?thesis
    unfolding perf_main_def perf_benchmarks_def
    by (simp add: start Let_def)
      (auto intro!: runs_mono [OF stat_benches(1)] runs_mono [OF stat_benches(2)] runs_mono [OF pread_bench] runs_mono [OF seq_read_bench]
        runs_mono [OF open_read_close_bench] runs_mono [OF readdir_bench] runs_mono [OF throughput_bench]
        simp: start printf_def measuring_def assms(3))
qed

end

end
