(* ===== verification/Posix_Reference.thy ===== *)
theory Posix_Reference
  imports Posix_Driver Hello_Perf Test_Programs
begin

text \<open>
  A system that satisfies the laws of \<open>Posix_Driver\<close>: a small virtual file system over the operations of the driver,
  with a table of descriptors, a table of directory streams, and the backend thread that registers its session the
  first time the program gives up the processor. It shows that the laws can hold together, for both file systems of
  the applications; it is not Unikraft's code.
\<close>

section \<open>A virtual file system\<close>

record 'u ref_os =
  ro_vfs :: "'u vfs"
  ro_next :: int
  ro_thread :: bool
  ro_session :: bool
  ro_cycles :: u64

definition to_stat :: "uk_statx \<Rightarrow> stat" where
  "to_stat x = zero_stat\<lparr>st_ino := stx_ino x, st_mode := stx_mode x, st_nlink := stx_nlink x, st_size := stx_size x\<rparr>"

text \<open>Giving a file back: the mount point is kept, other files are released with their last reference.\<close>

definition ref_put :: "addr \<Rightarrow> addr \<Rightarrow> 'u ukfs_sys \<Rightarrow> 'u ukfs_sys" where
  "ref_put root f s =
     (let s = s\<lparr>sy_refs := (sy_refs s)(f := sy_refs s f - 1)\<rparr> in if f = root then s else fusefs_release f True s)"

definition set_sys :: "'u ref_os \<Rightarrow> 'u ukfs_sys \<Rightarrow> 'u ref_os" where
  "set_sys os s = os\<lparr>ro_vfs := (ro_vfs os)\<lparr>vf_sys := s\<rparr>\<rparr>"

definition ref_release :: "addr \<Rightarrow> 'u ref_os \<Rightarrow> 'u ref_os" where
  "ref_release f os = set_sys os (ref_put (vf_root (ro_vfs os)) f (vf_sys (ro_vfs os)))"

definition ref_walk :: "ukfs_consts \<Rightarrow> 'u fuse_lowlevel_ops \<Rightarrow> byte list \<Rightarrow> 'u ref_os \<Rightarrow> ((int + addr) \<times> 'u ref_os) option" where
  "ref_walk uc op path os = do {
     (res, target, s) \<leftarrow> fusefs_lookup uc op (vf_root (ro_vfs os)) (drop 1 path) (vf_sys (ro_vfs os));
     Some (case target of None \<Rightarrow> Inl (- res) | Some (f, _) \<Rightarrow> Inr f, set_sys os s)
   }"

definition ref_getstat :: "ukfs_consts \<Rightarrow> 'u fuse_lowlevel_ops \<Rightarrow> addr \<Rightarrow> 'u ref_os \<Rightarrow> ((int + uk_statx) \<times> 'u ref_os) option" where
  "ref_getstat uc op f os = do {
     (res, x, s) \<leftarrow> fusefs_getstat uc op f (vf_sys (ro_vfs os));
     Some (case x of None \<Rightarrow> Inl (- res) | Some x \<Rightarrow> Inr x, set_sys os s)
   }"

definition ref_attr :: "ukfs_consts \<Rightarrow> 'u fuse_lowlevel_ops \<Rightarrow> byte list \<Rightarrow> 'u ref_os \<Rightarrow> ((int + uk_statx) \<times> 'u ref_os) option" where
  "ref_attr uc op path os = do {
     (r, os) \<leftarrow> ref_walk uc op path os;
     case r of
       Inl e \<Rightarrow> Some (Inl e, os)
     | Inr f \<Rightarrow> do { (r, os) \<leftarrow> ref_getstat uc op f os; Some (r, ref_release f os) }
   }"

definition ref_stat :: "ukfs_consts \<Rightarrow> 'u fuse_lowlevel_ops \<Rightarrow> byte list \<Rightarrow> 'u ref_os \<Rightarrow> ((int + stat) \<times> 'u ref_os) option" where
  "ref_stat uc op path os = do { (r, os) \<leftarrow> ref_attr uc op path os; Some (map_sum id to_stat r, os) }"

definition ref_access :: "ukfs_consts \<Rightarrow> 'u fuse_lowlevel_ops \<Rightarrow> byte list \<Rightarrow> int \<Rightarrow> 'u ref_os \<Rightarrow> ((int + unit) \<times> 'u ref_os) option" where
  "ref_access uc op path mode os = do { (r, os) \<leftarrow> ref_attr uc op path os; Some (map_sum id (\<lambda>_. ()) r, os) }"

definition ref_open :: "ukfs_consts \<Rightarrow> 'u fuse_lowlevel_ops \<Rightarrow> byte list \<Rightarrow> 'u ref_os \<Rightarrow> ((int + int) \<times> 'u ref_os) option" where
  "ref_open uc op path os = do {
     (r, os) \<leftarrow> ref_walk uc op path os;
     case r of
       Inl e \<Rightarrow> Some (Inl e, os)
     | Inr f \<Rightarrow>
         (let v = ro_vfs os; d = ro_next os
          in Some (Inr d, os\<lparr>ro_vfs := v\<lparr>vf_fds := (vf_fds v)(d \<mapsto> (f, the (nodes (vf_sys v) f), 0))\<rparr>, ro_next := d + 1\<rparr>))
   }"

definition ref_opendir :: "ukfs_consts \<Rightarrow> 'u fuse_lowlevel_ops \<Rightarrow> byte list \<Rightarrow> 'u ref_os \<Rightarrow> ((int + int) \<times> 'u ref_os) option" where
  "ref_opendir uc op path os = do {
     (r, os) \<leftarrow> ref_walk uc op path os;
     case r of
       Inl e \<Rightarrow> Some (Inl e, os)
     | Inr f \<Rightarrow>
         (let v = ro_vfs os; d = ro_next os
          in Some (Inr d, os\<lparr>ro_vfs := v\<lparr>vf_dirs := (vf_dirs v)(d \<mapsto> (f, the (nodes (vf_sys v) f), 0))\<rparr>, ro_next := d + 1\<rparr>))
   }"

definition ref_close :: "int \<Rightarrow> 'u ref_os \<Rightarrow> ((int + unit) \<times> 'u ref_os) option" where
  "ref_close d os =
     (let v = ro_vfs os
      in case vf_fds v d of
           None \<Rightarrow> Some (Inl EBADF, os)
         | Some (f, n, off) \<Rightarrow> Some (Inr (), ref_release f (os\<lparr>ro_vfs := v\<lparr>vf_fds := (vf_fds v)(d := None)\<rparr>\<rparr>)))"

definition ref_closedir :: "int \<Rightarrow> 'u ref_os \<Rightarrow> ((int + unit) \<times> 'u ref_os) option" where
  "ref_closedir d os =
     (let v = ro_vfs os
      in case vf_dirs v d of
           None \<Rightarrow> Some (Inl EBADF, os)
         | Some (f, n, c) \<Rightarrow> Some (Inr (), ref_release f (os\<lparr>ro_vfs := v\<lparr>vf_dirs := (vf_dirs v)(d := None)\<rparr>\<rparr>)))"

definition ref_fstat :: "ukfs_consts \<Rightarrow> 'u fuse_lowlevel_ops \<Rightarrow> int \<Rightarrow> 'u ref_os \<Rightarrow> ((int + stat) \<times> 'u ref_os) option" where
  "ref_fstat uc op d os =
     (case vf_fds (ro_vfs os) d of
        None \<Rightarrow> Some (Inl EBADF, os)
      | Some (f, n, off) \<Rightarrow> do { (r, os) \<leftarrow> ref_getstat uc op f os; Some (map_sum id to_stat r, os) })"

definition set_pos :: "int \<Rightarrow> int \<Rightarrow> 'u ref_os \<Rightarrow> 'u ref_os" where
  "set_pos d pos os =
     (let v = ro_vfs os
      in case vf_fds v d of
           None \<Rightarrow> os
         | Some (f, n, _) \<Rightarrow> os\<lparr>ro_vfs := v\<lparr>vf_fds := (vf_fds v)(d \<mapsto> (f, n, pos))\<rparr>\<rparr>)"

definition ref_lseek :: "ukfs_consts \<Rightarrow> 'u fuse_lowlevel_ops \<Rightarrow> int \<Rightarrow> int \<Rightarrow> whence \<Rightarrow> 'u ref_os \<Rightarrow> ((int + int) \<times> 'u ref_os) option" where
  "ref_lseek uc op d k wh os =
     (case vf_fds (ro_vfs os) d of
        None \<Rightarrow> Some (Inl EBADF, os)
      | Some (f, n, off) \<Rightarrow> do {
          (r, os) \<leftarrow> (case wh of
             SEEK_SET \<Rightarrow> Some (Inr k, os)
           | SEEK_CUR \<Rightarrow> Some (Inr (off + k), os)
           | SEEK_END \<Rightarrow> do { (r, os) \<leftarrow> ref_getstat uc op f os; Some (map_sum id (\<lambda>x. sint (stx_size x) + k) r, os) });
          case r of
            Inl e \<Rightarrow> Some (Inl e, os)
          | Inr pos \<Rightarrow> if pos < 0 \<or> pos \<ge> 2 ^ 63 then Some (Inl EINVAL, os) else Some (Inr pos, set_pos d pos os)
        })"

definition ref_pread :: "'u fuse_lowlevel_ops \<Rightarrow> int \<Rightarrow> nat \<Rightarrow> int \<Rightarrow> 'u ref_os \<Rightarrow> ((int + byte list) \<times> 'u ref_os) option" where
  "ref_pread op d len pos os =
     (case vf_fds (ro_vfs os) d of
        None \<Rightarrow> Some (Inl EBADF, os)
      | Some (f, n, off) \<Rightarrow> do {
          (res, parts, s) \<leftarrow> fusefs_read op f [of_nat len] (of_int pos) (vf_sys (ro_vfs os));
          Some (if res < 0 then Inl (- res) else Inr (concat parts), set_sys os s)
        })"

definition ref_read :: "'u fuse_lowlevel_ops \<Rightarrow> int \<Rightarrow> nat \<Rightarrow> 'u ref_os \<Rightarrow> ((int + byte list) \<times> 'u ref_os) option" where
  "ref_read op d len os =
     (case vf_fds (ro_vfs os) d of
        None \<Rightarrow> Some (Inl EBADF, os)
      | Some (f, n, off) \<Rightarrow> do {
          (r, os) \<leftarrow> ref_pread op d len off os;
          Some (r, case r of Inl _ \<Rightarrow> os | Inr bs \<Rightarrow> set_pos d (off + int (length bs)) os)
        })"

definition ref_readdir :: "ukfs_consts \<Rightarrow> u64 \<Rightarrow> 'u fuse_lowlevel_ops \<Rightarrow> int \<Rightarrow> 'u ref_os \<Rightarrow> (uk_fs_dirent option \<times> 'u ref_os) option" where
  "ref_readdir uc dirbuf op d os =
     (case vf_dirs (ro_vfs os) d of
        None \<Rightarrow> Some (None, os)
      | Some (f, n, c) \<Rightarrow> do {
          (res, e, c', s) \<leftarrow> fusefs_listdir uc op f c dirbuf (vf_sys (ro_vfs os));
          let os = set_sys os s;
          Some (e, case e of None \<Rightarrow> os
                   | Some _ \<Rightarrow> os\<lparr>ro_vfs := (ro_vfs os)\<lparr>vf_dirs := (vf_dirs (ro_vfs os))(d \<mapsto> (f, n, c'))\<rparr>\<rparr>)
        })"

definition ref_mount :: "'u fuse_world \<Rightarrow> string \<Rightarrow> string \<Rightarrow> string \<Rightarrow> 'u ref_os \<Rightarrow> ((int + unit) \<times> 'u ref_os) option" where
  "ref_mount w dev path ty os =
     (case fusefs_vopen (ro_session os) (True, True, True) (boot_sys w) of
        (None, _, s) \<Rightarrow> Some (Inl ENOMEM, os)
      | (Some f, _, s) \<Rightarrow> Some (Inr (), os\<lparr>ro_vfs := \<lparr>vf_sys = s, vf_root = f, vf_fds = Map.empty, vf_dirs = Map.empty\<rparr>\<rparr>))"

definition ref_posix :: "'u fuse_world \<Rightarrow> ukfs_consts \<Rightarrow> u64 \<Rightarrow> 'u fuse_lowlevel_ops \<Rightarrow> 'u ref_os posix" where
  "ref_posix w uc dirbuf op =
     \<lparr>px_mount = ref_mount w, px_stat = ref_stat uc op, px_fstat = ref_fstat uc op, px_access = ref_access uc op,
      px_open = ref_open uc op, px_close = ref_close, px_lseek = ref_lseek uc op, px_read = ref_read op, px_pread = ref_pread op,
      px_opendir = ref_opendir uc op, px_readdir = ref_readdir uc dirbuf op, px_closedir = ref_closedir,
      px_thread_create = \<lambda>os. (True, os\<lparr>ro_thread := True\<rparr>),
      px_yield = \<lambda>os. os\<lparr>ro_session := ro_session os \<or> ro_thread os\<rparr>, px_registered = ro_session,
      px_rdtsc = \<lambda>os. (ro_cycles os, os\<lparr>ro_cycles := ro_cycles os + 1000\<rparr>), px_malloc = \<lambda>n os. (True, os), px_fresh = \<lambda>n. 0xAA\<rparr>"

section \<open>Its invariant\<close>

text \<open>The file behind each open descriptor or stream; files other than the mount point are used once.\<close>

definition handles :: "'u vfs \<Rightarrow> int + int \<Rightarrow> addr option" where
  "handles v x = (case x of Inl d \<Rightarrow> map_option fst (vf_fds v d) | Inr d \<Rightarrow> map_option fst (vf_dirs v d))"

definition ref_ok :: "(ukfs_in \<Rightarrow> bool) \<Rightarrow> 'u ref_os \<Rightarrow> bool" where
  "ref_ok serves os \<longleftrightarrow> vfs_ok serves (ro_vfs os) \<and>
     (\<forall>f. nodes (vf_sys (ro_vfs os)) f \<noteq> None \<longrightarrow> f < brk (sy_w (vf_sys (ro_vfs os)))) \<and>
     (\<forall>x y f. handles (ro_vfs os) x = Some f \<longrightarrow> handles (ro_vfs os) y = Some f \<longrightarrow> f \<noteq> vf_root (ro_vfs os) \<longrightarrow> x = y) \<and>
     (\<forall>d. ro_next os \<le> d \<longrightarrow> vf_fds (ro_vfs os) d = None \<and> vf_dirs (ro_vfs os) d = None)"

lemma set_sys_simps [simp]:
  "vf_sys (ro_vfs (set_sys os s)) = s" "vf_root (ro_vfs (set_sys os s)) = vf_root (ro_vfs os)" "vf_fds (ro_vfs (set_sys os s)) = vf_fds (ro_vfs os)"
  "vf_dirs (ro_vfs (set_sys os s)) = vf_dirs (ro_vfs os)" "ro_next (set_sys os s) = ro_next os" "handles (ro_vfs (set_sys os s)) = handles (ro_vfs os)"
  "set_sys (set_sys os s) s' = set_sys os s'"
  by (simp_all add: set_sys_def handles_def fun_eq_iff split: sum.splits)

lemma vfs_okD:
  assumes "vfs_ok serves v"
  shows "sys_ok serves (vf_sys v) []" "nodes (vf_sys v) (vf_root v) = Some FUSE_ROOT_ID"
    "vf_fds v d = Some (f, n, off) \<Longrightarrow> nodes (vf_sys v) f = Some n \<and> 0 \<le> off" "vf_dirs v d = Some (f, n, c) \<Longrightarrow> nodes (vf_sys v) f = Some n"
  using assms unfolding vfs_ok_def by blast+

lemma ref_okD:
  assumes "ref_ok serves os"
  shows "vfs_ok serves (ro_vfs os)" "nodes (vf_sys (ro_vfs os)) f \<noteq> None \<Longrightarrow> f < brk (sy_w (vf_sys (ro_vfs os)))"
    "handles (ro_vfs os) x = Some f \<Longrightarrow> handles (ro_vfs os) y = Some f \<Longrightarrow> f \<noteq> vf_root (ro_vfs os) \<Longrightarrow> x = y"
    "ro_next os \<le> d \<Longrightarrow> vf_fds (ro_vfs os) d = None" "ro_next os \<le> d \<Longrightarrow> vf_dirs (ro_vfs os) d = None"
  using assms unfolding ref_ok_def by blast+

lemma ref_ok_sys:
  assumes "ref_ok serves os" and "sys_ok serves s []" and "nodes s = nodes (vf_sys (ro_vfs os))"
    and "brk (sy_w (vf_sys (ro_vfs os))) \<le> brk (sy_w s)"
  shows "ref_ok serves (set_sys os s)"
proof -
  have "f < brk (sy_w s)" if "nodes s f \<noteq> None" for f using ref_okD(2) [OF assms(1), of f] that assms(3,4) by simp
  then show ?thesis using assms(1-3) unfolding ref_ok_def vfs_ok_def by simp
qed

lemma ref_ok_keeps: "ref_ok serves os \<Longrightarrow> keeps_serving serves (vf_sys (ro_vfs os)) s \<Longrightarrow> ref_ok serves (set_sys os s)"
  by (rule ref_ok_sys) (simp_all add: keeps_serving_def)

lemma ref_put_ok:
  assumes "sys_ok serves s []" and "nodes s f \<noteq> None"
  shows "sys_ok serves (ref_put r f s) []" "sy_w (ref_put r f s) = sy_w s"
    "nodes (ref_put r f s) = (if f = r then nodes s else (nodes s)(f := None))"
proof -
  obtain ff where ff: "sy_files s f = Some ff" using assms(2) by (auto simp: nodes_def)
  show "sys_ok serves (ref_put r f s) []" "sy_w (ref_put r f s) = sy_w s"
    using assms(1) ff by (auto simp: ref_put_def fusefs_release_def sys_ok_def Let_def split: option.splits)
  show "nodes (ref_put r f s) = (if f = r then nodes s else (nodes s)(f := None))"
    using ff by (auto simp: ref_put_def fusefs_release_def Let_def nodes_def fun_eq_iff split: option.splits)
qed

text \<open>Closing a descriptor or a stream.\<close>

lemma ref_ok_close:
  assumes ok: "ref_ok serves os" and x: "handles (ro_vfs os) x = Some f"
    and os': "ro_next os' = ro_next os" "vf_root (ro_vfs os') = vf_root (ro_vfs os)" "vf_sys (ro_vfs os') = vf_sys (ro_vfs os)"
    "\<And>d y. vf_fds (ro_vfs os') d = Some y \<Longrightarrow> x \<noteq> Inl d \<and> vf_fds (ro_vfs os) d = Some y"
    "\<And>d y. vf_dirs (ro_vfs os') d = Some y \<Longrightarrow> x \<noteq> Inr d \<and> vf_dirs (ro_vfs os) d = Some y"
  shows "ref_ok serves (ref_release f os')"
proof -
  note v = vfs_okD [OF ref_okD(1) [OF ok]]
  have f: "nodes (vf_sys (ro_vfs os)) f \<noteq> None" using x v(3,4) by (auto simp: handles_def split: sum.splits)
  note p = ref_put_ok [OF v(1) f, of "vf_root (ro_vfs os)"]
  have h: "handles (ro_vfs os') y = Some g \<Longrightarrow> x \<noteq> y \<and> handles (ro_vfs os) y = Some g" for y g
    by (auto simp: handles_def dest: os'(4,5) split: sum.splits)
  have keep: "nodes (vf_sys (ro_vfs os)) g = nodes (ref_put (vf_root (ro_vfs os)) f (vf_sys (ro_vfs os))) g"
    if "handles (ro_vfs os') y = Some g" for y g
    using h [OF that] ref_okD(3) [OF ok x] p(3) by auto
  have "handles (ro_vfs os') (Inl d) = Some g" if "vf_fds (ro_vfs os') d = Some (g, n, off)" for d g n off
    using that by (simp add: handles_def)
  moreover have "handles (ro_vfs os') (Inr d) = Some g" if "vf_dirs (ro_vfs os') d = Some (g, n, c)" for d g n c
    using that by (simp add: handles_def)
  ultimately have n: "\<And>d g n off. vf_fds (ro_vfs os') d = Some (g, n, off) \<Longrightarrow> nodes (ref_put (vf_root (ro_vfs os)) f (vf_sys (ro_vfs os))) g = Some n \<and> 0 \<le> off"
    "\<And>d g n c. vf_dirs (ro_vfs os') d = Some (g, n, c) \<Longrightarrow> nodes (ref_put (vf_root (ro_vfs os)) f (vf_sys (ro_vfs os))) g = Some n"
    using keep os'(4,5) v(3,4) by metis+
  show ?thesis
    unfolding ref_ok_def vfs_ok_def ref_release_def
  proof (intro conjI allI impI)
    fix y z g
    assume "handles (ro_vfs (set_sys os' (ref_put (vf_root (ro_vfs os')) f (vf_sys (ro_vfs os'))))) y = Some g"
      and "handles (ro_vfs (set_sys os' (ref_put (vf_root (ro_vfs os')) f (vf_sys (ro_vfs os'))))) z = Some g"
      and "g \<noteq> vf_root (ro_vfs (set_sys os' (ref_put (vf_root (ro_vfs os')) f (vf_sys (ro_vfs os')))))"
    then show "y = z" using h ref_okD(3) [OF ok] os'(2) by auto
  next
    fix d
    assume "ro_next (set_sys os' (ref_put (vf_root (ro_vfs os')) f (vf_sys (ro_vfs os')))) \<le> d"
    then have "vf_fds (ro_vfs os) d = None" "vf_dirs (ro_vfs os) d = None" using ref_okD(4,5) [OF ok] os'(1) by simp_all
    then show "vf_fds (ro_vfs (set_sys os' (ref_put (vf_root (ro_vfs os')) f (vf_sys (ro_vfs os'))))) d = None"
      "vf_dirs (ro_vfs (set_sys os' (ref_put (vf_root (ro_vfs os')) f (vf_sys (ro_vfs os'))))) d = None"
      using os'(4,5) by (simp_all, metis option.exhaust option.discI, metis option.exhaust option.discI)
  qed (use p v(2) n os'(2,3) ref_okD(2) [OF ok] in \<open>auto split: if_splits\<close>)
qed

section \<open>The laws hold\<close>

lemmas ref_defs = ref_stat_def ref_access_def ref_attr_def ref_walk_def ref_getstat_def ref_release_def ref_open_def ref_opendir_def
  ref_fstat_def ref_lseek_def ref_pread_def ref_read_def ref_readdir_def ref_close_def ref_closedir_def

context tree_ops
begin

lemma looked_up:
  assumes "ref_ok serves os" and "plain_name name"
    and "fusefs_lookup uc op (vf_root (ro_vfs os)) name (vf_sys (ro_vfs os)) = Some (UKFS_STOP_FILE uc, Some (f, l), s1)"
  shows "sys_ok serves s1 [] \<and> brk (sy_w (vf_sys (ro_vfs os))) \<le> brk (sy_w s1) \<and> nodes s1 f \<noteq> None \<and>
    (f = vf_root (ro_vfs os) \<and> nodes s1 = nodes (vf_sys (ro_vfs os)) \<or>
     nodes (vf_sys (ro_vfs os)) f = None \<and> f < brk (sy_w s1) \<and> (\<exists>c. nodes s1 = (nodes (vf_sys (ro_vfs os)))(f \<mapsto> c)))"
proof -
  note v = vfs_okD [OF ref_okD(1) [OF assms(1)]]
  have "nodes (vf_sys (ro_vfs os)) g = None" if "brk (sy_w (vf_sys (ro_vfs os))) \<le> g" for g
    using ref_okD(2) [OF assms(1), of g] that by fastforce
  with walk [OF v(1,2) assms(2), of uc] v(2) show ?thesis by (auto simp: assms(3) split: option.splits)
qed

lemma not_found:
  assumes "ref_ok serves os" and "plain_name name"
    and "fusefs_lookup uc op (vf_root (ro_vfs os)) name (vf_sys (ro_vfs os)) = Some (r, None, s1)"
  shows "ref_ok serves (set_sys os s1)"
proof -
  note v = vfs_okD [OF ref_okD(1) [OF assms(1)]]
  have "sys_ok serves s1 [] \<and> brk (sy_w (vf_sys (ro_vfs os))) \<le> brk (sy_w s1) \<and> nodes s1 = nodes (vf_sys (ro_vfs os))"
    using walk [OF v(1,2) assms(2), of uc] by (auto simp: assms(3) split: option.splits)
  then show ?thesis by (intro ref_ok_sys [OF assms(1)]) simp_all
qed

lemma stat_call:
  assumes "sys_ok serves s []" and "nodes s f \<noteq> None" and "fusefs_getstat uc op f s = Some (r, x, s')"
  shows "sys_ok serves s' [] \<and> nodes s' = nodes s \<and> brk (sy_w s) \<le> brk (sy_w s')"
proof -
  from assms(2) obtain n where "nodes s f = Some n" by blast
  from getstat [OF assms(1) this, of uc] obtain s1 where s1: "fusefs_getstat uc op f s = Some (case attr n of None \<Rightarrow> (- ENOENT, None, s1)
      | Some x \<Rightarrow> (0, Some \<lparr>stx_mask = UK_STATX_MODE uc OR UK_STATX_SIZE uc OR UK_STATX_INO uc OR UK_STATX_NLINK uc,
          stx_mode = st_mode x, stx_size = st_size x, stx_ino = st_ino x, stx_nlink = st_nlink x,
          stx_uid = st_uid x, stx_gid = st_gid x\<rparr>, s1))" "sys_ok serves s1 []" "sy_files s1 = sy_files s" "brk (sy_w s) < brk (sy_w s1)" by blast
  then have "s' = s1" using assms(3) by (cases "attr n") simp_all
  then show ?thesis using s1(2,4) nodes_cong [OF s1(3)] by simp
qed

lemma ref_attr_found:
  assumes "ref_ok serves os" and "plain_name name"
    and l: "fusefs_lookup uc op (vf_root (ro_vfs os)) name (vf_sys (ro_vfs os)) = Some (UKFS_STOP_FILE uc, Some (f, length name), s1)"
    and g: "fusefs_getstat uc op f s1 = Some (0, Some x, s2)"
  shows "\<exists>os'. ref_attr uc op (slash # name) os = Some (Inr x, os') \<and> ref_ok serves os' \<and> same_files (ro_vfs os) (ro_vfs os')"
proof -
  note s1 = looked_up [OF assms(1,2) l]
  have s2: "sys_ok serves s2 [] \<and> nodes s2 = nodes s1 \<and> brk (sy_w s1) \<le> brk (sy_w s2)" using stat_call [OF _ _ g] s1 by blast
  let ?s = "ref_put (vf_root (ro_vfs os)) f s2"
  have "sys_ok serves ?s []" "sy_w ?s = sy_w s2" "nodes ?s = (if f = vf_root (ro_vfs os) then nodes s2 else (nodes s2)(f := None))"
    using ref_put_ok [of serves s2 f] s1 s2 by simp_all
  moreover have "nodes ?s = nodes (vf_sys (ro_vfs os))" using s1 s2 calculation(3) vfs_okD(2) [OF ref_okD(1) [OF assms(1)]] by (auto simp: fun_upd_idem)
  ultimately have "ref_ok serves (set_sys os ?s)" using s1 s2 by (intro ref_ok_sys [OF assms(1)]) auto
  moreover have "ref_attr uc op (slash # name) os = Some (Inr x, set_sys os ?s)" by (simp add: ref_defs l g)
  ultimately show ?thesis by (simp add: same_files_def)
qed

lemma ref_attr_missing:
  assumes "ref_ok serves os" and "plain_name name"
    and l: "fusefs_lookup uc op (vf_root (ro_vfs os)) name (vf_sys (ro_vfs os)) = Some (- e, None, s1)"
  shows "\<exists>os'. ref_attr uc op (slash # name) os = Some (Inl e, os') \<and> ref_ok serves os' \<and> same_files (ro_vfs os) (ro_vfs os')"
  using not_found [OF assms] by (simp add: ref_defs l same_files_def)

lemma ref_open_missing:
  assumes "ref_ok serves os" and "plain_name name"
    and l: "fusefs_lookup uc op (vf_root (ro_vfs os)) name (vf_sys (ro_vfs os)) = Some (- e, None, s1)"
  shows "\<exists>os'. ref_open uc op (slash # name) os = Some (Inl e, os') \<and> ref_ok serves os' \<and> same_files (ro_vfs os) (ro_vfs os')"
  using not_found [OF assms] by (simp add: ref_defs l same_files_def)

text \<open>A new handle for a file just looked up.\<close>

lemma ref_ok_handle:
  assumes ok: "ref_ok serves os" and s1: "sys_ok serves s1 []" "brk (sy_w (vf_sys (ro_vfs os))) \<le> brk (sy_w s1)" "nodes s1 f = Some n"
    and f: "f = vf_root (ro_vfs os) \<and> nodes s1 = nodes (vf_sys (ro_vfs os)) \<or>
      nodes (vf_sys (ro_vfs os)) f = None \<and> f < brk (sy_w s1) \<and> (\<exists>c. nodes s1 = (nodes (vf_sys (ro_vfs os)))(f \<mapsto> c))"
    and os': "vf_sys (ro_vfs os') = s1" "vf_root (ro_vfs os') = vf_root (ro_vfs os)" "ro_next os' = ro_next os + 1"
    and new: "vf_fds (ro_vfs os') = (vf_fds (ro_vfs os))(ro_next os \<mapsto> (f, n, 0)) \<and> vf_dirs (ro_vfs os') = vf_dirs (ro_vfs os) \<or>
      vf_fds (ro_vfs os') = vf_fds (ro_vfs os) \<and> vf_dirs (ro_vfs os') = (vf_dirs (ro_vfs os))(ro_next os \<mapsto> (f, n, 0))"
  shows "ref_ok serves os'"
proof -
  note v = vfs_okD [OF ref_okD(1) [OF ok]]
  have old: "nodes s1 g = Some m" if "nodes (vf_sys (ro_vfs os)) g = Some m" for g m using f that by auto
  have h: "handles (ro_vfs os) x = Some g \<Longrightarrow> nodes (vf_sys (ro_vfs os)) g \<noteq> None" for x g
    using v(3,4) by (auto simp: handles_def split: sum.splits)
  obtain x where x: "handles (ro_vfs os') = (handles (ro_vfs os))(x \<mapsto> f)" and "x = Inl (ro_next os) \<or> x = Inr (ro_next os)"
    using new by (elim disjE) (force simp: handles_def fun_eq_iff split: sum.splits)+
  have below: "g < brk (sy_w s1)" if "nodes s1 g \<noteq> None" for g
    using ref_okD(2) [OF ok, of g] that f s1(2) by (cases "g = f") auto
  have "y = z" if "handles (ro_vfs os') y = Some g" "handles (ro_vfs os') z = Some g" "g \<noteq> vf_root (ro_vfs os)" for y z g
  proof -
    have "handles (ro_vfs os) u \<noteq> Some f" if "f \<noteq> vf_root (ro_vfs os)" for u using h [of u f] f that by auto
    then show ?thesis using that ref_okD(3) [OF ok] unfolding x by (auto split: if_splits)
  qed
  moreover have "vf_fds (ro_vfs os') d = None \<and> vf_dirs (ro_vfs os') d = None" if "ro_next os' \<le> d" for d
    using that new ref_okD(4,5) [OF ok, of d] os'(3) by auto
  moreover have "nodes s1 g = Some m \<and> 0 \<le> off" if "vf_fds (ro_vfs os') d = Some (g, m, off)" for d g m off
    using that new old v(3) s1(3) by (auto split: if_splits)
  moreover have "nodes s1 g = Some m" if "vf_dirs (ro_vfs os') d = Some (g, m, c)" for d g m c
    using that new old v(4) s1(3) by (auto split: if_splits)
  ultimately show ?thesis using s1(1) below old [OF v(2)] unfolding ref_ok_def vfs_ok_def os' by blast
qed

lemma ref_open_found:
  assumes ok: "ref_ok serves os" and "plain_name name"
    and l: "fusefs_lookup uc op (vf_root (ro_vfs os)) name (vf_sys (ro_vfs os)) = Some (UKFS_STOP_FILE uc, Some (f, length name), s1)"
    and n: "nodes s1 f = Some n"
  shows "\<exists>d os'. ref_open uc op (slash # name) os = Some (Inr d, os') \<and> ref_ok serves os' \<and> vf_fds (ro_vfs os) d = None \<and>
      vf_fds (ro_vfs os') = (vf_fds (ro_vfs os))(d \<mapsto> (f, n, 0)) \<and> vf_dirs (ro_vfs os') = vf_dirs (ro_vfs os)"
    and "\<exists>d os'. ref_opendir uc op (slash # name) os = Some (Inr d, os') \<and> ref_ok serves os' \<and> vf_dirs (ro_vfs os) d = None \<and>
      vf_dirs (ro_vfs os') = (vf_dirs (ro_vfs os))(d \<mapsto> (f, n, 0)) \<and> vf_fds (ro_vfs os') = vf_fds (ro_vfs os)"
proof -
  note s1 = looked_up [OF assms(1,2) l]
  let ?v = "ro_vfs os" let ?d = "ro_next os"
  let ?o1 = "os\<lparr>ro_vfs := ?v\<lparr>vf_sys := s1, vf_fds := (vf_fds ?v)(?d \<mapsto> (f, n, 0))\<rparr>, ro_next := ?d + 1\<rparr>"
  let ?o2 = "os\<lparr>ro_vfs := ?v\<lparr>vf_sys := s1, vf_dirs := (vf_dirs ?v)(?d \<mapsto> (f, n, 0))\<rparr>, ro_next := ?d + 1\<rparr>"
  have "ref_ok serves ?o1" by (rule ref_ok_handle [OF ok _ _ n]) (use s1 in simp_all)
  moreover have "ref_open uc op (slash # name) os = Some (Inr ?d, ?o1)" by (simp add: ref_defs l n Let_def set_sys_def)
  ultimately show "\<exists>d os'. ref_open uc op (slash # name) os = Some (Inr d, os') \<and> ref_ok serves os' \<and> vf_fds (ro_vfs os) d = None \<and>
      vf_fds (ro_vfs os') = (vf_fds (ro_vfs os))(d \<mapsto> (f, n, 0)) \<and> vf_dirs (ro_vfs os') = vf_dirs (ro_vfs os)"
    using ref_okD(4) [OF ok, of ?d] by simp
  have "ref_ok serves ?o2" by (rule ref_ok_handle [OF ok _ _ n]) (use s1 in simp_all)
  moreover have "ref_opendir uc op (slash # name) os = Some (Inr ?d, ?o2)" by (simp add: ref_defs l n Let_def set_sys_def)
  ultimately show "\<exists>d os'. ref_opendir uc op (slash # name) os = Some (Inr d, os') \<and> ref_ok serves os' \<and> vf_dirs (ro_vfs os) d = None \<and>
      vf_dirs (ro_vfs os') = (vf_dirs (ro_vfs os))(d \<mapsto> (f, n, 0)) \<and> vf_fds (ro_vfs os') = vf_fds (ro_vfs os)"
    using ref_okD(5) [OF ok, of ?d] by simp
qed

end

text \<open>A change of positions only.\<close>

lemma ref_ok_positions:
  assumes ok: "ref_ok serves os" and os': "vf_sys (ro_vfs os') = vf_sys (ro_vfs os)" "vf_root (ro_vfs os') = vf_root (ro_vfs os)" "ro_next os' = ro_next os"
    and fds: "\<And>d. map_option (\<lambda>(f, n, off). (f, n)) (vf_fds (ro_vfs os') d) = map_option (\<lambda>(f, n, off). (f, n)) (vf_fds (ro_vfs os) d)"
    and off: "\<And>d f n off. vf_fds (ro_vfs os') d = Some (f, n, off) \<Longrightarrow> 0 \<le> off"
    and dirs: "\<And>d. map_option (\<lambda>(f, n, c). (f, n)) (vf_dirs (ro_vfs os') d) = map_option (\<lambda>(f, n, c). (f, n)) (vf_dirs (ro_vfs os) d)"
  shows "ref_ok serves os'"
proof -
  note v = vfs_okD [OF ref_okD(1) [OF ok]]
  have F: "\<exists>o'. vf_fds (ro_vfs os) d = Some (f, n, o')" if "vf_fds (ro_vfs os') d = Some (f, n, o1)" for d f n o1
    using fds [of d] that by (auto simp: map_option_case split: option.splits)
  have D: "\<exists>c'. vf_dirs (ro_vfs os) d = Some (f, n, c')" if "vf_dirs (ro_vfs os') d = Some (f, n, c)" for d f n c
    using dirs [of d] that by (auto simp: map_option_case split: option.splits)
  have h: "handles (ro_vfs os) x = Some g" if "handles (ro_vfs os') x = Some g" for x g
    using that F D by (fastforce simp: handles_def split: sum.splits)
  have "nodes (vf_sys (ro_vfs os)) f = Some n \<and> 0 \<le> o1" if "vf_fds (ro_vfs os') d = Some (f, n, o1)" for d f n o1
    using F [OF that] v(3) off [OF that] by blast
  moreover have "nodes (vf_sys (ro_vfs os)) f = Some n" if "vf_dirs (ro_vfs os') d = Some (f, n, c)" for d f n c
    using D [OF that] v(4) by blast
  moreover have "vf_fds (ro_vfs os') d = None \<and> vf_dirs (ro_vfs os') d = None" if "ro_next os \<le> d" for d
    using ref_okD(4,5) [OF ok that] fds [of d] dirs [of d] by simp
  moreover have "x = y" if "handles (ro_vfs os') x = Some f" "handles (ro_vfs os') y = Some f" "f \<noteq> vf_root (ro_vfs os)" for x y f
    using that h ref_okD(3) [OF ok] by blast
  ultimately show ?thesis using v(1,2) ref_okD(2) [OF ok] unfolding ref_ok_def vfs_ok_def os' by blast
qed

lemma set_pos_ok:
  assumes "ref_ok serves os" and "vf_fds (ro_vfs os) d = Some (f, n, off)" and "0 \<le> pos"
  shows "ref_ok serves (set_pos d pos os)" "vf_fds (ro_vfs (set_pos d pos os)) = (vf_fds (ro_vfs os))(d \<mapsto> (f, n, pos))"
    "vf_dirs (ro_vfs (set_pos d pos os)) = vf_dirs (ro_vfs os)"
proof -
  have s: "set_pos d pos os = os\<lparr>ro_vfs := (ro_vfs os)\<lparr>vf_fds := (vf_fds (ro_vfs os))(d \<mapsto> (f, n, pos))\<rparr>\<rparr>"
    using assms(2) by (simp add: set_pos_def Let_def)
  show "vf_fds (ro_vfs (set_pos d pos os)) = (vf_fds (ro_vfs os))(d \<mapsto> (f, n, pos))"
    "vf_dirs (ro_vfs (set_pos d pos os)) = vf_dirs (ro_vfs os)" by (simp_all add: s)
  show "ref_ok serves (set_pos d pos os)"
    by (rule ref_ok_positions [OF assms(1)])
      (use assms(2,3) vfs_okD(3) [OF ref_okD(1) [OF assms(1)]] in \<open>auto simp: s split: if_splits\<close>)
qed

context tree_ops
begin

lemma ref_getstat_open:
  assumes "ref_ok serves os" and "vf_fds (ro_vfs os) d = Some (f, n, off)"
    and g: "fusefs_getstat uc op f (vf_sys (ro_vfs os)) = Some (0, Some x, s1)"
  shows "ref_getstat uc op f os = Some (Inr x, set_sys os s1)" "ref_ok serves (set_sys os s1)"
proof -
  note v = vfs_okD [OF ref_okD(1) [OF assms(1)]]
  show "ref_getstat uc op f os = Some (Inr x, set_sys os s1)" by (simp add: ref_getstat_def g)
  have "nodes (vf_sys (ro_vfs os)) f \<noteq> None" using v(3) [OF assms(2)] by simp
  from stat_call [OF v(1) this g] show "ref_ok serves (set_sys os s1)" by (intro ref_ok_sys [OF assms(1)]) simp_all
qed

lemma ref_lseek_ok:
  assumes "ref_ok serves os" and "vf_fds (ro_vfs os) d = Some (f, n, off)"
  shows "0 \<le> pos \<Longrightarrow> pos < 2 ^ 63 \<Longrightarrow> \<exists>os'. ref_lseek uc op d pos SEEK_SET os = Some (Inr pos, os') \<and> ref_ok serves os' \<and>
      vf_fds (ro_vfs os') = (vf_fds (ro_vfs os))(d \<mapsto> (f, n, pos)) \<and> vf_dirs (ro_vfs os') = vf_dirs (ro_vfs os)"
    and "0 \<le> off + k \<Longrightarrow> off + k < 2 ^ 63 \<Longrightarrow> \<exists>os'. ref_lseek uc op d k SEEK_CUR os = Some (Inr (off + k), os') \<and> ref_ok serves os' \<and>
      vf_fds (ro_vfs os') = (vf_fds (ro_vfs os))(d \<mapsto> (f, n, off + k)) \<and> vf_dirs (ro_vfs os') = vf_dirs (ro_vfs os)"
    and "fusefs_getstat uc op f (vf_sys (ro_vfs os)) = Some (0, Some x, s1) \<Longrightarrow> 0 \<le> sint (stx_size x) + k \<Longrightarrow>
      sint (stx_size x) + k < 2 ^ 63 \<Longrightarrow> \<exists>os'. ref_lseek uc op d k SEEK_END os = Some (Inr (sint (stx_size x) + k), os') \<and> ref_ok serves os' \<and>
      vf_fds (ro_vfs os') = (vf_fds (ro_vfs os))(d \<mapsto> (f, n, sint (stx_size x) + k)) \<and> vf_dirs (ro_vfs os') = vf_dirs (ro_vfs os)"
  using assms set_pos_ok [OF assms] ref_getstat_open [OF assms, of uc x s1] set_pos_ok [of serves "set_sys os s1" d f n off "sint (stx_size x) + k"]
  by (simp_all add: ref_lseek_def)

lemma ref_pread_ok:
  assumes "ref_ok serves os" and "vf_fds (ro_vfs os) d = Some (f, n, off)"
    and "fusefs_read op f [of_nat len] (of_int pos) (vf_sys (ro_vfs os)) = Some (int (length bs), parts, s1)" and "concat parts = bs"
    and "keeps_serving serves (vf_sys (ro_vfs os)) s1"
  shows "ref_pread op d len pos os = Some (Inr bs, set_sys os s1)" "ref_ok serves (set_sys os s1)"
  using assms(2-4) ref_ok_keeps [OF assms(1,5)] by (simp_all add: ref_pread_def)

lemma ref_read_ok:
  assumes "ref_ok serves os" and "vf_fds (ro_vfs os) d = Some (f, n, off)"
    and "fusefs_read op f [of_nat len] (of_int off) (vf_sys (ro_vfs os)) = Some (int (length bs), parts, s1)" and "concat parts = bs"
    and "keeps_serving serves (vf_sys (ro_vfs os)) s1"
  shows "\<exists>os'. ref_read op d len os = Some (Inr bs, os') \<and> ref_ok serves os' \<and>
    vf_fds (ro_vfs os') = (vf_fds (ro_vfs os))(d \<mapsto> (f, n, off + int (length bs))) \<and> vf_dirs (ro_vfs os') = vf_dirs (ro_vfs os)"
proof -
  note r = ref_pread_ok [OF assms]
  have "0 \<le> off" using vfs_okD(3) [OF ref_okD(1) [OF assms(1)] assms(2)] by simp
  then show ?thesis using r set_pos_ok [OF r(2), of d f n off "off + int (length bs)"] assms(2) by (simp add: ref_read_def)
qed

lemma ref_readdir_ok:
  assumes ok: "ref_ok serves os" and d: "vf_dirs (ro_vfs os) d = Some (f, n, c)"
    and l: "fusefs_listdir uc op f c dirbuf (vf_sys (ro_vfs os)) = Some (r, e, c', s1)"
    and s1: "keeps_serving serves (vf_sys (ro_vfs os)) s1"
  shows "\<exists>os'. ref_readdir uc dirbuf op d os = Some (e, os') \<and> ref_ok serves os' \<and> vf_fds (ro_vfs os') = vf_fds (ro_vfs os) \<and>
    vf_dirs (ro_vfs os') = (if e = None then vf_dirs (ro_vfs os) else (vf_dirs (ro_vfs os))(d \<mapsto> (f, n, c')))"
proof -
  note ok1 = ref_ok_keeps [OF ok s1]
  let ?o = "(set_sys os s1)\<lparr>ro_vfs := (ro_vfs (set_sys os s1))\<lparr>vf_dirs := (vf_dirs (ro_vfs os))(d \<mapsto> (f, n, c'))\<rparr>\<rparr>"
  have "ref_ok serves ?o"
    by (rule ref_ok_positions [OF ok1]) (use d vfs_okD(3) [OF ref_okD(1) [OF ok1]] in auto)
  then show ?thesis using ok1 d l by (cases e) (auto simp: ref_readdir_def Let_def)
qed

end

context tree_ops
begin

lemma ref_close_ok:
  assumes "ref_ok serves os"
  shows "vf_fds (ro_vfs os) d \<noteq> None \<Longrightarrow> \<exists>os'. ref_close d os = Some (Inr (), os') \<and> ref_ok serves os' \<and>
      vf_fds (ro_vfs os') = (vf_fds (ro_vfs os))(d := None) \<and> vf_dirs (ro_vfs os') = vf_dirs (ro_vfs os)"
    and "vf_dirs (ro_vfs os) d \<noteq> None \<Longrightarrow> \<exists>os'. ref_closedir d os = Some (Inr (), os') \<and> ref_ok serves os' \<and>
      vf_dirs (ro_vfs os') = (vf_dirs (ro_vfs os))(d := None) \<and> vf_fds (ro_vfs os') = vf_fds (ro_vfs os)"
proof -
  let ?v = "ro_vfs os"
  let ?o1 = "os\<lparr>ro_vfs := ?v\<lparr>vf_fds := (vf_fds ?v)(d := None)\<rparr>\<rparr>" let ?o2 = "os\<lparr>ro_vfs := ?v\<lparr>vf_dirs := (vf_dirs ?v)(d := None)\<rparr>\<rparr>"
  show "\<exists>os'. ref_close d os = Some (Inr (), os') \<and> ref_ok serves os' \<and>
      vf_fds (ro_vfs os') = (vf_fds ?v)(d := None) \<and> vf_dirs (ro_vfs os') = vf_dirs ?v" if "vf_fds ?v d \<noteq> None"
  proof -
    from that obtain f n off where f: "vf_fds ?v d = Some (f, n, off)" by auto
    have "ref_ok serves (ref_release f ?o1)"
      by (rule ref_ok_close [OF assms, of "Inl d"]) (auto simp: handles_def f split: if_splits)
    then show ?thesis by (simp add: ref_close_def Let_def f ref_release_def)
  qed
  show "\<exists>os'. ref_closedir d os = Some (Inr (), os') \<and> ref_ok serves os' \<and>
      vf_dirs (ro_vfs os') = (vf_dirs ?v)(d := None) \<and> vf_fds (ro_vfs os') = vf_fds ?v" if "vf_dirs ?v d \<noteq> None"
  proof -
    from that obtain f n c where f: "vf_dirs ?v d = Some (f, n, c)" by auto
    have "ref_ok serves (ref_release f ?o2)"
      by (rule ref_ok_close [OF assms, of "Inr d"]) (auto simp: handles_def f split: if_splits)
    then show ?thesis by (simp add: ref_closedir_def Let_def f ref_release_def)
  qed
qed

lemma ref_ok_cycles [simp]: "ref_ok serves (os\<lparr>ro_cycles := c\<rparr>) = ref_ok serves os"
  by (simp add: ref_ok_def)

lemma ref_boots:
  assumes "ready w" and "\<not> ro_session os" "\<not> ro_thread os"
  shows "\<exists>os'. ref_mount w dev path ty (os\<lparr>ro_thread := True, ro_session := True\<rparr>) = Some (Inr (), os') \<and> ref_ok serves os'"
proof -
  obtain s where s: "fusefs_vopen True (True, True, True) (boot_sys w) = (Some (brk w), True, s)" "sys_ok serves s []"
    "sy_files s = [brk w \<mapsto> \<lparr>ff_nodeid = 1, ff_fh = FH_NONE, ff_upref = None\<rparr>]" "brk w < brk (sy_w s)"
    by (rule vopen_ok [OF assms(1)])
  let ?o = "os\<lparr>ro_thread := True, ro_session := True, ro_vfs := \<lparr>vf_sys = s, vf_root = brk w, vf_fds = Map.empty, vf_dirs = Map.empty\<rparr>\<rparr>"
  have "ref_ok serves ?o"
    using s(2,4) by (auto simp: ref_ok_def vfs_ok_def nodes_def s(3) handles_def split: if_splits sum.splits)
  then show ?thesis using s(1) by (simp add: ref_mount_def)
qed

lemma ref_posix_driver:
  assumes "ready w" and "\<And>n. n \<le> 255 \<Longrightarrow> 0 < UKFS_DIRENT_RECLEN uc n \<and> UKFS_DIRENT_RECLEN uc n \<le> dirbuf"
  shows "posix_driver (ref_posix w uc dirbuf op) ro_vfs (ref_ok serves) (\<lambda>os. \<not> ro_session os \<and> \<not> ro_thread os) w uc dirbuf op serves"
proof
  fix os :: "'u ref_os"
  assume os: "\<not> ro_session os \<and> \<not> ro_thread os"
  let ?P = "ref_posix w uc dirbuf op"
  obtain os' where "ref_mount w ''none'' ''/'' ''fuse'' (os\<lparr>ro_thread := True, ro_session := True\<rparr>) = Some (Inr (), os')" "ref_ok serves os'"
    using ref_boots [OF assms(1)] os by blast
  then show "\<exists>v1 k v'. px_thread_create ?P os = (True, v1) \<and> (\<forall>j < k. \<not> px_registered ?P ((px_yield ?P ^^ j) v1)) \<and>
      px_registered ?P ((px_yield ?P ^^ k) v1) \<and> px_mount ?P ''none'' ''/'' ''fuse'' ((px_yield ?P ^^ k) v1) = Some (Inr (), v') \<and> ref_ok serves v'"
    using os by (intro exI [of _ "os\<lparr>ro_thread := True\<rparr>"] exI [of _ "Suc 0"] exI [of _ os']) (simp add: ref_posix_def)
next
  fix os :: "'u ref_os" and name f s1 x s2 mode
  assume a: "ref_ok serves os" "plain_name name"
    "fusefs_lookup uc op (vf_root (ro_vfs os)) name (vf_sys (ro_vfs os)) = Some (UKFS_STOP_FILE uc, Some (f, length name), s1)"
    "fusefs_getstat uc op f s1 = Some (0, Some x, s2)"
  show "\<exists>a v'. px_stat (ref_posix w uc dirbuf op) (slash # name) os = Some (Inr a, v') \<and> stat_shows a x \<and> ref_ok serves v' \<and> same_files (ro_vfs os) (ro_vfs v')"
    "\<exists>v'. px_access (ref_posix w uc dirbuf op) (slash # name) mode os = Some (Inr (), v') \<and> ref_ok serves v' \<and> same_files (ro_vfs os) (ro_vfs v')"
    using ref_attr_found [OF a] by (auto simp: ref_posix_def ref_stat_def ref_access_def stat_shows_def to_stat_def)
next
  fix os :: "'u ref_os" and name e s1 mode
  assume a: "ref_ok serves os" "plain_name name"
    "fusefs_lookup uc op (vf_root (ro_vfs os)) name (vf_sys (ro_vfs os)) = Some (- e, None, s1)"
  show "\<exists>v'. px_stat (ref_posix w uc dirbuf op) (slash # name) os = Some (Inl e, v') \<and> ref_ok serves v' \<and> same_files (ro_vfs os) (ro_vfs v')"
    "\<exists>v'. px_access (ref_posix w uc dirbuf op) (slash # name) mode os = Some (Inl e, v') \<and> ref_ok serves v' \<and> same_files (ro_vfs os) (ro_vfs v')"
    "\<exists>v'. px_open (ref_posix w uc dirbuf op) (slash # name) os = Some (Inl e, v') \<and> ref_ok serves v' \<and> same_files (ro_vfs os) (ro_vfs v')"
    using ref_attr_missing [OF a] ref_open_missing [OF a] by (auto simp: ref_posix_def ref_stat_def ref_access_def)
next
  fix os :: "'u ref_os" and d f n off x s1
  assume a: "ref_ok serves os" "vf_fds (ro_vfs os) d = Some (f, n, off)" "fusefs_getstat uc op f (vf_sys (ro_vfs os)) = Some (0, Some x, s1)"
  show "\<exists>a v'. px_fstat (ref_posix w uc dirbuf op) d os = Some (Inr a, v') \<and> stat_shows a x \<and> ref_ok serves v' \<and> same_files (ro_vfs os) (ro_vfs v')"
    using ref_getstat_open [OF a] a(2) by (simp add: ref_posix_def ref_fstat_def stat_shows_def to_stat_def same_files_def)
next
  fix os :: "'u ref_os" and d f n c r e s1
  assume a: "ref_ok serves os" "vf_dirs (ro_vfs os) d = Some (f, n, c)"
    "fusefs_listdir uc op f c dirbuf (vf_sys (ro_vfs os)) = Some (0, None, c, s1)" "keeps_serving serves (vf_sys (ro_vfs os)) s1"
  show "\<exists>v'. px_readdir (ref_posix w uc dirbuf op) d os = Some (None, v') \<and> ref_ok serves v' \<and> same_files (ro_vfs os) (ro_vfs v')"
    using ref_readdir_ok [OF a] by (auto simp: ref_posix_def same_files_def)
next
  fix os :: "'u ref_os" and d f n off len pos bs parts s1
  assume a: "ref_ok serves os" "vf_fds (ro_vfs os) d = Some (f, n, off)"
    "fusefs_read op f [of_nat len] (of_int pos) (vf_sys (ro_vfs os)) = Some (int (length bs), parts, s1)" "concat parts = bs"
    "keeps_serving serves (vf_sys (ro_vfs os)) s1"
  show "\<exists>v'. px_pread (ref_posix w uc dirbuf op) d len pos os = Some (Inr bs, v') \<and> ref_ok serves v' \<and> same_files (ro_vfs os) (ro_vfs v')"
    using ref_pread_ok [OF a] by (simp add: ref_posix_def same_files_def)
next
  fix os :: "'u ref_os" and d f n c r de c' s1
  assume a: "ref_ok serves os" "vf_dirs (ro_vfs os) d = Some (f, n, c)"
    "fusefs_listdir uc op f c dirbuf (vf_sys (ro_vfs os)) = Some (r, Some de, c', s1)" "keeps_serving serves (vf_sys (ro_vfs os)) s1"
  show "\<exists>v'. px_readdir (ref_posix w uc dirbuf op) d os = Some (Some de, v') \<and> ref_ok serves v' \<and>
      vf_dirs (ro_vfs v') = (vf_dirs (ro_vfs os))(d \<mapsto> (f, n, c')) \<and> vf_fds (ro_vfs v') = vf_fds (ro_vfs os)"
    using ref_readdir_ok [OF a] by (auto simp: ref_posix_def)
next
  fix os :: "'u ref_os"
  assume a: "ref_ok serves os"
  then show "ref_ok serves (snd (px_rdtsc (ref_posix w uc dirbuf op) os)) \<and> same_files (ro_vfs os) (ro_vfs (snd (px_rdtsc (ref_posix w uc dirbuf op) os)))"
    "ref_ok serves (snd (px_malloc (ref_posix w uc dirbuf op) sz os)) \<and> same_files (ro_vfs os) (ro_vfs (snd (px_malloc (ref_posix w uc dirbuf op) sz os)))" for sz
    by (simp_all add: ref_posix_def same_files_def)
qed ((simp only: ref_posix_def posix.simps)?, (rule assms(2) ref_okD(1) ref_open_found ref_close_ok ref_lseek_ok ref_read_ok, assumption+))+

end

end
