(* ===== verification/Test_Results.thy ===== *)
theory Test_Results
  imports Correctness_Suite Perf_Suite Posix_Reference
begin

text \<open>
  The outcome of the three test programs of \<^verbatim>\<open>apps/\<close> on every system that provides the POSIX interface over this driver as
  the locale \<open>posix_driver\<close> describes it, with the session that the program's own backend thread registers. The interpretations
  show that the file system of \<open>Posix_Reference\<close> is such a system for both file systems.
\<close>

section \<open>The session of the backend thread\<close>

lemma backend_session:
  assumes "backend_thread_fn env os p op fs sz n = Some (r, LiveSession w)"
  shows "fuse_session_new_versioned p fs True sz 0 = Some w"
  using assms
  by (auto simp: backend_thread_fn_def fuse_backend_main_def Let_def fuse_session_mount_def fuse_session_loop_def bind_eq_Some_conv
      split: if_splits option.splits prod.splits daemonized.splits)

lemma backend_ready:
  assumes "backend_thread_fn env os p op fs sz n = Some (r, LiveSession w)" and "\<forall>n. malloc_ok p n"
  shows "ready w"
  by (rule session_new_ready [OF backend_session [OF assms(1)] assms(2)])

lemma backend_demo:
  defines "env \<equiv> \<lparr>oe_alloc = \<lambda>_. True, oe_scanf = \<lambda>_ _. None\<rparr>" and "os \<equiv> \<lparr>do_pipe = None, do_setsid = 0, do_open_null = 3\<rparr>"
  shows "backend_thread_fn env os demo_platform op () 1 0 = Some (None, LiveSession demo_world)"
proof -
  have al: "\<And>n. oe_alloc env n" by (simp add: env_def)
  have mp: "mountpoints [''-f'', ''-s'', ''/''] = [''/'']" by (simp add: mountpoints_def helper_flags_def)
  then have "\<forall>a \<in> set (mountpoints [''-f'', ''-s'', ''/'']). at a 0 \<noteq> CHR ''-'' \<and> length a < PATH_MAX \<and> NUL \<notin> set a" by (simp add: at_def)
  from cmdline_flags [OF al this refl, of "''fuse''" 0] mp show ?thesis
    by (auto simp: backend_thread_fn_def fuse_backend_main_def fuse_set_signal_handlers_def fuse_session_mount_def fuse_daemonize_result
        fuse_session_loop_def demo_world_new [unfolded One_nat_def])
qed

section \<open>The reference system\<close>

lemma demo_names_fit: "nl \<le> 255 \<Longrightarrow> 0 < UKFS_DIRENT_RECLEN demo_consts nl \<and> UKFS_DIRENT_RECLEN demo_consts nl \<le> 4096"
proof -
  assume "nl \<le> 255"
  then have "unat (ucast nl :: u64) \<le> 255" by (simp add: word_le_nat_alt unsigned_ucast_eq take_bit_nat_eq_self)
  then show ?thesis by (simp add: demo_consts_def word_le_nat_alt word_less_nat_alt unat_word_ariths take_bit_nat_eq_self)
qed

interpretation hello_ref: hello_posix "ref_posix demo_world demo_consts 4096 hello_ll_oper" ro_vfs "ref_ok hello_serves"
  "\<lambda>os. \<not> ro_session os \<and> \<not> ro_thread os" demo_world demo_consts 4096
  unfolding hello_posix_def by (rule hello_tree.ref_posix_driver [OF demo_world_ready demo_names_fit])

interpretation perf_ref: perf_posix "ref_posix demo_world demo_consts 4096 perf_oper" ro_vfs "ref_ok perf_serves"
  "\<lambda>os. \<not> ro_session os \<and> \<not> ro_thread os" demo_world demo_consts 4096
  unfolding perf_posix_def by (rule perf_tree.ref_posix_driver [OF demo_world_ready demo_names_fit])

definition ref_start :: "unit ref_os" where
  "ref_start = \<lparr>ro_vfs = \<lparr>vf_sys = boot_sys demo_world, vf_root = 0, vf_fds = Map.empty, vf_dirs = Map.empty\<rparr>, ro_next = 3,
     ro_thread = False, ro_session = False, ro_cycles = 0\<rparr>"

lemma ref_start_simps [simp]: "\<not> ro_session ref_start" "\<not> ro_thread ref_start"
  by (simp_all add: ref_start_def)

section \<open>Properties\<close>

text \<open>\<^bold>\<open>C5\<close> The correctness test suite passes: with the session that its backend thread registers, the program returns 0, all
  24 tests have passed, none has failed, and the last line says so.\<close>

theorem correctness_suite_passes:
  assumes "posix_driver P view valid starting w uc dirbuf hello_ll_oper hello_serves"
    and "backend_thread_fn env os p hello_ll_oper fs sz n = Some (None, LiveSession w)" and "\<forall>n. malloc_ok p n"
    and "starting (pg_os s)" and "test_passed s = 0" and "test_failed s = 0"
  shows "\<exists>s' out. correctness_main P s = Some (Returns 0, s') \<and> test_passed s' = 24 \<and> test_failed s' = 0 \<and>
    pg_out s' = out @ [(''CORRECTNESS TEST SUITE: ALL PASSED\<newline>'', [])]"
  using hello_posix.suite_passes [OF hello_posix.intro [OF assms(1)] assms(4) backend_ready [OF assms(2,3)] assms(5,6)]
  by (auto simp: runs_def)

theorem correctness_suite_passes_witness:
  "\<exists>s' out. correctness_main (ref_posix demo_world demo_consts 4096 hello_ll_oper)
       \<lparr>pg_os = ref_start, pg_errno = 0, pg_out = [], test_passed = 0, test_failed = 0\<rparr> = Some (Returns 0, s') \<and>
     test_passed s' = 24 \<and> test_failed s' = 0 \<and> pg_out s' = out @ [(''CORRECTNESS TEST SUITE: ALL PASSED\<newline>'', [])]"
  by (rule correctness_suite_passes [OF hello_ref.posix_driver_axioms backend_demo]) (simp_all add: demo_platform_def)

text \<open>\<^bold>\<open>C19\<close> The functional test passes: none of its assertions fails, it returns 0, and the last line says so.\<close>

theorem functional_test_passes:
  assumes "posix_driver P view valid starting w uc dirbuf hello_ll_oper hello_serves"
    and "backend_thread_fn env os p hello_ll_oper fs sz n = Some (None, LiveSession w)" and "\<forall>n. malloc_ok p n"
    and "starting (pg_os s)"
  shows "\<exists>s' out. fuse_test_main P s = Some (Returns 0, s') \<and> pg_out s' = out @ [(''\<newline>All Tests and Benchmarks Passed!\<newline>'', [])]"
  using hello_posix.fuse_test_passes [OF hello_posix.intro [OF assms(1)] assms(4) backend_ready [OF assms(2,3)]]
  by (auto simp: runs_def)

theorem functional_test_passes_witness:
  "\<exists>s' out. fuse_test_main (ref_posix demo_world demo_consts 4096 hello_ll_oper) \<lparr>pg_os = ref_start, pg_errno = 0, pg_out = []\<rparr> =
       Some (Returns 0, s') \<and> pg_out s' = out @ [(''\<newline>All Tests and Benchmarks Passed!\<newline>'', [])]"
  by (rule functional_test_passes [OF hello_ref.posix_driver_axioms backend_demo]) (simp_all add: demo_platform_def)

text \<open>\<^bold>\<open>C18\<close> The performance test ends: every benchmark, with its loops over the driver, returns, and the program returns 0 after
  its last line, whatever the counter shows and whether or not its memory requests succeed.\<close>

theorem perf_test_ends:
  assumes "posix_driver P view valid starting w uc dirbuf perf_oper perf_serves"
    and "backend_thread_fn env os p perf_oper fs sz n = Some (None, LiveSession w)" and "\<forall>n. malloc_ok p n"
    and "starting (pg_os s)" and "length (samples s) = NUM_ITERATIONS"
  shows "\<exists>s' out. perf_main P s = Some (Returns 0, s') \<and> pg_out s' = out @ [(''\<newline>[+] Benchmarks completed.\<newline>'', [])]"
  using perf_posix.perf_main_ends [OF perf_posix.intro [OF assms(1)] assms(4) backend_ready [OF assms(2,3)] assms(5)]
  by (auto simp: runs_def)

theorem perf_test_ends_witness:
  "\<exists>s' out. perf_main (ref_posix demo_world demo_consts 4096 perf_oper)
       \<lparr>pg_os = ref_start, pg_errno = 0, pg_out = [], samples = replicate NUM_ITERATIONS 0\<rparr> = Some (Returns 0, s') \<and>
     pg_out s' = out @ [(''\<newline>[+] Benchmarks completed.\<newline>'', [])]"
  by (rule perf_test_ends [OF perf_ref.posix_driver_axioms backend_demo]) (simp_all add: demo_platform_def)

text \<open>\<^bold>\<open>C20\<close> When the program's allocation of the block succeeds, the throughput benchmark with blocks of any size from 1 byte to 50 MiB reads whole blocks until 50 MiB are reached and reports
  their number in MiB; for the three sizes of the program that is exactly 50.\<close>

theorem throughput_total:
  assumes "posix_driver P view valid starting w uc dirbuf perf_oper perf_serves"
    and "valid (pg_os s)" and "length (samples s) = NUM_ITERATIONS" and "0 < bs" and "bs \<le> 52428800" and "\<forall>v. fst (px_malloc P bs v)"
  shows "\<exists>s' mb c d e. bench_throughput P bs s = Some s' \<and> valid (pg_os s') \<and>
    mb = bs * ((52428800 + bs - 1) div bs) div 1048576 \<and> (bs \<in> {4 * 1024, 64 * 1024, 1024 * 1024} \<longrightarrow> mb = 50) \<and> pg_out s' = pg_out s @
     [(''\<newline>=====================================================\<newline>'', []), (''  Workload: Throughput - %zu KB blocks\<newline>'', [PInt (int (bs div 1024))]),
      (''=====================================================\<newline>'', []),
      (''  Total read:   %u MB\<newline>'', [PInt (int mb)]),
      (''  Total cycles: %llu\<newline>'', [PInt c]), (''  Cycles/byte:  %llu  (TSC-freq independent)\<newline>'', [PInt d]),
      (''  Throughput:   ~%llu MB/s  (assumes 3 GHz TSC)\<newline>'', [PInt e]), (''-----------------------------------------------------\<newline>'', [])]"
  using perf_posix.throughput_bench [OF perf_posix.intro [OF assms(1)], of s bs] assms(2-6)
  by (auto simp: runs_def perf_posix.measuring_def [OF perf_posix.intro [OF assms(1)]] perf_posix.reports_def [OF perf_posix.intro [OF assms(1)]])

theorem throughput_total_witness:
  "\<exists>os s' c d e. bench_throughput (ref_posix demo_world demo_consts 4096 perf_oper) (64 * 1024)
      \<lparr>pg_os = os, pg_errno = 0, pg_out = [], samples = replicate NUM_ITERATIONS 0\<rparr> = Some s' \<and> ref_ok perf_serves (pg_os s') \<and> pg_out s' =
     [(''\<newline>=====================================================\<newline>'', []), (''  Workload: Throughput - %zu KB blocks\<newline>'', [PInt 64]),
      (''=====================================================\<newline>'', []), (''  Total read:   %u MB\<newline>'', [PInt 50]),
      (''  Total cycles: %llu\<newline>'', [PInt c]), (''  Cycles/byte:  %llu  (TSC-freq independent)\<newline>'', [PInt d]),
      (''  Throughput:   ~%llu MB/s  (assumes 3 GHz TSC)\<newline>'', [PInt e]), (''-----------------------------------------------------\<newline>'', [])]"
proof -
  obtain os :: "unit ref_os" where os: "ref_ok perf_serves os"
    using perf_tree.ref_boots [OF demo_world_ready ref_start_simps] by blast
  let ?s = "\<lparr>pg_os = os, pg_errno = 0, pg_out = [], samples = replicate NUM_ITERATIONS 0\<rparr>"
  have "\<forall>v. fst (px_malloc (ref_posix demo_world demo_consts 4096 perf_oper) (64 * 1024) v)" by (simp add: ref_posix_def)
  with throughput_total [OF perf_ref.posix_driver_axioms, of ?s "64 * 1024"] os show ?thesis
    by (simp del: One_nat_def) blast
qed

end
