(* ===== verification/Hello_Linux.thy ===== *)
theory Hello_Linux
  imports Hello_Perf
begin

text \<open>
  The file system that the performance of a Linux host is measured with, \<^verbatim>\<open>apps/fuse-perf-test/linux_hello_ll.c\<close>: written
  again for that purpose, with the same names and files as \<open>Hello_Perf\<close>. Differences: nothing may be cached (time-outs of 0, direct I/O),
  an open does not look at its flags and refuses inodes that do not exist, and the offsets of a directory are the indexes of its entries
  instead of positions in a byte stream. The interpretations \<open>linux\<close> and \<open>linux_files\<close> show that it meets the contracts of the daemon and of
  the driver's reading when it is linked with the library of this repository; the comparison says what both file systems answer.
\<close>

section \<open>Operations\<close>

definition linux_getattr :: "addr \<Rightarrow> u64 \<Rightarrow> fuse_file_info option \<Rightarrow> 'u action" where
  "linux_getattr req ino fi w =
     (let stbuf = zero_stat\<lparr>st_ino := ino\<rparr>;
          reply = (\<lambda>stbuf. snd (fuse_reply_attr req stbuf 0 w))
      in if ino = 1 then reply (stbuf\<lparr>st_mode := S_IFDIR OR 0x1ED, st_nlink := 2\<rparr>)
         else if ino = 2 then reply (stbuf\<lparr>st_mode := S_IFREG OR 0x124, st_nlink := 1, st_size := of_nat (length hello_str)\<rparr>)
         else if ino = 3 then reply (stbuf\<lparr>st_mode := S_IFREG OR 0x124, st_nlink := 1, st_size := of_nat BIGFILE_SIZE\<rparr>)
         else reply_err req ENOENT w)"

definition linux_lookup :: "addr \<Rightarrow> u64 \<Rightarrow> byte list \<Rightarrow> 'u action" where
  "linux_lookup req parent name w =
     (let found = (\<lambda>ino sz w.
            let e = zero_entry_param\<lparr>ep_ino := ino\<rparr>;
                e = e\<lparr>ep_attr := (ep_attr e)\<lparr>st_ino := ino, st_mode := S_IFREG OR 0x124, st_nlink := 1, st_size := of_nat sz\<rparr>\<rparr>;
                e = e\<lparr>ep_attr_timeout := 0, ep_entry_timeout := 0\<rparr>
            in snd (fuse_reply_entry req e w))
      in if parent \<noteq> 1 then reply_err req ENOENT w
         else rd (strcmp_eq name (hello_name @ [0])) (\<lambda>same w.
           if same then found 2 (length hello_str) w
           else rd (strcmp_eq name (bigfile_name @ [0])) (\<lambda>same w.
             if same then found 3 BIGFILE_SIZE w else reply_err req ENOENT w) w) w)"

text \<open>The small file has no lower bound for its offset; the large one needs none, its content is made up.\<close>

definition linux_read :: "addr \<Rightarrow> u64 \<Rightarrow> u64 \<Rightarrow> u64 \<Rightarrow> fuse_file_info \<Rightarrow> 'u action" where
  "linux_read req ino sz off fi w =
     (if ino = 2 then
        (let len = of_nat (length hello_str)
         in if len \<le>s off then snd (fuse_reply_buf req None 0 w)
            else
              (let to_read = len - off;
                   to_read = (if to_read > sz then sz else to_read)
               in if off <s 0 then raise_fault OutOfBounds w
                  else snd (fuse_reply_buf req (Some (drop (unat off) (hello_str @ [0]))) (unat to_read) w)))
      else if ino = 3 then
        (if of_nat BIGFILE_SIZE \<le>s off then snd (fuse_reply_buf req None 0 w)
         else
           (let to_read = of_nat BIGFILE_SIZE - off;
                to_read = (if to_read > sz then sz else to_read);
                (ok, w) = try_malloc w
            in if \<not> ok then reply_err req ENOMEM w
               else snd (fuse_reply_buf req (Some (replicate (unat to_read) 65)) (unat to_read) w)))
      else reply_err req EISDIR w)"

definition linux_entries :: "(byte list \<times> u64 \<times> u32) list" where
  "linux_entries = [(bytes_of ''.'', 1, S_IFDIR), (bytes_of ''..'', 1, S_IFDIR), (hello_name, 2, S_IFREG), (bigfile_name, 3, S_IFREG)]"

text \<open>The loop over the entries, into the local array \<open>buf\<close>. An index before the first entry is outside the array of entries.\<close>

function linux_dir_loop :: "u64 \<Rightarrow> int \<Rightarrow> u64 \<Rightarrow> byte list \<Rightarrow> (u64 \<times> byte list) option" where
  "linux_dir_loop sz i pos buf =
     (if i < int (length linux_entries) then
        (if i < 0 then None
         else
           (let (name, ino, mode) = linux_entries ! nat i;
                stbuf = zero_stat\<lparr>st_ino := ino, st_mode := mode\<rparr>
            in case fuse_add_direntry (Some (drop (unat pos) buf)) (4096 - pos) (name @ [0]) (Some stbuf) (of_int (i + 1)) of
                 Some (entsize, Some m) \<Rightarrow>
                   (let buf = take (unat pos) buf @ m
                    in if pos + entsize > sz then Some (pos, buf)
                       else linux_dir_loop sz (i + 1) (pos + entsize) buf)
               | _ \<Rightarrow> None))
      else Some (pos, buf))"
  by pat_completeness auto
termination by (relation "measure (\<lambda>(sz, i, pos, buf). nat (int (length linux_entries) - i))") auto

declare linux_dir_loop.simps [simp del]

definition linux_readdir :: "addr \<Rightarrow> u64 \<Rightarrow> u64 \<Rightarrow> u64 \<Rightarrow> fuse_file_info \<Rightarrow> 'u action" where
  "linux_readdir req ino sz off fi w =
     (if ino \<noteq> 1 then reply_err req ENOTDIR w
      else
        (case linux_dir_loop sz (sint (ucast off :: u32)) 0 (map (uninit (plat w)) [0..<4096]) of
           None \<Rightarrow> raise_fault OutOfBounds w
         | Some (pos, buf) \<Rightarrow> snd (fuse_reply_buf req (Some buf) (unat pos) w)))"

definition linux_open :: "addr \<Rightarrow> u64 \<Rightarrow> fuse_file_info \<Rightarrow> 'u action" where
  "linux_open req ino fi w =
     (if ino \<noteq> 2 \<and> ino \<noteq> 3 then reply_err req EISDIR w
      else snd (fuse_reply_open req (fi\<lparr>fi_direct_io := True\<rparr>) w))"

definition linux_oper :: "'u fuse_lowlevel_ops" where
  "linux_oper = no_ops\<lparr>op_lookup := Some linux_lookup, op_getattr := Some linux_getattr, op_open := Some linux_open,
     op_read := Some linux_read, op_readdir := Some linux_readdir\<rparr>"

section \<open>The main function\<close>

text \<open>The calls of \<^verbatim>\<open>main\<close> on the installed library, whose results are parameters: what each acquires, releases or does. Parsing leaves a copy of the
  mount point, and the argument vector may hold memory of its own.\<close>

datatype resource = Args | Mountpoint | Session | Handlers | MountedAt

datatype ll_call = Acquires resource | Releases resource | Daemonizes | Loops | Prints

record ll_results =
  lr_parse :: int
  lr_help :: bool
  lr_version :: bool
  lr_mountpoint :: bool
  lr_session :: bool
  lr_handlers :: int
  lr_mount :: int
  lr_loop :: int

definition linux_main :: "ll_results \<Rightarrow> int \<times> ll_call list" where
  "linux_main r =
     (let err_out1 = (\<lambda>ret cs. (if ret \<noteq> 0 then 1 else 0, cs @ [Releases Mountpoint, Releases Args]));
          err_out2 = (\<lambda>ret cs. err_out1 ret (cs @ [Releases Session]));
          err_out3 = (\<lambda>ret cs. err_out2 ret (cs @ [Releases Handlers]));
          cs = [Acquires Args]
      in if lr_parse r \<noteq> 0 then (1, cs)
         else
           (let cs = cs @ [Acquires Mountpoint]
            in if lr_help r then err_out1 0 (cs @ [Prints])
               else if lr_version r then err_out1 0 (cs @ [Prints])
               else if \<not> lr_mountpoint r then err_out1 1 (cs @ [Prints])
               else if \<not> lr_session r then err_out1 (- 1) cs
               else
                 (let cs = cs @ [Acquires Session]
                  in if lr_handlers r \<noteq> 0 then err_out2 (- 1) cs
                     else
                       (let cs = cs @ [Acquires Handlers]
                        in if lr_mount r \<noteq> 0 then err_out3 (- 1) cs
                           else err_out3 (lr_loop r) (cs @ [Acquires MountedAt, Daemonizes, Loops, Releases MountedAt])))))"

text \<open>Resources are released in the reverse order of their acquisition; \<open>None\<close> is a release that does not fit.\<close>

fun held :: "resource list \<Rightarrow> ll_call list \<Rightarrow> resource list option" where
  "held rs [] = Some rs"
| "held rs (Acquires r # cs) = held (r # rs) cs"
| "held rs (Releases r # cs) = (case rs of [] \<Rightarrow> None | r' # rs' \<Rightarrow> if r' = r then held rs' cs else None)"
| "held rs (_ # cs) = held rs cs"

lemma linux_main_releases:
  "held [] (snd (linux_main r)) = Some (if lr_parse r \<noteq> 0 then [Args] else [])"
  "fst (linux_main r) = 0 \<longleftrightarrow> lr_parse r = 0 \<and> (lr_help r \<or> lr_version r \<or>
     lr_mountpoint r \<and> lr_session r \<and> lr_handlers r = 0 \<and> lr_mount r = 0 \<and> lr_loop r = 0)"
  by (simp_all add: linux_main_def Let_def)

section \<open>The content of the file system\<close>

text \<open>An entry of the directory carries the index of the next one.\<close>

definition linux_dirent :: "nat \<Rightarrow> byte list" where
  "linux_dirent i =
     (let (name, ino, mode) = linux_entries ! i
      in enc_fuse_dirent ino (of_nat (i + 1)) (of_nat (length name)) (drop_bit 12 (mode AND S_IFMT)) @ name @
         replicate (dirent_size (length name) - (FUSE_NAME_OFFSET + length name)) 0)"

text \<open>Whole entries, as many as fit.\<close>

fun take_entries :: "nat \<Rightarrow> byte list list \<Rightarrow> byte list list" where
  "take_entries sz [] = []"
| "take_entries sz (e # es) = (if length e \<le> sz then e # take_entries (sz - length e) es else [])"

definition linux_dir :: "nat \<Rightarrow> nat \<Rightarrow> byte list" where
  "linux_dir i sz = concat (take_entries sz (map linux_dirent [i..<4]))"

definition linux_index :: "u64 \<Rightarrow> int" where
  "linux_index off = sint (ucast off :: u32)"

definition no_caching :: "fuse_entry_param \<Rightarrow> fuse_entry_param" where
  "no_caching e = e\<lparr>ep_attr_timeout := 0, ep_entry_timeout := 0\<rparr>"

fun linux_answer :: "'u answer_fun" where
  "linux_answer (In_lookup parent name) pl m =
     (if parent = 1 \<and> name = hello_name then (0, REntry (no_caching (perf_entry 2)), sizeof_entry_param pl, m)
      else if parent = 1 \<and> name = bigfile_name then (0, REntry (no_caching (perf_entry 3)), sizeof_entry_param pl, m)
      else (- ENOENT, RNull, 0, m))"
| "linux_answer (In_getattr ino) pl m =
     (if ino \<in> {1, 2, 3} then (0, RStat (snd (perf_stat ino zero_stat)), sizeof_stat pl, m)
      else (- ENOENT, RNull, 0, m))"
| "linux_answer (In_open ino flags) pl m =
     (if ino \<notin> {2, 3} then (- EISDIR, RNull, 0, m)
      else (0, ROpen (zero_open_out\<lparr>oo_open_flags := FOPEN_DIRECT_IO\<rparr>), 16, m))"
| "linux_answer (In_read ino fh off sz) pl m =
     (case perf_content ino of
        None \<Rightarrow> (- EISDIR, RNull, 0, m)
      | Some bs \<Rightarrow> (0, RBytes (window bs off sz), length (window bs off sz), m))"
| "linux_answer (In_readdir ino fh off sz) pl m =
     (if ino \<noteq> 1 then (- ENOTDIR, RNull, 0, m)
      else (0, RBytes (linux_dir (nat (linux_index off)) (unat sz)), length (linux_dir (nat (linux_index off)) (unat sz)), m))"

fun linux_serves :: "ukfs_in \<Rightarrow> bool" where
  "linux_serves (In_read ino fh off sz) \<longleftrightarrow> 0 \<le>s off"
| "linux_serves (In_readdir ino fh off sz) \<longleftrightarrow> 0 \<le> linux_index off"
| "linux_serves _ \<longleftrightarrow> True"

section \<open>The contracts\<close>

lemma linux_oper_simps:
  "op_lookup linux_oper = Some linux_lookup" "op_getattr linux_oper = Some linux_getattr"
  "op_open linux_oper = Some linux_open" "op_read linux_oper = Some linux_read" "op_readdir linux_oper = Some linux_readdir"
  by (simp_all add: linux_oper_def)

lemma linux_lookup_completes:
  assumes "live_req w a p" "\<forall>n. malloc_ok (plat w) n" "0 \<notin> set name"
    and "linux_answer (In_lookup parent name) (plat w) (fsmem w) = (e, d, n, m)"
  shows "completes a p e d n w (linux_lookup a parent (name @ 0 # rest) w)"
proof -
  have cmp: "strcmp_eq (name @ 0 # rest) (hello_name @ [0]) = Some (name = hello_name)"
    "strcmp_eq (name @ 0 # rest) (bigfile_name @ [0]) = Some (name = bigfile_name)"
    by (rule strcmp_eq_strings; use assms in auto)+
  have "completes a p 0 (REntry (no_caching (perf_entry ino))) (sizeof_entry_param (plat w)) w
      (snd (fuse_reply_entry a (no_caching (perf_entry ino)) w))" if "ino \<noteq> 0" for ino
    using fuse_reply_entry_completes(2) [OF assms(1), of "no_caching (perf_entry ino)"] reply_result_ok [OF assms(2)] that
    by (simp add: perf_entry_def no_caching_def)
  note e = this [of 2] this [of 3]
  show ?thesis
    using assms(1,4) reply_err_completes [OF assms(1), of ENOENT] cmp e
    by (auto simp: linux_lookup_def Let_def zero_entry_param_def perf_entry_def no_caching_def perf_stat_def split: if_splits)
qed

lemma linux_getattr_completes:
  assumes "live_req w a p" "\<forall>n. malloc_ok (plat w) n"
    and "linux_answer (In_getattr ino) (plat w) (fsmem w) = (e, d, n, m)"
  shows "completes a p e d n w (linux_getattr a ino fi w)"
  using assms(3) fuse_reply_attr_completes(2) [OF assms(1)] reply_result_ok [OF assms(2)]
    reply_err_completes [OF assms(1), of ENOENT]
  by (auto simp: linux_getattr_def perf_stat_def Let_def split: if_splits)

lemma linux_open_completes:
  assumes "live_req w a p" "\<forall>n. malloc_ok (plat w) n"
    and "linux_answer (In_open ino flags) (plat w) (fsmem w) = (e, d, n, m)"
  shows "completes a p e d n w (linux_open a ino (zero_file_info\<lparr>fi_flags := flags\<rparr>) w)"
proof -
  have "fill_open zero_open_out (zero_file_info\<lparr>fi_flags := flags, fi_direct_io := True\<rparr>) = zero_open_out\<lparr>oo_open_flags := FOPEN_DIRECT_IO\<rparr>"
    by (simp add: fill_open_def zero_file_info_def or_flag_def zero_open_out_def)
  then show ?thesis
    using assms fuse_reply_open_completes(2) [OF assms(1), of "zero_file_info\<lparr>fi_flags := flags, fi_direct_io := True\<rparr>"]
      reply_result_ok [OF assms(2)] reply_err_completes [OF assms(1)]
    by (auto simp: linux_open_def zero_file_info_def split: if_splits)
qed

text \<open>Reads are those of \<open>Hello_Perf\<close>.\<close>

lemma linux_read_as_perf:
  assumes "0 \<le>s off"
  shows "linux_read req ino sz off fi w = perf_read req ino sz off fi w"
proof -
  have "\<not> off <s 0" using assms by (simp add: word_sle_eq word_sless_alt)
  moreover have "of_nat (length hello_str) \<le>s off \<longleftrightarrow> \<not> off <s of_nat (length hello_str)" by (auto simp: word_sle_eq word_sless_alt)
  ultimately show ?thesis
    by (auto simp: linux_read_def perf_read_def reply_buf_limited_def Let_def)
qed

lemma linux_read_completes:
  assumes l: "live_req w a p" "\<forall>n. malloc_ok (plat w) n" "0 \<le>s off"
    and a: "linux_answer (In_read ino fh off sz) (plat w) (fsmem w) = (e, d, n, m)"
  shows "completes a p e d n w (linux_read a ino (ucast sz) off fi w)"
  unfolding linux_read_as_perf [OF l(3)] using perf_read_completes [OF l, of ino fh sz e d n m fi] a by simp

text \<open>The loop puts whole entries behind each other.\<close>

lemma linux_entries_simps: "length linux_entries = 4"
  "i < 4 \<Longrightarrow> 0 \<notin> set (fst (linux_entries ! i)) \<and> length (fst (linux_entries ! i)) < 8 \<and> 0 < length (fst (linux_entries ! i))"
proof -
  have "0 \<notin> set (fst e) \<and> length (fst e) < 8 \<and> 0 < length (fst e)" if "e \<in> set linux_entries" for e
    using that by (auto simp: linux_entries_def bytes_of_def hello_name_def bigfile_name_def)
  moreover show "length linux_entries = 4" by (simp add: linux_entries_def)
  ultimately show "i < 4 \<Longrightarrow> 0 \<notin> set (fst (linux_entries ! i)) \<and> length (fst (linux_entries ! i)) < 8 \<and> 0 < length (fst (linux_entries ! i))"
    using nth_mem by metis
qed

lemma short_name_size: "0 < n \<Longrightarrow> n < 8 \<Longrightarrow> dirent_size n = 32"
proof -
  assume "0 < n" "n < 8"
  then have "(31 + n) div 8 = 4" by presburger
  then show "dirent_size n = 32" by (simp add: dirent_size_def)
qed

lemma length_linux_dirent: "i < 4 \<Longrightarrow> length (linux_dirent i) = 32"
  using linux_entries_simps(2) [of i] short_name_size by (auto simp: linux_dirent_def split: prod.splits)

lemma linux_entry_added:
  assumes "i < 4" and "pos \<le> 4000" and "length buf = 4096" and "linux_entries ! i = (name, ino, mode)"
  shows "fuse_add_direntry (Some (drop pos buf)) (4096 - of_nat pos) (name @ [0]) (Some (zero_stat\<lparr>st_ino := ino, st_mode := mode\<rparr>)) (of_int (int i + 1)) =
    Some (32, Some (linux_dirent i @ drop (pos + 32) buf))"
proof -
  have n: "0 \<notin> set name" "length name < 8" "0 < length name" using linux_entries_simps(2) [OF assms(1)] assms(4) by simp_all
  then have "c_string (name @ [0]) = Some name" by simp
  moreover have "dirent_size (length name) = 32" using n(2,3) by (rule short_name_size [rotated])
  moreover have "unat (4096 - of_nat pos :: u64) = 4096 - pos"
    using assms(2) by (simp add: unat_sub word_le_nat_alt unat_of_nat take_bit_nat_eq_self)
  ultimately show ?thesis
    using fuse_add_direntry_fits [of "name @ [0]" name "4096 - of_nat pos" "drop pos buf" "zero_stat\<lparr>st_ino := ino, st_mode := mode\<rparr>" "of_int (int i + 1)"]
      n assms(2,3) by (simp add: linux_dirent_def assms(4) add.commute)
qed

lemma linux_dir_loop_fills:
  assumes "i \<le> 4" and "length done \<le> 32 * i" and "length done \<le> unat sz" and "take (length done) buf = done" and "length buf = 4096"
  shows "\<exists>r buf'. r = done @ linux_dir i (unat sz - length done) \<and> linux_dir_loop sz (int i) (of_nat (length done)) buf = Some (of_nat (length r), buf') \<and>
    length r \<le> 128 \<and> length buf' = 4096 \<and> take (length r) buf' = r"
  using assms
proof (induction "4 - i" arbitrary: i "done" buf)
  case 0
  then show ?case by (auto simp: linux_dir_loop.simps [of sz 4] linux_entries_simps(1) linux_dir_def)
next
  case (Suc n)
  then have i: "i < 4" by simp
  obtain name ino mode where e: "linux_entries ! i = (name, ino, mode)" by (metis prod_cases3)
  let ?p = "length done" let ?e = "linux_dirent i"
  have p: "unat (of_nat ?p :: u64) = ?p" using Suc.prems(2) i by (simp add: unat_of_nat take_bit_nat_eq_self)
  have p32: "unat (of_nat ?p + 32 :: u64) = ?p + 32" using Suc.prems(2) i by (simp add: unat_word_ariths p)
  have d: "[i..<4] = i # [Suc i..<4]" using i by (simp add: upt_conv_Cons)
  define buf1 where "buf1 = take ?p buf @ ?e @ drop (?p + 32) buf"
  have b1: "length buf1 = 4096" "take (?p + 32) buf1 = done @ ?e"
    using Suc.prems(2,4,5) i length_linux_dirent [OF i] by (simp_all add: buf1_def)
  have step: "linux_dir_loop sz (int i) (of_nat ?p) buf =
      (if of_nat ?p + 32 > sz then Some (of_nat ?p, buf1) else linux_dir_loop sz (int (Suc i)) (of_nat (?p + 32)) buf1)"
    using i linux_entry_added [OF i _ Suc.prems(5) e, of ?p] Suc.prems(2)
    by (simp add: linux_dir_loop.simps [of sz "int i"] linux_entries_simps e p buf1_def Let_def add.commute)
  show ?case
  proof (cases "?p + 32 \<le> unat sz")
    case True
    then have "\<not> of_nat ?p + 32 > sz" using p32 by (simp add: word_less_nat_alt)
    moreover have "done @ linux_dir i (unat sz - ?p) = (done @ ?e) @ linux_dir (Suc i) (unat sz - length (done @ ?e))"
      using le_diff_conv2 [of ?p "unat sz" 32] True length_linux_dirent [OF i] Suc.prems(3) by (simp add: linux_dir_def d)
    moreover have "length (done @ ?e) = ?p + 32" using length_linux_dirent [OF i] by simp
    ultimately show ?thesis
      using Suc.hyps(1) [of "Suc i" "done @ ?e" buf1] Suc.hyps(2) Suc.prems(2) True b1 i by (simp add: step)
  next
    case False
    then have "of_nat ?p + 32 > sz" using p32 by (simp add: word_less_nat_alt)
    moreover have "linux_dir i (unat sz - ?p) = []" using le_diff_conv2 [of ?p "unat sz" 32] False Suc.prems(3) length_linux_dirent [OF i] by (simp add: linux_dir_def d)
    moreover have "take ?p buf1 = done" using Suc.prems(4) b1(2) by (metis append_eq_conv_conj append_take_drop_id length_take min.absorb2 take_append take_take le_add1 min.absorb1)
    ultimately show ?thesis using b1 Suc.prems(2) i by (simp add: step)
  qed
qed

lemma linux_readdir_completes:
  assumes l: "live_req w a p" "\<forall>n. malloc_ok (plat w) n" "0 \<le> linux_index off"
    and a: "linux_answer (In_readdir ino fh off sz) (plat w) (fsmem w) = (e, d, n, m)"
  shows "completes a p e d n w (linux_readdir a ino (ucast sz) off fi w)"
proof (cases "ino = 1")
  case True
  define i where "i = nat (linux_index off)"
  then have idx: "sint (ucast off :: u32) = int i" using l(3) by (simp add: linux_index_def)
  let ?b = "map (uninit (plat w)) [0..<4096]" and ?d = "linux_dir i (unat sz)"
  have usz: "unat (ucast sz :: u64) = unat sz"
    by (simp add: unsigned_ucast_eq take_bit_nat_eq_self order_less_trans [OF unsigned_less])
  obtain buf' where loop: "linux_dir_loop (ucast sz) (int i) 0 ?b = Some (of_nat (length ?d), buf')" "length ?d \<le> 128"
    "length buf' = 4096" "take (length ?d) buf' = ?d"
  proof (cases "i \<le> 4")
    case True
    then show thesis using that linux_dir_loop_fills [of i "[]" "ucast sz" ?b] usz by auto
  next
    case False
    then show thesis using that [of ?b] by (simp add: linux_dir_loop.simps [of _ "int i"] linux_entries_simps(1) linux_dir_def)
  qed
  have u: "unat (of_nat (length ?d) :: u64) = length ?d" using loop(2) by (simp add: unat_of_nat take_bit_nat_eq_self)
  have "linux_readdir a ino (ucast sz) off fi w = snd (fuse_reply_buf a (Some buf') (length ?d) w)"
    using True loop(1) by (simp add: linux_readdir_def idx u)
  moreover have "completes a p 0 (RBytes ?d) (length ?d) w (snd (fuse_reply_buf a (Some buf') (length ?d) w))"
    using fuse_reply_buf_completes(2) [OF l(1), of "length ?d" buf'] loop(2-4) by (simp add: buf_result_ok [OF l(2)])
  ultimately show ?thesis using a True by (auto simp: i_def)
next
  case False
  then show ?thesis using a reply_err_completes [OF l(1), of ENOTDIR] by (auto simp: linux_readdir_def)
qed

lemma linux_answer_mem: "linux_answer i pl m = (e, d, n, m') \<Longrightarrow> m' = m"
  by (cases i) (auto split: if_splits option.splits)

lemmas linux_completes = linux_lookup_completes linux_getattr_completes linux_open_completes linux_read_completes linux_readdir_completes

interpretation linux: replying_ops "linux_oper :: 'u fuse_lowlevel_ops" linux_serves linux_answer
proof
  fix i a rest
  show "op_call (linux_oper :: 'u fuse_lowlevel_ops) a i rest \<noteq> None"
    by (cases i) (simp_all add: linux_oper_simps)
next
  fix i a rest p e d n m and act :: "'u action" and w :: "'u fuse_world"
  assume s: "linux_serves i" "name_ok i" "op_call (linux_oper :: 'u fuse_lowlevel_ops) a i rest = Some act"
    and l: "live_req w a p" "\<forall>n. malloc_ok (plat w) n"
    and a: "linux_answer i (plat w) (fsmem w) = (e, d, n, m)"
  have m: "w\<lparr>fsmem := m\<rparr> = w" using linux_answer_mem [OF a] by simp
  show "completes a p e d n (w\<lparr>fsmem := m\<rparr>) (act w)"
    unfolding m using linux_completes [OF l] s a by (cases i) (auto simp: linux_oper_simps)
qed

interpretation linux_files: readable_ops "linux_oper :: 'u fuse_lowlevel_ops" linux_serves linux_answer perf_content
  by unfold_locales (auto dest: linux_answer_mem simp: perf_content_def zero_open_out_def split: if_splits)

text \<open>A call returns as many whole entries as fit, and the last of them carries the index at which the next call goes on: calls with
  room for an entry list the directory once.\<close>

lemma linux_dir_part:
  assumes "i \<le> 4" and "32 \<le> sz"
  shows "linux_dir i sz = concat (map linux_dirent [i..<i + min (4 - i) (sz div 32)])"
proof -
  have "take_entries sz (map linux_dirent [i..<4]) = map linux_dirent [i..<i + min (4 - i) (sz div 32)]" if "i \<le> 4" for i sz
    using that
  proof (induction "4 - i" arbitrary: i sz)
    case (Suc n)
    then have i: "i < 4" by simp
    have d: "[i..<4] = i # [Suc i..<4]" using i by (simp add: upt_conv_Cons)
    show ?case
    proof (cases "32 \<le> sz")
      case True
      then have "sz div 32 = Suc ((sz - 32) div 32)" by (simp add: le_div_geq)
      then have m: "i + min (4 - i) (sz div 32) = Suc i + min (4 - Suc i) ((sz - 32) div 32)" using i Suc_diff_Suc [OF i] by (metis min_Suc_Suc add_Suc_shift)
      define j where "j = Suc i + min (4 - Suc i) ((sz - 32) div 32)"
      then have "[i..<j] = i # [Suc i..<j]" by (intro upt_conv_Cons) simp
      moreover have "take_entries (sz - 32) (map linux_dirent [Suc i..<4]) = map linux_dirent [Suc i..<j]"
        unfolding j_def using Suc.hyps(1) [of "Suc i" "sz - 32"] Suc.hyps(2) i by simp
      ultimately show ?thesis using True length_linux_dirent [OF i] unfolding d m j_def [symmetric] by simp
    next
      case False
      then show ?thesis using length_linux_dirent [OF i] by (simp add: d)
    qed
  qed simp
  then show ?thesis using assms(1) by (simp add: linux_dir_def)
qed

text \<open>The offset comes from the caller of \<^verbatim>\<open>seekdir\<close>: one whose low half is negative as an \<^verbatim>\<open>int\<close> makes the loop read before the array.\<close>

lemma linux_negative_index:
  "linux_index off < 0 \<Longrightarrow> linux_readdir req 1 sz off fi w = raise_fault OutOfBounds w"
  by (simp add: linux_readdir_def linux_index_def linux_dir_loop.simps [of _ "sint (ucast off :: u32)"] linux_entries_simps(1))

section \<open>Comparison\<close>

text \<open>The same reply up to the caching that the Linux file system forbids.\<close>

fun same_data :: "reply_data \<Rightarrow> reply_data \<Rightarrow> bool" where
  "same_data (REntry e) d \<longleftrightarrow> (\<exists>e'. d = REntry e' \<and> e = no_caching e')"
| "same_data (ROpen out) d \<longleftrightarrow> (\<exists>out'. d = ROpen out' \<and> out = out'\<lparr>oo_open_flags := oo_open_flags out' OR FOPEN_DIRECT_IO\<rparr>)"
| "same_data d d' \<longleftrightarrow> d' = d"

text \<open>Requests that the benchmarks make: opens for reading, of files that exist.\<close>

fun benchmark_request :: "ukfs_in \<Rightarrow> bool" where
  "benchmark_request (In_open ino flags) \<longleftrightarrow> ino \<in> {1, 2, 3} \<and> flags AND O_ACCMODE = O_RDONLY"
| "benchmark_request (In_read ino fh off sz) \<longleftrightarrow> 0 \<le>s off"
| "benchmark_request (In_readdir ino fh off sz) \<longleftrightarrow> False"
| "benchmark_request _ \<longleftrightarrow> True"

text \<open>\<^bold>\<open>C30\<close> Both file systems that the benchmarks compare answer alike: for the same request of the driver as the
  benchmarks make them (a lookup of a name without a zero byte and shorter than 8152 bytes, a request for attributes, an open for
  reading of inode 1, 2 or 3, a read from an offset that is not negative), live, with an allocator that does not fail and protocol 7.9 or
  newer, the operation of the Linux program and that of the unikernel complete it with the same error, length and data, except
  that an entry may not be cached and an open asks for direct I/O.\<close>

theorem linux_answers_as_perf:
  assumes i: "benchmark_request i" "name_ok i" and l: "live_req w a p" "\<forall>n. malloc_ok (plat w) n" "proto_minor (conn w) \<ge> 9"
    and op: "op_call linux_oper a i rest = Some act1" "op_call perf_oper a i rest = Some act2"
  shows "\<exists>q1 q2. ukfs (act1 w) p = Some q1 \<and> ukfs (act2 w) p = Some q2 \<and>
    ur_error q1 = ur_error q2 \<and> ur_reply_len q1 = ur_reply_len q2 \<and> same_data (ur_reply_data q1) (ur_reply_data q2) \<and>
    ur_done q1 = ur_done q2 \<and> ur_done q1 > 0"
proof -
  obtain q where q: "ukfs w p = Some q" using l(1) by (auto simp: live_req_def)
  obtain e1 d1 n1 m1 where a1: "linux_answer i (plat w) (fsmem w) = (e1, d1, n1, m1)" by (metis prod_cases4)
  obtain e2 d2 n2 m2 where a2: "perf_answer i (plat w) (fsmem w) = (e2, d2, n2, m2)" by (metis prod_cases4)
  have s: "linux_serves i" "perf_serves i" using i(1) by (cases i; simp)+
  have same: "e1 = e2 \<and> n1 = n2 \<and> same_data d1 d2"
    using a1 a2 i(1) by (cases i) (auto simp: zero_open_out_def split: if_splits option.splits)
  note c1 = linux.replies [OF s(1) i(2) op(1) l(1,3,2) a1] and c2 = perf.replies [OF s(2) i(2) op(2) l(1,3,2) a2]
  show ?thesis using completes_result [OF c1, of q] completes_result [OF c2, of q] q same by auto
qed

theorem linux_answers_as_perf_witness:
  defines "w \<equiv> demo_world\<lparr>reqs := [2 \<mapsto> zero_req\<lparr>rq_ref_cnt := 1, rq_ukfs_req := Some 3\<rparr>],
    ukfs := [3 \<mapsto> \<lparr>ur_opcode = 1, ur_unique = 1, ur_in = In_lookup 1 bigfile_name, ur_error = 0, ur_reply_data = RNull, ur_reply_len = 0, ur_done = 0\<rparr>]\<rparr>"
  shows "\<exists>q1 q2. ukfs (linux_lookup 2 1 (bigfile_name @ [0]) w) 3 = Some q1 \<and> ukfs (perf_lookup 2 1 (bigfile_name @ [0]) w) 3 = Some q2 \<and>
    ur_error q1 = ur_error q2 \<and> same_data (ur_reply_data q1) (ur_reply_data q2) \<and> ur_done q1 = ur_done q2"
proof -
  have l: "live_req w 2 3" by (simp add: w_def live_req_def zero_req_def)
  have ok: "\<forall>n. malloc_ok (plat w) n" "proto_minor (conn w) \<ge> 9"
    by (simp_all add: w_def demo_world_def fuse_session_new_versioned_def demo_platform_def zero_conn_info_def Let_def)
  have i: "benchmark_request (In_lookup 1 bigfile_name)" "name_ok (In_lookup 1 bigfile_name)" by simp_all
  show ?thesis
    using linux_answers_as_perf [OF i l ok, of "[]" "linux_lookup 2 1 (bigfile_name @ [0])" "perf_lookup 2 1 (bigfile_name @ [0])"]
    by (auto simp: linux_oper_simps perf_oper_simps)
qed

text \<open>Reading through the driver gives the same bytes.\<close>

lemma linux_read_content:
  assumes "sys_ok linux_serves s ps" and "sy_files s f = Some ff" and "perf_content (ff_nodeid ff) = Some bs"
    and "0 \<le>s off" and "sum_list (map unat iov) < 2 ^ 32"
  shows "\<exists>parts s'. fusefs_read linux_oper f iov off s = Some (int (length (concat parts)), parts, s') \<and>
    concat parts = take (sum_list (map unat iov)) (drop (unat off) bs)"
  using linux_files.read_content [OF assms] by blast

end
