(* ===== verification/Linux_Baseline.thy ===== *)
theory Linux_Baseline
  imports Test_Results Hello_Linux
begin

text \<open>
  The benchmark program for a Linux host, \<^verbatim>\<open>apps/fuse-perf-test/linux_baseline.c\<close>: the benchmarks of \<open>Perf_Suite\<close> on the files below a
  mount point that is given on the command line. The counter, the comparison and the report over the samples are the same code as there.
  The lemmas show that the two programs can be compared: with the same files at the mount point, the benchmarks of this program make the
  same calls in the same order, take the same samples and leave the system in the same state as those of \<open>Perf_Suite\<close>.
\<close>

section \<open>Benchmarks\<close>

definition baseline_stat :: "'v posix \<Rightarrow> byte list \<Rightarrow> 'v bench \<Rightarrow> 'v bench option" where
  "baseline_stat P path s = do {
     s \<leftarrow> for_loop 100 (\<lambda>_. ignore (px_stat P path)) s;
     s \<leftarrow> for_loop NUM_ITERATIONS (timed P (ignore (px_stat P path))) s;
     print_stats ''stat() - LOOKUP+GETATTR'' NUM_ITERATIONS s
   }"

definition baseline_stat_root :: "'v posix \<Rightarrow> byte list \<Rightarrow> 'v bench \<Rightarrow> 'v bench option" where
  "baseline_stat_root P dir_path s = do {
     s \<leftarrow> for_loop 100 (\<lambda>_. ignore (px_stat P dir_path)) s;
     s \<leftarrow> for_loop NUM_ITERATIONS (timed P (ignore (px_stat P dir_path))) s;
     print_stats ''stat(mountpoint) - GETATTR only (1 round-trip)'' NUM_ITERATIONS s
   }"

definition baseline_seq_read :: "'v posix \<Rightarrow> byte list \<Rightarrow> 'v bench \<Rightarrow> 'v bench option" where
  "baseline_seq_read P path s = do {
     (fd, s) \<leftarrow> syscall (px_open P path) s;
     case fd of
       Inl _ \<Rightarrow> Some s
     | Inr fd \<Rightarrow> do {
         s \<leftarrow> for_loop 100 (\<lambda>_ s. do { s \<leftarrow> ignore (px_lseek P fd 0 SEEK_SET) s; two_reads P fd s }) s;
         s \<leftarrow> for_loop NUM_ITERATIONS (\<lambda>i s. do { s \<leftarrow> ignore (px_lseek P fd 0 SEEK_SET) s; timed P (two_reads P fd) i s }) s;
         s \<leftarrow> ignore (px_close P fd) s;
         print_stats ''seq read() 5+8 bytes - 2 FUSE READs'' NUM_ITERATIONS s
       }
   }"

definition baseline_open_read_close :: "'v posix \<Rightarrow> byte list \<Rightarrow> 'v bench \<Rightarrow> 'v bench option" where
  "baseline_open_read_close P path s = do {
     let cnt = 1000;
     s \<leftarrow> for_loop cnt (timed P (\<lambda>s. do {
         (fd, s) \<leftarrow> syscall (px_open P path) s;
         case fd of
           Inl _ \<Rightarrow> Some s
         | Inr fd \<Rightarrow> do { s \<leftarrow> ignore (px_pread P fd 13 0) s; ignore (px_close P fd) s }
       })) s;
     print_stats ''open+pread+close - incl. FUSE OPEN'' cnt s
   }"

definition baseline_pread :: "'v posix \<Rightarrow> byte list \<Rightarrow> 'v bench \<Rightarrow> 'v bench option" where
  "baseline_pread P path s = do {
     (fd, s) \<leftarrow> syscall (px_open P path) s;
     case fd of
       Inl _ \<Rightarrow> Some s
     | Inr fd \<Rightarrow> do {
         s \<leftarrow> for_loop 100 (\<lambda>_. ignore (px_pread P fd 13 0)) s;
         s \<leftarrow> for_loop NUM_ITERATIONS (timed P (ignore (px_pread P fd 13 0))) s;
         s \<leftarrow> ignore (px_close P fd) s;
         print_stats ''pread() - Data Transfer'' NUM_ITERATIONS s
       }
   }"

definition baseline_list :: "'v posix \<Rightarrow> byte list \<Rightarrow> 'v bench \<Rightarrow> 'v bench option" where
  "baseline_list P dir_path s = do {
     (dp, s) \<leftarrow> syscall (px_opendir P dir_path) s;
     case dp of
       Inl _ \<Rightarrow> Some s
     | Inr dp \<Rightarrow> do {
         (_, s) \<leftarrow> while_readdir P dp (\<lambda>de _ s. Some ((), s)) () s;
         ignore (px_closedir P dp) s
       }
   }"

definition baseline_readdir :: "'v posix \<Rightarrow> byte list \<Rightarrow> 'v bench \<Rightarrow> 'v bench option" where
  "baseline_readdir P dir_path s = do {
     let cnt = NUM_ITERATIONS div 10;
     s \<leftarrow> for_loop 20 (\<lambda>_. baseline_list P dir_path) s;
     s \<leftarrow> for_loop cnt (timed P (baseline_list P dir_path)) s;
     print_stats ''opendir + readdir + closedir'' cnt s
   }"

text \<open>The numbers of MiB and of MiB per second have 32 bits, and so has their product with 1000.\<close>

definition baseline_report :: "nat \<Rightarrow> u64 \<Rightarrow> u64 \<Rightarrow> 'v bench \<Rightarrow> 'v bench" where
  "baseline_report block_size bytes_read total_cycles s =
     (let milliseconds = total_cycles div 3000000;
          mb = (ucast (bytes_read div (1024 * 1024)) :: u32);
          milliseconds = (if milliseconds = 0 then 1 else milliseconds);
          mb_per_sec = (ucast (ucast (mb * 1000) div milliseconds) :: u32);
          s = printf ''\<newline>=====================================================\<newline>'' [] s;
          s = printf ''  Workload: Throughput (/bigfile) - %zu KB blocks\<newline>'' [PInt (int (block_size div 1024))] s;
          s = printf ''=====================================================\<newline>'' [] s;
          s = printf ''  Total read: %u MB\<newline>'' [PInt (uint mb)] s;
          s = printf ''  Time:       %llu cycles (~%u ms)\<newline>'' [PInt (uint total_cycles), PInt (uint (ucast milliseconds :: u32))] s;
          s = printf ''  Throughput: %u MB/s\<newline>'' [PInt (uint mb_per_sec)] s
      in printf ''-----------------------------------------------------\<newline>'' [] s)"

definition baseline_throughput :: "'v posix \<Rightarrow> byte list \<Rightarrow> nat \<Rightarrow> 'v bench \<Rightarrow> 'v bench option" where
  "baseline_throughput P path block_size s = do {
     (fd, s) \<leftarrow> syscall (px_open P path) s;
     case fd of
       Inl _ \<Rightarrow> Some (printf ''Failed to open %s for throughput bench\<newline>'' [PStr path] s)
     | Inr fd \<Rightarrow>
         (let (buf, v) = px_malloc P block_size (pg_os s); s = s\<lparr>pg_os := v\<rparr>
          in if \<not> buf then ignore (px_close P fd) s
          else do {
            let target_bytes = 50 * 1024 * 1024;
            let (t0, s) = rdtsc P s;
            (bytes_read, s) \<leftarrow> read_until P fd block_size target_bytes 0 s;
            let (t1, s) = rdtsc P s;
            s \<leftarrow> ignore (px_close P fd) s;
            let total_cycles = t1 - t0;
            Some (baseline_report block_size bytes_read total_cycles s)
          })
   }"

text \<open>\<^verbatim>\<open>snprintf\<close> into an array of 256 bytes cuts a longer path.\<close>

definition path_below :: "byte list \<Rightarrow> string \<Rightarrow> byte list" where
  "path_below mp name = take 255 (mp @ bytes_of name)"

definition baseline_main :: "'v posix \<Rightarrow> byte list list \<Rightarrow> 'v bench \<Rightarrow> (int \<times> 'v bench) option" where
  "baseline_main P argv s =
     (if length argv \<noteq> 2 then Some (1, printf ''Usage: %s <mountpoint>\<newline>'' [PStr (hd (argv @ [[]]))] s)
      else do {
        let mp = argv ! 1;
        let file_path = path_below mp ''/hello'';
        let s = printf ''\<newline>[+] Linux FUSE Native Benchmark on %s\<newline>'' [PStr mp] s;
        s \<leftarrow> baseline_stat_root P mp s;
        s \<leftarrow> baseline_stat P file_path s;
        s \<leftarrow> baseline_pread P file_path s;
        s \<leftarrow> baseline_seq_read P file_path s;
        s \<leftarrow> baseline_open_read_close P file_path s;
        s \<leftarrow> baseline_readdir P mp s;
        let bigfile_path = path_below mp ''/bigfile'';
        s \<leftarrow> baseline_throughput P bigfile_path (4 * 1024) s;
        s \<leftarrow> baseline_throughput P bigfile_path (64 * 1024) s;
        s \<leftarrow> baseline_throughput P bigfile_path (1024 * 1024) s;
        Some (0, s)
      })"

section \<open>The same measurements\<close>

text \<open>The state of a program up to its output, and operations with the same effect on it.\<close>

definition measured :: "'v bench \<Rightarrow> 'v \<times> int \<times> u64 list" where
  "measured s = (pg_os s, pg_errno s, samples s)"

abbreviation eqm :: "'v bench \<Rightarrow> 'v bench \<Rightarrow> bool" where "eqm s t \<equiv> measured s = measured t"

abbreviation eqmv :: "'a \<times> 'v bench \<Rightarrow> 'a \<times> 'v bench \<Rightarrow> bool" where "eqmv \<equiv> rel_prod (=) eqm"

lemma bind_alike: "rel_option R a b \<Longrightarrow> (\<And>x y. R x y \<Longrightarrow> rel_option S (f x) (g y)) \<Longrightarrow> rel_option S (Option.bind a f) (Option.bind b g)"
  by (cases a; cases b) simp_all

lemma printf_alike [simp]: "measured (printf fmt args s) = measured s"
  by (simp add: measured_def printf_def)

lemma os_alike: "eqm s t \<Longrightarrow> eqm (s\<lparr>pg_os := v\<rparr>) (t\<lparr>pg_os := v\<rparr>)" and os_same: "eqm s t \<Longrightarrow> pg_os s = pg_os t"
  by (simp_all add: measured_def)

lemma syscall_alike: "eqm s t \<Longrightarrow> rel_option eqmv (syscall call s) (syscall call t)"
  by (cases "call (pg_os t)") (auto simp: syscall_def measured_def split: sum.splits)

lemma ignore_alike: "eqm s t \<Longrightarrow> rel_option eqm (ignore call s) (ignore call t)"
  unfolding ignore_def by (erule bind_alike [OF syscall_alike]) auto

lemma rdtsc_alike: "px_rdtsc P = px_rdtsc P' \<Longrightarrow> eqm s t \<Longrightarrow> eqmv (rdtsc P s) (rdtsc P' t)"
  by (cases "px_rdtsc P' (pg_os t)") (auto simp: rdtsc_def measured_def Let_def)

lemma print_stats_alike: "eqm s t \<Longrightarrow> rel_option eqm (print_stats name cnt s) (print_stats name' cnt t)"
  by (auto simp: print_stats_def Let_def measured_def printf_def)

lemma timed_alike:
  assumes P: "px_rdtsc P = px_rdtsc P'" and "eqm s t" and "\<And>s t. eqm s t \<Longrightarrow> rel_option eqm (work s) (work' t)"
  shows "rel_option eqm (timed P work i s) (timed P' work' i t)"
proof -
  obtain x s1 t1 where 1: "rdtsc P s = (x, s1)" "rdtsc P' t = (x, t1)" "eqm s1 t1"
    using rdtsc_alike [OF P assms(2)] by (cases "rdtsc P s"; cases "rdtsc P' t") auto
  show ?thesis unfolding timed_def 1 prod.case Let_def
  proof (rule bind_alike [OF assms(3) [OF 1(3)]])
    fix s t :: "'a bench" assume "eqm s t"
    from rdtsc_alike [OF P this] show "rel_option eqm
        (case rdtsc P s of (t1, s) \<Rightarrow> if i < length (samples s) then Some (s\<lparr>samples := (samples s)[i := t1 - x]\<rparr>) else None)
        (case rdtsc P' t of (t1, s) \<Rightarrow> if i < length (samples s) then Some (s\<lparr>samples := (samples s)[i := t1 - x]\<rparr>) else None)"
      by (cases "rdtsc P s"; cases "rdtsc P' t") (auto simp: measured_def)
  qed
qed

lemma for_loop_alike:
  assumes "eqm s t" and "\<And>i s t. eqm s t \<Longrightarrow> rel_option eqm (body i s) (body' i t)"
  shows "rel_option eqm (for_loop n body s) (for_loop n body' t)"
proof -
  have "rel_option eqm (for_rounds n i body s) (for_rounds n i body' t)" for i
    using assms(1) by (induction n arbitrary: i s t) (auto intro!: bind_alike [OF assms(2)])
  then show ?thesis by (simp add: for_loop_def)
qed

text \<open>A loop over a directory or a file comes to an end in the one program if and only if it does in the other.\<close>

definition simulated :: "('s \<Rightarrow> 's \<Rightarrow> bool) \<Rightarrow> 's option \<Rightarrow> 's option \<Rightarrow> bool" where
  "simulated R a b \<longleftrightarrow> (\<forall>x. a = Some x \<longrightarrow> (\<exists>y. b = Some y \<and> R x y))"

lemma simulated_both: "simulated R a b \<Longrightarrow> simulated R b a \<Longrightarrow> (\<And>x y. R x y \<Longrightarrow> R y x) \<Longrightarrow> rel_option R a b"
  by (cases a; cases b) (auto simp: simulated_def)

lemma rel_step: "rel_option R a b \<Longrightarrow> a = Some x \<Longrightarrow> (\<And>y. b = Some y \<Longrightarrow> R x y \<Longrightarrow> Q) \<Longrightarrow> Q"
  by (cases b) auto

lemma while_readdir_simulated:
  assumes "px_readdir P' = px_readdir P" and body: "\<And>e a s t. eqm s t \<Longrightarrow> rel_option eqmv (body e a s) (body e a t)" and "eqm s t"
  shows "simulated eqmv (while_readdir P d body a s) (while_readdir P' d body a t)"
proof -
  let ?sim = "\<lambda>((((P, d), body), a), s) r. \<forall>t. px_readdir P' = px_readdir P \<longrightarrow> (\<forall>e a s t. eqm s t \<longrightarrow> rel_option eqmv (body e a s) (body e a t)) \<longrightarrow> eqm s t \<longrightarrow>
    (\<exists>r'. while_readdir P' d body a t = Some r' \<and> eqmv r r')"
  have "?sim ((((P, d), body), a), s) r" if "while_readdir P d body a s = Some r" for r
    using that
  proof (rule while_readdir.raw_induct [rotated])
    fix rec P d body a s r
    assume rec: "\<And>P d body a s r. rec P d body a s = Some r \<Longrightarrow> ?sim ((((P, d), body), a), s) r"
      and now: "Option.bind (sys_readdir P d s) (\<lambda>(de, s). case de of
          None \<Rightarrow> Some (a, s) | Some e \<Rightarrow> Option.bind (body e a s) (\<lambda>(a, s). rec P d body a s)) = Some r"
    show "?sim ((((P, d), body), a), s) r"
      unfolding prod.case
    proof (intro allI impI)
      fix t assume P: "px_readdir P' = px_readdir P" and body: "\<forall>e a s t. eqm s t \<longrightarrow> rel_option eqmv (body e a s) (body e a t)" and st: "eqm s t"
      from now obtain de v where de: "px_readdir P d (pg_os s) = Some (de, v)" by (auto simp: sys_readdir_def bind_eq_Some_conv)
      have eq: "eqm (s\<lparr>pg_os := v\<rparr>) (t\<lparr>pg_os := v\<rparr>)" using st by (rule os_alike)
      show "\<exists>r'. while_readdir P' d body a t = Some r' \<and> eqmv r r'"
      proof (cases de)
        case None
        then show ?thesis using now st de eq by (subst while_readdir.simps) (auto simp: sys_readdir_def P os_same [OF st])
      next
        case (Some e)
        from now Some de obtain a1 s1 where a1: "body e a (s\<lparr>pg_os := v\<rparr>) = Some (a1, s1)" "rec P d body a1 s1 = Some r"
          by (auto simp: sys_readdir_def bind_eq_Some_conv)
        obtain t1 where t1: "body e a (t\<lparr>pg_os := v\<rparr>) = Some (a1, t1)" "eqm s1 t1"
          by (rule rel_step [OF body [rule_format, OF eq] a1(1)]) auto
        from rec [OF a1(2)] P body t1(2) have "\<exists>r'. while_readdir P' d body a1 t1 = Some r' \<and> eqmv r r'" by simp
        then show ?thesis using Some de t1(1)
          by (subst while_readdir.simps) (simp add: sys_readdir_def P os_same [OF st, symmetric])
      qed
    qed
  qed
  then show ?thesis using assms by (simp add: simulated_def)
qed

lemma eqmv_sym: "eqmv x y \<Longrightarrow> eqmv y x" by (cases x; cases y) simp

lemma while_readdir_alike:
  assumes "px_readdir P' = px_readdir P" and "\<And>e a s t. eqm s t \<Longrightarrow> rel_option eqmv (body e a s) (body e a t)" and "eqm s t"
  shows "rel_option eqmv (while_readdir P d body a s) (while_readdir P' d body a t)"
  using while_readdir_simulated [OF assms] while_readdir_simulated [OF assms(1) [symmetric] assms(2) assms(3) [symmetric]] eqmv_sym by (rule simulated_both)

lemma read_until_simulated:
  assumes "px_read P' = px_read P" and "eqm s t"
  shows "simulated eqmv (read_until P fd bs target n s) (read_until P' fd bs target n t)"
proof -
  let ?sim = "\<lambda>(((((P, fd), bs), target), n), s) r. \<forall>t. px_read P' = px_read P \<longrightarrow> eqm s t \<longrightarrow> (\<exists>r'. read_until P' fd bs target n t = Some r' \<and> eqmv r r')"
  have "?sim (((((P, fd), bs), target), n), s) r" if "read_until P fd bs target n s = Some r" for r
    using that
  proof (rule read_until.raw_induct [rotated])
    fix rec P fd bs target n s r
    assume rec: "\<And>P fd bs target n s r. rec P fd bs target n s = Some r \<Longrightarrow> ?sim (((((P, fd), bs), target), n), s) r"
      and now: "(if n < target then Option.bind (syscall (px_read P fd bs) s) (\<lambda>(r, s).
          let na = ssize r in if na \<le> 0 then Some (n, s) else rec P fd bs target (n + of_int na) s) else Some (n, s)) = Some r"
    show "?sim (((((P, fd), bs), target), n), s) r"
      unfolding prod.case
    proof (intro allI impI)
      fix t assume P: "px_read P' = px_read P" and st: "eqm s t"
      show "\<exists>r'. read_until P' fd bs target n t = Some r' \<and> eqmv r r'"
      proof (cases "n < target")
        case False
        then show ?thesis using now st by (subst read_until.simps) auto
      next
        case True
        with now obtain x s1 where x: "syscall (px_read P fd bs) s = Some (x, s1)"
          "(if ssize x \<le> 0 then Some (n, s1) else rec P fd bs target (n + of_int (ssize x)) s1) = Some r"
          by (auto simp: bind_eq_Some_conv Let_def)
        obtain t1 where t1: "syscall (px_read P fd bs) t = Some (x, t1)" "eqm s1 t1"
          by (rule rel_step [OF syscall_alike [OF st] x(1)]) auto
        show ?thesis
        proof (cases "ssize x \<le> 0")
          case True
          then show ?thesis using x(2) t1 \<open>n < target\<close> by (subst read_until.simps) (auto simp: Let_def P)
        next
          case False
          then have "rec P fd bs target (n + of_int (ssize x)) s1 = Some r" using x(2) by simp
          from rec [OF this] P t1(2) have "\<exists>r'. read_until P' fd bs target (n + of_int (ssize x)) t1 = Some r' \<and> eqmv r r'" by simp
          then show ?thesis using t1(1) \<open>n < target\<close> False by (subst read_until.simps) (simp add: Let_def P)
        qed
      qed
    qed
  qed
  then show ?thesis using assms by (simp add: simulated_def)
qed

lemma read_until_alike: "px_read P' = px_read P \<Longrightarrow> eqm s t \<Longrightarrow> rel_option eqmv (read_until P fd bs target n s) (read_until P' fd bs target n t)"
  by (rule simulated_both [OF read_until_simulated read_until_simulated]) (auto intro: eqmv_sym)

section \<open>The same benchmarks on the files below a mount point\<close>

text \<open>The system \<open>P'\<close> has the files of \<open>P\<close> below \<open>mp\<close>: the calls with a path agree, and the calls on what they opened are the same.\<close>

definition at_mount :: "byte list \<Rightarrow> 'v posix \<Rightarrow> 'v posix \<Rightarrow> bool" where
  "at_mount mp P P' \<longleftrightarrow>
     px_stat P' mp = px_stat P (bytes_of ''/'') \<and> px_stat P' (mp @ bytes_of ''/hello'') = px_stat P (bytes_of ''/hello'') \<and>
     px_open P' (mp @ bytes_of ''/hello'') = px_open P (bytes_of ''/hello'') \<and>
     px_open P' (mp @ bytes_of ''/bigfile'') = px_open P (bytes_of ''/bigfile'') \<and>
     px_opendir P' mp = px_opendir P (bytes_of ''/'') \<and>
     px_close P' = px_close P \<and> px_lseek P' = px_lseek P \<and> px_read P' = px_read P \<and> px_pread P' = px_pread P \<and>
     px_readdir P' = px_readdir P \<and> px_closedir P' = px_closedir P \<and> px_rdtsc P' = px_rdtsc P \<and> px_malloc P' = px_malloc P"

lemmas loops_alike = for_loop_alike timed_alike ignore_alike print_stats_alike

lemma path_below_fits: "length mp \<le> 247 \<Longrightarrow> path_below mp ''/hello'' = mp @ bytes_of ''/hello''"
  "length mp \<le> 247 \<Longrightarrow> path_below mp ''/bigfile'' = mp @ bytes_of ''/bigfile''"
  by (simp_all add: path_below_def bytes_of_def)

lemma stat_alike:
  assumes "at_mount mp P P'" and "eqm s t"
  shows "rel_option eqm (baseline_stat P' (mp @ bytes_of ''/hello'') s) (bench_stat P t)"
    and "rel_option eqm (baseline_stat_root P' mp s) (bench_stat_root P t)"
  using assms unfolding baseline_stat_def bench_stat_def baseline_stat_root_def bench_stat_root_def
  by (auto simp: at_mount_def intro!: bind_alike [where R = eqm] loops_alike)

lemma two_reads_alike: "at_mount mp P P' \<Longrightarrow> eqm s t \<Longrightarrow> rel_option eqm (two_reads P' fd s) (two_reads P fd t)"
  unfolding two_reads_def by (auto simp: at_mount_def intro!: bind_alike [where R = eqm] ignore_alike)

lemma pread_alike:
  assumes "at_mount mp P P'" and "eqm s t"
  shows "rel_option eqm (baseline_pread P' (mp @ bytes_of ''/hello'') s) (bench_pread P t)"
  using assms unfolding baseline_pread_def bench_pread_def
  by (auto simp: at_mount_def split: sum.splits intro!: bind_alike [where R = eqmv] bind_alike [where R = eqm] syscall_alike loops_alike)

lemma seq_read_alike:
  assumes "at_mount mp P P'" and "eqm s t"
  shows "rel_option eqm (baseline_seq_read P' (mp @ bytes_of ''/hello'') s) (bench_seq_read P t)"
  using assms two_reads_alike [OF assms(1)] unfolding baseline_seq_read_def bench_seq_read_def
  by (auto simp: at_mount_def split: sum.splits intro!: bind_alike [where R = eqmv] bind_alike [where R = eqm] syscall_alike loops_alike)

lemma open_read_close_alike:
  assumes "at_mount mp P P'" and "eqm s t"
  shows "rel_option eqm (baseline_open_read_close P' (mp @ bytes_of ''/hello'') s) (bench_open_read_close P t)"
  using assms unfolding baseline_open_read_close_def bench_open_read_close_def open_read_close_def Let_def
  by (auto simp: at_mount_def split: sum.splits intro!: bind_alike [where R = eqm] loops_alike bind_alike [where R = eqmv] syscall_alike)

lemma list_alike:
  assumes "at_mount mp P P'" and "eqm s t"
  shows "rel_option eqm (baseline_list P' mp s) (list_root P t)"
  using assms unfolding baseline_list_def list_root_def
  by (auto simp: at_mount_def split: sum.splits intro!: bind_alike [where R = eqmv] syscall_alike while_readdir_alike ignore_alike)

lemma readdir_alike:
  assumes "at_mount mp P P'" and "eqm s t"
  shows "rel_option eqm (baseline_readdir P' mp s) (bench_readdir P t)"
  using assms unfolding baseline_readdir_def bench_readdir_def Let_def
  by (auto simp: at_mount_def intro!: bind_alike [where R = eqm] for_loop_alike timed_alike print_stats_alike list_alike [OF assms(1)])

lemma report_alike: "eqm s t \<Longrightarrow> eqm (baseline_report bs n c s) (report_throughput bs n c t)"
  by (simp add: baseline_report_def report_throughput_def Let_def)

lemma throughput_alike:
  assumes "at_mount mp P P'" and "eqm s t"
  shows "rel_option eqm (baseline_throughput P' (mp @ bytes_of ''/bigfile'') bs s) (bench_throughput P bs t)"
proof -
  have P: "px_open P' (mp @ bytes_of ''/bigfile'') = px_open P (bytes_of ''/bigfile'')" "px_malloc P' = px_malloc P" "px_close P' = px_close P"
    "px_rdtsc P' = px_rdtsc P" "px_read P' = px_read P" using assms(1) by (simp_all add: at_mount_def)
  have timing: "rel_option eqm
      (case rdtsc P' s of (t0, s) \<Rightarrow> Option.bind (read_until P' fd bs (50 * 1024 * 1024) 0 s) (\<lambda>(n, s). case rdtsc P' s of (t1, s) \<Rightarrow>
        Option.bind (ignore (px_close P fd) s) (\<lambda>s. Some (baseline_report bs n (t1 - t0) s))))
      (case rdtsc P t of (t0, s) \<Rightarrow> Option.bind (read_until P fd bs (50 * 1024 * 1024) 0 s) (\<lambda>(n, s). case rdtsc P s of (t1, s) \<Rightarrow>
        Option.bind (ignore (px_close P fd) s) (\<lambda>s. Some (report_throughput bs n (t1 - t0) s))))" if "eqm s t" for fd s t
  proof -
    note st = that
    obtain t0 s1 t1 where 1: "rdtsc P' s = (t0, s1)" "rdtsc P t = (t0, t1)" "eqm s1 t1"
      using rdtsc_alike [OF P(4) st] by (cases "rdtsc P' s"; cases "rdtsc P t") auto
    have end_time: "rel_option eqm
        (case rdtsc P' s of (t1, s) \<Rightarrow> Option.bind (ignore (px_close P fd) s) (\<lambda>s. Some (baseline_report bs n (t1 - t0) s)))
        (case rdtsc P t of (t1, s) \<Rightarrow> Option.bind (ignore (px_close P fd) s) (\<lambda>s. Some (report_throughput bs n (t1 - t0) s)))"
      if "eqm s t" for n s t
      using rdtsc_alike [OF P(4) that] by (cases "rdtsc P' s"; cases "rdtsc P t") (auto intro!: bind_alike [OF ignore_alike] report_alike)
    show ?thesis unfolding 1 prod.case
      by (rule bind_alike [OF read_until_alike [OF P(5) [symmetric] 1(3)]]) (auto intro: end_time)
  qed
  have opened: "rel_option eqm
      (let (buf, v) = px_malloc P bs (pg_os s); s = s\<lparr>pg_os := v\<rparr> in if \<not> buf then ignore (px_close P fd) s else
        case rdtsc P' s of (t0, s) \<Rightarrow> Option.bind (read_until P' fd bs (50 * 1024 * 1024) 0 s) (\<lambda>(n, s). case rdtsc P' s of (t1, s) \<Rightarrow>
          Option.bind (ignore (px_close P fd) s) (\<lambda>s. Some (baseline_report bs n (t1 - t0) s))))
      (let (buf, v) = px_malloc P bs (pg_os t); t = t\<lparr>pg_os := v\<rparr> in if \<not> buf then ignore (px_close P fd) t else
        case rdtsc P t of (t0, s) \<Rightarrow> Option.bind (read_until P fd bs (50 * 1024 * 1024) 0 s) (\<lambda>(n, s). case rdtsc P s of (t1, s) \<Rightarrow>
          Option.bind (ignore (px_close P fd) s) (\<lambda>s. Some (report_throughput bs n (t1 - t0) s))))" if "eqm s t" for fd s t
    using os_alike [OF that] by (cases "px_malloc P bs (pg_os t)") (auto simp only: os_same [OF that] Let_def prod.case split: if_split intro!: ignore_alike timing)
  show ?thesis unfolding baseline_throughput_def bench_throughput_def P
  proof (rule bind_alike [OF syscall_alike [OF assms(2)]], goal_cases)
    case (1 x y)
    then obtain r s t where xy: "x = (r, s)" "y = (r, t)" "eqm s t" by (cases x; cases y) auto
    then show ?case
      using opened [OF xy(3)] xy(3) unfolding xy(1,2) prod.case by (cases r) (simp_all only: sum.case Let_def option.rel_inject printf_alike)
  qed
qed

lemma last_alike: "rel_option eqm a b \<Longrightarrow> rel_option (\<lambda>(r, s) t. r = x \<and> eqm s t) (Option.bind a (\<lambda>s. Some (x, s))) b"
  by (cases a; cases b) simp_all

lemma benchmarks_alike:
  assumes "at_mount mp P P'" and "length mp \<le> 247"
  shows "rel_option (\<lambda>(r, s) t. r = 0 \<and> eqm s t) (baseline_main P' [prog, mp] s) (perf_benchmarks P s)"
proof -
  have start: "eqm (printf ''\<newline>[+] Linux FUSE Native Benchmark on %s\<newline>'' [PStr mp] s) s" by simp
  note step = bind_alike [where R = eqm]
  show ?thesis unfolding perf_benchmarks_def
    by (simp add: baseline_main_def path_below_fits [OF assms(2)] Let_def)
      (intro step stat_alike [OF assms(1)] pread_alike [OF assms(1)] seq_read_alike [OF assms(1)] open_read_close_alike [OF assms(1)]
        readdir_alike [OF assms(1)] throughput_alike [OF assms(1)] last_alike start; assumption)
qed

text \<open>A system with the files of another one below a mount point.\<close>

definition inside :: "byte list \<Rightarrow> byte list \<Rightarrow> byte list" where
  "inside mp path = (if path = mp then bytes_of ''/'' else drop (length mp) path)"

definition below :: "byte list \<Rightarrow> 'v posix \<Rightarrow> 'v posix" where
  "below mp P = P\<lparr>px_stat := \<lambda>path. px_stat P (inside mp path), px_open := \<lambda>path. px_open P (inside mp path),
     px_opendir := \<lambda>path. px_opendir P (inside mp path)\<rparr>"

lemma below_at_mount: "at_mount mp P (below mp P)"
  by (simp add: at_mount_def below_def inside_def bytes_of_def)

text \<open>On the reference system the benchmarks come to an end.\<close>

context perf_posix
begin

lemma benchmarks_end: "mounted s \<Longrightarrow> runs (perf_benchmarks P s) (\<lambda>_. True)"
  unfolding perf_benchmarks_def runs_simps
  by (auto intro!: runs_mono [OF stat_benches(1)] runs_mono [OF stat_benches(2)] runs_mono [OF pread_bench] runs_mono [OF seq_read_bench]
      runs_mono [OF open_read_close_bench] runs_mono [OF readdir_bench] runs_mono [OF throughput_bench])

lemma benchmarks_start:
  assumes "starting v" and "ready w"
  shows "\<exists>v s'. perf_benchmarks P \<lparr>pg_os = v, pg_errno = 0, pg_out = [], samples = replicate NUM_ITERATIONS 0\<rparr> = Some s'"
proof -
  obtain v1 v2 v3 where "px_thread_create P v = (True, v1)" "wait_registered P v1 = Some v2"
    "px_mount P ''none'' ''/'' ''fuse'' v2 = Some (Inr (), v3)" "valid v3"
    by (rule boots [OF assms])
  then have "mounted \<lparr>pg_os = v3, pg_errno = 0, pg_out = [], samples = replicate NUM_ITERATIONS 0\<rparr>" by (simp add: measuring_def)
  from benchmarks_end [OF this] show ?thesis by (auto simp: runs_def)
qed

end

lemmas reference_benchmarks =
  perf_posix.benchmarks_start [OF perf_posix.intro [OF perf_ref.posix_driver_axioms] _ backend_ready [OF backend_demo]]

text \<open>\<^bold>\<open>C31\<close> The Linux benchmark program on a mount point makes the same measurements as the benchmarks of the Unikraft program on the
  same files: with the same state at the start, it comes to an end if and only if they do, and then with the return code 0, the same state of
  the system and the same samples. The path of the mount point has at most 247 bytes; of a longer one the file names are cut off.\<close>

theorem baseline_measures_same:
  assumes "at_mount mp P P'" and "length mp \<le> 247"
  shows "rel_option (\<lambda>(r, s') t'. r = 0 \<and> measured s' = measured t') (baseline_main P' [prog, mp] s) (perf_benchmarks P s)"
  using assms by (rule benchmarks_alike)

theorem baseline_measures_same_witness:
  "\<exists>v s'. baseline_main (below (bytes_of ''/mnt'') (ref_posix demo_world demo_consts 4096 perf_oper)) [bytes_of ''baseline'', bytes_of ''/mnt'']
       \<lparr>pg_os = v, pg_errno = 0, pg_out = [], samples = replicate NUM_ITERATIONS 0\<rparr> = Some (0, s')"
proof -
  let ?P = "ref_posix demo_world demo_consts 4096 perf_oper"
  have "\<exists>v t'. perf_benchmarks ?P \<lparr>pg_os = v, pg_errno = 0, pg_out = [], samples = replicate NUM_ITERATIONS 0\<rparr> = Some t'"
    by (rule reference_benchmarks [where v = ref_start]) (simp_all add: demo_platform_def)
  then obtain v t' where t': "perf_benchmarks ?P \<lparr>pg_os = v, pg_errno = 0, pg_out = [], samples = replicate NUM_ITERATIONS 0\<rparr> = Some t'"
    by blast
  have "length (bytes_of ''/mnt'') \<le> 247" by (simp add: bytes_of_def)
  from baseline_measures_same [OF below_at_mount this, of ?P "bytes_of ''baseline''"
      "\<lparr>pg_os = v, pg_errno = 0, pg_out = [], samples = replicate NUM_ITERATIONS 0\<rparr>"]
  show ?thesis unfolding t' by (auto simp: option_rel_Some2)
qed

end
