(* ===== verification/Spec2Isabelle.thy ===== *)
theory Spec2Isabelle
  imports Fuse_Concurrent Fuse_Readers Fuse_Typed Fuse_Groups Fuse_Support Fuse_Splice_Recv Test_Results Linux_Baseline
begin

text \<open>
  \<^bold>\<open>UKFS_FUSE\<close>: file systems written against the low-level API of libfuse, running inside a Unikraft unikernel
  (\<^verbatim>\<open>src/libs\<close>, \<^verbatim>\<open>src/apps\<close>).

  \<^bold>\<open>The program.\<close> A thread of the application calls the POSIX file interface; Unikraft calls the driver
  (\<^verbatim>\<open>ukfusefs/ukfs-fuse.c\<close>), which builds a request in its own frame, pushes it into the one global queue
  (\<^verbatim>\<open>ukfusefs/fuse_queue.c\<close>) and waits on the semaphore in the request. The daemon thread
  (\<^verbatim>\<open>ukfusefs/fuse_daemon.c\<close>) pops the request, encodes it as a FUSE message and hands it to the low-level library
  (\<^verbatim>\<open>libfuse/lib/fuse_lowlevel.c\<close>), which checks and decodes it and calls an operation of the file system
  (\<^verbatim>\<open>apps/*/hello_ll.c\<close>). The operation answers with a reply function of the library; the ported ones store the result
  in the driver's request and raise its semaphore. The file system is started by its main function, which parses the
  command line (\<^verbatim>\<open>fuse_opt.c\<close>, \<^verbatim>\<open>helper.c\<close>), creates a session and registers it; mounting starts the daemon for it.

  \<^bold>\<open>Theories and sources.\<close>
  \<^item> \<open>Fuse_Prelude\<close>: bytes and little-endian fields, C strings, words, lists; the collections the proofs share.
  \<^item> \<open>Fuse_Kernel\<close>: the wire format of \<^verbatim>\<open>fuse_kernel.h\<close>. \<open>Fuse_Common\<close>: the data of \<^verbatim>\<open>fuse_common.h\<close>, \<^verbatim>\<open>fuse_lowlevel.h\<close>
    and the driver's request of \<^verbatim>\<open>uk/fuse.h\<close>.
  \<^item> \<open>Fuse_Queue\<close>: \<^verbatim>\<open>fuse_queue.c\<close>, once as functions and once as the steps of threads with mutex and semaphore.
  \<^item> \<open>Fuse_Ring\<close>: the intrusive lists of requests, field by field. \<open>Fuse_World\<close>: the session and the store of requests,
    with reference counts, allocation failures and faults.
  \<^item> \<open>Fuse_Convert\<close>, \<open>Fuse_Reply\<close>, \<open>Fuse_Ops\<close>, \<open>Fuse_Interrupt\<close>, \<open>Fuse_Init\<close>, \<open>Fuse_Notify\<close>, \<open>Fuse_Dispatch\<close>: \<^verbatim>\<open>fuse_lowlevel.c\<close> in the
    order of its parts: conversions, replies, handlers, interrupts, INIT, notifications, opcode tables and dispatch.
  \<^item> \<open>Fuse_Buffer\<close>: \<^verbatim>\<open>buffer.c\<close>. \<open>Fuse_Data\<close>: the replies and notifications of \<^verbatim>\<open>fuse_lowlevel.c\<close> that carry buffer vectors.
    \<open>Fuse_Splice\<close>, \<open>Fuse_Splice_Recv\<close>: sending and receiving through a pipe, which a build for Linux has and the port has not. The locale
    \<open>pipes\<close> says what the system calls on pipes promise, \<open>splice_device\<close> extends it by the device; a system of queues is the interpretation.
  \<^item> \<open>Fuse_Opt\<close>: \<^verbatim>\<open>fuse_opt.c\<close>. \<open>Fuse_Helper\<close>: \<^verbatim>\<open>helper.c\<close> and the stubs it calls. \<open>Fuse_Session\<close>: receiving, custom I/O,
    registration, the end of a session, and the main function of the file systems.
  \<^item> \<open>Fuse_Daemon\<close>: \<^verbatim>\<open>fuse_daemon.c\<close>, and the contract of a file system (the locale \<open>replying_ops\<close>) under which the daemon is
    proved to refine an abstract service.
  \<^item> \<open>Hello_LL\<close>, \<open>Hello_Perf\<close>: the file systems of the test and of the performance application, each an instance of the
    contract (interpretations \<open>hello\<close> and \<open>perf\<close>).
  \<^item> \<open>Ukfs_Fuse\<close>: the driver. \<open>Fuse_System\<close>: the whole path for one caller (the locale \<open>readable_ops\<close> extends the contract by the
    content of files). \<open>Fuse_Concurrent\<close>: any number of callers and the daemon, interleaved.
    \<open>Fuse_Readers\<close>: on top of it, threads in the whole of \<^verbatim>\<open>fusefs_read\<close>, which may open the same file together.
  \<^item> \<open>Fuse_Tree\<close>: lookup, attributes and listing for every file system with a tree of files (the locale \<open>tree_ops\<close>, with the
    interpretations \<open>hello_tree\<close> and \<open>perf_tree\<close>). \<open>Fuse_Typed\<close>: the types of the answers behind the untyped reply pointer.
  \<^item> \<open>Posix_Driver\<close>: the POSIX interface, with what the programs rely on in terms of the driver's operations (the locale
    \<open>posix_driver\<close>), and rules for its calls. \<open>Test_Programs\<close>: the common parts of the test programs and \<^verbatim>\<open>apps/fuse-test/main.c\<close>.
    \<open>Correctness_Suite\<close>, \<open>Perf_Suite\<close>: the programs of \<^verbatim>\<open>fuse-correctness-test\<close> and \<^verbatim>\<open>fuse-perf-test\<close>. \<open>Posix_Reference\<close>: a
    system that satisfies the laws. \<open>Test_Results\<close>: the outcome of the three programs.
  \<^item> \<open>Hello_Linux\<close>, \<open>Linux_Baseline\<close>: the programs that the performance is compared with on a Linux host, the file system
    \<^verbatim>\<open>linux_hello_ll.c\<close> (interpretations \<open>linux\<close> and \<open>linux_files\<close>) and the benchmarks \<^verbatim>\<open>linux_baseline.c\<close>.
  \<^item> \<open>Fuse_Groups\<close>: the groups of a process. \<open>Fuse_Support\<close>: logging, the shims for threads and semaphores, passthrough files, opcode
    names, the remaining stubs and texts.
  \<^item> This theory: properties of the whole path.

  \<^bold>\<open>State and effects.\<close> \<open>fuse_world\<close> holds the session, the library's requests and their list links, the driver's requests
  (\<open>ukfs\<close>) by address, what was written to the device, and the first fault: an access out of bounds or after free, a
  failed assertion, or a reply read at another type. Operations take the world and return it changed; results are the
  code's integers at their width where it matters, the driver's operations return \<open>None\<close> when they never return. An address is a
  number; \<open>brk\<close> is the next unused one.

  \<^bold>\<open>Parameters.\<close> What is not under \<^verbatim>\<open>src/\<close> is an argument: \<open>platform\<close> (which allocations succeed, contents of fresh memory,
  results of writes to the device and of reads from a pipe, sizes of C structures), \<open>os_fd\<close> (reading and writing
  descriptors), \<open>ukfs_consts\<close> (numbers of Unikraft's headers), \<open>opt_env\<close> (allocation and \<^verbatim>\<open>sscanf\<close> for the option parser),
  \<open>daemon_os\<close>, the addresses of the C library's allocator, the results of reads from the device, the \<^verbatim>\<open>/proc\<close> files of a process, \<open>pipe_os\<close> (pipes and \<^verbatim>\<open>splice\<close>), and
  \<open>posix\<close>: the file functions, threads and counter that the test programs call. The laws of \<open>posix_driver\<close> say which calls of the driver
  a file function makes and what it does with their results; they are shown to hold together by \<open>Posix_Reference\<close>, for both file
  systems.

  \<^bold>\<open>What is shown.\<close>
  \<^item> Concurrency: the queue loses, duplicates and reorders nothing and no wake-up is lost; in every interleaving of callers and
    daemon each call returns, within a bounded number of steps, with the answer to its own input; reads that open the same file
    together all return its bytes.
  \<^item> The path: the daemon's encoding, the library's decoding and dispatch are one call of the file system's operation; the daemon
    refines the abstract service; read, lookup, attributes and listing through the driver return the content of the file system.
  \<^item> The library: each ported reply completes the driver's request exactly once; rejected requests are answered; reference counts,
    request lists, interrupts and retrievals keep their invariants; copying between buffer vectors moves the right bytes, and the
    effect on memory is given for vectors that overlap too; a reply with a buffer vector at any position equals one with the bytes
    that it has left, also through a pipe, whichever way back to memory the code takes; a request
    received through a pipe is taken once and whole; directory entries and locks make round trips; time-outs and limits are in bounds.
  \<^item> The start: options survive the option string and the parser, the command line sets its fields, connection options
    their capabilities; receiving a request returns and leaks nothing; the main function leaves a live registered session with \<^verbatim>\<open>-s\<close>.
  \<^item> The programs: on every system with those laws, the functional test and all 24 tests of the correctness suite pass, the
    performance test ends, its throughput benchmark reads what it reports, and its percentiles are the samples of their ranks.
    The programs for Linux are comparable: their file system answers with the same data, their benchmarks make the same calls and samples.
  \<^item> Types: every answer that the daemon leaves is of the type that the driver reads for its opcode.
  \<^item> Where the code falls short of its intention, a theorem says so: replies and failures that never wake the driver, lengths and
    offsets that are cut or not checked, a freed session that stays registered, an INIT that cannot succeed, lost capability flags.

  \<^bold>\<open>Conditions.\<close> The properties of whole calls start from a world that is \<open>ready\<close>: initialised, its lists well formed, without a fault, with an
  allocator that does not fail; and from requests that the file system serves (\<open>hello_serves\<close>: reads of the regular file, offsets that
  are not negative) with names that fit into the daemon's buffer (\<open>name_ok\<close>: shorter than 8152 bytes, no zero byte). Reads are of
  together less than 4 GiB. What happens outside of these conditions is stated by theorems of their own: for a failing allocation, a longer
  name, a read of 4 GiB, and a negative offset.

  \<^bold>\<open>Bounds and fuel.\<close> \<open>daemon_run\<close> makes a given number of iterations; the properties use as many as there are requests.
  \<open>await_done\<close> is a partial function whose value \<open>None\<close> is that the caller waits for ever, and calls are proved to return.
  \<open>list_directory\<close> calls at most as often as its fuel says; four calls are enough for the three entries of the test file system
  and the end. Receiving consumes a list of reads, and blocks when it is used up.

  \<open>read_until\<close>, \<open>while_readdir\<close>, \<open>wait_registered\<close> and \<open>getgroups_try\<close> are partial functions too, and are proved to return. The main
  function of \<^verbatim>\<open>linux_hello_ll.c\<close> is the sequence of its library calls, given their results.

  \<^bold>\<open>Not modelled.\<close> io-uring beyond its stubs. Messages of \<^verbatim>\<open>fuse_log\<close> in the library's functions are left out. The daemon's handling
  of one request is one step in \<open>Fuse_Concurrent\<close>. Of the driver's operations, \<^verbatim>\<open>fusefs_read\<close> is the one that writes to a shared driver
  file, and the one whose body is interleaved (\<open>Fuse_Readers\<close>, with each access to the file one step); of the others the concurrent
  system has the requests.
\<close>

section \<open>Mounting\<close>

text \<open>Mounting after a session has been created and registered gives a root file with the FUSE root
  inode, not yet opened, an empty request queue served by a daemon, and a well-formed library state
  without a fault.\<close>

lemma mount_gives_served_system:
  assumes "fuse_session_new_versioned p fs True sz ud = Some w" and "\<forall>n. malloc_ok p n"
  shows "\<exists>f s'. fusefs_vopen True (True, True, True) (boot_sys w) = (Some f, True, s') \<and>
    sy_files s' f = Some \<lparr>ff_nodeid = FUSE_ROOT_ID, ff_fh = FH_NONE, ff_upref = None\<rparr> \<and>
    sys_ok hello_serves s' []"
proof -
  obtain s' where "fusefs_vopen True (True, True, True) (boot_sys w) = (Some (brk w), True, s')"
    "sys_ok hello_serves s' []" "sy_files s' = [brk w \<mapsto> \<lparr>ff_nodeid = 1, ff_fh = FH_NONE, ff_upref = None\<rparr>]"
    using vopen_ok [OF session_new_ready [OF assms], of hello_serves] by metis
  then show ?thesis by auto
qed

section \<open>The driver's operations on the test file system\<close>

text \<open>\<^bold>\<open>C6\<close> Reading the file through the driver, at any non-negative offset and into any list of buffers
  of together less than 4 GiB, returns: the buffers are filled in order, none beyond its length, with
  the bytes of the file from the offset on, and the return value is their number. The file is opened
  first if it is not open. This holds whatever requests are queued before, no fault occurs, and the driver's files
  stay the files of their nodes.\<close>

theorem fusefs_read_content:
  assumes s: "sys_ok hello_serves s ps" and f: "sy_files s f = Some ff" "ff_nodeid ff = 2"
    and off: "0 \<le>s off" and total: "sum_list (map unat iov) < 2 ^ 32"
  shows "\<exists>parts s'. fusefs_read hello_ll_oper f iov off s = Some (int (length (concat parts)), parts, s') \<and>
    concat parts = take (sum_list (map unat iov)) (drop (unat off) hello_str) \<and>
    length parts \<le> length iov \<and> (\<forall>i < length parts. length (parts ! i) \<le> unat (iov ! i)) \<and>
    (sys_ok hello_serves s' [] \<or> s' = s) \<and> nodes s' = nodes s"
  using hello_files.read_content [OF s f(1) _ off total, of hello_str] f(2) by (auto simp: hello_content_def)

theorem fusefs_read_content_witness:
  "\<exists>parts s'. fusefs_read hello_ll_oper 11 [5, 100] 6 demo_sys = Some (int (length (concat parts)), parts, s') \<and>
    concat parts = take (sum_list (map unat [5, 100 :: u64])) (drop (unat (6 :: u64)) hello_str) \<and>
    length parts \<le> length [5, 100 :: u64] \<and> (\<forall>i < length parts. length (parts ! i) \<le> unat ([5, 100 :: u64] ! i)) \<and>
    (sys_ok hello_serves s' [] \<or> s' = demo_sys) \<and> nodes s' = nodes demo_sys"
  by (rule fusefs_read_content [OF demo_sys_ok demo_sys_files(2)]) (simp_all add: word_sle_eq)

text \<open>\<^bold>\<open>C13\<close> A lookup of a name that is not one of the driver's special paths (and that fits the
  daemon's buffer: shorter than 8152 bytes) finds exactly the file of the root directory: the result is a new driver file (at an address not used before) for inode 2 with one reference, and every other
  name or directory gives \<open>-ENOENT\<close> and leaves the driver's files as they were.\<close>

theorem fusefs_lookup_result:
  assumes s: "sys_ok hello_serves s ps" and f: "sy_files s f = Some ff"
    and path: "path \<noteq> []" "path \<noteq> bytes_of ''.''" "path \<noteq> bytes_of ''..''"
    and len: "length path < FUSE_DAEMON_BUF_SIZE - 40"
  defines "found \<equiv> ff_nodeid ff = 1 \<and> takeWhile (\<lambda>b. b \<noteq> 0) path = hello_name"
  shows "\<exists>res target s'. fusefs_lookup uc hello_ll_oper f path s = Some (res, target, s') \<and>
    sys_ok hello_serves s' [] \<and>
    (if found
     then res = UKFS_STOP_FILE uc \<and> (\<exists>c. target = Some (c, length path) \<and> brk (sy_w s) \<le> c \<and>
       sy_files s' = (sy_files s)(c \<mapsto> \<lparr>ff_nodeid = 2, ff_fh = FH_NONE, ff_upref = None\<rparr>) \<and>
       sy_refs s' = (sy_refs s)(c := 1))
     else res = - ENOENT \<and> target = None \<and> sy_files s' = sy_files s \<and> sy_refs s' = sy_refs s)"
proof -
  have "nodes s f = Some (ff_nodeid ff)" using f by simp
  from hello_tree.lookup [OF s this path len, of uc] obtain s' where s': "sys_ok hello_serves s' []"
    "case hello_child (ff_nodeid ff) (takeWhile (\<lambda>b. b \<noteq> 0) path) of
       None \<Rightarrow> fusefs_lookup uc hello_ll_oper f path s = Some (- ENOENT, None, s') \<and> sy_files s' = sy_files s \<and> sy_refs s' = sy_refs s
     | Some c \<Rightarrow> (\<exists>a. fusefs_lookup uc hello_ll_oper f path s = Some (UKFS_STOP_FILE uc, Some (a, length path), s') \<and>
         brk (sy_w s) \<le> a \<and> a < brk (sy_w s') \<and>
         sy_files s' = (sy_files s)(a \<mapsto> \<lparr>ff_nodeid = c, ff_fh = FH_NONE, ff_upref = None\<rparr>) \<and> sy_refs s' = (sy_refs s)(a := 1))"
    by blast
  then show ?thesis by (cases found) (auto simp: found_def hello_child_def)
qed

theorem fusefs_lookup_result_witness:
  "\<exists>res target s'. fusefs_lookup demo_consts
      hello_ll_oper 10 hello_name demo_sys = Some (res, target, s') \<and> sys_ok hello_serves s' [] \<and>
    res = 1 \<and> (\<exists>c. target = Some (c, 5) \<and> brk (sy_w demo_sys) \<le> c \<and>
       sy_files s' = (sy_files demo_sys)(c \<mapsto> \<lparr>ff_nodeid = 2, ff_fh = FH_NONE, ff_upref = None\<rparr>) \<and>
       sy_refs s' = (sy_refs demo_sys)(c := 1))"
proof -
  have n: "takeWhile (\<lambda>b. b \<noteq> 0) hello_name = hello_name" "hello_name \<noteq> []"
    "hello_name \<noteq> bytes_of ''.''" "hello_name \<noteq> bytes_of ''..''"
    by (simp_all add: hello_name_def bytes_of_def)
  show ?thesis
    using fusefs_lookup_result [OF demo_sys_ok demo_sys_files(1) n(2-4), where uc = demo_consts]
    by (simp add: n demo_consts_def)
qed

text \<open>\<^bold>\<open>C14\<close> Asking for the attributes of a driver file returns those of the inode: mode, size, links and inode
  number of the directory and of the file, and \<open>-ENOENT\<close> for every other inode.\<close>

theorem fusefs_getstat_result:
  assumes s: "sys_ok hello_serves s ps" and f: "sy_files s f = Some ff"
  shows "\<exists>res st s'. fusefs_getstat uc hello_ll_oper f s = Some (res, st, s') \<and>
    sys_ok hello_serves s' [] \<and> sy_files s' = sy_files s \<and>
    (if ff_nodeid ff = 1 \<or> ff_nodeid ff = 2
     then res = 0 \<and> (\<exists>x. st = Some x \<and> stx_ino x = ff_nodeid ff \<and>
       stx_mode x = (if ff_nodeid ff = 1 then 0x41ED else 0x8124) \<and>
       stx_nlink x = (if ff_nodeid ff = 1 then 2 else 1) \<and>
       stx_size x = (if ff_nodeid ff = 1 then 0 else of_nat (length hello_str)))
     else res = - ENOENT \<and> st = None)"
proof -
  have "nodes s f = Some (ff_nodeid ff)" using f by simp
  from hello_tree.getstat [OF s this, of uc] show ?thesis
    by (auto simp: hello_attr_def hello_stat_def Let_def zero_stat_def split: if_splits)
qed

theorem fusefs_getstat_result_witness:
  "\<exists>res st s'. fusefs_getstat demo_consts
      hello_ll_oper 11 demo_sys = Some (res, st, s') \<and> sys_ok hello_serves s' [] \<and> res = 0 \<and>
    (\<exists>x. st = Some x \<and> stx_ino x = 2 \<and> stx_mode x = 0x8124 \<and> stx_size x = 13)"
  using fusefs_getstat_result [OF demo_sys_ok demo_sys_files(2), where uc = demo_consts]
  by auto

text \<open>\<^bold>\<open>C12\<close> Listing the root directory from cursor 0, into a buffer that holds each record, ends after four
  calls and yields the three entries in order: the directory itself, its parent and the file, each
  with the cursor of the next one. The cursor is the byte offset in the FUSE directory stream.\<close>

theorem fusefs_listdir_lists_directory:
  assumes s: "sys_ok hello_serves s ps" and f: "sy_files s f = Some ff" "ff_nodeid ff = 1"
    and len: "\<forall>n \<in> {1, 2, 5}. 0 < UKFS_DIRENT_RECLEN uc n \<and> UKFS_DIRENT_RECLEN uc n \<le> len"
  shows "\<exists>s'. list_directory uc hello_ll_oper f len 4 0 s =
      Some (0, [dirent_of uc 1 32 (bytes_of ''.''), dirent_of uc 1 64 (bytes_of ''..''), dirent_of uc 2 96 hello_name], s') \<and>
    sys_ok hello_serves s' []"
proof -
  let ?es = "[(1, bytes_of ''.''), (1, bytes_of ''..''), (2, hello_name)] :: dir_entry list"
  have d: "hello_entries 1 = Some ([] @ ?es)" by (simp add: hello_entries_def)
  have n: "nodes s f = Some 1" using f by simp
  have "\<exists>s'. list_directory uc hello_ll_oper f len (Suc (length ?es)) (of_nat (dir_offset [])) s =
      Some (0, listing uc (dir_offset []) ?es, s') \<and> sys_ok hello_serves s' []"
    by (rule hello_tree.list_directory_entries [OF s n d]) (use len in auto)
  moreover have "Suc (length ?es) = 4" "(of_nat (dir_offset []) :: u64) = 0" by simp_all
  moreover have "listing uc (dir_offset []) ?es =
      [dirent_of uc 1 32 (bytes_of ''.''), dirent_of uc 1 64 (bytes_of ''..''), dirent_of uc 2 96 hello_name]"
    by (simp add: dirent_size_def)
  ultimately show ?thesis by (simp only:)
qed

theorem fusefs_listdir_lists_directory_witness:
  "\<exists>s'. list_directory demo_consts hello_ll_oper 10 100 4 0 demo_sys =
      Some (0, [dirent_of demo_consts 1 32 (bytes_of ''.''), dirent_of demo_consts 1 64 (bytes_of ''..''),
        dirent_of demo_consts 2 96 hello_name], s') \<and>
    sys_ok hello_serves s' []"
  by (rule fusefs_listdir_lists_directory [OF demo_sys_ok demo_sys_files(1)]) (simp_all add: demo_consts_def)

section \<open>Properties\<close>

section \<open>The daemon on the test file system\<close>

text \<open>\<^bold>\<open>C7\<close> The daemon refines the abstract service of the test file system: started with any queue of
  well-formed requests it can serve, as many iterations as there are requests leave the queue empty and
  every request answered with the content of the file system, in the order of the queue.\<close>

theorem daemon_refines_service:
  assumes "serving hello_serves s ps"
  shows "serving hello_serves (daemon_run hello_ll_oper (length ps) s) [] \<and>
    ukfs (ds_w (daemon_run hello_ll_oper (length ps) s)) =
      fst (serve_all hello_answer (plat (ds_w s)) ps (ukfs (ds_w s), fsmem (ds_w s)))"
  using hello.daemon_serves_queue [OF assms] by (metis fst_conv)

theorem daemon_refines_service_witness:
  defines "q \<equiv> fresh_request FUSE_UKFS_OPEN 1 (In_open 2 0)"
  defines "s \<equiv> \<lparr>ds_q = fuse_ukfs_queue_push fuse_ukfs_queue_init 3, ds_buf = replicate 8192 0, ds_w = demo_world\<lparr>ukfs := [3 \<mapsto> q]\<rparr>\<rparr>"
  shows "ukfs (ds_w (daemon_run hello_ll_oper 1 s)) = [3 \<mapsto> set_answer 0 (ROpen zero_open_out) 16 q]"
proof -
  have "wf_world (ds_w s) [] []"
    using wf_session_new [OF demo_world_new] unfolding s_def by (subst wf_world_cong [of _ demo_world]) auto
  then have "ready (ds_w s)" using demo_world_ready by (simp add: ready_def s_def)
  then have "serving hello_serves s [3]"
    by (simp add: serving_def s_def q_def fresh_request_def wf_request_def fuse_ukfs_queue_push_def
        fuse_ukfs_queue_init_def queue_ok_def)
  from daemon_refines_service [OF this] show ?thesis
    by (simp add: s_def q_def fresh_request_def)
qed

text \<open>\<^bold>\<open>C36\<close> When the library cannot allocate its request, the driver is never woken: with no other request in the
  queue, and a name, if any, that fits the daemon's buffer, the daemon's iteration writes the error message (\<open>-ENOMEM\<close> for the request's number) to the device, where the write does
  not fail, and leaves the driver's request unanswered, with its semaphore at 0; there is no further iteration, and the call of the
  driver does not return.\<close>

theorem no_memory_hangs_driver:
  assumes q: "q_head (ds_q (sy_d s)) = []" "queue_ok (ds_q (sy_d s))"
    and b: "length (ds_buf (sy_d s)) = FUSE_DAEMON_BUF_SIZE" and i: "name_ok inp"
    and m: "\<not> malloc_ok (plat (sy_w s)) (nmalloc (sy_w s))"
  defines "p \<equiv> brk (sy_w s)" and "r \<equiv> fresh_request (ukfs_opcode_of inp) (sy_unique s) inp"
  defines "d \<equiv> (sy_d s)\<lparr>ds_w := (sy_w s)\<lparr>brk := p + 1, ukfs := (ukfs (sy_w s))(p \<mapsto> r)\<rparr>, ds_q := fuse_ukfs_queue_push (ds_q (sy_d s)) p\<rparr>"
  shows "(\<exists>d'. daemon_iteration op d = Some d' \<and>
      dev_out (ds_w d') = dev_out (sy_w s) @
        (case writev_errno (plat (sy_w s)) (nwrites (sy_w s)) of
           None \<Rightarrow> [(ChFd p, enc_fuse_out_header 16 (of_int (- ENOMEM)) (sy_unique s))]
         | Some _ \<Rightarrow> []) \<and>
      ukfs (ds_w d') p = Some r \<and> ur_done r = 0 \<and> daemon_iteration op d' = None) \<and>
    client_call op (ukfs_opcode_of inp) inp s = None"
proof -
  let ?w = "(sy_w s)\<lparr>brk := p + 1, ukfs := (ukfs (sy_w s))(p \<mapsto> r)\<rparr>"
  have wfr: "wf_request r" using i by (simp add: wf_request_def fresh_request_def r_def)
  let ?b = "wire_buf r (ds_buf (sy_d s))"
  let ?w' = "process_in op (mem_buf ?b (ucast (ih_len (wire_header r)))) (Some p) ?b ?w"
  have h: "daemon_handle op p (ds_buf (sy_d s)) ?w = (?b, ?w')"
    by (rule daemon_handle_encodes) (use wfr b in simp_all)
  have sent: "?w' = snd (fuse_send_msg (Some p) (ur_unique r) (- ENOMEM) [] None (?w\<lparr>nmalloc := nmalloc ?w + 1\<rparr>))"
    by (rule process_in_no_memory [OF _ wire_buf_header(1-5)]) (use m in simp)
  have u: "ukfs ?w' = ukfs ?w" unfolding sent by (simp add: ukfs_fuse_send_msg)
  have out: "dev_out ?w' = dev_out (sy_w s) @ (case writev_errno (plat (sy_w s)) (nwrites (sy_w s)) of
       None \<Rightarrow> [(ChFd p, enc_fuse_out_header 16 (of_int (- ENOMEM)) (sy_unique s))] | Some _ \<Rightarrow> [])"
    unfolding sent by (simp add: fuse_send_msg_def fuse_write_msg_dev_def iov_length_def r_def fresh_request_def split: option.splits)
  have pop: "fuse_ukfs_queue_pop (fuse_ukfs_queue_push (ds_q (sy_d s)) p) = Popped p \<lparr>q_head = [], q_count = 0\<rparr>"
    using q by (simp add: fuse_ukfs_queue_push_def fuse_ukfs_queue_pop_def queue_ok_def Let_def)
  let ?d' = "d\<lparr>ds_q := \<lparr>q_head = [], q_count = 0\<rparr>, ds_buf := ?b, ds_w := ?w'\<rparr>"
  have it: "daemon_iteration op d = Some ?d'" using pop h by (simp add: daemon_iteration_def d_def)
  have stop: "daemon_iteration op ?d' = None" by (simp add: daemon_iteration_def fuse_ukfs_queue_pop_def Let_def)
  have "await_done op p d = None"
    using u it stop by (subst await_done.simps, simp add: d_def r_def fresh_request_def) (subst await_done.simps, simp add: r_def fresh_request_def)
  then have "client_call op (ukfs_opcode_of inp) inp s = None"
    by (simp add: client_call_def sys_w_def Let_def fresh_request_def p_def r_def d_def)
  moreover have "ukfs (ds_w ?d') p = Some r \<and> ur_done r = 0" using u by (simp add: r_def fresh_request_def)
  ultimately show ?thesis using it stop out by (intro conjI exI [of _ ?d']) simp_all
qed

theorem no_memory_hangs_driver_witness:
  defines "s \<equiv> boot_sys (demo_world\<lparr>plat := demo_platform\<lparr>malloc_ok := \<lambda>_. False\<rparr>\<rparr>)"
  shows "client_call hello_ll_oper FUSE_UKFS_GETATTR (In_getattr 1) s = None"
  using no_memory_hangs_driver [of s "In_getattr 1" hello_ll_oper]
  by (simp add: s_def boot_sys_def fuse_ukfs_queue_init_def queue_ok_def)

text \<open>\<^bold>\<open>C38\<close> The driver sends the low 32 bits of the total length: a read of exactly 4 GiB of an open file asks for
  nothing and returns 0, which the caller takes for the end of the file.\<close>

theorem fusefs_read_truncates_length:
  assumes s: "sys_ok hello_serves s ps" and f: "sy_files s f = Some ff" "ff_nodeid ff = 2" "ff_fh ff \<noteq> FH_NONE"
    and off: "0 \<le>s off" and total: "iov_total iov = 0x100000000"
  shows "\<exists>s'. fusefs_read hello_ll_oper f iov off s = Some (0, [], s')"
proof -
  have b: "window hello_str off 0 = []" by (simp add: window_def)
  have a: "hello_answer (In_read 2 (ff_fh ff) off 0) (plat (sy_w s)) (fsmem (sy_w s)) = (0, RBytes [], 0, fsmem (sy_w s))"
    by (simp add: b)
  obtain q s1 where c: "client_call hello_ll_oper FUSE_UKFS_READ (In_read 2 (ff_fh ff) off 0) s = Some (q, s1)"
    "ur_error q = 0" "ur_reply_data q = RBytes []" "ur_reply_len q = 0"
    by (rule hello_call [OF s _ _ a]) (use off in simp_all)
  have "scatter ns [] = []" for ns by (cases ns) simp_all
  moreover have "ucast (iov_total iov) = (0 :: u32)" unfolding total by (rule unsigned_word_eqI) simp
  moreover have "iov_total iov \<noteq> 0" using total by simp
  ultimately show ?thesis using f c by (simp add: fusefs_read_def Let_def)
qed

theorem fusefs_read_truncates_length_witness:
  defines "s \<equiv> demo_sys\<lparr>sy_files := [11 \<mapsto> \<lparr>ff_nodeid = 2, ff_fh = 0, ff_upref = None\<rparr>]\<rparr>"
  shows "\<exists>s'. fusefs_read hello_ll_oper 11 [0x80000000, 0x80000000] 0 s = Some (0, [], s')"
proof -
  have "sys_ok hello_serves s []" using demo_sys_ok [of hello_serves] by (simp add: sys_ok_def s_def)
  then show ?thesis
    by (rule fusefs_read_truncates_length [where ff = "\<lparr>ff_nodeid = 2, ff_fh = 0, ff_upref = None\<rparr>"]) (simp_all add: s_def iov_total_def word_sle_eq)
qed

text \<open>\<^bold>\<open>C35\<close> Only five of the library's replies (\<^verbatim>\<open>fuse_reply_err\<close>, \<^verbatim>\<open>_entry\<close>, \<^verbatim>\<open>_attr\<close>, \<^verbatim>\<open>_open\<close>, \<^verbatim>\<open>_buf\<close>) are ported to
  the driver. A file system whose operation answers a request of the driver (with a name that fits the daemon's buffer, if any) with
  one of the replies that are not (\<^verbatim>\<open>fuse_reply_iov\<close>, \<^verbatim>\<open>_create\<close>, \<^verbatim>\<open>_readlink\<close>, \<^verbatim>\<open>_write\<close>, \<^verbatim>\<open>_statfs\<close>, \<^verbatim>\<open>_xattr\<close>, \<^verbatim>\<open>_lock\<close>, \<^verbatim>\<open>_bmap\<close>,
  \<^verbatim>\<open>_ioctl_retry\<close>, \<^verbatim>\<open>_ioctl\<close>, \<^verbatim>\<open>_ioctl_iov\<close>, \<^verbatim>\<open>_poll\<close>, \<^verbatim>\<open>_lseek\<close>, \<^verbatim>\<open>_statx\<close>, \<^verbatim>\<open>_none\<close>), after any computation on its own memory, blocks
  the driver: in a system that is ready, with an allocator that does not fail and an empty queue, the call does not return.\<close>

theorem unported_reply_hangs_driver:
  assumes s: "sys_ok serves s []" and i: "name_ok inp"
    and op: "\<forall>rest. op_call op (brk (sy_w s) + 1) inp rest = Some (\<lambda>w. give_reply (R rest w) (brk (sy_w s) + 1) (w\<lparr>fsmem := M rest w\<rparr>))"
  shows "client_call op (ukfs_opcode_of inp) inp s = None"
proof -
  let ?p = "brk (sy_w s)" let ?r = "fresh_request (ukfs_opcode_of inp) (sy_unique s) inp"
  let ?w = "(sy_w s)\<lparr>brk := ?p + 1, ukfs := (ukfs (sy_w s))(?p \<mapsto> ?r)\<rparr>"
  let ?d = "(sy_d s)\<lparr>ds_w := ?w, ds_q := fuse_ukfs_queue_push (ds_q (sy_d s)) ?p\<rparr>"
  have S: "q_head (ds_q (sy_d s)) = []" "queue_ok (ds_q (sy_d s))" "ready (sy_w s)" "length (ds_buf (sy_d s)) = FUSE_DAEMON_BUF_SIZE"
    using s by (auto simp: sys_ok_def serving_def)
  have r: "ready ?w" by (rule ready_alloc [OF S(3)])
  have q: "ukfs ?w ?p = Some ?r" "wf_request ?r" using i by (simp_all add: wf_request_def fresh_request_def)
  let ?act = "\<lambda>rest w. give_reply (R rest w) (?p + 1) (w\<lparr>fsmem := M rest w\<rparr>)"
  have call: "\<And>rest. op_call op (brk ?w) (ur_in ?r) rest = Some (?act rest)" using op by (simp add: fresh_request_def)
  obtain rest where h: "daemon_handle op ?p (ds_buf (sy_d s)) ?w =
      (wire_buf ?r (ds_buf (sy_d s)), ?act rest (accepted ?p (daemon_req ?p ?r) ?w))"
    using daemon_handle_calls [OF r q S(4) call] by blast
  have "\<forall>n. malloc_ok (plat (sy_w s)) n" using S(3) by (simp add: ready_def)
  then have u: "ukfs (?act rest (accepted ?p (daemon_req ?p ?r) ?w)) = ukfs ?w" by (subst device_replies_do_not_wake) simp_all
  have pop: "fuse_ukfs_queue_pop (fuse_ukfs_queue_push (ds_q (sy_d s)) ?p) = Popped ?p \<lparr>q_head = [], q_count = 0\<rparr>"
    using S(1,2) by (simp add: fuse_ukfs_queue_push_def fuse_ukfs_queue_pop_def queue_ok_def Let_def)
  let ?d' = "?d\<lparr>ds_q := \<lparr>q_head = [], q_count = 0\<rparr>, ds_buf := wire_buf ?r (ds_buf (sy_d s)),
    ds_w := ?act rest (accepted ?p (daemon_req ?p ?r) ?w)\<rparr>"
  have "daemon_iteration op ?d = Some ?d'" using pop h by (simp add: daemon_iteration_def)
  moreover have "daemon_iteration op ?d' = None" by (simp add: daemon_iteration_def fuse_ukfs_queue_pop_def Let_def)
  ultimately have "await_done op ?p ?d = None"
    using u by (subst await_done.simps, simp add: fresh_request_def) (subst await_done.simps, simp add: fresh_request_def)
  then show ?thesis by (simp add: client_call_def sys_w_def Let_def fresh_request_def)
qed

theorem unported_reply_hangs_driver_witness:
  "client_call (no_ops\<lparr>op_read := Some (\<lambda>a ino sz off fi w. snd (fuse_reply_iov a [hello_str] w))\<rparr>) FUSE_UKFS_READ
     (In_read 2 0 0 100) demo_sys = None"
proof -
  have "w\<lparr>fsmem := ()\<rparr> = w" for w :: "unit fuse_world" by (cases w) simp
  then have "(\<lambda>w :: unit fuse_world. snd (fuse_reply_iov a [hello_str] w)) = (\<lambda>w. snd (fuse_reply_iov a [hello_str] (w\<lparr>fsmem := ()\<rparr>)))" for a
    by (intro ext) metis
  then show ?thesis
    using unported_reply_hangs_driver [OF demo_sys_ok, of "In_read 2 0 0 100" "no_ops\<lparr>op_read := Some (\<lambda>a ino sz off fi w. snd (fuse_reply_iov a [hello_str] w))\<rparr>"
      "\<lambda>_ _. Reply_iov [hello_str]" "\<lambda>_ _. ()"] by simp
qed

text \<open>Mounting over a directory: grafting takes one reference of the covered file, the parent path of the
  mounted root is then that file, with a reference for the caller, and releasing the root gives the
  reference of the graft back. Grafting twice fails the driver's assertion.\<close>

lemma graft_parent_release:
  assumes "sy_files s f = Some ff" and "ff_upref ff = None" and "f \<noteq> r" and "fault (sy_w s) = None"
  defines "s1 \<equiv> snd (fusefs_graft f r s)"
  shows "fst (fusefs_graft f r s) = 0 \<and>
    (\<exists>s2. fusefs_lookup uc op f (bytes_of ''..'') s1 = Some (UKFS_STOP_MNT uc, Some (r, 2), s2) \<and>
       sy_refs s2 r = sy_refs s r + 2) \<and>
    sy_refs (fusefs_release f True s1) = sy_refs s \<and> sy_files (fusefs_release f True s1) f = None \<and>
    fault (sy_w (snd (fusefs_graft f r s1))) = Some AssertFail"
proof -
  have s1: "s1 = s\<lparr>sy_refs := (sy_refs s)(r := sy_refs s r + 1), sy_files := (sy_files s)(f \<mapsto> ff\<lparr>ff_upref := Some r\<rparr>)\<rparr>"
    using assms by (simp add: fusefs_graft_def uk_file_acquire_def Let_def)
  have n: "bytes_of ''..'' \<noteq> []" "bytes_of ''..'' \<noteq> bytes_of ''.''" "length (bytes_of ''..'') = 2"
    by (simp_all add: bytes_of_def)
  have "fusefs_lookup uc op f (bytes_of ''..'') s1 = Some (UKFS_STOP_MNT uc, Some (r, 2), uk_file_acquire r s1)"
    using n by (simp add: fusefs_lookup_def s1)
  moreover have "sy_refs (uk_file_acquire r s1) r = sy_refs s r + 2" by (simp add: uk_file_acquire_def s1)
  ultimately show ?thesis
    using assms by (auto simp: s1 fusefs_graft_def uk_file_acquire_def Let_def fusefs_release_def sys_fault_def sys_w_def raise_fault_def)
qed

section \<open>INIT\<close>

text \<open>Nothing before the check of \<open>max_read\<close> changes it.\<close>

lemma max_read_ll_set_default [simp]: "max_read (conn (ll_set_default b f w)) = max_read (conn w)"
  by (simp add: ll_set_default_def fuse_set_feature_flag_def se_mod_def)

lemma max_read_init_defaults [simp]: "max_read (conn (init_defaults op w)) = max_read (conn w)"
  by (simp add: init_defaults_def Let_def)

lemma max_read_conn_mod [simp]: "(\<And>c. max_read (f c) = max_read c) \<Longrightarrow> max_read (conn (conn_mod f w)) = max_read (conn w)"
  by (simp add: conn_mod_def se_mod_def)

lemma max_read_convert [simp]: "max_read (conn (snd (fuse_convert_to_conn_want_ext w))) = max_read (conn w)"
  by (simp add: fuse_convert_to_conn_want_ext_def Let_def)

lemma max_read_hello_init [simp]: "max_read (conn (hello_ll_init u w)) = max_read (conn w)"
  by (simp add: hello_ll_init_def Let_def)

text \<open>Nor does anything touch the requests.\<close>

definition same_requests :: "'u fuse_world \<Rightarrow> 'u fuse_world \<Rightarrow> bool" where
  "same_requests w w' \<longleftrightarrow> (\<exists>x. w' = w\<lparr>se := x\<rparr> \<and> se_error x = se_error (se w) \<and> se_mt_exited x = se_mt_exited (se w))"

lemma same_requests_refl [simp]: "same_requests w w" by (auto simp: same_requests_def intro!: exI [of _ "se w"])

lemma same_requests_trans: "same_requests w w1 \<Longrightarrow> same_requests w1 w2 \<Longrightarrow> same_requests w w2"
  by (auto simp: same_requests_def)

lemma same_requests_conn_mod: "same_requests w (conn_mod f w)"
  by (auto simp: same_requests_def conn_mod_def se_mod_def)

lemma same_requests_conn_modI: "same_requests w w1 \<Longrightarrow> same_requests w (conn_mod f w1)"
  by (rule same_requests_trans [OF _ same_requests_conn_mod])

lemma same_requests_ll_set_default: "same_requests w (ll_set_default b f w)"
  by (cases "b \<and> has_bits (capable_ext (conn w)) f"; simp add: ll_set_default_def fuse_set_feature_flag_def se_mod_def)
    (auto simp: same_requests_def)

lemma same_requests_convert: "same_requests w (snd (fuse_convert_to_conn_want_ext w))"
  by (simp add: fuse_convert_to_conn_want_ext_def Let_def same_requests_conn_modI)

lemma same_requests_hello_init: "same_requests w (hello_ll_init u w)"
  unfolding hello_ll_init_def Let_def by (meson same_requests_trans same_requests_conn_mod)

lemma same_requests_init_defaults: "same_requests w (init_defaults op w)"
  unfolding init_defaults_def Let_def by (meson same_requests_trans same_requests_ll_set_default)

lemma session_fuse_free_req: "se (fuse_free_req a w) = se w" "dev_out (fuse_free_req a w) = dev_out w"
  by (auto simp: fuse_free_req_def with_req_def deref_def req_mod_def destroy_req_def raise_fault_def Let_def fuse_chan_put_def split: option.splits)

lemma init_refuse_result:
  assumes "same_requests w w1" and "reqs w a = Some r" "rq_ukfs_req r = Some p" "ukfs w p = Some q"
  shows "se_error (se (init_refuse a w1)) = - EPROTO" "fuse_session_exited (init_refuse a w1) = 1"
    "ukfs (init_refuse a w1) = (ukfs w)(p \<mapsto> set_answer (- EPROTO) RNull 0 q)"
  using assms
  by (auto simp: init_refuse_def fuse_session_exit_def se_mod_def fuse_session_exited_def same_requests_def reply_err_def fuse_reply_err_def
      set_answer_def uk_semaphore_up_def Let_def)

lemma init_negotiate_refuses:
  assumes "max_read (conn w) \<noteq> 0"
  shows "\<exists>w'. init_negotiate hello_ll_oper a op_in minor fl bs ra w = init_refuse a w' \<and> same_requests w w'"
proof -
  let ?w1 = "if proto_minor (conn w) \<ge> 18 then conn_mod (\<lambda>c. c\<lparr>capable_ext := capable_ext c OR FUSE_CAP_IOCTL_DIR\<rparr>) w else w"
  let ?w2 = "conn_mod (\<lambda>c. c\<lparr>time_gran := 1\<rparr>) (init_defaults hello_ll_oper ?w1)"
  let ?w3 = "conn_mod (\<lambda>c. c\<lparr>capable := fuse_lower_32_bits (capable_ext c)\<rparr>) ?w2"
  let ?w4 = "snd (fuse_convert_to_conn_want_ext (hello_ll_init (se_userdata (se ?w3)) ?w3))"
  have "same_requests w ?w1" by (simp add: same_requests_conn_mod)
  then have "same_requests w ?w4"
    by (meson same_requests_trans same_requests_conn_mod same_requests_convert same_requests_hello_init same_requests_init_defaults)
  moreover have "init_negotiate hello_ll_oper a op_in minor fl bs ra w = init_refuse a ?w4"
    using assms by (simp add: init_negotiate_def Let_def get_max_read_def hello_ll_oper_def)
  ultimately show ?thesis by blast
qed

text \<open>\<^bold>\<open>C40\<close> Should INIT reach its handler after all (after a DESTROY) for a request of the driver, it never succeeds for the
  test file system: with the protocol's major version 7, and a session whose \<open>max_read\<close> is not the maximum read size 0 that the
  mount options of the port report, the request is answered with \<open>-EPROTO\<close>, once, and the session ends with the error
  \<open>-EPROTO\<close>. With an older major version it is answered with \<open>-EPROTO\<close> and the session goes on. With a newer one the library's
  version is written to the device (where the write does not fail) to wait for a second INIT, the session goes on, and the driver's
  request stays unanswered.\<close>

theorem init_never_succeeds:
  fixes a :: addr and nodeid :: u64 and pl :: "byte list"
  assumes "fuse_init_in_major op_in = Some major" and "fuse_init_in_minor op_in = Some minor"
    and "fuse_init_in_max_readahead op_in = Some ra" and "fuse_init_in_flags op_in = Some fl"
    and "fuse_init_in_flags2 op_in = Some fl2" and "max_read (conn w) \<noteq> 0"
    and "reqs w a = Some r" and "\<not> rq_is_uring r" and "rq_ukfs_req r = Some p" and "rq_ch r = Some p" and "ukfs w p = Some q"
  defines "w' \<equiv> do_init2 hello_ll_oper a nodeid op_in pl w"
  shows "se_error (se w') = (if major = 7 then - EPROTO else se_error (se w)) \<and>
    fuse_session_exited w' = (if major = 7 then 1 else fuse_session_exited w) \<and>
    ukfs w' = (if major \<le> 7 then (ukfs w)(p \<mapsto> set_answer (- EPROTO) RNull 0 q) else ukfs w) \<and>
    (major > 7 \<longrightarrow> dev_out w' = dev_out w @
      (case writev_errno (plat w) (nwrites w) of
         None \<Rightarrow> [(ChFd p, enc_fuse_out_header 80 0 (rq_unique r) @ enc_fuse_init_out zero_init_out)] | Some _ \<Rightarrow> []))"
proof -
  let ?w = "conn_mod (\<lambda>c. c\<lparr>proto_major := major, proto_minor := minor, capable_ext := 0, want_ext := 0\<rparr>) w"
  consider "major < 7" | "major > 7" | "major = 7" by force
  then show ?thesis
  proof cases
    case 1
    then have ord: "major \<noteq> 7" "major \<le> 7" "\<not> major > 7" by auto
    have "w' = reply_err a EPROTO ?w" using 1 assms(1-5) unfolding w'_def by (simp add: do_init2_def Let_def)
    then show ?thesis using ord assms(7-11)
      by (simp add: reply_err_def fuse_reply_err_def set_answer_def uk_semaphore_up_def conn_mod_def se_mod_def fuse_session_exited_def Let_def
          session_fuse_free_req)
  next
    case 2
    then have ord: "major \<noteq> 7" "\<not> major \<le> 7" "\<not> major < 7" by auto
    have len: "length (enc_fuse_init_out zero_init_out) = 64" "enc_fuse_init_out zero_init_out \<noteq> []"
      by (simp_all add: enc_fuse_init_out_def)
    have "w' = snd (send_reply_ok a (enc_fuse_init_out zero_init_out) ?w)" using 2 assms(1-5) unfolding w'_def by (simp add: do_init2_def Let_def)
    then show ?thesis using 2 ord assms(7-11) len
      by (auto simp: session_fuse_free_req send_reply_ok_def send_reply_def send_reply_iov_def fuse_send_reply_iov_nofree_def fuse_send_msg_def fuse_write_msg_dev_def
          iov_length_def conn_mod_def se_mod_def fuse_session_exited_def Let_def split: option.splits)
  next
    case 3
    have neg: "\<exists>w1. init_negotiate hello_ll_oper a op_in m f b x v = init_refuse a w1 \<and> same_requests w w1"
      if "max_read (conn v) \<noteq> 0" "same_requests w v" for m f b x v
      using init_negotiate_refuses [OF that(1)] same_requests_trans [OF that(2)] by blast
    have "\<exists>w1. w' = init_refuse a w1 \<and> same_requests w w1"
      using 3 assms(1-6) unfolding w'_def
      by (cases "minor \<ge> 6") (auto simp: do_init2_def Let_def intro!: neg same_requests_conn_modI)
    then show ?thesis using 3 init_refuse_result assms(7-11) by auto
  qed
qed

theorem init_never_succeeds_witness:
  "se_error (se (do_init2 hello_ll_oper 2 0 (le_bytes 4 (7 :: u32) @ le_bytes 4 (31 :: u32) @ le_bytes 4 (0 :: u32) @ le_bytes 4 (0 :: u32) @
    le_bytes 4 (0 :: u32) @ replicate 44 0) [] (demo_world\<lparr>reqs := [2 \<mapsto> zero_req\<lparr>rq_ref_cnt := 1, rq_ukfs_req := Some 3, rq_ch := Some 3\<rparr>],
    ukfs := [3 \<mapsto> fresh_request FUSE_UKFS_OPEN 1 (In_open 2 0)]\<rparr>))) = - EPROTO"
proof -
  let ?x = "le_bytes 4 (7 :: u32) @ le_bytes 4 (31 :: u32) @ le_bytes 4 (0 :: u32) @ le_bytes 4 (0 :: u32) @
    le_bytes 4 (0 :: u32) @ replicate 44 0"
  let ?w = "demo_world\<lparr>reqs := [2 \<mapsto> zero_req\<lparr>rq_ref_cnt := 1, rq_ukfs_req := Some 3, rq_ch := Some 3\<rparr>],
    ukfs := [3 \<mapsto> fresh_request FUSE_UKFS_OPEN 1 (In_open 2 0)]\<rparr>"
  have x: "fuse_init_in_major ?x = Some 7" "fuse_init_in_minor ?x = Some 31" "fuse_init_in_max_readahead ?x = Some 0"
    "fuse_init_in_flags ?x = Some 0" "fuse_init_in_flags2 ?x = Some 0"
    by (simp_all add: in_field_defs fld_simps)
  have "max_read (conn ?w) \<noteq> 0"
    by (simp add: demo_world_def fuse_session_new_versioned_def demo_platform_def Let_def)
  then show ?thesis
    using init_never_succeeds [OF x, of ?w 2 "zero_req\<lparr>rq_ref_cnt := 1, rq_ukfs_req := Some 3, rq_ch := Some 3\<rparr>" 3
      "fresh_request FUSE_UKFS_OPEN 1 (In_open 2 0)" 0 "[]"] by (simp add: zero_req_def)
qed

end
